(* ===== verification/Prelude.thy ===== *)
theory Prelude
  imports Complex_Main "HOL-Library.AList" "HOL-Library.Multiset" "HOL-Library.Sublist"
begin

text \<open>
  Shared vocabulary of the development: the Python values the program computes with
  (strings, dictionaries that remember insertion order, exceptions as values) and the
  generic lemmas and interfaces the component theories use.

  A string is a \<^typ>\<open>string\<close>, one character per code point below 256; the program's data
  (host names, strategy strings, labels) is ASCII. Classification of characters
  (\<open>is_space\<close>, \<open>is_digit\<close>, \<open>is_word\<close>, lower-casing) follows Python's \<open>str\<close> methods on
  those code points. Integers are unbounded, as Python's are. Floating-point weights and
  times are exact rationals: the code only adds, compares and takes minima of them, and
  no theorem relies on a particular rounding. A dictionary is an association list in
  insertion order (\<open>AList.update\<close> keeps the position of an existing key, as \<open>d[k] = v\<close>
  does).
\<close>

section \<open>Collections of facts\<close>

named_theorems py_defs "definitions of the small Python string helpers"
named_theorems inv_intros "invariant preservation lemmas of the state components"

section \<open>Errors as values\<close>

datatype py_error =
    ValueError string
  | KeyError string
  | IndexError
  | TypeError string
  | OverflowError
  | OSError string
  | SystemExit string

type_synonym 'a result = "py_error + 'a"

definition bind_result :: "'a result \<Rightarrow> ('a \<Rightarrow> 'b result) \<Rightarrow> 'b result" where
  "bind_result r f = (case r of Inl e \<Rightarrow> Inl e | Inr x \<Rightarrow> f x)"

lemma bind_result_simps [simp]:
  "bind_result (Inl e) f = Inl e"
  "bind_result (Inr x) f = f x"
  by (simp_all add: bind_result_def)

lemma bind_result_Inr_iff:
  "bind_result r f = Inr y \<longleftrightarrow> (\<exists>x. r = Inr x \<and> f x = Inr y)"
  by (cases r) simp_all

section \<open>Characters and strings\<close>

abbreviation code :: "char \<Rightarrow> nat" where
  "code c \<equiv> of_char c"

definition is_space :: "char \<Rightarrow> bool" where
  "is_space c = (let n = code c in
     9 \<le> n \<and> n \<le> 13 \<or> 28 \<le> n \<and> n \<le> 32 \<or> n = 133 \<or> n = 160)"

definition is_decimal :: "char \<Rightarrow> bool" where
  "is_decimal c = (48 \<le> code c \<and> code c \<le> 57)"

definition is_digit :: "char \<Rightarrow> bool" where
  "is_digit c = (is_decimal c \<or> code c \<in> {178, 179, 185})"

definition is_ascii_letter :: "char \<Rightarrow> bool" where
  "is_ascii_letter c = (let n = code c in 65 \<le> n \<and> n \<le> 90 \<or> 97 \<le> n \<and> n \<le> 122)"

definition is_word :: "char \<Rightarrow> bool" where
  "is_word c = (let n = code c in
     is_ascii_letter c \<or> is_digit c \<or> n = 95 \<or> n \<in> {170, 181, 186, 188, 189, 190}
     \<or> 192 \<le> n \<and> n \<le> 255 \<and> n \<noteq> 215 \<and> n \<noteq> 247)"

text \<open>The class \<^verbatim>\<open>[A-Za-z0-9_]\<close> of the program's regular expressions.\<close>

definition is_ident :: "char \<Rightarrow> bool" where
  "is_ident c = (is_ascii_letter c \<or> is_decimal c \<or> code c = 95)"

definition lower_char :: "char \<Rightarrow> char" where
  "lower_char c = (let n = code c in
     if 65 \<le> n \<and> n \<le> 90 \<or> 192 \<le> n \<and> n \<le> 222 \<and> n \<noteq> 215 then char_of (n + 32) else c)"

definition lower :: "string \<Rightarrow> string" where
  "lower s = map lower_char s"

definition lstrip_by :: "(char \<Rightarrow> bool) \<Rightarrow> string \<Rightarrow> string" where
  "lstrip_by p s = dropWhile p s"

definition strip_by :: "(char \<Rightarrow> bool) \<Rightarrow> string \<Rightarrow> string" where
  "strip_by p s = rev (dropWhile p (rev (dropWhile p s)))"

definition strip :: "string \<Rightarrow> string" where
  "strip s = strip_by is_space s"

definition startswith :: "string \<Rightarrow> string \<Rightarrow> bool" where
  "startswith s p = (take (length p) s = p)"

definition endswith :: "string \<Rightarrow> string \<Rightarrow> bool" where
  "endswith s p = (length p \<le> length s \<and> drop (length s - length p) s = p)"

text \<open>Python's \<open>needle in hay\<close> on strings.\<close>

fun contains :: "string \<Rightarrow> string \<Rightarrow> bool" where
  "contains p [] = (p = [])"
| "contains p (x # xs) = (startswith (x # xs) p \<or> contains p xs)"

text \<open>\<open>s.split(c)\<close> for a one-character separator, and \<open>s.split(c, 1)\<close>.\<close>

fun split_char :: "char \<Rightarrow> string \<Rightarrow> string list" where
  "split_char c [] = [[]]"
| "split_char c (x # xs) =
     (if x = c then [] # split_char c xs
      else (case split_char c xs of [] \<Rightarrow> [[x]] | w # ws \<Rightarrow> (x # w) # ws))"

definition before_char :: "char \<Rightarrow> string \<Rightarrow> string" where
  "before_char c s = takeWhile (\<lambda>x. x \<noteq> c) s"

definition after_char :: "char \<Rightarrow> string \<Rightarrow> string option" where
  "after_char c s = (case dropWhile (\<lambda>x. x \<noteq> c) s of [] \<Rightarrow> None | _ # r \<Rightarrow> Some r)"

fun join_with :: "string \<Rightarrow> string list \<Rightarrow> string" where
  "join_with sep [] = []"
| "join_with sep [w] = w"
| "join_with sep (w # ws) = w @ sep @ join_with sep ws"

lemma split_char_not_Nil [simp]: "split_char c s \<noteq> []"
  by (induction s) (auto split: list.splits)

lemma hd_split_char: "hd (split_char c s) = before_char c s"
  by (induction s) (auto simp: before_char_def split: list.splits)

lemma join_split_char: "join_with [c] (split_char c s) = s"
proof (induction s)
  case Nil
  then show ?case by simp
next
  case (Cons x xs)
  obtain w ws where sp: "split_char c xs = w # ws"
    by (cases "split_char c xs") auto
  then show ?case using Cons by (cases ws) auto
qed

lemma startswith_iff: "startswith s p \<longleftrightarrow> prefix p s"
  unfolding startswith_def prefix_def by (metis append_eq_conv_conj append_take_drop_id)

lemma contains_iff: "contains p s \<longleftrightarrow> sublist p s"
  by (induction s) (auto simp: startswith_iff sublist_Cons_right)

lemma contains_self_append: "contains p (xs @ p @ ys)"
  by (simp add: contains_iff sublist_appendI)

lemma contains_refl [simp]: "contains s s"
  using contains_self_append [of s "[]" "[]"] by simp

section \<open>Numbers and their decimal text\<close>

definition digit_val :: "char \<Rightarrow> nat" where
  "digit_val c = code c - 48"

definition nat_of_digits :: "string \<Rightarrow> nat" where
  "nat_of_digits s = foldl (\<lambda>n c. 10 * n + digit_val c) 0 s"

fun digits_of_nat :: "nat \<Rightarrow> string" where
  "digits_of_nat n =
     (if n < 10 then [char_of (48 + n)]
      else digits_of_nat (n div 10) @ [char_of (48 + n mod 10)])"

declare digits_of_nat.simps [simp del]

definition str_int :: "int \<Rightarrow> string" where
  "str_int i = (if i < 0 then CHR ''-'' # digits_of_nat (nat (- i)) else digits_of_nat (nat i))"

text \<open>
  \<open>int(s)\<close> on text: surrounding white space is ignored, one sign is allowed, then decimal
  digits that may be grouped by single underscores.
\<close>

fun digit_groups_ok :: "string \<Rightarrow> bool" where
  "digit_groups_ok [] = False"
| "digit_groups_ok [c] = is_decimal c"
| "digit_groups_ok (c # d # r) =
     (is_decimal c \<and>
      (if code d = 95 then digit_groups_ok r else digit_groups_ok (d # r)))"

definition int_of_str :: "string \<Rightarrow> int option" where
  "int_of_str s = (let t = strip s in
     case t of
       [] \<Rightarrow> None
     | c # r \<Rightarrow>
         (let body = (if c = CHR ''-'' \<or> c = CHR ''+'' then r else t);
              n = int (nat_of_digits (filter (\<lambda>x. code x \<noteq> 95) body))
          in if digit_groups_ok body then Some (if c = CHR ''-'' then - n else n) else None))"

lemma code_char_of_digit [simp]:
  "n < 10 \<Longrightarrow> of_char (char_of (48 + n) :: char) = (48 + n :: nat)"
  by simp

lemma nat_of_digits_snoc:
  "nat_of_digits (s @ [c]) = 10 * nat_of_digits s + digit_val c"
  by (simp add: nat_of_digits_def)

lemma nat_of_digits_of_nat [simp]: "nat_of_digits (digits_of_nat n) = n"
proof (induction n rule: digits_of_nat.induct)
  case (1 n)
  show ?case
  proof (cases "n < 10")
    case True
    then show ?thesis
      by (subst digits_of_nat.simps) (simp add: nat_of_digits_def digit_val_def)
  next
    case False
    then show ?thesis
      using 1 by (subst digits_of_nat.simps) (simp add: nat_of_digits_snoc digit_val_def)
  qed
qed

lemma digits_of_nat_decimal: "c \<in> set (digits_of_nat n) \<Longrightarrow> is_decimal c"
proof (induction n rule: digits_of_nat.induct)
  case (1 n)
  show ?case
  proof (cases "n < 10")
    case True
    then show ?thesis
      using 1 by (subst (asm) digits_of_nat.simps) (auto simp: is_decimal_def)
  next
    case False
    then show ?thesis
      using 1 by (subst (asm) digits_of_nat.simps) (auto simp: is_decimal_def)
  qed
qed

lemma digits_of_nat_not_Nil [simp]: "digits_of_nat n \<noteq> []"
  by (subst digits_of_nat.simps) simp

lemma digits_of_nat_inject [simp]: "digits_of_nat m = digits_of_nat n \<longleftrightarrow> m = n"
  by (metis nat_of_digits_of_nat)

section \<open>Order-preserving de-duplication: \<open>list(dict.fromkeys(xs))\<close>\<close>

fun fromkeys :: "'a list \<Rightarrow> 'a list" where
  "fromkeys [] = []"
| "fromkeys (x # xs) = x # filter (\<lambda>y. y \<noteq> x) (fromkeys xs)"

lemma set_fromkeys [simp]: "set (fromkeys xs) = set xs"
  by (induction xs) auto

lemma distinct_fromkeys [simp]: "distinct (fromkeys xs)"
  by (induction xs) auto

lemma fromkeys_id: "distinct xs \<Longrightarrow> fromkeys xs = xs"
  by (induction xs) (auto simp: filter_id_conv)

lemma fromkeys_eq_Nil_iff [simp]: "fromkeys xs = [] \<longleftrightarrow> xs = []"
  by (cases xs) auto

text \<open>
  The loop form: append what was not yet seen (\<open>if x not in out: out.append(x)\<close>).
\<close>

definition add_new :: "'a list \<Rightarrow> 'a \<Rightarrow> 'a list" where
  "add_new out x = (if x \<in> set out then out else out @ [x])"

lemma set_add_new [simp]: "set (add_new out x) = insert x (set out)"
  by (auto simp: add_new_def)

lemma distinct_add_new [simp]: "distinct out \<Longrightarrow> distinct (add_new out x)"
  by (simp add: add_new_def)

lemma set_foldl_add_new [simp]: "set (foldl add_new out xs) = set out \<union> set xs"
  by (induction xs arbitrary: out) auto

lemma distinct_foldl_add_new: "distinct out \<Longrightarrow> distinct (foldl add_new out xs)"
  by (induction xs arbitrary: out) auto

section \<open>Dictionaries in insertion order\<close>

type_synonym ('k, 'v) dict = "('k \<times> 'v) list"

abbreviation dict_get :: "('k, 'v) dict \<Rightarrow> 'k \<Rightarrow> 'v option" where
  "dict_get d k \<equiv> map_of d k"

abbreviation dict_set :: "'k \<Rightarrow> 'v \<Rightarrow> ('k, 'v) dict \<Rightarrow> ('k, 'v) dict" where
  "dict_set k v d \<equiv> AList.update k v d"

abbreviation dict_del :: "'k \<Rightarrow> ('k, 'v) dict \<Rightarrow> ('k, 'v) dict" where
  "dict_del k d \<equiv> AList.delete k d"

abbreviation dict_keys :: "('k, 'v) dict \<Rightarrow> 'k list" where
  "dict_keys d \<equiv> map fst d"

definition dict_getd :: "('k, 'v) dict \<Rightarrow> 'k \<Rightarrow> 'v \<Rightarrow> 'v" where
  "dict_getd d k dflt = (case dict_get d k of None \<Rightarrow> dflt | Some v \<Rightarrow> v)"

lemma keys_update: "set (dict_keys (dict_set k v d)) = insert k (set (dict_keys d))"
  by (simp add: dom_map_of_conv_image_fst [symmetric] update_conv')

lemma keys_delete: "set (dict_keys (dict_del k d)) = set (dict_keys d) - {k}"
  by (auto simp: AList.delete_eq)

lemma map_of_delete': "map_of (dict_del k d) k' = (if k' = k then None else map_of d k')"
  by (simp add: delete_conv')

lemma map_of_update': "map_of (dict_set k v d) k' = (if k' = k then Some v else map_of d k')"
  by (simp add: update_conv')

lemma map_of_None_keys: "map_of d k = None \<longleftrightarrow> k \<notin> set (dict_keys d)"
  by (simp add: map_of_eq_None_iff)

lemma update_new: "k \<notin> set (dict_keys d) \<Longrightarrow> dict_set k v d = d @ [(k, v)]"
  by (induction d) auto

lemma length_delete_less:
  "k \<in> set (dict_keys d) \<Longrightarrow> length (dict_del k d) < length d"
  by (induction d) (auto simp: AList.delete_eq le_imp_less_Suc)

lemma set_update_subset: "set (dict_set k v d) \<subseteq> insert (k, v) (set d)"
  by (induction d) auto

lemmas dict_simps = map_of_delete' map_of_update' keys_update keys_delete

section \<open>Invariants of operation sequences\<close>

text \<open>
  The interface every stateful component of the program offers to the arguments that run
  over whole campaigns: a state, its operations as a step function, and an invariant that
  each operation keeps. Components interpret it with their own operations.
\<close>

locale step_system =
  fixes step :: "'op \<Rightarrow> 's \<Rightarrow> 's"
    and inv :: "'s \<Rightarrow> bool"
  assumes step_inv: "inv s \<Longrightarrow> inv (step a s)"
begin

lemma run_inv: "inv s \<Longrightarrow> inv (fold step ops s)"
  by (induction ops arbitrary: s) (auto intro: step_inv)

lemma run_mono:
  assumes "\<And>a s. inv s \<Longrightarrow> P s \<Longrightarrow> P (step a s)" and "inv s" and "P s"
  shows "P (fold step ops s)"
  using assms(2,3)
proof (induction ops arbitrary: s)
  case Nil
  then show ?case by simp
next
  case (Cons a ops)
  then show ?case by (simp add: assms(1) step_inv)
qed

end

section \<open>Batching\<close>

text \<open>
  The contract of every function that cuts a work list into batches: nothing is lost,
  duplicated or reordered, no batch is empty and none exceeds the bound.
\<close>

locale batching =
  fixes batches :: "'a list \<Rightarrow> 'a list list"
    and bound :: nat
  assumes concat_batches: "concat (batches xs) = xs"
    and batch_not_Nil: "b \<in> set (batches xs) \<Longrightarrow> b \<noteq> []"
    and batch_bound: "b \<in> set (batches xs) \<Longrightarrow> length b \<le> bound"
begin

lemma batch_elems: "(\<exists>b \<in> set (batches xs). x \<in> set b) \<longleftrightarrow> x \<in> set xs"
  by (metis concat_batches set_concat UN_iff)

lemma count_batches_le: "length (batches xs) \<le> length xs"
proof -
  have "length bs \<le> length (concat bs)" if "\<forall>b \<in> set bs. b \<noteq> []" for bs :: "'a list list"
    using that by (induction bs) (auto simp: Suc_le_eq add_pos_nonneg trans_le_add2
        dest: le_neq_implies_less intro: add_strict_increasing)
  then show ?thesis
    using batch_not_Nil concat_batches by metis
qed

lemma length_le_bound_mult: "length xs \<le> bound * length (batches xs)"
proof -
  have "length (concat bs) \<le> bound * length bs" if "\<forall>b \<in> set bs. length b \<le> bound" for bs :: "'a list list"
    using that by (induction bs) auto
  then show ?thesis
    using batch_bound concat_batches by metis
qed

end

text \<open>\<open>[xs[i : i + n] for i in range(0, len(xs), n)]\<close>, for a positive step \<open>n\<close>.\<close>

function chunks :: "nat \<Rightarrow> 'a list \<Rightarrow> 'a list list" where
  "chunks n xs = (if xs = [] \<or> n = 0 then [] else take n xs # chunks n (drop n xs))"
  by pat_completeness auto
termination
  by (relation "measure (\<lambda>(n, xs). length xs)") auto

declare chunks.simps [simp del]

lemma chunks_Nil [simp]: "chunks n [] = []"
  by (simp add: chunks.simps)

lemma concat_chunks: "0 < n \<Longrightarrow> concat (chunks n xs) = xs"
proof (induction n xs rule: chunks.induct)
  case (1 n xs)
  then show ?case by (cases "xs = []") (simp_all add: chunks.simps [of n xs])
qed

lemma chunks_bounds: "0 < n \<Longrightarrow> b \<in> set (chunks n xs) \<Longrightarrow> b \<noteq> [] \<and> length b \<le> n"
proof (induction n xs rule: chunks.induct)
  case (1 n xs)
  then show ?case by (cases "xs = []") (auto simp: chunks.simps [of n xs])
qed

section \<open>Encoders and decoders\<close>

text \<open>
  What a persisted or transmitted representation promises on the values it is used for:
  decoding what was encoded gives the value back.
\<close>

locale codec =
  fixes encode :: "'a \<Rightarrow> 'b"
    and decode :: "'b \<Rightarrow> 'c"
    and view :: "'a \<Rightarrow> 'c"
    and ok :: "'a \<Rightarrow> bool"
  assumes decode_encode: "ok x \<Longrightarrow> decode (encode x) = view x"
begin

lemma encode_view: "ok x \<Longrightarrow> ok y \<Longrightarrow> encode x = encode y \<Longrightarrow> view x = view y"
  by (metis decode_encode)

end

end
