(* ===== verification/PyRegex.thy ===== *)
theory PyRegex
  imports Prelude
begin

text \<open>
  The part of Python's \<^verbatim>\<open>re\<close> the program uses, as an executable matcher with the
  backtracking order of the library: an expression run at a position gives the list of all
  ways it can match there, first choice first (left alternative before right, greedy
  repetition longest first), each with the captured groups and the position after it.
  A position is the pair of the text already read, reversed, and the text to come, so that
  anchors and word boundaries can look back. Repetition is over a character class, the
  only form the program's expressions have. Expressions compiled with \<^verbatim>\<open>re.I\<close> are run on
  the lower-cased text with lower-case literals.
\<close>

section \<open>Expressions and their runs\<close>

datatype re =
    REps
  | RCls "char \<Rightarrow> bool"
  | RStar "char \<Rightarrow> bool"
  | RSeq re re
  | RAlt re re
  | RGroup nat re
  | RStart
  | REnd
  | RBound
  | RNotAhead re
  | RNotBehind "char \<Rightarrow> bool"

type_synonym pos = "string \<times> string"
type_synonym caps = "(nat \<times> string) list"

fun star_ends :: "(char \<Rightarrow> bool) \<Rightarrow> string \<Rightarrow> string \<Rightarrow> pos list" where
  "star_ends p b [] = [(b, [])]"
| "star_ends p b (x # xs) = (if p x then star_ends p (x # b) xs else []) @ [(b, x # xs)]"

definition at_boundary :: "pos \<Rightarrow> bool" where
  "at_boundary q =
     ((case fst q of [] \<Rightarrow> False | c # _ \<Rightarrow> is_word c)
      \<noteq> (case snd q of [] \<Rightarrow> False | c # _ \<Rightarrow> is_word c))"

fun re_run :: "re \<Rightarrow> pos \<Rightarrow> (caps \<times> pos) list" where
  "re_run REps q = [([], q)]"
| "re_run (RCls p) q =
     (case snd q of [] \<Rightarrow> [] | x # xs \<Rightarrow> if p x then [([], (x # fst q, xs))] else [])"
| "re_run (RStar p) q = map (\<lambda>e. ([], e)) (star_ends p (fst q) (snd q))"
| "re_run (RSeq r1 r2) q =
     concat (map (\<lambda>(c1, q1). map (\<lambda>(c2, q2). (c1 @ c2, q2)) (re_run r2 q1)) (re_run r1 q))"
| "re_run (RAlt r1 r2) q = re_run r1 q @ re_run r2 q"
| "re_run (RGroup n r) q =
     map (\<lambda>(c, q'). (c @ [(n, take (length (snd q) - length (snd q')) (snd q))], q')) (re_run r q)"
| "re_run RStart q = (if fst q = [] then [([], q)] else [])"
| "re_run REnd q = (if snd q = [] \<or> snd q = [CHR 0x0A] then [([], q)] else [])"
| "re_run RBound q = (if at_boundary q then [([], q)] else [])"
| "re_run (RNotAhead r) q = (if re_run r q = [] then [([], q)] else [])"
| "re_run (RNotBehind p) q = (case fst q of [] \<Rightarrow> [([], q)] | c # _ \<Rightarrow> if p c then [] else [([], q)])"

section \<open>Searching\<close>

text \<open>\<open>re.search\<close>: the leftmost start with a match, and its first choice there.\<close>

fun re_search_from :: "re \<Rightarrow> string \<Rightarrow> string \<Rightarrow> (caps \<times> pos) option" where
  "re_search_from r b [] = (case re_run r (b, []) of [] \<Rightarrow> None | m # _ \<Rightarrow> Some m)"
| "re_search_from r b (x # xs) =
     (case re_run r (b, x # xs) of
        [] \<Rightarrow> re_search_from r (x # b) xs
      | m # _ \<Rightarrow> Some m)"

definition re_search :: "re \<Rightarrow> string \<Rightarrow> caps option" where
  "re_search r s = map_option fst (re_search_from r [] s)"

definition re_found :: "re \<Rightarrow> string \<Rightarrow> bool" where
  "re_found r s = (re_search_from r [] s \<noteq> None)"

definition re_fullmatch :: "re \<Rightarrow> string \<Rightarrow> bool" where
  "re_fullmatch r s = list_ex (\<lambda>(c, q). snd q = []) (re_run r ([], s))"

text \<open>
  \<open>re.finditer\<close> and \<open>re.findall\<close>: the captures of the non-overlapping matches from left to
  right. No expression of the program that is iterated matches the empty string; after an
  empty match the scan would move on by one character.
\<close>

function re_iter_from :: "re \<Rightarrow> string \<Rightarrow> string \<Rightarrow> caps list" where
  "re_iter_from r b a =
     (case re_run r (b, a) of
        (c, b', a') # _ \<Rightarrow>
          (if length a' < length a then c # re_iter_from r b' a'
           else c # (case a of [] \<Rightarrow> [] | x # xs \<Rightarrow> re_iter_from r (x # b) xs))
      | [] \<Rightarrow> (case a of [] \<Rightarrow> [] | x # xs \<Rightarrow> re_iter_from r (x # b) xs))"
  by pat_completeness auto
termination
  by (relation "measure (\<lambda>(r, b, a). length a)") auto

declare re_iter_from.simps [simp del]

definition re_finditer :: "re \<Rightarrow> string \<Rightarrow> caps list" where
  "re_finditer r s = re_iter_from r [] s"

text \<open>The text of group \<open>n\<close> of a match; a group that took no part is \<open>None\<close> in Python.\<close>

definition group :: "nat \<Rightarrow> caps \<Rightarrow> string" where
  "group n c = (case map_of c n of None \<Rightarrow> [] | Some w \<Rightarrow> w)"

definition re_findall :: "re \<Rightarrow> string \<Rightarrow> string list" where
  "re_findall r s = map (group 1) (re_finditer r s)"

section \<open>Derived expressions\<close>

fun rlit :: "string \<Rightarrow> re" where
  "rlit [] = REps"
| "rlit (x # xs) = RSeq (RCls (\<lambda>c. c = x)) (rlit xs)"

definition rplus :: "(char \<Rightarrow> bool) \<Rightarrow> re" where
  "rplus p = RSeq (RCls p) (RStar p)"

definition ropt :: "re \<Rightarrow> re" where
  "ropt r = RAlt r REps"

fun ralts :: "re list \<Rightarrow> re" where
  "ralts [] = RCls (\<lambda>_. False)"
| "ralts [r] = r"
| "ralts (r # rs) = RAlt r (ralts rs)"

fun rseqs :: "re list \<Rightarrow> re" where
  "rseqs [] = REps"
| "rseqs [r] = r"
| "rseqs (r # rs) = RSeq r (rseqs rs)"

text \<open>\<^verbatim>\<open>.*\<close> stops at a line end.\<close>

definition rany :: re where
  "rany = RStar (\<lambda>c. c \<noteq> CHR 0x0A)"

definition ranyof :: "string list \<Rightarrow> re" where
  "ranyof ws = ralts (map rlit ws)"

section \<open>What a run consumes\<close>

lemma star_ends_consume:
  "(b', a') \<in> set (star_ends p b a) \<Longrightarrow>
   \<exists>w. a = w @ a' \<and> b' = rev w @ b \<and> (\<forall>c \<in> set w. p c)"
proof (induction p b a rule: star_ends.induct)
  case (1 p b)
  then show ?case by simp
next
  case (2 p b x xs)
  show ?case
  proof (cases "(b', a') = (b, x # xs)")
    case True
    then show ?thesis by simp
  next
    case False
    with 2 have px: "p x" and "(b', a') \<in> set (star_ends p (x # b) xs)"
      by (auto split: if_splits)
    with 2(1) obtain w where "xs = w @ a'" "b' = rev w @ x # b" "\<forall>c \<in> set w. p c" by blast
    with px have "x # xs = (x # w) @ a' \<and> b' = rev (x # w) @ b \<and> (\<forall>c \<in> set (x # w). p c)"
      by simp
    then show ?thesis by blast
  qed
qed

lemma re_run_consume:
  "(c, (b', a')) \<in> set (re_run r (b, a)) \<Longrightarrow> \<exists>w. a = w @ a' \<and> b' = rev w @ b"
proof (induction r arbitrary: b a c b' a')
  case (RStar p)
  then show ?case using star_ends_consume [of b' a' p b a] by auto
next
  case (RSeq r1 r2)
  from RSeq.prems obtain c1 b1 a1 c2 where
    1: "(c1, (b1, a1)) \<in> set (re_run r1 (b, a))" and 2: "(c2, (b', a')) \<in> set (re_run r2 (b1, a1))"
    by auto
  from RSeq.IH(1) [OF 1] RSeq.IH(2) [OF 2] obtain w1 w2 where
    "a = w1 @ a1" "b1 = rev w1 @ b" "a1 = w2 @ a'" "b' = rev w2 @ b1" by blast
  then have "a = (w1 @ w2) @ a' \<and> b' = rev (w1 @ w2) @ b" by simp
  then show ?case by blast
next
  case (RGroup n r)
  then show ?case by auto
next
  case (RCls p)
  then have "a = take 1 a @ a' \<and> b' = rev (take 1 a) @ b" by (auto split: list.splits if_splits)
  then show ?case by blast
qed (auto split: if_splits list.splits)

lemma re_found_from_iff:
  "re_search_from r b a \<noteq> None \<longleftrightarrow> (\<exists>w u. a = w @ u \<and> re_run r (rev w @ b, u) \<noteq> [])"
proof (induction r b a rule: re_search_from.induct)
  case (1 r b)
  then show ?case by (auto split: list.splits)
next
  case (2 r b x xs)
  show ?case
  proof (cases "re_run r (b, x # xs)")
    case Nil
    have "(\<exists>w u. x # xs = w @ u \<and> re_run r (rev w @ b, u) \<noteq> [])
        \<longleftrightarrow> (\<exists>w u. xs = w @ u \<and> re_run r (rev w @ x # b, u) \<noteq> [])" (is "?L \<longleftrightarrow> ?R")
    proof
      assume ?L
      then obtain w u where wu: "x # xs = w @ u" "re_run r (rev w @ b, u) \<noteq> []" by blast
      with Nil obtain w' where "w = x # w'" by (cases w) auto
      with wu show ?R by auto
    next
      assume ?R
      then obtain w u where "xs = w @ u" "re_run r (rev w @ x # b, u) \<noteq> []" by blast
      then have "x # xs = (x # w) @ u \<and> re_run r (rev (x # w) @ b, u) \<noteq> []" by simp
      then show ?L by blast
    qed
    with Nil 2 show ?thesis by simp
  next
    case (Cons m ms)
    then have "x # xs = [] @ (x # xs) \<and> re_run r (rev [] @ b, x # xs) \<noteq> []" by simp
    with Cons show ?thesis by (simp del: append_Nil rev.simps) blast
  qed
qed

lemma re_found_iff: "re_found r s \<longleftrightarrow> (\<exists>w u. s = w @ u \<and> re_run r (rev w, u) \<noteq> [])"
  unfolding re_found_def by (subst re_found_from_iff) simp

section \<open>Searching for literals and alternatives\<close>

lemma re_run_rlit:
  "re_run (rlit p) (b, a) = (if prefix p a then [([], (rev p @ b, drop (length p) a))] else [])"
proof (induction p arbitrary: b a)
  case Nil
  then show ?case by simp
next
  case (Cons x xs)
  then show ?case by (cases a) (auto)
qed

lemma re_found_rlit [simp]: "re_found (rlit p) s \<longleftrightarrow> contains p s"
  by (auto simp: re_found_iff re_run_rlit contains_iff sublist_def prefix_def)

lemma re_found_RAlt [simp]: "re_found (RAlt r1 r2) s \<longleftrightarrow> re_found r1 s \<or> re_found r2 s"
  by (auto simp: re_found_iff)

lemma re_found_ranyof: "re_found (ranyof ws) s \<longleftrightarrow> (\<exists>w \<in> set ws. contains w s)"
proof -
  have "re_found (ralts (map rlit ws)) s \<longleftrightarrow> (\<exists>w \<in> set ws. contains w s)"
  proof (induction ws)
    case Nil
    then show ?case by (auto simp: re_found_iff split: list.splits)
  next
    case (Cons w ws)
    then show ?case by (cases ws) auto
  qed
  then show ?thesis by (simp add: ranyof_def)
qed

text \<open>A text that holds one literal after another on the same line is found by \<^verbatim>\<open>p.*q\<close>.\<close>

lemma star_ends_all: "\<forall>c \<in> set w. p c \<Longrightarrow> (rev w @ b, a) \<in> set (star_ends p b (w @ a))"
proof (induction w arbitrary: b)
  case Nil
  then show ?case by (cases a) auto
next
  case (Cons x w)
  then have "(rev w @ x # b, a) \<in> set (star_ends p (x # b) (w @ a))" by simp
  with Cons.prems show ?case by simp
qed

lemma re_found_lit_any_lit:
  "re_found (RSeq (rlit p) (RSeq rany (rlit q))) s \<longleftrightarrow>
   (\<exists>u v w. s = u @ p @ v @ q @ w \<and> CHR 0x0A \<notin> set v)" (is "?L \<longleftrightarrow> ?R")
proof
  assume ?L
  then obtain u r where s: "s = u @ r" and "re_run (RSeq (rlit p) (RSeq rany (rlit q))) (rev u, r) \<noteq> []"
    unfolding re_found_iff by blast
  then have pr: "prefix p r"
    and "concat (map (\<lambda>(c1, q1). map (\<lambda>(c2, q2). (c1 @ c2, q2)) (re_run (rlit q) q1))
          (re_run rany (rev p @ rev u, drop (length p) r))) \<noteq> []"
    by (auto simp: re_run_rlit split: if_splits)
  then obtain b' a' where e: "(b', a') \<in> set (star_ends (\<lambda>c. c \<noteq> CHR 0x0A) (rev p @ rev u) (drop (length p) r))"
    and qa: "prefix q a'"
    by (auto simp: rany_def re_run_rlit split: if_splits)
  from star_ends_consume [OF e] obtain v where
    v: "drop (length p) r = v @ a'" "CHR 0x0A \<notin> set v" by auto
  have "s = u @ p @ v @ q @ drop (length q) a'"
    using s pr v(1) qa by (auto simp: prefix_def)
  with v(2) show ?R by blast
next
  assume ?R
  then obtain u v w where s: "s = u @ p @ v @ q @ w" "CHR 0x0A \<notin> set v" by blast
  have "(rev v @ rev p @ rev u, q @ w)
      \<in> set (star_ends (\<lambda>c. c \<noteq> CHR 0x0A) (rev p @ rev u) (v @ q @ w))"
    using s(2) by (intro star_ends_all) auto
  then have "re_run (RSeq (rlit p) (RSeq rany (rlit q))) (rev u, p @ v @ q @ w) \<noteq> []"
    by (force simp: re_run_rlit rany_def)
  with s show ?L unfolding re_found_iff by blast
qed

end
