(* ===== verification/FailPhase.thy ===== *)
theory FailPhase
  imports PyRegex
begin

text \<open>
  \<^verbatim>\<open>engine/fail_phase.py\<close>: the named reasons a probe can fail for, their stable string
  values, and the classification of an error text and an HTTP status. The dynamic members
  \<open>http_<code>\<close> that \<open>_missing_\<close> creates are the constructor \<open>HTTP_CODE\<close>; looking a value up
  in the enumeration either finds a member, creates such a member, or raises \<open>ValueError\<close>.
\<close>

section \<open>The enumeration\<close>

datatype FailPhase =
    UNKNOWN | OTHER | PASS
  | DNS_RESOLVE | DNS_TAMPERED | DNS_SINKHOLE | L4_SYN_DROP | L4_RST_AT_SYN | ICMP_BLOCK
  | IP_BLOCKED
  | TLS_RST_AT_SNI | TLS_SILENT_DROP_AFTER_SNI | TLS_FAKE_ALERT | TLS_HANDSHAKE_ERROR
  | CONNECT_TIMEOUT | CONNECT_REFUSED
  | DATA_STALL_TLS_CERT | DATA_STALL_FIRST_REQ | DATA_STALL_7K | DATA_STALL_16K
  | DATA_STALL_42K | DATA_STALL_64K_PLUS
  | DELAYED_RST | DELAYED_FIN | TLS_INJECTED_ALERT | ZERO_WINDOW_STALL | H2_RST_STREAM
  | BANDWIDTH_THROTTLED
  | QUIC_DROP | UDP_BLOCKED
  | HTTP_REDIRECT | HTTP_BLOCKED
  | HTTP_CODE nat

fun phase_value :: "FailPhase \<Rightarrow> string" where
  "phase_value UNKNOWN = ''unknown''"
| "phase_value OTHER = ''other''"
| "phase_value PASS = ''pass''"
| "phase_value DNS_RESOLVE = ''dns_resolve''"
| "phase_value DNS_TAMPERED = ''dns_tampered''"
| "phase_value DNS_SINKHOLE = ''dns_sinkhole''"
| "phase_value L4_SYN_DROP = ''l4_syn_drop''"
| "phase_value L4_RST_AT_SYN = ''l4_rst_at_syn''"
| "phase_value ICMP_BLOCK = ''icmp_block''"
| "phase_value IP_BLOCKED = ''ip_blocked''"
| "phase_value TLS_RST_AT_SNI = ''tls_rst_at_sni''"
| "phase_value TLS_SILENT_DROP_AFTER_SNI = ''tls_silent_drop_after_sni''"
| "phase_value TLS_FAKE_ALERT = ''tls_fake_alert''"
| "phase_value TLS_HANDSHAKE_ERROR = ''tls_handshake_error''"
| "phase_value CONNECT_TIMEOUT = ''connect_timeout''"
| "phase_value CONNECT_REFUSED = ''connect_refused''"
| "phase_value DATA_STALL_TLS_CERT = ''data_stall_tls_cert''"
| "phase_value DATA_STALL_FIRST_REQ = ''data_stall_first_req''"
| "phase_value DATA_STALL_7K = ''data_stall_7k''"
| "phase_value DATA_STALL_16K = ''data_stall_16k''"
| "phase_value DATA_STALL_42K = ''data_stall_42k''"
| "phase_value DATA_STALL_64K_PLUS = ''data_stall_64k_plus''"
| "phase_value DELAYED_RST = ''delayed_rst''"
| "phase_value DELAYED_FIN = ''delayed_fin''"
| "phase_value TLS_INJECTED_ALERT = ''tls_injected_alert''"
| "phase_value ZERO_WINDOW_STALL = ''zero_window_stall''"
| "phase_value H2_RST_STREAM = ''h2_rst_stream''"
| "phase_value BANDWIDTH_THROTTLED = ''bandwidth_throttled''"
| "phase_value QUIC_DROP = ''quic_drop''"
| "phase_value UDP_BLOCKED = ''udp_blocked''"
| "phase_value HTTP_REDIRECT = ''http_redirect''"
| "phase_value HTTP_BLOCKED = ''http_blocked''"
| "phase_value (HTTP_CODE n) = ''http_'' @ digits_of_nat n"

definition static_phases :: "FailPhase list" where
  "static_phases =
     [UNKNOWN, OTHER, PASS, DNS_RESOLVE, DNS_TAMPERED, DNS_SINKHOLE, L4_SYN_DROP,
      L4_RST_AT_SYN, ICMP_BLOCK, IP_BLOCKED, TLS_RST_AT_SNI, TLS_SILENT_DROP_AFTER_SNI,
      TLS_FAKE_ALERT, TLS_HANDSHAKE_ERROR, CONNECT_TIMEOUT, CONNECT_REFUSED,
      DATA_STALL_TLS_CERT, DATA_STALL_FIRST_REQ, DATA_STALL_7K, DATA_STALL_16K,
      DATA_STALL_42K, DATA_STALL_64K_PLUS, DELAYED_RST, DELAYED_FIN, TLS_INJECTED_ALERT,
      ZERO_WINDOW_STALL, H2_RST_STREAM, BANDWIDTH_THROTTLED, QUIC_DROP, UDP_BLOCKED,
      HTTP_REDIRECT, HTTP_BLOCKED]"

definition http_value_re :: re where
  "http_value_re = rseqs [rlit ''http_'',
     RCls (\<lambda>c. c \<in> set ''345''), RCls is_decimal, RCls is_decimal]"

text \<open>\<open>FailPhase._missing_\<close>: \<open>None\<close> becomes the \<open>ValueError\<close> of the enumeration call.\<close>

definition missing_member :: "string \<Rightarrow> FailPhase option" where
  "missing_member v =
     (if re_fullmatch http_value_re v then Some (HTTP_CODE (nat_of_digits (drop 5 v))) else None)"

definition FailPhase_of :: "string \<Rightarrow> FailPhase result" where
  "FailPhase_of v =
     (case find (\<lambda>p. phase_value p = v) static_phases of
        Some p \<Rightarrow> Inr p
      | None \<Rightarrow> (case missing_member v of Some p \<Rightarrow> Inr p | None \<Rightarrow> Inl (ValueError v)))"

definition http_phase :: "int \<Rightarrow> FailPhase result" where
  "http_phase c = FailPhase_of (''http_'' @ str_int c)"

section \<open>Classification\<close>

definition not_digit_ahead :: re where
  "not_digit_ahead = RNotAhead (RCls is_decimal)"

definition PHASE_PATTERNS :: "(FailPhase \<times> re) list" where
  "PHASE_PATTERNS =
    [(ZERO_WINDOW_STALL, ranyof [''zero window'', ''window=0'', ''rwnd'']),
     (H2_RST_STREAM, ralts [rseqs [rlit ''http/2'', rany, rlit ''rst''],
        rseqs [rlit ''h2'', rany, rlit ''stream''], rlit ''rst_stream'']),
     (TLS_INJECTED_ALERT, ralts [rlit ''tls alert'', rseqs [rlit ''fatal'', rany, rlit ''alert''],
        rseqs [rlit ''alert'', rany, rlit ''fatal'']]),
     (DATA_STALL_64K_PLUS, ralts [rseqs [rlit ''stall'', rany, rlit ''64''],
        rlit ''stalled at 64'', rlit ''reassembly'']),
     (DATA_STALL_42K, ralts [rseqs [rlit ''stall'', rany, rlit ''42''], rlit ''stalled at 42'']),
     (DATA_STALL_16K, ralts [rseqs [rlit ''stall'', rany, rlit ''16''], rlit ''stalled at 16'']),
     (DATA_STALL_7K, ralts [rseqs [rlit ''stall'', rany, RBound, rlit ''7k'', RBound],
        rseqs [RBound, rlit ''7kb'', RBound],
        rseqs [rlit ''stalled at 7'', not_digit_ahead],
        rseqs [rlit ''stall'', rany, RCls (\<lambda>c. c \<notin> set ''0123456789''), rlit ''7'',
               not_digit_ahead, ropt (rlit ''k'')]]),
     (DATA_STALL_FIRST_REQ, ralts [rseqs [rlit ''stall'', rany, rlit ''first''],
        rlit ''stalled at first'', rlit ''first req'']),
     (DATA_STALL_TLS_CERT, ralts [rseqs [rlit ''stall'', rany, rlit ''cert''],
        rseqs [rlit ''cert'', rany, rlit ''stall''], rlit ''stalled at 2'']),
     (DELAYED_RST, ranyof [''reset after'', ''rst after'']),
     (DELAYED_FIN, ranyof [''fin after'', ''fin_ack'', ''fake fin'']),
     (DNS_RESOLVE, ranyof [''could not resolve'', ''failed to resolve'', ''getaddrinfo'',
        ''no doh a record'']),
     (DNS_TAMPERED, ralts [rlit ''tampered'', rseqs [rlit ''dns'', rany, rlit ''mismatch'']]),
     (DNS_SINKHOLE, ranyof [''sinkhole'', ''bogon'', ''reserved ip'', ''198.18.'', ''127.0.0.1'']),
     (CONNECT_TIMEOUT, ralts [rseqs [rlit ''time'', ropt (rlit ''d''), ropt (rlit '' ''), rlit ''out''],
        rlit ''timeout after'', rlit ''operation timed out'']),
     (CONNECT_REFUSED, ranyof [''connection refused'', ''econnrefused'']),
     (TLS_RST_AT_SNI, ralts [rlit ''recv failure'', rlit ''connection reset'', rlit ''econnreset'',
        rseqs [RBound, rlit ''tcp rst'', RBound]]),
     (TLS_SILENT_DROP_AFTER_SNI, ranyof [''no data'', ''silent'', ''frozen'', ''stalled'']),
     (TLS_HANDSHAKE_ERROR, ranyof [''ssl routines'', ''wrong_version'', ''tls'', ''handshake'']),
     (HTTP_REDIRECT, ranyof [''suspicious redirect'']),
     (HTTP_BLOCKED, ranyof [''403'', ''451'', ''captcha'', ''blocked'']),
     (IP_BLOCKED, ralts [rseqs [rlit ''ip'', rany, rlit ''block''], rlit ''blacklist'',
        rseqs [rlit ''110'', RBound]])]"

definition PASS_HTTP :: "int list" where
  "PASS_HTTP = [200, 204, 206, 401, 403, 404]"

definition INFRA_FAIL_PHASES :: "FailPhase list" where
  "INFRA_FAIL_PHASES = [CONNECT_TIMEOUT]"

definition DNS_NODATA_SKIP :: string where
  "DNS_NODATA_SKIP = ''no DoH A record (skipped probe)''"

definition INFRA_ERROR_MARKERS :: "string list" where
  "INFRA_ERROR_MARKERS = [''dev/shm'', ''Permission denied'', ''ns pool exhausted'',
     ''stopped before probe'', ''batch probe loop failed'']"

definition is_infra_fail_phase :: "string \<Rightarrow> string \<Rightarrow> bool" where
  "is_infra_fail_phase fail_phase err =
     (list_ex (\<lambda>m. contains m err) INFRA_ERROR_MARKERS \<or>
      lower (strip fail_phase) \<in> set (map phase_value INFRA_FAIL_PHASES))"

definition first_phase :: "(FailPhase \<times> re) list \<Rightarrow> string \<Rightarrow> FailPhase" where
  "first_phase pats err =
     (case find (\<lambda>(p, r). re_found r (lower err)) pats of Some (p, r) \<Rightarrow> p | None \<Rightarrow> OTHER)"

definition classify_fail_phase :: "string \<Rightarrow> int \<Rightarrow> FailPhase result" where
  "classify_fail_phase err http_code =
     (if err = [] then
        (if http_code \<in> set PASS_HTTP then Inr PASS
         else if http_code \<noteq> 0 then http_phase http_code
         else Inr UNKNOWN)
      else Inr (first_phase PHASE_PATTERNS err))"

section \<open>Enumeration values\<close>

definition valid_phase :: "FailPhase \<Rightarrow> bool" where
  "valid_phase p = (case p of HTTP_CODE n \<Rightarrow> 300 \<le> n \<and> n \<le> 599 | _ \<Rightarrow> True)"

lemma digits_of_nat_3:
  assumes "100 \<le> n" and "n < 1000"
  shows "digits_of_nat n = [char_of (48 + n div 100), char_of (48 + n div 10 mod 10), char_of (48 + n mod 10)]"
proof -
  have "digits_of_nat (n div 100) = [char_of (48 + n div 100)]"
    using assms by (subst digits_of_nat.simps) auto
  moreover have "digits_of_nat (n div 10) = digits_of_nat (n div 100) @ [char_of (48 + n div 10 mod 10)]"
    using assms by (subst digits_of_nat.simps) (auto simp: div_mult2_eq [symmetric])
  moreover have "digits_of_nat n = digits_of_nat (n div 10) @ [char_of (48 + n mod 10)]"
    using assms by (subst digits_of_nat.simps) auto
  ultimately show ?thesis by simp
qed

lemma fullmatch_http_value:
  "re_fullmatch http_value_re (''http_'' @ s) \<longleftrightarrow>
   (\<exists>a b c. s = [a, b, c] \<and> a \<in> set ''345'' \<and> is_decimal b \<and> is_decimal c)"
  by (auto simp: re_fullmatch_def http_value_re_def split: list.splits if_splits)

lemma digits_of_nat_length_le:
  "length (digits_of_nat n) = 3 \<Longrightarrow> 100 \<le> n \<and> n < 1000"
proof -
  assume a: "length (digits_of_nat n) = 3"
  have l: "length (digits_of_nat n) = (if n < 10 then 1 else Suc (length (digits_of_nat (n div 10))))" for n
    by (subst digits_of_nat.simps) simp
  have n10: "\<not> n < 10" using a l [of n] by auto
  then have 2: "length (digits_of_nat (n div 10)) = 2" using a l [of n] by simp
  then have n100: "\<not> n div 10 < 10" using l [of "n div 10"] by auto
  then have 1: "length (digits_of_nat (n div 10 div 10)) = 1" using 2 l [of "n div 10"] by simp
  have "n div 10 div 10 < 10"
  proof (rule ccontr)
    assume "\<not> ?thesis"
    then have "length (digits_of_nat (n div 10 div 10 div 10)) = 0"
      using 1 l [of "n div 10 div 10"] by simp
    then show False by simp
  qed
  with n100 show ?thesis by linarith
qed

lemma digit_345:
  fixes k :: nat
  assumes "k < 10"
  shows "char_of (48 + k) \<in> set ''345'' \<longleftrightarrow> k \<in> {3, 4, 5}"
proof -
  have "k = 0 \<or> k = 1 \<or> k = 2 \<or> k = 3 \<or> k = 4 \<or> k = 5 \<or> k = 6 \<or> k = 7 \<or> k = 8 \<or> k = 9"
    using assms by presburger
  then show ?thesis by (elim disjE) (simp_all add: char_of_def bit_0)
qed

lemma http_fullmatch_digits:
  "re_fullmatch http_value_re (''http_'' @ digits_of_nat n) \<longleftrightarrow> 300 \<le> n \<and> n \<le> 599"
proof (cases "100 \<le> n \<and> n < 1000")
  case True
  then have d: "digits_of_nat n = [char_of (48 + n div 100), char_of (48 + n div 10 mod 10), char_of (48 + n mod 10)]"
    by (intro digits_of_nat_3) auto
  have "char_of (48 + n div 100) \<in> set ''345'' \<longleftrightarrow> n div 100 \<in> {3, 4, 5}"
    using True by (intro digit_345) auto
  also have "\<dots> \<longleftrightarrow> 300 \<le> n \<and> n \<le> 599" using True by auto
  finally show ?thesis unfolding d fullmatch_http_value by (auto simp: is_decimal_def)
next
  case False
  then have "\<not> (\<exists>a b c. digits_of_nat n = [a, b, c])"
    using digits_of_nat_length_le [of n] by auto
  with False show ?thesis unfolding fullmatch_http_value by auto
qed

lemma find_static_http:
  "find (\<lambda>p. phase_value p = ''http_'' @ s) static_phases =
   (if s = ''redirect'' then Some HTTP_REDIRECT else if s = ''blocked'' then Some HTTP_BLOCKED else None)"
  by (auto simp: static_phases_def)

lemma digits_not_word: "digits_of_nat n \<noteq> ''redirect''" "digits_of_nat n \<noteq> ''blocked''"
  using digits_of_nat_decimal [of "CHR ''d''" n] by (auto simp: is_decimal_def)

lemma FailPhase_of_http_digits:
  "FailPhase_of (''http_'' @ digits_of_nat n) =
   (if 300 \<le> n \<and> n \<le> 599 then Inr (HTTP_CODE n) else Inl (ValueError (''http_'' @ digits_of_nat n)))"
  by (simp add: FailPhase_of_def find_static_http digits_not_word missing_member_def http_fullmatch_digits
      del: append_Cons append.append_Cons)

lemma http_phase_nonneg:
  "0 \<le> c \<Longrightarrow> http_phase c =
   (if 300 \<le> c \<and> c \<le> 599 then Inr (HTTP_CODE (nat c)) else Inl (ValueError (''http_'' @ digits_of_nat (nat c))))"
  unfolding http_phase_def str_int_def by (simp add: FailPhase_of_http_digits del: append_Cons append.append_Cons) linarith

section \<open>Properties\<close>

text \<open>
  With no error text the classification depends on the HTTP status alone: the six pass
  codes give \<open>PASS\<close>, 0 gives \<open>UNKNOWN\<close>, every other code from 300 to 599 gives its own
  \<open>http_<code>\<close> member, and any other code raises \<open>ValueError\<close> (for example 201 or 100).
\<close>

theorem classify_without_error:
  assumes "0 \<le> http_code"
  shows "classify_fail_phase [] http_code =
    (if http_code \<in> set PASS_HTTP then Inr PASS
     else if http_code = 0 then Inr UNKNOWN
     else if 300 \<le> http_code \<and> http_code \<le> 599 then Inr (HTTP_CODE (nat http_code))
     else Inl (ValueError (''http_'' @ digits_of_nat (nat http_code))))"
  using assms by (simp add: classify_fail_phase_def http_phase_nonneg del: append_Cons append.append_Cons)

theorem classify_without_error_witness:
  "classify_fail_phase [] 201 = Inl (ValueError (''http_'' @ digits_of_nat 201))
   \<and> classify_fail_phase [] 451 = Inr (HTTP_CODE 451)"
  using classify_without_error [of 201] classify_without_error [of 451]
  by (simp add: PASS_HTTP_def)

text \<open>
  The stable string value of every phase reads back as that phase, dynamic
  \<open>http_<code>\<close> members included.
\<close>

theorem phase_value_roundtrip:
  assumes "valid_phase p"
  shows "FailPhase_of (phase_value p) = Inr p"
proof (cases p)
  case (HTTP_CODE n)
  with assms show ?thesis
    by (simp add: FailPhase_of_http_digits valid_phase_def del: append_Cons append.append_Cons)
qed (simp_all add: FailPhase_of_def static_phases_def)

theorem phase_value_roundtrip_witness:
  "FailPhase_of (phase_value (HTTP_CODE 403)) = Inr (HTTP_CODE 403)"
  by (rule phase_value_roundtrip) (simp add: valid_phase_def)

lemma first_phase_notin:
  assumes "(p, r) \<in> set pre" and "re_found r (lower err)" and "q \<notin> fst ` set pre"
  shows "first_phase (pre @ post) err \<noteq> q"
proof -
  have "\<exists>a \<in> set pre. find (\<lambda>(p, r). re_found r (lower err)) (pre @ post) = Some a"
    using assms(1,2)
  proof (induction pre)
    case (Cons y ys)
    then show ?case by (cases "re_found (snd y) (lower err)") (auto split: prod.splits)
  qed simp
  with assms(3) show ?thesis by (force simp: first_phase_def)
qed

text \<open>
  An error text that says \<open>blocked\<close> anywhere is never classified as \<open>ip_blocked\<close>,
  whatever else it says (\<open>IP address blocked\<close> included): the HTTP pattern before it takes
  every such text.
\<close>

theorem ip_blocked_shadowed:
  assumes "contains ''blocked'' (lower err)"
  shows "classify_fail_phase err http_code \<noteq> Inr IP_BLOCKED"
proof (cases "err = []")
  case True
  with assms show ?thesis by (simp add: lower_def)
next
  case False
  have split: "PHASE_PATTERNS = take 21 PHASE_PATTERNS @ drop 21 PHASE_PATTERNS" by simp
  have "(HTTP_BLOCKED, ranyof [''403'', ''451'', ''captcha'', ''blocked'']) \<in> set (take 21 PHASE_PATTERNS)"
    by (simp add: PHASE_PATTERNS_def)
  moreover have "re_found (ranyof [''403'', ''451'', ''captcha'', ''blocked'']) (lower err)"
    using assms by (simp add: re_found_ranyof)
  moreover have "IP_BLOCKED \<notin> fst ` set (take 21 PHASE_PATTERNS)"
    by (simp add: PHASE_PATTERNS_def)
  ultimately have "first_phase PHASE_PATTERNS err \<noteq> IP_BLOCKED"
    by (subst split) (rule first_phase_notin)
  with False show ?thesis by (simp add: classify_fail_phase_def)
qed

theorem ip_blocked_shadowed_witness:
  "classify_fail_phase ''IP address blocked'' 0 \<noteq> Inr IP_BLOCKED"
  by (rule ip_blocked_shadowed) code_simp

lemma classify_zero_window:
  "contains ''zero window'' (lower err) \<Longrightarrow> classify_fail_phase err c = Inr ZERO_WINDOW_STALL"
  by (auto simp: classify_fail_phase_def first_phase_def PHASE_PATTERNS_def re_found_ranyof lower_def)

end
