(* ===== verification/Quarantine.thy ===== *)
theory Quarantine
  imports FailPhase
begin

text \<open>
  \<^verbatim>\<open>engine/domain_quarantine.py\<close>: the tracker that stops probing a domain after a number of
  failed probes with no success. The tracker's state is the record \<open>DomainQuarantine\<close>; its
  operations are \<open>seed_from_rows\<close>, \<open>seed_dns_resolve_from_rows\<close>, \<open>record_probe\<close> (the
  method \<open>record\<close>) and \<open>exclude_domains\<close>. The time stamp of a quarantine entry is an
  argument. Log messages are not modelled.
\<close>

section \<open>Configuration\<close>

definition DEFAULT_MIN_ATTEMPTS :: int where "DEFAULT_MIN_ATTEMPTS = 300"
definition DEFAULT_DNS_RESOLVE_MIN :: int where "DEFAULT_DNS_RESOLVE_MIN = 50"
definition QUARANTINE_MIN_LO :: int where "QUARANTINE_MIN_LO = 1"
definition QUARANTINE_MIN_HI :: int where "QUARANTINE_MIN_HI = 10000"

definition WORKING_PROBE_STATUSES :: "string list" where
  "WORKING_PROBE_STATUSES = [''PASS'', ''THROTTLED'']"

text \<open>A settings value of unknown type, as \<open>int(value)\<close> sees it.\<close>

datatype py_value =
    PyNone
  | PyBool bool
  | PyInt int
  | PyFloat rat
  | PyStr string
  | PyOther

fun py_int :: "py_value \<Rightarrow> int option" where
  "py_int (PyBool b) = Some (if b then 1 else 0)"
| "py_int (PyInt n) = Some n"
| "py_int (PyFloat x) = Some (if x < 0 then \<lceil>x\<rceil> else \<lfloor>x\<rfloor>)"
| "py_int (PyStr s) = int_of_str s"
| "py_int _ = None"

definition clamp_quarantine_min :: "py_value \<Rightarrow> int \<Rightarrow> int" where
  "clamp_quarantine_min val dflt =
     (if val = PyNone then dflt
      else (case py_int val of
              None \<Rightarrow> dflt
            | Some n \<Rightarrow> max QUARANTINE_MIN_LO (min QUARANTINE_MIN_HI n)))"

record DomainStats =
  st_attempts :: int
  st_passed :: int
  st_dns_resolve_attempts :: int

definition new_stats :: DomainStats where
  "new_stats = \<lparr>st_attempts = 0, st_passed = 0, st_dns_resolve_attempts = 0\<rparr>"

record QuarantineConfig =
  qc_enabled :: bool
  qc_min_attempts :: int
  qc_dns_resolve_min_attempts :: int
  qc_auto_denylist :: bool

definition default_config :: QuarantineConfig where
  "default_config = \<lparr>qc_enabled = True, qc_min_attempts = DEFAULT_MIN_ATTEMPTS,
     qc_dns_resolve_min_attempts = DEFAULT_DNS_RESOLVE_MIN, qc_auto_denylist = False\<rparr>"

text \<open>The campaign arguments the configuration is built from.\<close>

record quarantine_args =
  no_quarantine :: bool
  quarantine_min :: py_value
  dns_resolve_quarantine_min :: py_value
  quarantine_auto_denylist :: bool

definition quarantine_from_args :: "quarantine_args \<Rightarrow> QuarantineConfig option" where
  "quarantine_from_args a =
     (if no_quarantine a then None
      else Some \<lparr>qc_enabled = True,
                 qc_min_attempts = clamp_quarantine_min (quarantine_min a) DEFAULT_MIN_ATTEMPTS,
                 qc_dns_resolve_min_attempts =
                   clamp_quarantine_min (dns_resolve_quarantine_min a) DEFAULT_DNS_RESOLVE_MIN,
                 qc_auto_denylist = quarantine_auto_denylist a\<rparr>)"

section \<open>The tracker\<close>

record QInfo =
  qi_domain :: string
  qi_attempts :: int
  qi_passed :: int
  qi_failed :: int
  qi_ts :: string
  qi_reason :: string

record DomainQuarantine =
  dq_config :: QuarantineConfig
  dq_stats :: "(string, DomainStats) dict"
  dq_quarantined :: "(string, QInfo) dict"

definition new_quarantine :: "QuarantineConfig \<Rightarrow> DomainQuarantine" where
  "new_quarantine c = \<lparr>dq_config = c, dq_stats = [], dq_quarantined = []\<rparr>"

definition get_stats :: "DomainQuarantine \<Rightarrow> string \<Rightarrow> DomainStats" where
  "get_stats q d = dict_getd (dq_stats q) d new_stats"

definition put_stats :: "string \<Rightarrow> DomainStats \<Rightarrow> DomainQuarantine \<Rightarrow> DomainQuarantine" where
  "put_stats d st q = q\<lparr>dq_stats := dict_set d st (dq_stats q)\<rparr>"

definition is_quarantined :: "DomainQuarantine \<Rightarrow> string \<Rightarrow> bool" where
  "is_quarantined q d = (dict_get (dq_quarantined q) d \<noteq> None)"

definition mark :: "string \<Rightarrow> string \<Rightarrow> DomainStats \<Rightarrow> string \<Rightarrow> int \<Rightarrow> DomainQuarantine \<Rightarrow> DomainQuarantine" where
  "mark ts d st reason failed q =
     q\<lparr>dq_quarantined := dict_set d
        \<lparr>qi_domain = d, qi_attempts = st_attempts st, qi_passed = st_passed st,
         qi_failed = failed, qi_ts = ts, qi_reason = reason\<rparr> (dq_quarantined q)\<rparr>"

definition attempts_reason :: "int \<Rightarrow> string" where
  "attempts_reason n = ''0 PASS in '' @ str_int n @ '' attempts''"

definition dns_reason :: "int \<Rightarrow> string" where
  "dns_reason n = str_int n @ '' dns_resolve failures (no pin)''"

text \<open>One row of \<open>seed_from_rows\<close>; the result says whether the domain was newly quarantined.\<close>

definition seed_row :: "string \<Rightarrow> string \<times> int \<times> int \<Rightarrow> DomainQuarantine \<Rightarrow> DomainQuarantine \<times> bool" where
  "seed_row ts row q =
     (case row of (d, tot, passed) \<Rightarrow>
        let st0 = get_stats q d;
            st = st0\<lparr>st_attempts := max (st_attempts st0) tot, st_passed := max (st_passed st0) passed\<rparr>;
            q1 = put_stats d st q
        in if \<not> is_quarantined q d \<and> st_attempts st \<ge> qc_min_attempts (dq_config q) \<and> st_passed st = 0
           then (mark ts d st (attempts_reason (st_attempts st)) (st_attempts st) q1, True)
           else (q1, False))"

fun seed_rows_loop :: "(string \<times> int \<times> int \<Rightarrow> DomainQuarantine \<Rightarrow> DomainQuarantine \<times> bool)
    \<Rightarrow> (string \<times> int \<times> int) list \<Rightarrow> DomainQuarantine \<Rightarrow> DomainQuarantine \<times> string list" where
  "seed_rows_loop f [] q = (q, [])"
| "seed_rows_loop f (r # rs) q =
     (case f r q of (q1, new) \<Rightarrow>
        (case seed_rows_loop f rs q1 of (q2, ds) \<Rightarrow> (q2, if new then fst r # ds else ds)))"

definition seed_from_rows :: "string \<Rightarrow> (string \<times> int \<times> int) list \<Rightarrow> DomainQuarantine \<Rightarrow> DomainQuarantine \<times> string list" where
  "seed_from_rows ts rows q =
     (if \<not> qc_enabled (dq_config q) then (q, []) else seed_rows_loop (seed_row ts) rows q)"

definition seed_dns_row :: "string \<Rightarrow> string \<times> int \<times> int \<Rightarrow> DomainQuarantine \<Rightarrow> DomainQuarantine \<times> bool" where
  "seed_dns_row ts row q =
     (case row of (d, dns_fails, passed) \<Rightarrow>
        let st0 = get_stats q d;
            st = st0\<lparr>st_dns_resolve_attempts := max (st_dns_resolve_attempts st0) dns_fails,
                     st_passed := max (st_passed st0) passed\<rparr>;
            q1 = put_stats d st q
        in if \<not> is_quarantined q d \<and> st_passed st = 0
              \<and> st_dns_resolve_attempts st \<ge> qc_dns_resolve_min_attempts (dq_config q)
           then (mark ts d st (dns_reason (st_dns_resolve_attempts st)) (st_dns_resolve_attempts st) q1, True)
           else (q1, False))"

definition seed_dns_resolve_from_rows :: "string \<Rightarrow> (string \<times> int \<times> int) list \<Rightarrow> DomainQuarantine \<Rightarrow> DomainQuarantine \<times> string list" where
  "seed_dns_resolve_from_rows ts rows q =
     (if \<not> qc_enabled (dq_config q) then (q, []) else seed_rows_loop (seed_dns_row ts) rows q)"

definition counts_pass :: "string option \<Rightarrow> bool \<Rightarrow> bool" where
  "counts_pass status passed =
     (case status of Some s \<Rightarrow> s \<in> set WORKING_PROBE_STATUSES | None \<Rightarrow> passed)"

definition record_probe :: "string \<Rightarrow> string \<Rightarrow> bool \<Rightarrow> string option \<Rightarrow> string \<Rightarrow> string
    \<Rightarrow> DomainQuarantine \<Rightarrow> DomainQuarantine \<times> string option" where
  "record_probe ts d passed status fail_phase err q =
     (if \<not> qc_enabled (dq_config q) \<or> is_quarantined q d then (q, None)
      else if counts_pass status passed then
        (let st = get_stats q d
         in (put_stats d (st\<lparr>st_attempts := st_attempts st + 1, st_passed := st_passed st + 1\<rparr>) q, None))
      else if fail_phase = phase_value DNS_RESOLVE then
        (let st0 = get_stats q d;
             st = st0\<lparr>st_dns_resolve_attempts := st_dns_resolve_attempts st0 + 1\<rparr>;
             q1 = put_stats d st q
         in if st_passed st \<noteq> 0 then (q1, None)
            else if st_dns_resolve_attempts st < qc_dns_resolve_min_attempts (dq_config q) then (q1, None)
            else (mark ts d st (dns_reason (st_dns_resolve_attempts st)) (st_dns_resolve_attempts st) q1, Some d))
      else if is_infra_fail_phase fail_phase err then (q, None)
      else
        (let st0 = get_stats q d;
             st = st0\<lparr>st_attempts := st_attempts st0 + 1\<rparr>;
             q1 = put_stats d st q
         in if st_attempts st < qc_min_attempts (dq_config q) \<or> st_passed st \<noteq> 0 then (q1, None)
            else (mark ts d st (attempts_reason (st_attempts st)) (st_attempts st) q1, Some d)))"

definition exclude_domains :: "DomainQuarantine \<Rightarrow> string set" where
  "exclude_domains q = set (dict_keys (dq_quarantined q))"

section \<open>Operations as steps\<close>

datatype qop =
    SeedRows string "(string \<times> int \<times> int) list"
  | SeedDnsRows string "(string \<times> int \<times> int) list"
  | RecordProbe string string bool "string option" string string

fun qstep :: "qop \<Rightarrow> DomainQuarantine \<Rightarrow> DomainQuarantine" where
  "qstep (SeedRows ts rows) q = fst (seed_from_rows ts rows q)"
| "qstep (SeedDnsRows ts rows) q = fst (seed_dns_resolve_from_rows ts rows q)"
| "qstep (RecordProbe ts d p s f e) q = fst (record_probe ts d p s f e q)"

lemma is_quarantined_iff: "is_quarantined q d \<longleftrightarrow> d \<in> exclude_domains q"
  by (simp add: is_quarantined_def exclude_domains_def map_of_eq_None_iff)

lemma get_put_stats [simp]:
  "get_stats (put_stats d st q) d' = (if d' = d then st else get_stats q d')"
  by (simp add: get_stats_def put_stats_def dict_getd_def map_of_update')

lemma put_stats_other [simp]:
  "dq_quarantined (put_stats d st q) = dq_quarantined q"
  "dq_config (put_stats d st q) = dq_config q"
  "is_quarantined (put_stats d st q) d' = is_quarantined q d'"
  by (simp_all add: put_stats_def is_quarantined_def)

lemma mark_other [simp]:
  "dq_config (mark ts d st r f q) = dq_config q"
  "get_stats (mark ts d st r f q) d' = get_stats q d'"
  "is_quarantined (mark ts d st r f q) d' \<longleftrightarrow> d' = d \<or> is_quarantined q d'"
  by (simp_all add: mark_def get_stats_def is_quarantined_def map_of_update')

lemma get_mark:
  "dict_get (dq_quarantined (mark ts d st r f q)) d' =
   (if d' = d then Some \<lparr>qi_domain = d, qi_attempts = st_attempts st, qi_passed = st_passed st,
      qi_failed = f, qi_ts = ts, qi_reason = r\<rparr> else dict_get (dq_quarantined q) d')"
  by (simp add: mark_def map_of_update')

lemmas q_defs = seed_row_def seed_dns_row_def record_probe_def Let_def

text \<open>A relation kept by each row of a seed is kept by the whole seed.\<close>

lemma seed_rows_loop_inv:
  assumes "\<And>r q. P q \<Longrightarrow> P (fst (f r q))" and "P q"
  shows "P (fst (seed_rows_loop f rows q))"
  using assms(2)
proof (induction rows arbitrary: q)
  case (Cons r rows)
  then have "P (fst (seed_rows_loop f rows (fst (f r q))))" using assms(1) by blast
  then show ?case by (cases "f r q"; cases "seed_rows_loop f rows (fst (f r q))") simp
qed simp

lemma qstep_inv:
  assumes "\<And>ts r q. P q \<Longrightarrow> P (fst (seed_row ts r q))"
    and "\<And>ts r q. P q \<Longrightarrow> P (fst (seed_dns_row ts r q))"
    and "\<And>ts d p s f e q. P q \<Longrightarrow> P (fst (record_probe ts d p s f e q))"
    and "P q"
  shows "P (qstep a q)"
  using assms by (cases a)
    (auto simp: seed_from_rows_def seed_dns_resolve_from_rows_def intro: seed_rows_loop_inv [where P = P])

lemma qrun_inv:
  assumes "\<And>ts r q. P q \<Longrightarrow> P (fst (seed_row ts r q))"
    and "\<And>ts r q. P q \<Longrightarrow> P (fst (seed_dns_row ts r q))"
    and "\<And>ts d p s f e q. P q \<Longrightarrow> P (fst (record_probe ts d p s f e q))"
    and "P q"
  shows "P (fold qstep ops q)"
  using assms(4)
proof (induction ops arbitrary: q)
  case (Cons a ops)
  have "P (qstep a q)" by (rule qstep_inv [where P = P]) (use assms(1-3) Cons.prems in blast)+
  then show ?case using Cons.IH by simp
qed simp

section \<open>Invariant\<close>

text \<open>
  Every entry is filed under its own domain, records no success, and counts at least as
  many failures as one of the two thresholds asks for.
\<close>

definition info_ok :: "QuarantineConfig \<Rightarrow> string \<Rightarrow> QInfo \<Rightarrow> bool" where
  "info_ok c d i = (qi_domain i = d \<and> qi_passed i = 0 \<and>
     (qc_min_attempts c \<le> qi_failed i \<and> qi_failed i = qi_attempts i
      \<or> qc_dns_resolve_min_attempts c \<le> qi_failed i))"

definition q_inv :: "DomainQuarantine \<Rightarrow> bool" where
  "q_inv q = (\<forall>d i. dict_get (dq_quarantined q) d = Some i \<longrightarrow> info_ok (dq_config q) d i)"

lemma q_inv_put [simp]: "q_inv (put_stats d st q) = q_inv q"
  by (simp add: q_inv_def)

lemma q_inv_mark:
  "q_inv q \<Longrightarrow> st_passed st = 0 \<Longrightarrow>
   qc_min_attempts (dq_config q) \<le> f \<and> f = st_attempts st \<or> qc_dns_resolve_min_attempts (dq_config q) \<le> f \<Longrightarrow>
   q_inv (mark ts d st r f q)"
  unfolding q_inv_def by (auto simp: get_mark info_ok_def)

lemma q_inv_seed_row: "q_inv q \<Longrightarrow> q_inv (fst (seed_row ts r q))"
  by (auto simp: seed_row_def Let_def intro!: q_inv_mark split: prod.splits)

lemma q_inv_seed_dns_row: "q_inv q \<Longrightarrow> q_inv (fst (seed_dns_row ts r q))"
  by (auto simp: seed_dns_row_def Let_def intro!: q_inv_mark split: prod.splits)

lemma q_inv_record: "q_inv q \<Longrightarrow> q_inv (fst (record_probe ts d p s f e q))"
  unfolding record_probe_def Let_def by (auto intro!: q_inv_mark)

interpretation qsys: step_system qstep q_inv
  by unfold_locales (rule qstep_inv; blast intro: q_inv_seed_row q_inv_seed_dns_row q_inv_record)

lemma q_inv_new [simp]: "q_inv (new_quarantine c)"
  by (simp add: q_inv_def new_quarantine_def)

section \<open>Frame and monotonicity\<close>

lemma ops_config: "dq_config (fst (seed_row ts r q)) = dq_config q"
  "dq_config (fst (seed_dns_row ts r q)) = dq_config q"
  "dq_config (fst (record_probe ts d p s f e q)) = dq_config q"
  unfolding q_defs by (auto split: prod.splits)

lemma quarantined_mono_ops:
  "is_quarantined q x \<Longrightarrow> is_quarantined (fst (seed_row ts r q)) x"
  "is_quarantined q x \<Longrightarrow> is_quarantined (fst (seed_dns_row ts r q)) x"
  "is_quarantined q x \<Longrightarrow> is_quarantined (fst (record_probe ts d p s f e q)) x"
  unfolding q_defs by (auto split: prod.splits)

lemma passed_stable_ops:
  "0 < st_passed (get_stats q x) \<and> \<not> is_quarantined q x \<Longrightarrow>
     0 < st_passed (get_stats (fst (seed_row ts r q)) x) \<and> \<not> is_quarantined (fst (seed_row ts r q)) x"
  "0 < st_passed (get_stats q x) \<and> \<not> is_quarantined q x \<Longrightarrow>
     0 < st_passed (get_stats (fst (seed_dns_row ts r q)) x) \<and> \<not> is_quarantined (fst (seed_dns_row ts r q)) x"
  "0 < st_passed (get_stats q x) \<and> \<not> is_quarantined q x \<Longrightarrow>
     0 < st_passed (get_stats (fst (record_probe ts d p s f e q)) x)
     \<and> \<not> is_quarantined (fst (record_probe ts d p s f e q)) x"
  unfolding q_defs by (auto split: prod.splits)

lemma plain_failure_step:
  assumes "qc_enabled (dq_config q)"
    and "fail_phase \<noteq> phase_value DNS_RESOLVE" and "\<not> is_infra_fail_phase fail_phase err"
    and "\<not> is_quarantined q d" and "get_stats q d = new_stats\<lparr>st_attempts := k\<rparr>"
    and "q' = qstep (RecordProbe ts d False None fail_phase err) q"
  shows "if k + 1 < qc_min_attempts (dq_config q)
    then \<not> is_quarantined q' d \<and> get_stats q' d = new_stats\<lparr>st_attempts := k + 1\<rparr>
    else is_quarantined q' d"
  using assms by (simp add: record_probe_def counts_pass_def new_stats_def Let_def)

section \<open>Properties\<close>



text \<open>
  A domain with a success on record that is not quarantined is never quarantined
  later, whatever seeds and probe results follow.
\<close>

theorem passed_domain_never_quarantined:
  assumes "0 < st_passed (get_stats q d)" and "d \<notin> exclude_domains q"
  shows "d \<notin> exclude_domains (fold qstep ops q)"
proof -
  let ?P = "\<lambda>q. 0 < st_passed (get_stats q d) \<and> \<not> is_quarantined q d"
  have "?P (fold qstep ops q)"
    by (rule qrun_inv [where P = ?P])
      (use assms passed_stable_ops in \<open>auto simp: is_quarantined_iff\<close>)
  then show ?thesis by (simp add: is_quarantined_iff)
qed

theorem passed_domain_never_quarantined_witness:
  "''a.ru'' \<notin> exclude_domains (fold qstep [SeedRows ''t'' [(''a.ru'', 9999, 0)]]
     (qstep (RecordProbe ''t'' ''a.ru'' True None [] []) (new_quarantine default_config)))"
  by (rule passed_domain_never_quarantined; code_simp)

text \<open>
  A domain nothing is known about is quarantined by plain probe failures exactly when
  their number reaches \<open>min_attempts\<close>.
\<close>

theorem quarantined_exactly_at_threshold:
  assumes "qc_enabled (dq_config q)" and "1 \<le> qc_min_attempts (dq_config q)"
    and "get_stats q d = new_stats" and "d \<notin> exclude_domains q"
    and "fail_phase \<noteq> phase_value DNS_RESOLVE" and "\<not> is_infra_fail_phase fail_phase err"
  shows "d \<in> exclude_domains (fold qstep (replicate n (RecordProbe ts d False None fail_phase err)) q)
     \<longleftrightarrow> qc_min_attempts (dq_config q) \<le> int n"
proof -
  define F where "F = RecordProbe ts d False None fail_phase err"
  have run: "dq_config ((qstep F ^^ n) q) = dq_config q \<and>
      (if int n < qc_min_attempts (dq_config q)
       then \<not> is_quarantined ((qstep F ^^ n) q) d \<and> get_stats ((qstep F ^^ n) q) d = new_stats\<lparr>st_attempts := int n\<rparr>
       else is_quarantined ((qstep F ^^ n) q) d)"
  proof (induction n)
    case 0
    then show ?case using assms by (simp add: is_quarantined_iff new_stats_def)
  next
    case (Suc n)
    let ?q = "(qstep F ^^ n) q"
    have cfg: "dq_config (qstep F ?q) = dq_config ?q" by (simp add: F_def ops_config)
    show ?case
    proof (cases "int n < qc_min_attempts (dq_config q)")
      case True
      with Suc plain_failure_step [of ?q fail_phase err d "int n" _ ts] assms cfg show ?thesis
        by (simp add: F_def add.commute del: qstep.simps)
    next
      case False
      with Suc have "qstep F ?q = ?q" by (simp add: F_def record_probe_def)
      with Suc False show ?thesis by simp
    qed
  qed
  have "fold qstep (replicate n F) q = (qstep F ^^ n) q"
    by (induction n arbitrary: q) (simp_all add: funpow_swap1)
  with run show ?thesis by (simp add: F_def is_quarantined_iff split: if_splits)
qed

theorem quarantined_exactly_at_threshold_witness:
  "''a.ru'' \<in> exclude_domains (fold qstep (replicate 300 (RecordProbe ''t'' ''a.ru'' False None ''other'' ''x''))
      (new_quarantine default_config))
     \<longleftrightarrow> qc_min_attempts (dq_config (new_quarantine default_config)) \<le> int 300"
  by (rule quarantined_exactly_at_threshold) code_simp+

text \<open>
  Infrastructure failures (a marked error text or a connect timeout) leave no trace: a
  campaign with such a result anywhere in it ends in the same tracker state as without it.
\<close>

theorem infra_failures_do_not_count:
  assumes "is_infra_fail_phase fail_phase err" and "fail_phase \<noteq> phase_value DNS_RESOLVE"
  shows "fold qstep (xs @ RecordProbe ts d False None fail_phase err # ys) q = fold qstep (xs @ ys) q"
proof -
  have "qstep (RecordProbe ts d False None fail_phase err) q' = q'" for q'
    using assms by (simp add: record_probe_def counts_pass_def)
  then show ?thesis by simp
qed

theorem infra_failures_do_not_count_witness:
  "fold qstep ([] @ RecordProbe ''t'' ''a.ru'' False None ''connect_timeout'' ''x'' # []) (new_quarantine default_config)
   = fold qstep ([] @ []) (new_quarantine default_config)"
  by (rule infra_failures_do_not_count) code_simp+

text \<open>
  The thresholds taken from settings or the command line always lie between 1 and
  10000, whatever was given (text, nothing, a number out of range).
\<close>

theorem quarantine_thresholds_in_range:
  assumes "quarantine_from_args a = Some c"
  shows "1 \<le> qc_min_attempts c \<and> qc_min_attempts c \<le> 10000 \<and>
    1 \<le> qc_dns_resolve_min_attempts c \<and> qc_dns_resolve_min_attempts c \<le> 10000"
proof -
  have "1 \<le> clamp_quarantine_min v n \<and> clamp_quarantine_min v n \<le> 10000" if "1 \<le> n \<and> n \<le> 10000" for v n
    using that by (auto simp: clamp_quarantine_min_def QUARANTINE_MIN_LO_def QUARANTINE_MIN_HI_def split: option.splits)
  then show ?thesis
    using assms by (auto simp: quarantine_from_args_def DEFAULT_MIN_ATTEMPTS_def DEFAULT_DNS_RESOLVE_MIN_def
        split: if_splits)
qed

theorem quarantine_thresholds_in_range_witness:
  "\<exists>c. quarantine_from_args \<lparr>no_quarantine = False, quarantine_min = PyInt (- 5),
      dns_resolve_quarantine_min = PyStr ''x'', quarantine_auto_denylist = False\<rparr> = Some c
    \<and> 1 \<le> qc_min_attempts c \<and> qc_min_attempts c \<le> 10000
    \<and> 1 \<le> qc_dns_resolve_min_attempts c \<and> qc_dns_resolve_min_attempts c \<le> 10000"
  using quarantine_thresholds_in_range [of "\<lparr>no_quarantine = False, quarantine_min = PyInt (- 5),
      dns_resolve_quarantine_min = PyStr ''x'', quarantine_auto_denylist = False\<rparr>"]
  by (simp add: quarantine_from_args_def)

end
