(* ===== verification/PyText.thy ===== *)
theory PyText
  imports PyRegex
begin

text \<open>
  More of Python's text operations: line splitting, replacement, and splitting at a separator.
\<close>

definition line_break :: "char \<Rightarrow> bool" where
  "line_break c = (let n = code c in 10 \<le> n \<and> n \<le> 13 \<or> 28 \<le> n \<and> n \<le> 30 \<or> n = 133)"

text \<open>\<open>s.splitlines()\<close>; a carriage return and a line feed are one break.\<close>

fun lines_from :: "string \<Rightarrow> string \<Rightarrow> string list" where
  "lines_from cur [] = (if cur = [] then [] else [rev cur])"
| "lines_from cur [c] = (if line_break c then [rev cur] else [rev (c # cur)])"
| "lines_from cur (c # d # r) =
     (if code c = 13 \<and> code d = 10 then rev cur # lines_from [] r
      else if line_break c then rev cur # lines_from [] (d # r)
      else lines_from (c # cur) (d # r))"

definition splitlines :: "string \<Rightarrow> string list" where
  "splitlines s = lines_from [] s"

definition isdigit :: "string \<Rightarrow> bool" where
  "isdigit s = (s \<noteq> [] \<and> list_all is_digit s)"

text \<open>\<open>s.split(sep)\<close> for a separator that is not empty; \<open>skip\<close> counts the characters of a separator still to pass.\<close>

fun split_from :: "string \<Rightarrow> string \<Rightarrow> nat \<Rightarrow> string \<Rightarrow> string list" where
  "split_from sep cur skip [] = [rev cur]"
| "split_from sep cur skip (c # r) =
     (if 0 < skip then split_from sep cur (skip - 1) r
      else if startswith (c # r) sep then rev cur # split_from sep [] (length sep - 1) r
      else split_from sep (c # cur) 0 r)"

definition split_str :: "string \<Rightarrow> string \<Rightarrow> string list" where
  "split_str sep s = split_from sep [] 0 s"

text \<open>\<open>s.split()\<close>: the runs of characters that are no white space.\<close>

fun words_from :: "string \<Rightarrow> string \<Rightarrow> string list" where
  "words_from cur [] = (if cur = [] then [] else [rev cur])"
| "words_from cur (c # r) =
     (if is_space c then (if cur = [] then words_from [] r else rev cur # words_from [] r)
      else words_from (c # cur) r)"

definition split_ws :: "string \<Rightarrow> string list" where
  "split_ws s = words_from [] s"

text \<open>\<open>s.replace(c, w)\<close> for one character.\<close>

definition replace_char :: "char \<Rightarrow> string \<Rightarrow> string \<Rightarrow> string" where
  "replace_char c w s = concat (map (\<lambda>x. if x = c then w else [x]) s)"

lemma replace_char_Nil [simp]: "replace_char c w [] = []"
  by (simp add: replace_char_def)

lemma replace_char_Cons [simp]: "replace_char c w (x # s) = (if x = c then w else [x]) @ replace_char c w s"
  by (simp add: replace_char_def)

lemma replace_char_append [simp]: "replace_char c w (s @ t) = replace_char c w s @ replace_char c w t"
  by (simp add: replace_char_def)

lemma lines_from_no_break:
  "(\<And>c. c \<in> set cur \<Longrightarrow> \<not> line_break c) \<Longrightarrow> l \<in> set (lines_from cur s) \<Longrightarrow> c \<in> set l \<Longrightarrow> \<not> line_break c"
  by (induction cur s rule: lines_from.induct) (auto split: if_splits)

end
