(* ===== verification/PyOrder.thy ===== *)
theory PyOrder
  imports PyText
begin

text \<open>
  The order of Python's strings, by code points, and sorting by a string key as \<open>sorted\<close> does it: stable.
\<close>

fun string_less :: "string \<Rightarrow> string \<Rightarrow> bool" where
  "string_less s [] = False"
| "string_less [] (y # ys) = True"
| "string_less (x # xs) (y # ys) = (code x < code y \<or> x = y \<and> string_less xs ys)"

fun insort_by :: "('k \<Rightarrow> 'k \<Rightarrow> bool) \<Rightarrow> ('a \<Rightarrow> 'k) \<Rightarrow> 'a \<Rightarrow> 'a list \<Rightarrow> 'a list" where
  "insort_by lt f x [] = [x]"
| "insort_by lt f x (y # ys) = (if lt (f y) (f x) then y # insort_by lt f x ys else x # y # ys)"

definition order_by :: "('k \<Rightarrow> 'k \<Rightarrow> bool) \<Rightarrow> ('a \<Rightarrow> 'k) \<Rightarrow> 'a list \<Rightarrow> 'a list" where
  "order_by lt f xs = foldr (insort_by lt f) xs []"

definition order_by_str :: "('a \<Rightarrow> string) \<Rightarrow> 'a list \<Rightarrow> 'a list" where
  "order_by_str f xs = order_by string_less f xs"

lemma mset_insort_by [simp]: "mset (insort_by lt f x xs) = add_mset x (mset xs)"
  by (induction xs) auto

lemma mset_order_by [simp]: "mset (order_by lt f xs) = mset xs"
  unfolding order_by_def by (induction xs) auto

lemma set_order_by [simp]: "set (order_by lt f xs) = set xs"
  by (metis mset_order_by set_mset_mset)

lemma length_order_by [simp]: "length (order_by lt f xs) = length xs"
  by (metis mset_order_by size_mset)

lemma set_insort_by [simp]: "set (insort_by lt f x xs) = insert x (set xs)"
  by (induction xs) auto

text \<open>In the result no key is followed by a smaller one.\<close>

definition ordered_by :: "('k \<Rightarrow> 'k \<Rightarrow> bool) \<Rightarrow> ('a \<Rightarrow> 'k) \<Rightarrow> 'a list \<Rightarrow> bool" where
  "ordered_by lt f xs = sorted_wrt (\<lambda>x y. \<not> lt (f y) (f x)) xs"

section \<open>Sorting by a strict order\<close>

locale key_order =
  fixes lt :: "'k \<Rightarrow> 'k \<Rightarrow> bool"
  assumes lt_irrefl: "\<not> lt s s"
    and lt_trans: "lt s t \<Longrightarrow> lt t u \<Longrightarrow> lt s u"
    and lt_total: "lt s t \<or> s = t \<or> lt t s"
begin

lemma lt_asym: "lt s t \<Longrightarrow> \<not> lt t s"
  using lt_trans lt_irrefl by blast

lemma not_less_trans: "\<not> lt t s \<Longrightarrow> \<not> lt u t \<Longrightarrow> \<not> lt u s"
  using lt_total lt_trans by metis

lemma ordered_insort: "ordered_by lt f xs \<Longrightarrow> ordered_by lt f (insort_by lt f x xs)"
proof (induction xs)
  case Nil
  then show ?case by (simp add: ordered_by_def)
next
  case (Cons y ys)
  show ?case
  proof (cases "lt (f y) (f x)")
    case True
    then show ?thesis
      using Cons lt_asym [OF True] by (simp add: ordered_by_def)
  next
    case False
    then have "\<forall>z \<in> set ys. \<not> lt (f z) (f x)"
      using Cons.prems not_less_trans [of "f y" "f x"] by (auto simp: ordered_by_def)
    then show ?thesis
      using False Cons.prems by (simp add: ordered_by_def)
  qed
qed

lemma ordered_order: "ordered_by lt f (order_by lt f xs)"
  unfolding order_by_def by (induction xs) (auto simp: ordered_insort, simp add: ordered_by_def)

text \<open>The items of one key keep their order.\<close>

lemma insort_stable:
  "filter (\<lambda>y. f y = k) (insort_by lt f x xs) = (if f x = k then x # filter (\<lambda>y. f y = k) xs else filter (\<lambda>y. f y = k) xs)"
  by (induction xs) (auto simp: lt_irrefl)

lemma order_stable: "filter (\<lambda>y. f y = k) (order_by lt f xs) = filter (\<lambda>y. f y = k) xs"
  unfolding order_by_def by (induction xs) (auto simp: insort_stable)

lemma ordered_unique:
  "ordered_by lt id xs \<Longrightarrow> ordered_by lt id ys \<Longrightarrow> mset xs = mset ys \<Longrightarrow> xs = ys"
proof (induction xs arbitrary: ys)
  case Nil
  then show ?case by simp
next
  case (Cons x xs)
  then obtain y ys' where ys: "ys = y # ys'"
    by (cases ys) auto
  have "x \<in> set ys" "y \<in> set (x # xs)"
    using Cons.prems(3) ys by (metis list.set_intros(1) set_mset_mset)+
  then have "x = y"
    using Cons.prems(1,2) ys lt_total [of x y] by (auto simp: ordered_by_def)
  then show ?case
    using Cons.IH [of ys'] Cons.prems ys by (simp add: ordered_by_def)
qed

lemma order_mset: "mset xs = mset ys \<Longrightarrow> order_by lt id xs = order_by lt id ys"
  by (rule ordered_unique) (simp_all add: ordered_order)

end

section \<open>Strings\<close>

lemma string_less_irrefl [simp]: "\<not> string_less s s"
  by (induction s) auto

lemma string_less_total: "string_less s t \<or> s = t \<or> string_less t s"
proof (induction s t rule: string_less.induct)
  case (1 s)
  then show ?case by (cases s) simp_all
next
  case (3 x xs y ys)
  have "code x < code y \<or> x = y \<or> code y < code x"
    by (metis of_char_eq_iff linorder_neqE_nat)
  then show ?case
    using 3 by auto
qed auto

lemma string_less_trans: "string_less s t \<Longrightarrow> string_less t u \<Longrightarrow> string_less s u"
proof (induction s t arbitrary: u rule: string_less.induct)
  case (2 y ys)
  then show ?case by (cases u) auto
next
  case (3 x xs y ys)
  then show ?case by (cases u) auto
qed auto

interpretation str_order: key_order string_less
  by unfold_locales (auto dest: string_less_trans simp: string_less_total)

lemma set_order_by_str [simp]: "set (order_by_str f xs) = set xs"
  by (simp add: order_by_str_def)

lemma mset_order_by_str [simp]: "mset (order_by_str f xs) = mset xs"
  by (simp add: order_by_str_def)

lemma length_order_by_str [simp]: "length (order_by_str f xs) = length xs"
  by (simp add: order_by_str_def)

lemma order_by_str_mset: "mset xs = mset ys \<Longrightarrow> order_by_str id xs = order_by_str id ys"
  unfolding order_by_str_def by (rule str_order.order_mset)

text \<open>\<open>xs[:n]\<close>; a negative bound counts from the end.\<close>

definition slice_to :: "int \<Rightarrow> 'a list \<Rightarrow> 'a list" where
  "slice_to n xs = (if n < 0 then take (length xs - nat (- n)) xs else take (nat n) xs)"

lemma slice_to_take: "\<exists>k. slice_to n xs = take k xs"
  by (auto simp: slice_to_def)

lemma length_slice_to: "0 \<le> n \<Longrightarrow> int (length (slice_to n xs)) \<le> n"
  by (simp add: slice_to_def)

text \<open>\<open>s.replace(old, new)\<close> for a text that is not empty.\<close>

definition replace_str :: "string \<Rightarrow> string \<Rightarrow> string \<Rightarrow> string" where
  "replace_str old new s = join_with new (split_str old s)"

end
