(* ===== verification/RunStore.thy ===== *)
theory RunStore
  imports Quarantine PyOrder
begin

text \<open>
  \<^verbatim>\<open>engine/store/sqlite_store.py\<close>, \<^verbatim>\<open>schema.py\<close> and \<^verbatim>\<open>models.py\<close>: the campaign database and the
  buffered writer on it.

  SQLite is not code of the repository. The tables are lists of rows in insertion order; an SQL
  statement of the source is a function on them, with the documented meaning of the clauses it uses.
  What the engine does beyond the statements is an argument: the record \<open>store_env\<close> says how each
  call on a connection ends, which ids an \<^verbatim>\<open>AUTOINCREMENT\<close> leaves out, what the clocks show, and
  what other tasks log while a call is awaited. A connection of Python's \<^verbatim>\<open>sqlite3\<close> opens a
  transaction before the first \<^verbatim>\<open>INSERT\<close>; the writer connection has the committed tables and, inside a
  transaction, a working copy. Readers have a connection of their own and see the committed tables.
  Rows that a query returns without \<^verbatim>\<open>ORDER BY\<close> come in an order SQLite does not promise; here they
  come in table order and no theorem depends on it. Latencies are exact rationals.
\<close>

section \<open>Tables\<close>

record run_row =
  rn_id :: nat
  rn_started_at :: string
  rn_code_version :: string
  rn_args_hash :: string
  rn_fingerprint :: string
  rn_impersonate :: string
  rn_nfqws2_version :: string

record strategy_row =
  sg_id :: nat
  sg_name :: string
  sg_proto :: string
  sg_config_path :: string
  sg_first_seen :: string

record tcp_row =
  tw_id :: nat
  tw_run_id :: "nat option"
  tw_strategy_id :: nat
  tw_domain :: string
  tw_status :: string
  tw_http_code :: int
  tw_latency_ms :: rat
  tw_gateway_ws_ms :: rat
  tw_content_valid :: int
  tw_error :: string
  tw_timestamp :: string
  tw_read_rate_bps :: rat
  tw_resolved_ip :: string
  tw_dns_verdict :: string
  tw_doh_server :: string
  tw_fail_phase :: string
  tw_bridge_applied :: "int option"
  tw_bridge_batch_id :: int
  tw_bridge_gen :: int
  tw_probe_host :: string
  tw_epoch_ms :: int
  tw_settle_ms :: "rat option"
  tw_content_len :: "int option"

record udp_row =
  uw_id :: nat
  uw_run_id :: "nat option"
  uw_strategy_id :: nat
  uw_target :: string
  uw_status :: string
  uw_latency_ms :: rat
  uw_error :: string
  uw_timestamp :: string
  uw_epoch_ms :: int

record pair_row =
  pw_id :: nat
  pw_tcp :: string
  pw_udp :: string
  pw_domain :: string
  pw_tcp_ok :: int
  pw_gateway_ok :: int
  pw_udp_ok :: int
  pw_tcp_ms :: rat
  pw_gateway_ms :: rat
  pw_udp_ms :: rat
  pw_overall :: string
  pw_timestamp :: string

record Checkpoint =
  cp_tcp_idx :: int
  cp_udp_idx :: int
  cp_timestamp :: string
  cp_note :: string
  cp_fingerprint :: string
  cp_tcp_label :: string
  cp_udp_label :: string

record quarantined_row =
  qd_domain :: string
  qd_reason :: string
  qd_failed :: int
  qd_created :: string

record dns_audit_row =
  dw_domain :: string
  dw_udp_ips :: string
  dw_doh_ips :: string
  dw_verdict :: string
  dw_doh_server :: string
  dw_timestamp :: string

text \<open>Checkpoints carry their id beside the columns the program reads back.\<close>

record database =
  db_runs :: "run_row list"
  db_strategies :: "strategy_row list"
  db_tcp :: "tcp_row list"
  db_udp :: "udp_row list"
  db_pairs :: "pair_row list"
  db_checkpoints :: "(nat \<times> Checkpoint) list"
  db_quarantined :: "quarantined_row list"
  db_dns_audit :: "dns_audit_row list"
  db_scan_weights :: "(string, rat \<times> string) dict"
  db_triage :: "(string \<times> string \<times> string) list"

definition empty_db :: database where
  "empty_db = \<lparr>db_runs = [], db_strategies = [], db_tcp = [], db_udp = [], db_pairs = [], db_checkpoints = [],
               db_quarantined = [], db_dns_audit = [], db_scan_weights = [], db_triage = []\<rparr>"

section \<open>The store and its environment\<close>

text \<open>A buffered result: the dictionaries that \<^verbatim>\<open>log_tcp\<close> and \<^verbatim>\<open>log_udp\<close> append.\<close>

record tcp_entry =
  te_strategy :: string
  te_proto :: string
  te_config_path :: string
  te_domain :: string
  te_status :: string
  te_http_code :: int
  te_latency_ms :: rat
  te_gateway_ms :: rat
  te_content_valid :: bool
  te_error :: string
  te_timestamp :: string
  te_read_rate_bps :: rat
  te_resolved_ip :: string
  te_dns_verdict :: string
  te_doh_server :: string
  te_fail_phase :: string
  te_bridge_applied :: "bool option"
  te_probe_host :: string
  te_bridge_batch_id :: int
  te_bridge_gen :: int
  te_epoch_ms :: int
  te_settle_ms :: "rat option"
  te_content_len :: "int option"

record udp_entry =
  ue_strategy :: string
  ue_config_path :: string
  ue_target :: string
  ue_status :: string
  ue_latency_ms :: rat
  ue_error :: string
  ue_timestamp :: string
  ue_epoch_ms :: int

datatype db_exc = OperationalError string | OtherError string | CancelledError

text \<open>
  How a call on a connection ends when it does not succeed: it raises, after \<open>n\<close> rows of an
  \<^verbatim>\<open>executemany\<close>, or the awaiting task is cancelled while the worker thread still completes the call
  or not.
\<close>

datatype fault = Fails bool string nat | Cancels bool

datatype stmt = Connect | Begin | Insert | Select | Commit | Rollback | Pragma | Reader

record store_env =
  sv_fault :: "nat \<Rightarrow> stmt \<Rightarrow> fault option"
  sv_gap :: "nat \<Rightarrow> nat"
  sv_now :: "nat \<Rightarrow> string"
  sv_mono :: "nat \<Rightarrow> rat"
  sv_epoch :: "nat \<Rightarrow> int"
  sv_arrivals :: "nat \<Rightarrow> tcp_entry list \<times> udp_entry list"
  sv_version :: string
  sv_impersonate :: string
  sv_nfqws2_version :: string

record RunStore =
  ss_db :: database
  ss_work :: "database option"
  ss_conn :: bool
  ss_run_id :: "nat option"
  ss_tcp_pending :: "tcp_entry list"
  ss_udp_pending :: "udp_entry list"
  ss_batch_size :: nat
  ss_flush_interval :: rat
  ss_resume :: bool
  ss_flush_count :: nat
  ss_last_checkpoint :: "rat option"
  ss_pending_since :: "rat option"
  ss_tick :: nat

definition new_store :: "database \<Rightarrow> int \<Rightarrow> rat \<Rightarrow> bool \<Rightarrow> RunStore" where
  "new_store d batch_size flush_interval_sec resume =
     \<lparr>ss_db = d, ss_work = None, ss_conn = False, ss_run_id = None, ss_tcp_pending = [], ss_udp_pending = [],
      ss_batch_size = nat (max 0 batch_size), ss_flush_interval = max 10 (min 30 flush_interval_sec),
      ss_resume = resume, ss_flush_count = 0, ss_last_checkpoint = None, ss_pending_since = None, ss_tick = 0\<rparr>"

section \<open>Calls on a connection\<close>

type_synonym 'a db_op = "RunStore \<Rightarrow> (db_exc + 'a) \<times> RunStore"

definition return_op :: "'a \<Rightarrow> 'a db_op" where
  "return_op x s = (Inr x, s)"

definition then_op :: "'a db_op \<Rightarrow> ('a \<Rightarrow> 'b db_op) \<Rightarrow> 'b db_op" where
  "then_op m f s = (case m s of (Inl e, s1) \<Rightarrow> (Inl e, s1) | (Inr x, s1) \<Rightarrow> f x s1)"

definition fault_exc :: "bool \<Rightarrow> string \<Rightarrow> db_exc" where
  "fault_exc operational msg = (if operational then OperationalError msg else OtherError msg)"

text \<open>An entry is made from the arguments of \<^verbatim>\<open>log_tcp\<close>: the two clock fields and an empty path are filled in.\<close>

definition or_else :: "string \<Rightarrow> string \<Rightarrow> string" where
  "or_else a b = (if a \<noteq> [] then a else b)"

definition stamp_tcp :: "store_env \<Rightarrow> nat \<Rightarrow> tcp_entry \<Rightarrow> tcp_entry" where
  "stamp_tcp env n e =
     e\<lparr>te_config_path := or_else (te_config_path e) (te_strategy e), te_timestamp := sv_now env n, te_epoch_ms := sv_epoch env n\<rparr>"

definition stamp_udp :: "store_env \<Rightarrow> nat \<Rightarrow> udp_entry \<Rightarrow> udp_entry" where
  "stamp_udp env n e =
     e\<lparr>ue_config_path := or_else (ue_config_path e) (ue_strategy e), ue_timestamp := sv_now env n, ue_epoch_ms := sv_epoch env n\<rparr>"

text \<open>While a call is awaited other tasks may log results, which goes to the buffers.\<close>

definition await :: "store_env \<Rightarrow> RunStore \<Rightarrow> RunStore" where
  "await env s =
     s\<lparr>ss_tcp_pending := ss_tcp_pending s @ map (stamp_tcp env (ss_tick s)) (fst (sv_arrivals env (ss_tick s))),
       ss_udp_pending := ss_udp_pending s @ map (stamp_udp env (ss_tick s)) (snd (sv_arrivals env (ss_tick s))),
       ss_tick := Suc (ss_tick s)\<rparr>"

definition db_call :: "store_env \<Rightarrow> stmt \<Rightarrow> (nat \<Rightarrow> RunStore \<Rightarrow> RunStore) \<Rightarrow> (RunStore \<Rightarrow> 'a \<times> RunStore) \<Rightarrow> 'a db_op" where
  "db_call env k partial run s =
     (case sv_fault env (ss_tick s) k of
        None \<Rightarrow> (Inr (fst (run s)), await env (snd (run s)))
      | Some (Fails operational msg n) \<Rightarrow> (Inl (fault_exc operational msg), await env (partial n s))
      | Some (Cancels finished) \<Rightarrow> (Inl CancelledError, await env (if finished then snd (run s) else s)))"

definition current_db :: "RunStore \<Rightarrow> database" where
  "current_db s = (case ss_work s of Some d \<Rightarrow> d | None \<Rightarrow> ss_db s)"

definition implicit_begin :: "RunStore \<Rightarrow> RunStore" where
  "implicit_begin s = s\<lparr>ss_work := Some (current_db s)\<rparr>"

definition dml_many :: "store_env \<Rightarrow> (nat \<Rightarrow> database \<Rightarrow> database) \<Rightarrow> (database \<Rightarrow> 'a \<times> database) \<Rightarrow> 'a db_op" where
  "dml_many env partial g s =
     db_call env Insert (\<lambda>n s. s\<lparr>ss_work := Some (partial n (current_db s))\<rparr>)
       (\<lambda>s. (fst (g (current_db s)), s\<lparr>ss_work := Some (snd (g (current_db s)))\<rparr>)) (implicit_begin s)"

abbreviation dml :: "store_env \<Rightarrow> (database \<Rightarrow> 'a \<times> database) \<Rightarrow> 'a db_op" where
  "dml env g \<equiv> dml_many env (\<lambda>n d. d) g"

definition select :: "store_env \<Rightarrow> (database \<Rightarrow> 'a) \<Rightarrow> 'a db_op" where
  "select env g = db_call env Select (\<lambda>n s. s) (\<lambda>s. (g (current_db s), s))"

definition read_committed :: "store_env \<Rightarrow> (database \<Rightarrow> 'a) \<Rightarrow> 'a db_op" where
  "read_committed env g = db_call env Reader (\<lambda>n s. s) (\<lambda>s. (g (ss_db s), s))"

definition commit :: "store_env \<Rightarrow> unit db_op" where
  "commit env = db_call env Commit (\<lambda>n s. s) (\<lambda>s. ((), s\<lparr>ss_db := current_db s, ss_work := None\<rparr>))"

definition rollback :: "store_env \<Rightarrow> unit db_op" where
  "rollback env = db_call env Rollback (\<lambda>n s. s) (\<lambda>s. ((), s\<lparr>ss_work := None\<rparr>))"

definition begin_immediate :: "store_env \<Rightarrow> unit db_op" where
  "begin_immediate env s =
     (if ss_work s \<noteq> None then (Inl (OperationalError ''cannot start a transaction within a transaction''), await env s)
      else db_call env Begin (\<lambda>n s. s) (\<lambda>s. ((), s\<lparr>ss_work := Some (ss_db s)\<rparr>)) s)"

definition writer :: "store_env \<Rightarrow> unit db_op" where
  "writer env s = (if ss_conn s then (Inr (), s) else db_call env Connect (\<lambda>n s. s) (\<lambda>s. ((), s\<lparr>ss_conn := True\<rparr>)) s)"

definition max_id :: "nat list \<Rightarrow> nat" where
  "max_id ids = foldr max ids 0"

definition next_id :: "nat \<Rightarrow> nat list \<Rightarrow> nat" where
  "next_id gap ids = Suc (max_id ids + gap)"

section \<open>Runs and strategies\<close>

definition with_write_lock :: "store_env \<Rightarrow> 'a db_op \<Rightarrow> 'a db_op" where
  "with_write_lock env m = then_op (writer env) (\<lambda>_. m)"

definition insert_run :: "nat \<Rightarrow> run_row \<Rightarrow> database \<Rightarrow> nat \<times> database" where
  "insert_run gap r d =
     (let i = next_id gap (map rn_id (db_runs d)) in (i, d\<lparr>db_runs := db_runs d @ [r\<lparr>rn_id := i\<rparr>]\<rparr>))"

definition latest_run :: "string \<Rightarrow> database \<Rightarrow> nat option" where
  "latest_run fp d =
     (case filter (\<lambda>r. rn_fingerprint r = fp) (db_runs d) of [] \<Rightarrow> None | rs \<Rightarrow> Some (max_id (map rn_id rs)))"

definition set_run_id :: "nat \<Rightarrow> nat db_op" where
  "set_run_id i s = (Inr i, s\<lparr>ss_run_id := Some i\<rparr>)"

definition insert_new_run :: "store_env \<Rightarrow> string \<Rightarrow> string \<Rightarrow> string \<Rightarrow> string \<Rightarrow> string \<Rightarrow> nat db_op" where
  "insert_new_run env fp ah cv imp nfv s =
     then_op
       (dml env (insert_run (sv_gap env (ss_tick s))
          \<lparr>rn_id = 0, rn_started_at = sv_now env (ss_tick s), rn_code_version = cv, rn_args_hash = ah,
           rn_fingerprint = fp, rn_impersonate = imp, rn_nfqws2_version = nfv\<rparr>))
       (\<lambda>i. then_op (commit env) (\<lambda>_. set_run_id i)) s"

definition begin_run_on_db :: "store_env \<Rightarrow> bool \<Rightarrow> string \<Rightarrow> string \<Rightarrow> string \<Rightarrow> string \<Rightarrow> string \<Rightarrow> nat db_op" where
  "begin_run_on_db env use_resume fp ah cv imp nfv =
     (if use_resume \<and> fp \<noteq> [] then
        then_op (select env (latest_run fp))
          (\<lambda>found. case found of Some i \<Rightarrow> set_run_id i | None \<Rightarrow> insert_new_run env fp ah cv imp nfv)
      else insert_new_run env fp ah cv imp nfv)"

definition begin_run ::
    "store_env \<Rightarrow> bool option \<Rightarrow> string \<Rightarrow> string \<Rightarrow> string option \<Rightarrow> string option \<Rightarrow> string option \<Rightarrow> nat db_op" where
  "begin_run env resume fp ah cv imp nfv s =
     with_write_lock env
       (begin_run_on_db env (case resume of None \<Rightarrow> ss_resume s | Some b \<Rightarrow> b) fp ah
          (case cv of None \<Rightarrow> sv_version env | Some v \<Rightarrow> v)
          (case imp of None \<Rightarrow> sv_impersonate env | Some v \<Rightarrow> v)
          (case nfv of None \<Rightarrow> sv_nfqws2_version env | Some v \<Rightarrow> v)) s"

definition ensure_run_id_on_db :: "store_env \<Rightarrow> nat db_op" where
  "ensure_run_id_on_db env s =
     (case ss_run_id s of
        Some i \<Rightarrow> (Inr i, s)
      | None \<Rightarrow> begin_run_on_db env False [] [] (sv_version env) (sv_impersonate env) (sv_nfqws2_version env) s)"

text \<open>\<^verbatim>\<open>INSERT INTO strategies ... ON CONFLICT(name, proto) DO UPDATE\<close> keeps a path when the new one is empty.\<close>

definition same_strategy :: "string \<Rightarrow> string \<Rightarrow> strategy_row \<Rightarrow> bool" where
  "same_strategy name proto r = (sg_name r = name \<and> sg_proto r = proto)"

definition upsert_strategy :: "nat \<Rightarrow> string \<Rightarrow> string \<Rightarrow> string \<Rightarrow> string \<Rightarrow> database \<Rightarrow> database" where
  "upsert_strategy gap name proto config_path ts d =
     (if list_ex (same_strategy name proto) (db_strategies d)
      then d\<lparr>db_strategies := map (\<lambda>r. if same_strategy name proto r \<and> config_path \<noteq> []
                                        then r\<lparr>sg_config_path := config_path\<rparr> else r) (db_strategies d)\<rparr>
      else d\<lparr>db_strategies := db_strategies d @
               [\<lparr>sg_id = next_id gap (map sg_id (db_strategies d)), sg_name = name, sg_proto = proto,
                 sg_config_path = config_path, sg_first_seen = ts\<rparr>]\<rparr>)"

definition strategy_id :: "string \<Rightarrow> string \<Rightarrow> database \<Rightarrow> nat option" where
  "strategy_id name proto d = map_option sg_id (find (same_strategy name proto) (db_strategies d))"

definition ensure_strategy_on_db :: "store_env \<Rightarrow> string \<Rightarrow> string \<Rightarrow> string \<Rightarrow> nat db_op" where
  "ensure_strategy_on_db env name proto config_path s =
     then_op
       (dml env (\<lambda>d. ((), upsert_strategy (sv_gap env (ss_tick s)) name proto config_path (sv_now env (ss_tick s)) d)))
       (\<lambda>_. then_op (select env (strategy_id name proto))
          (\<lambda>found. case found of
             None \<Rightarrow> (\<lambda>s. (Inl (OtherError (''strategy upsert vanished: '' @ name @ '' '' @ proto)), s))
           | Some i \<Rightarrow> return_op i)) s"

definition ensure_strategy :: "store_env \<Rightarrow> string \<Rightarrow> string \<Rightarrow> string \<Rightarrow> nat db_op" where
  "ensure_strategy env name proto config_path =
     with_write_lock env
       (then_op (ensure_strategy_on_db env name proto config_path) (\<lambda>i. then_op (commit env) (\<lambda>_. return_op i)))"

type_synonym strategy_cache = "(string \<times> string, nat) dict"

definition ensure_strategy_cached ::
    "store_env \<Rightarrow> strategy_cache \<Rightarrow> string \<Rightarrow> string \<Rightarrow> string \<Rightarrow> (nat \<times> strategy_cache) db_op" where
  "ensure_strategy_cached env cache name proto config_path =
     (case dict_get cache (name, proto) of
        Some i \<Rightarrow> return_op (i, cache)
      | None \<Rightarrow> then_op (ensure_strategy_on_db env name proto config_path)
                  (\<lambda>i. return_op (i, dict_set (name, proto) i cache)))"

section \<open>Result rows\<close>

definition bool_int :: "bool \<Rightarrow> int" where
  "bool_int b = (if b then 1 else 0)"

definition tcp_row_values :: "string \<Rightarrow> nat \<Rightarrow> nat \<Rightarrow> tcp_entry \<Rightarrow> tcp_row" where
  "tcp_row_values now run_id sid e =
     \<lparr>tw_id = 0, tw_run_id = Some run_id, tw_strategy_id = sid, tw_domain = te_domain e, tw_status = te_status e,
      tw_http_code = te_http_code e, tw_latency_ms = te_latency_ms e, tw_gateway_ws_ms = te_gateway_ms e,
      tw_content_valid = bool_int (te_content_valid e), tw_error = te_error e,
      tw_timestamp = (if te_timestamp e \<noteq> [] then te_timestamp e else now),
      tw_read_rate_bps = te_read_rate_bps e, tw_resolved_ip = te_resolved_ip e, tw_dns_verdict = te_dns_verdict e,
      tw_doh_server = te_doh_server e, tw_fail_phase = te_fail_phase e,
      tw_bridge_applied = map_option bool_int (te_bridge_applied e),
      tw_bridge_batch_id = te_bridge_batch_id e, tw_bridge_gen = te_bridge_gen e, tw_probe_host = te_probe_host e,
      tw_epoch_ms = te_epoch_ms e, tw_settle_ms = te_settle_ms e, tw_content_len = te_content_len e\<rparr>"

definition udp_row_values :: "string \<Rightarrow> nat \<Rightarrow> nat \<Rightarrow> udp_entry \<Rightarrow> udp_row" where
  "udp_row_values now run_id sid e =
     \<lparr>uw_id = 0, uw_run_id = Some run_id, uw_strategy_id = sid, uw_target = ue_target e, uw_status = ue_status e,
      uw_latency_ms = ue_latency_ms e, uw_error = ue_error e,
      uw_timestamp = (if ue_timestamp e \<noteq> [] then ue_timestamp e else now), uw_epoch_ms = ue_epoch_ms e\<rparr>"

definition insert_tcp :: "nat \<Rightarrow> tcp_row \<Rightarrow> database \<Rightarrow> database" where
  "insert_tcp gap r d = d\<lparr>db_tcp := db_tcp d @ [r\<lparr>tw_id := next_id gap (map tw_id (db_tcp d))\<rparr>]\<rparr>"

definition insert_udp :: "nat \<Rightarrow> udp_row \<Rightarrow> database \<Rightarrow> database" where
  "insert_udp gap r d = d\<lparr>db_udp := db_udp d @ [r\<lparr>uw_id := next_id gap (map uw_id (db_udp d))\<rparr>]\<rparr>"

definition executemany :: "store_env \<Rightarrow> (nat \<Rightarrow> 'r \<Rightarrow> database \<Rightarrow> database) \<Rightarrow> 'r list \<Rightarrow> unit db_op" where
  "executemany env ins rows s =
     (let gap = sv_gap env (ss_tick s)
      in dml_many env (\<lambda>n. fold (ins gap) (take n rows)) (\<lambda>d. ((), fold (ins gap) rows d)) s)"

section \<open>Flushing the buffers\<close>

fun tcp_batch_rows :: "store_env \<Rightarrow> nat \<Rightarrow> strategy_cache \<Rightarrow> tcp_row list \<Rightarrow> tcp_entry list \<Rightarrow> (tcp_row list \<times> strategy_cache) db_op" where
  "tcp_batch_rows env run_id cache rows [] = return_op (rows, cache)"
| "tcp_batch_rows env run_id cache rows (e # es) =
     then_op (ensure_strategy_cached env cache (te_strategy e) (te_proto e) (te_config_path e))
       (\<lambda>(sid, cache') s. tcp_batch_rows env run_id cache' (rows @ [tcp_row_values (sv_now env (ss_tick s)) run_id sid e]) es s)"

fun udp_batch_rows :: "store_env \<Rightarrow> nat \<Rightarrow> strategy_cache \<Rightarrow> udp_row list \<Rightarrow> udp_entry list \<Rightarrow> (udp_row list \<times> strategy_cache) db_op" where
  "udp_batch_rows env run_id cache rows [] = return_op (rows, cache)"
| "udp_batch_rows env run_id cache rows (e # es) =
     then_op (ensure_strategy_cached env cache (ue_strategy e) ''udp'' (ue_config_path e))
       (\<lambda>(sid, cache') s. udp_batch_rows env run_id cache' (rows @ [udp_row_values (sv_now env (ss_tick s)) run_id sid e]) es s)"

definition when_op :: "bool \<Rightarrow> unit db_op \<Rightarrow> unit db_op" where
  "when_op c m = (if c then m else return_op ())"

definition flush_body :: "store_env \<Rightarrow> nat \<Rightarrow> tcp_entry list \<Rightarrow> udp_entry list \<Rightarrow> unit db_op" where
  "flush_body env run_id tcp_batch udp_batch =
     then_op (tcp_batch_rows env run_id [] [] tcp_batch) (\<lambda>(tcp_rows, cache).
     then_op (when_op (tcp_rows \<noteq> []) (executemany env insert_tcp tcp_rows)) (\<lambda>_.
     then_op (udp_batch_rows env run_id cache [] udp_batch) (\<lambda>(udp_rows, cache').
     then_op (when_op (udp_rows \<noteq> []) (executemany env insert_udp udp_rows)) (\<lambda>_.
     commit env))))"

text \<open>
  \<^verbatim>\<open>except Exception: await db.rollback(); raise\<close>. A cancellation is no \<^verbatim>\<open>Exception\<close> and passes through; when the
  rollback raises, its exception replaces the first.
\<close>

definition or_rollback :: "store_env \<Rightarrow> unit db_op \<Rightarrow> unit db_op" where
  "or_rollback env m s =
     (case m s of
        (Inr x, s1) \<Rightarrow> (Inr x, s1)
      | (Inl CancelledError, s1) \<Rightarrow> (Inl CancelledError, s1)
      | (Inl e, s1) \<Rightarrow> then_op (rollback env) (\<lambda>_ s2. (Inl e, s2)) s1)"

definition flush_transaction :: "store_env \<Rightarrow> tcp_entry list \<Rightarrow> udp_entry list \<Rightarrow> unit db_op" where
  "flush_transaction env tcp_batch udp_batch =
     with_write_lock env
       (then_op (ensure_run_id_on_db env) (\<lambda>run_id.
        then_op (begin_immediate env) (\<lambda>_.
        or_rollback env (flush_body env run_id tcp_batch udp_batch))))"

definition WAL_CHECKPOINT_EVERY :: nat where "WAL_CHECKPOINT_EVERY = 5"
definition WAL_CHECKPOINT_ELAPSED_SEC :: rat where "WAL_CHECKPOINT_ELAPSED_SEC = 60"

definition maybe_wal_checkpoint :: "store_env \<Rightarrow> unit db_op" where
  "maybe_wal_checkpoint env s =
     (let s1 = s\<lparr>ss_flush_count := Suc (ss_flush_count s)\<rparr>;
          now = sv_mono env (ss_tick s);
          elapsed = (case ss_last_checkpoint s of None \<Rightarrow> False | Some t \<Rightarrow> WAL_CHECKPOINT_ELAPSED_SEC \<le> now - t)
      in if ss_flush_count s1 mod WAL_CHECKPOINT_EVERY \<noteq> 0 \<and> \<not> elapsed then (Inr (), s1)
         else if \<not> ss_conn s1 then (Inr (), s1)
         else (case db_call env Pragma (\<lambda>n s. s) (\<lambda>s. ((), s)) s1 of
                 (Inr x, s2) \<Rightarrow> (Inr (), s2\<lparr>ss_last_checkpoint := Some now\<rparr>)
               | (Inl CancelledError, s2) \<Rightarrow> (Inl CancelledError, s2)
               | (Inl e, s2) \<Rightarrow> (Inr (), s2)))"

definition locked_error :: "db_exc \<Rightarrow> bool" where
  "locked_error e = (case e of OperationalError msg \<Rightarrow> contains ''locked'' (lower msg) | _ \<Rightarrow> False)"

text \<open>The five attempts; the branch on \<^verbatim>\<open>last_err\<close> after the loop is never reached, since the last attempt raises.\<close>

fun flush_attempts :: "nat \<Rightarrow> store_env \<Rightarrow> bool \<Rightarrow> tcp_entry list \<Rightarrow> udp_entry list \<Rightarrow> unit db_op" where
  "flush_attempts 0 env wal tcp_batch udp_batch s = (Inr (), s)"
| "flush_attempts (Suc left) env wal tcp_batch udp_batch s =
     (case then_op (flush_transaction env tcp_batch udp_batch) (\<lambda>_. when_op wal (maybe_wal_checkpoint env)) s of
        (Inr x, s1) \<Rightarrow> (Inr (), s1)
      | (Inl e, s1) \<Rightarrow>
          if locked_error e \<and> left \<noteq> 0 then flush_attempts left env wal tcp_batch udp_batch s1 else (Inl e, s1))"

definition requeue :: "tcp_entry list \<Rightarrow> udp_entry list \<Rightarrow> RunStore \<Rightarrow> RunStore" where
  "requeue tcp_batch udp_batch s =
     s\<lparr>ss_tcp_pending := tcp_batch @ ss_tcp_pending s, ss_udp_pending := udp_batch @ ss_udp_pending s\<rparr>"

definition flush :: "store_env \<Rightarrow> bool \<Rightarrow> unit db_op" where
  "flush env wal s =
     (let tcp_batch = ss_tcp_pending s; udp_batch = ss_udp_pending s
      in if tcp_batch = [] \<and> udp_batch = [] then (Inr (), s)
         else (case flush_attempts 5 env wal tcp_batch udp_batch (s\<lparr>ss_tcp_pending := [], ss_udp_pending := []\<rparr>) of
                 (Inr x, s1) \<Rightarrow> (Inr (), s1\<lparr>ss_pending_since := None\<rparr>)
               | (Inl CancelledError, s1) \<Rightarrow> (Inl CancelledError, s1)
               | (Inl e, s1) \<Rightarrow> (Inl e, requeue tcp_batch udp_batch s1)))"

definition mark_pending :: "store_env \<Rightarrow> RunStore \<Rightarrow> RunStore" where
  "mark_pending env s =
     (if ss_pending_since s = None then s\<lparr>ss_pending_since := Some (sv_mono env (ss_tick s))\<rparr> else s)"

definition maybe_flush_by_age :: "store_env \<Rightarrow> unit db_op" where
  "maybe_flush_by_age env s =
     (case ss_pending_since s of
        None \<Rightarrow> (Inr (), s)
      | Some t \<Rightarrow> if ss_flush_interval s \<le> sv_mono env (ss_tick s) - t then flush env True s else (Inr (), s))"

section \<open>Logging results\<close>

definition log_tcp :: "store_env \<Rightarrow> tcp_entry \<Rightarrow> unit db_op" where
  "log_tcp env e0 s =
     (let e = stamp_tcp env (ss_tick s) e0
      in if 0 < ss_batch_size s then
           (let s1 = mark_pending env (s\<lparr>ss_tcp_pending := ss_tcp_pending s @ [e]\<rparr>)
            in if ss_batch_size s1 \<le> length (ss_tcp_pending s1) then flush env True s1 else maybe_flush_by_age env s1)
         else
           with_write_lock env
             (then_op (ensure_run_id_on_db env) (\<lambda>run_id.
              then_op (ensure_strategy_on_db env (te_strategy e) (te_proto e) (te_config_path e)) (\<lambda>sid s2.
              then_op (dml env (\<lambda>d. ((), insert_tcp (sv_gap env (ss_tick s2))
                         (tcp_row_values [] run_id sid (e\<lparr>te_timestamp := sv_now env (ss_tick s2)\<rparr>)) d)))
                (\<lambda>_. commit env) s2))) s)"

definition log_udp :: "store_env \<Rightarrow> udp_entry \<Rightarrow> unit db_op" where
  "log_udp env e0 s =
     (let e = stamp_udp env (ss_tick s) e0
      in if 0 < ss_batch_size s then
           (let s1 = mark_pending env (s\<lparr>ss_udp_pending := ss_udp_pending s @ [e]\<rparr>)
            in if ss_batch_size s1 \<le> length (ss_udp_pending s1) then flush env True s1 else maybe_flush_by_age env s1)
         else
           with_write_lock env
             (then_op (ensure_run_id_on_db env) (\<lambda>run_id.
              then_op (ensure_strategy_on_db env (ue_strategy e) ''udp'' (ue_config_path e)) (\<lambda>sid s2.
              then_op (dml env (\<lambda>d. ((), insert_udp (sv_gap env (ss_tick s2))
                         (udp_row_values [] run_id sid (e\<lparr>ue_timestamp := sv_now env (ss_tick s2)\<rparr>)) d)))
                (\<lambda>_. commit env) s2))) s)"

text \<open>One pass of the loop of the timer task.\<close>

definition flush_timer_tick :: "store_env \<Rightarrow> unit db_op" where
  "flush_timer_tick env s =
     (if ss_tcp_pending s \<noteq> [] \<or> ss_udp_pending s \<noteq> [] then flush env True s else (Inr (), s))"

text \<open>
  \<^verbatim>\<open>close\<close>: the errors of the last flush are only logged, the writer is closed, which rolls back what is
  not committed.
\<close>

definition close_store :: "store_env \<Rightarrow> RunStore \<Rightarrow> RunStore" where
  "close_store env s = (snd (flush env False s))\<lparr>ss_conn := False, ss_work := None\<rparr>"

section \<open>The other tables\<close>

definition write_row :: "store_env \<Rightarrow> (nat \<Rightarrow> string \<Rightarrow> database \<Rightarrow> database) \<Rightarrow> unit db_op" where
  "write_row env ins =
     with_write_lock env (\<lambda>s.
       then_op (dml env (\<lambda>d. ((), ins (sv_gap env (ss_tick s)) (sv_now env (ss_tick s)) d))) (\<lambda>_. commit env) s)"

definition upsert_quarantined :: "string \<Rightarrow> string \<Rightarrow> int \<Rightarrow> string \<Rightarrow> database \<Rightarrow> database" where
  "upsert_quarantined d reason failed ts db =
     (if list_ex (\<lambda>r. qd_domain r = d) (db_quarantined db)
      then db\<lparr>db_quarantined := map (\<lambda>r. if qd_domain r = d then r\<lparr>qd_reason := reason, qd_failed := failed\<rparr> else r) (db_quarantined db)\<rparr>
      else db\<lparr>db_quarantined := db_quarantined db @ [\<lparr>qd_domain = d, qd_reason = reason, qd_failed = failed, qd_created = ts\<rparr>]\<rparr>)"

definition quarantine_domain :: "store_env \<Rightarrow> string \<Rightarrow> string \<Rightarrow> int \<Rightarrow> unit db_op" where
  "quarantine_domain env d reason failed = write_row env (\<lambda>gap ts. upsert_quarantined d reason failed ts)"

definition get_quarantined :: "store_env \<Rightarrow> (quarantined_row list) db_op" where
  "get_quarantined env = read_committed env (\<lambda>d. order_by_str qd_created (db_quarantined d))"

definition write_dns_audit_log :: "store_env \<Rightarrow> dns_audit_row \<Rightarrow> unit db_op" where
  "write_dns_audit_log env r =
     write_row env (\<lambda>gap ts d. d\<lparr>db_dns_audit := db_dns_audit d @ [r\<lparr>dw_timestamp := or_else (dw_timestamp r) ts\<rparr>]\<rparr>)"

definition log_pair :: "store_env \<Rightarrow> string \<Rightarrow> string \<Rightarrow> string \<Rightarrow> bool \<Rightarrow> bool \<Rightarrow> bool \<Rightarrow> rat \<Rightarrow> rat \<Rightarrow> rat \<Rightarrow> string \<Rightarrow> unit db_op" where
  "log_pair env tcp udp d tcp_ok gateway_ok udp_ok tcp_ms gateway_ms udp_ms overall =
     write_row env (\<lambda>gap ts db. db\<lparr>db_pairs := db_pairs db @
       [\<lparr>pw_id = next_id gap (map pw_id (db_pairs db)), pw_tcp = tcp, pw_udp = udp, pw_domain = d,
         pw_tcp_ok = bool_int tcp_ok, pw_gateway_ok = bool_int gateway_ok, pw_udp_ok = bool_int udp_ok,
         pw_tcp_ms = tcp_ms, pw_gateway_ms = gateway_ms, pw_udp_ms = udp_ms, pw_overall = overall, pw_timestamp = ts\<rparr>]\<rparr>)"

definition save_checkpoint :: "store_env \<Rightarrow> int \<Rightarrow> int \<Rightarrow> string \<Rightarrow> string \<Rightarrow> string \<Rightarrow> string \<Rightarrow> unit db_op" where
  "save_checkpoint env tcp_idx udp_idx note fp tcp_label udp_label =
     write_row env (\<lambda>gap ts d. d\<lparr>db_checkpoints := db_checkpoints d @
       [(next_id gap (map fst (db_checkpoints d)),
         \<lparr>cp_tcp_idx = tcp_idx, cp_udp_idx = udp_idx, cp_timestamp = ts, cp_note = note, cp_fingerprint = fp,
          cp_tcp_label = tcp_label, cp_udp_label = udp_label\<rparr>)]\<rparr>)"

definition latest_checkpoint :: "store_env \<Rightarrow> (Checkpoint option) db_op" where
  "latest_checkpoint env =
     read_committed env (\<lambda>d. map_option snd (find (\<lambda>(i, c). i = max_id (map fst (db_checkpoints d))) (db_checkpoints d)))"

definition save_scan_weights :: "store_env \<Rightarrow> (string \<times> rat) list \<Rightarrow> unit db_op" where
  "save_scan_weights env rows s =
     (let ts = sv_now env (ss_tick s)
      in with_write_lock env
           (foldr (\<lambda>(k, w) m. then_op (dml env (\<lambda>d. ((), d\<lparr>db_scan_weights := dict_set k (w, ts) (db_scan_weights d)\<rparr>))) (\<lambda>_. m))
              rows (commit env)) s)"

definition load_scan_weights :: "store_env \<Rightarrow> ((string \<times> rat) list) db_op" where
  "load_scan_weights env =
     read_committed env (\<lambda>d. order_by_str fst (map (\<lambda>(k, w, ts). (k, w)) (db_scan_weights d)))"

definition save_triage_snapshot :: "store_env \<Rightarrow> string \<Rightarrow> string \<Rightarrow> unit db_op" where
  "save_triage_snapshot env d payload_json =
     write_row env (\<lambda>gap ts db. db\<lparr>db_triage := db_triage db @ [(d, payload_json, ts)]\<rparr>)"

section \<open>Queries\<close>

definition working_status :: "string \<Rightarrow> bool" where
  "working_status st = (st = ''PASS'' \<or> st = ''THROTTLED'')"

definition campaign_pass_tcp :: "tcp_row \<Rightarrow> bool" where
  "campaign_pass_tcp t = (tw_bridge_applied t = None \<or> tw_bridge_applied t = Some 1)"

definition row_works :: "tcp_row \<Rightarrow> bool" where
  "row_works t = (working_status (tw_status t) \<and> campaign_pass_tcp t)"

text \<open>\<^verbatim>\<open>JOIN strategies s ON t.strategy_id = s.id\<close>\<close>

definition joined :: "database \<Rightarrow> (strategy_row \<times> tcp_row) list" where
  "joined d = concat (map (\<lambda>t. map (\<lambda>r. (r, t)) (filter (\<lambda>r. sg_id r = tw_strategy_id t) (db_strategies d))) (db_tcp d))"

text \<open>The subquery that picks the newest row of a strategy and a domain, of all runs or of one.\<close>

definition same_key :: "tcp_row \<Rightarrow> tcp_row \<Rightarrow> bool" where
  "same_key t t2 = (tw_strategy_id t2 = tw_strategy_id t \<and> tw_domain t2 = tw_domain t)"

definition is_latest :: "database \<Rightarrow> tcp_row \<Rightarrow> bool" where
  "is_latest d t = (tw_id t = max_id (map tw_id (filter (same_key t) (db_tcp d))))"

definition is_latest_in_run :: "nat \<Rightarrow> database \<Rightarrow> tcp_row \<Rightarrow> bool" where
  "is_latest_in_run run_id d t =
     (tw_id t = max_id (map tw_id (filter (\<lambda>t2. same_key t t2 \<and> tw_run_id t2 = Some run_id) (db_tcp d))))"

definition sql_limit :: "int \<Rightarrow> 'a list \<Rightarrow> 'a list" where
  "sql_limit n xs = (if n < 0 then xs else take (nat n) xs)"

definition sum_case :: "('a \<Rightarrow> bool) \<Rightarrow> 'a list \<Rightarrow> int" where
  "sum_case p xs = int (length (filter p xs))"

definition domain_groups :: "database \<Rightarrow> string list" where
  "domain_groups d = fromkeys (map tw_domain (db_tcp d))"

definition domain_pass_rows :: "store_env \<Rightarrow> ((string \<times> int \<times> int) list) db_op" where
  "domain_pass_rows env =
     read_committed env (\<lambda>d. map (\<lambda>x.
       (x, sum_case (\<lambda>t. tw_domain t = x) (db_tcp d), sum_case (\<lambda>t. tw_domain t = x \<and> row_works t) (db_tcp d))) (domain_groups d))"

definition domain_dns_resolve_fail_rows :: "store_env \<Rightarrow> ((string \<times> int \<times> int) list) db_op" where
  "domain_dns_resolve_fail_rows env =
     read_committed env (\<lambda>d. map (\<lambda>x.
       (x, sum_case (\<lambda>t. tw_domain t = x \<and> tw_fail_phase t = ''dns_resolve'') (db_tcp d),
        sum_case (\<lambda>t. tw_domain t = x \<and> row_works t) (db_tcp d))) (domain_groups d))"

definition latest_rows :: "(strategy_row \<Rightarrow> tcp_row \<Rightarrow> bool) \<Rightarrow> database \<Rightarrow> (strategy_row \<times> tcp_row) list" where
  "latest_rows p d = filter (\<lambda>(r, t). p r t \<and> is_latest d t) (joined d)"

definition SQLITE_RETRY_ATTEMPTS :: nat where "SQLITE_RETRY_ATTEMPTS = 3"

definition retryable_sqlite :: "db_exc \<Rightarrow> bool" where
  "retryable_sqlite e =
     (case e of OperationalError msg \<Rightarrow> list_ex (\<lambda>tok. contains tok (lower msg)) [''disk i/o'', ''locked'', ''busy''] | _ \<Rightarrow> False)"

fun sqlite_retry :: "nat \<Rightarrow> 'a db_op \<Rightarrow> 'a db_op" where
  "sqlite_retry 0 m s = m s"
| "sqlite_retry (Suc left) m s =
     (case m s of
        (Inr x, s1) \<Rightarrow> (Inr x, s1)
      | (Inl e, s1) \<Rightarrow> if retryable_sqlite e \<and> left \<noteq> 0 then sqlite_retry left m s1 else (Inl e, s1))"

definition domain_pass_stats :: "store_env \<Rightarrow> string \<Rightarrow> string list \<Rightarrow> (int \<times> int) db_op" where
  "domain_pass_stats env d protos =
     (if protos = [] then return_op (0, 0)
      else sqlite_retry SQLITE_RETRY_ATTEMPTS (read_committed env (\<lambda>db.
             (let rows = latest_rows (\<lambda>r t. tw_domain t = d \<and> sg_proto r \<in> set protos) db
              in (int (length rows), sum_case (\<lambda>(r, t). row_works t) rows)))))"

definition on_writer :: "store_env \<Rightarrow> 'a db_op \<Rightarrow> 'a db_op" where
  "on_writer env fn = sqlite_retry SQLITE_RETRY_ATTEMPTS (with_write_lock env fn)"

definition count_tcp_passes :: "store_env \<Rightarrow> string option \<Rightarrow> int db_op" where
  "count_tcp_passes env d =
     (case d of
        Some x \<Rightarrow> if x \<noteq> [] then then_op (domain_pass_stats env x [''tcp'']) (\<lambda>(n, passed). return_op passed)
                  else on_writer env (select env (\<lambda>db. int (length (latest_rows (\<lambda>r t. row_works t \<and> sg_proto r = ''tcp'') db))))
      | None \<Rightarrow> on_writer env (select env (\<lambda>db. int (length (latest_rows (\<lambda>r t. row_works t \<and> sg_proto r = ''tcp'') db)))))"

definition working_details :: "string \<Rightarrow> string \<Rightarrow> database \<Rightarrow> (string \<times> string \<times> rat) list" where
  "working_details d proto db =
     map (\<lambda>(r, t). (sg_name r, tw_status t, tw_latency_ms t))
       (latest_rows (\<lambda>r t. sg_proto r = proto \<and> tw_domain t = d \<and> row_works t) db)"

definition get_working_proto_details :: "store_env \<Rightarrow> string \<Rightarrow> string \<Rightarrow> ((string \<times> string \<times> rat) list) db_op" where
  "get_working_proto_details env d proto =
     then_op (flush env True) (\<lambda>_. read_committed env (working_details d proto))"

definition get_working_proto :: "store_env \<Rightarrow> string \<Rightarrow> string \<Rightarrow> (string list) db_op" where
  "get_working_proto env d proto =
     then_op (get_working_proto_details env d proto) (\<lambda>rows. return_op (map fst rows))"

definition get_working_tcp :: "store_env \<Rightarrow> string \<Rightarrow> (string list) db_op" where
  "get_working_tcp env d = get_working_proto env d ''tcp''"

definition get_working_quic :: "store_env \<Rightarrow> string \<Rightarrow> (string list) db_op" where
  "get_working_quic env d = get_working_proto env d ''quic''"

definition get_working_tcp_details :: "store_env \<Rightarrow> string \<Rightarrow> ((string \<times> string \<times> rat) list) db_op" where
  "get_working_tcp_details env d = get_working_proto_details env d ''tcp''"

definition get_completed_pair_keys :: "store_env \<Rightarrow> string \<Rightarrow> ((string \<times> string) set) db_op" where
  "get_completed_pair_keys env d =
     read_committed env (\<lambda>db. set (map (\<lambda>p. (pw_tcp p, pw_udp p)) (filter (\<lambda>p. pw_domain p = d) (db_pairs db))))"

definition has_tcp_result :: "store_env \<Rightarrow> string \<Rightarrow> string \<Rightarrow> string \<Rightarrow> bool db_op" where
  "has_tcp_result env strategy d proto =
     with_write_lock env
       (then_op (ensure_run_id_on_db env) (\<lambda>run_id.
        select env (\<lambda>db. list_ex (\<lambda>(r, t). sg_name r = strategy \<and> sg_proto r = proto \<and> tw_domain t = d \<and> tw_run_id t = Some run_id)
          (joined db))))"

section \<open>Resume\<close>

definition completed_rows :: "string \<Rightarrow> nat \<Rightarrow> database \<Rightarrow> (strategy_row \<times> tcp_row) list" where
  "completed_rows proto run_id d =
     filter (\<lambda>(r, t). sg_proto r = proto \<and> tw_run_id t = Some run_id \<and> is_latest_in_run run_id d t \<and> row_works t) (joined d)"

definition key_of :: "strategy_row \<times> tcp_row \<Rightarrow> string \<times> string" where
  "key_of rt = (sg_name (fst rt), tw_domain (snd rt))"

definition get_completed_tcp_keys :: "store_env \<Rightarrow> string \<Rightarrow> ((string \<times> string) set) db_op" where
  "get_completed_tcp_keys env proto s =
     (case ss_run_id s of
        None \<Rightarrow> (Inr {}, s)
      | Some run_id \<Rightarrow> with_write_lock env (select env (\<lambda>d. set (map key_of (completed_rows proto run_id d)))) s)"

definition infra_row :: "tcp_row \<Rightarrow> bool" where
  "infra_row t = is_infra_fail_phase (tw_fail_phase t) (tw_error t)"

definition count_infra_fail_rows :: "string \<Rightarrow> string \<Rightarrow> string \<Rightarrow> nat \<Rightarrow> database \<Rightarrow> int" where
  "count_infra_fail_rows strategy d proto run_id db =
     sum_case (\<lambda>(r, t). infra_row t)
       (filter (\<lambda>(r, t). sg_name r = strategy \<and> sg_proto r = proto \<and> tw_domain t = d \<and> tw_run_id t = Some run_id \<and> tw_status t = ''FAIL'')
          (joined db))"

definition latest_fails :: "string \<Rightarrow> nat \<Rightarrow> database \<Rightarrow> (strategy_row \<times> tcp_row) list" where
  "latest_fails proto run_id d =
     filter (\<lambda>(r, t). sg_proto r = proto \<and> tw_run_id t = Some run_id \<and> is_latest_in_run run_id d t \<and> tw_status t = ''FAIL'') (joined d)"

text \<open>Whether the loop over the latest failures adds a row's key to \<^verbatim>\<open>skip_fail\<close>.\<close>

definition skips_fail :: "(string \<times> string) set \<Rightarrow> string \<Rightarrow> nat \<Rightarrow> int \<Rightarrow> database \<Rightarrow> strategy_row \<times> tcp_row \<Rightarrow> bool" where
  "skips_fail working proto run_id reprobe_failed d rt =
     (key_of rt \<notin> working \<and>
      \<not> (infra_row (snd rt) \<and>
         count_infra_fail_rows (fst (key_of rt)) (snd (key_of rt)) proto run_id d < reprobe_failed))"

definition get_resume_skip_tcp_keys :: "store_env \<Rightarrow> string \<Rightarrow> int \<Rightarrow> ((string \<times> string) set) db_op" where
  "get_resume_skip_tcp_keys env proto reprobe_failed =
     then_op (get_completed_tcp_keys env proto) (\<lambda>working s.
       (if reprobe_failed \<le> 0 then (Inr working, s)
        else case ss_run_id s of
               None \<Rightarrow> (Inr working, s)
             | Some run_id \<Rightarrow>
                 read_committed env (\<lambda>d. working \<union>
                   set (map key_of (filter (skips_fail working proto run_id reprobe_failed d) (latest_fails proto run_id d)))) s))"

section \<open>Rankings\<close>

definition best_rows :: "string \<Rightarrow> string \<Rightarrow> int \<Rightarrow> database \<Rightarrow> (strategy_row \<times> tcp_row) list" where
  "best_rows proto d limit db =
     sql_limit limit (sort_key (\<lambda>(r, t). tw_latency_ms t)
       (latest_rows (\<lambda>r t. sg_proto r = proto \<and> tw_domain t = d \<and> row_works t) db))"

definition best_columns :: "strategy_row \<times> tcp_row \<Rightarrow> string \<times> rat \<times> int \<times> string \<times> string" where
  "best_columns rt =
     (sg_name (fst rt), tw_latency_ms (snd rt), tw_http_code (snd rt), tw_timestamp (snd rt), tw_probe_host (snd rt))"

definition get_best_tcp :: "store_env \<Rightarrow> string \<Rightarrow> int \<Rightarrow> ((string \<times> rat \<times> int \<times> string \<times> string) list) db_op" where
  "get_best_tcp env d limit = read_committed env (\<lambda>db. map best_columns (best_rows ''tcp'' d limit db))"

definition get_best_quic :: "store_env \<Rightarrow> string \<Rightarrow> int \<Rightarrow> ((string \<times> rat \<times> int \<times> string \<times> string) list) db_op" where
  "get_best_quic env d limit = read_committed env (\<lambda>db. map best_columns (best_rows ''quic'' d limit db))"

definition get_best_udp :: "store_env \<Rightarrow> int \<Rightarrow> ((string \<times> string \<times> rat \<times> string) list) db_op" where
  "get_best_udp env limit =
     read_committed env (\<lambda>d.
       map (\<lambda>(r, t). (sg_name r, uw_target t, uw_latency_ms t, uw_timestamp t))
         (sql_limit limit (sort_key (\<lambda>(r, t). uw_latency_ms t)
           (filter (\<lambda>(r, t). sg_proto r = ''udp'' \<and> working_status (uw_status t) \<and>
                     uw_id t = max_id (map uw_id (filter (\<lambda>t2. uw_strategy_id t2 = sg_id r) (db_udp d))))
             (concat (map (\<lambda>t. map (\<lambda>r. (r, t)) (filter (\<lambda>r. sg_id r = uw_strategy_id t) (db_strategies d))) (db_udp d)))))))"

definition latest_pair :: "database \<Rightarrow> pair_row \<Rightarrow> bool" where
  "latest_pair d p =
     (pw_id p = max_id (map pw_id (filter (\<lambda>p2. pw_tcp p2 = pw_tcp p \<and> pw_udp p2 = pw_udp p \<and> pw_domain p2 = pw_domain p) (db_pairs d))))"

definition get_best_pairs :: "store_env \<Rightarrow> string \<Rightarrow> int \<Rightarrow> ((string \<times> string \<times> rat \<times> rat \<times> string) list) db_op" where
  "get_best_pairs env x limit =
     read_committed env (\<lambda>d.
       map (\<lambda>p. (pw_tcp p, pw_udp p, pw_tcp_ms p, pw_udp_ms p, pw_overall p))
         (sql_limit limit (sort_key (\<lambda>p. pw_tcp_ms p + pw_udp_ms p)
           (filter (\<lambda>p. pw_domain p = x \<and> working_status (pw_overall p) \<and> latest_pair d p) (db_pairs d)))))"

text \<open>\<^verbatim>\<open>ROUND(x, 1)\<close> of SQLite rounds halves away from zero, \<^verbatim>\<open>round(x, 1)\<close> of Python to even.\<close>

definition sql_round1 :: "rat \<Rightarrow> rat" where
  "sql_round1 x = (if x < 0 then - of_int \<lfloor>- x * 10 + 1 / 2\<rfloor> else of_int \<lfloor>x * 10 + 1 / 2\<rfloor>) / 10"

definition py_round1 :: "rat \<Rightarrow> rat" where
  "py_round1 x =
     (let n = \<lfloor>x * 10\<rfloor>; r = x * 10 - of_int n
      in of_int (if r < 1 / 2 then n else if 1 / 2 < r then n + 1 else if even n then n else n + 1) / 10)"

definition mean :: "rat list \<Rightarrow> rat" where
  "mean xs = sum_list xs / of_nat (length xs)"

definition coverage_score :: "store_env \<Rightarrow> string \<Rightarrow> (int \<times> rat \<times> string list) db_op" where
  "coverage_score env strategy =
     read_committed env (\<lambda>d.
       (let rows = latest_rows (\<lambda>r t. sg_name r = strategy \<and> sg_proto r = ''tcp'' \<and> row_works t) d
        in if rows = [] then (0, 0, [])
           else (int (length rows), py_round1 (mean (map (\<lambda>(r, t). tw_latency_ms t) rows)), map (\<lambda>(r, t). tw_domain t) rows)))"

text \<open>One group of the two rankings: name, number of distinct domains, rounded mean latency.\<close>

definition coverage_group :: "(strategy_row \<times> tcp_row) list \<Rightarrow> string \<Rightarrow> string \<times> int \<times> rat" where
  "coverage_group rows name =
     (let g = filter (\<lambda>(r, t). sg_name r = name) rows
      in (name, int (length (fromkeys (map (\<lambda>(r, t). tw_domain t) g))), sql_round1 (mean (map (\<lambda>(r, t). tw_latency_ms t) g))))"

definition coverage_groups :: "(strategy_row \<times> tcp_row) list \<Rightarrow> (string \<times> int \<times> rat) list" where
  "coverage_groups rows = map (coverage_group rows) (fromkeys (map (\<lambda>(r, t). sg_name r) rows))"

definition best_by_coverage :: "int \<Rightarrow> database \<Rightarrow> (string \<times> int \<times> rat) list" where
  "best_by_coverage limit d =
     sql_limit limit (sort_key (\<lambda>(name, n, avg). - n) (sort_key (\<lambda>(name, n, avg). avg)
       (filter (\<lambda>(name, n, avg). 0 < n) (coverage_groups (latest_rows (\<lambda>r t. sg_proto r = ''tcp'' \<and> row_works t) d)))))"

definition get_best_by_coverage :: "store_env \<Rightarrow> int \<Rightarrow> ((string \<times> int \<times> rat) list) db_op" where
  "get_best_by_coverage env limit = then_op (flush env True) (\<lambda>_. read_committed env (best_by_coverage limit))"

definition common_tcp :: "string list \<Rightarrow> int \<Rightarrow> database \<Rightarrow> (string \<times> int \<times> rat) list" where
  "common_tcp ds limit d =
     sql_limit limit (sort_key (\<lambda>(name, n, avg). avg)
       (filter (\<lambda>(name, n, avg). n = int (length ds))
         (coverage_groups (latest_rows (\<lambda>r t. sg_proto r = ''tcp'' \<and> tw_domain t \<in> set ds \<and> row_works t) d))))"

definition get_common_tcp :: "store_env \<Rightarrow> string list \<Rightarrow> int \<Rightarrow> ((string \<times> int \<times> rat) list) db_op" where
  "get_common_tcp env ds limit = (if length ds < 2 then return_op [] else read_committed env (common_tcp ds limit))"

definition get_strategy_config :: "store_env \<Rightarrow> string \<Rightarrow> string \<Rightarrow> (string option) db_op" where
  "get_strategy_config env name proto =
     read_committed env (\<lambda>d. map_option sg_config_path (find (same_strategy name proto) (db_strategies d)))"

section \<open>Fingerprints\<close>

text \<open>The first sixteen hexadecimal digits of a SHA-256 digest are an argument.\<close>

definition matrix_fingerprint :: "(string \<Rightarrow> string) \<Rightarrow> string list \<Rightarrow> string list \<Rightarrow> string \<Rightarrow> int \<Rightarrow> string" where
  "matrix_fingerprint digest tcp udp scan_level max_count =
     digest (join_with [CHR 0x0A]
       (order_by_str id tcp @ [''|''] @ order_by_str id udp @ [''level='' @ scan_level, ''max='' @ str_int max_count]))"

definition fingerprint_mismatch :: "string option \<Rightarrow> string \<Rightarrow> bool" where
  "fingerprint_mismatch checkpoint_fp current_fp =
     (case checkpoint_fp of None \<Rightarrow> False | Some fp \<Rightarrow> fp \<noteq> [] \<and> fp \<noteq> current_fp)"

end
