(* ===== verification/RunStoreLogic.thy ===== *)
theory RunStoreLogic
  imports RunStore
begin

text \<open>
  The log of results that a run store stands for, and a small logic for operations that may raise:
  \<open>triple P m Q E\<close> says that from a state with \<open>P\<close> the operation returns with \<open>Q\<close> or raises, leaving
  \<open>E\<close>. The theory shows for every operation how it changes the log; the properties are in
  \<^verbatim>\<open>RunStoreProps\<close>.
\<close>

section \<open>Identifiers\<close>

lemma max_id_ge: "x \<in> set ids \<Longrightarrow> x \<le> max_id ids"
  unfolding max_id_def by (induction ids) auto

lemma max_id_in: "ids \<noteq> [] \<Longrightarrow> max_id ids \<in> set ids"
proof (induction ids)
  case Nil
  then show ?case by simp
next
  case (Cons a ids)
  then show ?case by (cases "ids = []") (auto simp: max_id_def max_def)
qed

lemma next_id_greater: "x \<in> set ids \<Longrightarrow> x < next_id gap ids"
  unfolding next_id_def using max_id_ge by fastforce

lemma next_id_new [simp]: "next_id gap ids \<notin> set ids"
  using next_id_greater less_irrefl by blast

lemma next_id_new_image: "(next_id gap (map f xs), y) \<notin> set ys" if "f ` set xs = fst ` set ys"
  using that next_id_new [of gap "map f xs"] by force

lemma max_id_last: "sorted_wrt (<) ids \<Longrightarrow> ids \<noteq> [] \<Longrightarrow> max_id ids = last ids"
proof -
  assume s: "sorted_wrt (<) ids" and n: "ids \<noteq> []"
  have "x \<le> last ids" if "x \<in> set ids" for x
    using s that by (induction ids) (auto simp: less_imp_le)
  then show ?thesis
    using max_id_in [OF n] max_id_ge [OF last_in_set [OF n]] by (simp add: antisym)
qed

section \<open>Well-formed tables\<close>

definition strat_map :: "database \<Rightarrow> (nat \<times> string \<times> string) list" where
  "strat_map d = map (\<lambda>r. (sg_id r, sg_name r, sg_proto r)) (db_strategies d)"

definition flag_ok :: "tcp_row \<Rightarrow> bool" where
  "flag_ok t = (tw_bridge_applied t = None \<or> tw_bridge_applied t = Some 0 \<or> tw_bridge_applied t = Some 1)"

definition db_ok :: "database \<Rightarrow> bool" where
  "db_ok d =
     (distinct (map fst (strat_map d)) \<and> distinct (map snd (strat_map d)) \<and>
      list_all (\<lambda>t. tw_strategy_id t \<in> set (map fst (strat_map d))) (db_tcp d) \<and>
      list_all (\<lambda>t. uw_strategy_id t \<in> set (map fst (strat_map d))) (db_udp d) \<and> list_all flag_ok (db_tcp d) \<and>
      sorted_wrt (<) (map tw_id (db_tcp d)) \<and> sorted_wrt (<) (map uw_id (db_udp d)))"

text \<open>\<open>d'\<close> has the result rows of \<open>d\<close> and at least its strategies.\<close>

definition quiet :: "database \<Rightarrow> database \<Rightarrow> bool" where
  "quiet d d' = (db_tcp d' = db_tcp d \<and> db_udp d' = db_udp d \<and> prefix (strat_map d) (strat_map d') \<and> db_ok d')"

lemma quiet_refl: "db_ok d \<Longrightarrow> quiet d d"
  by (simp add: quiet_def)

lemma quiet_trans: "quiet d d' \<Longrightarrow> quiet d' d'' \<Longrightarrow> quiet d d''"
  unfolding quiet_def using prefix_order.trans by metis

lemma quiet_ok: "quiet d d' \<Longrightarrow> db_ok d'"
  by (simp add: quiet_def)

lemma same_strategy_ex:
  "list_ex (same_strategy name proto) (db_strategies d) \<longleftrightarrow> (name, proto) \<in> set (map snd (strat_map d))"
  by (induction "db_strategies d") (auto simp: strat_map_def list_ex_iff same_strategy_def image_iff)

lemma strat_map_upsert:
  "strat_map (upsert_strategy gap name proto cfg ts d) =
     (if (name, proto) \<in> set (map snd (strat_map d)) then strat_map d
      else strat_map d @ [(next_id gap (map fst (strat_map d)), name, proto)])"
proof -
  have ids: "map sg_id (db_strategies d) = map fst (strat_map d)"
    by (simp add: strat_map_def)
  show ?thesis
    unfolding upsert_strategy_def same_strategy_ex [symmetric] ids [symmetric]
    by (simp add: strat_map_def)
qed

lemma upsert_rows [simp]:
  "db_tcp (upsert_strategy gap name proto cfg ts d) = db_tcp d"
  "db_udp (upsert_strategy gap name proto cfg ts d) = db_udp d"
  by (simp_all add: upsert_strategy_def)

lemma upsert_quiet: "db_ok d \<Longrightarrow> quiet d (upsert_strategy gap name proto cfg ts d)"
  unfolding quiet_def db_ok_def upsert_rows strat_map_upsert
  by (auto simp: list_all_iff next_id_new_image)

lemma strategy_id_conv: "strategy_id name proto d = map_option fst (find (\<lambda>x. snd x = (name, proto)) (strat_map d))"
proof -
  have "find (\<lambda>x. snd x = (name, proto)) (map (\<lambda>r. (sg_id r, sg_name r, sg_proto r)) rs) =
        map_option (\<lambda>r. (sg_id r, sg_name r, sg_proto r)) (find (same_strategy name proto) rs)" for rs
    by (induction rs) (auto simp: same_strategy_def)
  then show ?thesis
    by (simp add: strategy_id_def strat_map_def option.map_comp comp_def)
qed

lemma strategy_id_Some:
  assumes "db_ok d" and "strategy_id name proto d = Some i"
  shows "map_of (strat_map d) i = Some (name, proto)"
proof -
  obtain x where "find (\<lambda>x. snd x = (name, proto)) (strat_map d) = Some x" "i = fst x"
    using assms(2) by (auto simp: strategy_id_conv)
  then have "(i, name, proto) \<in> set (strat_map d)"
    by (auto simp: find_Some_iff) (metis nth_mem prod.collapse)
  then show ?thesis
    using assms(1) by (simp add: db_ok_def)
qed

lemma strategy_id_upsert: "strategy_id name proto (upsert_strategy gap name proto cfg ts d) \<noteq> None"
  unfolding strategy_id_conv strat_map_upsert by (auto simp: find_None_iff image_iff)

lemma map_of_prefix: "prefix xs ys \<Longrightarrow> i \<in> set (map fst xs) \<Longrightarrow> map_of ys i = map_of xs i"
  by (auto simp: prefix_def map_add_def map_of_append split: option.splits dest: map_of_SomeD)
     (metis map_of_eq_None_iff image_eqI fst_conv option.distinct(1))

section \<open>The log a store stands for\<close>

definition plain :: "tcp_entry \<Rightarrow> tcp_entry" where
  "plain e = e\<lparr>te_config_path := []\<rparr>"

definition plain_udp :: "udp_entry \<Rightarrow> udp_entry" where
  "plain_udp e = e\<lparr>ue_config_path := []\<rparr>"

definition strat_of :: "database \<Rightarrow> nat \<Rightarrow> string \<times> string" where
  "strat_of d i = (case map_of (strat_map d) i of Some np \<Rightarrow> np | None \<Rightarrow> ([], []))"

definition tcp_view :: "database \<Rightarrow> tcp_row \<Rightarrow> tcp_entry" where
  "tcp_view d t =
     \<lparr>te_strategy = fst (strat_of d (tw_strategy_id t)), te_proto = snd (strat_of d (tw_strategy_id t)), te_config_path = [],
      te_domain = tw_domain t, te_status = tw_status t, te_http_code = tw_http_code t, te_latency_ms = tw_latency_ms t,
      te_gateway_ms = tw_gateway_ws_ms t, te_content_valid = (tw_content_valid t \<noteq> 0), te_error = tw_error t,
      te_timestamp = tw_timestamp t, te_read_rate_bps = tw_read_rate_bps t, te_resolved_ip = tw_resolved_ip t,
      te_dns_verdict = tw_dns_verdict t, te_doh_server = tw_doh_server t, te_fail_phase = tw_fail_phase t,
      te_bridge_applied = map_option (\<lambda>i. i \<noteq> 0) (tw_bridge_applied t), te_probe_host = tw_probe_host t,
      te_bridge_batch_id = tw_bridge_batch_id t, te_bridge_gen = tw_bridge_gen t, te_epoch_ms = tw_epoch_ms t,
      te_settle_ms = tw_settle_ms t, te_content_len = tw_content_len t\<rparr>"

definition udp_view :: "database \<Rightarrow> udp_row \<Rightarrow> udp_entry" where
  "udp_view d t =
     \<lparr>ue_strategy = fst (strat_of d (uw_strategy_id t)), ue_config_path = [], ue_target = uw_target t, ue_status = uw_status t,
      ue_latency_ms = uw_latency_ms t, ue_error = uw_error t, ue_timestamp = uw_timestamp t, ue_epoch_ms = uw_epoch_ms t\<rparr>"

definition committed_tcp :: "database \<Rightarrow> tcp_entry list" where
  "committed_tcp d = map (tcp_view d) (db_tcp d)"

definition committed_udp :: "database \<Rightarrow> udp_entry list" where
  "committed_udp d = map (udp_view d) (db_udp d)"

definition tcp_log :: "RunStore \<Rightarrow> tcp_entry list" where
  "tcp_log s = committed_tcp (ss_db s) @ map plain (ss_tcp_pending s)"

definition udp_log :: "RunStore \<Rightarrow> udp_entry list" where
  "udp_log s = committed_udp (ss_db s) @ map plain_udp (ss_udp_pending s)"

lemma strat_of_prefix: "prefix (strat_map d) (strat_map d') \<Longrightarrow> i \<in> set (map fst (strat_map d)) \<Longrightarrow> strat_of d' i = strat_of d i"
  unfolding strat_of_def by (simp add: map_of_prefix del: set_map)

lemma view_prefix:
  assumes "prefix (strat_map d) (strat_map d')" and "db_ok d"
  shows "map (tcp_view d') (db_tcp d) = map (tcp_view d) (db_tcp d)"
    and "map (udp_view d') (db_udp d) = map (udp_view d) (db_udp d)"
  using assms strat_of_prefix [OF assms(1)] by (auto simp: tcp_view_def udp_view_def db_ok_def list_all_iff)

lemma quiet_committed:
  assumes "db_ok d" and "quiet d d'"
  shows "committed_tcp d' = committed_tcp d" and "committed_udp d' = committed_udp d"
  using assms view_prefix [of d d'] by (auto simp: committed_tcp_def committed_udp_def quiet_def)

section \<open>Reasoning about operations\<close>

text \<open>
  The assumption on the environment: nothing is cancelled, a rollback succeeds and the clock shows a
  time. Every other call may raise anything.
\<close>

definition steady_env :: "store_env \<Rightarrow> bool" where
  "steady_env env =
     ((\<forall>n k b. sv_fault env n k \<noteq> Some (Cancels b)) \<and> (\<forall>n. sv_fault env n Rollback = None) \<and> (\<forall>n. sv_now env n \<noteq> []))"

definition outcome :: "('a \<Rightarrow> RunStore \<Rightarrow> bool) \<Rightarrow> (RunStore \<Rightarrow> bool) \<Rightarrow> (db_exc + 'a) \<times> RunStore \<Rightarrow> bool" where
  "outcome Q E r = (case fst r of Inr x \<Rightarrow> Q x (snd r) | Inl e \<Rightarrow> e \<noteq> CancelledError \<and> E (snd r))"

definition triple :: "(RunStore \<Rightarrow> bool) \<Rightarrow> 'a db_op \<Rightarrow> ('a \<Rightarrow> RunStore \<Rightarrow> bool) \<Rightarrow> (RunStore \<Rightarrow> bool) \<Rightarrow> bool" where
  "triple P m Q E = (\<forall>s. P s \<longrightarrow> outcome Q E (m s))"

lemma outcome_simps [simp]:
  "outcome Q E (Inr x, s) = Q x s"
  "outcome Q E (Inl e, s) = (e \<noteq> CancelledError \<and> E s)"
  by (simp_all add: outcome_def)

lemma outcome_cases:
  assumes "outcome Q E r"
  obtains (ok) x s where "r = (Inr x, s)" "Q x s" | (err) e s where "r = (Inl e, s)" "e \<noteq> CancelledError" "E s"
proof (cases r)
  case (Pair v s)
  show thesis
  proof (cases v)
    case (Inl e)
    then show thesis using assms Pair err [of e s] by simp
  next
    case (Inr x)
    then show thesis using assms Pair ok [of x s] by simp
  qed
qed

lemma outcome_mono:
  "outcome Q' E' r \<Longrightarrow> (\<And>x s. Q' x s \<Longrightarrow> Q x s) \<Longrightarrow> (\<And>s. E' s \<Longrightarrow> E s) \<Longrightarrow> outcome Q E r"
  by (erule outcome_cases) simp_all

lemma tripleI: "(\<And>s. P s \<Longrightarrow> outcome Q E (m s)) \<Longrightarrow> triple P m Q E"
  by (simp add: triple_def)

lemma tripleD: "triple P m Q E \<Longrightarrow> P s \<Longrightarrow> outcome Q E (m s)"
  by (simp add: triple_def)

lemma triple_then:
  assumes "triple P m Q E" and "\<And>x. triple (Q x) (f x) R E"
  shows "triple P (then_op m f) R E"
proof (rule tripleI)
  fix s
  assume "P s"
  from tripleD [OF assms(1) this] show "outcome R E (then_op m f s)"
    by (cases rule: outcome_cases) (simp_all add: then_op_def tripleD [OF assms(2)])
qed

lemma triple_return: "(\<And>s. P s \<Longrightarrow> Q x s) \<Longrightarrow> triple P (return_op x) Q E"
  by (simp add: triple_def return_op_def)

lemma triple_call:
  assumes "steady_env env"
    and "\<And>s n. P s \<Longrightarrow> E (await env (partial n s))"
    and "\<And>s. P s \<Longrightarrow> Q (fst (run s)) (await env (snd (run s)))"
  shows "triple P (db_call env k partial run) Q E"
proof (rule tripleI)
  fix s
  assume P: "P s"
  have "sv_fault env (ss_tick s) k \<noteq> Some (Cancels b)" for b
    using assms(1) by (simp add: steady_env_def)
  then consider "sv_fault env (ss_tick s) k = None" | op msg n where "sv_fault env (ss_tick s) k = Some (Fails op msg n)"
    by (metis fault.exhaust option.exhaust)
  then show "outcome Q E (db_call env k partial run s)"
    by cases (simp_all add: db_call_def fault_exc_def assms(2,3) P)
qed

lemma triple_weaken:
  assumes "triple P' m Q' E'" and "\<And>s. P s \<Longrightarrow> P' s" and "\<And>x s. Q' x s \<Longrightarrow> Q x s" and "\<And>s. E' s \<Longrightarrow> E s"
  shows "triple P m Q E"
  by (rule tripleI, rule outcome_mono [OF tripleD [OF assms(1)]]) (auto intro: assms)

section \<open>Operations that add no result\<close>

definition arr_tcp :: "store_env \<Rightarrow> nat \<Rightarrow> nat \<Rightarrow> tcp_entry list" where
  "arr_tcp env a b = concat (map (\<lambda>n. map (stamp_tcp env n) (fst (sv_arrivals env n))) [a..<b])"

definition arr_udp :: "store_env \<Rightarrow> nat \<Rightarrow> nat \<Rightarrow> udp_entry list" where
  "arr_udp env a b = concat (map (\<lambda>n. map (stamp_udp env n) (snd (sv_arrivals env n))) [a..<b])"

lemma arr_refl [simp]: "arr_tcp env a a = []" "arr_udp env a a = []"
  by (simp_all add: arr_tcp_def arr_udp_def)

lemma arr_append:
  assumes "a \<le> b" "b \<le> c"
  shows "arr_tcp env a b @ arr_tcp env b c = arr_tcp env a c" and "arr_udp env a b @ arr_udp env b c = arr_udp env a c"
proof -
  have "[a..<b] @ [b..<c] = [a..<c]"
    using assms by (metis le_add_diff_inverse upt_add_eq_append)
  then show "arr_tcp env a b @ arr_tcp env b c = arr_tcp env a c" "arr_udp env a b @ arr_udp env b c = arr_udp env a c"
    unfolding arr_tcp_def arr_udp_def by (metis concat_append map_append)+
qed

text \<open>Between two states only time passed, as far as the buffers are concerned.\<close>

definition waited :: "store_env \<Rightarrow> RunStore \<Rightarrow> RunStore \<Rightarrow> bool" where
  "waited env s s' =
     (ss_tick s \<le> ss_tick s' \<and> ss_batch_size s' = ss_batch_size s \<and>
      ss_tcp_pending s' = ss_tcp_pending s @ arr_tcp env (ss_tick s) (ss_tick s') \<and>
      ss_udp_pending s' = ss_udp_pending s @ arr_udp env (ss_tick s) (ss_tick s'))"

lemma frame_refl [simp]: "waited env s s"
  by (simp add: waited_def)

lemma frame_trans: "waited env s s' \<Longrightarrow> waited env s' s'' \<Longrightarrow> waited env s s''"
  unfolding waited_def using arr_append [of "ss_tick s" "ss_tick s'" "ss_tick s''" env] by auto

lemma frame_await:
  "ss_tick s1 = ss_tick s \<Longrightarrow> ss_batch_size s1 = ss_batch_size s \<Longrightarrow> ss_tcp_pending s1 = ss_tcp_pending s \<Longrightarrow>
   ss_udp_pending s1 = ss_udp_pending s \<Longrightarrow> waited env s (await env s1)"
  by (simp add: waited_def await_def arr_tcp_def arr_udp_def)

lemma frame_await_same: "waited env s0 s \<Longrightarrow> waited env s0 (await env s)"
  using frame_trans [OF _ frame_await [of s s env]] by simp

lemma await_db [simp]: "ss_db (await env s) = ss_db s" "ss_work (await env s) = ss_work s"
  by (simp_all add: await_def)

lemma current_await [simp]: "current_db (await env s) = current_db s"
  by (cases "ss_work s") (simp_all add: current_db_def)

definition store_ok :: "RunStore \<Rightarrow> bool" where
  "store_ok s = (db_ok (ss_db s) \<and> (case ss_work s of None \<Rightarrow> True | Some w \<Rightarrow> quiet (ss_db s) w))"

lemma store_ok_await [simp]: "store_ok (await env s) = store_ok s"
  by (cases "ss_work s") (simp_all add: store_ok_def)

lemma store_ok_cong: "ss_db s1 = ss_db s \<Longrightarrow> ss_work s1 = ss_work s \<Longrightarrow> store_ok s1 = store_ok s"
  by (cases "ss_work s") (simp_all add: store_ok_def)

lemma store_ok_dbD: "store_ok s \<Longrightarrow> db_ok (ss_db s)"
  by (simp add: store_ok_def)

definition calm :: "store_env \<Rightarrow> RunStore \<Rightarrow> RunStore \<Rightarrow> bool" where
  "calm env s s' = (store_ok s' \<and> quiet (ss_db s) (ss_db s') \<and> waited env s s')"

definition calm_op :: "store_env \<Rightarrow> 'a db_op \<Rightarrow> bool" where
  "calm_op env m = (\<forall>s0. triple (calm env s0) m (\<lambda>_. calm env s0) (calm env s0))"

lemma calm_refl: "store_ok s \<Longrightarrow> calm env s s"
  by (simp add: calm_def store_ok_def quiet_refl)

lemma calm_trans: "calm env s s' \<Longrightarrow> calm env s' s'' \<Longrightarrow> calm env s s''"
  unfolding calm_def using quiet_trans frame_trans by blast

lemma store_ok_current: "store_ok s \<Longrightarrow> quiet (ss_db s) (current_db s)"
  by (cases "ss_work s") (auto simp: store_ok_def current_db_def quiet_refl)

lemma calm_opI:
  assumes "\<And>s. store_ok s \<Longrightarrow> outcome (\<lambda>_. calm env s) (calm env s) (m s)"
  shows "calm_op env m"
  unfolding calm_op_def
proof (intro allI tripleI)
  fix s0 s
  assume c: "calm env s0 s"
  then have "store_ok s"
    by (simp add: calm_def)
  from assms [OF this] show "outcome (\<lambda>_. calm env s0) (calm env s0) (m s)"
    by (rule outcome_mono) (rule calm_trans [OF c], assumption)+
qed

lemma calm_opD: "calm_op env m \<Longrightarrow> store_ok s \<Longrightarrow> outcome (\<lambda>_. calm env s) (calm env s) (m s)"
  unfolding calm_op_def using tripleD calm_refl by blast

lemma calm_then: "calm_op env m \<Longrightarrow> (\<And>x. calm_op env (f x)) \<Longrightarrow> calm_op env (then_op m f)"
  unfolding calm_op_def by (blast intro: triple_then)

lemma calm_state: "(\<And>s0. calm_op env (f s0)) \<Longrightarrow> calm_op env (\<lambda>s. f s s)"
  by (rule calm_opI) (rule calm_opD)

lemma calm_return: "calm_op env (return_op x)"
  unfolding calm_op_def by (blast intro: triple_return)

lemma calm_pure: "(\<And>s. fst (m s) \<noteq> Inl CancelledError) \<Longrightarrow> (\<And>s. store_ok s \<Longrightarrow> calm env s (snd (m s))) \<Longrightarrow> calm_op env m"
  by (rule calm_opI) (auto simp: outcome_def split: sum.splits)

lemma calm_update:
  assumes "store_ok s" and "store_ok s1" and "quiet (ss_db s) (ss_db s1)"
    and "ss_tick s1 = ss_tick s" "ss_batch_size s1 = ss_batch_size s" "ss_tcp_pending s1 = ss_tcp_pending s" "ss_udp_pending s1 = ss_udp_pending s"
  shows "calm env s (await env s1)" and "calm env s s1"
  using assms frame_await [of s1 s env] by (simp_all add: calm_def waited_def)

lemma calm_call:
  assumes "steady_env env"
    and "\<And>n s. store_ok s \<Longrightarrow> calm env s (await env (partial n s))"
    and "\<And>s. store_ok s \<Longrightarrow> calm env s (await env (snd (run s)))"
  shows "calm_op env (db_call env k partial run)"
  by (rule calm_opI, rule tripleD [OF triple_call [OF assms(1), where P = "\<lambda>s'. s' = _"]]) (auto intro: assms)

lemma calm_dml:
  assumes "steady_env env" and "\<And>n d. db_ok d \<Longrightarrow> quiet d (partial n d)" and "\<And>d. db_ok d \<Longrightarrow> quiet d (snd (g d))"
  shows "calm_op env (dml_many env partial g)"
proof (rule calm_opI)
  fix s
  assume ok: "store_ok s"
  have q: "quiet (ss_db s) (current_db s)"
    by (rule store_ok_current [OF ok])
  have w: "calm env s (await env (s1\<lparr>ss_work := Some d\<rparr>))" if "s1 = implicit_begin s" "quiet (current_db s) d" for s1 d
    using ok that quiet_trans [OF q that(2)]
    by (intro calm_update(1) [OF ok]) (auto simp: store_ok_def implicit_begin_def quiet_refl)
  have cur: "current_db (implicit_begin s) = current_db s"
    by (simp add: implicit_begin_def current_db_def)
  have "triple (\<lambda>s'. s' = implicit_begin s)
     (db_call env Insert (\<lambda>n s. s\<lparr>ss_work := Some (partial n (current_db s))\<rparr>)
       (\<lambda>s. (fst (g (current_db s)), s\<lparr>ss_work := Some (snd (g (current_db s)))\<rparr>))) (\<lambda>_. calm env s) (calm env s)"
    by (rule triple_call [OF assms(1)]) (auto simp: cur intro!: w assms(2,3) quiet_ok [OF q])
  then show "outcome (\<lambda>_. calm env s) (calm env s) (dml_many env partial g s)"
    unfolding dml_many_def by (rule tripleD) simp
qed

lemma calm_select: "steady_env env \<Longrightarrow> calm_op env (select env g)"
  unfolding select_def by (rule calm_call) (auto intro!: calm_update(1) simp: store_ok_dbD quiet_refl)

lemma calm_read: "steady_env env \<Longrightarrow> calm_op env (read_committed env g)"
  unfolding read_committed_def by (rule calm_call) (auto intro!: calm_update(1) simp: store_ok_dbD quiet_refl)

lemma calm_commit: "steady_env env \<Longrightarrow> calm_op env (commit env)"
  unfolding commit_def
proof (rule calm_call)
  fix s
  assume ok: "store_ok s"
  have "store_ok (s\<lparr>ss_db := current_db s, ss_work := None\<rparr>)"
    using quiet_ok [OF store_ok_current [OF ok]] by (simp add: store_ok_def)
  then show "calm env s (await env (snd ((), s\<lparr>ss_db := current_db s, ss_work := None\<rparr>)))"
    using ok store_ok_current [OF ok] by (auto intro!: calm_update(1))
qed (auto intro!: calm_update(1) simp: store_ok_dbD quiet_refl)

lemma calm_writer: "steady_env env \<Longrightarrow> calm_op env (writer env)"
proof -
  assume env: "steady_env env"
  have ok: "store_ok (s\<lparr>ss_conn := True\<rparr>) = store_ok s" for s
    by (rule store_ok_cong) simp_all
  have "calm_op env (db_call env Connect (\<lambda>n s. s) (\<lambda>s. ((), s\<lparr>ss_conn := True\<rparr>)))"
    by (rule calm_call [OF env]) (auto intro!: calm_update(1) simp: store_ok_dbD quiet_refl ok)
  then show ?thesis
    by (intro calm_opI) (auto simp: writer_def calm_refl dest: calm_opD)
qed

lemma calm_lock: "steady_env env \<Longrightarrow> calm_op env m \<Longrightarrow> calm_op env (with_write_lock env m)"
  unfolding with_write_lock_def by (intro calm_then calm_writer)

lemma calm_set_run_id: "calm_op env (set_run_id i)"
proof (rule calm_pure)
  fix s
  assume "store_ok s"
  moreover have "store_ok (s\<lparr>ss_run_id := Some i\<rparr>) = store_ok s"
    by (rule store_ok_cong) simp_all
  ultimately show "calm env s (snd (set_run_id i s))"
    by (simp add: set_run_id_def) (rule calm_update(2), simp_all add: store_ok_dbD quiet_refl)
qed (simp add: set_run_id_def)

lemmas calm_intros = calm_then calm_return calm_dml calm_select calm_read calm_commit calm_lock calm_set_run_id

text \<open>A statement on another table leaves the strategies and the results alone.\<close>

lemma quiet_other:
  "db_ok d \<Longrightarrow> db_strategies d' = db_strategies d \<Longrightarrow> db_tcp d' = db_tcp d \<Longrightarrow> db_udp d' = db_udp d \<Longrightarrow> quiet d d'"
  by (simp add: quiet_def db_ok_def strat_map_def)

lemma calm_insert_new_run: "steady_env env \<Longrightarrow> calm_op env (insert_new_run env fp ah cv imp nfv)"
  unfolding insert_new_run_def [abs_def]
  by (rule calm_state) (auto intro!: calm_intros quiet_other simp: insert_run_def Let_def)

lemma calm_begin_run_on_db: "steady_env env \<Longrightarrow> calm_op env (begin_run_on_db env use_resume fp ah cv imp nfv)"
  unfolding begin_run_on_db_def by (auto intro!: calm_intros calm_insert_new_run split: option.splits)

lemma calm_begin_run: "steady_env env \<Longrightarrow> calm_op env (begin_run env resume fp ah cv imp nfv)"
  unfolding begin_run_def [abs_def] by (rule calm_state) (intro calm_lock calm_begin_run_on_db)

lemma calm_ensure_run_id: "steady_env env \<Longrightarrow> calm_op env (ensure_run_id_on_db env)"
proof (rule calm_opI)
  fix s
  assume "steady_env env" and "store_ok s"
  then show "outcome (\<lambda>_. calm env s) (calm env s) (ensure_run_id_on_db env s)"
    using calm_opD [OF calm_begin_run_on_db] by (cases "ss_run_id s") (simp_all add: ensure_run_id_on_db_def calm_refl)
qed

lemma calm_ensure_strategy_on_db: "steady_env env \<Longrightarrow> calm_op env (ensure_strategy_on_db env name proto cfg)"
proof -
  assume env: "steady_env env"
  have fail: "calm_op env (\<lambda>s. (Inl (OtherError msg), s))" for msg
    by (rule calm_pure) (simp_all add: calm_refl)
  show ?thesis
    unfolding ensure_strategy_on_db_def [abs_def]
    by (rule calm_state) (auto intro!: calm_intros fail upsert_quiet env quiet_refl split: option.splits)
qed

lemma calm_ensure_strategy: "steady_env env \<Longrightarrow> calm_op env (ensure_strategy env name proto cfg)"
  unfolding ensure_strategy_def by (intro calm_lock calm_then calm_ensure_strategy_on_db calm_commit calm_return)

lemma calm_write_row:
  "steady_env env \<Longrightarrow> (\<And>gap ts d. db_ok d \<Longrightarrow> quiet d (ins gap ts d)) \<Longrightarrow> calm_op env (write_row env ins)"
  unfolding write_row_def
  by (rule calm_lock, assumption, rule calm_state, rule calm_then, rule calm_dml) (simp_all add: quiet_refl calm_commit)

lemma calm_other_tables:
  assumes "steady_env env"
  shows "calm_op env (quarantine_domain env x reason failed)"
    and "calm_op env (write_dns_audit_log env r)"
    and "calm_op env (log_pair env tcp udp x b1 b2 b3 m1 m2 m3 overall)"
    and "calm_op env (save_checkpoint env i j note fp l1 l2)"
    and "calm_op env (save_triage_snapshot env x payload)"
  unfolding quarantine_domain_def write_dns_audit_log_def log_pair_def save_checkpoint_def save_triage_snapshot_def
  by (intro calm_write_row assms quiet_other; simp add: upsert_quarantined_def)+

lemma calm_save_scan_weights: "steady_env env \<Longrightarrow> calm_op env (save_scan_weights env rows)"
proof -
  assume env: "steady_env env"
  have "calm_op env (foldr (\<lambda>(k, w) m. then_op (dml env (\<lambda>d. ((), d\<lparr>db_scan_weights := dict_set k (w, ts) (db_scan_weights d)\<rparr>))) (\<lambda>_. m))
          rows (commit env))" for ts
    by (induction rows) (auto intro!: calm_intros quiet_other env quiet_refl)
  then show ?thesis
    unfolding save_scan_weights_def [abs_def] Let_def by - (rule calm_state, rule calm_lock [OF env])
qed

section \<open>The transaction of a flush\<close>

definition has :: "tcp_entry list \<Rightarrow> udp_entry list \<Rightarrow> database \<Rightarrow> bool" where
  "has tcps udps w = (db_ok w \<and> committed_tcp w = tcps \<and> committed_udp w = udps)"

definition in_tx :: "store_env \<Rightarrow> RunStore \<Rightarrow> (database \<Rightarrow> bool) \<Rightarrow> RunStore \<Rightarrow> bool" where
  "in_tx env s0 f s = (ss_db s = ss_db s0 \<and> waited env s0 s \<and> (\<exists>w. ss_work s = Some w \<and> f w))"

definition broken :: "store_env \<Rightarrow> RunStore \<Rightarrow> RunStore \<Rightarrow> bool" where
  "broken env s0 s = in_tx env s0 (\<lambda>_. True) s"

definition saved :: "store_env \<Rightarrow> RunStore \<Rightarrow> tcp_entry list \<Rightarrow> udp_entry list \<Rightarrow> RunStore \<Rightarrow> bool" where
  "saved env s0 tcps udps s = (ss_work s = None \<and> has tcps udps (ss_db s) \<and> waited env s0 s)"

lemma in_tx_current: "in_tx env s0 f s \<Longrightarrow> f (current_db s)"
  by (auto simp: in_tx_def current_db_def)

lemma in_tx_await:
  "in_tx env s0 f s \<Longrightarrow> f' w \<Longrightarrow> in_tx env s0 f' (await env (s\<lparr>ss_work := Some w\<rparr>))"
  using frame_trans [OF _ frame_await [of "s\<lparr>ss_work := Some w\<rparr>" s env], of s0] by (auto simp: in_tx_def)

lemma in_tx_await_same: "in_tx env s0 f s \<Longrightarrow> in_tx env s0 f (await env s)"
  using frame_trans [OF _ frame_await [of s s env], of s0] by (auto simp: in_tx_def)

lemma in_tx_begin: "in_tx env s0 f s \<Longrightarrow> implicit_begin s = s"
  by (auto simp: in_tx_def implicit_begin_def current_db_def)

lemma in_tx_mono: "in_tx env s0 f s \<Longrightarrow> (\<And>w. f w \<Longrightarrow> f' w) \<Longrightarrow> in_tx env s0 f' s"
  by (auto simp: in_tx_def)

lemma in_tx_broken: "in_tx env s0 f s \<Longrightarrow> broken env s0 s"
  unfolding broken_def by (rule in_tx_mono) simp_all

lemma triple_dml:
  assumes env: "steady_env env" and g: "\<And>d. f d \<Longrightarrow> f' (fst (g d)) (snd (g d))"
  shows "triple (in_tx env s0 f) (dml_many env partial g) (\<lambda>x. in_tx env s0 (f' x)) (broken env s0)"
proof (rule tripleI)
  fix s
  assume s: "in_tx env s0 f s"
  have "triple (in_tx env s0 f)
     (db_call env Insert (\<lambda>n s. s\<lparr>ss_work := Some (partial n (current_db s))\<rparr>)
       (\<lambda>s. (fst (g (current_db s)), s\<lparr>ss_work := Some (snd (g (current_db s)))\<rparr>)))
     (\<lambda>x. in_tx env s0 (f' x)) (broken env s0)"
    by (rule triple_call [OF env])
      (auto simp: broken_def intro: in_tx_await g [OF in_tx_current])
  then show "outcome (\<lambda>x. in_tx env s0 (f' x)) (broken env s0) (dml_many env partial g s)"
    unfolding dml_many_def in_tx_begin [OF s] using s by (rule tripleD)
qed

lemma triple_select:
  assumes env: "steady_env env"
  shows "triple (in_tx env s0 f) (select env g) (\<lambda>x. in_tx env s0 (\<lambda>w. f w \<and> x = g w)) (broken env s0)"
  unfolding select_def
proof (rule triple_call [OF env])
  fix s
  assume "in_tx env s0 f s"
  then show "in_tx env s0 (\<lambda>w. f w \<and> fst (g (current_db s), s) = g w) (await env (snd (g (current_db s), s)))"
    by (auto simp: in_tx_def current_db_def frame_await_same)
qed (auto intro: in_tx_broken in_tx_await_same)

lemma has_ok: "has tcps udps w \<Longrightarrow> db_ok w"
  by (simp add: has_def)

lemma has_upsert: "has tcps udps w \<Longrightarrow> has tcps udps (upsert_strategy gap name proto cfg ts w)"
  using upsert_quiet [of w gap name proto cfg ts] quiet_committed quiet_ok by (auto simp: has_def)

text \<open>What a strategy id means does not change when strategies are added.\<close>

definition names :: "database \<Rightarrow> nat \<Rightarrow> string \<times> string \<Rightarrow> bool" where
  "names w i np = (map_of (strat_map w) i = Some np)"

lemma names_upsert: "names w i np \<Longrightarrow> names (upsert_strategy gap name proto cfg ts w) i np"
  unfolding names_def strat_map_upsert by (simp add: map_add_def)

lemma triple_ensure_strategy:
  assumes env: "steady_env env"
    and stable: "\<And>w gap ts. f w \<Longrightarrow> f (upsert_strategy gap name proto cfg ts w)" and ok: "\<And>w. f w \<Longrightarrow> db_ok w"
  shows "triple (in_tx env s0 f) (ensure_strategy_on_db env name proto cfg)
           (\<lambda>i. in_tx env s0 (\<lambda>w. f w \<and> names w i (name, proto))) (broken env s0)"
proof (rule tripleI)
  fix s
  assume s: "in_tx env s0 f s"
  let ?up = "upsert_strategy (sv_gap env (ss_tick s)) name proto cfg (sv_now env (ss_tick s))"
  have 1: "triple (in_tx env s0 f) (dml env (\<lambda>d. ((), ?up d))) (\<lambda>_. in_tx env s0 (\<lambda>w. f w \<and> strategy_id name proto w \<noteq> None)) (broken env s0)"
    by (rule triple_dml [OF env]) (simp add: stable strategy_id_upsert)
  have 3: "triple (in_tx env s0 (\<lambda>w. (f w \<and> strategy_id name proto w \<noteq> None) \<and> found = strategy_id name proto w))
       (case found of None \<Rightarrow> (\<lambda>s. (Inl (OtherError msg), s)) | Some i \<Rightarrow> return_op i)
       (\<lambda>i. in_tx env s0 (\<lambda>w. f w \<and> names w i (name, proto))) (broken env s0)" for found msg
    by (cases found)
      (auto simp: triple_def return_op_def in_tx_def names_def dest: strategy_id_Some [OF ok])
  show "outcome (\<lambda>i. in_tx env s0 (\<lambda>w. f w \<and> names w i (name, proto))) (broken env s0) (ensure_strategy_on_db env name proto cfg s)"
    unfolding ensure_strategy_on_db_def
    by (rule tripleD [OF triple_then [OF 1 triple_then [OF triple_select [OF env] 3]] s])
qed

text \<open>Rows that are ready to be inserted and stand for the entries \<open>es\<close>.\<close>

definition tcp_ready :: "tcp_row list \<Rightarrow> tcp_entry list \<Rightarrow> database \<Rightarrow> bool" where
  "tcp_ready rows es w =
     (list_all (\<lambda>r. \<exists>np. names w (tw_strategy_id r) np) rows \<and> list_all flag_ok rows \<and> map (tcp_view w) rows = map plain es)"

definition udp_ready :: "udp_row list \<Rightarrow> udp_entry list \<Rightarrow> database \<Rightarrow> bool" where
  "udp_ready rows es w =
     (list_all (\<lambda>r. \<exists>np. names w (uw_strategy_id r) np) rows \<and> map (udp_view w) rows = map plain_udp es)"

definition cache_ok :: "strategy_cache \<Rightarrow> database \<Rightarrow> bool" where
  "cache_ok cache w = (\<forall>k i. dict_get cache k = Some i \<longrightarrow> names w i k)"

lemma names_strat_of: "names w i np \<Longrightarrow> strat_of w i = np"
  by (simp add: names_def strat_of_def)

lemma tcp_view_strat: "strat_of w' (tw_strategy_id r) = strat_of w (tw_strategy_id r) \<Longrightarrow> tcp_view w' r = tcp_view w r"
  by (simp add: tcp_view_def)

lemma udp_view_strat: "strat_of w' (uw_strategy_id r) = strat_of w (uw_strategy_id r) \<Longrightarrow> udp_view w' r = udp_view w r"
  by (simp add: udp_view_def)

lemma ready_upsert:
  "tcp_ready rows es w \<Longrightarrow> tcp_ready rows es (upsert_strategy gap name proto cfg ts w)"
  "udp_ready urows ues w \<Longrightarrow> udp_ready urows ues (upsert_strategy gap name proto cfg ts w)"
  "cache_ok cache w \<Longrightarrow> cache_ok cache (upsert_strategy gap name proto cfg ts w)"
proof -
  let ?w = "upsert_strategy gap name proto cfg ts w"
  have st: "strat_of ?w i = strat_of w i" if "names w i np" for i np
    using that names_upsert [OF that] by (simp add: names_strat_of)
  show "tcp_ready rows es ?w" if "tcp_ready rows es w"
  proof -
    have n: "\<forall>r \<in> set rows. \<exists>np. names w (tw_strategy_id r) np" and v: "list_all flag_ok rows" "map (tcp_view w) rows = map plain es"
      using that by (simp_all add: tcp_ready_def list_all_iff)
    have "map (tcp_view ?w) rows = map (tcp_view w) rows"
      using n by (intro map_cong refl tcp_view_strat) (blast intro: st)
    then show ?thesis
      using n v by (simp add: tcp_ready_def list_all_iff del: split_paired_Ex) (blast intro: names_upsert)
  qed
  show "udp_ready urows ues ?w" if "udp_ready urows ues w"
  proof -
    have n: "\<forall>r \<in> set urows. \<exists>np. names w (uw_strategy_id r) np" and v: "map (udp_view w) urows = map plain_udp ues"
      using that by (simp_all add: udp_ready_def list_all_iff)
    have "map (udp_view ?w) urows = map (udp_view w) urows"
      using n by (intro map_cong refl udp_view_strat) (blast intro: st)
    then show ?thesis
      using n v by (simp add: udp_ready_def list_all_iff del: split_paired_Ex) (blast intro: names_upsert)
  qed
  show "cache_ok cache w \<Longrightarrow> cache_ok cache ?w"
    unfolding cache_ok_def using names_upsert by blast
qed

lemma triple_cached:
  assumes env: "steady_env env"
    and stable: "\<And>w gap ts. f w \<Longrightarrow> f (upsert_strategy gap name proto cfg ts w)" and ok: "\<And>w. f w \<Longrightarrow> db_ok w"
  shows "triple (in_tx env s0 (\<lambda>w. f w \<and> cache_ok cache w)) (ensure_strategy_cached env cache name proto cfg)
           (\<lambda>(i, cache'). in_tx env s0 (\<lambda>w. f w \<and> cache_ok cache' w \<and> names w i (name, proto))) (broken env s0)"
proof (cases "dict_get cache (name, proto)")
  case (Some i)
  then show ?thesis
    by (auto simp: ensure_strategy_cached_def cache_ok_def intro!: triple_return elim!: in_tx_mono)
next
  case None
  have "triple (in_tx env s0 (\<lambda>w. f w \<and> cache_ok cache w)) (ensure_strategy_on_db env name proto cfg)
          (\<lambda>i. in_tx env s0 (\<lambda>w. (f w \<and> cache_ok cache w) \<and> names w i (name, proto))) (broken env s0)"
    by (rule triple_ensure_strategy [OF env]) (auto intro: stable ready_upsert ok)
  moreover have "triple (in_tx env s0 (\<lambda>w. (f w \<and> cache_ok cache w) \<and> names w i (name, proto)))
       (return_op (i, dict_set (name, proto) i cache))
       (\<lambda>(i, cache'). in_tx env s0 (\<lambda>w. f w \<and> cache_ok cache' w \<and> names w i (name, proto))) (broken env s0)" for i
    by (rule triple_return) (auto simp: cache_ok_def update_conv' elim!: in_tx_mono)
  ultimately show ?thesis
    unfolding ensure_strategy_cached_def None option.case by (rule triple_then)
qed

lemma tcp_view_row:
  "names w i (te_strategy e, te_proto e) \<Longrightarrow> te_timestamp e \<noteq> [] \<Longrightarrow> tcp_view w (tcp_row_values now run_id i e) = plain e"
proof -
  have b: "map_option (\<lambda>i. i \<noteq> 0) (map_option bool_int x) = x" "(bool_int y \<noteq> 0) = y" for x y
    by (cases x; simp add: bool_int_def) (simp add: bool_int_def)
  show "names w i (te_strategy e, te_proto e) \<Longrightarrow> te_timestamp e \<noteq> [] \<Longrightarrow> ?thesis"
    by (simp add: tcp_view_def tcp_row_values_def names_strat_of plain_def b del: option.map_comp)
qed

lemma flag_ok_row: "flag_ok (tcp_row_values now run_id i e)"
  by (cases "te_bridge_applied e") (auto simp: flag_ok_def tcp_row_values_def bool_int_def)

lemma udp_view_row:
  "names w i (ue_strategy e, ''udp'') \<Longrightarrow> ue_timestamp e \<noteq> [] \<Longrightarrow> udp_view w (udp_row_values now run_id i e) = plain_udp e"
  by (simp add: udp_view_def udp_row_values_def names_strat_of plain_udp_def)

lemma triple_tcp_rows:
  assumes env: "steady_env env" and ts: "list_all (\<lambda>e. te_timestamp e \<noteq> []) es"
  shows "triple (in_tx env s0 (\<lambda>w. (has tcps udps w \<and> tcp_ready rows dn w) \<and> cache_ok cache w))
           (tcp_batch_rows env run_id cache rows es)
           (\<lambda>(rows', cache'). in_tx env s0 (\<lambda>w. (has tcps udps w \<and> tcp_ready rows' (dn @ es) w) \<and> cache_ok cache' w)) (broken env s0)"
  using ts
proof (induction es arbitrary: cache rows "dn")
  case Nil
  then show ?case by (auto intro: triple_return)
next
  case (Cons e es)
  let ?f = "\<lambda>w. has tcps udps w \<and> tcp_ready rows dn w"
  have 1: "triple (in_tx env s0 (\<lambda>w. ?f w \<and> cache_ok cache w))
      (ensure_strategy_cached env cache (te_strategy e) (te_proto e) (te_config_path e))
      (\<lambda>(i, cache'). in_tx env s0 (\<lambda>w. ?f w \<and> cache_ok cache' w \<and> names w i (te_strategy e, te_proto e))) (broken env s0)"
    by (rule triple_cached [OF env]) (auto intro: has_upsert ready_upsert has_ok)
  have 2: "triple (in_tx env s0 (\<lambda>w. ?f w \<and> cache_ok cache' w \<and> names w i (te_strategy e, te_proto e)))
      (\<lambda>s. tcp_batch_rows env run_id cache' (rows @ [tcp_row_values (sv_now env (ss_tick s)) run_id i e]) es s)
      (\<lambda>(rows', cache'). in_tx env s0 (\<lambda>w. (has tcps udps w \<and> tcp_ready rows' (dn @ e # es) w) \<and> cache_ok cache' w)) (broken env s0)"
    for i cache'
  proof (rule tripleI)
    fix s
    assume s: "in_tx env s0 (\<lambda>w. ?f w \<and> cache_ok cache' w \<and> names w i (te_strategy e, te_proto e)) s"
    have "in_tx env s0 (\<lambda>w. (has tcps udps w \<and> tcp_ready (rows @ [tcp_row_values (sv_now env (ss_tick s)) run_id i e]) (dn @ [e]) w) \<and> cache_ok cache' w) s"
      using s Cons.prems by (rule_tac in_tx_mono [OF s]) (auto simp: tcp_ready_def tcp_view_row flag_ok_row, auto simp: tcp_row_values_def)
    from tripleD [OF Cons.IH this] Cons.prems
    show "outcome (\<lambda>(rows', cache'). in_tx env s0 (\<lambda>w. (has tcps udps w \<and> tcp_ready rows' (dn @ e # es) w) \<and> cache_ok cache' w)) (broken env s0)
        (tcp_batch_rows env run_id cache' (rows @ [tcp_row_values (sv_now env (ss_tick s)) run_id i e]) es s)"
      by simp
  qed
  show ?case
    using triple_then [OF 1, where f = "\<lambda>(sid, cache') s. tcp_batch_rows env run_id cache' (rows @ [tcp_row_values (sv_now env (ss_tick s)) run_id sid e]) es s"] 2
    by (simp add: split_paired_all)
qed

lemma triple_udp_rows:
  assumes env: "steady_env env" and ts: "list_all (\<lambda>e. ue_timestamp e \<noteq> []) es"
  shows "triple (in_tx env s0 (\<lambda>w. (has tcps udps w \<and> udp_ready rows dn w) \<and> cache_ok cache w))
           (udp_batch_rows env run_id cache rows es)
           (\<lambda>(rows', cache'). in_tx env s0 (\<lambda>w. (has tcps udps w \<and> udp_ready rows' (dn @ es) w) \<and> cache_ok cache' w)) (broken env s0)"
  using ts
proof (induction es arbitrary: cache rows "dn")
  case Nil
  then show ?case by (auto intro: triple_return)
next
  case (Cons e es)
  let ?f = "\<lambda>w. has tcps udps w \<and> udp_ready rows dn w"
  have 1: "triple (in_tx env s0 (\<lambda>w. ?f w \<and> cache_ok cache w))
      (ensure_strategy_cached env cache (ue_strategy e) ''udp'' (ue_config_path e))
      (\<lambda>(i, cache'). in_tx env s0 (\<lambda>w. ?f w \<and> cache_ok cache' w \<and> names w i (ue_strategy e, ''udp''))) (broken env s0)"
    by (rule triple_cached [OF env]) (auto intro: has_upsert ready_upsert has_ok)
  have 2: "triple (in_tx env s0 (\<lambda>w. ?f w \<and> cache_ok cache' w \<and> names w i (ue_strategy e, ''udp'')))
      (\<lambda>s. udp_batch_rows env run_id cache' (rows @ [udp_row_values (sv_now env (ss_tick s)) run_id i e]) es s)
      (\<lambda>(rows', cache'). in_tx env s0 (\<lambda>w. (has tcps udps w \<and> udp_ready rows' (dn @ e # es) w) \<and> cache_ok cache' w)) (broken env s0)"
    for i cache'
  proof (rule tripleI)
    fix s
    assume s: "in_tx env s0 (\<lambda>w. ?f w \<and> cache_ok cache' w \<and> names w i (ue_strategy e, ''udp'')) s"
    have "in_tx env s0 (\<lambda>w. (has tcps udps w \<and> udp_ready (rows @ [udp_row_values (sv_now env (ss_tick s)) run_id i e]) (dn @ [e]) w) \<and> cache_ok cache' w) s"
      using s Cons.prems by (rule_tac in_tx_mono [OF s]) (auto simp: udp_ready_def udp_view_row, auto simp: udp_row_values_def)
    from tripleD [OF Cons.IH this] Cons.prems
    show "outcome (\<lambda>(rows', cache'). in_tx env s0 (\<lambda>w. (has tcps udps w \<and> udp_ready rows' (dn @ e # es) w) \<and> cache_ok cache' w)) (broken env s0)
        (udp_batch_rows env run_id cache' (rows @ [udp_row_values (sv_now env (ss_tick s)) run_id i e]) es s)"
      by simp
  qed
  show ?case
    using triple_then [OF 1, where f = "\<lambda>(sid, cache') s. udp_batch_rows env run_id cache' (rows @ [udp_row_values (sv_now env (ss_tick s)) run_id sid e]) es s"] 2
    by (simp add: split_paired_all)
qed

lemma strat_map_insert [simp]:
  "strat_map (insert_tcp gap r d) = strat_map d" "strat_map (insert_udp gap u d) = strat_map d"
  by (simp_all add: strat_map_def insert_tcp_def insert_udp_def)

lemma view_insert [simp]:
  "tcp_view (insert_tcp gap r d) = tcp_view d" "udp_view (insert_tcp gap r d) = udp_view d"
  "tcp_view (insert_udp gap u d) = tcp_view d" "udp_view (insert_udp gap u d) = udp_view d"
  by (simp_all add: fun_eq_iff tcp_view_def udp_view_def strat_of_def)

lemma names_in_map: "names w i np \<Longrightarrow> i \<in> set (map fst (strat_map w))"
  by (auto simp: names_def dest: map_of_SomeD intro: rev_image_eqI)

lemma has_insert_tcp:
  assumes "has tcps udps w" and "names w (tw_strategy_id r) np" and "flag_ok r"
  shows "has (tcps @ [tcp_view w r]) udps (insert_tcp gap r w)"
proof -
  have rows: "db_tcp (insert_tcp gap r w) = db_tcp w @ [r\<lparr>tw_id := next_id gap (map tw_id (db_tcp w))\<rparr>]"
      "db_udp (insert_tcp gap r w) = db_udp w"
    by (simp_all add: insert_tcp_def)
  have id: "tcp_view w (r\<lparr>tw_id := i\<rparr>) = tcp_view w r" "flag_ok (r\<lparr>tw_id := i\<rparr>)" for i
    using assms(3) by (simp_all add: tcp_view_def flag_ok_def)
  have "\<forall>x \<in> set (map tw_id (db_tcp w)). x < next_id gap (map tw_id (db_tcp w))"
    using next_id_greater by blast
  then show ?thesis
    using assms(1) names_in_map [OF assms(2)]
    by (simp add: has_def db_ok_def rows committed_tcp_def committed_udp_def id sorted_wrt_append)
qed

lemma has_insert_udp:
  assumes "has tcps udps w" and "names w (uw_strategy_id r) np"
  shows "has tcps (udps @ [udp_view w r]) (insert_udp gap r w)"
proof -
  have rows: "db_udp (insert_udp gap r w) = db_udp w @ [r\<lparr>uw_id := next_id gap (map uw_id (db_udp w))\<rparr>]"
      "db_tcp (insert_udp gap r w) = db_tcp w"
    by (simp_all add: insert_udp_def)
  have id: "udp_view w (r\<lparr>uw_id := i\<rparr>) = udp_view w r" for i
    by (simp add: udp_view_def)
  have "\<forall>x \<in> set (map uw_id (db_udp w)). x < next_id gap (map uw_id (db_udp w))"
    using next_id_greater by blast
  then show ?thesis
    using assms(1) names_in_map [OF assms(2)]
    by (simp add: has_def db_ok_def rows committed_tcp_def committed_udp_def id sorted_wrt_append)
qed

lemma names_insert [simp]:
  "names (insert_tcp gap r d) = names d" "names (insert_udp gap u d) = names d"
  by (simp_all add: fun_eq_iff names_def)

lemma has_insert_all_tcp:
  "has tcps udps w \<Longrightarrow> list_all (\<lambda>r. \<exists>np. names w (tw_strategy_id r) np) rows \<Longrightarrow> list_all flag_ok rows \<Longrightarrow>
   has (tcps @ map (tcp_view w) rows) udps (fold (insert_tcp gap) rows w)"
proof (induction rows arbitrary: tcps w)
  case Nil
  then show ?case by simp
next
  case (Cons r rows)
  then obtain np where "names w (tw_strategy_id r) np"
    by auto
  from Cons.IH [OF has_insert_tcp [OF Cons.prems(1) this]] Cons.prems(2,3) show ?case
    by simp
qed

lemma has_insert_all_udp:
  "has tcps udps w \<Longrightarrow> list_all (\<lambda>r. \<exists>np. names w (uw_strategy_id r) np) rows \<Longrightarrow>
   has tcps (udps @ map (udp_view w) rows) (fold (insert_udp gap) rows w)"
proof (induction rows arbitrary: udps w)
  case Nil
  then show ?case by simp
next
  case (Cons r rows)
  then obtain np where "names w (uw_strategy_id r) np"
    by auto
  from Cons.IH [OF has_insert_udp [OF Cons.prems(1) this]] Cons.prems(2) show ?case
    by simp
qed

lemma cache_ok_strat: "strat_map w' = strat_map w \<Longrightarrow> cache_ok cache w' = cache_ok cache w"
  by (simp add: cache_ok_def names_def)

lemma strat_map_fold [simp]:
  "strat_map (fold (insert_tcp gap) rows w) = strat_map w" "strat_map (fold (insert_udp gap) urows w) = strat_map w"
  by (induction rows arbitrary: w; simp) (induction urows arbitrary: w; simp)

lemma triple_executemany:
  assumes env: "steady_env env" and g: "\<And>gap w. f w \<Longrightarrow> f' (fold (ins gap) rows w)"
  shows "triple (in_tx env s0 f) (executemany env ins rows) (\<lambda>_. in_tx env s0 f') (broken env s0)"
proof (rule tripleI)
  fix s
  assume s: "in_tx env s0 f s"
  show "outcome (\<lambda>_. in_tx env s0 f') (broken env s0) (executemany env ins rows s)"
    unfolding executemany_def Let_def by (rule tripleD [OF triple_dml [OF env] s]) (simp add: g)
qed

lemma triple_insert_tcp:
  assumes "steady_env env"
  shows "triple (in_tx env s0 (\<lambda>w. (has tcps udps w \<and> tcp_ready rows es w) \<and> cache_ok cache w))
           (when_op (rows \<noteq> []) (executemany env insert_tcp rows))
           (\<lambda>_. in_tx env s0 (\<lambda>w. has (tcps @ map plain es) udps w \<and> cache_ok cache w)) (broken env s0)"
proof (cases "rows = []")
  case True
  then show ?thesis
    by (auto simp: when_op_def tcp_ready_def intro!: triple_return elim!: in_tx_mono)
next
  case False
  have "has (tcps @ map plain es) udps (fold (insert_tcp gap) rows w)" if "has tcps udps w" "tcp_ready rows es w" for gap w
    using has_insert_all_tcp [OF that(1), of rows gap] that(2) by (simp add: tcp_ready_def)
  then show ?thesis
    using False by (simp only: when_op_def simp_thms if_True) (rule triple_executemany [OF assms], simp add: cache_ok_strat [OF strat_map_fold(1)])
qed

lemma triple_insert_udp:
  assumes "steady_env env"
  shows "triple (in_tx env s0 (\<lambda>w. (has tcps udps w \<and> udp_ready rows es w) \<and> cache_ok cache w))
           (when_op (rows \<noteq> []) (executemany env insert_udp rows))
           (\<lambda>_. in_tx env s0 (has tcps (udps @ map plain_udp es))) (broken env s0)"
proof (cases "rows = []")
  case True
  then show ?thesis
    by (auto simp: when_op_def udp_ready_def intro!: triple_return elim!: in_tx_mono)
next
  case False
  have "has tcps (udps @ map plain_udp es) (fold (insert_udp gap) rows w)" if "has tcps udps w" "udp_ready rows es w" for gap w
    using has_insert_all_udp [OF that(1), of rows gap] that(2) by (simp add: udp_ready_def)
  then show ?thesis
    using False by (simp only: when_op_def simp_thms if_True) (rule triple_executemany [OF assms], simp)
qed

lemma triple_commit:
  assumes "steady_env env"
  shows "triple (in_tx env s0 (has tcps udps)) (commit env) (\<lambda>_. saved env s0 tcps udps) (broken env s0)"
  unfolding commit_def
proof (rule triple_call [OF assms])
  fix s
  assume s: "in_tx env s0 (has tcps udps) s"
  then have "waited env s0 (await env (s\<lparr>ss_db := current_db s, ss_work := None\<rparr>))"
    using frame_trans [OF _ frame_await [of "s\<lparr>ss_db := current_db s, ss_work := None\<rparr>" s env]] by (simp add: in_tx_def)
  then show "saved env s0 tcps udps (await env (snd ((), s\<lparr>ss_db := current_db s, ss_work := None\<rparr>)))"
    using in_tx_current [OF s] by (simp add: saved_def)
qed (auto intro: in_tx_broken in_tx_await_same)

lemma triple_flush_body:
  assumes env: "steady_env env"
    and "list_all (\<lambda>e. te_timestamp e \<noteq> []) tes" and "list_all (\<lambda>e. ue_timestamp e \<noteq> []) ues"
  shows "triple (in_tx env s0 (has tcps udps)) (flush_body env run_id tes ues)
           (\<lambda>_. saved env s0 (tcps @ map plain tes) (udps @ map plain_udp ues)) (broken env s0)"
proof -
  have start: "triple (in_tx env s0 (has tcps udps)) (tcp_batch_rows env run_id [] [] tes)
      (\<lambda>(rows, cache). in_tx env s0 (\<lambda>w. (has tcps udps w \<and> tcp_ready rows tes w) \<and> cache_ok cache w)) (broken env s0)"
    by (rule triple_weaken [OF triple_tcp_rows [OF assms(1,2), where dn = "[]"]])
       (auto simp: tcp_ready_def cache_ok_def elim!: in_tx_mono)
  have middle: "triple (in_tx env s0 (\<lambda>w. has (tcps @ map plain tes) udps w \<and> cache_ok cache w)) (udp_batch_rows env run_id cache [] ues)
      (\<lambda>(rows, cache). in_tx env s0 (\<lambda>w. (has (tcps @ map plain tes) udps w \<and> udp_ready rows ues w) \<and> cache_ok cache w)) (broken env s0)" for cache
    by (rule triple_weaken [OF triple_udp_rows [OF assms(1,3), where dn = "[]"]])
       (auto simp: udp_ready_def elim!: in_tx_mono)
  have finish: "triple (in_tx env s0 (\<lambda>w. (has (tcps @ map plain tes) udps w \<and> udp_ready rows ues w) \<and> cache_ok cache w))
      (then_op (when_op (rows \<noteq> []) (executemany env insert_udp rows)) (\<lambda>_. commit env))
      (\<lambda>_. saved env s0 (tcps @ map plain tes) (udps @ map plain_udp ues)) (broken env s0)" for rows cache
    by (rule triple_then [OF triple_insert_udp [OF env] triple_commit [OF env]])
  have rest: "triple (in_tx env s0 (\<lambda>w. (has tcps udps w \<and> tcp_ready rows tes w) \<and> cache_ok cache w))
      (then_op (when_op (rows \<noteq> []) (executemany env insert_tcp rows)) (\<lambda>_.
         then_op (udp_batch_rows env run_id cache [] ues) (\<lambda>(udp_rows, cache').
         then_op (when_op (udp_rows \<noteq> []) (executemany env insert_udp udp_rows)) (\<lambda>_. commit env))))
      (\<lambda>_. saved env s0 (tcps @ map plain tes) (udps @ map plain_udp ues)) (broken env s0)" for rows cache
    by (rule triple_then [OF triple_insert_tcp [OF env]], rule triple_then [OF middle])
       (rule prod.induct, simp only: prod.case, rule finish)
  show ?thesis
    unfolding flush_body_def by (rule triple_then [OF start]) (rule prod.induct, simp only: prod.case, rule rest)
qed

lemma rollback_calm:
  assumes env: "steady_env env" and "broken env s0 s" and "store_ok s0"
  obtains s' where "rollback env s = (Inr (), s')" and "calm env s0 s'"
proof
  show "rollback env s = (Inr (), await env (s\<lparr>ss_work := None\<rparr>))"
    using env by (simp add: rollback_def db_call_def steady_env_def)
  have "waited env s0 (await env (s\<lparr>ss_work := None\<rparr>))"
    using assms(2) frame_trans [OF _ frame_await [of "s\<lparr>ss_work := None\<rparr>" s env]] by (simp add: broken_def in_tx_def)
  then show "calm env s0 (await env (s\<lparr>ss_work := None\<rparr>))"
    using assms(2,3) by (simp add: calm_def store_ok_def broken_def in_tx_def quiet_refl)
qed

lemma triple_or_rollback:
  assumes env: "steady_env env" and ok: "store_ok s0" and m: "triple P m Q (broken env s0)"
  shows "triple P (or_rollback env m) Q (calm env s0)"
proof (rule tripleI)
  fix s
  assume "P s"
  from tripleD [OF m this] show "outcome Q (calm env s0) (or_rollback env m s)"
  proof (cases rule: outcome_cases)
    case (ok x s')
    then show ?thesis by (simp add: or_rollback_def)
  next
    case (err e s')
    obtain s'' where "rollback env s' = (Inr (), s'')" "calm env s0 s''"
      using rollback_calm [OF env err(3) ok] by blast
    with err show ?thesis
      by (cases e) (simp_all add: or_rollback_def then_op_def)
  qed
qed

lemma calm_has:
  assumes "store_ok s0" and "calm env s0 s"
  shows "has (committed_tcp (ss_db s0)) (committed_udp (ss_db s0)) (ss_db s)"
  using assms quiet_committed [of "ss_db s0" "ss_db s"] by (simp add: has_def calm_def store_ok_def)

lemma outcome_begin:
  assumes env: "steady_env env" and ok: "store_ok s0" and c: "calm env s0 s"
  shows "outcome (\<lambda>_ s1. \<exists>s'. calm env s0 s' \<and> in_tx env s' (has (committed_tcp (ss_db s0)) (committed_udp (ss_db s0))) s1)
           (calm env s0) (begin_immediate env s)"
proof (cases "ss_work s = None")
  case False
  have "calm env s (await env s)"
    using c by (intro calm_update(1)) (auto simp: calm_def store_ok_def quiet_refl)
  then show ?thesis
    using False calm_trans [OF c] by (auto simp: begin_immediate_def)
next
  case True
  have "calm env s (await env s)"
    using c by (intro calm_update(1)) (auto simp: calm_def store_ok_def quiet_refl)
  then have "calm env s0 (await env s)"
    by (rule calm_trans [OF c])
  moreover have "in_tx env s (has (committed_tcp (ss_db s0)) (committed_udp (ss_db s0))) (await env (s\<lparr>ss_work := Some (ss_db s)\<rparr>))"
    using calm_has [OF ok c] frame_await [of "s\<lparr>ss_work := Some (ss_db s)\<rparr>" s env] by (simp add: in_tx_def)
  ultimately have "outcome (\<lambda>_ s1. \<exists>s'. calm env s0 s' \<and> in_tx env s' (has (committed_tcp (ss_db s0)) (committed_udp (ss_db s0))) s1)
      (calm env s0) (db_call env Begin (\<lambda>n s. s) (\<lambda>s. ((), s\<lparr>ss_work := Some (ss_db s)\<rparr>)) s)"
    using c by (intro tripleD [OF triple_call [OF env, where P = "\<lambda>s'. s' = s"]]) auto
  then show ?thesis
    using True by (simp add: begin_immediate_def)
qed

lemma saved_frame: "waited env s0 s \<Longrightarrow> saved env s tcps udps s' \<Longrightarrow> saved env s0 tcps udps s'"
  using frame_trans by (auto simp: saved_def)

lemma triple_transaction:
  assumes env: "steady_env env" and ok: "store_ok s0"
    and ts: "list_all (\<lambda>e. te_timestamp e \<noteq> []) tes" "list_all (\<lambda>e. ue_timestamp e \<noteq> []) ues"
  shows "triple (calm env s0) (flush_transaction env tes ues)
           (\<lambda>_. saved env s0 (committed_tcp (ss_db s0) @ map plain tes) (committed_udp (ss_db s0) @ map plain_udp ues)) (calm env s0)"
proof -
  let ?Q = "\<lambda>_. saved env s0 (committed_tcp (ss_db s0) @ map plain tes) (committed_udp (ss_db s0) @ map plain_udp ues)"
  let ?B = "\<lambda>s1. \<exists>s'. calm env s0 s' \<and> in_tx env s' (has (committed_tcp (ss_db s0)) (committed_udp (ss_db s0))) s1"
  have body: "triple ?B (or_rollback env (flush_body env run_id tes ues)) ?Q (calm env s0)" for run_id
  proof (rule tripleI, elim exE conjE)
    fix s1 s'
    assume c: "calm env s0 s'" and t: "in_tx env s' (has (committed_tcp (ss_db s0)) (committed_udp (ss_db s0))) s1"
    have ok': "store_ok s'" and fr: "waited env s0 s'"
      using c by (simp_all add: calm_def)
    from tripleD [OF triple_or_rollback [OF env ok' triple_flush_body [OF env ts]] t]
    show "outcome ?Q (calm env s0) (or_rollback env (flush_body env run_id tes ues) s1)"
      by (rule outcome_mono) (erule saved_frame [OF fr], erule calm_trans [OF c])
  qed
  have lock: "triple (calm env s0) (writer env) (\<lambda>_. calm env s0) (calm env s0)"
    and run: "triple (calm env s0) (ensure_run_id_on_db env) (\<lambda>_. calm env s0) (calm env s0)"
    using calm_writer [OF env] calm_ensure_run_id [OF env] by (simp_all add: calm_op_def)
  have start: "triple (calm env s0) (begin_immediate env) (\<lambda>_. ?B) (calm env s0)"
    by (rule tripleI) (rule outcome_begin [OF env ok])
  show ?thesis
    unfolding flush_transaction_def with_write_lock_def
    by (rule triple_then [OF lock], rule triple_then [OF run], rule triple_then [OF start], rule body)
qed

lemma triple_wal:
  assumes env: "steady_env env"
  shows "triple (saved env s0 tcps udps) (when_op wal (maybe_wal_checkpoint env)) (\<lambda>_. saved env s0 tcps udps) E"
proof (cases wal)
  case False
  then show ?thesis by (auto simp: when_op_def intro: triple_return)
next
  case True
  have "triple (saved env s0 tcps udps) (maybe_wal_checkpoint env) (\<lambda>_. saved env s0 tcps udps) E"
  proof (rule tripleI)
    fix s
    assume s: "saved env s0 tcps udps s"
    let ?s1 = "s\<lparr>ss_flush_count := Suc (ss_flush_count s)\<rparr>"
    have s1: "saved env s0 tcps udps ?s1" and s2: "saved env s0 tcps udps (await env ?s1)"
      using s frame_await_same [of env s0 ?s1] by (simp_all add: saved_def waited_def)
    have "outcome (\<lambda>_. saved env s0 tcps udps) (saved env s0 tcps udps) (db_call env Pragma (\<lambda>n s. s) (\<lambda>s. ((), s)) ?s1)"
      by (rule tripleD [OF triple_call [OF env, where P = "\<lambda>s'. s' = ?s1"]]) (simp_all add: s2)
    moreover have "saved env s0 tcps udps (s'\<lparr>ss_last_checkpoint := Some now\<rparr>)" if "saved env s0 tcps udps s'" for s' now
      using that by (simp add: saved_def waited_def)
    ultimately have "outcome (\<lambda>_. saved env s0 tcps udps) E
        (case db_call env Pragma (\<lambda>n s. s) (\<lambda>s. ((), s)) ?s1 of
           (Inr x, s2) \<Rightarrow> (Inr (), s2\<lparr>ss_last_checkpoint := Some now\<rparr>)
         | (Inl CancelledError, s2) \<Rightarrow> (Inl CancelledError, s2)
         | (Inl e, s2) \<Rightarrow> (Inr (), s2))" for now
      by (elim outcome_cases) (auto split: db_exc.splits)
    then show "outcome (\<lambda>_. saved env s0 tcps udps) E (maybe_wal_checkpoint env s)"
      unfolding maybe_wal_checkpoint_def Let_def by (simp only: split: if_split) (simp add: s1)
  qed
  then show ?thesis
    using True by (simp add: when_op_def)
qed

lemma triple_attempts:
  assumes env: "steady_env env" and ok: "store_ok s0"
    and ts: "list_all (\<lambda>e. te_timestamp e \<noteq> []) tes" "list_all (\<lambda>e. ue_timestamp e \<noteq> []) ues"
  shows "triple (calm env s0) (flush_attempts (Suc left) env wal tes ues)
           (\<lambda>_. saved env s0 (committed_tcp (ss_db s0) @ map plain tes) (committed_udp (ss_db s0) @ map plain_udp ues)) (calm env s0)"
proof (induction left)
  case 0
  show ?case
  proof (rule tripleI)
    fix s
    assume "calm env s0 s"
    from tripleD [OF triple_then [OF triple_transaction [OF env ok ts] triple_wal [OF env, where wal = wal]] this]
    show "outcome (\<lambda>_. saved env s0 (committed_tcp (ss_db s0) @ map plain tes) (committed_udp (ss_db s0) @ map plain_udp ues))
        (calm env s0) (flush_attempts (Suc 0) env wal tes ues s)"
      by (cases rule: outcome_cases) simp_all
  qed
next
  case (Suc left)
  show ?case
  proof (rule tripleI)
    fix s
    assume "calm env s0 s"
    from tripleD [OF triple_then [OF triple_transaction [OF env ok ts] triple_wal [OF env, where wal = wal]] this]
    show "outcome (\<lambda>_. saved env s0 (committed_tcp (ss_db s0) @ map plain tes) (committed_udp (ss_db s0) @ map plain_udp ues))
        (calm env s0) (flush_attempts (Suc (Suc left)) env wal tes ues s)"
    proof (cases rule: outcome_cases)
      case (ok x s')
      then show ?thesis by simp
    next
      case (err e s')
      then show ?thesis
        using tripleD [OF Suc err(3)] by (cases "locked_error e") (simp_all only: flush_attempts.simps(2) [of "Suc left"] prod.case sum.case simp_thms if_True if_False nat.distinct outcome_simps)
    qed
  qed
qed

text \<open>The outcome of a flush: the rows are in the tables, or the buffers are as before; what arrived meanwhile is buffered.\<close>

definition stamped :: "RunStore \<Rightarrow> bool" where
  "stamped s = (list_all (\<lambda>e. te_timestamp e \<noteq> []) (ss_tcp_pending s) \<and> list_all (\<lambda>e. ue_timestamp e \<noteq> []) (ss_udp_pending s))"

definition logs_to :: "store_env \<Rightarrow> RunStore \<Rightarrow> RunStore \<Rightarrow> bool" where
  "logs_to env s s' =
     (store_ok s' \<and> stamped s' \<and> ss_tick s \<le> ss_tick s' \<and> ss_batch_size s' = ss_batch_size s \<and>
      tcp_log s' = tcp_log s @ map plain (arr_tcp env (ss_tick s) (ss_tick s')) \<and>
      udp_log s' = udp_log s @ map plain_udp (arr_udp env (ss_tick s) (ss_tick s')))"

lemma arr_stamped:
  assumes "steady_env env"
  shows "list_all (\<lambda>e. te_timestamp e \<noteq> []) (arr_tcp env a b)" and "list_all (\<lambda>e. ue_timestamp e \<noteq> []) (arr_udp env a b)"
  using assms by (auto simp: arr_tcp_def arr_udp_def list_all_iff stamp_tcp_def stamp_udp_def steady_env_def)

lemma frame_stamped: "steady_env env \<Longrightarrow> waited env s s' \<Longrightarrow> stamped s \<Longrightarrow> stamped s'"
  by (simp add: waited_def stamped_def arr_stamped)

lemma saved_logs_to:
  assumes env: "steady_env env" and s1: "s1 = s\<lparr>ss_tcp_pending := [], ss_udp_pending := []\<rparr>"
    and sv: "saved env s1 (committed_tcp (ss_db s) @ map plain (ss_tcp_pending s)) (committed_udp (ss_db s) @ map plain_udp (ss_udp_pending s)) s'"
  shows "logs_to env s s'" and "committed_tcp (ss_db s') = tcp_log s" and "committed_udp (ss_db s') = udp_log s"
proof -
  have "stamped s'"
    using frame_stamped [OF env, of s1 s'] sv by (simp add: saved_def s1 stamped_def)
  then show "logs_to env s s'" "committed_tcp (ss_db s') = tcp_log s" "committed_udp (ss_db s') = udp_log s"
    using sv s1 by (auto simp: logs_to_def saved_def has_def store_ok_def waited_def tcp_log_def udp_log_def)
qed

lemma calm_logs_to:
  assumes "steady_env env" and "store_ok s" and "stamped s" and "calm env s s'"
  shows "logs_to env s s'"
  using assms quiet_committed [of "ss_db s" "ss_db s'"] frame_stamped [of env s s']
  by (auto simp: logs_to_def calm_def waited_def tcp_log_def udp_log_def store_ok_def)

lemma requeue_logs_to:
  assumes env: "steady_env env" and ok: "store_ok s" and st: "stamped s"
    and c: "calm env (s\<lparr>ss_tcp_pending := [], ss_udp_pending := []\<rparr>) s'"
  shows "logs_to env s (requeue (ss_tcp_pending s) (ss_udp_pending s) s')"
proof -
  have "store_ok (requeue t u s') = store_ok s'" for t u
    by (rule store_ok_cong) (simp_all add: requeue_def)
  moreover have "stamped s'"
    using frame_stamped [OF env, of "s\<lparr>ss_tcp_pending := [], ss_udp_pending := []\<rparr>" s'] c by (simp add: calm_def stamped_def)
  ultimately show ?thesis
    using ok st c quiet_committed [of "ss_db s" "ss_db s'"]
    by (auto simp: logs_to_def calm_def waited_def tcp_log_def udp_log_def requeue_def store_ok_dbD stamped_def)
qed

lemma calm_clear: "store_ok s \<Longrightarrow> store_ok (s\<lparr>ss_tcp_pending := t, ss_udp_pending := u\<rparr>)"
  using store_ok_cong [of "s\<lparr>ss_tcp_pending := t, ss_udp_pending := u\<rparr>" s] by simp

text \<open>
  \<open>flushed s s'\<close>: everything that \<open>s\<close> had logged is in the committed tables of \<open>s'\<close>.
\<close>

definition flushed :: "RunStore \<Rightarrow> RunStore \<Rightarrow> bool" where
  "flushed s s' = (committed_tcp (ss_db s') = tcp_log s \<and> committed_udp (ss_db s') = udp_log s)"

lemma flush_logs:
  assumes env: "steady_env env" and ok: "store_ok s" and st: "stamped s"
  shows "outcome (\<lambda>_ s'. logs_to env s s' \<and> flushed s s') (logs_to env s) (flush env wal s)"
proof (cases "ss_tcp_pending s = [] \<and> ss_udp_pending s = []")
  case True
  then show ?thesis
    using ok st by (simp add: flush_def logs_to_def flushed_def tcp_log_def udp_log_def)
next
  case False
  let ?s1 = "s\<lparr>ss_tcp_pending := [], ss_udp_pending := []\<rparr>"
  have ok1: "store_ok ?s1"
    by (rule calm_clear [OF ok])
  have ts: "list_all (\<lambda>e. te_timestamp e \<noteq> []) (ss_tcp_pending s)" "list_all (\<lambda>e. ue_timestamp e \<noteq> []) (ss_udp_pending s)"
    using st by (simp_all add: stamped_def)
  have five: "(5::nat) = Suc 4"
    by simp
  have "outcome (\<lambda>_. saved env ?s1 (committed_tcp (ss_db s) @ map plain (ss_tcp_pending s)) (committed_udp (ss_db s) @ map plain_udp (ss_udp_pending s)))
      (calm env ?s1) (flush_attempts 5 env wal (ss_tcp_pending s) (ss_udp_pending s) ?s1)"
    using tripleD [OF triple_attempts [OF env ok1 ts, of 4 wal], of ?s1] calm_refl [OF ok1] unfolding five by simp
  then show ?thesis
  proof (cases rule: outcome_cases)
    case (ok x s')
    have "saved env ?s1 tcps udps (s'\<lparr>ss_pending_since := None\<rparr>)" if "saved env ?s1 tcps udps s'" for tcps udps
      using that by (simp add: saved_def waited_def)
    from saved_logs_to [OF env refl this [OF ok(2)]] show ?thesis
      using ok(1) False by (auto simp: flush_def Let_def flushed_def)
  next
    case (err e s')
    from requeue_logs_to [OF env ok st err(3)] err(1,2) False show ?thesis
      by (cases e) (auto simp: flush_def Let_def)
  qed
qed

section \<open>Operations as steps\<close>

datatype store_op =
    LogTcp tcp_entry
  | LogUdp udp_entry
  | Flush bool
  | TimerTick
  | BeginRun "bool option" string string
  | EnsureStrategy string string string
  | QuarantineDomain string string int
  | WriteDnsAudit dns_audit_row
  | LogPair string string string bool bool bool rat rat rat string
  | SaveCheckpoint int int string string string string
  | SaveScanWeights "(string \<times> rat) list"
  | SaveTriage string string

definition done_op :: "'a db_op \<Rightarrow> unit db_op" where
  "done_op m = then_op m (\<lambda>_. return_op ())"

fun run_op :: "store_env \<Rightarrow> store_op \<Rightarrow> unit db_op" where
  "run_op env (LogTcp e) = log_tcp env e"
| "run_op env (LogUdp e) = log_udp env e"
| "run_op env (Flush wal) = flush env wal"
| "run_op env TimerTick = flush_timer_tick env"
| "run_op env (BeginRun resume fp ah) = done_op (begin_run env resume fp ah None None None)"
| "run_op env (EnsureStrategy name proto cfg) = done_op (ensure_strategy env name proto cfg)"
| "run_op env (QuarantineDomain d reason failed) = quarantine_domain env d reason failed"
| "run_op env (WriteDnsAudit r) = write_dns_audit_log env r"
| "run_op env (LogPair t u d b1 b2 b3 m1 m2 m3 overall) = log_pair env t u d b1 b2 b3 m1 m2 m3 overall"
| "run_op env (SaveCheckpoint i j note fp l1 l2) = save_checkpoint env i j note fp l1 l2"
| "run_op env (SaveScanWeights rows) = save_scan_weights env rows"
| "run_op env (SaveTriage d payload) = save_triage_snapshot env d payload"

definition sstep :: "store_env \<Rightarrow> store_op \<Rightarrow> RunStore \<Rightarrow> RunStore" where
  "sstep env a s = snd (run_op env a s)"

fun own_tcp :: "store_env \<Rightarrow> nat \<Rightarrow> store_op \<Rightarrow> tcp_entry list" where
  "own_tcp env n (LogTcp e) = [stamp_tcp env n e]"
| "own_tcp env n _ = []"

fun own_udp :: "store_env \<Rightarrow> nat \<Rightarrow> store_op \<Rightarrow> udp_entry list" where
  "own_udp env n (LogUdp e) = [stamp_udp env n e]"
| "own_udp env n _ = []"

text \<open>What a step adds to the log: its own entry and what arrived while it waited.\<close>

definition emits_tcp :: "store_env \<Rightarrow> store_op \<Rightarrow> RunStore \<Rightarrow> tcp_entry list" where
  "emits_tcp env a s = map plain (own_tcp env (ss_tick s) a @ arr_tcp env (ss_tick s) (ss_tick (sstep env a s)))"

definition emits_udp :: "store_env \<Rightarrow> store_op \<Rightarrow> RunStore \<Rightarrow> udp_entry list" where
  "emits_udp env a s = map plain_udp (own_udp env (ss_tick s) a @ arr_udp env (ss_tick s) (ss_tick (sstep env a s)))"

fun emitted :: "('op \<Rightarrow> 's \<Rightarrow> 's) \<Rightarrow> ('op \<Rightarrow> 's \<Rightarrow> 'e list) \<Rightarrow> 'op list \<Rightarrow> 's \<Rightarrow> 'e list" where
  "emitted step emits [] s = []"
| "emitted step emits (a # ops) s = emits a s @ emitted step emits ops (step a s)"

locale append_log =
  fixes step :: "'op \<Rightarrow> 's \<Rightarrow> 's"
    and inv :: "'s \<Rightarrow> bool"
    and view :: "'s \<Rightarrow> 'e list"
    and emits :: "'op \<Rightarrow> 's \<Rightarrow> 'e list"
  assumes step_keeps: "inv s \<Longrightarrow> inv (step a s)"
    and step_appends: "inv s \<Longrightarrow> view (step a s) = view s @ emits a s"
begin

lemma run_appends: "inv s \<Longrightarrow> inv (fold step ops s) \<and> view (fold step ops s) = view s @ emitted step emits ops s"
proof (induction ops arbitrary: s)
  case Nil
  then show ?case by simp
next
  case (Cons a ops)
  from Cons.IH [OF step_keeps [OF Cons.prems]] step_appends [OF Cons.prems, of a] show ?case
    by simp
qed

end

definition store_inv :: "RunStore \<Rightarrow> bool" where
  "store_inv s = (store_ok s \<and> stamped s \<and> 0 < ss_batch_size s)"

lemma logs_to_refl: "store_ok s \<Longrightarrow> stamped s \<Longrightarrow> logs_to env s s"
  by (simp add: logs_to_def)

lemma outcome_snd: "outcome (\<lambda>_. P) P r \<Longrightarrow> P (snd r)"
  by (erule outcome_cases) simp_all

lemma flush_step: "steady_env env \<Longrightarrow> store_ok s \<Longrightarrow> stamped s \<Longrightarrow> logs_to env s (snd (flush env wal s))"
  by (rule outcome_snd, rule outcome_mono [OF flush_logs]) simp_all

lemma age_step:
  assumes "steady_env env" "store_ok s" "stamped s"
  shows "logs_to env s (snd (maybe_flush_by_age env s))"
  using flush_step [OF assms] logs_to_refl [OF assms(2,3)] by (simp add: maybe_flush_by_age_def split: option.split)

text \<open>A state with one more entry in a buffer, seen from the state before.\<close>

lemma pending_ok:
  assumes "store_ok s" and "s1 = mark_pending env s2" and "ss_db s2 = ss_db s" "ss_work s2 = ss_work s"
  shows "store_ok s1" "ss_db s1 = ss_db s" "ss_tick s1 = ss_tick s2" "ss_batch_size s1 = ss_batch_size s2"
    "ss_tcp_pending s1 = ss_tcp_pending s2" "ss_udp_pending s1 = ss_udp_pending s2"
proof -
  have *: "ss_db (mark_pending env s2) = ss_db s2 \<and> ss_work (mark_pending env s2) = ss_work s2 \<and> ss_tick (mark_pending env s2) = ss_tick s2 \<and>
      ss_batch_size (mark_pending env s2) = ss_batch_size s2 \<and> ss_tcp_pending (mark_pending env s2) = ss_tcp_pending s2 \<and>
      ss_udp_pending (mark_pending env s2) = ss_udp_pending s2"
    by (simp add: mark_pending_def)
  then show "ss_db s1 = ss_db s" "ss_tick s1 = ss_tick s2" "ss_batch_size s1 = ss_batch_size s2"
      "ss_tcp_pending s1 = ss_tcp_pending s2" "ss_udp_pending s1 = ss_udp_pending s2"
    using assms by simp_all
  show "store_ok s1"
    using store_ok_cong [of s1 s] assms * by simp
qed

lemma log_tcp_step:
  fixes e :: tcp_entry
  assumes env: "steady_env env" and inv: "store_inv s"
  defines "s1 \<equiv> mark_pending env (s\<lparr>ss_tcp_pending := ss_tcp_pending s @ [stamp_tcp env (ss_tick s) e]\<rparr>)"
  shows "logs_to env s1 (snd (log_tcp env e s))" and "tcp_log s1 = tcp_log s @ [plain (stamp_tcp env (ss_tick s) e)]"
    and "udp_log s1 = udp_log s" and "ss_tick s1 = ss_tick s" and "ss_batch_size s1 = ss_batch_size s"
proof -
  have i: "store_ok s" "stamped s" "0 < ss_batch_size s"
    using inv by (simp_all add: store_inv_def)
  note p = pending_ok [OF i(1), of s1 env "s\<lparr>ss_tcp_pending := ss_tcp_pending s @ [stamp_tcp env (ss_tick s) e]\<rparr>", simplified s1_def, simplified]
  have st: "stamped s1"
    using i(2) env by (simp add: stamped_def p s1_def) (simp add: stamp_tcp_def steady_env_def)
  show "logs_to env s1 (snd (log_tcp env e s))"
    using i(3) flush_step [OF env _ st] age_step [OF env _ st] p(1) by (simp add: log_tcp_def Let_def s1_def)
  show "tcp_log s1 = tcp_log s @ [plain (stamp_tcp env (ss_tick s) e)]" "udp_log s1 = udp_log s" "ss_tick s1 = ss_tick s" "ss_batch_size s1 = ss_batch_size s"
    by (simp_all add: tcp_log_def udp_log_def p s1_def)
qed

lemma log_udp_step:
  fixes e :: udp_entry
  assumes env: "steady_env env" and inv: "store_inv s"
  defines "s1 \<equiv> mark_pending env (s\<lparr>ss_udp_pending := ss_udp_pending s @ [stamp_udp env (ss_tick s) e]\<rparr>)"
  shows "logs_to env s1 (snd (log_udp env e s))" and "udp_log s1 = udp_log s @ [plain_udp (stamp_udp env (ss_tick s) e)]"
    and "tcp_log s1 = tcp_log s" and "ss_tick s1 = ss_tick s" and "ss_batch_size s1 = ss_batch_size s"
proof -
  have i: "store_ok s" "stamped s" "0 < ss_batch_size s"
    using inv by (simp_all add: store_inv_def)
  note p = pending_ok [OF i(1), of s1 env "s\<lparr>ss_udp_pending := ss_udp_pending s @ [stamp_udp env (ss_tick s) e]\<rparr>", simplified s1_def, simplified]
  have st: "stamped s1"
    using i(2) env by (simp add: stamped_def p s1_def) (simp add: stamp_udp_def steady_env_def)
  show "logs_to env s1 (snd (log_udp env e s))"
    using i(3) flush_step [OF env _ st] age_step [OF env _ st] p(1) by (simp add: log_udp_def Let_def s1_def)
  show "udp_log s1 = udp_log s @ [plain_udp (stamp_udp env (ss_tick s) e)]" "tcp_log s1 = tcp_log s" "ss_tick s1 = ss_tick s" "ss_batch_size s1 = ss_batch_size s"
    by (simp_all add: tcp_log_def udp_log_def p s1_def)
qed

lemma other_step:
  assumes env: "steady_env env" and inv: "store_inv s" and a: "own_tcp env (ss_tick s) a = []" "own_udp env (ss_tick s) a = []"
  shows "logs_to env s (sstep env a s)"
proof -
  have i: "store_ok s" "stamped s"
    using inv by (simp_all add: store_inv_def)
  have calm: "logs_to env s (snd (m s))" if "calm_op env m" for m :: "'a db_op"
    by (rule outcome_snd, rule outcome_mono [OF calm_opD [OF that i(1)]]) (auto intro: calm_logs_to env i)
  have fin: "calm_op env (done_op m)" if "calm_op env m" for m :: "'a db_op"
    unfolding done_op_def by (intro calm_then that calm_return)
  show ?thesis
    using a by (cases a) (simp_all add: sstep_def flush_step env i calm [OF fin] calm calm_begin_run calm_ensure_strategy
        calm_other_tables calm_save_scan_weights flush_timer_tick_def logs_to_refl)
qed

lemma step_logs:
  assumes "steady_env env" and "store_inv s"
  shows "store_inv (sstep env a s)" and "tcp_log (sstep env a s) = tcp_log s @ emits_tcp env a s"
    and "udp_log (sstep env a s) = udp_log s @ emits_udp env a s"
proof -
  consider e where "a = LogTcp e" | e where "a = LogUdp e" | "own_tcp env (ss_tick s) a = []" "own_udp env (ss_tick s) a = []"
    by (cases a) auto
  then have "store_inv (sstep env a s) \<and> tcp_log (sstep env a s) = tcp_log s @ emits_tcp env a s \<and>
      udp_log (sstep env a s) = udp_log s @ emits_udp env a s"
  proof cases
    case 1
    then show ?thesis
      using log_tcp_step [OF assms, of e] assms(2) by (simp add: sstep_def logs_to_def emits_tcp_def emits_udp_def store_inv_def)
  next
    case 2
    then show ?thesis
      using log_udp_step [OF assms, of e] assms(2) by (simp add: sstep_def logs_to_def emits_tcp_def emits_udp_def store_inv_def)
  next
    case 3
    then show ?thesis
      using other_step [OF assms 3] assms(2) by (simp add: logs_to_def emits_tcp_def emits_udp_def store_inv_def)
  qed
  then show "store_inv (sstep env a s)" "tcp_log (sstep env a s) = tcp_log s @ emits_tcp env a s"
      "udp_log (sstep env a s) = udp_log s @ emits_udp env a s"
    by simp_all
qed

end
