(* ===== verification/PyJson.thy ===== *)
theory PyJson
  imports Prelude
begin

text \<open>
  The JSON-safe Python values that pass between the program's parts as plain dictionaries,
  with the conversions the code applies to them (\<open>bool(x)\<close>, \<open>int(x or 0)\<close>, \<open>list(x or [])\<close>,
  and so on). The code annotates what each entry holds and does not check it; a value
  outside the annotation is the error \<open>TypeError\<close> here, whether Python raises at the
  conversion or only later, where the value is used.
\<close>

section \<open>Values\<close>

datatype json =
    JNone
  | JBool bool
  | JInt int
  | JFloat rat
  | JStr string
  | JList "json list"
  | JDict "(string \<times> json) list"

type_synonym jdict = "(string, json) dict"

definition jget :: "jdict \<Rightarrow> string \<Rightarrow> json" where
  "jget d k = (case dict_get d k of None \<Rightarrow> JNone | Some v \<Rightarrow> v)"

fun truthy :: "json \<Rightarrow> bool" where
  "truthy JNone = False"
| "truthy (JBool b) = b"
| "truthy (JInt n) = (n \<noteq> 0)"
| "truthy (JFloat x) = (x \<noteq> 0)"
| "truthy (JStr s) = (s \<noteq> [])"
| "truthy (JList xs) = (xs \<noteq> [])"
| "truthy (JDict d) = (d \<noteq> [])"

text \<open>Only scalars can be members of a set; equal numbers are equal whatever their type.\<close>

fun hashable :: "json \<Rightarrow> bool" where
  "hashable (JList _) = False"
| "hashable (JDict _) = False"
| "hashable _ = True"

fun norm_scalar :: "json \<Rightarrow> json" where
  "norm_scalar (JBool b) = JInt (if b then 1 else 0)"
| "norm_scalar (JFloat x) = (if x = of_int \<lfloor>x\<rfloor> then JInt \<lfloor>x\<rfloor> else JFloat x)"
| "norm_scalar v = v"

section \<open>Conversions\<close>

definition bad_type :: "'a result" where
  "bad_type = Inl (TypeError ''unexpected type'')"

text \<open>\<open>int(x or 0)\<close>, \<open>float(x or 0.0)\<close>, \<open>str(x or "")\<close>.\<close>

fun to_int :: "json \<Rightarrow> int result" where
  "to_int JNone = Inr 0"
| "to_int (JBool b) = Inr (if b then 1 else 0)"
| "to_int (JInt n) = Inr n"
| "to_int (JFloat x) = Inr (if x < 0 then \<lceil>x\<rceil> else \<lfloor>x\<rfloor>)"
| "to_int (JStr s) = (if s = [] then Inr 0
     else (case int_of_str s of None \<Rightarrow> Inl (ValueError s) | Some n \<Rightarrow> Inr n))"
| "to_int (JList xs) = (if xs = [] then Inr 0 else bad_type)"
| "to_int (JDict d) = (if d = [] then Inr 0 else bad_type)"

fun to_float :: "json \<Rightarrow> rat result" where
  "to_float (JBool b) = Inr (if b then 1 else 0)"
| "to_float (JInt n) = Inr (of_int n)"
| "to_float (JFloat x) = Inr x"
| "to_float v = (if truthy v then bad_type else Inr 0)"

fun to_str :: "json \<Rightarrow> string result" where
  "to_str (JStr s) = Inr s"
| "to_str (JInt n) = Inr (if n = 0 then [] else str_int n)"
| "to_str (JBool b) = Inr (if b then ''True'' else [])"
| "to_str v = (if truthy v then bad_type else Inr [])"

text \<open>\<open>list(x or [])\<close> of strings; a string is iterated by characters, a dictionary by keys.\<close>

fun the_strs :: "json list \<Rightarrow> string list result" where
  "the_strs [] = Inr []"
| "the_strs (v # vs) =
     (case v of JStr s \<Rightarrow> bind_result (the_strs vs) (\<lambda>ws. Inr (s # ws)) | _ \<Rightarrow> bad_type)"

fun to_strs :: "json \<Rightarrow> string list result" where
  "to_strs (JList xs) = the_strs xs"
| "to_strs (JStr s) = Inr (map (\<lambda>c. [c]) s)"
| "to_strs (JDict d) = Inr (dict_keys d)"
| "to_strs v = (if truthy v then bad_type else Inr [])"

text \<open>\<open>dict(x or {})\<close>, and the same with every value converted.\<close>

fun to_dict_of :: "json \<Rightarrow> jdict result" where
  "to_dict_of (JDict d) = Inr d"
| "to_dict_of v = (if truthy v then bad_type else Inr [])"

fun conv_values :: "(json \<Rightarrow> 'a result) \<Rightarrow> jdict \<Rightarrow> (string, 'a) dict result" where
  "conv_values f [] = Inr []"
| "conv_values f ((k, v) # d) =
     bind_result (f v) (\<lambda>x. bind_result (conv_values f d) (\<lambda>xs. Inr ((k, x) # xs)))"

fun as_str :: "json \<Rightarrow> string result" where
  "as_str (JStr s) = Inr s"
| "as_str _ = bad_type"

fun as_bool :: "json \<Rightarrow> bool result" where
  "as_bool (JBool b) = Inr b"
| "as_bool _ = bad_type"

fun as_dict :: "json \<Rightarrow> jdict result" where
  "as_dict (JDict d) = Inr d"
| "as_dict _ = bad_type"

text \<open>Entries the code passes on unconverted, by the type the dataclass declares.\<close>

fun opt_int :: "json \<Rightarrow> int option result" where
  "opt_int JNone = Inr None"
| "opt_int (JInt n) = Inr (Some n)"
| "opt_int _ = bad_type"

fun opt_bool :: "json \<Rightarrow> bool option result" where
  "opt_bool JNone = Inr None"
| "opt_bool (JBool b) = Inr (Some b)"
| "opt_bool _ = bad_type"

definition jopt :: "('a \<Rightarrow> json) \<Rightarrow> 'a option \<Rightarrow> json" where
  "jopt f x = (case x of None \<Rightarrow> JNone | Some y \<Rightarrow> f y)"

lemma opt_int_jopt [simp]: "opt_int (jopt JInt x) = Inr x"
  by (simp add: jopt_def split: option.splits)

lemma opt_bool_jopt [simp]: "opt_bool (jopt JBool x) = Inr x"
  by (simp add: jopt_def split: option.splits)

lemma the_strs_map [simp]: "the_strs (map JStr ws) = Inr ws"
  by (induction ws) simp_all

lemma conv_values_map:
  "(\<And>x. f (g x) = Inr x) \<Longrightarrow> conv_values f (map (\<lambda>(k, x). (k, g x)) d) = Inr d"
  by (induction d) auto

lemma conv_values_as [simp]:
  "conv_values as_str (map (\<lambda>(k, x). (k, JStr x)) d) = Inr d"
  "conv_values as_bool (map (\<lambda>(k, x). (k, JBool x)) d') = Inr d'"
  "conv_values as_dict (map (\<lambda>(k, x). (k, JDict x)) d'') = Inr d''"
  by (simp_all add: conv_values_map)

text \<open>\<open>round(x, 1)\<close>: to one decimal, halves to the even digit.\<close>

definition round1 :: "rat \<Rightarrow> rat" where
  "round1 x = (let f = \<lfloor>10 * x\<rfloor>; r = 10 * x - of_int f
     in of_int (if r < 1 / 2 then f else if 1 / 2 < r then f + 1 else if even f then f else f + 1) / 10)"

lemma round1_idem: "round1 (round1 x) = round1 x"
proof -
  obtain k :: int where "round1 x = of_int k / 10" by (auto simp: round1_def Let_def)
  then show ?thesis by (simp add: round1_def Let_def)
qed

end
