(* ===== verification/Results.thy ===== *)
theory Results
  imports FailPhase
begin

text \<open>
  \<^verbatim>\<open>engine/generators/base.py\<close> (strategy items), \<^verbatim>\<open>engine/results.py\<close> (probe results and the
  campaign's pass criterion) and \<^verbatim>\<open>engine/wssize_retry.py\<close> (the retry policy).
\<close>

section \<open>Strategy items\<close>

record StrategyItem =
  si_label :: string
  si_strategy :: string
  si_is_config :: bool
  si_protocol :: string

definition mk_item :: "string \<Rightarrow> string \<Rightarrow> StrategyItem" where
  "mk_item l s = \<lparr>si_label = l, si_strategy = s, si_is_config = False, si_protocol = ''tls12''\<rparr>"

record StrategyPair =
  sp_tcp :: StrategyItem
  sp_udp :: StrategyItem

section \<open>Results\<close>

text \<open>\<open>bridge_applied\<close>: the bridge saw the strategy applied, did not, or does not know.\<close>

definition campaign_pass :: "bool \<Rightarrow> bool option \<Rightarrow> bool" where
  "campaign_pass http_ok bridge_applied =
     (case bridge_applied of
        Some True \<Rightarrow> http_ok
      | Some False \<Rightarrow> False
      | None \<Rightarrow> http_ok)"

record TcpTestResult =
  tr_item :: StrategyItem
  tr_domain :: string
  tr_success :: bool
  tr_http_code :: int
  tr_latency_ms :: rat
  tr_settle_ms :: "rat option"
  tr_content_length :: int
  tr_content_valid :: bool
  tr_throttled :: bool
  tr_read_rate_bps :: rat
  tr_error :: string
  tr_used_ip :: string
  tr_probe_host :: string
  tr_fail_phase :: string
  tr_rst_in_ttl :: int
  tr_bridge_applied :: "bool option"
  tr_bridge_batch_id :: int
  tr_bridge_gen :: int

definition new_tcp_result :: "StrategyItem \<Rightarrow> string \<Rightarrow> TcpTestResult" where
  "new_tcp_result it d = \<lparr>tr_item = it, tr_domain = d, tr_success = False, tr_http_code = 0,
     tr_latency_ms = 0, tr_settle_ms = None, tr_content_length = 0, tr_content_valid = True,
     tr_throttled = False, tr_read_rate_bps = 0, tr_error = [], tr_used_ip = [],
     tr_probe_host = [], tr_fail_phase = [], tr_rst_in_ttl = 0, tr_bridge_applied = None,
     tr_bridge_batch_id = 0, tr_bridge_gen = 0\<rparr>"

definition tcp_campaign_pass :: "TcpTestResult \<Rightarrow> bool" where
  "tcp_campaign_pass r = campaign_pass (tr_success r) (tr_bridge_applied r)"

text \<open>A row of \<open>get_working_tcp_details\<close>: name, status and latency (absent or null is 0).\<close>

record working_detail =
  wd_name :: string
  wd_status :: "string option"
  wd_latency_ms :: "rat option"

fun tcp_results_from_details :: "(string, StrategyItem) dict \<Rightarrow> working_detail list \<Rightarrow> string \<Rightarrow> TcpTestResult list" where
  "tcp_results_from_details by_label [] d = []"
| "tcp_results_from_details by_label (w # ws) d =
     (case dict_get by_label (wd_name w) of
        None \<Rightarrow> tcp_results_from_details by_label ws d
      | Some it \<Rightarrow>
          (new_tcp_result it d)\<lparr>tr_success := True,
             tr_throttled := (wd_status w = Some ''THROTTLED''),
             tr_latency_ms := (case wd_latency_ms w of None \<Rightarrow> 0 | Some x \<Rightarrow> x)\<rparr>
          # tcp_results_from_details by_label ws d)"

record UdpTestResult =
  ur_item :: StrategyItem
  ur_target :: string
  ur_success :: bool
  ur_latency_ms :: rat
  ur_error :: string

record PairResult =
  pr_tcp_item :: StrategyItem
  pr_udp_item :: StrategyItem
  pr_tcp_ok :: bool
  pr_udp_ok :: bool
  pr_tcp_ms :: rat
  pr_udp_ms :: rat
  pr_overall :: string

record ScanReport =
  sr_domain :: string
  sr_tcp_results :: "TcpTestResult list"
  sr_pairs :: "PairResult list"
  sr_total_time_sec :: rat

section \<open>The wssize retry policy\<close>

definition WSSIZE_CMD :: string where
  "WSSIZE_CMD = ''wssize:wsize=1:scale=6''"

record WssizeRetryPolicy =
  wp_cmd :: string
  wp_timeout_cap :: rat

definition WSSIZE_RETRY :: WssizeRetryPolicy where
  "WSSIZE_RETRY = \<lparr>wp_cmd = WSSIZE_CMD, wp_timeout_cap = 3 / 2\<rparr>"

definition retry_timeout :: "WssizeRetryPolicy \<Rightarrow> rat \<Rightarrow> rat" where
  "retry_timeout p t = min t (wp_timeout_cap p)"

definition should_retry :: "bool \<Rightarrow> bool \<Rightarrow> string \<Rightarrow> string \<Rightarrow> bool \<Rightarrow> bool" where
  "should_retry success try_wssize protocol strategy is_config =
     (\<not> success \<and> try_wssize \<and> protocol = ''tls12'' \<and> \<not> is_config \<and> \<not> contains ''wssize'' strategy)"

text \<open>Retrying with the companion command appended never asks for a second retry.\<close>

lemma no_second_retry:
  "should_retry ok w p s c \<Longrightarrow> \<not> should_retry ok' w' p' (s @ x @ WSSIZE_CMD) c'"
proof -
  have "WSSIZE_CMD = ''wssize'' @ '':wsize=1:scale=6''" by code_simp
  then have "contains ''wssize'' (s @ x @ WSSIZE_CMD)"
    using contains_self_append [of "''wssize''" "s @ x" "'':wsize=1:scale=6''"] by simp
  then show ?thesis by (simp add: should_retry_def)
qed

lemma tcp_results_from_details_props:
  "r \<in> set (tcp_results_from_details by_label ws d) \<Longrightarrow>
   tcp_campaign_pass r \<and> tr_domain r = d \<and> tr_item r \<in> snd ` set by_label"
  by (induction ws)
    (auto simp: tcp_campaign_pass_def campaign_pass_def new_tcp_result_def split: option.splits
      dest!: map_of_SomeD intro: rev_image_eqI)

end
