(* ===== verification/Families.thy ===== *)
theory Families
  imports Results "HOL-Library.Char_ord" "HOL-Library.List_Lexorder" "HOL-Library.Product_Lexorder"
begin

text \<open>
  \<^verbatim>\<open>engine/family_spec.py\<close> (the registry of strategy families) and
  \<^verbatim>\<open>engine/family_needs.py\<close> (family classification, the need flags and the gated TCP run).
  The axis tables of a family are data for the expanders and are left out of the registry
  record. In the gated run the probe, the resume check and the stop flag are arguments:
  \<open>test n item\<close> is the result of the \<open>n\<close>-th probe, \<open>stop n\<close> what the \<open>n\<close>-th look at
  the stop flag sees. Progress callbacks only report and are left out.
\<close>

section \<open>Registry\<close>

record FamilySpec =
  fs_name :: string
  fs_protocols :: "string list"
  fs_expander :: string
  fs_label_prefixes :: "string list"
  fs_aliases :: "string list"
  fs_triage_tags :: "string list"
  fs_default_tcp :: bool

definition mk_family :: "string \<Rightarrow> string list \<Rightarrow> string list \<Rightarrow> string list \<Rightarrow> string list \<Rightarrow> bool \<Rightarrow> FamilySpec" where
  "mk_family name protocols pfxs aliases triage default_tcp =
     \<lparr>fs_name = name, fs_protocols = protocols, fs_expander = ''_fam_'' @ name,
      fs_label_prefixes = pfxs, fs_aliases = aliases, fs_triage_tags = triage,
      fs_default_tcp = default_tcp\<rparr>"

definition TRIAGE_TO_FAMILIES :: "(string, string list) dict" where
  "TRIAGE_TO_FAMILIES =
     [(''stall'', [''wssize'']),
      (''silent_drop'', [''fake'', ''hostfake'', ''fakedsplit'', ''multisplit'', ''multi_fake'']),
      (''rst_at_sni'', [''multisplit'', ''fakedsplit'', ''multidisorder'']),
      (''quic_drop'', [''quic_fake'', ''quic_ipfrag'']),
      (''udp_blocked'', [''udp_discord''])]"

definition DEFAULT_FAMILIES :: "string list" where
  "DEFAULT_FAMILIES = [''fake'', ''hostfake'', ''fakedsplit'', ''multisplit'']"

definition triage_of :: "string \<Rightarrow> string list" where
  "triage_of name = map fst (filter (\<lambda>(tag, fams). name \<in> set fams) TRIAGE_TO_FAMILIES)"

definition REGISTRY :: "FamilySpec list" where
  "REGISTRY =
    [mk_family ''fake'' [''tcp''] [''std_fake_'', ''fake_''] [] (triage_of ''fake'') True,
     mk_family ''rst_fake'' [''tcp''] [''std_rst_''] [] [] False,
     mk_family ''synack'' [''tcp''] [''std_synack''] [] [] False,
     mk_family ''geneva_fool'' [''tcp''] [''std_gva_''] [] [] False,
     mk_family ''wssize'' [''tcp''] [''std_wssize''] [] (triage_of ''wssize'') False,
     mk_family ''hostfake'' [''tcp''] [''std_hf_'', ''std_hostfake_'', ''hostfake_''] [] (triage_of ''hostfake'') True,
     mk_family ''multisplit'' [''tcp''] [''std_split_'', ''std_multisplit_'', ''multisplit_''] [] (triage_of ''multisplit'') True,
     mk_family ''multidisorder'' [''tcp''] [''std_mdis_'', ''multidisorder_''] [] (triage_of ''multidisorder'') False,
     mk_family ''syndata'' [''tcp''] [''std_syn_'', ''std_syndata_''] [] [] False,
     mk_family ''tcpseg'' [''tcp''] [''std_tcpseg_''] [] [] False,
     mk_family ''oob'' [''tcp''] [''std_oob_''] [] [] False,
     mk_family ''multi_fake'' [''tcp''] [''std_multi_fake_'', ''std_multi_'', ''fake_multi_''] [] (triage_of ''multi_fake'') False,
     mk_family ''triple_fake'' [''tcp''] [''std_triple_''] [] [] False,
     mk_family ''fake_multisplit'' [''tcp''] [''std_fms_'', ''fake_multisplit_''] [] [] False,
     mk_family ''fake_multidisorder'' [''tcp''] [''std_fmd_'', ''fake_multidisorder_''] [] [] False,
     mk_family ''fake_multisplit_hostfake'' [''tcp''] [''std_fmsh_'', ''fake_multisplit_hostfake_''] [] [] False,
     mk_family ''fake_hostfake'' [''tcp''] [''std_fake_hostfake_'', ''std_fh_'', ''fake_hostfake_''] [] [] False,
     mk_family ''fakedsplit'' [''tcp''] [''std_fds_'', ''fakedsplit_''] [] (triage_of ''fakedsplit'') True,
     mk_family ''fakeddisorder'' [''tcp''] [''std_fdd_'', ''fakeddisorder_''] [] [] False,
     mk_family ''fake_fakedsplit'' [''tcp''] [''std_ffds_'', ''fake_fakedsplit_''] [] [] False,
     mk_family ''tcp_ipfrag'' [''tcp''] [''std_tcp_fake_ipfrag_'', ''std_tcp_ipfrag_''] [''ipfrag_tcp''] [] False,
     mk_family ''http_simple'' [''http''] [] [] [] False,
     mk_family ''http_fake'' [''http''] [] [] [] False,
     mk_family ''http_tls_dual'' [''http''] [] [] [] False,
     mk_family ''udp_discord'' [''udp_voice''] [] [] (triage_of ''udp_discord'') False,
     mk_family ''udp_multiblob'' [''udp_voice''] [] [] [] False,
     mk_family ''quic_fake'' [''quic''] [] [] (triage_of ''quic_fake'') False,
     mk_family ''quic_gv'' [''quic''] [] [] [] False,
     mk_family ''quic_ipfrag'' [''quic''] [] [''ipfrag_udp''] (triage_of ''quic_ipfrag'') False,
     mk_family ''udp_quic'' [''quic''] [] [] [] False,
     mk_family ''udp_game'' [''udp_game''] [] [] [] False]"

definition families_of :: "string \<Rightarrow> string list" where
  "families_of proto = map fs_name (filter (\<lambda>s. proto \<in> set (fs_protocols s)) REGISTRY)"

definition TCP_FAMILIES :: "string list" where "TCP_FAMILIES = families_of ''tcp''"
definition HTTP_FAMILIES :: "string list" where "HTTP_FAMILIES = families_of ''http''"
definition UDP_VOICE_FAMILIES :: "string list" where "UDP_VOICE_FAMILIES = families_of ''udp_voice''"
definition QUIC_HTTP3_FAMILIES :: "string list" where "QUIC_HTTP3_FAMILIES = families_of ''quic''"

definition FAMILY_ALIASES :: "(string, string) dict" where
  "FAMILY_ALIASES = concat (map (\<lambda>s. map (\<lambda>a. (a, fs_name s)) (fs_aliases s)) REGISTRY)"

definition LABEL_PREFIXES :: "(string, string list) dict" where
  "LABEL_PREFIXES =
     map (\<lambda>s. (fs_name s, fs_label_prefixes s)) (filter (\<lambda>s. fs_label_prefixes s \<noteq> []) REGISTRY)"

section \<open>Classification\<close>

fun index_of :: "'a list \<Rightarrow> 'a \<Rightarrow> nat option" where
  "index_of [] x = None"
| "index_of (y # ys) x = (if x = y then Some 0 else map_option Suc (index_of ys x))"

definition family_rank :: "string \<Rightarrow> nat" where
  "family_rank fam = (case index_of TCP_FAMILIES fam of Some n \<Rightarrow> n | None \<Rightarrow> 999)"

definition prefix_table :: "(string \<times> string) list" where
  "prefix_table = concat (map (\<lambda>(fam, ps). map (\<lambda>p. (p, fam)) ps) LABEL_PREFIXES)"

text \<open>\<open>sorted(\<dots>, key=len, reverse=True)\<close> is stable, as \<open>sort_key\<close> on the negated length is.\<close>

definition prefix_hits :: "string \<Rightarrow> (string \<times> string) list" where
  "prefix_hits label =
     sort_key (\<lambda>(p, fam). - int (length p)) (filter (\<lambda>(p, fam). startswith label p) prefix_table)"

definition classify_strategy_family :: "StrategyItem \<Rightarrow> string" where
  "classify_strategy_family it =
     (let label = lower (si_label it); strat = lower (si_strategy it)
      in case prefix_hits label of
           (p, fam) # _ \<Rightarrow> fam
         | [] \<Rightarrow>
             if contains ''hostfakesplit'' strat then ''hostfake''
             else if contains ''multisplit'' strat \<or> contains ''multidisorder'' strat then ''multisplit''
             else if contains ''fakedsplit'' strat \<or> contains ''fakeddisorder'' strat then ''faked''
             else if startswith label ''std_'' then
               (let parts = split_char CHR ''_'' label
                in if 2 \<le> length parts \<and> parts ! 1 \<in> set TCP_FAMILIES then parts ! 1 else ''other'')
             else ''other'')"

definition sort_by_family :: "StrategyItem list \<Rightarrow> StrategyItem list" where
  "sort_by_family items = sort_key (\<lambda>it. (family_rank (classify_strategy_family it), si_label it)) items"

section \<open>Need flags\<close>

record FamilyNeedTracker =
  need_fake :: nat
  need_hostfakesplit :: nat
  need_multisplit :: nat
  need_multidisorder :: nat
  need_fakedsplit :: nat
  need_fakeddisorder :: nat

definition new_tracker :: FamilyNeedTracker where
  "new_tracker = \<lparr>need_fake = 1, need_hostfakesplit = 1, need_multisplit = 1,
     need_multidisorder = 1, need_fakedsplit = 1, need_fakeddisorder = 1\<rparr>"

definition finish_family :: "string \<Rightarrow> bool \<Rightarrow> FamilyNeedTracker \<Rightarrow> FamilyNeedTracker" where
  "finish_family family had_pass t =
     (let v = (if had_pass then 0 else 1)
      in if family = ''fake'' then t\<lparr>need_fake := v\<rparr>
         else if family = ''hostfake'' then t\<lparr>need_hostfakesplit := v\<rparr>
         else if family = ''multisplit'' then t\<lparr>need_multisplit := v, need_multidisorder := v\<rparr>
         else if family \<in> set [''faked'', ''fakedsplit'', ''fakeddisorder'']
              then t\<lparr>need_fakedsplit := v, need_fakeddisorder := v\<rparr>
         else t)"

definition skip_family :: "string \<Rightarrow> string \<Rightarrow> FamilyNeedTracker \<Rightarrow> bool" where
  "skip_family family scan_level t =
     (scan_level \<noteq> ''full'' \<and> family = ''fake_hostfake'' \<and> need_hostfakesplit t = 0)"

definition skip_strategy :: "StrategyItem \<Rightarrow> string \<Rightarrow> FamilyNeedTracker \<Rightarrow> bool" where
  "skip_strategy it scan_level t =
     (scan_level \<noteq> ''full'' \<and>
      (need_multisplit t = 0 \<and> (contains ''multisplit'' (si_strategy it) \<or> contains ''multidisorder'' (si_strategy it))
       \<or> need_fakedsplit t = 0 \<and> contains ''fakedsplit'' (si_strategy it)
       \<or> need_fakeddisorder t = 0 \<and> contains ''fakeddisorder'' (si_strategy it)))"

section \<open>The gated run\<close>

record gate_env =
  ge_scan_level :: string
  ge_test :: "nat \<Rightarrow> StrategyItem \<Rightarrow> TcpTestResult"
  ge_stop :: "nat \<Rightarrow> bool"
  ge_resumed :: "string \<Rightarrow> bool"
  ge_working :: "string list option"

record gate_state =
  gs_tracker :: FamilyNeedTracker
  gs_results :: "TcpTestResult list"
  gs_done :: nat
  gs_skipped :: nat
  gs_passed :: nat
  gs_looks :: nat

definition gate_init :: gate_state where
  "gate_init = \<lparr>gs_tracker = new_tracker, gs_results = [], gs_done = 0, gs_skipped = 0,
     gs_passed = 0, gs_looks = 0\<rparr>"

text \<open>The items of the current family that are neither resumed nor gated, and the resumed labels.\<close>

definition family_items :: "gate_env \<Rightarrow> FamilyNeedTracker \<Rightarrow> StrategyItem list \<Rightarrow> StrategyItem list" where
  "family_items env t fam_items =
     filter (\<lambda>it. \<not> ge_resumed env (si_label it) \<and> \<not> skip_strategy it (ge_scan_level env) t) fam_items"

definition skipped_labels :: "gate_env \<Rightarrow> StrategyItem list \<Rightarrow> string list" where
  "skipped_labels env fam_items = filter (ge_resumed env) (map si_label fam_items)"

text \<open>
  The probes of one family: stops early on the stop flag, and ends the whole run (second
  component) at the first success of a \<open>single\<close> scan.
\<close>

fun test_family :: "gate_env \<Rightarrow> string \<Rightarrow> StrategyItem list \<Rightarrow> bool \<Rightarrow> gate_state \<Rightarrow> gate_state \<times> bool" where
  "test_family env fam [] had_pass s =
     (s\<lparr>gs_tracker := finish_family fam had_pass (gs_tracker s)\<rparr>, False)"
| "test_family env fam (it # its) had_pass s =
     (if ge_stop env (gs_looks s)
      then (s\<lparr>gs_looks := Suc (gs_looks s), gs_tracker := finish_family fam had_pass (gs_tracker s)\<rparr>, False)
      else (let r = ge_test env (length (gs_results s)) it;
                s1 = s\<lparr>gs_looks := Suc (gs_looks s), gs_results := gs_results s @ [r], gs_done := Suc (gs_done s)\<rparr>
            in if tr_success r
               then (let s2 = s1\<lparr>gs_passed := Suc (gs_passed s1)\<rparr>
                     in if ge_scan_level env = ''single''
                        then (s2\<lparr>gs_tracker := finish_family fam True (gs_tracker s2)\<rparr>, True)
                        else test_family env fam its True s2)
               else test_family env fam its had_pass s1))"

definition skip_n :: "nat \<Rightarrow> gate_state \<Rightarrow> gate_state" where
  "skip_n n s = s\<lparr>gs_skipped := gs_skipped s + n, gs_done := gs_done s + n\<rparr>"

definition run_family :: "gate_env \<Rightarrow> string \<Rightarrow> StrategyItem list \<Rightarrow> gate_state \<Rightarrow> gate_state \<times> bool" where
  "run_family env fam fam_items s =
     (if skip_family fam (ge_scan_level env) (gs_tracker s)
      then (let s1 = skip_n (length fam_items) s
            in (s1\<lparr>gs_tracker := finish_family fam False (gs_tracker s1)\<rparr>, False))
      else (let todo = family_items env (gs_tracker s) fam_items;
                s1 = skip_n (length fam_items - length todo) s
            in if todo = []
               then (let had_pass = (case ge_working env of None \<Rightarrow> False
                                     | Some ws \<Rightarrow> list_ex (\<lambda>l. l \<in> set ws) (skipped_labels env fam_items))
                     in (s1\<lparr>gs_tracker := finish_family fam had_pass (gs_tracker s1)\<rparr>, False))
               else test_family env fam todo False s1))"

function gates_loop :: "gate_env \<Rightarrow> StrategyItem list \<Rightarrow> gate_state \<Rightarrow> gate_state" where
  "gates_loop env [] s = s"
| "gates_loop env (it # its) s =
     (if ge_stop env (gs_looks s) then s\<lparr>gs_looks := Suc (gs_looks s)\<rparr>
      else (let fam = classify_strategy_family it;
                same = (\<lambda>x. classify_strategy_family x = fam);
                r = run_family env fam (takeWhile same (it # its)) (s\<lparr>gs_looks := Suc (gs_looks s)\<rparr>)
            in if snd r then fst r else gates_loop env (dropWhile same its) (fst r)))"
  by pat_completeness auto
termination
  by (relation "measure (\<lambda>(env, its, s). length its)") (auto simp: le_imp_less_Suc length_dropWhile_le)

definition run_tcp_with_family_gates :: "gate_env \<Rightarrow> StrategyItem list \<Rightarrow> gate_state" where
  "run_tcp_with_family_gates env items = gates_loop env (sort_by_family items) gate_init"

section \<open>Classification picks the longest prefix\<close>

lemma hd_sort_key_min:
  assumes "sort_key f xs = y # ys"
  shows "y \<in> set xs \<and> (\<forall>x \<in> set xs. f y \<le> f x)"
proof -
  have "sorted (map f (y # ys))" and "set xs = set (y # ys)"
    using assms by (metis sorted_sort_key, metis set_sort)
  then show ?thesis by auto
qed

lemma prefix_hits_Cons:
  assumes "prefix_hits label = (p, fam) # hs"
  shows "(p, fam) \<in> set prefix_table" "startswith label p"
    "(q, g) \<in> set prefix_table \<Longrightarrow> startswith label q \<Longrightarrow> length q \<le> length p"
  using hd_sort_key_min [OF assms [unfolded prefix_hits_def]] by auto

lemma prefix_hits_not_Nil:
  "(p, fam) \<in> set prefix_table \<Longrightarrow> startswith label p \<Longrightarrow> prefix_hits label \<noteq> []"
proof
  assume a: "(p, fam) \<in> set prefix_table" "startswith label p" and "prefix_hits label = []"
  then have "set (prefix_hits label) = {}" by simp
  then show False using a by (auto simp: prefix_hits_def)
qed

section \<open>Shape of the gated run\<close>

text \<open>
  The run is described by what it tested: the results come in the order of the sorted
  items, and the counters count them.
\<close>

definition gate_ok :: "gate_state \<Rightarrow> bool" where
  "gate_ok s = (gs_done s = gs_skipped s + length (gs_results s) \<and>
     gs_passed s = length (filter tr_success (gs_results s)))"

lemma gate_ok_tracker [simp]: "gate_ok (s\<lparr>gs_tracker := t\<rparr>) = gate_ok s"
  by (simp add: gate_ok_def)

lemma gate_ok_looks [simp]: "gate_ok (s\<lparr>gs_looks := n\<rparr>) = gate_ok s"
  by (simp add: gate_ok_def)

lemma gate_ok_skip_n [simp]: "gate_ok (skip_n n s) = gate_ok s"
  by (auto simp: gate_ok_def skip_n_def)

lemma gate_ok_test_family: "gate_ok s \<Longrightarrow> gate_ok (fst (test_family env fam its hp s))"
  by (induction env fam its hp s rule: test_family.induct) (auto simp: Let_def gate_ok_def)

lemma gate_ok_run_family: "gate_ok s \<Longrightarrow> gate_ok (fst (run_family env fam its s))"
  by (simp add: run_family_def Let_def gate_ok_test_family)

lemma gate_ok_gates_loop: "gate_ok s \<Longrightarrow> gate_ok (gates_loop env its s)"
  by (induction env its s rule: gates_loop.induct) (simp_all add: Let_def gate_ok_run_family)

text \<open>What a family adds to the results.\<close>

definition faithful_probe :: "gate_env \<Rightarrow> bool" where
  "faithful_probe env = (\<forall>n it. tr_item (ge_test env n it) = it)"

lemma test_family_results:
  assumes "faithful_probe env"
  shows "\<exists>new. gs_results (fst (test_family env fam its hp s)) = gs_results s @ new \<and>
    prefix (map tr_item new) its"
proof (induction its arbitrary: hp s)
  case Nil
  then show ?case by simp
next
  case (Cons it its)
  define r where "r = ge_test env (length (gs_results s)) it"
  have r: "tr_item r = it" using assms by (simp add: faithful_probe_def r_def)
  define s1 where "s1 = s\<lparr>gs_looks := Suc (gs_looks s), gs_results := gs_results s @ [r],
    gs_done := Suc (gs_done s)\<rparr>"
  have 1: "gs_results s1 = gs_results s @ [r]" by (simp add: s1_def)
  have 2: "\<exists>new. gs_results (fst (test_family env fam its hp' s')) = gs_results s @ new \<and>
      prefix (map tr_item new) (it # its)" if "gs_results s' = gs_results s1" for hp' s'
  proof -
    obtain new where "gs_results (fst (test_family env fam its hp' s')) = gs_results s' @ new"
      and "prefix (map tr_item new) its" using Cons.IH by blast
    then show ?thesis using that 1 r by (intro exI [of _ "r # new"]) simp
  qed
  have 3: "\<exists>new. gs_results s1 = gs_results s @ new \<and> prefix (map tr_item new) (it # its)"
    using 1 r by (intro exI [of _ "[r]"]) simp
  show ?case using 2 3
    by (simp add: Let_def r_def [symmetric] s1_def [symmetric])
qed

lemma subseq_prefix_filter: "prefix ys (filter P xs) \<Longrightarrow> subseq ys xs"
  by (metis prefix_imp_subseq subseq_filter_left subseq_order.order_trans)

lemma run_family_results:
  assumes "faithful_probe env"
  shows "\<exists>new. gs_results (fst (run_family env fam its s)) = gs_results s @ new \<and>
    subseq (map tr_item new) its \<and> (\<forall>r \<in> set new. \<not> ge_resumed env (si_label (tr_item r)))"
proof -
  let ?todo = "family_items env (gs_tracker s) its"
  have "\<exists>new. gs_results (fst (test_family env fam ?todo False (skip_n n s))) = gs_results s @ new \<and>
      subseq (map tr_item new) its \<and> (\<forall>r \<in> set new. \<not> ge_resumed env (si_label (tr_item r)))" for n
  proof -
    obtain new where new: "gs_results (fst (test_family env fam ?todo False (skip_n n s))) = gs_results s @ new"
      and p: "prefix (map tr_item new) ?todo"
      using test_family_results [OF assms, of fam ?todo False "skip_n n s"] by (auto simp: skip_n_def)
    have "set (map tr_item new) \<subseteq> set ?todo" using p by (meson set_mono_prefix)
    then have "\<forall>r \<in> set new. \<not> ge_resumed env (si_label (tr_item r))" by (auto simp: family_items_def)
    then show ?thesis using new p subseq_prefix_filter by (auto simp: family_items_def)
  qed
  then show ?thesis by (auto simp: run_family_def Let_def skip_n_def)
qed

lemma gates_loop_results:
  assumes "faithful_probe env"
  shows "\<exists>new. gs_results (gates_loop env its s) = gs_results s @ new \<and>
    subseq (map tr_item new) its \<and> (\<forall>r \<in> set new. \<not> ge_resumed env (si_label (tr_item r)))"
  using assms
proof (induction env its s rule: gates_loop.induct)
  case (1 env s)
  then show ?case by simp
next
  case (2 env it its s)
  let ?s = "s\<lparr>gs_looks := Suc (gs_looks s)\<rparr>"
  let ?fam = "classify_strategy_family it"
  let ?same = "\<lambda>x. classify_strategy_family x = ?fam"
  let ?r = "run_family env ?fam (takeWhile ?same (it # its)) ?s"
  obtain new where n: "gs_results (fst ?r) = gs_results s @ new"
    "subseq (map tr_item new) (takeWhile ?same (it # its))"
    "\<forall>r \<in> set new. \<not> ge_resumed env (si_label (tr_item r))"
    using run_family_results [OF "2.prems", of ?fam "takeWhile ?same (it # its)" ?s] by auto
  have split: "takeWhile ?same (it # its) @ dropWhile ?same its = it # its" by simp
  show ?case
  proof (cases "ge_stop env (gs_looks s)")
    case True
    then show ?thesis by simp
  next
    case False
    show ?thesis
    proof (cases "snd ?r")
      case True
      have "subseq (map tr_item new) (it # its)"
        using n(2) split by (metis subseq_rev_drop_many)
      then show ?thesis using False True n by (simp add: Let_def)
    next
      case F: False
      obtain new' where n': "gs_results (gates_loop env (dropWhile ?same its) (fst ?r)) = gs_results (fst ?r) @ new'"
        "subseq (map tr_item new') (dropWhile ?same its)"
        "\<forall>r \<in> set new'. \<not> ge_resumed env (si_label (tr_item r))"
        using "2.IH" [OF False refl refl refl F "2.prems"] by blast
      have "subseq (map tr_item (new @ new')) (it # its)"
        using list_emb_append_mono [OF n(2) n'(2)] split by (metis map_append)
      then show ?thesis using False F n n' by (intro exI [of _ "new @ new'"]) (auto simp: Let_def)
    qed
  qed
qed

text \<open>A run that is never stopped and is not a \<open>single\<close> scan accounts for every item.\<close>

definition uninterrupted :: "gate_env \<Rightarrow> bool" where
  "uninterrupted env = ((\<forall>n. \<not> ge_stop env n) \<and> ge_scan_level env \<noteq> ''single'')"

lemma test_family_complete:
  "uninterrupted env \<Longrightarrow>
   gs_done (fst (test_family env fam its hp s)) = gs_done s + length its \<and>
   \<not> snd (test_family env fam its hp s)"
  by (induction env fam its hp s rule: test_family.induct)
    (auto simp: Let_def uninterrupted_def)

lemma family_items_length [simp]:
  "length (family_items env t its) \<le> length its"
  by (simp add: family_items_def)

lemma run_family_complete:
  "uninterrupted env \<Longrightarrow>
   gs_done (fst (run_family env fam its s)) = gs_done s + length its \<and> \<not> snd (run_family env fam its s)"
  by (auto simp: run_family_def Let_def skip_n_def test_family_complete trans_le_add2)

lemma gates_loop_complete:
  "uninterrupted env \<Longrightarrow> gs_done (gates_loop env its s) = gs_done s + length its"
proof (induction env its s rule: gates_loop.induct)
  case (1 env s)
  then show ?case by simp
next
  case (2 env it its s)
  let ?fam = "classify_strategy_family it"
  let ?same = "\<lambda>x. classify_strategy_family x = ?fam"
  have "length (takeWhile ?same its) + length (dropWhile ?same its) = length its"
    by (metis length_append takeWhile_dropWhile_id)
  moreover have "\<not> ge_stop env n" for n using 2(2) by (simp add: uninterrupted_def)
  ultimately show ?case
    using run_family_complete [OF 2(2)] "2.IH" 2(2) by (simp add: Let_def)
qed

text \<open>On the \<open>full\<close> level nothing is gated.\<close>

definition ungated :: "gate_env \<Rightarrow> bool" where
  "ungated env = (ge_scan_level env = ''full'' \<and> (\<forall>n. \<not> ge_stop env n) \<and> (\<forall>l. \<not> ge_resumed env l))"

lemma ungated_uninterrupted: "ungated env \<Longrightarrow> uninterrupted env"
  by (simp add: ungated_def uninterrupted_def)

lemma test_family_skipped: "gs_skipped (fst (test_family env fam its hp s)) = gs_skipped s"
  by (induction env fam its hp s rule: test_family.induct) (auto simp: Let_def)

lemma run_family_ungated:
  "ungated env \<Longrightarrow> gs_skipped (fst (run_family env fam its s)) = gs_skipped s"
  by (simp add: run_family_def Let_def skip_family_def skip_strategy_def family_items_def ungated_def
      skip_n_def test_family_skipped)

lemma gates_loop_ungated: "ungated env \<Longrightarrow> gs_skipped (gates_loop env its s) = gs_skipped s"
  by (induction env its s rule: gates_loop.induct) (simp_all add: Let_def run_family_ungated)

lemma mset_sort_by_family: "mset (sort_by_family items) = mset items"
  by (simp add: sort_by_family_def)

lemma length_sort_by_family [simp]: "length (sort_by_family items) = length items"
  by (simp add: sort_by_family_def)

lemma gate_ok_run: "gate_ok (run_tcp_with_family_gates env items)"
  by (simp add: run_tcp_with_family_gates_def gate_ok_gates_loop gate_init_def gate_ok_def [of gate_init, unfolded gate_init_def])

section \<open>Properties\<close>

definition sample_env :: "string \<Rightarrow> gate_env" where
  "sample_env level = \<lparr>ge_scan_level = level, ge_test = (\<lambda>n it. new_tcp_result it ''a.com''),
     ge_stop = (\<lambda>_. False), ge_resumed = (\<lambda>_. False), ge_working = None\<rparr>"

text \<open>
  Classification follows the longest prefix: when a label starts with a prefix of the
  registry, the family belongs to a prefix of the label that no other registered prefix of
  the label exceeds in length.
\<close>

theorem classify_longest_prefix:
  assumes "(q, g) \<in> set prefix_table" and "startswith (lower (si_label it)) q"
  shows "\<exists>p. (p, classify_strategy_family it) \<in> set prefix_table \<and> startswith (lower (si_label it)) p \<and>
    (\<forall>(q', g') \<in> set prefix_table. startswith (lower (si_label it)) q' \<longrightarrow> length q' \<le> length p)"
proof -
  obtain p fam hs where h: "prefix_hits (lower (si_label it)) = (p, fam) # hs"
    using prefix_hits_not_Nil [OF assms] by (cases "prefix_hits (lower (si_label it))") auto
  then have "classify_strategy_family it = fam" by (simp add: classify_strategy_family_def Let_def)
  then show ?thesis using prefix_hits_Cons [OF h] by auto
qed

theorem classify_longest_prefix_witness:
  "\<exists>p. (p, classify_strategy_family (mk_item ''std_fake_hostfake_1'' [])) \<in> set prefix_table \<and>
    startswith ''std_fake_hostfake_1'' p"
  using classify_longest_prefix [of "''std_fake_''" "''fake''" "mk_item ''std_fake_hostfake_1'' []"]
proof -
  have "(''std_fake_'', ''fake'') \<in> set prefix_table" by code_simp
  moreover have "lower ''std_fake_hostfake_1'' = ''std_fake_hostfake_1''" by code_simp
  moreover have "startswith ''std_fake_hostfake_1'' ''std_fake_''" by code_simp
  ultimately show ?thesis
    using classify_longest_prefix [of "''std_fake_''" "''fake''" "mk_item ''std_fake_hostfake_1'' []"]
    by (auto simp: mk_item_def)
qed

text \<open>
  C16. Accounting of the gated run: however it ends, every finished item was either skipped
  or tested, and \<open>passed\<close> counts the successful results; a run that is neither stopped nor a
  \<open>single\<close> scan finishes all items.
\<close>

theorem gated_run_accounting:
  "gs_done (run_tcp_with_family_gates env items) =
     gs_skipped (run_tcp_with_family_gates env items) + length (gs_results (run_tcp_with_family_gates env items)) \<and>
   gs_passed (run_tcp_with_family_gates env items) =
     length (filter tr_success (gs_results (run_tcp_with_family_gates env items))) \<and>
   (uninterrupted env \<longrightarrow> gs_done (run_tcp_with_family_gates env items) = length items)"
proof -
  have "uninterrupted env \<longrightarrow> gs_done (run_tcp_with_family_gates env items) = length items"
    by (simp add: run_tcp_with_family_gates_def gates_loop_complete gate_init_def)
  then show ?thesis using gate_ok_run [of env items] by (simp add: gate_ok_def)
qed

theorem gated_run_accounting_witness:
  "gs_done (run_tcp_with_family_gates (sample_env ''standard'') [mk_item ''x'' ''y'']) = 1"
  using gated_run_accounting [of "sample_env ''standard''" "[mk_item ''x'' ''y'']"]
  by (simp add: uninterrupted_def sample_env_def)

text \<open>
  The gated run never tests out of family order, never tests an item twice, and never
  tests one that resume already covers: the tested items are a subsequence of the sorted
  list with no resumed label in it.
\<close>

theorem gated_run_order:
  assumes "faithful_probe env"
  shows "subseq (map tr_item (gs_results (run_tcp_with_family_gates env items))) (sort_by_family items) \<and>
    (\<forall>r \<in> set (gs_results (run_tcp_with_family_gates env items)). \<not> ge_resumed env (si_label (tr_item r)))"
  using gates_loop_results [OF assms, of "sort_by_family items" gate_init]
  by (auto simp: run_tcp_with_family_gates_def gate_init_def)

theorem gated_run_order_witness:
  "subseq (map tr_item (gs_results (run_tcp_with_family_gates (sample_env ''full'') [mk_item ''x'' ''y''])))
     (sort_by_family [mk_item ''x'' ''y''])"
  using gated_run_order [of "sample_env ''full''" "[mk_item ''x'' ''y'']"]
  by (simp add: faithful_probe_def sample_env_def new_tcp_result_def)

text \<open>
  On the \<open>full\<close> level, without resume or stop, every strategy is tested exactly once,
  in family order.
\<close>

theorem full_scan_tests_everything:
  assumes "faithful_probe env" and "ungated env"
  shows "map tr_item (gs_results (run_tcp_with_family_gates env items)) = sort_by_family items"
proof -
  let ?run = "run_tcp_with_family_gates env items"
  have "gs_skipped ?run = 0"
    by (simp add: run_tcp_with_family_gates_def gates_loop_ungated assms(2) gate_init_def)
  moreover have "gs_done ?run = length items"
    using ungated_uninterrupted [OF assms(2)]
    by (simp add: run_tcp_with_family_gates_def gates_loop_complete gate_init_def)
  ultimately have "length (map tr_item (gs_results ?run)) = length (sort_by_family items)"
    using gate_ok_run [of env items] by (simp add: gate_ok_def)
  moreover have "subseq (map tr_item (gs_results ?run)) (sort_by_family items)"
    using gates_loop_results [OF assms(1), of "sort_by_family items" gate_init]
    by (auto simp: run_tcp_with_family_gates_def gate_init_def)
  ultimately show ?thesis by (metis subseq_same_length)
qed

theorem full_scan_tests_everything_witness:
  "map tr_item (gs_results (run_tcp_with_family_gates (sample_env ''full'') [mk_item ''x'' ''y''])) =
     sort_by_family [mk_item ''x'' ''y'']"
  using full_scan_tests_everything [of "sample_env ''full''" "[mk_item ''x'' ''y'']"]
  by (simp add: faithful_probe_def ungated_def sample_env_def new_tcp_result_def)

text \<open>
  The need flags of the faked families do not survive a skipped family: once
  \<open>fakedsplit\<close> has passed, all \<open>fakeddisorder\<close> items are skipped without a probe, and
  finishing that skipped family sets both flags back, so that later \<open>fakedsplit\<close>
  combinations are tested again.
\<close>

theorem skipped_family_resets_flags:
  assumes "ge_scan_level env \<noteq> ''full''" and "need_fakeddisorder (gs_tracker s) = 0"
    and "ge_working env = None"
    and "list_all (\<lambda>it. contains ''fakeddisorder'' (si_strategy it)) its"
  shows "gs_results (fst (run_family env ''fakeddisorder'' its s)) = gs_results s \<and>
    need_fakedsplit (gs_tracker (fst (run_family env ''fakeddisorder'' its s))) = 1 \<and>
    need_fakeddisorder (gs_tracker (fst (run_family env ''fakeddisorder'' its s))) = 1"
proof -
  have "family_items env (gs_tracker s) its = []"
    using assms by (auto simp: family_items_def skip_strategy_def filter_empty_conv list_all_iff)
  then show ?thesis using assms(3)
    by (simp add: run_family_def Let_def skip_family_def skip_n_def finish_family_def)
qed

theorem skipped_family_resets_flags_witness:
  "need_fakedsplit (gs_tracker (fst (run_family (sample_env ''standard'') ''fakeddisorder''
     [mk_item ''std_fdd_1'' ''fakeddisorder:pos=2'']
     (gate_init\<lparr>gs_tracker := finish_family ''fakedsplit'' True new_tracker\<rparr>)))) = 1"
proof -
  have "contains ''fakeddisorder'' ''fakeddisorder:pos=2''" by code_simp
  then show ?thesis
    using skipped_family_resets_flags [of "sample_env ''standard''"
      "gate_init\<lparr>gs_tracker := finish_family ''fakedsplit'' True new_tracker\<rparr>"
      "[mk_item ''std_fdd_1'' ''fakeddisorder:pos=2'']"]
    by (simp add: sample_env_def mk_item_def finish_family_def gate_init_def)
qed

end
