(* ===== verification/Triage.thy ===== *)
theory Triage
  imports PyJson Families
begin

text \<open>
  \<^verbatim>\<open>engine/triage.py\<close>: the interference profile that preflight fills, its derived flags, its
  dictionary form and back, and the clustering of per-domain reports.

  \<open>reg\<close> stands for the dynamic members \<open>http_<code>\<close> that \<open>FailPhase._value2member_map_\<close>
  holds at the time of the call: \<open>_fail_phase\<close> looks a value up there and does not create
  the member, unlike the enumeration call itself.
\<close>

section \<open>The profile\<close>

record TriageProfile =
  dns_hijacked :: bool
  dns_sinkhole :: bool
  unbypassable_l3 :: bool
  l3_phase :: FailPhase
  handshake_phase :: FailPhase
  rst_at_sni :: bool
  silent_drop_after_sni :: bool
  stall_phase :: FailPhase
  stall_at_bytes :: "int option"
  bandwidth_throttled :: bool
  read_rate_bps :: rat
  quic_drop :: bool
  udp_blocked :: bool
  voice_ok :: bool
  client_hello_len :: int
  is_tls_fingerprint_blocked :: bool
  requires_postquantum_awareness :: bool
  fingerprint_pass :: "(string, bool) dict"
  domain_phases :: "(string, string) dict"
  domain_reports :: "(string, jdict) dict"
  viable_foolings :: "string list"
  viable_blobs :: "string list"
  split_mode :: string
  server_hops :: "int option"
  dpi_hops :: "int option"
  autottl_delta :: "int option"
  ech_blocked :: "bool option"
  http_blocked :: "bool option"
  dead_foolings :: "string list"
  viable_hosts :: "string list"
  dpi_diag :: jdict

definition new_profile :: TriageProfile where
  "new_profile = \<lparr>dns_hijacked = False, dns_sinkhole = False, unbypassable_l3 = False,
     l3_phase = UNKNOWN, handshake_phase = UNKNOWN, rst_at_sni = False,
     silent_drop_after_sni = False, stall_phase = UNKNOWN, stall_at_bytes = None,
     bandwidth_throttled = False, read_rate_bps = 0, quic_drop = False, udp_blocked = False,
     voice_ok = False, client_hello_len = 0, is_tls_fingerprint_blocked = False,
     requires_postquantum_awareness = False, fingerprint_pass = [], domain_phases = [],
     domain_reports = [], viable_foolings = [], viable_blobs = [], split_mode = [],
     server_hops = None, dpi_hops = None, autottl_delta = None, ech_blocked = None,
     http_blocked = None, dead_foolings = [], viable_hosts = [], dpi_diag = []\<rparr>"

definition fail_phase_of :: "nat list \<Rightarrow> json \<Rightarrow> FailPhase" where
  "fail_phase_of reg v =
     (case v of
        JStr s \<Rightarrow>
          (case find (\<lambda>p. phase_value p = s) (static_phases @ map HTTP_CODE reg) of
             Some p \<Rightarrow> p | None \<Rightarrow> UNKNOWN)
      | _ \<Rightarrow> UNKNOWN)"

definition requires_window_clamp :: "TriageProfile \<Rightarrow> bool" where
  "requires_window_clamp p =
     (stall_phase p \<in> set [DATA_STALL_7K, DATA_STALL_16K, DATA_STALL_42K, DATA_STALL_64K_PLUS,
        DATA_STALL_FIRST_REQ, DATA_STALL_TLS_CERT, ZERO_WINDOW_STALL])"

definition prefer_quic :: "TriageProfile \<Rightarrow> bool" where
  "prefer_quic p = (bandwidth_throttled p \<or> \<not> quic_drop p \<and> \<not> udp_blocked p)"

definition bypassable :: "TriageProfile \<Rightarrow> bool" where
  "bypassable p = (\<not> unbypassable_l3 p \<and> \<not> dns_sinkhole p)"

definition l7_impersonate_sufficient :: "TriageProfile \<Rightarrow> bool" where
  "l7_impersonate_sufficient p = is_tls_fingerprint_blocked p"

definition prefer_contextual_split :: "TriageProfile \<Rightarrow> bool" where
  "prefer_contextual_split p = requires_postquantum_awareness p"

section \<open>Dictionary form\<close>

definition to_dict :: "TriageProfile \<Rightarrow> jdict" where
  "to_dict p =
    [(''dns_hijacked'', JBool (dns_hijacked p)),
     (''dns_sinkhole'', JBool (dns_sinkhole p)),
     (''unbypassable_l3'', JBool (unbypassable_l3 p)),
     (''l3_phase'', JStr (phase_value (l3_phase p))),
     (''handshake_phase'', JStr (phase_value (handshake_phase p))),
     (''rst_at_sni'', JBool (rst_at_sni p)),
     (''silent_drop_after_sni'', JBool (silent_drop_after_sni p)),
     (''stall_phase'', JStr (phase_value (stall_phase p))),
     (''stall_at_bytes'', jopt JInt (stall_at_bytes p)),
     (''bandwidth_throttled'', JBool (bandwidth_throttled p)),
     (''read_rate_bps'', JFloat (round1 (read_rate_bps p))),
     (''quic_drop'', JBool (quic_drop p)),
     (''udp_blocked'', JBool (udp_blocked p)),
     (''voice_ok'', JBool (voice_ok p)),
     (''client_hello_len'', JInt (client_hello_len p)),
     (''is_tls_fingerprint_blocked'', JBool (is_tls_fingerprint_blocked p)),
     (''requires_postquantum_awareness'', JBool (requires_postquantum_awareness p)),
     (''fingerprint_pass'', JDict (map (\<lambda>(k, b). (k, JBool b)) (fingerprint_pass p))),
     (''requires_window_clamp'', JBool (requires_window_clamp p)),
     (''prefer_quic'', JBool (prefer_quic p)),
     (''bypassable'', JBool (bypassable p)),
     (''l7_impersonate_sufficient'', JBool (l7_impersonate_sufficient p)),
     (''prefer_contextual_split'', JBool (prefer_contextual_split p)),
     (''domain_phases'', JDict (map (\<lambda>(k, s). (k, JStr s)) (domain_phases p))),
     (''domain_reports'', JDict (map (\<lambda>(k, r). (k, JDict r)) (domain_reports p))),
     (''viable_foolings'', JList (map JStr (viable_foolings p))),
     (''viable_blobs'', JList (map JStr (viable_blobs p))),
     (''split_mode'', JStr (split_mode p)),
     (''server_hops'', jopt JInt (server_hops p)),
     (''dpi_hops'', jopt JInt (dpi_hops p)),
     (''autottl_delta'', jopt JInt (autottl_delta p)),
     (''ech_blocked'', jopt JBool (ech_blocked p)),
     (''http_blocked'', jopt JBool (http_blocked p)),
     (''dead_foolings'', JList (map JStr (dead_foolings p))),
     (''viable_hosts'', JList (map JStr (viable_hosts p))),
     (''dpi_diag'', JDict (dpi_diag p))]"

definition from_dict :: "nat list \<Rightarrow> jdict \<Rightarrow> TriageProfile result" where
  "from_dict reg d =
    (if d = [] then Inr new_profile else
     bind_result (opt_int (jget d ''stall_at_bytes'')) (\<lambda>v_stall.
     bind_result (to_float (jget d ''read_rate_bps'')) (\<lambda>v_rate.
     bind_result (to_int (jget d ''client_hello_len'')) (\<lambda>v_len.
     bind_result (bind_result (to_dict_of (jget d ''fingerprint_pass'')) (conv_values as_bool)) (\<lambda>v_fp.
     bind_result (bind_result (to_dict_of (jget d ''domain_phases'')) (conv_values as_str)) (\<lambda>v_phases.
     bind_result (bind_result (to_dict_of (jget d ''domain_reports'')) (conv_values as_dict)) (\<lambda>v_reports.
     bind_result (to_strs (jget d ''viable_foolings'')) (\<lambda>v_fool.
     bind_result (to_strs (jget d ''viable_blobs'')) (\<lambda>v_blobs.
     bind_result (to_str (jget d ''split_mode'')) (\<lambda>v_split.
     bind_result (opt_int (jget d ''server_hops'')) (\<lambda>v_server.
     bind_result (opt_int (jget d ''dpi_hops'')) (\<lambda>v_dpi.
     bind_result (opt_int (jget d ''autottl_delta'')) (\<lambda>v_delta.
     bind_result (opt_bool (jget d ''ech_blocked'')) (\<lambda>v_ech.
     bind_result (opt_bool (jget d ''http_blocked'')) (\<lambda>v_http.
     bind_result (to_strs (jget d ''dead_foolings'')) (\<lambda>v_dead.
     bind_result (to_strs (jget d ''viable_hosts'')) (\<lambda>v_hosts.
     bind_result (to_dict_of (jget d ''dpi_diag'')) (\<lambda>v_diag.
     Inr \<lparr>dns_hijacked = truthy (jget d ''dns_hijacked''),
       dns_sinkhole = truthy (jget d ''dns_sinkhole''),
       unbypassable_l3 = truthy (jget d ''unbypassable_l3''),
       l3_phase = fail_phase_of reg (jget d ''l3_phase''),
       handshake_phase = fail_phase_of reg (jget d ''handshake_phase''),
       rst_at_sni = truthy (jget d ''rst_at_sni''),
       silent_drop_after_sni = truthy (jget d ''silent_drop_after_sni''),
       stall_phase = fail_phase_of reg (jget d ''stall_phase''),
       stall_at_bytes = v_stall,
       bandwidth_throttled = truthy (jget d ''bandwidth_throttled''),
       read_rate_bps = v_rate,
       quic_drop = truthy (jget d ''quic_drop''),
       udp_blocked = truthy (jget d ''udp_blocked''),
       voice_ok = truthy (jget d ''voice_ok''),
       client_hello_len = v_len,
       is_tls_fingerprint_blocked = truthy (jget d ''is_tls_fingerprint_blocked''),
       requires_postquantum_awareness = truthy (jget d ''requires_postquantum_awareness''),
       fingerprint_pass = v_fp,
       domain_phases = v_phases,
       domain_reports = v_reports,
       viable_foolings = v_fool,
       viable_blobs = v_blobs,
       split_mode = v_split,
       server_hops = v_server,
       dpi_hops = v_dpi,
       autottl_delta = v_delta,
       ech_blocked = v_ech,
       http_blocked = v_http,
       dead_foolings = v_dead,
       viable_hosts = v_hosts,
       dpi_diag = v_diag\<rparr>))))))))))))))))))"

definition to_context :: "TriageProfile \<Rightarrow> jdict" where
  "to_context p = (let i = (\<lambda>b. JInt (if b then 1 else 0)) in
    [(''dns_hijacked'', i (dns_hijacked p)),
     (''dns_sinkhole'', i (dns_sinkhole p)),
     (''unbypassable_l3'', i (unbypassable_l3 p)),
     (''rst_at_sni'', i (rst_at_sni p)),
     (''silent_drop_after_sni'', i (silent_drop_after_sni p)),
     (''stall'', JStr (phase_value (stall_phase p))),
     (''throttled'', i (bandwidth_throttled p)),
     (''quic_drop'', i (quic_drop p)),
     (''client_hello_len'', JInt (client_hello_len p)),
     (''fp_blocked'', i (is_tls_fingerprint_blocked p)),
     (''pq_aware'', i (requires_postquantum_awareness p)),
     (''split_mode'', JStr (split_mode p)),
     (''n_foolings'', JInt (int (length (viable_foolings p))))])"

section \<open>Clusters of domain reports\<close>

definition CLUSTER_KEYS :: "string list" where
  "CLUSTER_KEYS = [''phase'', ''l3'', ''rst_at_sni'', ''silent_drop'', ''stall'', ''quic_drop'',
     ''ip_blocked'', ''prolog_ok'']"

definition report_fingerprint :: "jdict \<Rightarrow> json list" where
  "report_fingerprint row = map (\<lambda>k. norm_scalar (jget row k)) CLUSTER_KEYS"

definition names_for :: "(string, jdict) dict \<Rightarrow> json list \<Rightarrow> string list" where
  "names_for reports fp = sort (map fst (filter (\<lambda>(d, r). report_fingerprint r = fp) reports))"

text \<open>
  \<open>fps\<close> is the iteration order of the set of fingerprints, which Python does not fix.
\<close>

definition cluster_order :: "(string, jdict) dict \<Rightarrow> json list list \<Rightarrow> json list list" where
  "cluster_order reports fps =
     sort_key (\<lambda>fp. (- int (length (names_for reports fp)), hd (names_for reports fp))) fps"

definition cluster_row :: "(string, jdict) dict \<Rightarrow> json list \<Rightarrow> jdict" where
  "cluster_row reports fp =
     (let names = names_for reports fp;
          sample = (case dict_get reports (hd names) of None \<Rightarrow> [] | Some r \<Rightarrow> r)
      in (''primary_domain'', JStr (join_with '', '' names))
         # map (\<lambda>k. (k, jget sample k)) (filter (\<lambda>k. k \<in> set (dict_keys sample)) CLUSTER_KEYS))"

definition fingerprints :: "(string, jdict) dict \<Rightarrow> json list list" where
  "fingerprints reports = fromkeys (map (\<lambda>(d, r). report_fingerprint r) reports)"

definition cluster_domain_reports_with ::
    "json list list \<Rightarrow> (string, jdict) dict \<Rightarrow> jdict list result" where
  "cluster_domain_reports_with fps reports =
     (if reports = [] then Inr []
      else if list_ex (\<lambda>(d, r). list_ex (\<lambda>k. \<not> hashable (jget r k)) CLUSTER_KEYS) reports then bad_type
      else Inr (map (cluster_row reports) (cluster_order reports fps)))"

definition cluster_domain_reports :: "(string, jdict) dict \<Rightarrow> jdict list result" where
  "cluster_domain_reports reports = cluster_domain_reports_with (fingerprints reports) reports"

definition clustered_primary_domain :: "(string, jdict) dict \<Rightarrow> string \<Rightarrow> string result" where
  "clustered_primary_domain reports fallback =
     bind_result (cluster_domain_reports reports) (\<lambda>cs.
       case cs of [] \<Rightarrow> Inr fallback | c # _ \<Rightarrow> to_str (jget c ''primary_domain''))"

definition disable_ech_from :: "bool \<Rightarrow> bool option \<Rightarrow> bool" where
  "disable_ech_from args_disable_ech triage_ech_blocked = (args_disable_ech \<or> triage_ech_blocked = Some True)"

section \<open>Reading a profile back\<close>

text \<open>A phase as a later process sees it: dynamic members that are not registered are lost.\<close>

definition reread :: "nat list \<Rightarrow> FailPhase \<Rightarrow> FailPhase" where
  "reread reg p = (case p of HTTP_CODE n \<Rightarrow> if n \<in> set reg then p else UNKNOWN | _ \<Rightarrow> p)"

definition reread_profile :: "nat list \<Rightarrow> TriageProfile \<Rightarrow> TriageProfile" where
  "reread_profile reg p = p\<lparr>l3_phase := reread reg (l3_phase p),
     handshake_phase := reread reg (handshake_phase p),
     stall_phase := reread reg (stall_phase p),
     read_rate_bps := round1 (read_rate_bps p)\<rparr>"

lemma find_append: "find P (xs @ ys) = (case find P xs of None \<Rightarrow> find P ys | Some x \<Rightarrow> Some x)"
  by (induction xs) auto

lemma find_http_reg:
  "find (\<lambda>p. phase_value p = ''http_'' @ digits_of_nat n) (map HTTP_CODE reg) =
   (if n \<in> set reg then Some (HTTP_CODE n) else None)"
  by (induction reg) auto

lemma fail_phase_of_phase_value [simp]: "fail_phase_of reg (JStr (phase_value p)) = reread reg p"
proof (cases p)
  case (HTTP_CODE n)
  have "find (\<lambda>p. phase_value p = ''http_'' @ digits_of_nat n) static_phases = None"
    by (simp add: find_static_http digits_not_word del: append_Cons append.append_Cons)
  then show ?thesis using HTTP_CODE find_http_reg [of n reg]
    by (simp add: fail_phase_of_def reread_def find_append del: append_Cons append.append_Cons)
qed (simp_all add: fail_phase_of_def reread_def static_phases_def)

lemma from_dict_to_dict: "from_dict reg (to_dict p) = Inr (reread_profile reg p)"
  by (simp add: from_dict_def to_dict_def jget_def reread_profile_def)

interpretation triage_codec: codec to_dict "from_dict reg" "\<lambda>p. Inr (reread_profile reg p)" "\<lambda>_. True" for reg
  by unfold_locales (rule from_dict_to_dict)

section \<open>Clusters\<close>

lemma sort_key_unique:
  assumes "distinct xs" "distinct ys" "set xs = set ys" "inj_on f (set xs)"
  shows "sort_key f xs = sort_key f ys"
proof -
  have "map f (sort_key f xs) = map f (sort_key f ys)"
  proof (rule sorted_distinct_set_unique)
    show "distinct (map f (sort_key f xs))" "distinct (map f (sort_key f ys))"
      using assms by (simp_all add: distinct_map)
    show "set (map f (sort_key f xs)) = set (map f (sort_key f ys))" using assms by simp
  qed simp_all
  then show ?thesis by (rule map_inj_on) (use assms in simp)
qed

lemma set_names_for: "set (names_for reports fp) = {d. \<exists>r. (d, r) \<in> set reports \<and> report_fingerprint r = fp}"
  by (force simp: names_for_def)

lemma names_for_not_Nil: "fp \<in> set (fingerprints reports) \<Longrightarrow> names_for reports fp \<noteq> []"
  using set_names_for [of reports fp] by (fastforce simp: fingerprints_def)

lemma names_for_disjoint:
  assumes "distinct (dict_keys reports)" "d \<in> set (names_for reports fp)" "d \<in> set (names_for reports fp')"
  shows "fp = fp'"
  using assms by (auto simp: set_names_for dest: eq_key_imp_eq_value)

lemma names_for_distinct: "distinct (dict_keys reports) \<Longrightarrow> distinct (names_for reports fp)"
  by (simp add: names_for_def distinct_map_filter)

lemma cluster_key_inj:
  assumes "distinct (dict_keys reports)"
  shows "inj_on (\<lambda>fp. (- int (length (names_for reports fp)), hd (names_for reports fp))) (set (fingerprints reports))"
proof (rule inj_onI)
  fix x y
  assume "x \<in> set (fingerprints reports)" "y \<in> set (fingerprints reports)"
    and "(- int (length (names_for reports x)), hd (names_for reports x)) =
         (- int (length (names_for reports y)), hd (names_for reports y))"
  then show "x = y"
    using names_for_disjoint [OF assms] by (metis hd_in_set names_for_not_Nil prod.inject)
qed

lemma set_cluster_order [simp]: "set (cluster_order reports fps) = set fps"
  by (simp add: cluster_order_def)

lemma distinct_cluster_order [simp]: "distinct (cluster_order reports fps) = distinct fps"
  by (simp add: cluster_order_def)

lemma distinct_fingerprints [simp]: "distinct (fingerprints reports)"
  by (simp add: fingerprints_def)

lemma set_fingerprints: "set (fingerprints reports) = report_fingerprint ` snd ` set reports"
  by (force simp: fingerprints_def)

lemma cluster_sizes_sorted:
  "sorted (map (\<lambda>fp. - int (length (names_for reports fp))) (cluster_order reports fps))"
proof -
  let ?k = "\<lambda>fp. (- int (length (names_for reports fp)), hd (names_for reports fp))"
  have "sorted (map ?k (cluster_order reports fps))" by (simp add: cluster_order_def)
  then have "sorted (map fst (map ?k (cluster_order reports fps)))"
    by (simp add: sorted_map sorted_wrt_map sorted_wrt_mono_rel less_eq_prod_def del: map_map)
      (erule sorted_wrt_mono_rel [rotated], auto)
  then show ?thesis by (simp add: comp_def)
qed

lemma distinct_concat_names:
  assumes "distinct (dict_keys reports)" "distinct fps"
  shows "distinct (concat (map (names_for reports) fps))"
  using assms(2)
proof (induction fps)
  case Nil
  then show ?case by simp
next
  case (Cons fp fps)
  have "set (names_for reports fp) \<inter> set (names_for reports fp') = {}" if "fp' \<in> set fps" for fp'
    using names_for_disjoint [OF assms(1)] Cons.prems that by (metis disjoint_iff distinct.simps(2))
  then show ?case using Cons names_for_distinct [OF assms(1)] by auto
qed

lemma set_concat_names:
  "set (concat (map (names_for reports) (cluster_order reports (fingerprints reports)))) = set (dict_keys reports)"
  by (force simp: set_names_for set_fingerprints)

section \<open>Properties\<close>

text \<open>
  C21. Writing a profile as a dictionary and reading it back gives the same profile, with the
  read rate rounded to one decimal and every phase as the reading process knows it: a dynamic
  \<open>http_<code>\<close> phase that this process has not created yet comes back as \<open>UNKNOWN\<close>.
\<close>

theorem triage_profile_roundtrip:
  "from_dict reg (to_dict p) = Inr (reread_profile reg p)"
  by (rule triage_codec.decode_encode) simp

text \<open>
  The clusters partition the reported domains: each domain is in exactly one cluster,
  a cluster holds exactly the domains with one fingerprint, and larger clusters come first.
\<close>

theorem clusters_partition:
  assumes "distinct (dict_keys reports)"
  shows "mset (concat (map (names_for reports) (cluster_order reports (fingerprints reports)))) = mset (dict_keys reports) \<and>
    sorted (map (\<lambda>fp. - int (length (names_for reports fp))) (cluster_order reports (fingerprints reports))) \<and>
    (\<forall>(d, r) \<in> set reports. d \<in> set (names_for reports (report_fingerprint r)))"
proof -
  have "mset (concat (map (names_for reports) (cluster_order reports (fingerprints reports)))) = mset (dict_keys reports)"
  proof (rule set_eq_iff_mset_eq_distinct [THEN iffD1])
    show "distinct (concat (map (names_for reports) (cluster_order reports (fingerprints reports))))"
      by (rule distinct_concat_names [OF assms]) simp
  qed (simp_all only: assms set_concat_names)
  moreover have "\<forall>(d, r) \<in> set reports. d \<in> set (names_for reports (report_fingerprint r))"
    by (auto simp: set_names_for)
  ultimately show ?thesis using cluster_sizes_sorted by blast
qed

definition sample_reports :: "(string, jdict) dict" where
  "sample_reports = [(''b.com'', [(''phase'', JStr ''x'')]), (''c.com'', []), (''a.com'', [(''phase'', JStr ''x'')])]"

theorem clusters_partition_witness:
  "mset (concat (map (names_for sample_reports) (cluster_order sample_reports (fingerprints sample_reports)))) =
     mset [''b.com'', ''c.com'', ''a.com'']"
  using clusters_partition [of sample_reports] by (simp add: sample_reports_def)

text \<open>
  The clustering does not depend on the iteration order of the set of fingerprints:
  any enumeration of that set gives the same rows in the same order.
\<close>

theorem clusters_deterministic:
  assumes "distinct (dict_keys reports)" and "distinct fps" and "set fps = set (fingerprints reports)"
  shows "cluster_domain_reports_with fps reports = cluster_domain_reports reports"
proof -
  have "cluster_order reports fps = cluster_order reports (fingerprints reports)"
    unfolding cluster_order_def
    by (rule sort_key_unique) (use assms cluster_key_inj in simp_all)
  then show ?thesis by (simp add: cluster_domain_reports_with_def cluster_domain_reports_def)
qed

theorem clusters_deterministic_witness:
  "cluster_domain_reports_with (rev (fingerprints sample_reports)) sample_reports = cluster_domain_reports sample_reports"
  using clusters_deterministic [of sample_reports "rev (fingerprints sample_reports)"]
  by (simp add: sample_reports_def)

end
