(* ===== verification/TriagePrune.thy ===== *)
theory TriagePrune
  imports Triage
begin

text \<open>
  \<^verbatim>\<open>engine/family_registry.py\<close> (the families a profile asks for, and pruning of the strategy
  matrix), \<^verbatim>\<open>engine/blob_filter.py\<close> (pruning of blob aliases, selection of custom Lua) and the
  predicate \<open>_static_numeric_split\<close> of \<^verbatim>\<open>generators/families/_helpers.py\<close>. The Lua manifest is a
  file read at run time and an argument here.
\<close>

section \<open>Families for a profile\<close>

definition triage_tags :: "TriageProfile \<Rightarrow> string list" where
  "triage_tags p = map fst (filter snd
     [(''stall'', requires_window_clamp p),
      (''silent_drop'', silent_drop_after_sni p),
      (''rst_at_sni'', rst_at_sni p \<or> handshake_phase p = TLS_RST_AT_SNI),
      (''quic_drop'', quic_drop p),
      (''udp_blocked'', udp_blocked p)])"

definition families_for_profile :: "TriageProfile option \<Rightarrow> string list" where
  "families_for_profile profile =
     (case profile of
        None \<Rightarrow> DEFAULT_FAMILIES
      | Some p \<Rightarrow>
          (let families = concat (map (\<lambda>tag. dict_getd TRIAGE_TO_FAMILIES tag []) (triage_tags p));
               out = fromkeys families
           in if out = [] then DEFAULT_FAMILIES else out))"

section \<open>Foolings, TTLs and split positions\<close>

definition fooling_key :: "string \<Rightarrow> string" where
  "fooling_key tok = before_char CHR '':'' (before_char CHR ''='' tok)"

definition FOOLING_EQUIV :: "(string, string list) dict" where
  "FOOLING_EQUIV = [(''tcp_seq'', [''tcp_seq'', ''badsid'']), (''badsid'', [''tcp_seq'', ''badsid''])]"

definition dead_fooling_tokens :: "TriageProfile option \<Rightarrow> string list" where
  "dead_fooling_tokens profile =
     (case profile of
        None \<Rightarrow> []
      | Some p \<Rightarrow> fromkeys (concat (map
          (\<lambda>fool. dict_getd FOOLING_EQUIV (fooling_key fool) [fooling_key fool]) (dead_foolings p))))"

definition FOOL_TOKEN_RE :: re where
  "FOOL_TOKEN_RE = RSeq
     (RGroup 1 (ranyof [''badsum'', ''tcp_md5'', ''badsid'', ''tcp_ts'', ''tcp_seq'', ''tcp_ack'', ''send'']))
     (ralts [rlit ''='', rlit '':'', REnd])"

definition IP_TTL_RE :: re where
  "IP_TTL_RE = RSeq (rlit ''ip_ttl='') (RGroup 1 (rplus is_decimal))"

definition strategy_fooling_keys :: "string \<Rightarrow> string list" where
  "strategy_fooling_keys strategy = re_findall FOOL_TOKEN_RE strategy"

definition shares :: "string list \<Rightarrow> string list \<Rightarrow> bool" where
  "shares xs ys = list_ex (\<lambda>x. x \<in> set ys) xs"

definition filter_fooling_values :: "string list \<Rightarrow> TriageProfile option \<Rightarrow> string list" where
  "filter_fooling_values fools profile =
     (let dead = dead_fooling_tokens profile
      in filter (\<lambda>f. \<not> (dead \<noteq> [] \<and> shares (strategy_fooling_keys ('':'' @ f)) dead)) fools)"

definition ttl_ok :: "string \<Rightarrow> int option \<Rightarrow> int option \<Rightarrow> bool" where
  "ttl_ok strategy dpi server =
     (if dpi = None \<and> server = None then True
      else (case re_search IP_TTL_RE strategy of
              None \<Rightarrow> True
            | Some m \<Rightarrow>
                (let ttl = int (nat_of_digits (group 1 m))
                 in (case dpi of Some h \<Rightarrow> \<not> ttl < h | None \<Rightarrow> True) \<and>
                    (case server of Some h \<Rightarrow> \<not> h \<le> ttl | None \<Rightarrow> True))))"

datatype ttl_value = TtlInt int | TtlStr string

definition ttl_axis_ok :: "ttl_value \<Rightarrow> int option \<Rightarrow> int option \<Rightarrow> bool" where
  "ttl_axis_ok v dpi server =
     (case v of
        TtlInt n \<Rightarrow> ttl_ok (''ip_ttl='' @ str_int n) dpi server
      | TtlStr s \<Rightarrow>
          (let body = lstrip_by (\<lambda>c. c = CHR ''-'') s
           in if body = [] \<or> \<not> list_all is_digit body then True
              else (case int_of_str s of
                      None \<Rightarrow> True
                    | Some n \<Rightarrow> ttl_ok (''ip_ttl='' @ str_int n) dpi server)))"

definition filter_ttl_values :: "ttl_value list \<Rightarrow> TriageProfile option \<Rightarrow> string \<Rightarrow> ttl_value list" where
  "filter_ttl_values ttls profile scan_level =
     (case profile of
        None \<Rightarrow> ttls
      | Some p \<Rightarrow>
          if scan_level = ''full'' \<or> dpi_hops p = None \<and> server_hops p = None then ttls
          else filter (\<lambda>t. ttl_axis_ok t (dpi_hops p) (server_hops p)) ttls)"

definition pos_ok :: "string \<Rightarrow> string \<Rightarrow> bool" where
  "pos_ok pos mode =
     (if mode = ''first_byte'' then \<not> contains ''sniext'' pos
      else if mode = ''sni_marker'' then pos \<noteq> ''1'' \<and> \<not> startswith pos ''1,''
      else True)"

definition filter_split_positions :: "string list \<Rightarrow> TriageProfile option \<Rightarrow> string \<Rightarrow> string list" where
  "filter_split_positions positions profile scan_level =
     (case profile of
        None \<Rightarrow> positions
      | Some p \<Rightarrow>
          if scan_level = ''full'' \<or> split_mode p = [] then positions
          else filter (\<lambda>pos. pos_ok pos (split_mode p)) positions)"

definition static_numeric_split :: "string \<Rightarrow> bool" where
  "static_numeric_split strategy =
     (let pos_values = re_findall (RSeq (rlit ''pos='') (RGroup 1 (rplus (\<lambda>c. c \<noteq> CHR '':'')))) strategy
      in pos_values \<noteq> [] \<and> list_all (\<lambda>v. \<not> re_found (RCls is_ascii_letter) v) pos_values)"

section \<open>Blob classes\<close>

definition BLOB_ALIAS_MAP :: "(string, string) dict" where
  "BLOB_ALIAS_MAP =
    [(''google'', ''tls_clienthello_www_google_com.bin''),
     (''tls_clienthello'', ''tls_clienthello_www_google_com.bin''),
     (''max_ru'', ''tls_clienthello_max_ru.bin''),
     (''stun'', ''stun.bin''),
     (''stun2'', ''stun2.bin''),
     (''4pda'', ''tls_clienthello_4pda_to.bin''),
     (''p4da'', ''tls_clienthello_4pda_to.bin''),
     (''discord_udp'', ''discord_udp.bin''),
     (''discord_ipdisc'', ''discord_ipdisc.bin''),
     (''quic_google'', ''quic_initial_www_google_com.bin''),
     (''quic_dbank'', ''quic_initial_dbankcloud_ru.bin''),
     (''quic_initial'', ''quic_initial.bin''),
     (''quic_4pda'', ''quic_4pda.bin''),
     (''quic_tencent'', ''quic_tencent.bin''),
     (''quic_steam'', ''quic_steam.bin''),
     (''quic_5ka'', ''quic_5ka.bin''),
     (''quic_rutube'', ''quic_rutube.bin''),
     (''tls_5ka'', ''tls_5ka.bin''),
     (''quic_funpay'', ''quic_funpay.bin''),
     (''quic_cloudflare'', ''quic_cloudflare.bin''),
     (''quic_alfabank'', ''quic_alfabank.bin''),
     (''tls_funpay'', ''tls_funpay.bin''),
     (''tls_rzd'', ''tls_rzd.bin''),
     (''quic_gv_kyber'', ''quic_gv_kyber_1.bin''),
     (''quic_gv_kyber_1'', ''quic_gv_kyber_1.bin''),
     (''quic_gv_kyber_2'', ''quic_gv_kyber_2.bin''),
     (''quic_gv_rr2'', ''quic_gv_rr2.bin''),
     (''tls_vk'', ''tls_clienthello_vk_com.bin''),
     (''quic_vk'', ''quic_initial_vk_com.bin''),
     (''game_udp'', ''game_udp.bin''),
     (''wireguard_init'', ''wireguard_init.bin''),
     (''http_iana'', ''http_iana.bin'')]"

definition BLOB_CLASS_MAP :: "(string, string) dict" where
  "BLOB_CLASS_MAP =
    [(''stun'', ''stun''), (''stun2'', ''stun''),
     (''google'', ''tls_clienthello''), (''tls_clienthello'', ''tls_clienthello''),
     (''max_ru'', ''tls_clienthello''), (''4pda'', ''tls_clienthello''),
     (''tls_vk'', ''tls_clienthello''), (''tls_5ka'', ''tls_clienthello''),
     (''tls_funpay'', ''tls_clienthello''), (''tls_rzd'', ''tls_clienthello''),
     (''discord_udp'', ''discord_udp''), (''discord_ipdisc'', ''discord_udp''),
     (''game_udp'', ''game_udp''),
     (''quic_google'', ''quic''), (''quic_initial'', ''quic''), (''quic_dbank'', ''quic''),
     (''quic_4pda'', ''quic''), (''quic_vk'', ''quic''), (''quic_tencent'', ''quic''),
     (''quic_steam'', ''quic''), (''quic_5ka'', ''quic''), (''quic_rutube'', ''quic''),
     (''quic_funpay'', ''quic''), (''quic_cloudflare'', ''quic''), (''quic_alfabank'', ''quic''),
     (''quic_gv_kyber'', ''quic''), (''quic_gv_kyber_1'', ''quic''),
     (''quic_gv_kyber_2'', ''quic''), (''quic_gv_rr2'', ''quic'')]"

definition blob_class :: "string \<Rightarrow> string" where
  "blob_class alias =
     (case dict_get BLOB_CLASS_MAP alias of
        Some c \<Rightarrow> c
      | None \<Rightarrow> if startswith alias ''quic_'' then ''quic''
                else if startswith alias ''tls_'' then ''tls_clienthello''
                else ''other'')"

definition aliases_for_class :: "string \<Rightarrow> string list" where
  "aliases_for_class cls = map fst (filter (\<lambda>(a, c). c = cls \<or> a = cls) BLOB_CLASS_MAP)"

definition filter_blob_aliases :: "string list option \<Rightarrow> TriageProfile option \<Rightarrow> string \<Rightarrow> string list" where
  "filter_blob_aliases aliases profile protocol =
     (let pool = (case aliases of Some xs \<Rightarrow> xs | None \<Rightarrow> dict_keys BLOB_ALIAS_MAP)
      in case profile of
           None \<Rightarrow> pool
         | Some p \<Rightarrow>
             if viable_blobs p = [] then pool
             else filter (\<lambda>a. a \<in> set (viable_blobs p) \<or> blob_class a \<in> set (viable_blobs p) \<or>
                    protocol \<in> set [''udp_voice'', ''udp_game'', ''quic''] \<and>
                    blob_class a \<in> set [''discord_udp'', ''game_udp'', ''quic'']) pool)"

section \<open>Custom Lua\<close>

record lua_meta =
  lm_file :: string
  lm_requires_triage :: "string list option"

definition lua_matches :: "lua_meta \<Rightarrow> string list \<Rightarrow> bool" where
  "lua_matches meta tags =
     (let required = (case lm_requires_triage meta of None \<Rightarrow> [] | Some ts \<Rightarrow> ts)
      in required = [] \<or> shares tags required)"

definition lua_entries_for_triage :: "(string, lua_meta) dict \<Rightarrow> TriageProfile option \<Rightarrow> (string, lua_meta) dict" where
  "lua_entries_for_triage manifest profile =
     (let tags = (case profile of None \<Rightarrow> [] | Some p \<Rightarrow> triage_tags p)
      in filter (\<lambda>(name, meta). lua_matches meta tags) manifest)"

definition lua_files_for_triage :: "(string, lua_meta) dict \<Rightarrow> TriageProfile option \<Rightarrow> string list" where
  "lua_files_for_triage manifest profile =
     fromkeys (map (\<lambda>(name, meta). lm_file meta) (lua_entries_for_triage manifest profile))"

section \<open>Pruning the matrix\<close>

definition blob_ok :: "string \<Rightarrow> TriageProfile \<Rightarrow> string \<Rightarrow> bool" where
  "blob_ok strategy p protocol =
     (let aliases = re_findall (RSeq (rlit ''blob='') (RGroup 1 (rplus is_ident))) strategy
      in if aliases = [] \<or> viable_blobs p = [] then True
         else filter_blob_aliases (Some aliases) (Some p) protocol \<noteq> [])"

definition pos1_re :: re where
  "pos1_re = RSeq (rlit ''pos=1'') (RAlt (rlit '','') REnd)"

definition item_survives ::
    "StrategyItem \<Rightarrow> TriageProfile \<Rightarrow> string list \<Rightarrow> int option \<Rightarrow> int option \<Rightarrow> bool \<Rightarrow> string \<Rightarrow> bool" where
  "item_survives it p dead dpi server contextual mode =
     (let strat = si_strategy it;
          keys = strategy_fooling_keys strat;
          proto = (if si_protocol it = [] then ''tcp'' else si_protocol it)
      in if dead \<noteq> [] \<and> shares keys dead then False
         else if \<not> ttl_ok strat dpi server then False
         else if \<not> blob_ok strat p proto then False
         else if contextual \<and> static_numeric_split strat then False
         else if mode = ''first_byte'' \<and> contains ''sniext'' strat then False
         else \<not> (mode = ''sni_marker'' \<and> re_found pos1_re strat))"

definition prune_items_by_triage :: "StrategyItem list \<Rightarrow> TriageProfile option \<Rightarrow> string \<Rightarrow> StrategyItem list" where
  "prune_items_by_triage items profile scan_level =
     (case profile of
        None \<Rightarrow> items
      | Some p \<Rightarrow>
          if \<not> bypassable p then []
          else (let dead = dead_fooling_tokens profile;
                    full = (scan_level = ''full'');
                    dpi = (if full then None else dpi_hops p);
                    server = (if full then None else server_hops p);
                    contextual = prefer_contextual_split p;
                    mode = (if full then [] else split_mode p)
                in filter (\<lambda>it. item_survives it p dead dpi server contextual mode) items))"

section \<open>The TTL clause of a strategy\<close>

lemma star_ends_longest:
  "list_all p w \<Longrightarrow> a = [] \<or> \<not> p (hd a) \<Longrightarrow>
   \<exists>es. star_ends p b (w @ a) = (rev w @ b, a) # es"
proof (induction w arbitrary: b)
  case Nil
  then show ?case by (cases a) auto
next
  case (Cons x w)
  then obtain es where "star_ends p (x # b) (w @ a) = (rev w @ x # b, a) # es" by auto
  then show ?case using Cons.prems by simp
qed

lemma run_lit_plus:
  assumes "ds \<noteq> []" "list_all p ds" "post = [] \<or> \<not> p (hd post)"
  shows "\<exists>e es. re_run (RSeq (rlit lit) (RGroup 1 (rplus p))) (b, lit @ ds @ post) = ([(1, ds)], e) # es"
proof -
  obtain d ds' where ds: "ds = d # ds'" using assms(1) by (cases ds) auto
  obtain es where "star_ends p (d # rev lit @ b) (ds' @ post) = (rev ds' @ d # rev lit @ b, post) # es"
    using star_ends_longest [of p ds' post "d # rev lit @ b"] assms ds by auto
  then show ?thesis using assms ds by (simp add: re_run_rlit rplus_def)
qed

lemma run_lit_Nil:
  "\<not> prefix lit a \<Longrightarrow> re_run (RSeq (rlit lit) r) (b, a) = []"
  by (simp add: re_run_rlit)

lemma prefix_overlap:
  assumes "prefix lit (u @ lit @ rest)" "u \<noteq> []"
  shows "contains lit (u @ butlast lit)"
proof (cases "lit = []")
  case True
  then show ?thesis by (simp add: contains_iff)
next
  case False
  have "prefix (u @ butlast lit) (u @ lit @ rest)"
    by (metis False append_assoc append_butlast_last_id prefixI same_prefix_prefix)
  moreover have "length lit \<le> length (u @ butlast lit)" using assms(2) by (cases u) auto
  ultimately have "prefix lit (u @ butlast lit)" using assms(1) prefix_length_prefix by blast
  then show ?thesis by (simp add: contains_iff prefix_imp_sublist)
qed

lemma search_lit_plus:
  fixes p lit
  defines "r \<equiv> RSeq (rlit lit) (RGroup 1 (rplus p))"
  assumes "ds \<noteq> []" "list_all p ds" "post = [] \<or> \<not> p (hd post)"
    and "\<not> contains lit (pre @ butlast lit)"
  shows "\<exists>e. re_search_from r b (pre @ lit @ ds @ post) = Some ([(1, ds)], e)"
  using assms(5)
proof (induction pre arbitrary: b)
  case Nil
  obtain e es where "re_run r (b, lit @ ds @ post) = ([(1, ds)], e) # es"
    using run_lit_plus [OF assms(2-4)] unfolding r_def by blast
  then show ?case by (cases "lit @ ds @ post") auto
next
  case (Cons x pre)
  have "\<not> prefix lit ((x # pre) @ lit @ ds @ post)" using prefix_overlap Cons.prems by blast
  then have "re_run r (b, (x # pre) @ lit @ ds @ post) = []"
    unfolding r_def by (rule run_lit_Nil)
  moreover have "\<not> contains lit (pre @ butlast lit)" using Cons.prems by simp
  ultimately show ?case using Cons.IH [of "x # b"] by simp
qed

lemma ttl_ok_clause:
  assumes "\<not> contains ''ip_ttl='' (pre @ ''ip_ttl'')" "post = [] \<or> \<not> is_decimal (hd post)"
  shows "ttl_ok (pre @ ''ip_ttl='' @ digits_of_nat n @ post) dpi server \<longleftrightarrow>
    (\<forall>h. dpi = Some h \<longrightarrow> h \<le> int n) \<and> (\<forall>h. server = Some h \<longrightarrow> int n < h)"
proof -
  have "list_all is_decimal (digits_of_nat n)" by (simp add: list_all_iff digits_of_nat_decimal)
  then obtain e where "re_search_from IP_TTL_RE [] (pre @ ''ip_ttl='' @ digits_of_nat n @ post)
      = Some ([(1, digits_of_nat n)], e)"
    using search_lit_plus [of "digits_of_nat n" is_decimal post "''ip_ttl=''" pre "[]"] assms
    by (auto simp: IP_TTL_RE_def)
  then have "re_search IP_TTL_RE (pre @ ''ip_ttl='' @ digits_of_nat n @ post) = Some [(1, digits_of_nat n)]"
    by (simp add: re_search_def)
  then show ?thesis unfolding ttl_ok_def by (auto simp: group_def Let_def split: option.splits)
qed

section \<open>Properties\<close>

text \<open>
  The families recommended for a profile are never empty, never repeated and always
  names of the registry; a profile without an active tag gets the default families.
\<close>

theorem families_for_profile_registered:
  "families_for_profile profile \<noteq> [] \<and> distinct (families_for_profile profile) \<and>
   set (families_for_profile profile) \<subseteq> set (map fs_name REGISTRY) \<and>
   (profile = None \<or> triage_tags (the profile) = [] \<longrightarrow> families_for_profile profile = DEFAULT_FAMILIES)"
proof -
  have d: "DEFAULT_FAMILIES \<noteq> [] \<and> distinct DEFAULT_FAMILIES \<and> list_all (\<lambda>f. f \<in> set (map fs_name REGISTRY)) DEFAULT_FAMILIES"
    by code_simp
  have "list_all (\<lambda>(t, fams). list_all (\<lambda>f. f \<in> set (map fs_name REGISTRY)) fams) TRIAGE_TO_FAMILIES"
    by code_simp
  then have t: "set (dict_getd TRIAGE_TO_FAMILIES tag []) \<subseteq> set (map fs_name REGISTRY)" for tag
    by (cases "map_of TRIAGE_TO_FAMILIES tag")
      (auto simp del: set_map simp: dict_getd_def list_all_iff dest!: map_of_SomeD)
  show ?thesis
  proof (cases profile)
    case None
    then show ?thesis using d by (auto simp: families_for_profile_def list_all_iff)
  next
    case (Some p)
    let ?fs = "concat (map (\<lambda>tag. dict_getd TRIAGE_TO_FAMILIES tag []) (triage_tags p))"
    have "set ?fs \<subseteq> set (map fs_name REGISTRY)" using t by auto
    then show ?thesis using d Some
      by (auto simp: families_for_profile_def list_all_iff Let_def)
  qed
qed

theorem families_for_profile_registered_witness:
  "families_for_profile (Some new_profile) = DEFAULT_FAMILIES"
  using families_for_profile_registered [of "Some new_profile"]
  by (simp add: triage_tags_def requires_window_clamp_def new_profile_def)

text \<open>
  C22. Below the \<open>full\<close> level no strategy survives pruning whose time-to-live cannot work:
  if its first \<open>ip_ttl\<close> clause is \<open>n\<close>, then \<open>n\<close> reaches the DPI box and does not reach the
  server, as far as the profile knows their distance.
\<close>

theorem pruned_ttl_between_hops:
  assumes "it \<in> set (prune_items_by_triage items (Some p) scan_level)" and "scan_level \<noteq> ''full''"
    and "si_strategy it = pre @ ''ip_ttl='' @ digits_of_nat n @ post"
    and "\<not> contains ''ip_ttl='' (pre @ ''ip_ttl'')" and "post = [] \<or> \<not> is_decimal (hd post)"
  shows "(\<forall>h. dpi_hops p = Some h \<longrightarrow> h \<le> int n) \<and> (\<forall>h. server_hops p = Some h \<longrightarrow> int n < h)"
proof -
  have "ttl_ok (si_strategy it) (dpi_hops p) (server_hops p)"
    using assms(1,2) by (auto simp: prune_items_by_triage_def item_survives_def Let_def split: if_splits)
  then show ?thesis unfolding assms(3) using ttl_ok_clause [OF assms(4,5)] by blast
qed

theorem pruned_ttl_between_hops_witness:
  "mk_item ''x'' ''fake:ip_ttl=4'' \<in> set (prune_items_by_triage [mk_item ''x'' ''fake:ip_ttl=4'']
     (Some (new_profile\<lparr>dpi_hops := Some 3, server_hops := Some 9\<rparr>)) ''fast'') \<and> (3::int) \<le> int 4 \<and> int 4 < (9::int)"
proof -
  let ?p = "new_profile\<lparr>dpi_hops := Some 3, server_hops := Some 9\<rparr>"
  let ?it = "mk_item ''x'' ''fake:ip_ttl=4''"
  have "prune_items_by_triage [?it] (Some ?p) ''fast'' = [?it]" by code_simp
  then have 1: "?it \<in> set (prune_items_by_triage [?it] (Some ?p) ''fast'')" by simp
  have 2: "digits_of_nat 4 = ''4''" by code_simp
  have 3: "\<not> contains ''ip_ttl='' (''fake:'' @ ''ip_ttl'')" by code_simp
  have "si_strategy ?it = ''fake:'' @ ''ip_ttl='' @ digits_of_nat 4 @ []" using 2 by (simp add: mk_item_def)
  from pruned_ttl_between_hops [OF 1 _ this 3] 1 show ?thesis by simp
qed

text \<open>
  Pruning only removes: what is left is in the original order, and no strategy left uses
  a fooling the viability grid found dead, at any scan level.
\<close>

theorem pruned_foolings_alive:
  "subseq (prune_items_by_triage items profile scan_level) items \<and>
   (\<forall>it \<in> set (prune_items_by_triage items profile scan_level).
      set (strategy_fooling_keys (si_strategy it)) \<inter> set (dead_fooling_tokens profile) = {})"
proof -
  have "set (strategy_fooling_keys (si_strategy it)) \<inter> set (dead_fooling_tokens profile) = {}"
    if it: "it \<in> set (prune_items_by_triage items profile scan_level)" for it
  proof (cases profile)
    case None
    then show ?thesis by (simp add: dead_fooling_tokens_def)
  next
    case (Some p)
    then obtain dpi server ctx mode where
      "item_survives it p (dead_fooling_tokens profile) dpi server ctx mode"
      using it by (simp add: prune_items_by_triage_def Let_def split: if_splits) blast+
    then have "dead_fooling_tokens profile = [] \<or> \<not> shares (strategy_fooling_keys (si_strategy it)) (dead_fooling_tokens profile)"
      unfolding item_survives_def Let_def by (metis (no_types))
    then show ?thesis by (auto simp: shares_def list_ex_iff)
  qed
  moreover have "subseq (prune_items_by_triage items profile scan_level) items"
    by (simp add: prune_items_by_triage_def Let_def subseq_filter_left split: option.splits)
  ultimately show ?thesis by blast
qed

theorem pruned_foolings_alive_witness:
  "set (strategy_fooling_keys ''fake:badsum:repeats=2'') \<inter>
   set (dead_fooling_tokens (Some (new_profile\<lparr>dead_foolings := [''tcp_seq=1000'']\<rparr>))) = {}"
proof -
  let ?p = "new_profile\<lparr>dead_foolings := [''tcp_seq=1000'']\<rparr>"
  let ?it = "mk_item ''x'' ''fake:badsum:repeats=2''"
  have "prune_items_by_triage [?it] (Some ?p) ''fast'' = [?it]" by code_simp
  then show ?thesis
    using pruned_foolings_alive [of "[?it]" "Some ?p" "''fast''"] by (simp add: mk_item_def)
qed

text \<open>
  The alias \<open>p4da\<close> names the same TLS hello file as \<open>4pda\<close> and yet has no class: a profile
  that finds TLS hellos viable keeps strategies with the one spelling and drops the other.
\<close>

theorem p4da_not_classified:
  "dict_get BLOB_ALIAS_MAP ''p4da'' = dict_get BLOB_ALIAS_MAP ''4pda'' \<and>
   filter_blob_aliases (Some [''4pda'', ''p4da'']) (Some (new_profile\<lparr>viable_blobs := [''tls_clienthello'']\<rparr>)) ''tls12''
     = [''4pda'']"
  by code_simp

end
