(* ===== verification/AdaptiveWeights.thy ===== *)
theory AdaptiveWeights
  imports TriagePrune
begin

text \<open>
  The first half of \<^verbatim>\<open>engine/adaptive_queue.py\<close>: domain clusters, the traits of a strategy
  string, the run metrics and the weight table (\<open>ScanWeights\<close>) with its seeding, boosts and
  persisted rows. \<open>lru_cache\<close> only stores results and is left out; the reading of the
  monotonic clock is an argument.
\<close>

section \<open>Domain clusters\<close>

definition cluster_domain :: "string \<Rightarrow> string" where
  "cluster_domain d0 =
     (let d = strip_by (\<lambda>c. c = CHR ''.'') (before_char CHR ''/'' (lower d0))
      in if re_found (ranyof [''discord'', ''discordapp'', ''discord.gg'', ''discord.media'']) d then ''discord''
         else if re_found (ranyof [''youtube'', ''googlevideo'', ''ytimg'', ''youtu.be'']) d then ''youtube''
         else if re_found (ranyof [''google'', ''gstatic'', ''googleapis'', ''ggpht'', ''googleusercontent'']) d then ''google''
         else ''general'')"

definition index_add :: "(string, string list) dict \<Rightarrow> string \<Rightarrow> (string, string list) dict" where
  "index_add idx d = dict_set (cluster_domain d) (dict_getd idx (cluster_domain d) [] @ [d]) idx"

definition cluster_domain_index :: "string list \<Rightarrow> (string, string list) dict" where
  "cluster_domain_index ds = foldl index_add [] ds"

definition sibling_domains :: "string \<Rightarrow> string list \<Rightarrow> (string, string list) dict option \<Rightarrow> string list" where
  "sibling_domains d all_domains cluster_index =
     (case cluster_index of
        Some idx \<Rightarrow> filter (\<lambda>x. x \<noteq> d) (dict_getd idx (cluster_domain d) [])
      | None \<Rightarrow> filter (\<lambda>x. x \<noteq> d \<and> cluster_domain x = cluster_domain d) all_domains)"

section \<open>Strategy genetics\<close>

definition extract_blob_hints :: "string \<Rightarrow> string list" where
  "extract_blob_hints strategy =
     foldl add_new [] (re_findall (RSeq (rlit ''blob='') (RGroup 1 (rplus is_ident))) strategy)"

definition pos_char :: "char \<Rightarrow> bool" where
  "pos_char c = (is_ident c \<or> c = CHR '','')"

definition ttl_bucket :: "nat \<Rightarrow> nat" where
  "ttl_bucket t = (if t \<le> 8 then 1 else if t \<le> 32 then 2 else if t \<le> 128 then 3 else 4)"

definition strategy_traits :: "string \<Rightarrow> string list" where
  "strategy_traits strategy =
     (let num = (\<lambda>p. re_findall (RSeq (rlit p) (RGroup 1 (rplus is_decimal))) strategy);
          words = (\<lambda>ws. re_findall (RGroup 1 (ranyof ws)) strategy)
      in foldl add_new []
          (map (\<lambda>n. ''r'' @ n) (num ''repeats='')
           @ map (\<lambda>w. ''fool:'' @ w)
               (words [''tcp_ts'', ''tcp_md5'', ''badsid'', ''badseq'', ''badsum'', ''seqovl'', ''ip_ttl'',
                       ''tcp_seq'', ''tcp_ack''])
           @ map (\<lambda>n. ''ttl'' @ digits_of_nat (ttl_bucket (nat_of_digits n))) (num ''ttl='')
           @ map (\<lambda>v. ''pos:'' @ v) (re_findall (RSeq (rlit ''pos='') (RGroup 1 (rplus pos_char))) strategy)
           @ map (\<lambda>n. ''ipttl'' @ n) (num ''ip_ttl='')
           @ map (\<lambda>w. ''tec:'' @ w)
               (words [''hostfakesplit'', ''fakedsplit'', ''fakeddisorder'', ''multisplit'', ''multidisorder'',
                       ''tlsrec'', ''oob'', ''syndata'', ''pktmod'', ''send'', ''dupfake''])))"

section \<open>Run metrics\<close>

record AdaptiveMetrics =
  am_total_enqueued :: nat
  am_jobs_run :: nat
  am_jobs_passed :: nat
  am_fanout_enqueued :: nat
  am_started_at :: rat
  am_first_pass_at :: "rat option"
  am_passes_before_half :: nat
  am_half_mark_jobs :: nat

definition new_metrics :: "rat \<Rightarrow> AdaptiveMetrics" where
  "new_metrics now = \<lparr>am_total_enqueued = 0, am_jobs_run = 0, am_jobs_passed = 0, am_fanout_enqueued = 0,
     am_started_at = now, am_first_pass_at = None, am_passes_before_half = 0, am_half_mark_jobs = 0\<rparr>"

definition record_run :: "rat \<Rightarrow> bool \<Rightarrow> AdaptiveMetrics \<Rightarrow> AdaptiveMetrics" where
  "record_run now passed m =
     (let m1 = m\<lparr>am_jobs_run := Suc (am_jobs_run m)\<rparr>
      in if \<not> passed then m1
         else (let m2 = m1\<lparr>am_jobs_passed := Suc (am_jobs_passed m1),
                   am_first_pass_at := (case am_first_pass_at m1 of None \<Rightarrow> Some (now - am_started_at m1) | x \<Rightarrow> x)\<rparr>
               in if am_half_mark_jobs m2 \<noteq> 0 \<and> am_jobs_run m2 \<le> am_half_mark_jobs m2
                  then m2\<lparr>am_passes_before_half := Suc (am_passes_before_half m2)\<rparr> else m2))"

definition set_half_mark :: "nat \<Rightarrow> AdaptiveMetrics \<Rightarrow> AdaptiveMetrics" where
  "set_half_mark n m = m\<lparr>am_half_mark_jobs := max 1 (n div 2)\<rparr>"

definition pass_rate_before_half :: "AdaptiveMetrics \<Rightarrow> rat" where
  "pass_rate_before_half m =
     (if am_half_mark_jobs m = 0 then 0
      else of_nat (am_passes_before_half m) / of_nat (max 1 (min (am_jobs_run m) (am_half_mark_jobs m))))"

section \<open>The weight table\<close>

definition MAX_WEIGHT :: rat where "MAX_WEIGHT = 64"
definition TRIAGE_FAMILY_SEED :: rat where "TRIAGE_FAMILY_SEED = 2"
definition TRIAGE_FOOL_SEED :: rat where "TRIAGE_FOOL_SEED = 8 / 10"
definition TRIAGE_BLOB_SEED :: rat where "TRIAGE_BLOB_SEED = 1 / 2"
definition TRIAGE_POS_SEED :: rat where "TRIAGE_POS_SEED = 4 / 10"
definition DEAD_FOOL_WEIGHT :: rat where "DEAD_FOOL_WEIGHT = 1 / 10"

definition SPLIT_POS_TRAITS :: "(string, string) dict" where
  "SPLIT_POS_TRAITS = [(''first_byte'', ''pos:1''), (''sni_marker'', ''pos:sniext+1''), (''seqovl'', ''fool:seqovl'')]"

record ScanWeights =
  sw_family :: "(string, rat) dict"
  sw_blob :: "(string, rat) dict"
  sw_trait :: "(string, rat) dict"
  sw_family_boost :: rat
  sw_blob_boost :: rat
  sw_trait_boost :: rat
  sw_provider_boosted :: "string list"

definition new_weights :: ScanWeights where
  "new_weights = \<lparr>sw_family = [], sw_blob = [], sw_trait = [], sw_family_boost = 1, sw_blob_boost = 1 / 2,
     sw_trait_boost = 4 / 10, sw_provider_boosted = []\<rparr>"

text \<open>
  The pattern of every seeding step: an unknown key gets the seed, a known one is only
  capped.
\<close>

definition seed_key :: "rat \<Rightarrow> string \<Rightarrow> (string, rat) dict \<Rightarrow> (string, rat) dict" where
  "seed_key v k d = (case dict_get d k of None \<Rightarrow> dict_set k (min v MAX_WEIGHT) d
                     | Some x \<Rightarrow> dict_set k (min x MAX_WEIGHT) d)"

definition fool_trait :: "string \<Rightarrow> string" where
  "fool_trait tok = ''fool:'' @ tok"

definition split_trait :: "string \<Rightarrow> string" where
  "split_trait mode = dict_getd SPLIT_POS_TRAITS mode (''pos:'' @ mode)"

definition seed_blobs :: "string \<Rightarrow> (string, rat) dict \<Rightarrow> (string, rat) dict" where
  "seed_blobs b d = fold (seed_key TRIAGE_BLOB_SEED) (b # aliases_for_class b) d"

definition seed_from_triage :: "TriageProfile option \<Rightarrow> ScanWeights \<Rightarrow> ScanWeights" where
  "seed_from_triage profile w =
     (case profile of
        None \<Rightarrow> w
      | Some p \<Rightarrow>
          (let fam = fold (seed_key TRIAGE_FAMILY_SEED) (families_for_profile profile) (sw_family w);
               t1 = fold (\<lambda>tok d. dict_set (fool_trait tok) DEAD_FOOL_WEIGHT d) (dead_fooling_tokens profile) (sw_trait w);
               t2 = fold (\<lambda>fool. seed_key TRIAGE_FOOL_SEED (fool_trait (before_char CHR ''='' fool))) (viable_foolings p) t1;
               bl = fold seed_blobs (viable_blobs p) (sw_blob w);
               t3 = (if split_mode p = [] then t2 else seed_key TRIAGE_POS_SEED (split_trait (split_mode p)) t2)
           in w\<lparr>sw_family := fam, sw_trait := t3, sw_blob := bl\<rparr>))"

definition boost_key :: "rat \<Rightarrow> rat \<Rightarrow> string \<Rightarrow> (string, rat) dict \<Rightarrow> (string, rat) dict" where
  "boost_key base inc k d = dict_set k (min (dict_getd d k base + inc) MAX_WEIGHT) d"

definition boost_pass :: "string \<Rightarrow> string list \<Rightarrow> string list \<Rightarrow> ScanWeights \<Rightarrow> ScanWeights" where
  "boost_pass family blobs traits w =
     w\<lparr>sw_family := boost_key 1 (sw_family_boost w) family (sw_family w),
       sw_blob := fold (boost_key 0 (sw_blob_boost w)) blobs (sw_blob w),
       sw_trait := fold (boost_key 0 (sw_trait_boost w)) traits (sw_trait w)\<rparr>"

definition boost_provider_once :: "string \<Rightarrow> string \<Rightarrow> string list \<Rightarrow> string list \<Rightarrow> ScanWeights \<Rightarrow> bool \<times> ScanWeights" where
  "boost_provider_once key family blobs traits w =
     (if key \<in> set (sw_provider_boosted w) then (False, w)
      else (True, boost_pass family blobs traits (w\<lparr>sw_provider_boosted := key # sw_provider_boosted w\<rparr>)))"

definition weight_get :: "ScanWeights \<Rightarrow> string \<Rightarrow> string list \<Rightarrow> string list \<Rightarrow> rat" where
  "weight_get w family blobs traits =
     foldl (\<lambda>s t. s + dict_getd (sw_trait w) t 0)
       (foldl (\<lambda>s b. s + dict_getd (sw_blob w) b 0) (dict_getd (sw_family w) family 1) blobs) traits"

section \<open>Persisted rows\<close>

definition tag_rows :: "string \<Rightarrow> (string, rat) dict \<Rightarrow> (string \<times> rat) list" where
  "tag_rows tag d = map (\<lambda>(k, v). (tag @ k, v)) d"

definition to_rows :: "ScanWeights \<Rightarrow> (string \<times> rat) list" where
  "to_rows w = tag_rows ''family:'' (sw_family w) @ tag_rows ''blob:'' (sw_blob w) @ tag_rows ''trait:'' (sw_trait w)"

definition row_add :: "ScanWeights \<Rightarrow> string \<times> rat \<Rightarrow> ScanWeights" where
  "row_add w kv = (case kv of (k, v) \<Rightarrow>
     if startswith k ''family:'' then w\<lparr>sw_family := dict_set (drop 7 k) v (sw_family w)\<rparr>
     else if startswith k ''blob:'' then w\<lparr>sw_blob := dict_set (drop 5 k) v (sw_blob w)\<rparr>
     else if startswith k ''trait:'' then w\<lparr>sw_trait := dict_set (drop 6 k) v (sw_trait w)\<rparr>
     else w)"

definition from_rows :: "(string \<times> rat) list \<Rightarrow> ScanWeights" where
  "from_rows rows = foldl row_add new_weights rows"

section \<open>Clusters: the index agrees with a scan of the domain list\<close>

lemma index_add_get:
  "dict_getd (index_add idx d) c [] = dict_getd idx c [] @ (if cluster_domain d = c then [d] else [])"
  by (simp add: index_add_def dict_getd_def map_of_update')

lemma cluster_domain_index_get:
  "dict_getd (cluster_domain_index ds) c [] = filter (\<lambda>d. cluster_domain d = c) ds"
proof -
  have "dict_getd (foldl index_add idx ds) c [] = dict_getd idx c [] @ filter (\<lambda>d. cluster_domain d = c) ds" for idx
    by (induction ds arbitrary: idx) (simp_all add: index_add_get)
  from this [of "[]"] show ?thesis by (simp add: cluster_domain_index_def dict_getd_def)
qed

section \<open>The cap\<close>

definition capped :: "(string, rat) dict \<Rightarrow> bool" where
  "capped d = (\<forall>(k, v) \<in> set d. v \<le> MAX_WEIGHT)"

definition weights_ok :: "ScanWeights \<Rightarrow> bool" where
  "weights_ok w = (capped (sw_family w) \<and> capped (sw_blob w) \<and> capped (sw_trait w))"

lemma capped_set: "capped d \<Longrightarrow> v \<le> MAX_WEIGHT \<Longrightarrow> capped (dict_set k v d)"
  using set_update_subset [of k v d] by (auto simp: capped_def)

lemma capped_seed_key: "capped d \<Longrightarrow> capped (seed_key v k d)"
  by (auto simp: seed_key_def intro: capped_set split: option.splits)

lemma capped_boost_key: "capped d \<Longrightarrow> capped (boost_key b i k d)"
  by (auto simp: boost_key_def intro: capped_set)

lemma capped_fold: "(\<And>x d. capped d \<Longrightarrow> capped (f x d)) \<Longrightarrow> capped d \<Longrightarrow> capped (fold f xs d)"
  by (induction xs arbitrary: d) auto

lemma weights_ok_boost: "weights_ok w \<Longrightarrow> weights_ok (boost_pass f bs ts w)"
  by (simp add: weights_ok_def boost_pass_def capped_boost_key capped_fold)

lemma weights_ok_seed: "weights_ok w \<Longrightarrow> weights_ok (seed_from_triage profile w)"
  by (auto simp: weights_ok_def seed_from_triage_def seed_blobs_def Let_def MAX_WEIGHT_def DEAD_FOOL_WEIGHT_def
      intro!: capped_fold capped_seed_key capped_set split: option.splits)

datatype wop =
    Seed "TriageProfile option"
  | Boost string "string list" "string list"
  | BoostProvider string string "string list" "string list"

fun wstep :: "wop \<Rightarrow> ScanWeights \<Rightarrow> ScanWeights" where
  "wstep (Seed p) w = seed_from_triage p w"
| "wstep (Boost f bs ts) w = boost_pass f bs ts w"
| "wstep (BoostProvider k f bs ts) w = snd (boost_provider_once k f bs ts w)"

lemma weights_ok_wstep: "weights_ok w \<Longrightarrow> weights_ok (wstep a w)"
proof (cases a)
  case (BoostProvider k f bs ts)
  assume "weights_ok w"
  then have "weights_ok (w\<lparr>sw_provider_boosted := x\<rparr>)" for x by (simp add: weights_ok_def)
  then show ?thesis using BoostProvider \<open>weights_ok w\<close>
    by (auto simp: boost_provider_once_def intro: weights_ok_boost)
qed (simp_all add: weights_ok_seed weights_ok_boost)

interpretation wsys: step_system wstep weights_ok
  by unfold_locales (rule weights_ok_wstep)

section \<open>Seeding twice\<close>

lemma update_same: "map_of d k = Some v \<Longrightarrow> dict_set k v d = d"
  by (induction d) auto

text \<open>A key that a seeding pass has settled: present, and not above the cap.\<close>

definition settled :: "(string, rat) dict \<Rightarrow> string \<Rightarrow> bool" where
  "settled d k = (\<exists>v. map_of d k = Some v \<and> v \<le> MAX_WEIGHT)"

lemma seed_key_settled [simp]: "settled (seed_key v k d) k"
  by (auto simp: settled_def seed_key_def map_of_update' split: option.splits)

lemma seed_key_keeps: "settled d k \<Longrightarrow> map_of (seed_key v k' d) k = map_of d k"
  by (auto simp: settled_def seed_key_def map_of_update' split: option.splits)

lemma seed_key_id: "settled d k \<Longrightarrow> seed_key v k d = d"
  by (auto simp: settled_def seed_key_def update_same)

lemma fold_seed_keeps:
  "settled d k \<Longrightarrow> map_of (fold (seed_key v) ks d) k = map_of d k"
proof (induction ks arbitrary: d)
  case (Cons x ks)
  then show ?case using seed_key_keeps [of d k v x] by (simp add: settled_def)
qed simp

lemma fold_seed_settled: "k \<in> set ks \<Longrightarrow> settled (fold (seed_key v) ks d) k"
proof (induction ks arbitrary: d)
  case (Cons x ks)
  then show ?case using fold_seed_keeps [of "seed_key v x d" x v ks] seed_key_settled [of v x d]
    by (auto simp: settled_def)
qed simp

lemma fold_seed_id: "\<forall>k \<in> set ks. settled d k \<Longrightarrow> fold (seed_key v) ks d = d"
  by (induction ks) (simp_all add: seed_key_id)

lemma fold_concat_seed: "fold seed_blobs bs d = fold (seed_key TRIAGE_BLOB_SEED) (concat (map (\<lambda>b. b # aliases_for_class b) bs)) d"
  by (induction bs arbitrary: d) (simp_all add: seed_blobs_def)

lemma fold_map_seed: "fold (\<lambda>x. seed_key v (f x)) xs d = fold (seed_key v) (map f xs) d"
  by (induction xs arbitrary: d) simp_all

lemma fold_set_const_get:
  "map_of (fold (\<lambda>tok d. dict_set (f tok) c d) ts d) k = (if k \<in> f ` set ts then Some c else map_of d k)"
  by (induction ts arbitrary: d) (auto simp: map_of_update')

lemma fold_set_const_id:
  "\<forall>t \<in> set ts. map_of d (f t) = Some c \<Longrightarrow> fold (\<lambda>tok d. dict_set (f tok) c d) ts d = d"
  by (induction ts) (simp_all add: update_same)

lemma seed_traits_idem:
  fixes dead extra ks :: "string list" and v v' :: rat
  defines "pass \<equiv> \<lambda>d. fold (seed_key v') extra
     (fold (seed_key v) ks (fold (\<lambda>tok d. dict_set (fool_trait tok) DEAD_FOOL_WEIGHT d) dead d))"
  shows "pass (pass d) = pass d"
proof -
  let ?e = "fold (\<lambda>tok d. dict_set (fool_trait tok) DEAD_FOOL_WEIGHT d) dead d"
  have dw: "DEAD_FOOL_WEIGHT \<le> MAX_WEIGHT" by (simp add: DEAD_FOOL_WEIGHT_def MAX_WEIGHT_def)
  have dead_e: "map_of ?e (fool_trait t) = Some DEAD_FOOL_WEIGHT" if "t \<in> set dead" for t
    using that fold_set_const_get [where f = fool_trait and c = DEAD_FOOL_WEIGHT and ts = dead and d = d]
    by (simp)
  have se: "settled ?e (fool_trait t)" if "t \<in> set dead" for t
    unfolding settled_def using dead_e [OF that] dw by blast
  have keep: "map_of (pass d) (fool_trait t) = Some DEAD_FOOL_WEIGHT" if "t \<in> set dead" for t
    using dead_e [OF that] fold_seed_keeps [OF se [OF that], of v ks] se [OF that]
      fold_seed_keeps [of "fold (seed_key v) ks ?e" "fool_trait t" v' extra]
    by (simp add: pass_def settled_def)
  have "settled (pass d) k" if "k \<in> set ks" for k
    using fold_seed_settled [OF that, of v ?e] fold_seed_keeps [of "fold (seed_key v) ks ?e" k v' extra]
    by (simp add: pass_def settled_def)
  moreover have "settled (pass d) k" if "k \<in> set extra" for k
    using fold_seed_settled [OF that] by (simp add: pass_def)
  ultimately show ?thesis
    using keep by (subst (1) pass_def) (simp add: fold_set_const_id fold_seed_id)
qed

lemma fold_seed_idem: "fold (seed_key v) ks (fold (seed_key v) ks d) = fold (seed_key v) ks d"
  by (simp add: fold_seed_id fold_seed_settled)

lemma seed_shape:
  "\<exists>F T B. (\<forall>w. seed_from_triage (Some p) w = w\<lparr>sw_family := F (sw_family w), sw_trait := T (sw_trait w), sw_blob := B (sw_blob w)\<rparr>)
     \<and> (\<forall>d. F (F d) = F d) \<and> (\<forall>d. T (T d) = T d) \<and> (\<forall>d. B (B d) = B d)"
proof -
  let ?fool = "map (\<lambda>fool. fool_trait (before_char CHR ''='' fool)) (viable_foolings p)"
  define F where "F = fold (seed_key TRIAGE_FAMILY_SEED) (families_for_profile (Some p))"
  define extra where "extra = (if split_mode p = [] then [] else [split_trait (split_mode p)])"
  define T where "T = (\<lambda>d. fold (seed_key TRIAGE_POS_SEED) extra (fold (seed_key TRIAGE_FOOL_SEED) ?fool
     (fold (\<lambda>tok d. dict_set (fool_trait tok) DEAD_FOOL_WEIGHT d) (dead_fooling_tokens (Some p)) d)))"
  define B where "B = fold (seed_key TRIAGE_BLOB_SEED) (concat (map (\<lambda>b. b # aliases_for_class b) (viable_blobs p)))"
  have "\<forall>w. seed_from_triage (Some p) w = w\<lparr>sw_family := F (sw_family w), sw_trait := T (sw_trait w), sw_blob := B (sw_blob w)\<rparr>"
    by (simp add: seed_from_triage_def Let_def fold_concat_seed
        fold_map_seed [where f = "\<lambda>fool. fool_trait (before_char CHR ''='' fool)"] F_def T_def B_def extra_def)
  moreover have "\<forall>d. F (F d) = F d" "\<forall>d. B (B d) = B d" by (simp_all add: F_def B_def fold_seed_idem)
  moreover have "\<forall>d. T (T d) = T d" unfolding T_def by (intro allI seed_traits_idem)
  ultimately show ?thesis by blast
qed

section \<open>Boosts never lower a score\<close>

lemma boost_key_get:
  "dict_getd (boost_key b i k d) x base = (if x = k then min (dict_getd d k b + i) MAX_WEIGHT else dict_getd d x base)"
  by (simp add: boost_key_def dict_getd_def map_of_update')

lemma capped_get: "capped d \<Longrightarrow> map_of d k = Some v \<Longrightarrow> v \<le> MAX_WEIGHT"
  by (auto simp: capped_def dest: map_of_SomeD)

lemma boost_key_mono:
  "capped d \<Longrightarrow> 0 \<le> i \<Longrightarrow> b \<le> MAX_WEIGHT \<Longrightarrow> dict_getd d x b \<le> dict_getd (boost_key b i k d) x b"
  unfolding boost_key_get by (auto simp: dict_getd_def min_def dest: capped_get split: option.splits)

lemma fold_boost_mono:
  "capped d \<Longrightarrow> 0 \<le> i \<Longrightarrow> b \<le> MAX_WEIGHT \<Longrightarrow> dict_getd d x b \<le> dict_getd (fold (boost_key b i) ks d) x b"
proof (induction ks arbitrary: d)
  case (Cons k ks)
  then have "dict_getd (boost_key b i k d) x b \<le> dict_getd (fold (boost_key b i) (k # ks) d) x b"
    using Cons.IH [of "boost_key b i k d"] by (simp add: capped_boost_key)
  then show ?case using boost_key_mono [of d i b x k] Cons.prems by (meson order_trans)
qed simp

lemma foldl_sum_mono:
  "(s::rat) \<le> s' \<Longrightarrow> (\<And>x. f x \<le> g x) \<Longrightarrow> foldl (\<lambda>s x. s + f x) s xs \<le> foldl (\<lambda>s x. s + g x) s' xs"
  by (induction xs arbitrary: s s') (simp_all add: add_mono)

lemma weight_get_boost_mono:
  assumes "weights_ok w" "0 \<le> sw_family_boost w" "0 \<le> sw_blob_boost w" "0 \<le> sw_trait_boost w"
  shows "weight_get w f bs ts \<le> weight_get (boost_pass f' bs' ts' w) f bs ts"
  using assms unfolding weight_get_def weights_ok_def boost_pass_def
  by (auto intro!: foldl_sum_mono boost_key_mono fold_boost_mono simp: MAX_WEIGHT_def)

section \<open>Rows\<close>

lemma startswith_append [simp]: "startswith (p @ s) p"
  by (simp add: startswith_def)

lemma startswith_tag:
  "startswith (''family:'' @ k) ''blob:'' = False" "startswith (''family:'' @ k) ''trait:'' = False"
  "startswith (''blob:'' @ k) ''family:'' = False" "startswith (''blob:'' @ k) ''trait:'' = False"
  "startswith (''trait:'' @ k) ''family:'' = False" "startswith (''trait:'' @ k) ''blob:'' = False"
  by (simp_all add: startswith_def)

lemma row_add_family: "row_add w (''family:'' @ k, v) = w\<lparr>sw_family := dict_set k v (sw_family w)\<rparr>"
  by (simp add: row_add_def startswith_def)

lemma row_add_blob: "row_add w (''blob:'' @ k, v) = w\<lparr>sw_blob := dict_set k v (sw_blob w)\<rparr>"
  by (simp add: row_add_def startswith_def)

lemma row_add_trait: "row_add w (''trait:'' @ k, v) = w\<lparr>sw_trait := dict_set k v (sw_trait w)\<rparr>"
  by (simp add: row_add_def startswith_def)

definition dict_merge :: "(string, rat) dict \<Rightarrow> (string, rat) dict \<Rightarrow> (string, rat) dict" where
  "dict_merge d new = foldl (\<lambda>d (k, v). dict_set k v d) d new"

lemma dict_merge_distinct: "distinct (dict_keys (d @ new)) \<Longrightarrow> dict_merge d new = d @ new"
proof (induction new arbitrary: d)
  case (Cons kv new)
  obtain k v where kv: "kv = (k, v)" by fastforce
  then have "dict_merge d (kv # new) = dict_merge (d @ [(k, v)]) new"
    using Cons.prems by (simp add: dict_merge_def update_new)
  also have "\<dots> = d @ kv # new" using Cons.IH [of "d @ [(k, v)]"] Cons.prems kv by simp
  finally show ?case .
qed (simp add: dict_merge_def)

lemma foldl_row_family: "foldl row_add w (tag_rows ''family:'' d) = w\<lparr>sw_family := dict_merge (sw_family w) d\<rparr>"
  by (induction d arbitrary: w) (auto simp: tag_rows_def dict_merge_def row_add_family simp del: append_Cons append.append_Cons)

lemma foldl_row_blob: "foldl row_add w (tag_rows ''blob:'' d) = w\<lparr>sw_blob := dict_merge (sw_blob w) d\<rparr>"
  by (induction d arbitrary: w) (auto simp: tag_rows_def dict_merge_def row_add_blob simp del: append_Cons append.append_Cons)

lemma foldl_row_trait: "foldl row_add w (tag_rows ''trait:'' d) = w\<lparr>sw_trait := dict_merge (sw_trait w) d\<rparr>"
  by (induction d arbitrary: w) (auto simp: tag_rows_def dict_merge_def row_add_trait simp del: append_Cons append.append_Cons)

definition dict_weights :: "ScanWeights \<Rightarrow> bool" where
  "dict_weights w = (distinct (dict_keys (sw_family w)) \<and> distinct (dict_keys (sw_blob w)) \<and> distinct (dict_keys (sw_trait w)))"

definition persisted_view :: "ScanWeights \<Rightarrow> ScanWeights" where
  "persisted_view w = new_weights\<lparr>sw_family := sw_family w, sw_blob := sw_blob w, sw_trait := sw_trait w\<rparr>"

lemma from_rows_to_rows: "dict_weights w \<Longrightarrow> from_rows (to_rows w) = persisted_view w"
  by (simp add: from_rows_def to_rows_def foldl_row_family foldl_row_blob foldl_row_trait
      dict_merge_distinct persisted_view_def dict_weights_def new_weights_def)

interpretation weight_rows: codec to_rows from_rows persisted_view dict_weights
  by unfold_locales (rule from_rows_to_rows)

section \<open>Properties\<close>

text \<open>
  No sequence of seedings and boosts lifts a weight above the cap of 64.
\<close>

theorem weights_never_exceed_cap:
  assumes "weights_ok w"
  shows "weights_ok (fold wstep ops w)"
  using assms by (rule wsys.run_inv)

theorem weights_never_exceed_cap_witness:
  "weights_ok (fold wstep [Seed (Some new_profile), Boost ''fake'' [''stun''] [''r6'']] new_weights)"
  using weights_never_exceed_cap [of new_weights "[Seed (Some new_profile), Boost ''fake'' [''stun''] [''r6'']]"]
  by (simp add: new_weights_def weights_ok_def capped_def)

text \<open>
  Seeding the weights from a triage profile is idempotent, so seeding again after a
  resume changes nothing.
\<close>

theorem seeding_idempotent:
  "seed_from_triage profile (seed_from_triage profile w) = seed_from_triage profile w"
proof (cases profile)
  case None
  then show ?thesis by (simp add: seed_from_triage_def)
next
  case (Some p)
  obtain F T B where "\<And>w. seed_from_triage (Some p) w = w\<lparr>sw_family := F (sw_family w), sw_trait := T (sw_trait w), sw_blob := B (sw_blob w)\<rparr>"
    and "\<And>d. F (F d) = F d" "\<And>d. T (T d) = T d" "\<And>d. B (B d) = B d"
    using seed_shape [of p] by blast
  then show ?thesis by (simp add: Some)
qed

text \<open>
  A pass never makes any strategy less attractive: boosting one job leaves the score
  of every job the same or higher.
\<close>

theorem boost_never_lowers_priority:
  assumes "weights_ok w" "0 \<le> sw_family_boost w" "0 \<le> sw_blob_boost w" "0 \<le> sw_trait_boost w"
  shows "weight_get w f bs ts \<le> weight_get (boost_pass f' bs' ts' w) f bs ts"
  using assms by (rule weight_get_boost_mono)

theorem boost_never_lowers_priority_witness:
  "weight_get new_weights ''fake'' [''stun''] [] \<le> weight_get (boost_pass ''fake'' [''stun''] [''r6''] new_weights) ''fake'' [''stun''] []"
  using boost_never_lowers_priority [of new_weights "''fake''" "[''stun'']" "[]" "''fake''" "[''stun'']" "[''r6'']"]
  by (simp add: new_weights_def weights_ok_def capped_def)

text \<open>
  The weights survive persistence: the rows written at the end of a run load back as the
  same family, blob and trait tables.
\<close>

theorem weight_rows_roundtrip:
  assumes "dict_weights w"
  shows "from_rows (to_rows w) = persisted_view w"
  using assms by (rule weight_rows.decode_encode)

theorem weight_rows_roundtrip_witness:
  "from_rows (to_rows (boost_pass ''fake'' [''stun''] [''r6''] new_weights)) =
     persisted_view (boost_pass ''fake'' [''stun''] [''r6''] new_weights)"
  using weight_rows_roundtrip [of "boost_pass ''fake'' [''stun''] [''r6''] new_weights"]
  by (simp add: dict_weights_def boost_pass_def boost_key_def new_weights_def)

end
