(* ===== verification/TcpFanout.thy ===== *)
theory TcpFanout
  imports Prelude
begin

text \<open>
  \<^verbatim>\<open>engine/tcp_fanout.py\<close>: the per-domain curl profile and the partition of a domain list
  into batches whose members can share one curl run.
\<close>

section \<open>Curl profiles\<close>

definition GOOGLEVIDEO_RANGE_SIZE :: int where
  "GOOGLEVIDEO_RANGE_SIZE = 17408"

definition SPECIAL_DOMAIN_MARKERS :: "string list" where
  "SPECIAL_DOMAIN_MARKERS = [''googlevideo'']"

record CurlProfile =
  cp_use_ech :: bool
  cp_headers_extra :: string
  cp_special :: bool

definition quote_char :: string where
  "quote_char = [CHR 0x22]"

definition curl_profile :: "string \<Rightarrow> bool \<Rightarrow> string \<Rightarrow> CurlProfile" where
  "curl_profile protocol disable_ech d =
     (let is_http = (protocol = ''http'');
          host = before_char CHR ''/'' (lower d);
          is_gv = (\<not> is_http \<and> list_ex (\<lambda>m. contains m host) SPECIAL_DOMAIN_MARKERS);
          use_ech = (\<not> is_http \<and> \<not> disable_ech \<and> \<not> is_gv);
          headers_extra = (if is_gv
            then '', '' @ quote_char @ ''Range'' @ quote_char @ '': '' @ quote_char @ ''bytes=0-''
                 @ str_int (GOOGLEVIDEO_RANGE_SIZE - 1) @ quote_char
            else [])
      in \<lparr>cp_use_ech = use_ech, cp_headers_extra = headers_extra, cp_special = is_gv\<rparr>)"

definition profiles_compatible :: "CurlProfile \<Rightarrow> CurlProfile \<Rightarrow> bool" where
  "profiles_compatible a b =
     ((cp_use_ech a, cp_headers_extra a, cp_special a) = (cp_use_ech b, cp_headers_extra b, cp_special b))"

section \<open>Fan-out batches\<close>

record fan_state =
  fan_batches :: "string list list"
  fan_bucket :: "string list"
  fan_profile :: "CurlProfile option"

definition fan_flush :: "nat \<Rightarrow> fan_state \<Rightarrow> fan_state" where
  "fan_flush n s =
     (if fan_bucket s = [] then s
      else \<lparr>fan_batches = fan_batches s @ chunks n (fan_bucket s), fan_bucket = [], fan_profile = None\<rparr>)"

definition fan_step :: "string \<Rightarrow> bool \<Rightarrow> nat \<Rightarrow> fan_state \<Rightarrow> string \<Rightarrow> fan_state" where
  "fan_step protocol disable_ech n s d =
     (let prof = curl_profile protocol disable_ech d
      in if cp_special prof
         then (let s1 = fan_flush n s in s1\<lparr>fan_batches := fan_batches s1 @ [[d]]\<rparr>)
         else (case fan_profile s of
                 None \<Rightarrow> s\<lparr>fan_profile := Some prof, fan_bucket := [d]\<rparr>
               | Some bp \<Rightarrow>
                   if profiles_compatible bp prof then s\<lparr>fan_bucket := fan_bucket s @ [d]\<rparr>
                   else (fan_flush n s)\<lparr>fan_profile := Some prof, fan_bucket := [d]\<rparr>))"

definition fanout_batches :: "string \<Rightarrow> bool \<Rightarrow> int \<Rightarrow> string list \<Rightarrow> string list list" where
  "fanout_batches protocol disable_ech curl_parallel ds =
     (let n = nat (max 1 curl_parallel)
      in if n = 1 then map (\<lambda>d. [d]) ds
         else fan_batches (fan_flush n (foldl (fan_step protocol disable_ech n)
                \<lparr>fan_batches = [], fan_bucket = [], fan_profile = None\<rparr> ds)))"

definition fanout_allowed :: "int \<Rightarrow> bool \<Rightarrow> string list \<Rightarrow> string \<Rightarrow> bool \<times> string" where
  "fanout_allowed curl_parallel use_family_gates ds protocol =
     (if curl_parallel \<le> 1 then (False, ''curl_parallel<=1'')
      else if use_family_gates then (False, ''family_gates active (per-domain need_* chain)'')
      else (let special = filter (\<lambda>d. cp_special (curl_profile protocol False d)) ds
            in if special \<noteq> []
               then (True, ''special domains run solo: '' @ join_with '', '' (take 3 special) @
                       (if 3 < length special then '' +'' @ digits_of_nat (length special - 3) else []))
               else (True, [])))"

section \<open>What the partition keeps\<close>

text \<open>
  The state of the loop after the domains \<open>seen\<close>: the finished batches and the bucket
  together are what was seen, every finished batch is homogeneous and within the bound,
  and the bucket holds only ordinary domains of one profile.
\<close>

definition homogeneous :: "string \<Rightarrow> bool \<Rightarrow> string list \<Rightarrow> bool" where
  "homogeneous protocol disable_ech b =
     (\<forall>x \<in> set b. \<forall>y \<in> set b. curl_profile protocol disable_ech x = curl_profile protocol disable_ech y)"

definition good_batch :: "string \<Rightarrow> bool \<Rightarrow> nat \<Rightarrow> string list \<Rightarrow> bool" where
  "good_batch protocol disable_ech n b =
     (b \<noteq> [] \<and> length b \<le> n \<and> homogeneous protocol disable_ech b \<and>
      (\<forall>x \<in> set b. cp_special (curl_profile protocol disable_ech x) \<longrightarrow> b = [x]))"

definition fan_inv :: "string \<Rightarrow> bool \<Rightarrow> nat \<Rightarrow> string list \<Rightarrow> fan_state \<Rightarrow> bool" where
  "fan_inv protocol disable_ech n seen s =
     (concat (fan_batches s) @ fan_bucket s = seen \<and>
      (\<forall>b \<in> set (fan_batches s). good_batch protocol disable_ech n b) \<and>
      (fan_bucket s = [] \<longleftrightarrow> fan_profile s = None) \<and>
      (\<forall>x \<in> set (fan_bucket s). fan_profile s = Some (curl_profile protocol disable_ech x) \<and>
         \<not> cp_special (curl_profile protocol disable_ech x)))"

lemma profiles_compatible_iff [simp]: "profiles_compatible a b \<longleftrightarrow> a = b"
  by (cases a; cases b) (simp add: profiles_compatible_def)

lemma set_chunk_subset: "0 < n \<Longrightarrow> b \<in> set (chunks n xs) \<Longrightarrow> set b \<subseteq> set xs"
  using concat_chunks [of n xs] by (metis UN_upper set_concat)

lemma fan_flush_inv:
  assumes "fan_inv p e n seen s" "0 < n"
  shows "fan_inv p e n seen (fan_flush n s) \<and> fan_bucket (fan_flush n s) = [] \<and> fan_profile (fan_flush n s) = None"
proof (cases "fan_bucket s = []")
  case True
  then show ?thesis using assms by (simp add: fan_flush_def fan_inv_def)
next
  case False
  have "good_batch p e n b" if "b \<in> set (chunks n (fan_bucket s))" for b
  proof -
    have "\<forall>x \<in> set b. fan_profile s = Some (curl_profile p e x) \<and> \<not> cp_special (curl_profile p e x)"
      using set_chunk_subset [OF assms(2) that] assms(1) by (auto simp: fan_inv_def)
    then have "homogeneous p e b" by (metis homogeneous_def option.inject)
    then show ?thesis using chunks_bounds [OF assms(2) that]
        \<open>\<forall>x \<in> set b. fan_profile s = Some (curl_profile p e x) \<and> \<not> cp_special (curl_profile p e x)\<close>
      by (auto simp: good_batch_def)
  qed
  then show ?thesis using assms False by (auto simp: fan_flush_def fan_inv_def concat_chunks)
qed

lemma fan_step_inv:
  assumes "fan_inv p e n seen s" "0 < n"
  shows "fan_inv p e n (seen @ [d]) (fan_step p e n s d)"
proof (cases "cp_special (curl_profile p e d)")
  case True
  define s1 where "s1 = fan_flush n s"
  have "concat (fan_batches s1) = seen" "\<forall>b \<in> set (fan_batches s1). good_batch p e n b"
    "fan_bucket s1 = []" "fan_profile s1 = None"
    using fan_flush_inv [OF assms] unfolding s1_def fan_inv_def by auto
  moreover have "good_batch p e n [d]" using assms(2) by (simp add: good_batch_def homogeneous_def)
  ultimately show ?thesis using True by (simp add: fan_step_def fan_inv_def Let_def s1_def [symmetric])
next
  case False
  show ?thesis
  proof (cases "fan_profile s")
    case None
    then show ?thesis using assms False by (auto simp: fan_step_def fan_inv_def Let_def)
  next
    case (Some bp)
    then show ?thesis using assms False fan_flush_inv [OF assms]
      by (auto simp: fan_step_def fan_inv_def Let_def)
  qed
qed

lemma fan_foldl_inv:
  "0 < n \<Longrightarrow> fan_inv p e n seen s \<Longrightarrow> fan_inv p e n (seen @ ds) (foldl (fan_step p e n) s ds)"
proof (induction ds arbitrary: seen s)
  case (Cons d ds)
  then show ?case using Cons.IH [of "seen @ [d]" "fan_step p e n s d"] fan_step_inv [of p e n seen s d] by simp
qed simp

lemma fanout_batches_good:
  "concat (fanout_batches p e c ds) = ds \<and> (\<forall>b \<in> set (fanout_batches p e c ds). good_batch p e (nat (max 1 c)) b)"
proof (cases "nat (max 1 c) = 1")
  case True
  then show ?thesis by (auto simp: fanout_batches_def Let_def good_batch_def homogeneous_def)
next
  case False
  have n: "0 < nat (max 1 c)" by simp
  have "fan_inv p e (nat (max 1 c)) [] \<lparr>fan_batches = [], fan_bucket = [], fan_profile = None\<rparr>"
    by (simp add: fan_inv_def)
  from fan_flush_inv [OF fan_foldl_inv [OF n this, of ds] n] False show ?thesis
    by (auto simp: fanout_batches_def Let_def fan_inv_def)
qed

interpretation fan: batching "fanout_batches protocol disable_ech curl_parallel" "nat (max 1 curl_parallel)"
  for protocol disable_ech curl_parallel
  by unfold_locales (use fanout_batches_good in \<open>auto simp: good_batch_def\<close>)

section \<open>Properties\<close>

text \<open>
  The fan-out batches are a partition of the domain list in order: concatenated they are
  the list, every batch is within the parallelism, all its members have the same curl
  profile, and a special domain is alone in its batch.
\<close>

theorem fanout_batches_partition:
  "concat (fanout_batches p e c ds) = ds \<and>
   (\<forall>b \<in> set (fanout_batches p e c ds). b \<noteq> [] \<and> int (length b) \<le> max 1 c \<and>
      (\<forall>x \<in> set b. \<forall>y \<in> set b. curl_profile p e x = curl_profile p e y) \<and>
      (\<forall>x \<in> set b. cp_special (curl_profile p e x) \<longrightarrow> b = [x]))"
proof (intro conjI ballI impI)
  show "concat (fanout_batches p e c ds) = ds" by (rule fan.concat_batches)
next
  fix b assume b: "b \<in> set (fanout_batches p e c ds)"
  then show "b \<noteq> []" by (rule fan.batch_not_Nil)
  show "int (length b) \<le> max 1 c" using fan.batch_bound [OF b] by (simp add: le_nat_iff)
  have g: "good_batch p e (nat (max 1 c)) b" using fanout_batches_good b by blast
  show "curl_profile p e x = curl_profile p e y" if "x \<in> set b" "y \<in> set b" for x y
    using g that unfolding good_batch_def homogeneous_def by blast
  show "b = [x]" if "x \<in> set b" "cp_special (curl_profile p e x)" for x
    using g that unfolding good_batch_def by blast
qed

theorem fanout_batches_partition_witness:
  "concat (fanout_batches ''tls12'' False 2 [''a.com'', ''b.com'', ''rr1.googlevideo.com'', ''c.com'']) =
     [''a.com'', ''b.com'', ''rr1.googlevideo.com'', ''c.com'']"
  using fanout_batches_partition by blast

end
