(* ===== verification/PyHeapq.thy ===== *)
theory PyHeapq
  imports Prelude "HOL-Library.Product_Lexorder"
begin

text \<open>
  Python's \<^verbatim>\<open>heapq\<close> on lists, as the adaptive queue uses it: \<open>heappush\<close>, \<open>heappop\<close> and
  \<open>heapify\<close> with the two sift loops of the standard library, over any element type with a
  sort key. The array operations are kept as they are (positions, parent \<open>(pos - 1) >> 1\<close>,
  the hole that moves along a path), because the queue also pops from a list that need not
  be a heap. On heaps the operations implement the priority-queue interface
  \<open>priority_queue\<close>: the multiset of elements and a minimal first element.
\<close>

section \<open>The interface\<close>

locale priority_queue =
  fixes key :: "'a \<Rightarrow> 'b::linorder"
    and push :: "'q \<Rightarrow> 'a \<Rightarrow> 'q"
    and pop :: "'q \<Rightarrow> ('a \<times> 'q) option"
    and elems :: "'q \<Rightarrow> 'a multiset"
    and invar :: "'q \<Rightarrow> bool"
  assumes push_elems: "elems (push q x) = add_mset x (elems q)"
    and push_invar: "invar q \<Longrightarrow> invar (push q x)"
    and pop_None: "pop q = None \<longleftrightarrow> elems q = {#}"
    and pop_elems: "pop q = Some (x, q') \<Longrightarrow> elems q = add_mset x (elems q')"
    and pop_invar: "invar q \<Longrightarrow> pop q = Some (x, q') \<Longrightarrow> invar q'"
    and pop_min: "invar q \<Longrightarrow> pop q = Some (x, q') \<Longrightarrow> y \<in># elems q \<Longrightarrow> key x \<le> key y"
begin

lemma push_many_elems: "elems (foldl push q xs) = mset xs + elems q"
  by (induction xs arbitrary: q) (auto simp: push_elems)

lemma push_many_invar: "invar q \<Longrightarrow> invar (foldl push q xs)"
  by (induction xs arbitrary: q) (auto intro: push_invar)

lemma pop_size: "pop q = Some (x, q') \<Longrightarrow> size (elems q) = Suc (size (elems q'))"
  by (drule pop_elems) simp

lemma pop_mem: "pop q = Some (x, q') \<Longrightarrow> x \<in># elems q"
  by (drule pop_elems) simp

text \<open>A second pop never gives a smaller key than the first one.\<close>

lemma pops_ordered:
  assumes "invar q" and "pop q = Some (x, q')" and "pop q' = Some (y, q'')"
  shows "key x \<le> key y"
proof (rule pop_min [OF assms(1,2)])
  show "y \<in># elems q" using pop_elems [OF assms(2)] pop_mem [OF assms(3)] by simp
qed

end

section \<open>The operations\<close>

definition parent :: "nat \<Rightarrow> nat" where
  "parent i = (i - 1) div 2"

lemma parent_less [simp]: "0 < i \<Longrightarrow> parent i < i"
  by (auto simp: parent_def)

lemma parent_child [simp]:
  "parent (2 * i + 1) = i" "parent (2 * i + 2) = i"
  "parent (Suc (2 * i)) = i" "parent (Suc (Suc (2 * i))) = i"
  by (auto simp: parent_def)

lemma parent_cases: "0 < i \<Longrightarrow> i = 2 * parent i + 1 \<or> i = 2 * parent i + 2"
  by (auto simp: parent_def)

lemma parent_neq [simp]: "0 < i \<Longrightarrow> parent i \<noteq> i" "0 < i \<Longrightarrow> i \<noteq> parent i"
  using parent_less [of i] by linarith+

function sift_down :: "('a \<Rightarrow> 'b::linorder) \<Rightarrow> nat \<Rightarrow> nat \<Rightarrow> 'a \<Rightarrow> 'a list \<Rightarrow> 'a list" where
  "sift_down key start pos new h =
     (if start < pos \<and> key new < key (h ! parent pos)
      then sift_down key start (parent pos) new (h[pos := h ! parent pos])
      else h[pos := new])"
  by pat_completeness auto
termination
  by (relation "measure (\<lambda>(key, start, pos, new, h). pos)") auto

declare sift_down.simps [simp del]

text \<open>The descending loop of \<open>_siftup\<close>: the smaller child moves up until the hole is a leaf.\<close>

definition smaller_child :: "('a \<Rightarrow> 'b::linorder) \<Rightarrow> 'a list \<Rightarrow> nat \<Rightarrow> nat" where
  "smaller_child key h pos =
     (let c = 2 * pos + 1; r = c + 1
      in if r < length h \<and> \<not> key (h ! c) < key (h ! r) then r else c)"

function sift_hole :: "('a \<Rightarrow> 'b::linorder) \<Rightarrow> nat \<Rightarrow> 'a list \<Rightarrow> nat \<times> 'a list" where
  "sift_hole key pos h =
     (if 2 * pos + 1 < length h
      then sift_hole key (smaller_child key h pos) (h[pos := h ! smaller_child key h pos])
      else (pos, h))"
  by pat_completeness auto
termination
  by (relation "measure (\<lambda>(key, pos, h). length h - pos)")
    (auto simp: smaller_child_def Let_def)

declare sift_hole.simps [simp del]

definition sift_up :: "('a \<Rightarrow> 'b::linorder) \<Rightarrow> nat \<Rightarrow> 'a list \<Rightarrow> 'a list" where
  "sift_up key start h = (case sift_hole key start h of (pos, h') \<Rightarrow> sift_down key start pos (h ! start) h')"

definition heappush :: "('a \<Rightarrow> 'b::linorder) \<Rightarrow> 'a list \<Rightarrow> 'a \<Rightarrow> 'a list" where
  "heappush key h x = sift_down key 0 (length h) x (h @ [x])"

text \<open>\<open>None\<close> is the \<open>IndexError\<close> of popping an empty list; the callers test for it first.\<close>

definition heappop :: "('a \<Rightarrow> 'b::linorder) \<Rightarrow> 'a list \<Rightarrow> ('a \<times> 'a list) option" where
  "heappop key h =
     (if h = [] then None
      else (let l = last h; h1 = butlast h
            in if h1 = [] then Some (l, [])
               else Some (h1 ! 0, sift_up key 0 (h1[0 := l]))))"

fun heapify_from :: "('a \<Rightarrow> 'b::linorder) \<Rightarrow> nat \<Rightarrow> 'a list \<Rightarrow> 'a list" where
  "heapify_from key 0 h = h"
| "heapify_from key (Suc i) h = heapify_from key i (sift_up key i h)"

definition heapify :: "('a \<Rightarrow> 'b::linorder) \<Rightarrow> 'a list \<Rightarrow> 'a list" where
  "heapify key h = heapify_from key (length h div 2) h"

section \<open>The elements are only permuted\<close>

lemma mset_move_hole:
  assumes "i < length h" and "j < length h" and "i \<noteq> j"
  shows "mset (h[i := h ! j, j := x]) = mset (h[i := x])"
proof -
  have "mset ((h[i := x])[i := h[i := x] ! j, j := h[i := x] ! i]) = mset (h[i := x])"
    using assms by (intro mset_swap) auto
  then show ?thesis using assms by simp
qed

lemma mset_sift_down:
  "pos < length h \<Longrightarrow> mset (sift_down key start pos new h) = mset (h[pos := new])"
proof (induction key start pos new h rule: sift_down.induct)
  case (1 key start pos new h)
  show ?case
  proof (cases "start < pos \<and> key new < key (h ! parent pos)")
    case True
    then have lt: "parent pos < pos" by simp
    have "mset (sift_down key start pos new h)
        = mset (h[pos := h ! parent pos, parent pos := new])"
      using 1 True lt by (simp add: sift_down.simps [of key start pos])
    also have "\<dots> = mset (h[pos := new])"
      using 1(2) lt by (intro mset_move_hole) auto
    finally show ?thesis .
  next
    case False
    then show ?thesis by (subst sift_down.simps) auto
  qed
qed

lemma length_sift_down [simp]: "length (sift_down key start pos new h) = length h"
proof (induction key start pos new h rule: sift_down.induct)
  case (1 key start pos new h)
  then show ?case by (subst sift_down.simps) auto
qed

lemma smaller_child_props:
  assumes "2 * pos + 1 < length h"
  shows "smaller_child key h pos < length h" "pos < smaller_child key h pos"
    "parent (smaller_child key h pos) = pos"
  using assms by (auto simp: smaller_child_def Let_def)

lemma smaller_child_min:
  assumes "2 * pos + 1 < length h" and "i < length h" and "0 < i" and "parent i = pos"
  shows "key (h ! smaller_child key h pos) \<le> key (h ! i)"
proof -
  from assms have "i = 2 * pos + 1 \<or> i = 2 * pos + 2" using parent_cases [of i] by simp
  then show ?thesis using assms(1,2) by (auto simp: smaller_child_def Let_def)
qed

lemma sift_hole_mset:
  assumes "sift_hole key pos h = (p, h')" and "pos < length h"
  shows "p < length h \<and> length h' = length h \<and> mset (h'[p := new]) = mset (h[pos := new])"
  using assms
proof (induction key pos h rule: sift_hole.induct)
  case (1 key pos h)
  show ?case
  proof (cases "2 * pos + 1 < length h")
    case True
    let ?c = "smaller_child key h pos"
    note c = smaller_child_props [OF True, where key = key]
    from 1(2) True have eq: "sift_hole key ?c (h[pos := h ! ?c]) = (p, h')"
      by (simp add: sift_hole.simps [of key pos])
    have "mset (h'[p := new]) = mset (h[pos := h ! ?c, ?c := new])"
      using 1(1) [OF True eq] c by simp
    also have "\<dots> = mset (h[pos := new])"
      using c 1(3) by (intro mset_move_hole) auto
    finally show ?thesis using 1(1) [OF True eq] c by simp
  next
    case False
    then show ?thesis using 1 by (simp add: sift_hole.simps [of key pos])
  qed
qed

lemma mset_sift_up: "start < length h \<Longrightarrow> mset (sift_up key start h) = mset h"
  by (auto simp: sift_up_def mset_sift_down split: prod.splits
      dest: sift_hole_mset [where new = "h ! start"])

lemma length_sift_up [simp]: "start < length h \<Longrightarrow> length (sift_up key start h) = length h"
  by (metis mset_sift_up mset_eq_length)

lemma mset_heappush [simp]: "mset (heappush key h x) = add_mset x (mset h)"
  by (simp add: heappush_def mset_sift_down)

lemma set_heappush [simp]: "set (heappush key h x) = insert x (set h)"
  by (metis mset_heappush set_mset_add_mset_insert set_mset_mset)

lemma mset_heappop: "heappop key h = Some (x, h') \<Longrightarrow> mset h = add_mset x (mset h')"
proof -
  assume a: "heappop key h = Some (x, h')"
  then have ne: "h \<noteq> []" by (auto simp: heappop_def)
  then have h: "h = butlast h @ [last h]" by simp
  show ?thesis
  proof (cases "butlast h")
    case Nil
    with a ne h show ?thesis by (auto simp: heappop_def)
  next
    case (Cons y ys)
    with a ne have x: "x = y" and h': "h' = sift_up key 0 (last h # ys)"
      by (auto simp: heappop_def Let_def)
    have "mset h = mset (y # ys @ [last h])" using h Cons by (metis append_Cons)
    then show ?thesis by (simp add: x h' mset_sift_up)
  qed
qed

lemma heappop_None_iff [simp]: "heappop key h = None \<longleftrightarrow> h = []"
  by (auto simp: heappop_def Let_def)

lemma heappop_length: "heappop key h = Some (x, h') \<Longrightarrow> length h = Suc (length h')"
  by (drule mset_heappop) (metis size_mset size_add_mset)

lemma heappop_set: "heappop key h = Some (x, h') \<Longrightarrow> set h = insert x (set h')"
  by (drule mset_heappop) (metis set_mset_add_mset_insert set_mset_mset)

lemma mset_heapify_from: "i \<le> length h \<Longrightarrow> mset (heapify_from key i h) = mset h"
  by (induction i arbitrary: h) (auto simp: mset_sift_up)

lemma mset_heapify [simp]: "mset (heapify key h) = mset h"
  by (simp add: heapify_def mset_heapify_from)

lemma set_heapify [simp]: "set (heapify key h) = set h"
  by (metis mset_heapify set_mset_mset)

lemma length_heapify [simp]: "length (heapify key h) = length h"
  by (metis mset_heapify mset_eq_length)

section \<open>The heap order\<close>

text \<open>\<open>heap_from key s h\<close>: every parent at position at least \<open>s\<close> is at most its children.\<close>

definition heap_from :: "('a \<Rightarrow> 'b::linorder) \<Rightarrow> nat \<Rightarrow> 'a list \<Rightarrow> bool" where
  "heap_from key s h =
     (\<forall>i. 0 < i \<and> i < length h \<and> s \<le> parent i \<longrightarrow> key (h ! parent i) \<le> key (h ! i))"

abbreviation is_heap :: "('a \<Rightarrow> 'b::linorder) \<Rightarrow> 'a list \<Rightarrow> bool" where
  "is_heap key h \<equiv> heap_from key 0 h"

text \<open>
  The state of both loops: a heap above \<open>s\<close> but for the hole at \<open>pos\<close>, whose parent is at
  most its children.
\<close>

definition hole_ok :: "('a \<Rightarrow> 'b::linorder) \<Rightarrow> nat \<Rightarrow> nat \<Rightarrow> 'a list \<Rightarrow> bool" where
  "hole_ok key s pos h =
     ((\<forall>i. 0 < i \<and> i < length h \<and> s \<le> parent i \<and> i \<noteq> pos \<and> parent i \<noteq> pos
           \<longrightarrow> key (h ! parent i) \<le> key (h ! i)) \<and>
      (\<forall>i. 0 < i \<and> i < length h \<and> parent i = pos \<and> 0 < pos \<and> s \<le> parent pos
           \<longrightarrow> key (h ! parent pos) \<le> key (h ! i)))"

inductive in_subtree :: "nat \<Rightarrow> nat \<Rightarrow> bool" where
  root: "in_subtree s s"
| child: "in_subtree s (parent i) \<Longrightarrow> 0 < i \<Longrightarrow> in_subtree s i"

lemma in_subtree_le: "in_subtree s i \<Longrightarrow> s \<le> i"
proof (induction rule: in_subtree.induct)
  case (child s i)
  then show ?case using parent_less [of i] by linarith
qed simp

lemma in_subtree_parent: "in_subtree s i \<Longrightarrow> s < i \<Longrightarrow> in_subtree s (parent i)"
  by (erule in_subtree.cases) auto

lemma in_subtree_0 [simp]: "in_subtree 0 i"
proof (induction i rule: less_induct)
  case (less i)
  then show ?case by (cases "i = 0") (auto intro: in_subtree.intros)
qed

lemma sift_down_heap:
  assumes "hole_ok key s pos h" and "pos < length h" and "in_subtree s pos"
    and "\<And>i. 0 < i \<Longrightarrow> i < length h \<Longrightarrow> parent i = pos \<Longrightarrow> key new \<le> key (h ! i)"
  shows "heap_from key s (sift_down key s pos new h)"
  using assms
proof (induction key s pos new h rule: sift_down.induct)
  case (1 key s pos new h)
  show ?case
  proof (cases "s < pos \<and> key new < key (h ! parent pos)")
    case True
    let ?p = "parent pos" and ?h = "h[pos := h ! parent pos]"
    have p: "?p < pos" "s \<le> ?p" "in_subtree s ?p"
      using True 1(4) in_subtree_parent in_subtree_le by auto
    have ord: "key (h ! parent i) \<le> key (h ! i)"
      if "0 < i" "i < length h" "s \<le> parent i" "i \<noteq> pos" "parent i \<noteq> pos" for i
      using 1(2) that by (auto simp: hole_ok_def)
    have grand: "key (h ! ?p) \<le> key (h ! i)"
      if "0 < i" "i < length h" "parent i = pos" for i
      using 1(2) that True p by (auto simp: hole_ok_def)
    have hole: "hole_ok key s ?p ?h"
      unfolding hole_ok_def
    proof (intro conjI allI impI; elim conjE)
      fix i assume i: "0 < i" "i < length ?h" "s \<le> parent i" "i \<noteq> ?p" "parent i \<noteq> ?p"
      then show "key (?h ! parent i) \<le> key (?h ! i)"
        using ord [of i] grand [of i] 1(3) p by (cases "parent i = pos") (auto simp: nth_list_update)
    next
      fix i assume i: "0 < i" "i < length ?h" "parent i = ?p" "0 < ?p" "s \<le> parent ?p"
      have "key (h ! parent ?p) \<le> key (h ! ?p)"
        using ord [of ?p] i p 1(3) by (metis less_trans parent_less not_less_iff_gr_or_eq order_less_trans)
      moreover have "i \<noteq> pos \<Longrightarrow> key (h ! ?p) \<le> key (h ! i)"
        using ord [of i] i p by auto
      moreover have "parent ?p \<noteq> pos" using p i parent_less by (metis less_trans nat_less_le)
      ultimately show "key (?h ! parent ?p) \<le> key (?h ! i)"
        using i 1(3) by (cases "i = pos") (auto simp: nth_list_update)
    qed
    have small: "key new \<le> key (?h ! i)" if "0 < i" "i < length ?h" "parent i = ?p" for i
      using that True 1(3) ord [of i] p by (cases "i = pos") (auto simp: nth_list_update)
    have "heap_from key s (sift_down key s ?p new ?h)"
      by (rule 1(1) [OF True hole]) (use 1(3) p small in auto)
    then show ?thesis using True by (subst sift_down.simps) simp
  next
    case False
    have "heap_from key s (h[pos := new])"
      unfolding heap_from_def
    proof (intro allI impI; elim conjE)
      fix i assume i: "0 < i" "i < length (h[pos := new])" "s \<le> parent i"
      consider "i = pos" | "parent i = pos" | "i \<noteq> pos" "parent i \<noteq> pos" by blast
      then show "key (h[pos := new] ! parent i) \<le> key (h[pos := new] ! i)"
      proof cases
        case 1
        then have "s < pos" "parent i \<noteq> pos" using i parent_less [of i] by linarith+
        then show ?thesis using 1 False i by (auto simp: not_less)
      next
        case 2
        then have "i \<noteq> pos" using i parent_less [of i] by auto
        then show ?thesis using 2 i "1.prems" by auto
      next
        case 3
        then show ?thesis using i "1.prems"(1) by (auto simp: hole_ok_def)
      qed
    qed
    then show ?thesis using False by (subst sift_down.simps) (simp only: if_False)
  qed
qed

lemma sift_hole_ok:
  assumes "hole_ok key s pos h" and "pos < length h" and "in_subtree s pos"
    and "sift_hole key pos h = (p, h')"
  shows "hole_ok key s p h' \<and> in_subtree s p \<and> length h' \<le> 2 * p + 1"
  using assms
proof (induction key pos h rule: sift_hole.induct)
  case (1 key pos h)
  show ?case
  proof (cases "2 * pos + 1 < length h")
    case True
    let ?c = "smaller_child key h pos"
    let ?h = "h[pos := h ! ?c]"
    note c = smaller_child_props [OF True, where key = key]
    have sp: "s \<le> pos" using 1(4) by (rule in_subtree_le)
    have ord: "key (h ! parent i) \<le> key (h ! i)"
      if "0 < i" "i < length h" "s \<le> parent i" "i \<noteq> pos" "parent i \<noteq> pos" for i
      using 1(2) that by (auto simp: hole_ok_def)
    have grand: "key (h ! parent pos) \<le> key (h ! ?c)" if "0 < pos" "s \<le> parent pos"
      using 1(2) c that by (auto simp: hole_ok_def)
    have hole: "hole_ok key s ?c ?h"
      unfolding hole_ok_def
    proof (intro conjI allI impI; elim conjE)
      fix i assume i: "0 < i" "i < length ?h" "s \<le> parent i" "i \<noteq> ?c" "parent i \<noteq> ?c"
      consider "i = pos" | "parent i = pos" "i \<noteq> pos" | "i \<noteq> pos" "parent i \<noteq> pos" by blast
      then show "key (?h ! parent i) \<le> key (?h ! i)"
      proof cases
        case 1
        then have "parent i \<noteq> pos" using i parent_less [of i] by auto
        then show ?thesis using 1 i grand by auto
      next
        case 2
        then show ?thesis using i c smaller_child_min [OF True, of i key] by auto
      next
        case 3
        then show ?thesis using i ord [of i] by auto
      qed
    next
      fix i assume i: "0 < i" "i < length ?h" "parent i = ?c" "0 < ?c" "s \<le> parent ?c"
      have ne: "i \<noteq> pos" "parent i \<noteq> pos" "s \<le> parent i" "i < length h"
        using i c sp parent_less [of i] by auto
      have le: "key (h ! ?c) \<le> key (h ! i)"
        using ord [OF i(1) ne(4) ne(3) ne(1) ne(2)] unfolding i(3) .
      have e1: "?h ! parent ?c = h ! ?c"
        unfolding c(3) using "1.prems"(2) by (rule nth_list_update_eq)
      have e2: "?h ! i = h ! i"
        using ne(1) by (metis nth_list_update_neq)
      show "key (?h ! parent ?c) \<le> key (?h ! i)"
        unfolding e1 e2 by (rule le)
    qed
    have sub: "in_subtree s ?c" by (rule in_subtree.child) (use "1.prems"(3) c in auto)
    from 1(5) True have eq: "sift_hole key ?c ?h = (p, h')"
      by (simp add: sift_hole.simps [of key pos])
    show ?thesis using 1(1) [OF True hole _ sub eq] c by simp
  next
    case False
    then show ?thesis using 1 by (auto simp: sift_hole.simps [of key pos])
  qed
qed

lemma sift_up_heap:
  assumes "heap_from key (Suc s) h" and "s < length h"
  shows "heap_from key s (sift_up key s h)"
proof -
  obtain p h' where eq: "sift_hole key s h = (p, h')" by fastforce
  have "hole_ok key s s h"
    unfolding hole_ok_def
  proof (intro conjI allI impI; elim conjE)
    fix i assume "0 < i" "i < length h" "s \<le> parent i" "i \<noteq> s" "parent i \<noteq> s"
    then show "key (h ! parent i) \<le> key (h ! i)"
      using assms(1) by (auto simp: heap_from_def)
  next
    fix i assume "0 < s" "s \<le> parent s"
    then show "key (h ! parent s) \<le> key (h ! i)" using parent_less [of s] by linarith
  qed
  from sift_hole_ok [OF this assms(2) in_subtree.root eq]
  have h': "hole_ok key s p h'" "in_subtree s p" and leaf: "length h' \<le> 2 * p + 1" by auto
  have p: "p < length h'" using sift_hole_mset [OF eq assms(2), of "h ! s"] by simp
  have "\<not> i < length h'" if "0 < i" "parent i = p" for i
    using that leaf parent_cases [of i] by linarith
  then have "heap_from key s (sift_down key s p (h ! s) h')"
    by (intro sift_down_heap [OF h'(1) p h'(2)]) blast
  then show ?thesis by (simp add: sift_up_def eq)
qed

lemma heappush_heap: "is_heap key h \<Longrightarrow> is_heap key (heappush key h x)"
  unfolding heappush_def
proof (rule sift_down_heap)
  assume heap: "is_heap key h"
  have leaf: "i < length h" if "i < length (h @ [x])" "i \<noteq> length h" for i using that by auto
  have par: "parent i < length h" if "0 < i" "i < length (h @ [x])" for i
  proof -
    have "i \<le> length h" using that by simp
    then show ?thesis using parent_less [OF that(1)] by linarith
  qed
  show "hole_ok key 0 (length h) (h @ [x])"
    unfolding hole_ok_def
  proof (intro conjI allI impI; elim conjE)
    fix i assume i: "0 < i" "i < length (h @ [x])" "i \<noteq> length h"
    then show "key ((h @ [x]) ! parent i) \<le> key ((h @ [x]) ! i)"
      using heap leaf [of i] par [of i] by (auto simp: heap_from_def nth_append)
  next
    fix i assume "0 < i" "i < length (h @ [x])" "parent i = length h"
    then show "key ((h @ [x]) ! parent (length h)) \<le> key ((h @ [x]) ! i)"
      using par [of i] by simp
  qed
  fix i assume "0 < i" "i < length (h @ [x])" "parent i = length h"
  then show "key x \<le> key ((h @ [x]) ! i)" using par [of i] by simp
qed auto

lemma heap_root_le:
  assumes "is_heap key h"
  shows "i < length h \<Longrightarrow> key (h ! 0) \<le> key (h ! i)"
proof (induction i rule: less_induct)
  case (less i)
  show ?case
  proof (cases "i = 0")
    case False
    then have "key (h ! 0) \<le> key (h ! parent i)"
      using less parent_less [of i] by simp
    also have "\<dots> \<le> key (h ! i)" using assms less(2) False by (auto simp: heap_from_def)
    finally show ?thesis .
  qed simp
qed

lemma heap_butlast: "is_heap key h \<Longrightarrow> is_heap key (butlast h)"
  unfolding heap_from_def
proof (intro allI impI; elim conjE)
  fix i assume h: "\<forall>i. 0 < i \<and> i < length h \<and> 0 \<le> parent i \<longrightarrow> key (h ! parent i) \<le> key (h ! i)"
    and i: "0 < i" "i < length (butlast h)"
  have "parent i < length (butlast h)" using i parent_less [of i] by linarith
  then show "key (butlast h ! parent i) \<le> key (butlast h ! i)"
    using h i by (simp add: nth_butlast)
qed

lemma heap_from_Suc_update: "heap_from key s h \<Longrightarrow> heap_from key (Suc s) (h[s := x])"
  unfolding heap_from_def
proof (intro allI impI; elim conjE)
  fix i assume h: "\<forall>i. 0 < i \<and> i < length h \<and> s \<le> parent i \<longrightarrow> key (h ! parent i) \<le> key (h ! i)"
    and i: "0 < i" "i < length (h[s := x])" "Suc s \<le> parent i"
  then have "s \<noteq> parent i" "s \<noteq> i" using parent_less [of i] by linarith+
  then show "key (h[s := x] ! parent i) \<le> key (h[s := x] ! i)" using h i by simp
qed

lemma heappop_heap: "is_heap key h \<Longrightarrow> heappop key h = Some (x, h') \<Longrightarrow> is_heap key h'"
  by (auto simp: heappop_def Let_def heap_from_def [of _ _ "[]"] split: if_splits
      intro!: sift_up_heap heap_from_Suc_update heap_butlast)

lemma heappop_min:
  assumes "is_heap key h" and "heappop key h = Some (x, h')" and "y \<in> set h"
  shows "key x \<le> key y"
proof -
  have "x = h ! 0"
    using assms(2) by (cases h rule: rev_cases) (auto simp: heappop_def Let_def nth_append split: if_splits)
  moreover obtain i where "i < length h" "y = h ! i"
    using assms(3) by (auto simp: in_set_conv_nth)
  ultimately show ?thesis using heap_root_le [OF assms(1)] by simp
qed

lemma heapify_from_heap: "heap_from key i h \<Longrightarrow> i \<le> length h \<Longrightarrow> is_heap key (heapify_from key i h)"
proof (induction i arbitrary: h)
  case (Suc i)
  then have "heap_from key i (sift_up key i h)" "length (sift_up key i h) = length h"
    by (auto intro: sift_up_heap)
  then show ?case using Suc by simp
qed simp

lemma heapify_heap: "is_heap key (heapify key h)"
proof -
  have "heap_from key (length h div 2) h"
  proof -
    have "\<not> length h div 2 \<le> parent i" if "0 < i" "i < length h" for i
      using that by (auto simp: parent_def)
    then show ?thesis by (auto simp: heap_from_def)
  qed
  then show ?thesis by (auto simp: heapify_def intro: heapify_from_heap)
qed

interpretation hq: priority_queue key "heappush key" "heappop key" mset "is_heap key"
  for key :: "'a \<Rightarrow> 'b::linorder"
proof
  fix q q' and x y :: 'a
  assume "is_heap key q" "heappop key q = Some (x, q')" "y \<in># mset q"
  then show "key x \<le> key y" by (intro heappop_min) auto
qed (auto simp: mset_heappop intro: heappush_heap heappop_heap)

end
