(* ===== verification/AdaptiveQueue.thy ===== *)
theory AdaptiveQueue
  imports AdaptiveWeights TcpFanout PyHeapq
begin

text \<open>
  The second half of \<^verbatim>\<open>engine/adaptive_queue.py\<close>: the job and the epsilon-greedy priority queue.

  The random generator is a stream: \<open>rng_float n\<close> and \<open>rng_int n hi\<close> are what the \<open>n\<close>-th
  draw gives to \<open>random()\<close> and to \<open>randint(1, hi)\<close>. The iteration order of the sets in
  \<open>_by_label\<close> is the argument \<open>iter_order\<close> of the one operation that depends on it. The
  loop of \<open>pop\<close> runs on fuel; \<open>pop\<close> supplies more than the loop can use on a well-formed
  queue, as the completeness theorem shows.
\<close>

section \<open>Jobs\<close>

type_synonym jkey = "string \<times> string"

record AdaptiveJob =
  aj_item :: StrategyItem
  aj_domain :: string
  aj_family :: string
  aj_fanout :: bool

definition job_key :: "AdaptiveJob \<Rightarrow> jkey" where
  "job_key j = (si_label (aj_item j), aj_domain j)"

definition job_blobs :: "AdaptiveJob \<Rightarrow> string list" where
  "job_blobs j = extract_blob_hints (si_strategy (aj_item j))"

definition job_traits :: "AdaptiveJob \<Rightarrow> string list" where
  "job_traits j = strategy_traits (si_strategy (aj_item j))"

definition from_item :: "StrategyItem \<Rightarrow> string \<Rightarrow> bool \<Rightarrow> AdaptiveJob" where
  "from_item it d fanout = \<lparr>aj_item = it, aj_domain = d, aj_family = classify_strategy_family it, aj_fanout = fanout\<rparr>"

record HeapEntry =
  he_neg_priority :: rat
  he_seq :: nat
  he_key :: jkey

definition entry_ord :: "HeapEntry \<Rightarrow> rat \<times> nat" where
  "entry_ord e = (he_neg_priority e, he_seq e)"

section \<open>The queue\<close>

record rng_state =
  rng_float :: "nat \<Rightarrow> rat"
  rng_int :: "nat \<Rightarrow> nat \<Rightarrow> nat"
  rng_pos :: nat

record AdaptiveJobQueue =
  q_weights :: ScanWeights
  q_epsilon :: rat
  q_rng :: rng_state
  q_seq :: nat
  q_heap :: "HeapEntry list"
  q_pending :: "(jkey, AdaptiveJob) dict"
  q_by_label :: "(string, jkey list) dict"
  q_done :: "jkey set"
  q_all_domains :: "string list"
  q_cluster_index :: "(string, string list) dict"
  q_excluded :: "string set"
  q_metrics :: AdaptiveMetrics
  q_rebuild_every :: nat
  q_rebuild_counter :: nat
  q_rebuild_calls :: nat

definition new_queue :: "rat \<Rightarrow> rng_state \<Rightarrow> ScanWeights option \<Rightarrow> rat \<Rightarrow> AdaptiveJobQueue" where
  "new_queue now rng weights epsilon =
     \<lparr>q_weights = (case weights of None \<Rightarrow> new_weights | Some w \<Rightarrow> w), q_epsilon = max 0 (min 1 epsilon),
      q_rng = rng, q_seq = 0, q_heap = [], q_pending = [], q_by_label = [], q_done = {},
      q_all_domains = [], q_cluster_index = [], q_excluded = {}, q_metrics = new_metrics now,
      q_rebuild_every = 0, q_rebuild_counter = 0, q_rebuild_calls = 0\<rparr>"

definition job_priority :: "AdaptiveJobQueue \<Rightarrow> AdaptiveJob \<Rightarrow> rat" where
  "job_priority q j = weight_get (q_weights q) (aj_family j) (job_blobs j) (job_traits j)"

definition push_heap :: "jkey \<Rightarrow> rat \<Rightarrow> AdaptiveJobQueue \<Rightarrow> AdaptiveJobQueue" where
  "push_heap key priority q =
     q\<lparr>q_seq := Suc (q_seq q),
       q_heap := heappush entry_ord (q_heap q)
         \<lparr>he_neg_priority = - priority, he_seq = Suc (q_seq q), he_key = key\<rparr>\<rparr>"

definition label_discard :: "jkey \<Rightarrow> string \<Rightarrow> (string, jkey list) dict \<Rightarrow> (string, jkey list) dict" where
  "label_discard key l idx = dict_set l (filter (\<lambda>k. k \<noteq> key) (dict_getd idx l [])) idx"

definition label_add :: "jkey \<Rightarrow> string \<Rightarrow> (string, jkey list) dict \<Rightarrow> (string, jkey list) dict" where
  "label_add key l idx = dict_set l (add_new (dict_getd idx l []) key) idx"

definition drop_pending :: "jkey \<Rightarrow> AdaptiveJobQueue \<Rightarrow> AdaptiveJob option \<times> AdaptiveJobQueue" where
  "drop_pending key q =
     (case dict_get (q_pending q) key of
        None \<Rightarrow> (None, q)
      | Some j \<Rightarrow> (Some j, q\<lparr>q_pending := dict_del key (q_pending q),
          q_by_label := label_discard key (si_label (aj_item j)) (q_by_label q)\<rparr>))"

definition entry_stale :: "AdaptiveJobQueue \<Rightarrow> HeapEntry \<Rightarrow> AdaptiveJob \<Rightarrow> bool" where
  "entry_stale q e j = (he_neg_priority e \<noteq> - job_priority q j)"

definition refresh_stale_entry :: "AdaptiveJob \<Rightarrow> AdaptiveJobQueue \<Rightarrow> AdaptiveJobQueue" where
  "refresh_stale_entry j q = push_heap (job_key j) (job_priority q j) q"

fun rebuilt_entries :: "AdaptiveJobQueue \<Rightarrow> nat \<Rightarrow> (jkey, AdaptiveJob) dict \<Rightarrow> HeapEntry list" where
  "rebuilt_entries q n [] = []"
| "rebuilt_entries q n ((k, j) # d) =
     \<lparr>he_neg_priority = - job_priority q j, he_seq = n, he_key = k\<rparr> # rebuilt_entries q (Suc n) d"

definition rebuild_heap :: "AdaptiveJobQueue \<Rightarrow> AdaptiveJobQueue" where
  "rebuild_heap q =
     (let h = rebuilt_entries q (q_seq q) (q_pending q)
      in q\<lparr>q_rebuild_calls := Suc (q_rebuild_calls q), q_seq := q_seq q + length h,
           q_heap := heapify entry_ord h\<rparr>)"

definition maybe_compact_heap :: "AdaptiveJobQueue \<Rightarrow> AdaptiveJobQueue" where
  "maybe_compact_heap q =
     (let pending_n = length (q_pending q)
      in if pending_n \<noteq> 0 \<and> pending_n * 2 + 512 < length (q_heap q) then rebuild_heap q else q)"

definition enqueue :: "AdaptiveJob \<Rightarrow> AdaptiveJobQueue \<Rightarrow> bool \<times> AdaptiveJobQueue" where
  "enqueue j q =
     (if job_key j \<in> set (dict_keys (q_pending q)) \<or> job_key j \<in> q_done q then (False, q)
      else (let priority = job_priority q j;
                q1 = q\<lparr>q_pending := dict_set (job_key j) j (q_pending q),
                       q_by_label := label_add (job_key j) (si_label (aj_item j)) (q_by_label q)\<rparr>;
                q2 = push_heap (job_key j) priority q1
            in (True, q2\<lparr>q_metrics := (q_metrics q2)\<lparr>am_total_enqueued := Suc (am_total_enqueued (q_metrics q2))\<rparr>\<rparr>)))"

fun enqueue_many :: "AdaptiveJob list \<Rightarrow> AdaptiveJobQueue \<Rightarrow> nat \<times> AdaptiveJobQueue" where
  "enqueue_many [] q = (0, q)"
| "enqueue_many (j # js) q =
     (case enqueue j q of (added, q1) \<Rightarrow>
      case enqueue_many js q1 of (n, q2) \<Rightarrow> (if added then Suc n else n, q2))"

section \<open>Taking a job\<close>

text \<open>Reservoir sampling over the pending dictionary: one draw per eligible job.\<close>

fun reservoir :: "(string \<Rightarrow> bool) \<Rightarrow> (jkey, AdaptiveJob) dict \<Rightarrow> rng_state \<Rightarrow> nat \<Rightarrow> jkey option \<Rightarrow> rng_state \<times> nat \<times> jkey option" where
  "reservoir skip [] rng cnt chosen = (rng, cnt, chosen)"
| "reservoir skip ((k, j) # d) rng cnt chosen =
     (if skip (aj_domain j) then reservoir skip d rng cnt chosen
      else reservoir skip d (rng\<lparr>rng_pos := Suc (rng_pos rng)\<rparr>) (Suc cnt)
             (if rng_int rng (rng_pos rng) (Suc cnt) = 1 then Some k else chosen))"

definition epsilon_pick_key :: "string set \<Rightarrow> AdaptiveJobQueue \<Rightarrow> jkey option \<times> AdaptiveJobQueue" where
  "epsilon_pick_key exclude q =
     (case reservoir (\<lambda>d. d \<in> exclude) (q_pending q) (q_rng q) 0 None of (rng1, cnt, chosen) \<Rightarrow>
      if cnt \<noteq> 0 then (chosen, q\<lparr>q_rng := rng1\<rparr>)
      else (case reservoir (\<lambda>d. d \<in> q_excluded q) (q_pending q) rng1 0 chosen of (rng2, _, chosen2) \<Rightarrow>
              (chosen2, q\<lparr>q_rng := rng2\<rparr>)))"

definition push_all :: "HeapEntry list \<Rightarrow> AdaptiveJobQueue \<Rightarrow> AdaptiveJobQueue" where
  "push_all es q = q\<lparr>q_heap := foldl (heappush entry_ord) (q_heap q) es\<rparr>"

function pop_fallback :: "HeapEntry list \<Rightarrow> AdaptiveJobQueue \<Rightarrow> AdaptiveJob option \<times> AdaptiveJobQueue" where
  "pop_fallback skipped q =
     (case heappop entry_ord skipped of
        None \<Rightarrow> (None, q)
      | Some (e, rest) \<Rightarrow>
          (case drop_pending (he_key e) q of
             (Some j, q1) \<Rightarrow> (Some j, push_all rest q1)
           | (None, q1) \<Rightarrow> pop_fallback rest q1))"
  by pat_completeness auto
termination
  by (relation "measure (\<lambda>(es, q). length es)") (auto dest: heappop_length)

declare pop_fallback.simps [simp del]

fun pop_loop :: "nat \<Rightarrow> string set \<Rightarrow> HeapEntry list \<Rightarrow> AdaptiveJobQueue \<Rightarrow> AdaptiveJob option \<times> AdaptiveJobQueue" where
  "pop_loop 0 exclude skipped q = (None, q)"
| "pop_loop (Suc n) exclude skipped q =
     (case heappop entry_ord (q_heap q) of
        None \<Rightarrow> pop_fallback skipped q
      | Some (e, h) \<Rightarrow>
          (let q1 = q\<lparr>q_heap := h\<rparr>
           in case dict_get (q_pending q1) (he_key e) of
                None \<Rightarrow> pop_loop n exclude skipped q1
              | Some j \<Rightarrow>
                  if entry_stale q1 e j then pop_loop n exclude skipped (refresh_stale_entry j q1)
                  else if aj_domain j \<in> q_excluded q1
                  then pop_loop n exclude skipped
                         (snd (drop_pending (job_key j) (q1\<lparr>q_done := insert (job_key j) (q_done q1)\<rparr>)))
                  else if aj_domain j \<in> exclude then pop_loop n exclude (skipped @ [e]) q1
                  else (Some j, push_all skipped (snd (drop_pending (job_key j) q1)))))"

definition draw_float :: "AdaptiveJobQueue \<Rightarrow> rat \<times> AdaptiveJobQueue" where
  "draw_float q = (rng_float (q_rng q) (rng_pos (q_rng q)), q\<lparr>q_rng := (q_rng q)\<lparr>rng_pos := Suc (rng_pos (q_rng q))\<rparr>\<rparr>)"

definition pop_best :: "string set \<Rightarrow> AdaptiveJobQueue \<Rightarrow> AdaptiveJob option \<times> AdaptiveJobQueue" where
  "pop_best exclude q = pop_loop (2 * length (q_heap q) + 1) exclude [] q"

definition pop_random :: "string set \<Rightarrow> AdaptiveJobQueue \<Rightarrow> AdaptiveJob option \<times> AdaptiveJobQueue" where
  "pop_random exclude q =
     (case epsilon_pick_key exclude q of
        (None, q1) \<Rightarrow> (None, q1)
      | (Some k, q1) \<Rightarrow> drop_pending k q1)"

definition pop :: "string set option \<Rightarrow> AdaptiveJobQueue \<Rightarrow> AdaptiveJob option \<times> AdaptiveJobQueue" where
  "pop exclude_domains q =
     (if q_pending q = [] then (None, q)
      else (let exclude = (case exclude_domains of None \<Rightarrow> {} | Some s \<Rightarrow> s) \<union> q_excluded q
            in if 0 < q_epsilon q
               then (case draw_float q of (x, q1) \<Rightarrow>
                       if x < q_epsilon q \<and> 1 < length (q_pending q) then pop_random exclude q1
                       else pop_best exclude q1)
               else pop_best exclude q))"

section \<open>Completing a job\<close>

definition configure_heap_rebuild :: "int \<Rightarrow> AdaptiveJobQueue \<Rightarrow> AdaptiveJobQueue" where
  "configure_heap_rebuild every q = q\<lparr>q_rebuild_every := nat (max 0 every), q_rebuild_counter := 0\<rparr>"

definition maybe_rebuild_heap :: "AdaptiveJobQueue \<Rightarrow> AdaptiveJobQueue" where
  "maybe_rebuild_heap q =
     (if q_rebuild_every q = 0 then q
      else (let q1 = q\<lparr>q_rebuild_counter := Suc (q_rebuild_counter q)\<rparr>
            in if q_rebuild_every q1 \<le> q_rebuild_counter q1
               then (rebuild_heap q1)\<lparr>q_rebuild_counter := 0\<rparr> else q1))"

definition cluster_index_for_fanout :: "AdaptiveJobQueue \<Rightarrow> AdaptiveJobQueue" where
  "cluster_index_for_fanout q =
     (if q_cluster_index q = [] \<and> q_all_domains q \<noteq> []
      then q\<lparr>q_cluster_index := cluster_domain_index (q_all_domains q)\<rparr> else q)"

definition fanout_jobs :: "AdaptiveJob \<Rightarrow> AdaptiveJobQueue \<Rightarrow> AdaptiveJob list" where
  "fanout_jobs j q =
     map (\<lambda>d. from_item (aj_item j) d True)
       (filter (\<lambda>d. d \<notin> q_excluded q)
         (sibling_domains (aj_domain j) (q_all_domains q) (Some (q_cluster_index q))))"

definition fanout_on_pass :: "AdaptiveJob \<Rightarrow> AdaptiveJobQueue \<Rightarrow> nat \<times> AdaptiveJobQueue" where
  "fanout_on_pass j q =
     (if q_all_domains q = [] then (0, q)
      else (let q1 = cluster_index_for_fanout q
            in case enqueue_many (fanout_jobs j q1) q1 of (added, q2) \<Rightarrow>
                 (added, q2\<lparr>q_metrics := (q_metrics q2)\<lparr>am_fanout_enqueued := am_fanout_enqueued (q_metrics q2) + added\<rparr>\<rparr>)))"

definition mark_done :: "rat \<Rightarrow> AdaptiveJob \<Rightarrow> bool \<Rightarrow> AdaptiveJobQueue \<Rightarrow> nat \<times> AdaptiveJobQueue" where
  "mark_done now j passed q =
     (let q1 = snd (drop_pending (job_key j) (q\<lparr>q_done := insert (job_key j) (q_done q)\<rparr>));
          q2 = q1\<lparr>q_metrics := record_run now passed (q_metrics q1)\<rparr>
      in if \<not> passed then (0, maybe_compact_heap q2)
         else (let q3 = q2\<lparr>q_weights := boost_pass (aj_family j) (job_blobs j) (job_traits j) (q_weights q2)\<rparr>
               in fanout_on_pass j (maybe_compact_heap (maybe_rebuild_heap q3))))"

section \<open>Building, batching and resuming\<close>

definition matrix :: "StrategyItem list \<Rightarrow> string list \<Rightarrow> (StrategyItem \<times> string) list" where
  "matrix items ds = concat (map (\<lambda>it. map (\<lambda>d. (it, d)) ds) items)"

definition build ::
    "rat \<Rightarrow> rng_state \<Rightarrow> ScanWeights option \<Rightarrow> rat \<Rightarrow> string set \<Rightarrow> jkey set \<Rightarrow> StrategyItem list \<Rightarrow> string list \<Rightarrow> AdaptiveJobQueue" where
  "build now rng weights epsilon skip_domains skip_keys items ds =
     (let q0 = new_queue now rng weights epsilon;
          q1 = q0\<lparr>q_all_domains := ds, q_cluster_index := cluster_domain_index ds,
                  q_excluded := q_excluded q0 \<union> skip_domains,
                  q_done := q_done q0 \<union> set (filter (\<lambda>k. k \<in> skip_keys) (map (\<lambda>(it, d). (si_label it, d)) (matrix items ds)))\<rparr>;
          q2 = snd (enqueue_many (map (\<lambda>(it, d). from_item it d False)
                 (filter (\<lambda>(it, d). d \<notin> skip_domains \<and> (si_label it, d) \<notin> skip_keys) (matrix items ds))) q1)
      in q2\<lparr>q_metrics := set_half_mark (am_total_enqueued (q_metrics q2)) (q_metrics q2)\<rparr>)"

definition pending_domains_for_strategy :: "(jkey list \<Rightarrow> jkey list) \<Rightarrow> string \<Rightarrow> AdaptiveJobQueue \<Rightarrow> string list" where
  "pending_domains_for_strategy iter_order l q =
     concat (map (\<lambda>k. case dict_get (q_pending q) k of None \<Rightarrow> [] | Some j \<Rightarrow> [aj_domain j])
       (iter_order (dict_getd (q_by_label q) l [])))"

fun batch_loop :: "nat \<Rightarrow> string \<Rightarrow> bool \<Rightarrow> AdaptiveJob \<Rightarrow> string list \<Rightarrow> AdaptiveJob list \<Rightarrow> AdaptiveJobQueue \<Rightarrow> AdaptiveJob list \<times> AdaptiveJobQueue" where
  "batch_loop max_size protocol disable_ech first [] batch q = (batch, q)"
| "batch_loop max_size protocol disable_ech first (d # ds) batch q =
     (if max_size \<le> length batch then (batch, q)
      else if d = aj_domain first then batch_loop max_size protocol disable_ech first ds batch q
      else if \<not> profiles_compatible (curl_profile protocol disable_ech (aj_domain first)) (curl_profile protocol disable_ech d)
      then batch_loop max_size protocol disable_ech first ds batch q
      else (case drop_pending (si_label (aj_item first), d) q of
              (None, q1) \<Rightarrow> batch_loop max_size protocol disable_ech first ds batch q1
            | (Some j, q1) \<Rightarrow> batch_loop max_size protocol disable_ech first ds (batch @ [j]) q1))"

definition pop_batch :: "(jkey list \<Rightarrow> jkey list) \<Rightarrow> nat \<Rightarrow> string \<Rightarrow> bool \<Rightarrow> AdaptiveJobQueue \<Rightarrow> AdaptiveJob list \<times> AdaptiveJobQueue" where
  "pop_batch iter_order max_size protocol disable_ech q =
     (case pop None q of
        (None, q1) \<Rightarrow> ([], q1)
      | (Some first, q1) \<Rightarrow>
          if max_size \<le> 1 then ([first], q1)
          else if cp_special (curl_profile protocol disable_ech (aj_domain first)) then ([first], q1)
          else (case batch_loop max_size protocol disable_ech first
                  (pending_domains_for_strategy iter_order (si_label (aj_item first)) q1) [first] q1 of
                (batch, q2) \<Rightarrow> (batch, maybe_compact_heap q2)))"

fun resume_drop :: "(jkey \<times> bool) list \<Rightarrow> AdaptiveJobQueue \<Rightarrow> nat \<times> AdaptiveJobQueue" where
  "resume_drop [] q = (0, q)"
| "resume_drop ((k, drop_it) # kfs) q =
     (if \<not> drop_it \<or> k \<notin> set (dict_keys (q_pending q)) then resume_drop kfs q
      else (case resume_drop kfs (snd (drop_pending k (q\<lparr>q_done := insert k (q_done q)\<rparr>))) of
              (n, q1) \<Rightarrow> (Suc n, q1)))"

text \<open>
  \<open>filter_resume\<close> evaluates the check on all jobs in chunks before it drops any; the flags
  are those of the chunks in order.
\<close>

definition filter_resume :: "(AdaptiveJob \<Rightarrow> bool) \<Rightarrow> int \<Rightarrow> AdaptiveJobQueue \<Rightarrow> nat \<times> AdaptiveJobQueue" where
  "filter_resume check chunk_size q =
     (if q_pending q = [] then (0, q)
      else (let keys = dict_keys (q_pending q);
                jobs = map snd (q_pending q);
                flags = concat (map (map check) (chunks (nat (max 1 chunk_size)) jobs))
            in case resume_drop (zip keys flags) q of (skipped, q1) \<Rightarrow>
                 (skipped, if skipped \<noteq> 0 then maybe_compact_heap q1 else q1)))"

end
