(* ===== verification/AdaptiveQueueInv.thy ===== *)
theory AdaptiveQueueInv
  imports AdaptiveQueue
begin

text \<open>
  The invariant of the adaptive queue and its preservation by every operation. Jobs are
  pending under their own key and never both pending and done; the label index lists
  exactly the pending keys; the heap is ordered and has an entry for every pending key
  (entries of other keys, and entries with an outdated priority, may remain).
\<close>

declare split_paired_All [simp del] split_paired_Ex [simp del]

section \<open>The invariant\<close>

text \<open>The pending dictionary as a map, and the label index as a family of sets.\<close>

definition pmap :: "AdaptiveJobQueue \<Rightarrow> jkey \<Rightarrow> AdaptiveJob option" where
  "pmap q = map_of (q_pending q)"

definition lbl :: "AdaptiveJobQueue \<Rightarrow> string \<Rightarrow> jkey set" where
  "lbl q l = set (dict_getd (q_by_label q) l [])"

definition q_core :: "AdaptiveJobQueue \<Rightarrow> bool" where
  "q_core q =
     (distinct (dict_keys (q_pending q)) \<and>
      (\<forall>k j. pmap q k = Some j \<longrightarrow> job_key j = k \<and> k \<notin> q_done q) \<and>
      (\<forall>l. lbl q l = {k \<in> dom (pmap q). fst k = l}))"

definition q_covers :: "HeapEntry list \<Rightarrow> AdaptiveJobQueue \<Rightarrow> bool" where
  "q_covers es q = (dom (pmap q) \<subseteq> he_key ` (set (q_heap q) \<union> set es))"

definition aq_inv_with :: "HeapEntry list \<Rightarrow> AdaptiveJobQueue \<Rightarrow> bool" where
  "aq_inv_with es q = (q_core q \<and> q_covers es q \<and> is_heap entry_ord (q_heap q))"

abbreviation aq_inv :: "AdaptiveJobQueue \<Rightarrow> bool" where
  "aq_inv q \<equiv> aq_inv_with [] q"

lemma dom_pmap: "dom (pmap q) = set (dict_keys (q_pending q))"
  by (simp add: pmap_def dom_map_of_conv_image_fst)

lemma keys_iff: "k \<in> set (dict_keys (q_pending q)) \<longleftrightarrow> pmap q k \<noteq> None"
  by (metis dom_pmap domIff)

lemma pmap_Nil_iff: "pmap q = Map.empty \<longleftrightarrow> q_pending q = []"
  by (simp add: pmap_def)

lemma q_coreD:
  assumes "q_core q" "pmap q k = Some j"
  shows "job_key j = k" "k \<notin> q_done q" "fst k = si_label (aj_item j)" "snd k = aj_domain j"
proof -
  show a: "job_key j = k" "k \<notin> q_done q" using assms unfolding q_core_def by blast+
  show "fst k = si_label (aj_item j)" "snd k = aj_domain j" using a(1) by (auto simp: job_key_def)
qed

text \<open>The parts of the invariant depend on these fields only.\<close>

lemma pmap_cong: "q_pending q' = q_pending q \<Longrightarrow> pmap q' = pmap q"
  by (simp add: pmap_def)

lemma pmap_fields [simp]:
  "pmap (q\<lparr>q_done := D\<rparr>) = pmap q" "pmap (q\<lparr>q_rng := rng\<rparr>) = pmap q" "pmap (q\<lparr>q_heap := h\<rparr>) = pmap q"
  "pmap (q\<lparr>q_metrics := m\<rparr>) = pmap q" "pmap (q\<lparr>q_weights := w\<rparr>) = pmap q" "pmap (q\<lparr>q_excluded := x\<rparr>) = pmap q"
  "pmap (q\<lparr>q_cluster_index := i\<rparr>) = pmap q"
  by (simp_all add: pmap_def)

lemma q_core_cong:
  "q_pending q' = q_pending q \<Longrightarrow> q_by_label q' = q_by_label q \<Longrightarrow> q_done q' = q_done q \<Longrightarrow> q_core q' = q_core q"
  by (simp add: q_core_def pmap_def lbl_def)

lemma aq_inv_frame:
  "aq_inv_with es q \<Longrightarrow> q_pending q' = q_pending q \<Longrightarrow> q_by_label q' = q_by_label q \<Longrightarrow> q_done q' = q_done q \<Longrightarrow>
   q_heap q' = q_heap q \<Longrightarrow> aq_inv_with es q'"
  by (simp add: aq_inv_with_def q_core_def q_covers_def pmap_def lbl_def)

section \<open>Removing pending jobs\<close>

lemma drop_pending_None: "pmap q k = None \<Longrightarrow> drop_pending k q = (None, q)"
  by (simp add: drop_pending_def pmap_def)

lemma drop_pending_Some:
  "pmap q k = Some j \<Longrightarrow> drop_pending k q = (Some j, q\<lparr>q_pending := dict_del k (q_pending q),
     q_by_label := label_discard k (si_label (aj_item j)) (q_by_label q)\<rparr>)"
  by (simp add: drop_pending_def pmap_def)

lemma pmap_drop [simp]: "pmap (snd (drop_pending k q)) = (pmap q)(k := None)"
proof (cases "pmap q k")
  case None
  then show ?thesis by (simp add: drop_pending_None fun_upd_idem)
next
  case (Some j)
  then show ?thesis by (simp add: drop_pending_Some) (simp add: pmap_def fun_eq_iff map_of_delete')
qed

lemma drop_pending_frame [simp]:
  "q_heap (snd (drop_pending k q)) = q_heap q"
  "q_done (snd (drop_pending k q)) = q_done q"
  "q_weights (snd (drop_pending k q)) = q_weights q"
  "q_excluded (snd (drop_pending k q)) = q_excluded q"
  "q_all_domains (snd (drop_pending k q)) = q_all_domains q"
  "q_cluster_index (snd (drop_pending k q)) = q_cluster_index q"
  "q_seq (snd (drop_pending k q)) = q_seq q"
  "q_rng (snd (drop_pending k q)) = q_rng q"
  "q_epsilon (snd (drop_pending k q)) = q_epsilon q"
  "q_metrics (snd (drop_pending k q)) = q_metrics q"
  by (cases "pmap q k"; simp add: drop_pending_None drop_pending_Some)+

lemma fst_drop_pending [simp]: "fst (drop_pending k q) = pmap q k"
  by (cases "pmap q k") (simp_all add: drop_pending_None drop_pending_Some)

lemma lbl_drop:
  "lbl (snd (drop_pending k q)) l =
     lbl q l - (case pmap q k of Some j \<Rightarrow> if l = si_label (aj_item j) then {k} else {} | None \<Rightarrow> {})"
  by (cases "pmap q k")
    (auto simp: drop_pending_None drop_pending_Some lbl_def label_discard_def dict_getd_def map_of_update')

lemma distinct_drop: "distinct (dict_keys (q_pending q)) \<Longrightarrow> distinct (dict_keys (q_pending (snd (drop_pending k q))))"
  by (cases "pmap q k") (simp_all add: drop_pending_None drop_pending_Some distinct_delete)

text \<open>Dropping a key keeps the core invariant, also when the key is recorded as done first.\<close>

lemma drop_core:
  assumes core: "q_core q" and D: "D = q_done q \<or> D = insert k (q_done q)"
  shows "q_core (snd (drop_pending k (q\<lparr>q_done := D\<rparr>)))"
proof -
  let ?q = "q\<lparr>q_done := D\<rparr>"
  have p: "pmap ?q = pmap q" and l: "lbl ?q = lbl q" by (simp_all add: pmap_def lbl_def fun_eq_iff)
  have "lbl (snd (drop_pending k ?q)) x = {k' \<in> dom ((pmap q)(k := None)). fst k' = x}" for x
  proof (cases "pmap q k")
    case None
    then show ?thesis using core by (auto simp: lbl_drop p l q_core_def)
  next
    case (Some j)
    then have "fst k = si_label (aj_item j)" using q_coreD(3) [OF core] by blast
    moreover have "lbl q x = {k' \<in> dom (pmap q). fst k' = x}" using core by (simp add: q_core_def)
    ultimately show ?thesis using Some by (auto simp: lbl_drop p l)
  qed
  moreover have "job_key j = k' \<and> k' \<notin> D" if "((pmap q)(k := None)) k' = Some j" for k' j
    using that q_coreD(1,2) [OF core, of k' j] D by (auto split: if_splits)
  moreover have "distinct (dict_keys (q_pending ?q))" using core by (simp add: q_core_def)
  ultimately show ?thesis unfolding q_core_def using distinct_drop [of ?q k] by (simp add: p)
qed

lemma drop_core': "q_core q \<Longrightarrow> q_core (snd (drop_pending k q))"
  using drop_core [of q "q_done q" k] by simp

lemma q_covers_drop: "q_covers es q \<Longrightarrow> q_covers es (snd (drop_pending k q))"
  unfolding q_covers_def by auto

lemma drop_inv: "aq_inv_with es q \<Longrightarrow> aq_inv_with es (snd (drop_pending k q))"
  by (simp add: aq_inv_with_def drop_core' q_covers_drop)

lemma drop_done_inv:
  "aq_inv_with es q \<Longrightarrow> aq_inv_with es (snd (drop_pending k (q\<lparr>q_done := insert k (q_done q)\<rparr>)))"
proof -
  assume i: "aq_inv_with es q"
  then have "q_covers es (q\<lparr>q_done := insert k (q_done q)\<rparr>)" by (simp add: aq_inv_with_def q_covers_def pmap_def)
  then show ?thesis using i by (simp add: aq_inv_with_def drop_core q_covers_drop)
qed

section \<open>Heap maintenance\<close>

lemma push_heap_simps [simp]:
  "q_pending (push_heap k p q) = q_pending q" "q_by_label (push_heap k p q) = q_by_label q"
  "q_done (push_heap k p q) = q_done q" "q_weights (push_heap k p q) = q_weights q"
  "q_excluded (push_heap k p q) = q_excluded q" "q_all_domains (push_heap k p q) = q_all_domains q"
  "q_cluster_index (push_heap k p q) = q_cluster_index q" "q_metrics (push_heap k p q) = q_metrics q"
  "q_epsilon (push_heap k p q) = q_epsilon q" "q_rng (push_heap k p q) = q_rng q"
  "pmap (push_heap k p q) = pmap q" "q_core (push_heap k p q) = q_core q"
  by (simp_all add: push_heap_def pmap_def q_core_def lbl_def)

lemma push_heap_covers: "q_covers es (push_heap k p q) \<longleftrightarrow> dom (pmap q) \<subseteq> insert k (he_key ` (set (q_heap q) \<union> set es))"
  unfolding q_covers_def push_heap_simps by (simp add: push_heap_def)

lemma push_heap_is_heap: "is_heap entry_ord (q_heap q) \<Longrightarrow> is_heap entry_ord (q_heap (push_heap k p q))"
  by (simp add: push_heap_def heappush_heap)

lemma push_heap_inv: "aq_inv_with es q \<Longrightarrow> aq_inv_with es (push_heap k p q)"
  unfolding aq_inv_with_def push_heap_covers by (auto simp: push_heap_is_heap q_covers_def)

lemma foldl_heappush:
  "set (foldl (heappush entry_ord) h es) = set h \<union> set es"
  "is_heap entry_ord h \<Longrightarrow> is_heap entry_ord (foldl (heappush entry_ord) h es)"
  using hq.push_many_elems [of entry_ord h es] hq.push_many_invar [of entry_ord h es]
  by (metis set_mset_mset set_mset_union sup_commute, simp)

lemma push_all_simps [simp]:
  "q_pending (push_all es q) = q_pending q" "q_by_label (push_all es q) = q_by_label q"
  "q_done (push_all es q) = q_done q" "q_weights (push_all es q) = q_weights q"
  "q_excluded (push_all es q) = q_excluded q" "q_all_domains (push_all es q) = q_all_domains q"
  "q_cluster_index (push_all es q) = q_cluster_index q" "q_metrics (push_all es q) = q_metrics q"
  "q_epsilon (push_all es q) = q_epsilon q" "q_rng (push_all es q) = q_rng q"
  "pmap (push_all es q) = pmap q" "q_core (push_all es q) = q_core q"
  by (simp_all add: push_all_def pmap_def q_core_def lbl_def)

lemma push_all_inv: "aq_inv_with es q \<Longrightarrow> aq_inv (push_all es q)"
  by (simp add: aq_inv_with_def q_covers_def) (simp add: push_all_def foldl_heappush)

lemma keys_rebuilt [simp]: "map he_key (rebuilt_entries q n d) = dict_keys d"
  by (induction q n d rule: rebuilt_entries.induct) simp_all

lemma set_keys_rebuilt: "he_key ` set (rebuilt_entries q n d) = set (dict_keys d)"
  by (metis keys_rebuilt list.set_map)

lemma rebuild_simps [simp]:
  "q_pending (rebuild_heap q) = q_pending q" "q_by_label (rebuild_heap q) = q_by_label q"
  "q_done (rebuild_heap q) = q_done q" "q_weights (rebuild_heap q) = q_weights q"
  "q_excluded (rebuild_heap q) = q_excluded q" "q_all_domains (rebuild_heap q) = q_all_domains q"
  "q_cluster_index (rebuild_heap q) = q_cluster_index q" "q_metrics (rebuild_heap q) = q_metrics q"
  "pmap (rebuild_heap q) = pmap q" "q_core (rebuild_heap q) = q_core q"
  by (simp_all add: rebuild_heap_def Let_def pmap_def q_core_def lbl_def)

lemma rebuild_inv: "q_core q \<Longrightarrow> aq_inv (rebuild_heap q)"
  by (simp add: aq_inv_with_def q_covers_def dom_pmap)
    (simp add: rebuild_heap_def Let_def heapify_heap set_keys_rebuilt)

lemma compact_cases: "maybe_compact_heap q = q \<or> maybe_compact_heap q = rebuild_heap q"
  by (simp add: maybe_compact_heap_def Let_def)

lemma compact_inv: "aq_inv q \<Longrightarrow> aq_inv (maybe_compact_heap q)"
  using compact_cases [of q] rebuild_inv [of q] by (auto simp: aq_inv_with_def)

lemma compact_simps [simp]:
  "q_pending (maybe_compact_heap q) = q_pending q" "q_done (maybe_compact_heap q) = q_done q"
  "q_excluded (maybe_compact_heap q) = q_excluded q" "q_weights (maybe_compact_heap q) = q_weights q"
  "q_all_domains (maybe_compact_heap q) = q_all_domains q" "pmap (maybe_compact_heap q) = pmap q"
  "q_cluster_index (maybe_compact_heap q) = q_cluster_index q" "q_metrics (maybe_compact_heap q) = q_metrics q"
  using compact_cases [of q] by (metis rebuild_simps)+

lemma maybe_rebuild_inv:
  assumes i: "aq_inv q"
  shows "aq_inv (maybe_rebuild_heap q)"
proof -
  have c: "aq_inv (q\<lparr>q_rebuild_counter := n\<rparr>)" for n using i by (rule aq_inv_frame) simp_all
  then have "aq_inv (rebuild_heap (q\<lparr>q_rebuild_counter := n\<rparr>))" for n
    using rebuild_inv by (simp add: aq_inv_with_def)
  then have "aq_inv ((rebuild_heap (q\<lparr>q_rebuild_counter := n\<rparr>))\<lparr>q_rebuild_counter := 0\<rparr>)" for n
    by (rule aq_inv_frame) simp_all
  then show ?thesis using i c by (simp add: maybe_rebuild_heap_def Let_def)
qed

lemma maybe_rebuild_simps [simp]:
  "q_pending (maybe_rebuild_heap q) = q_pending q" "q_done (maybe_rebuild_heap q) = q_done q"
  "q_excluded (maybe_rebuild_heap q) = q_excluded q" "q_weights (maybe_rebuild_heap q) = q_weights q"
  "q_all_domains (maybe_rebuild_heap q) = q_all_domains q"
  "q_cluster_index (maybe_rebuild_heap q) = q_cluster_index q" "q_metrics (maybe_rebuild_heap q) = q_metrics q"
  by (simp_all add: maybe_rebuild_heap_def Let_def)

section \<open>Adding jobs\<close>

lemma enqueue_no: "pmap q (job_key j) \<noteq> None \<or> job_key j \<in> q_done q \<Longrightarrow> enqueue j q = (False, q)"
  using keys_iff [of "job_key j" q] unfolding enqueue_def by auto

lemma enqueue_yes:
  assumes "pmap q (job_key j) = None" "job_key j \<notin> q_done q"
  obtains q' where "enqueue j q = (True, q')" "pmap q' = (pmap q)(job_key j \<mapsto> j)" "q_done q' = q_done q"
    "q_excluded q' = q_excluded q" "q_weights q' = q_weights q" "q_all_domains q' = q_all_domains q"
    "q_cluster_index q' = q_cluster_index q" "aq_inv q \<Longrightarrow> aq_inv q'"
proof -
  let ?k = "job_key j"
  define q1 where "q1 = q\<lparr>q_pending := dict_set ?k j (q_pending q),
     q_by_label := label_add ?k (si_label (aj_item j)) (q_by_label q)\<rparr>"
  define q2 where "q2 = push_heap ?k (job_priority q j) q1"
  define q' where "q' = q2\<lparr>q_metrics := (q_metrics q2)\<lparr>am_total_enqueued := Suc (am_total_enqueued (q_metrics q2))\<rparr>\<rparr>"
  have p1: "pmap q1 = (pmap q)(?k \<mapsto> j)" by (simp add: q1_def pmap_def fun_eq_iff map_of_update')
  have l1: "lbl q1 l = lbl q l \<union> (if l = si_label (aj_item j) then {?k} else {})" for l
    by (auto simp: q1_def lbl_def label_add_def dict_getd_def map_of_update')
  have core: "q_core q1" if "q_core q"
  proof -
    have "distinct (dict_keys (q_pending q1))" using that by (simp add: q1_def distinct_update q_core_def)
    moreover have "lbl q1 l = {k \<in> dom (pmap q1). fst k = l}" for l
    proof -
      have "lbl q l = {k \<in> dom (pmap q). fst k = l}" using that by (simp add: q_core_def)
      then show ?thesis by (auto simp: l1 p1 job_key_def)
    qed
    moreover have "job_key j' = k \<and> k \<notin> q_done q1" if "pmap q1 k = Some j'" for k j'
    proof (cases "k = ?k")
      case True
      then show ?thesis using that assms by (simp add: p1) (simp add: q1_def)
    next
      case False
      then have "pmap q k = Some j'" using that by (simp add: p1)
      then show ?thesis using q_coreD(1,2) [OF \<open>q_core q\<close>] by (simp add: q1_def)
    qed
    ultimately show ?thesis unfolding q_core_def by blast
  qed
  have "aq_inv q'" if "aq_inv q"
  proof -
    have h1: "q_heap q1 = q_heap q" by (simp add: q1_def)
    have "dom (pmap q1) \<subseteq> insert ?k (he_key ` (set (q_heap q1) \<union> set []))"
      using that unfolding p1 h1 aq_inv_with_def q_covers_def by auto
    then have "q_covers [] q2" unfolding q2_def push_heap_covers .
    moreover have "is_heap entry_ord (q_heap q2)"
      using that unfolding q2_def by (intro push_heap_is_heap) (simp add: q1_def aq_inv_with_def)
    ultimately have "aq_inv q2" using core that by (simp add: aq_inv_with_def q2_def)
    then show ?thesis by (rule aq_inv_frame) (simp_all add: q'_def)
  qed
  moreover have "enqueue j q = (True, q')"
    using assms keys_iff [of ?k q] by (simp add: enqueue_def Let_def q1_def q2_def q'_def)
  moreover have "pmap q' = (pmap q)(?k \<mapsto> j)"
    using p1 by (simp add: q'_def q2_def pmap_def)
  ultimately show ?thesis
    by (rule_tac that) (simp_all add: q'_def q2_def q1_def)
qed

lemma enqueue_inv: "aq_inv q \<Longrightarrow> aq_inv (snd (enqueue j q))"
  by (cases "pmap q (job_key j) = None \<and> job_key j \<notin> q_done q")
    (metis enqueue_yes snd_conv, metis enqueue_no snd_conv)

lemma enqueue_many_inv: "aq_inv q \<Longrightarrow> aq_inv (snd (enqueue_many js q))"
proof (induction js arbitrary: q)
  case (Cons j js)
  obtain b q1 where 1: "enqueue j q = (b, q1)" by fastforce
  then have "aq_inv q1" using enqueue_inv [OF Cons.prems, of j] by simp
  then show ?case using Cons.IH [of q1] 1 by (cases "enqueue_many js q1") simp
qed simp

section \<open>The effect of a pop\<close>

text \<open>
  What a pop may do to the queue: it only removes pending jobs; a job that disappears is the
  one returned, or belongs to an excluded domain and is recorded as done; nothing else
  becomes done.
\<close>

definition frame :: "AdaptiveJobQueue \<Rightarrow> AdaptiveJobQueue \<Rightarrow> bool" where
  "frame q q' = (q_weights q' = q_weights q \<and> q_excluded q' = q_excluded q \<and> q_all_domains q' = q_all_domains q \<and>
     q_cluster_index q' = q_cluster_index q \<and> q_metrics q' = q_metrics q)"

definition only_drops :: "AdaptiveJobQueue \<Rightarrow> AdaptiveJob option \<Rightarrow> AdaptiveJobQueue \<Rightarrow> bool" where
  "only_drops q r q' =
     (pmap q' \<subseteq>\<^sub>m pmap q \<and>
      (\<forall>k j. pmap q k = Some j \<and> pmap q' k = None \<longrightarrow> r = Some j \<or> aj_domain j \<in> q_excluded q \<and> k \<in> q_done q') \<and>
      q_done q \<subseteq> q_done q' \<and>
      (\<forall>k. k \<in> q_done q' - q_done q \<longrightarrow> (\<exists>j. pmap q k = Some j \<and> aj_domain j \<in> q_excluded q)) \<and>
      frame q q')"

definition returned_ok :: "AdaptiveJobQueue \<Rightarrow> AdaptiveJob option \<Rightarrow> AdaptiveJobQueue \<Rightarrow> bool" where
  "returned_ok q r q' =
     (case r of None \<Rightarrow> True
      | Some j \<Rightarrow> pmap q (job_key j) = Some j \<and> aj_domain j \<notin> q_excluded q \<and> pmap q' (job_key j) = None)"

definition pop_effect :: "AdaptiveJobQueue \<Rightarrow> AdaptiveJob option \<Rightarrow> AdaptiveJobQueue \<Rightarrow> bool" where
  "pop_effect q r q' = (only_drops q r q' \<and> returned_ok q r q')"

lemma only_drops_refl: "only_drops q None q"
  by (auto simp: only_drops_def frame_def)

lemma pop_effect_None: "pop_effect q None q"
  by (simp add: pop_effect_def only_drops_refl returned_ok_def)

text \<open>The effect depends on these fields of the start and end states only.\<close>

definition same_jobs :: "AdaptiveJobQueue \<Rightarrow> AdaptiveJobQueue \<Rightarrow> bool" where
  "same_jobs q q' = (pmap q' = pmap q \<and> q_done q' = q_done q \<and> frame q q')"

lemma pop_effect_start: "same_jobs q q1 \<Longrightarrow> pop_effect q1 r q' \<Longrightarrow> pop_effect q r q'"
  by (simp add: pop_effect_def only_drops_def returned_ok_def same_jobs_def frame_def split: option.splits)

lemma pop_effect_end: "same_jobs q1 q' \<Longrightarrow> pop_effect q r q1 \<Longrightarrow> pop_effect q r q'"
  by (auto simp: pop_effect_def only_drops_def returned_ok_def same_jobs_def frame_def split: option.splits)

lemma pop_effect_drop:
  assumes "q_core q" "pmap q k = Some j" "aj_domain j \<notin> q_excluded q"
  shows "pop_effect q (Some j) (snd (drop_pending k q))"
  using assms q_coreD(1) [OF assms(1,2)]
  by (auto simp: pop_effect_def only_drops_def returned_ok_def frame_def map_le_def split: if_splits)

lemma pop_effect_exclude:
  fixes k
  assumes "q_core q" "pmap q k = Some j" "aj_domain j \<in> q_excluded q"
    and q1: "q1 = snd (drop_pending k (q\<lparr>q_done := insert k (q_done q)\<rparr>))" and "pop_effect q1 r q'"
  shows "pop_effect q r q'"
proof -
  have p: "pmap q1 = (pmap q)(k := None)" unfolding q1 by simp
  have d: "q_done q1 = insert k (q_done q)" and f: "frame q q1" unfolding q1 by (simp_all add: frame_def)
  have o: "only_drops q1 r q'" and ret: "returned_ok q1 r q'" using assms(5) by (simp_all add: pop_effect_def)
  have "pmap q' \<subseteq>\<^sub>m (pmap q)(k := None)" using o unfolding only_drops_def p by blast
  then have "pmap q' \<subseteq>\<^sub>m pmap q" by (rule map_le_trans) (rule upd_None_map_le)
  moreover have "r = Some j' \<or> aj_domain j' \<in> q_excluded q \<and> k' \<in> q_done q'"
    if "pmap q k' = Some j'" "pmap q' k' = None" for k' j'
  proof (cases "k' = k")
    case True
    then show ?thesis using that assms(2,3) o d by (auto simp: only_drops_def)
  next
    case False
    then show ?thesis using that o f unfolding only_drops_def p frame_def by (metis fun_upd_other)
  qed
  moreover have "q_done q \<subseteq> q_done q'" "frame q q'" using o d f by (auto simp: only_drops_def frame_def)
  moreover have "\<exists>j. pmap q k' = Some j \<and> aj_domain j \<in> q_excluded q" if "k' \<in> q_done q' - q_done q" for k'
    using that o assms(2,3) f unfolding only_drops_def p d frame_def by (cases "k' = k") auto
  moreover have "returned_ok q r q'" using ret f unfolding returned_ok_def p frame_def
    by (auto split: option.splits if_splits)
  ultimately show ?thesis unfolding pop_effect_def only_drops_def by blast
qed

section \<open>The fallback over soft-excluded jobs\<close>

lemma heappop_Nil [simp]: "heappop key [] = None"
  by simp

definition skipped_ok :: "HeapEntry list \<Rightarrow> AdaptiveJobQueue \<Rightarrow> bool" where
  "skipped_ok es q = (\<forall>e \<in> set es. \<exists>j. pmap q (he_key e) = Some j \<and> aj_domain j \<notin> q_excluded q)"

lemma pop_fallback_main:
  assumes inv: "aq_inv_with es q" and sk: "skipped_ok es q" and empty: "q_heap q = []"
    and pop: "pop_fallback es q = (r, q')"
  shows "aq_inv q' \<and> pop_effect q r q' \<and> (r = None \<longrightarrow> pmap q' = Map.empty)"
proof (cases "heappop entry_ord es")
  case None
  then have es: "es = []" by simp
  then have "r = None" "q' = q" using pop None by (simp_all add: pop_fallback.simps heappop_def)
  then show ?thesis using inv es empty by (auto simp: pop_effect_None aq_inv_with_def q_covers_def)
next
  case (Some er)
  obtain e rest where er: "er = (e, rest)" by fastforce
  then have set_es: "set es = insert e (set rest)" using Some heappop_set [of entry_ord es e rest] by simp
  then obtain j where j: "pmap q (he_key e) = Some j" "aj_domain j \<notin> q_excluded q"
    using sk by (auto simp: skipped_ok_def)
  define q1 where "q1 = snd (drop_pending (he_key e) q)"
  have dp: "drop_pending (he_key e) q = (Some j, q1)" using j(1) by (simp add: prod_eq_iff q1_def)
  have r: "r = Some j" "q' = push_all rest q1"
    using pop Some er dp by (simp_all add: pop_fallback.simps [of es])
  have "q_covers rest q1"
    using inv set_es unfolding aq_inv_with_def q_covers_def q1_def by auto
  then have "aq_inv_with rest q1" using inv drop_core' empty by (simp add: aq_inv_with_def q1_def)
  then have "aq_inv q'" using push_all_inv r by blast
  moreover have "pop_effect q r q'"
    using pop_effect_end [OF _ pop_effect_drop [OF _ j]] r inv by (simp add: same_jobs_def frame_def aq_inv_with_def q1_def)
  ultimately show ?thesis using r by simp
qed

section \<open>The heap loop\<close>

definition stale_in :: "AdaptiveJobQueue \<Rightarrow> HeapEntry \<Rightarrow> bool" where
  "stale_in q e = (case pmap q (he_key e) of None \<Rightarrow> False | Some j \<Rightarrow> entry_stale q e j)"

definition loop_size :: "AdaptiveJobQueue \<Rightarrow> nat" where
  "loop_size q = length (q_heap q) + size (filter_mset (stale_in q) (mset (q_heap q)))"

lemma loop_size_le: "loop_size q \<le> 2 * length (q_heap q)"
  using size_mset_mono [OF multiset_filter_subset [of "stale_in q" "mset (q_heap q)"]] by (simp add: loop_size_def)

lemma job_priority_cong: "q_weights q' = q_weights q \<Longrightarrow> job_priority q' = job_priority q"
  by (simp add: job_priority_def fun_eq_iff)

lemma stale_in_mono:
  "q_weights q' = q_weights q \<Longrightarrow> pmap q' \<subseteq>\<^sub>m pmap q \<Longrightarrow> stale_in q' e \<Longrightarrow> stale_in q e"
  by (auto simp: stale_in_def entry_stale_def job_priority_def map_le_def domIff split: option.splits)
     (metis domI option.distinct(1) option.inject)+

lemma size_filter_mono: "(\<And>x. P x \<Longrightarrow> Q x) \<Longrightarrow> size (filter_mset P M) \<le> size (filter_mset Q M)"
  by (induction M) (auto simp: le_SucI)

lemma loop_size_pop:
  assumes "heappop entry_ord (q_heap q) = Some (e, h)" "q_heap q' = h"
    "q_weights q' = q_weights q" "pmap q' \<subseteq>\<^sub>m pmap q"
  shows "loop_size q' < loop_size q"
proof -
  have m: "mset (q_heap q) = add_mset e (mset h)" using assms(1) by (rule mset_heappop)
  have "size (filter_mset (stale_in q') (mset h)) \<le> size (filter_mset (stale_in q) (mset h))"
    using stale_in_mono [OF assms(3,4)] by (rule size_filter_mono)
  moreover have "length (q_heap q) = Suc (length h)" using assms(1) by (rule heappop_length)
  ultimately show ?thesis using m assms(2) by (simp add: loop_size_def)
qed

lemma loop_size_refresh:
  assumes "heappop entry_ord (q_heap q) = Some (e, h)" "pmap q (he_key e) = Some j" "job_key j = he_key e"
    "entry_stale q e j" and q1: "q1 = q\<lparr>q_heap := h\<rparr>"
  shows "loop_size (refresh_stale_entry j q1) < loop_size q"
proof -
  let ?q' = "refresh_stale_entry j q1"
  let ?e = "\<lparr>he_neg_priority = - job_priority q j, he_seq = Suc (q_seq q), he_key = job_key j\<rparr>"
  have p: "pmap ?q' = pmap q" "q_weights ?q' = q_weights q"
    by (simp_all add: refresh_stale_entry_def q1 pmap_def)
  have pri: "job_priority q1 = job_priority q" "job_priority ?q' = job_priority q"
    by (rule job_priority_cong, simp add: q1, rule job_priority_cong, rule p)
  have st: "stale_in ?q' = stale_in q" by (rule ext) (simp add: stale_in_def entry_stale_def p pri split: option.splits)
  have h: "mset (q_heap ?q') = add_mset ?e (mset h)"
    by (simp add: refresh_stale_entry_def push_heap_def q1 pri(1) [unfolded q1])
  have m: "mset (q_heap q) = add_mset e (mset h)" using assms(1) by (rule mset_heappop)
  have "\<not> stale_in q ?e" using assms(2,3) by (simp add: stale_in_def entry_stale_def)
  moreover have "stale_in q e" using assms(2,4) by (simp add: stale_in_def)
  moreover have "length (q_heap ?q') = length (q_heap q)" by (metis h m size_add_mset size_mset)
  ultimately show ?thesis unfolding loop_size_def st h m by simp
qed

lemma skipped_ok_mono:
  "skipped_ok es q \<Longrightarrow> pmap q' = pmap q \<Longrightarrow> q_excluded q' = q_excluded q \<Longrightarrow> skipped_ok es q'"
  by (simp add: skipped_ok_def)

lemma pop_loop_main:
  "aq_inv_with es q \<Longrightarrow> skipped_ok es q \<Longrightarrow> loop_size q < n \<Longrightarrow> pop_loop n exclude es q = (r, q') \<Longrightarrow>
   aq_inv q' \<and> pop_effect q r q' \<and> (r = None \<longrightarrow> pmap q' = Map.empty)"
proof (induction n arbitrary: es q)
  case 0
  then show ?case by simp
next
  case (Suc n)
  note inv = Suc.prems(1) and sk = Suc.prems(2) and sz = Suc.prems(3) and run = Suc.prems(4)
  have core: "q_core q" using inv by (simp add: aq_inv_with_def)
  show ?case
  proof (cases "heappop entry_ord (q_heap q)")
    case None
    then show ?thesis using pop_fallback_main [OF inv sk] run by simp
  next
    case (Some eh)
    obtain e h where eh: "heappop entry_ord (q_heap q) = Some (e, h)" using Some by (cases eh) auto
    define q1 where "q1 = q\<lparr>q_heap := h\<rparr>"
    have p1: "pmap q1 = pmap q" "same_jobs q q1" "q_excluded q1 = q_excluded q" "q_heap q1 = h"
      "q_weights q1 = q_weights q" "q_done q1 = q_done q" "q_core q1"
      using core by (simp_all add: q1_def pmap_def same_jobs_def frame_def q_core_def lbl_def)
    have heap: "is_heap entry_ord h" "set (q_heap q) = insert e (set h)"
      using inv heappop_heap [OF _ eh] heappop_set [OF eh] by (simp_all add: aq_inv_with_def)
    have cov: "q_covers es' q1" if "he_key e \<in> dom (pmap q) \<Longrightarrow> he_key e \<in> he_key ` set es'" "set es \<subseteq> set es'" for es'
      using inv that unfolding aq_inv_with_def q_covers_def p1 heap(2) by blast
    have inv1: "aq_inv_with es' q1" if "he_key e \<in> dom (pmap q) \<Longrightarrow> he_key e \<in> he_key ` set es'" "set es \<subseteq> set es'" for es'
      using cov [OF that] heap(1) p1 by (simp add: aq_inv_with_def)
    have sz1: "loop_size q' < n" if "q_heap q' = h" "q_weights q' = q_weights q" "pmap q' \<subseteq>\<^sub>m pmap q" for q'
      using loop_size_pop [OF eh that] sz by simp
    have lt1: "loop_size q1 < n" using p1 by (intro sz1) simp_all
    show ?thesis
    proof (cases "pmap q (he_key e)")
      case None
      then have "pop_loop n exclude es q1 = (r, q')" using run eh by (simp add: q1_def pmap_def)
      moreover have "aq_inv_with es q1" using None by (intro inv1) auto
      ultimately show ?thesis
        using Suc.IH [of es q1] skipped_ok_mono [OF sk p1(1,3)] lt1 pop_effect_start [OF p1(2)] by blast
    next
      case (Some j)
      have jk: "job_key j = he_key e" using q_coreD(1) [OF core Some] .
      have get: "dict_get (q_pending q) (he_key e) = Some j" using Some by (simp add: pmap_def)
      consider (stale) "entry_stale q1 e j" | (hard) "\<not> entry_stale q1 e j" "aj_domain j \<in> q_excluded q"
        | (soft) "\<not> entry_stale q1 e j" "aj_domain j \<notin> q_excluded q" "aj_domain j \<in> exclude"
        | (take) "\<not> entry_stale q1 e j" "aj_domain j \<notin> q_excluded q" "aj_domain j \<notin> exclude" by blast
      then show ?thesis
      proof cases
        case stale
        let ?q2 = "refresh_stale_entry j q1"
        have "pop_loop n exclude es ?q2 = (r, q')" using run eh get stale by (simp add: q1_def)
        moreover have "aq_inv_with es ?q2"
        proof -
          have "dom (pmap q1) \<subseteq> insert (job_key j) (he_key ` (set (q_heap q1) \<union> set es))"
            using inv unfolding aq_inv_with_def q_covers_def p1 heap(2) jk by auto
          then have "q_covers es ?q2" unfolding refresh_stale_entry_def push_heap_covers .
          then show ?thesis using heap(1) p1 by (simp add: aq_inv_with_def refresh_stale_entry_def push_heap_is_heap)
        qed
        moreover have "same_jobs q ?q2" using p1 by (simp add: same_jobs_def frame_def refresh_stale_entry_def)
        moreover have "loop_size ?q2 < n"
        proof -
          have "entry_stale q e j" using stale by (simp add: entry_stale_def job_priority_def q1_def)
          then show ?thesis using loop_size_refresh [OF eh Some jk _ q1_def] sz by simp
        qed
        moreover have "skipped_ok es ?q2" using skipped_ok_mono [OF sk] p1 by (simp add: refresh_stale_entry_def)
        ultimately show ?thesis using Suc.IH [of es ?q2] pop_effect_start by blast
      next
        case hard
        let ?q2 = "snd (drop_pending (job_key j) (q1\<lparr>q_done := insert (job_key j) (q_done q1)\<rparr>))"
        have run2: "pop_loop n exclude es ?q2 = (r, q')" using run eh get hard by (simp add: q1_def)
        have pm2: "pmap ?q2 = (pmap q)(job_key j := None)" using p1(1) by simp
        have "q_core ?q2" using drop_core [OF p1(7)] by blast
        moreover have "q_covers es ?q2"
          using inv unfolding aq_inv_with_def q_covers_def pm2 jk by (auto simp: p1 heap(2))
        ultimately have inv2: "aq_inv_with es ?q2" using heap(1) p1(4) by (simp add: aq_inv_with_def)
        have sk2: "skipped_ok es ?q2"
          using sk Some hard(2) jk unfolding skipped_ok_def pm2 by (auto simp: p1)
        have "loop_size ?q2 < n" using p1 by (intro sz1) (simp_all add: pm2 upd_None_map_le)
        from Suc.IH [OF inv2 sk2 this run2]
        have "aq_inv q' \<and> pop_effect ?q2 r q' \<and> (r = None \<longrightarrow> pmap q' = Map.empty)" .
        moreover have "pop_effect q1 r q'"
          using pop_effect_exclude [of q1 "job_key j" j ?q2 r q'] calculation Some hard(2) jk p1 by simp
        ultimately show ?thesis using p1(2) pop_effect_start by blast
      next
        case soft
        have "pop_loop n exclude (es @ [e]) q1 = (r, q')" using run eh get soft by (simp add: q1_def)
        moreover have "aq_inv_with (es @ [e]) q1" by (rule inv1) auto
        moreover have "skipped_ok (es @ [e]) q1" using sk Some soft p1 by (auto simp: skipped_ok_def)
        ultimately show ?thesis using Suc.IH [of "es @ [e]" q1] lt1 pop_effect_start [OF p1(2)] by blast
      next
        case take
        let ?q2 = "snd (drop_pending (job_key j) q1)"
        have r: "r = Some j" "q' = push_all es ?q2" using run eh get take by (auto simp: q1_def)
        have "q_covers es ?q2"
          using inv unfolding aq_inv_with_def q_covers_def pmap_drop p1 jk by (auto simp: p1 heap(2))
        then have "aq_inv_with es ?q2" using drop_core' [OF p1(7)] heap(1) p1(4) by (simp add: aq_inv_with_def)
        moreover have "pop_effect q1 r ?q2" using pop_effect_drop [OF p1(7), of "job_key j" j] Some jk p1 take(2) r by simp
        moreover have "same_jobs ?q2 q'" using r by (simp add: same_jobs_def frame_def)
        ultimately show ?thesis using r push_all_inv pop_effect_end pop_effect_start [OF p1(2)] by blast
      qed
    qed
  qed
qed

section \<open>Random picks\<close>

text \<open>What \<open>randint(1, hi)\<close> promises.\<close>

definition rng_ok :: "rng_state \<Rightarrow> bool" where
  "rng_ok rng = (\<forall>n hi. 1 \<le> hi \<longrightarrow> 1 \<le> rng_int rng n hi \<and> rng_int rng n hi \<le> hi)"

lemma reservoir_sound:
  "reservoir skip d rng cnt chosen = (rng', cnt', c) \<Longrightarrow>
   c = chosen \<or> (\<exists>k j. c = Some k \<and> (k, j) \<in> set d \<and> \<not> skip (aj_domain j))"
proof (induction skip d rng cnt chosen rule: reservoir.induct)
  case (2 skip k j d rng cnt chosen)
  then show ?case by (auto split: if_splits)
qed simp

lemma reservoir_count:
  "reservoir skip d rng cnt chosen = (rng', cnt', c) \<Longrightarrow>
   cnt' = cnt + length (filter (\<lambda>(k, j). \<not> skip (aj_domain j)) d)"
  by (induction skip d rng cnt chosen rule: reservoir.induct) (auto split: if_splits)

lemma reservoir_keeps_Some:
  "reservoir skip d rng cnt (Some k0) = (rng', cnt', c) \<Longrightarrow> c \<noteq> None"
proof (induction d arbitrary: rng cnt k0)
  case (Cons kj d)
  then show ?case by (cases kj) (auto split: if_splits)
qed auto

lemma rng_ok_pos [simp]: "rng_ok (rng\<lparr>rng_pos := n\<rparr>) = rng_ok rng"
  by (simp add: rng_ok_def)

lemma reservoir_rng: "reservoir skip d rng cnt chosen = (rng', cnt', c) \<Longrightarrow> rng_ok rng' = rng_ok rng"
  by (induction skip d rng cnt chosen rule: reservoir.induct) (auto split: if_splits)

lemma reservoir_complete:
  assumes "reservoir skip d rng 0 chosen = (rng', cnt', c)" "rng_ok rng"
    "(k, j) \<in> set d" "\<not> skip (aj_domain j)"
  shows "c \<noteq> None"
  using assms
proof (induction d arbitrary: rng)
  case (Cons kj d)
  obtain k' j' where kj: "kj = (k', j')" by fastforce
  show ?case
  proof (cases "skip (aj_domain j')")
    case True
    then show ?thesis using Cons kj by auto
  next
    case False
    have "rng_int rng (rng_pos rng) 1 = 1"
      using Cons.prems(2) unfolding rng_ok_def by (metis le_antisym order_refl)
    then show ?thesis using Cons.prems(1) False kj reservoir_keeps_Some by auto
  qed
qed simp

lemma pmap_mem: "q_core q \<Longrightarrow> (k, j) \<in> set (q_pending q) \<longleftrightarrow> pmap q k = Some j"
  by (simp add: q_core_def pmap_def)

lemma epsilon_pick_sound:
  assumes "epsilon_pick_key ex q = (Some k, q1)" "q_core q" "q_excluded q \<subseteq> ex"
  shows "\<exists>j. pmap q k = Some j \<and> aj_domain j \<notin> q_excluded q"
proof -
  obtain rng1 cnt c where r1: "reservoir (\<lambda>d. d \<in> ex) (q_pending q) (q_rng q) 0 None = (rng1, cnt, c)"
    by (metis prod_cases3)
  obtain rng2 cnt2 c2 where r2: "reservoir (\<lambda>d. d \<in> q_excluded q) (q_pending q) rng1 0 c = (rng2, cnt2, c2)"
    by (metis prod_cases3)
  have s1: "c = None \<or> (\<exists>k j. c = Some k \<and> pmap q k = Some j \<and> aj_domain j \<notin> q_excluded q)"
    using reservoir_sound [OF r1] pmap_mem [OF assms(2)] assms(3) by blast
  have s2: "c2 = c \<or> (\<exists>k j. c2 = Some k \<and> pmap q k = Some j \<and> aj_domain j \<notin> q_excluded q)"
    using reservoir_sound [OF r2] pmap_mem [OF assms(2)] by blast
  have "Some k = c \<or> Some k = c2" using assms(1) r1 r2 by (auto simp: epsilon_pick_key_def split: if_splits)
  then show ?thesis using s1 s2 by auto
qed

lemma epsilon_pick_complete:
  assumes "rng_ok (q_rng q)" "q_core q" "pmap q k = Some j" "aj_domain j \<notin> q_excluded q"
  shows "fst (epsilon_pick_key ex q) \<noteq> None"
proof -
  obtain rng1 cnt c where r1: "reservoir (\<lambda>d. d \<in> ex) (q_pending q) (q_rng q) 0 None = (rng1, cnt, c)"
    by (metis prod_cases3)
  obtain rng2 cnt2 c2 where r2: "reservoir (\<lambda>d. d \<in> q_excluded q) (q_pending q) rng1 0 c = (rng2, cnt2, c2)"
    by (metis prod_cases3)
  have "c \<noteq> None" if "cnt \<noteq> 0"
  proof -
    have "filter (\<lambda>(k, j). aj_domain j \<notin> ex) (q_pending q) \<noteq> []"
      using reservoir_count [OF r1] that by auto
    then obtain kj where "kj \<in> set (q_pending q)" "aj_domain (snd kj) \<notin> ex" by (auto simp: filter_empty_conv)
    then show ?thesis using reservoir_complete [OF r1 assms(1), of "fst kj" "snd kj"] by simp
  qed
  moreover have "c2 \<noteq> None"
    using reservoir_complete [OF r2, of k j] reservoir_rng [OF r1] assms pmap_mem [OF assms(2)] by simp
  ultimately show ?thesis using r1 r2 by (auto simp: epsilon_pick_key_def)
qed

lemma epsilon_pick_frame:
  "epsilon_pick_key ex q = (c, q1) \<Longrightarrow> \<exists>rng. q1 = q\<lparr>q_rng := rng\<rparr>"
  by (auto simp: epsilon_pick_key_def split: prod.splits if_splits)

lemma rng_frame [simp]:
  "same_jobs q (q\<lparr>q_rng := rng\<rparr>)" "aq_inv_with es (q\<lparr>q_rng := rng\<rparr>) = aq_inv_with es q" "q_core (q\<lparr>q_rng := rng\<rparr>) = q_core q"
  by (simp_all add: same_jobs_def frame_def pmap_def aq_inv_with_def q_core_def q_covers_def lbl_def)

lemma pop_random_main:
  assumes inv: "aq_inv q" and sub: "q_excluded q \<subseteq> ex" and pop: "pop_random ex q = (r, q')"
  shows "aq_inv q' \<and> pop_effect q r q'"
proof -
  obtain c q1 where c: "epsilon_pick_key ex q = (c, q1)" by fastforce
  then obtain rng where q1: "q1 = q\<lparr>q_rng := rng\<rparr>" using epsilon_pick_frame by blast
  have core: "q_core q" "q_core q1" using inv by (simp_all add: aq_inv_with_def q1)
  show ?thesis
  proof (cases c)
    case None
    then have "r = None" "q' = q1" using pop c by (simp_all add: pop_random_def)
    then show ?thesis using inv pop_effect_end [OF _ pop_effect_None] by (simp add: q1)
  next
    case (Some k)
    then obtain j where j: "pmap q k = Some j" "aj_domain j \<notin> q_excluded q"
      using epsilon_pick_sound c core sub by blast
    have j1: "pmap q1 k = Some j" "aj_domain j \<notin> q_excluded q1" using j by (simp_all add: q1)
    have r: "r = Some j" "q' = snd (drop_pending k q1)"
      using pop c Some j1(1) by (simp_all add: pop_random_def prod_eq_iff)
    have "pop_effect q1 r q'" using pop_effect_drop [OF core(2) j1] r by simp
    moreover have "aq_inv q1" "same_jobs q q1" using inv by (simp_all add: q1)
    ultimately show ?thesis using r drop_inv pop_effect_start by blast
  qed
qed

section \<open>Pop\<close>

lemma pop_best_main:
  assumes inv: "aq_inv q" and pop: "pop_best ex q = (r, q')"
  shows "aq_inv q' \<and> pop_effect q r q' \<and> (r = None \<longrightarrow> pmap q' = Map.empty)"
proof (rule pop_loop_main [OF inv])
  show "skipped_ok [] q" by (simp add: skipped_ok_def)
  show "loop_size q < 2 * length (q_heap q) + 1" using loop_size_le [of q] by simp
  show "pop_loop (2 * length (q_heap q) + 1) ex [] q = (r, q')" using pop unfolding pop_best_def .
qed

lemma pop_cases:
  assumes "pop ed q = (r, q')"
  obtains (empty) "q_pending q = []" "r = None" "q' = q"
  | (random) rng ex where "q_excluded q \<subseteq> ex" "pop_random ex (q\<lparr>q_rng := rng\<rparr>) = (r, q')" "rng_ok rng = rng_ok (q_rng q)"
  | (best) rng ex where "pop_best ex (q\<lparr>q_rng := rng\<rparr>) = (r, q')"
proof (cases "q_pending q = []")
  case True
  then have "r = None" "q' = q" using assms unfolding pop_def by simp_all
  with True that(1) show ?thesis by blast
next
  case False
  define ex where "ex = (case ed of None \<Rightarrow> {} | Some s \<Rightarrow> s) \<union> q_excluded q"
  show ?thesis
  proof (cases "0 < q_epsilon q")
    case True
    define rng where "rng = (q_rng q)\<lparr>rng_pos := Suc (rng_pos (q_rng q))\<rparr>"
    have "pop_random ex (q\<lparr>q_rng := rng\<rparr>) = (r, q') \<or> pop_best ex (q\<lparr>q_rng := rng\<rparr>) = (r, q')"
      using assms False True unfolding pop_def Let_def draw_float_def ex_def [symmetric] rng_def [symmetric]
      by (auto split: if_splits)
    then show ?thesis using that(2) [of ex rng] that(3) [of ex rng] by (auto simp: ex_def rng_def)
  next
    case F: False
    have "pop_best ex (q\<lparr>q_rng := q_rng q\<rparr>) = (r, q')" using assms False F unfolding pop_def ex_def by (auto simp: Let_def)
    then show ?thesis using that(3) by blast
  qed
qed

lemma pop_main:
  assumes "aq_inv q" "pop ed q = (r, q')"
  shows "aq_inv q' \<and> pop_effect q r q'"
  using assms(2)
proof (cases rule: pop_cases)
  case empty
  then show ?thesis using assms(1) pop_effect_None by simp
next
  case (random rng ex)
  then show ?thesis using pop_random_main [of "q\<lparr>q_rng := rng\<rparr>" ex r q'] assms(1)
      pop_effect_start [OF rng_frame(1), of rng q r q'] by simp
next
  case (best rng ex)
  then show ?thesis using pop_best_main [of "q\<lparr>q_rng := rng\<rparr>" ex r q'] assms(1)
      pop_effect_start [OF rng_frame(1), of rng q r q'] by simp
qed

lemma pop_complete:
  assumes inv: "aq_inv q" and rng: "rng_ok (q_rng q)" and j: "pmap q k = Some j" "aj_domain j \<notin> q_excluded q"
    and pop: "pop ed q = (r, q')"
  shows "r \<noteq> None"
  using pop
proof (cases rule: pop_cases)
  case empty
  then show ?thesis using j(1) by (simp add: pmap_def)
next
  case (random rng' ex)
  let ?q = "q\<lparr>q_rng := rng'\<rparr>"
  have core: "q_core ?q" using inv by (simp add: aq_inv_with_def)
  have jq: "pmap ?q k = Some j" "aj_domain j \<notin> q_excluded ?q" using j by simp_all
  obtain c q1 where c: "epsilon_pick_key ex ?q = (c, q1)" by fastforce
  then have "c \<noteq> None" using epsilon_pick_complete [OF _ core jq, of ex] random(3) rng by simp
  then obtain k' where k': "c = Some k'" by blast
  then obtain j' where "pmap ?q k' = Some j'" using epsilon_pick_sound [OF _ core, of ex k' q1] c random(1) by auto
  moreover have "pmap q1 = pmap ?q" using epsilon_pick_frame [OF c] by (auto simp: pmap_def)
  moreover have "drop_pending k' q1 = (r, q')" using random(2) c k' by (simp add: pop_random_def)
  ultimately show ?thesis by (metis fst_conv fst_drop_pending option.distinct(1))
next
  case (best rng' ex)
  have "aq_inv q' \<and> pop_effect (q\<lparr>q_rng := rng'\<rparr>) r q' \<and> (r = None \<longrightarrow> pmap q' = Map.empty)"
    using pop_best_main [OF _ best] inv by simp
  then have none: "r = None \<longrightarrow> pmap q' = Map.empty" and eff: "pop_effect q r q'"
    using pop_effect_start [OF rng_frame(1), of rng' q r q'] by blast+
  show ?thesis
  proof
    assume r: "r = None"
    then have "pmap q' k = None" using none by simp
    then show False using eff r j unfolding pop_effect_def only_drops_def by blast
  qed
qed

end
