(* ===== verification/AdaptiveQueueProps.thy ===== *)
theory AdaptiveQueueProps
  imports AdaptiveQueueInv
begin

text \<open>
  Properties of the adaptive queue over whole campaigns: every operation keeps the invariant
  and never takes back a completion, the built queue holds exactly the strategy matrix, and
  what \<open>pop\<close> returns.
\<close>

declare split_paired_All [simp del] split_paired_Ex [simp del]

section \<open>The remaining operations keep the invariant\<close>

lemma mark_done_core:
  fixes j
  assumes "aq_inv q"
  defines "q1 \<equiv> snd (drop_pending (job_key j) (q\<lparr>q_done := insert (job_key j) (q_done q)\<rparr>))"
  shows "aq_inv q1" "q_done q1 = insert (job_key j) (q_done q)" "pmap q1 = (pmap q)(job_key j := None)"
  using drop_done_inv [OF assms(1)] by (simp_all add: q1_def)

lemma enqueue_done [simp]: "q_done (snd (enqueue j q)) = q_done q"
  by (auto simp: enqueue_def Let_def)

lemma enqueue_frame [simp]:
  "q_excluded (snd (enqueue j q)) = q_excluded q" "q_weights (snd (enqueue j q)) = q_weights q"
  "q_all_domains (snd (enqueue j q)) = q_all_domains q" "q_cluster_index (snd (enqueue j q)) = q_cluster_index q"
  by (auto simp: enqueue_def Let_def)

lemma snd_enqueue_many: "snd (enqueue_many (j # js) q) = snd (enqueue_many js (snd (enqueue j q)))"
  by (simp split: prod.splits)

lemma enqueue_many_frame [simp]:
  "q_done (snd (enqueue_many js q)) = q_done q" "q_excluded (snd (enqueue_many js q)) = q_excluded q"
  "q_weights (snd (enqueue_many js q)) = q_weights q" "q_all_domains (snd (enqueue_many js q)) = q_all_domains q"
  by (induction js arbitrary: q) (simp_all add: snd_enqueue_many del: enqueue_many.simps(2))

lemma enqueue_dom: "dom (pmap (snd (enqueue j q))) = dom (pmap q) \<union> ({job_key j} - q_done q)"
proof (cases "pmap q (job_key j) = None \<and> job_key j \<notin> q_done q")
  case True
  then obtain q' where "enqueue j q = (True, q')" "pmap q' = (pmap q)(job_key j \<mapsto> j)"
    by (auto elim: enqueue_yes)
  then show ?thesis using True by auto
next
  case False
  then show ?thesis using enqueue_no [of q j] by auto
qed

lemma enqueue_many_dom: "dom (pmap (snd (enqueue_many js q))) = dom (pmap q) \<union> (job_key ` set js - q_done q)"
  by (induction js arbitrary: q) (auto simp: snd_enqueue_many enqueue_dom simp del: enqueue_many.simps(2))

lemma fanout_props:
  "aq_inv q \<Longrightarrow> aq_inv (snd (fanout_on_pass j q))"
  "q_done (snd (fanout_on_pass j q)) = q_done q"
proof -
  have ci: "aq_inv (cluster_index_for_fanout q)" if "aq_inv q"
    using that by (rule aq_inv_frame) (simp_all add: cluster_index_for_fanout_def)
  obtain n q2 where e: "enqueue_many (fanout_jobs j (cluster_index_for_fanout q)) (cluster_index_for_fanout q) = (n, q2)"
    by fastforce
  show "aq_inv (snd (fanout_on_pass j q))" if "aq_inv q"
  proof -
    have "aq_inv q2" using enqueue_many_inv [OF ci [OF that], of "fanout_jobs j (cluster_index_for_fanout q)"] e by simp
    then have "aq_inv (q2\<lparr>q_metrics := m\<rparr>)" for m by (rule aq_inv_frame) simp_all
    then show ?thesis using that by (simp add: fanout_on_pass_def Let_def e)
  qed
  have "q_done q2 = q_done (cluster_index_for_fanout q)" by (metis e enqueue_many_frame(1) snd_conv)
  then have "q_done q2 = q_done q" by (simp add: cluster_index_for_fanout_def)
  then show "q_done (snd (fanout_on_pass j q)) = q_done q" by (simp add: fanout_on_pass_def Let_def e)
qed

lemma mark_done_props:
  assumes "aq_inv q"
  shows "aq_inv (snd (mark_done now j passed q))" "q_done (snd (mark_done now j passed q)) = insert (job_key j) (q_done q)"
proof -
  define q1 where "q1 = snd (drop_pending (job_key j) (q\<lparr>q_done := insert (job_key j) (q_done q)\<rparr>))"
  define q2 where "q2 = q1\<lparr>q_metrics := record_run now passed (q_metrics q1)\<rparr>"
  define q3 where "q3 = q2\<lparr>q_weights := boost_pass (aj_family j) (job_blobs j) (job_traits j) (q_weights q2)\<rparr>"
  have i1: "aq_inv q1" and d1: "q_done q1 = insert (job_key j) (q_done q)"
    using mark_done_core [OF assms] by (simp_all add: q1_def)
  have i2: "aq_inv q2" using i1 by (rule aq_inv_frame) (simp_all add: q2_def)
  have i3: "aq_inv q3" using i2 by (rule aq_inv_frame) (simp_all add: q3_def)
  have m: "mark_done now j passed q = (if \<not> passed then (0, maybe_compact_heap q2)
      else fanout_on_pass j (maybe_compact_heap (maybe_rebuild_heap q3)))"
    by (simp add: mark_done_def Let_def q1_def q2_def q3_def)
  show "aq_inv (snd (mark_done now j passed q))"
    unfolding m using compact_inv [OF i2] fanout_props(1) [OF compact_inv [OF maybe_rebuild_inv [OF i3]]] by simp
  show "q_done (snd (mark_done now j passed q)) = insert (job_key j) (q_done q)"
    unfolding m using d1 by (simp add: fanout_props(2) q2_def q3_def)
qed

lemma resume_drop_props:
  "aq_inv q \<Longrightarrow> aq_inv (snd (resume_drop kfs q)) \<and> q_done q \<subseteq> q_done (snd (resume_drop kfs q))"
proof (induction kfs q rule: resume_drop.induct)
  case (2 k drop_it kfs q)
  show ?case
  proof (cases "\<not> drop_it \<or> k \<notin> set (dict_keys (q_pending q))")
    case True
    then show ?thesis using 2 by simp
  next
    case False
    define q1 where "q1 = snd (drop_pending k (q\<lparr>q_done := insert k (q_done q)\<rparr>))"
    have "aq_inv q1" "q_done q \<subseteq> q_done q1" using drop_done_inv [OF 2(3)] by (auto simp: q1_def)
    moreover have "resume_drop ((k, drop_it) # kfs) q = (Suc (fst (resume_drop kfs q1)), snd (resume_drop kfs q1))"
      using False by (simp add: q1_def split: prod.splits)
    ultimately show ?thesis using 2(2) [OF False] by (auto simp: q1_def)
  qed
qed simp

lemma filter_resume_props:
  "aq_inv q \<Longrightarrow> aq_inv (snd (filter_resume check cs q)) \<and> q_done q \<subseteq> q_done (snd (filter_resume check cs q))"
proof -
  assume i: "aq_inv q"
  define z where "z = zip (dict_keys (q_pending q)) (concat (map (map check) (chunks (nat (max 1 cs)) (map snd (q_pending q)))))"
  obtain n q1 where r: "resume_drop z q = (n, q1)" by fastforce
  then have "aq_inv q1" "q_done q \<subseteq> q_done q1" using resume_drop_props [OF i, of z] by simp_all
  moreover have "filter_resume check cs q = (if q_pending q = [] then (0, q)
      else (n, if n \<noteq> 0 then maybe_compact_heap q1 else q1))"
    unfolding filter_resume_def Let_def z_def [symmetric] r by simp
  ultimately show ?thesis using i compact_inv by simp
qed

lemma batch_loop_props:
  "aq_inv q \<Longrightarrow> aq_inv (snd (batch_loop n p e first ds b q)) \<and> q_done (snd (batch_loop n p e first ds b q)) = q_done q"
proof (induction n p e first ds b q rule: batch_loop.induct)
  case (2 n p e first d ds b q)
  obtain r q1 where dp: "drop_pending (si_label (aj_item first), d) q = (r, q1)" by fastforce
  have "aq_inv q1" "q_done q1 = q_done q"
    using drop_inv [OF 2(5), of "(si_label (aj_item first), d)"] drop_pending_frame(2) [of "(si_label (aj_item first), d)" q] dp
    by simp_all
  then show ?case using 2 dp by (cases r) simp_all
qed simp

lemma pop_done_mono: "aq_inv q \<Longrightarrow> aq_inv (snd (pop ed q)) \<and> q_done q \<subseteq> q_done (snd (pop ed q))"
  using pop_main [of q ed "fst (pop ed q)" "snd (pop ed q)"] by (simp add: pop_effect_def only_drops_def)

lemma pop_batch_props:
  assumes "aq_inv q"
  shows "aq_inv (snd (pop_batch ord n p e q)) \<and> q_done q \<subseteq> q_done (snd (pop_batch ord n p e q))"
proof -
  obtain r q1 where pop: "pop None q = (r, q1)" by fastforce
  then have 1: "aq_inv q1" "q_done q \<subseteq> q_done q1" using pop_done_mono [OF assms, of None] by simp_all
  show ?thesis
  proof (cases r)
    case None
    then show ?thesis using pop 1 by (simp add: pop_batch_def)
  next
    case (Some first)
    let ?ds = "pending_domains_for_strategy ord (si_label (aj_item first)) q1"
    obtain b q2 where b: "batch_loop n p e first ?ds [first] q1 = (b, q2)" by fastforce
    then have "aq_inv q2" "q_done q2 = q_done q1" using batch_loop_props [OF 1(1), of n p e first ?ds "[first]"] by simp_all
    then show ?thesis using pop Some b 1 compact_inv by (simp add: pop_batch_def)
  qed
qed

section \<open>Campaigns\<close>

text \<open>
  Every call the scan makes on the shared queue, in any order: several workers interleave
  their pops and completions, quarantine adds excluded domains, resume filters the queue.
\<close>

datatype aqop =
    Enqueue AdaptiveJob
  | Pop "string set option"
  | PopBatch "jkey list \<Rightarrow> jkey list" nat string bool
  | MarkDone rat AdaptiveJob bool
  | Exclude "string set"
  | FilterResume "AdaptiveJob \<Rightarrow> bool" int
  | ConfigureRebuild int

fun aqstep :: "aqop \<Rightarrow> AdaptiveJobQueue \<Rightarrow> AdaptiveJobQueue" where
  "aqstep (Enqueue j) q = snd (enqueue j q)"
| "aqstep (Pop ed) q = snd (pop ed q)"
| "aqstep (PopBatch ord n p e) q = snd (pop_batch ord n p e q)"
| "aqstep (MarkDone now j passed) q = snd (mark_done now j passed q)"
| "aqstep (Exclude ds) q = q\<lparr>q_excluded := q_excluded q \<union> ds\<rparr>"
| "aqstep (FilterResume check cs) q = snd (filter_resume check cs q)"
| "aqstep (ConfigureRebuild n) q = configure_heap_rebuild n q"

lemma aqstep_inv: "aq_inv q \<Longrightarrow> aq_inv (aqstep a q)"
proof (cases a)
  case (Exclude ds)
  assume "aq_inv q"
  then show ?thesis unfolding Exclude aqstep.simps by (rule aq_inv_frame) simp_all
next
  case (ConfigureRebuild n)
  assume "aq_inv q"
  then show ?thesis unfolding ConfigureRebuild aqstep.simps by (rule aq_inv_frame) (simp_all add: configure_heap_rebuild_def)
qed (simp_all add: enqueue_inv pop_done_mono pop_batch_props mark_done_props filter_resume_props)

interpretation aq: step_system aqstep aq_inv
  by unfold_locales (rule aqstep_inv)

lemma aqstep_done_mono: "aq_inv q \<Longrightarrow> q_done q \<subseteq> q_done (aqstep a q)"
proof (cases a)
  case (ConfigureRebuild n)
  then show ?thesis by (simp add: configure_heap_rebuild_def)
qed (auto simp: pop_done_mono pop_batch_props mark_done_props(2) filter_resume_props
       dest: pop_done_mono pop_batch_props filter_resume_props)

lemma done_forever: "aq_inv q \<Longrightarrow> k \<in> q_done q \<Longrightarrow> k \<in> q_done (fold aqstep ops q)"
  using aq.run_mono [of "\<lambda>q. k \<in> q_done q" q ops] aqstep_done_mono by blast

lemma new_queue_inv: "aq_inv (new_queue now rng w eps)"
  by (simp add: aq_inv_with_def q_core_def q_covers_def new_queue_def pmap_def lbl_def dict_getd_def heap_from_def)

lemma build_props:
  "aq_inv (build now rng w eps sd sk items ds)"
  "dom (pmap (build now rng w eps sd sk items ds)) =
     {(si_label it, d) | it d. it \<in> set items \<and> d \<in> set ds \<and> d \<notin> sd \<and> (si_label it, d) \<notin> sk}"
  "q_done (build now rng w eps sd sk items ds) =
     {(si_label it, d) | it d. it \<in> set items \<and> d \<in> set ds \<and> (si_label it, d) \<in> sk}"
  "q_excluded (build now rng w eps sd sk items ds) = sd"
proof -
  have mat: "set (matrix items ds) = set items \<times> set ds" by (auto simp: matrix_def)
  define D where "D = set (filter (\<lambda>k. k \<in> sk) (map (\<lambda>(it, d). (si_label it, d)) (matrix items ds)))"
  define js where "js = map (\<lambda>(it, d). from_item it d False)
     (filter (\<lambda>(it, d). d \<notin> sd \<and> (si_label it, d) \<notin> sk) (matrix items ds))"
  define q1 where "q1 = (new_queue now rng w eps)\<lparr>q_all_domains := ds, q_cluster_index := cluster_domain_index ds,
     q_excluded := q_excluded (new_queue now rng w eps) \<union> sd, q_done := q_done (new_queue now rng w eps) \<union> D\<rparr>"
  define q2 where "q2 = snd (enqueue_many js q1)"
  have b: "build now rng w eps sd sk items ds = q2\<lparr>q_metrics := set_half_mark (am_total_enqueued (q_metrics q2)) (q_metrics q2)\<rparr>"
    by (simp add: build_def Let_def q2_def js_def q1_def D_def)
  have p1: "pmap q1 = Map.empty" "q_done q1 = D" "q_excluded q1 = sd"
    by (simp_all add: q1_def new_queue_def pmap_def)
  have "aq_inv q1" using new_queue_inv [of now rng w eps]
    by (simp add: aq_inv_with_def q_core_def q_covers_def q1_def new_queue_def pmap_def lbl_def)
  then have "aq_inv q2" by (simp add: q2_def enqueue_many_inv)
  then show "aq_inv (build now rng w eps sd sk items ds)" unfolding b by (rule aq_inv_frame) simp_all
  have D: "D = {(si_label it, d) | it d. it \<in> set items \<and> d \<in> set ds \<and> (si_label it, d) \<in> sk}"
    unfolding D_def using mat by (auto simp: image_iff split: prod.splits)
  have keys: "job_key ` set js = {(si_label it, d) | it d. it \<in> set items \<and> d \<in> set ds \<and> d \<notin> sd \<and> (si_label it, d) \<notin> sk}"
    unfolding js_def using mat by (force simp: job_key_def from_item_def)
  have "dom (pmap q2) = job_key ` set js - D" by (simp add: q2_def enqueue_many_dom p1)
  also have "\<dots> = job_key ` set js" unfolding keys D by auto
  finally show "dom (pmap (build now rng w eps sd sk items ds)) =
     {(si_label it, d) | it d. it \<in> set items \<and> d \<in> set ds \<and> d \<notin> sd \<and> (si_label it, d) \<notin> sk}"
    unfolding b keys by simp
  show "q_done (build now rng w eps sd sk items ds) =
     {(si_label it, d) | it d. it \<in> set items \<and> d \<in> set ds \<and> (si_label it, d) \<in> sk}"
    unfolding b by (simp add: q2_def p1 D)
  show "q_excluded (build now rng w eps sd sk items ds) = sd" unfolding b by (simp add: q2_def p1)
qed

section \<open>Priority order\<close>

definition fresh :: "AdaptiveJobQueue \<Rightarrow> bool" where
  "fresh q = (\<forall>e \<in> set (q_heap q). \<not> stale_in q e)"

lemma fresh_shrink:
  "fresh q \<Longrightarrow> set (q_heap q') \<subseteq> set (q_heap q) \<Longrightarrow> q_weights q' = q_weights q \<Longrightarrow> pmap q' \<subseteq>\<^sub>m pmap q \<Longrightarrow> fresh q'"
  using stale_in_mono unfolding fresh_def by blast

lemma fresh_entry:
  assumes "fresh q" "e \<in> set (q_heap q)" "pmap q (he_key e) = Some j"
  shows "he_neg_priority e = - job_priority q j"
  using assms by (auto simp: fresh_def stale_in_def entry_stale_def)

lemma rebuilt_neg: "e \<in> set (rebuilt_entries q n d) \<Longrightarrow> \<exists>k j. (k, j) \<in> set d \<and> he_key e = k \<and> he_neg_priority e = - job_priority q j"
  by (induction q n d rule: rebuilt_entries.induct) auto

lemma rebuild_fresh: "q_core q \<Longrightarrow> fresh (rebuild_heap q)"
proof -
  assume core: "q_core q"
  have "job_priority (rebuild_heap q) = job_priority q" by (rule job_priority_cong) simp
  moreover have "set (q_heap (rebuild_heap q)) = set (rebuilt_entries q (q_seq q) (q_pending q))"
    by (simp add: rebuild_heap_def Let_def)
  ultimately show ?thesis
    using rebuilt_neg [of _ q "q_seq q" "q_pending q"] pmap_mem [OF core]
    by (fastforce simp: fresh_def stale_in_def entry_stale_def split: option.splits)
qed

lemma pop_loop_max:
  "aq_inv q \<Longrightarrow> fresh q \<Longrightarrow> ex \<subseteq> q_excluded q \<Longrightarrow> pop_loop n ex [] q = (Some j, q') \<Longrightarrow>
   pmap q k = Some j' \<Longrightarrow> aj_domain j' \<notin> q_excluded q \<Longrightarrow> job_priority q j' \<le> job_priority q j"
proof (induction n arbitrary: q)
  case 0
  then show ?case by simp
next
  case (Suc n)
  note inv = Suc.prems(1) and fr = Suc.prems(2) and sub = Suc.prems(3) and run = Suc.prems(4)
  have core: "q_core q" and heap: "is_heap entry_ord (q_heap q)" and cov: "dom (pmap q) \<subseteq> he_key ` set (q_heap q)"
    using inv by (simp_all add: aq_inv_with_def q_covers_def)
  obtain e h where eh: "heappop entry_ord (q_heap q) = Some (e, h)"
    using run by (cases "heappop entry_ord (q_heap q)") (auto simp: pop_fallback.simps)
  define q1 where "q1 = q\<lparr>q_heap := h\<rparr>"
  have e_in: "e \<in> set (q_heap q)" and h_sub: "set h \<subseteq> set (q_heap q)" and hs: "set (q_heap q) = insert e (set h)"
    using heappop_set [OF eh] by auto
  have pri: "job_priority q1 = job_priority q" by (rule job_priority_cong) (simp add: q1_def)
  have core1: "q_core q1" using core by (simp add: q1_def q_core_def pmap_def lbl_def)
  show ?case
  proof (cases "pmap q (he_key e)")
    case None
    have "pop_loop n ex [] q1 = (Some j, q')" using run eh None by (simp add: q1_def pmap_def)
    moreover have "aq_inv q1" using cov core1 None heappop_heap [OF heap eh] hs
      by (auto simp: aq_inv_with_def q_covers_def q1_def)
    moreover have "fresh q1" by (rule fresh_shrink [OF fr]) (use h_sub in \<open>simp_all add: q1_def\<close>)
    ultimately show ?thesis using Suc.IH [of q1] Suc.prems pri by (simp add: q1_def)
  next
    case (Some j0)
    have get: "dict_get (q_pending q) (he_key e) = Some j0" using Some by (simp add: pmap_def)
    have neg: "he_neg_priority e = - job_priority q j0" using fresh_entry [OF fr e_in Some] .
    then have ns: "\<not> entry_stale q1 e j0" by (simp add: entry_stale_def pri)
    have jk: "job_key j0 = he_key e" using q_coreD(1) [OF core Some] .
    show ?thesis
    proof (cases "aj_domain j0 \<in> q_excluded q")
      case True
      define q2 where "q2 = snd (drop_pending (job_key j0) (q1\<lparr>q_done := insert (job_key j0) (q_done q1)\<rparr>))"
      have p2: "pmap q2 = (pmap q)(job_key j0 := None)" "q_heap q2 = h" "q_weights q2 = q_weights q" "q_excluded q2 = q_excluded q"
        by (simp_all add: q2_def q1_def)
      have "pop_loop n ex [] q2 = (Some j, q')" using run eh get ns True by (simp add: q1_def q2_def)
      moreover have "q_core q2" unfolding q2_def by (rule drop_core [OF core1]) simp
      then have "aq_inv q2" using cov hs heappop_heap [OF heap eh] by (auto simp: aq_inv_with_def q_covers_def p2 jk)
      moreover have "fresh q2" by (rule fresh_shrink [OF fr]) (use h_sub in \<open>simp_all add: p2 upd_None_map_le\<close>)
      moreover have "pmap q2 k = Some j'"
        using Suc.prems(5,6) Some True jk by (auto simp: p2)
      moreover have "job_priority q2 = job_priority q" by (rule job_priority_cong) (simp add: p2)
      ultimately show ?thesis using Suc.IH [of q2] Suc.prems(3,6) by (simp add: p2)
    next
      case False
      then have "aj_domain j0 \<notin> ex" using sub by blast
      then have j: "j = j0" using run eh get ns False by (simp add: q1_def Let_def)
      obtain e' where e': "e' \<in> set (q_heap q)" "he_key e' = k" using cov Suc.prems(5) by blast
      have "he_neg_priority e' = - job_priority q j'" using fresh_entry [OF fr e'(1)] e'(2) Suc.prems(5) by simp
      moreover have "entry_ord e \<le> entry_ord e'" using heappop_min [OF heap eh e'(1)] .
      ultimately show ?thesis using neg j by (auto simp: entry_ord_def less_eq_prod_def)
    qed
  qed
qed

section \<open>Properties\<close>

text \<open>
  C3. What a pop may return and change, on every branch (random pick, heap, fallback): a
  returned job was pending, is not on a hard-excluded domain and is pending no more; any
  other job that disappears belonged to a hard-excluded domain and is recorded as done;
  the rest of the queue is untouched and stays well-formed.
\<close>

theorem pop_sound:
  assumes "aq_inv q" and "pop ed q = (r, q')"
  shows "aq_inv q' \<and> only_drops q r q' \<and>
    (\<forall>j. r = Some j \<longrightarrow> pmap q (job_key j) = Some j \<and> aj_domain j \<notin> q_excluded q \<and> pmap q' (job_key j) = None)"
  using pop_main [OF assms] by (auto simp: pop_effect_def returned_ok_def)

definition sample_rng :: rng_state where
  "sample_rng = \<lparr>rng_float = (\<lambda>_. 1 / 2), rng_int = (\<lambda>_ hi. 1), rng_pos = 0\<rparr>"

definition sample_items :: "StrategyItem list" where
  "sample_items = [mk_item ''std_fake_1'' ''fake:blob=stun'', mk_item ''std_split_1'' ''multisplit:pos=2'',
     mk_item ''std_fake_2'' ''fake:blob=stun:repeats=6'']"

definition sample_queue :: "string list \<Rightarrow> AdaptiveJobQueue" where
  "sample_queue ds = build 0 sample_rng None 0 {} {} sample_items ds"

lemma sample_queue_inv: "aq_inv (sample_queue ds)"
  by (simp add: sample_queue_def build_props)

theorem pop_sound_witness:
  "aq_inv (snd (pop None (sample_queue [''a.com'']))) \<and>
   only_drops (sample_queue [''a.com'']) (fst (pop None (sample_queue [''a.com'']))) (snd (pop None (sample_queue [''a.com''])))"
  using pop_sound [OF sample_queue_inv [of "[''a.com'']"] prod.collapse [symmetric, of "pop None (sample_queue [''a.com''])"]] by blast

text \<open>
  C2. Pop never gives up early: whenever some pending job is on a domain that is not
  hard-excluded, a job is returned, even if other workers are busy on all domains. The loop
  that discards outdated heap entries always ends.
\<close>

theorem pop_returns_job:
  assumes "aq_inv q" and "rng_ok (q_rng q)" and "pmap q k = Some j" and "aj_domain j \<notin> q_excluded q"
  shows "fst (pop ed q) \<noteq> None"
  using pop_complete [OF assms prod.collapse [symmetric]] .

theorem pop_returns_job_witness:
  "fst (pop (Some {''a.com''}) (sample_queue [''a.com''])) \<noteq> None"
proof -
  let ?q = "sample_queue [''a.com'']"
  let ?j = "from_item (mk_item ''std_fake_1'' ''fake:blob=stun'') ''a.com'' False"
  have "pmap ?q (''std_fake_1'', ''a.com'') = Some ?j" by code_simp
  moreover have "rng_ok (q_rng ?q)"
  proof -
    have "q_rng (snd (enqueue_many js q)) = q_rng q" for js q
      by (induction js arbitrary: q) (auto simp: snd_enqueue_many enqueue_def Let_def simp del: enqueue_many.simps(2))
    then show ?thesis
      by (simp add: sample_queue_def build_def Let_def new_queue_def rng_ok_def sample_rng_def)
  qed
  moreover have e: "q_excluded ?q = {}" by (simp add: sample_queue_def build_props)
  ultimately show ?thesis
    using pop_returns_job [OF sample_queue_inv, of "[''a.com'']" "(''std_fake_1'', ''a.com'')" ?j "Some {''a.com''}"] e
    by (simp add: rng_ok_def sample_rng_def)
qed

text \<open>
  C1. A completed job never runs again: once a pair of strategy and domain is done, no
  later pop returns it, whatever pops, completions with fan-out, exclusions, batches and
  resume filters happen in between, in any order.
\<close>

theorem completed_never_returned:
  assumes "aq_inv q" and "fst (pop ed (fold aqstep ops (snd (mark_done now j passed q)))) = Some j'"
  shows "job_key j' \<noteq> job_key j"
proof -
  let ?q0 = "snd (mark_done now j passed q)"
  let ?q = "fold aqstep ops ?q0"
  have i: "aq_inv ?q" using aq.run_inv mark_done_props(1) [OF assms(1)] by blast
  have d: "job_key j \<in> q_done ?q"
    using done_forever [OF mark_done_props(1) [OF assms(1)]] mark_done_props(2) [OF assms(1)] by blast
  have "pmap ?q (job_key j') = Some j'"
    using pop_main [OF i prod.collapse [symmetric, of "pop ed ?q"]] assms(2)
    by (simp add: pop_effect_def returned_ok_def)
  then have "job_key j' \<notin> q_done ?q" using q_coreD(2) i by (auto simp: aq_inv_with_def)
  then show ?thesis using d by metis
qed

theorem completed_never_returned_witness:
  "job_key (from_item (mk_item ''std_split_1'' ''multisplit:pos=2'') ''a.com'' False) \<noteq>
   job_key (from_item (mk_item ''std_fake_1'' ''fake:blob=stun'') ''a.com'' False)"
proof (rule completed_never_returned [OF sample_queue_inv [of "[''a.com'']"], where ops = "[]" and ed = None and now = 0 and passed = True])
  show "fst (pop None (fold aqstep [] (snd (mark_done 0 (from_item (mk_item ''std_fake_1'' ''fake:blob=stun'') ''a.com'' False) True
    (sample_queue [''a.com'']))))) = Some (from_item (mk_item ''std_split_1'' ''multisplit:pos=2'') ''a.com'' False)"
    by code_simp
qed

text \<open>
  C4. The built queue holds exactly the strategy matrix: every pair of a strategy label and a
  domain that is neither quarantined nor already completed is pending, the completed pairs
  are done, and nothing else is in the queue.
\<close>

theorem build_holds_matrix:
  "aq_inv (build now rng w eps sd sk items ds) \<and>
   dom (pmap (build now rng w eps sd sk items ds)) =
     {(si_label it, d) | it d. it \<in> set items \<and> d \<in> set ds \<and> d \<notin> sd \<and> (si_label it, d) \<notin> sk} \<and>
   q_done (build now rng w eps sd sk items ds) =
     {(si_label it, d) | it d. it \<in> set items \<and> d \<in> set ds \<and> (si_label it, d) \<in> sk}"
  by (simp add: build_props)

text \<open>
  C5. After the heap has been rebuilt, and with neither exploration nor soft exclusions, pop
  returns a job of the highest priority among the pending jobs on allowed domains.
\<close>

theorem pop_after_rebuild_is_best:
  assumes "aq_inv q" and "q_epsilon q = 0" and "fst (pop None (rebuild_heap q)) = Some j"
    and "pmap q k = Some j'" and "aj_domain j' \<notin> q_excluded q"
  shows "job_priority q j' \<le> job_priority q j"
proof -
  let ?q = "rebuild_heap q"
  have core: "q_core q" using assms(1) by (simp add: aq_inv_with_def)
  have eps: "q_epsilon ?q = 0" using assms(2) by (simp add: rebuild_heap_def Let_def)
  have "q_pending ?q \<noteq> []" using assms(4) by (auto simp: pmap_def)
  then have "pop None ?q = pop_best (q_excluded q) ?q" using eps by (simp add: pop_def)
  then have "pop_loop (2 * length (q_heap ?q) + 1) (q_excluded q) [] ?q = (Some j, snd (pop None ?q))"
    using assms(3) unfolding pop_best_def by (metis prod.collapse)
  from pop_loop_max [OF rebuild_inv [OF core] rebuild_fresh [OF core] _ this, of k j'] assms(4,5)
  have "job_priority ?q j' \<le> job_priority ?q j" by simp
  moreover have "job_priority ?q = job_priority q" by (rule job_priority_cong) simp
  ultimately show ?thesis by simp
qed

definition boosted_queue :: AdaptiveJobQueue where
  "boosted_queue = snd (mark_done 0 (from_item (mk_item ''std_fake_1'' ''fake:blob=stun'') ''a.com'' False) True (sample_queue [''a.com'']))"

theorem pop_after_rebuild_is_best_witness:
  "job_priority boosted_queue (from_item (mk_item ''std_split_1'' ''multisplit:pos=2'') ''a.com'' False)
   \<le> job_priority boosted_queue (from_item (mk_item ''std_fake_2'' ''fake:blob=stun:repeats=6'') ''a.com'' False)"
proof (rule pop_after_rebuild_is_best [where k = "(''std_split_1'', ''a.com'')"])
  show "aq_inv boosted_queue" by (simp add: boosted_queue_def mark_done_props sample_queue_inv)
  show "q_epsilon boosted_queue = 0" by code_simp
  show "fst (pop None (rebuild_heap boosted_queue)) = Some (from_item (mk_item ''std_fake_2'' ''fake:blob=stun:repeats=6'') ''a.com'' False)"
    by code_simp
  show "pmap boosted_queue (''std_split_1'', ''a.com'') = Some (from_item (mk_item ''std_split_1'' ''multisplit:pos=2'') ''a.com'' False)"
    by code_simp
  show "aj_domain (from_item (mk_item ''std_split_1'' ''multisplit:pos=2'') ''a.com'' False) \<notin> q_excluded boosted_queue"
    by code_simp
qed

text \<open>
  Between rebuilds pop is not a priority pop: after a pass that boosts the relatives of a
  strategy, the next pop still returns an unrelated job of lower current priority that was
  queued earlier, because the boosted job's heap entry keeps its old priority.
\<close>

theorem boosted_job_not_first:
  "fst (pop None boosted_queue) = Some (from_item (mk_item ''std_split_1'' ''multisplit:pos=2'') ''a.com'' False) \<and>
   pmap boosted_queue (''std_fake_2'', ''a.com'') = Some (from_item (mk_item ''std_fake_2'' ''fake:blob=stun:repeats=6'') ''a.com'' False) \<and>
   job_priority boosted_queue (from_item (mk_item ''std_split_1'' ''multisplit:pos=2'') ''a.com'' False)
     < job_priority boosted_queue (from_item (mk_item ''std_fake_2'' ''fake:blob=stun:repeats=6'') ''a.com'' False)"
  by code_simp

text \<open>
  A job in flight can be queued a second time: two workers pop the same strategy for two
  sibling domains, the first passes, and its fan-out enqueues the pair that the second
  worker is still probing, because that pair is neither pending nor done.
\<close>

definition two_in_flight :: AdaptiveJobQueue where
  "two_in_flight = (let q = build 0 sample_rng None 0 {} {} [mk_item ''std_fake_1'' ''fake:blob=stun''] [''a.com'', ''b.com'']
     in snd (pop None (snd (pop None q))))"

theorem in_flight_job_requeued:
  "pmap two_in_flight (''std_fake_1'', ''b.com'') = None \<and>
   map_option job_key (fst (pop None (snd (mark_done 0 (from_item (mk_item ''std_fake_1'' ''fake:blob=stun'') ''a.com'' False) True two_in_flight))))
     = Some (''std_fake_1'', ''b.com'')"
  by code_simp

end
