(* ===== verification/RunStoreProps.thy ===== *)
theory RunStoreProps
  imports RunStoreLogic AdaptiveQueueProps
begin

text \<open>
  Properties of the run store: the buffered writer refines an append-only log, the queries return
  what the log says, and a resumed campaign tests what the log leaves open.
\<close>

section \<open>Queries as functions of the log\<close>

definition entry_works :: "tcp_entry \<Rightarrow> bool" where
  "entry_works e = (working_status (te_status e) \<and> te_bridge_applied e \<noteq> Some False)"

definition entry_for :: "string \<Rightarrow> string \<Rightarrow> string \<Rightarrow> tcp_entry \<Rightarrow> bool" where
  "entry_for name proto x e = (te_strategy e = name \<and> te_proto e = proto \<and> te_domain e = x)"

definition last_result :: "tcp_entry list \<Rightarrow> string \<Rightarrow> string \<Rightarrow> string \<Rightarrow> tcp_entry option" where
  "last_result es name proto x =
     (case filter (entry_for name proto x) es of [] \<Rightarrow> None | e # r \<Rightarrow> Some (last (e # r)))"

lemma last_result_Some: "last_result es name proto x = Some e \<longleftrightarrow> (let l = filter (entry_for name proto x) es in l \<noteq> [] \<and> e = last l)"
  by (cases "filter (entry_for name proto x) es") (auto simp: last_result_def)

lemma row_works_view: "flag_ok t \<Longrightarrow> entry_works (tcp_view d t) = row_works t"
  by (auto simp: entry_works_def row_works_def campaign_pass_tcp_def flag_ok_def tcp_view_def)

lemma joined_iff: "(r, t) \<in> set (joined d) \<longleftrightarrow> r \<in> set (db_strategies d) \<and> t \<in> set (db_tcp d) \<and> sg_id r = tw_strategy_id t"
  by (auto simp: joined_def)

lemma strat_of_row: "db_ok d \<Longrightarrow> r \<in> set (db_strategies d) \<Longrightarrow> strat_of d (sg_id r) = (sg_name r, sg_proto r)"
proof -
  assume "db_ok d" "r \<in> set (db_strategies d)"
  then have "map_of (strat_map d) (sg_id r) = Some (sg_name r, sg_proto r)"
    by (intro map_of_is_SomeI) (auto simp: db_ok_def strat_map_def)
  then show ?thesis
    by (simp add: strat_of_def)
qed

lemma strat_row_of: "db_ok d \<Longrightarrow> t \<in> set (db_tcp d) \<Longrightarrow> \<exists>r \<in> set (db_strategies d). sg_id r = tw_strategy_id t"
  by (fastforce simp: db_ok_def list_all_iff strat_map_def)

lemma strat_of_inj:
  assumes "db_ok d" and "t \<in> set (db_tcp d)" and "t2 \<in> set (db_tcp d)"
  shows "strat_of d (tw_strategy_id t2) = strat_of d (tw_strategy_id t) \<longleftrightarrow> tw_strategy_id t2 = tw_strategy_id t"
proof
  assume eq: "strat_of d (tw_strategy_id t2) = strat_of d (tw_strategy_id t)"
  obtain r r2 where r: "r \<in> set (db_strategies d)" "sg_id r = tw_strategy_id t" "r2 \<in> set (db_strategies d)" "sg_id r2 = tw_strategy_id t2"
    using strat_row_of [OF assms(1)] assms(2,3) by metis
  then have "(sg_name r2, sg_proto r2) = (sg_name r, sg_proto r)"
    using eq strat_of_row [OF assms(1)] by metis
  moreover have "inj_on (\<lambda>r. (sg_name r, sg_proto r)) (set (db_strategies d))"
    using assms(1) by (auto simp: db_ok_def strat_map_def distinct_map comp_def)
  ultimately have "r2 = r"
    using r by (auto dest: inj_onD)
  then show "tw_strategy_id t2 = tw_strategy_id t"
    using r by simp
qed simp

text \<open>The newest row of a key among the rows with \<open>p\<close>, as the subqueries find it, is the last one.\<close>

lemma newest_is_last:
  assumes "db_ok d" and "t \<in> set (db_tcp d)" and "p t"
  shows "tw_id t = max_id (map tw_id (filter (\<lambda>t2. same_key t t2 \<and> p t2) (db_tcp d))) \<longleftrightarrow>
         t = last (filter (\<lambda>t2. same_key t t2 \<and> p t2) (db_tcp d))"
proof -
  let ?l = "filter (\<lambda>t2. same_key t t2 \<and> p t2) (db_tcp d)"
  have t: "t \<in> set ?l"
    using assms(2,3) by (simp add: same_key_def)
  have all: "sorted_wrt (<) (map tw_id (db_tcp d))"
    using assms(1) by (simp add: db_ok_def)
  then have inj: "inj_on tw_id (set (db_tcp d))"
    by (simp only: strict_sorted_iff distinct_map)
  from all have sorted: "sorted_wrt (<) (map tw_id ?l)"
    by (simp add: sorted_wrt_map sorted_wrt_filter)
  have ne: "?l \<noteq> []"
    using t by (metis empty_iff list.set(1))
  have "max_id (map tw_id ?l) = tw_id (last ?l)"
    using max_id_last [OF sorted] ne by (simp add: last_map del: filter_empty_conv)
  moreover have "last ?l \<in> set (db_tcp d)"
    using last_in_set [OF ne] by (simp only: set_filter mem_Collect_eq)
  ultimately show ?thesis
    using inj assms(2) by (auto dest: inj_onD)
qed

lemma filter_view:
  assumes "db_ok d" and "t \<in> set (db_tcp d)" and "strat_of d (tw_strategy_id t) = (name, proto)" and "tw_domain t = x"
  shows "filter (entry_for name proto x) (map (tcp_view d) (filter p (db_tcp d))) =
         map (tcp_view d) (filter (\<lambda>t2. same_key t t2 \<and> p t2) (db_tcp d))"
proof -
  have "entry_for name proto x (tcp_view d t2) = same_key t t2" if "t2 \<in> set (db_tcp d)" for t2
    using strat_of_inj [OF assms(1,2) that] assms(3,4) by (auto simp: entry_for_def tcp_view_def same_key_def prod_eq_iff)
  then show ?thesis
    by (simp add: filter_map comp_def filter_filter) (rule arg_cong [where f = "map (tcp_view d)"], rule filter_cong, auto)
qed

lemma newest_iff_last_result:
  assumes ok: "db_ok d"
  shows "(\<exists>r t. (r, t) \<in> set (joined d) \<and> p t \<and> sg_name r = name \<and> sg_proto r = proto \<and> tw_domain t = x \<and>
            tw_id t = max_id (map tw_id (filter (\<lambda>t2. same_key t t2 \<and> p t2) (db_tcp d))) \<and> c (tcp_view d t)) \<longleftrightarrow>
         (\<exists>e. last_result (map (tcp_view d) (filter p (db_tcp d))) name proto x = Some e \<and> c e)"
    (is "?L \<longleftrightarrow> ?R")
proof
  assume ?L
  then obtain r t where rt: "r \<in> set (db_strategies d)" "t \<in> set (db_tcp d)" "sg_id r = tw_strategy_id t" "p t"
      "sg_name r = name" "sg_proto r = proto" "tw_domain t = x" "c (tcp_view d t)"
      "tw_id t = max_id (map tw_id (filter (\<lambda>t2. same_key t t2 \<and> p t2) (db_tcp d)))"
    by (auto simp: joined_iff)
  have last: "t = last (filter (\<lambda>t2. same_key t t2 \<and> p t2) (db_tcp d))"
    using newest_is_last [OF ok rt(2), of p] rt(4,9) by blast
  have ne: "filter (\<lambda>t2. same_key t t2 \<and> p t2) (db_tcp d) \<noteq> []"
    using rt(2,4) by (auto simp: filter_empty_conv same_key_def)
  have "strat_of d (tw_strategy_id t) = (name, proto)"
    using strat_of_row [OF ok rt(1)] rt(3,5,6) by simp
  from filter_view [OF ok rt(2) this rt(7), of p] have "last_result (map (tcp_view d) (filter p (db_tcp d))) name proto x = Some (tcp_view d t)"
    using ne last by (simp add: last_result_Some Let_def last_map)
  with rt(8) show ?R by blast
next
  assume ?R
  then obtain e where e: "filter (entry_for name proto x) (map (tcp_view d) (filter p (db_tcp d))) \<noteq> []"
      "e = last (filter (entry_for name proto x) (map (tcp_view d) (filter p (db_tcp d))))" "c e"
    by (auto simp: last_result_Some Let_def)
  then have "e \<in> set (filter (entry_for name proto x) (map (tcp_view d) (filter p (db_tcp d))))"
    using last_in_set [OF e(1)] by (simp only:)
  then obtain t where t: "t \<in> set (db_tcp d)" "p t" "entry_for name proto x (tcp_view d t)"
    by auto
  have st: "strat_of d (tw_strategy_id t) = (name, proto)" and x: "tw_domain t = x"
    using t(3) by (auto simp: entry_for_def tcp_view_def prod_eq_iff)
  note f = filter_view [OF ok t(1) st x, of p]
  define u where "u = last (filter (\<lambda>t2. same_key t t2 \<and> p t2) (db_tcp d))"
  have ne: "filter (\<lambda>t2. same_key t t2 \<and> p t2) (db_tcp d) \<noteq> []"
    using e(1) f by auto
  have u: "u \<in> set (db_tcp d)" "same_key t u" "p u"
    using last_in_set [OF ne] by (auto simp: u_def)
  have same: "same_key u = same_key t"
    using u(2) by (auto simp: fun_eq_iff same_key_def)
  have eu: "e = tcp_view d u"
    using e(2) f ne by (simp add: u_def last_map)
  obtain r where r: "r \<in> set (db_strategies d)" "sg_id r = tw_strategy_id u"
    using strat_row_of [OF ok u(1)] by blast
  have "(sg_name r, sg_proto r) = (name, proto)"
    using strat_of_row [OF ok r(1)] r(2) u(2) st by (simp add: same_key_def)
  moreover have "tw_id u = max_id (map tw_id (filter (\<lambda>t2. same_key u t2 \<and> p t2) (db_tcp d)))"
    using newest_is_last [OF ok u(1), of p] u(3) same by (simp add: u_def)
  moreover have "(r, u) \<in> set (joined d)" "tw_domain u = x"
    using r u x by (simp_all add: joined_iff same_key_def)
  ultimately show ?L
    using u(3) eu e(3) by blast
qed

lemma working_names:
  assumes ok: "db_ok d"
  shows "name \<in> set (map fst (working_details x proto d)) \<longleftrightarrow>
         (\<exists>e. last_result (committed_tcp d) name proto x = Some e \<and> entry_works e)"
proof -
  have w: "row_works t = entry_works (tcp_view d t)" if "t \<in> set (db_tcp d)" for t
    using ok that row_works_view by (auto simp: db_ok_def list_all_iff)
  have "name \<in> set (map fst (working_details x proto d)) \<longleftrightarrow>
      (\<exists>r t. (r, t) \<in> set (joined d) \<and> True \<and> sg_name r = name \<and> sg_proto r = proto \<and> tw_domain t = x \<and>
         tw_id t = max_id (map tw_id (filter (\<lambda>t2. same_key t t2 \<and> True) (db_tcp d))) \<and> entry_works (tcp_view d t))"
    using w by (fastforce simp: working_details_def latest_rows_def is_latest_def joined_iff image_iff)
  also have "\<dots> \<longleftrightarrow> (\<exists>e. last_result (map (tcp_view d) (filter (\<lambda>t. True) (db_tcp d))) name proto x = Some e \<and> entry_works e)"
    by (rule newest_iff_last_result [OF ok])
  finally show ?thesis
    by (simp add: committed_tcp_def)
qed

section \<open>The store as a log\<close>

interpretation tcp_results: append_log "sstep env" "\<lambda>s. steady_env env \<and> store_inv s" tcp_log "emits_tcp env" for env
  by unfold_locales (auto simp: step_logs)

interpretation udp_results: append_log "sstep env" "\<lambda>s. steady_env env \<and> store_inv s" udp_log "emits_udp env" for env
  by unfold_locales (auto simp: step_logs)


definition sample_entry :: "string \<Rightarrow> string \<Rightarrow> string \<Rightarrow> tcp_entry" where
  "sample_entry name x status =
     \<lparr>te_strategy = name, te_proto = ''tcp'', te_config_path = [], te_domain = x, te_status = status, te_http_code = 200,
      te_latency_ms = 10, te_gateway_ms = 0, te_content_valid = True, te_error = [], te_timestamp = [], te_read_rate_bps = 0,
      te_resolved_ip = [], te_dns_verdict = [], te_doh_server = [], te_fail_phase = [], te_bridge_applied = None,
      te_probe_host = [], te_bridge_batch_id = 0, te_bridge_gen = 0, te_epoch_ms = 0, te_settle_ms = None, te_content_len = None\<rparr>"

text \<open>An environment where one call finds the database locked and a later one fails for good.\<close>

definition sample_store_env :: store_env where
  "sample_store_env =
     \<lparr>sv_fault = (\<lambda>n k. if k = Rollback then None else if n = 3 then Some (Fails True ''database is locked'' 0)
                        else if n = 17 then Some (Fails False ''disk full'' 0) else None),
      sv_gap = (\<lambda>n. n mod 2), sv_now = (\<lambda>n. ''2026-01-01T00:00:00''), sv_mono = (\<lambda>n. 0), sv_epoch = (\<lambda>n. int n),
      sv_arrivals = (\<lambda>n. if n = 4 then ([sample_entry ''late'' ''b.com'' ''FAIL''], []) else ([], [])),
      sv_version = ''1.4'', sv_impersonate = ''chrome124'', sv_nfqws2_version = []\<rparr>"

lemma sample_env_steady: "steady_env sample_store_env"
  by (simp add: steady_env_def sample_store_env_def)

definition sample_store_ops :: "store_op list" where
  "sample_store_ops =
     [LogTcp (sample_entry ''fake'' ''a.com'' ''PASS''), LogTcp (sample_entry ''split'' ''a.com'' ''FAIL''),
      SaveCheckpoint 1 0 [] [] [] [], LogTcp (sample_entry ''fake'' ''a.com'' ''FAIL'')]"

lemma new_store_inv: "0 < n \<Longrightarrow> store_inv (new_store empty_db n fi r)"
  by (simp add: store_inv_def new_store_def store_ok_def stamped_def db_ok_def empty_db_def strat_map_def)


text \<open>
  C7. The strategies that the store reports as working for a domain and a protocol are those whose last
  logged result for it is a pass or throttled and not a pass that the Lua bridge saw unapplied,
  counting every result logged before the call, buffered or written.
\<close>

theorem working_strategies_from_log:
  assumes env: "steady_env env" and inv: "store_inv s" and ret: "get_working_proto env x proto s = (Inr found, s')"
  shows "name \<in> set found \<longleftrightarrow> (\<exists>e. last_result (tcp_log s) name proto x = Some e \<and> entry_works e)"
proof -
  obtain u s1 where f: "flush env True s = (Inr u, s1)"
    using ret by (cases "flush env True s"; cases "fst (flush env True s)")
      (auto simp: get_working_proto_def get_working_proto_details_def then_op_def)
  have "store_ok s1 \<and> committed_tcp (ss_db s1) = tcp_log s"
    using flush_logs [OF env, of s True] inv f by (simp add: store_inv_def logs_to_def flushed_def)
  moreover have "found = map fst (working_details x proto (ss_db s1))"
    using ret f by (auto simp: get_working_proto_def get_working_proto_details_def then_op_def read_committed_def db_call_def return_op_def
        split: option.splits fault.splits)
  ultimately show ?thesis
    using working_names [of "ss_db s1"] by (simp add: store_ok_dbD)
qed

theorem working_strategies_from_log_witness:
  "(let r = get_working_proto sample_store_env ''a.com'' ''tcp''
        (fold (sstep sample_store_env) (take 2 sample_store_ops) (new_store empty_db 2 15 False))
    in (case fst r of Inr found \<Rightarrow> ''fake'' \<in> set found \<and> ''split'' \<notin> set found | Inl e \<Rightarrow> False))"
proof -
  let ?s = "fold (sstep sample_store_env) (take 2 sample_store_ops) (new_store empty_db 2 15 False)"
  have inv: "store_inv ?s"
    using tcp_results.run_appends [of sample_store_env "new_store empty_db 2 15 False" "take 2 sample_store_ops"]
      sample_env_steady new_store_inv [of 2] by simp
  have "\<not> isl (fst (get_working_proto sample_store_env ''a.com'' ''tcp'' ?s))"
    by code_simp
  then obtain found where r: "fst (get_working_proto sample_store_env ''a.com'' ''tcp'' ?s) = Inr found"
    by (auto simp: isl_def) (metis sum.exhaust)
  have "map_option entry_works (last_result (tcp_log ?s) ''fake'' ''tcp'' ''a.com'') = Some True"
    "map_option entry_works (last_result (tcp_log ?s) ''split'' ''tcp'' ''a.com'') = Some False"
    by code_simp+
  then show ?thesis
    using working_strategies_from_log [OF sample_env_steady inv, of "''a.com''" "''tcp''" found "snd (get_working_proto sample_store_env ''a.com'' ''tcp'' ?s)"] r
    by (auto simp: Let_def prod_eq_iff)
qed

section \<open>Resuming a campaign\<close>

definition run_log :: "nat \<Rightarrow> database \<Rightarrow> tcp_entry list" where
  "run_log run_id d = map (tcp_view d) (filter (\<lambda>t. tw_run_id t = Some run_id) (db_tcp d))"

definition infra_entry :: "tcp_entry \<Rightarrow> bool" where
  "infra_entry e = (te_status e = ''FAIL'' \<and> is_infra_fail_phase (te_fail_phase e) (te_error e))"

text \<open>
  When a resumed campaign leaves a pair of a strategy and a domain alone: its last result works, or,
  with a limit on repetitions, it failed and not because of the infrastructure, or has
  failed so often enough.
\<close>

definition run_settled :: "int \<Rightarrow> tcp_entry list \<Rightarrow> string \<Rightarrow> string \<Rightarrow> string \<Rightarrow> bool" where
  "run_settled reprobe es proto name x =
     (case last_result es name proto x of
        None \<Rightarrow> False
      | Some e \<Rightarrow> entry_works e \<or>
          0 < reprobe \<and> te_status e = ''FAIL'' \<and>
          \<not> (infra_entry e \<and> int (length (filter (\<lambda>e. entry_for name proto x e \<and> infra_entry e) es)) < reprobe))"

lemma filter_unique: "distinct (map f xs) \<Longrightarrow> x \<in> set xs \<Longrightarrow> filter (\<lambda>y. f y = f x) xs = [x]"
proof (induction xs)
  case Nil
  then show ?case by simp
next
  case (Cons a xs)
  then show ?case
    by (cases "x = a") (auto simp: filter_empty_conv image_iff)
qed

lemma concat_map_single: "(\<And>t. t \<in> set ts \<Longrightarrow> g t = [t]) \<Longrightarrow> concat (map g ts) = ts"
  by (induction ts) auto

lemma joined_rows: "db_ok d \<Longrightarrow> map snd (joined d) = db_tcp d"
proof -
  assume ok: "db_ok d"
  have "map snd (map (\<lambda>r. (r, t)) (filter (\<lambda>r. sg_id r = tw_strategy_id t) (db_strategies d))) = [t]" if t: "t \<in> set (db_tcp d)" for t
  proof -
    obtain r where "r \<in> set (db_strategies d)" "sg_id r = tw_strategy_id t"
      using strat_row_of [OF ok t] by blast
    moreover have "distinct (map sg_id (db_strategies d))"
      using ok by (simp add: db_ok_def strat_map_def comp_def)
    ultimately show ?thesis
      using filter_unique [of sg_id "db_strategies d" r] by simp
  qed
  then show ?thesis
    unfolding joined_def map_concat map_map comp_def by (intro concat_map_single) simp
qed

lemma infra_count:
  assumes ok: "db_ok d"
  shows "count_infra_fail_rows name x proto run_id d = int (length (filter (\<lambda>e. entry_for name proto x e \<and> infra_entry e) (run_log run_id d)))"
proof -
  let ?q = "\<lambda>t. tw_run_id t = Some run_id \<and> entry_for name proto x (tcp_view d t) \<and> infra_entry (tcp_view d t)"
  have each: "(case rt of (r, t) \<Rightarrow> sg_name r = name \<and> sg_proto r = proto \<and> tw_domain t = x \<and> tw_run_id t = Some run_id \<and> tw_status t = ''FAIL'' \<and> infra_row t)
      = ?q (snd rt)" if "rt \<in> set (joined d)" for rt
  proof (cases rt)
    case (Pair r t)
    then have "strat_of d (tw_strategy_id t) = (sg_name r, sg_proto r)"
      using that strat_of_row [OF ok, of r] by (simp add: joined_iff)
    then show ?thesis
      using Pair by (auto simp: entry_for_def infra_entry_def infra_row_def tcp_view_def)
  qed
  have "count_infra_fail_rows name x proto run_id d = int (length (filter (\<lambda>rt. ?q (snd rt)) (joined d)))"
    unfolding count_infra_fail_rows_def sum_case_def filter_filter
    by (rule arg_cong [where f = int], rule arg_cong [where f = length], rule filter_cong [OF refl]) (use each in force)
  also have "\<dots> = int (length (filter ?q (map snd (joined d))))"
    by (simp add: filter_map comp_def)
  also have "\<dots> = int (length (filter ?q (db_tcp d)))"
    by (simp add: joined_rows [OF ok])
  finally show ?thesis
    by (simp add: run_log_def filter_map comp_def conj_ac)
qed

lemma completed_keys_iff:
  assumes ok: "db_ok d"
  shows "(name, x) \<in> set (map key_of (completed_rows proto run_id d)) \<longleftrightarrow>
         (\<exists>e. last_result (run_log run_id d) name proto x = Some e \<and> entry_works e)"
proof -
  have w: "row_works t = entry_works (tcp_view d t)" if "t \<in> set (db_tcp d)" for t
    using ok that row_works_view by (auto simp: db_ok_def list_all_iff)
  have "(name, x) \<in> set (map key_of (completed_rows proto run_id d)) \<longleftrightarrow>
      (\<exists>r t. (r, t) \<in> set (joined d) \<and> tw_run_id t = Some run_id \<and> sg_name r = name \<and> sg_proto r = proto \<and> tw_domain t = x \<and>
         tw_id t = max_id (map tw_id (filter (\<lambda>t2. same_key t t2 \<and> tw_run_id t2 = Some run_id) (db_tcp d))) \<and> entry_works (tcp_view d t))"
    using w by (fastforce simp: completed_rows_def is_latest_in_run_def key_of_def joined_iff image_iff)
  also have "\<dots> \<longleftrightarrow> (\<exists>e. last_result (run_log run_id d) name proto x = Some e \<and> entry_works e)"
    unfolding run_log_def by (rule newest_iff_last_result [OF ok, where p = "\<lambda>t. tw_run_id t = Some run_id"])
  finally show ?thesis .
qed

lemma failed_keys_iff:
  fixes proto :: string and run_id :: nat
  assumes ok: "db_ok d"
  defines "working \<equiv> set (map key_of (completed_rows proto run_id d))"
  shows "(name, x) \<in> set (map key_of (filter (skips_fail working proto run_id n d) (latest_fails proto run_id d))) \<longleftrightarrow>
         (\<exists>e. last_result (run_log run_id d) name proto x = Some e \<and> te_status e = ''FAIL'' \<and>
            \<not> (infra_entry e \<and> int (length (filter (\<lambda>e. entry_for name proto x e \<and> infra_entry e) (run_log run_id d))) < n))"
    (is "?L \<longleftrightarrow> ?R")
proof -
  let ?c = "\<lambda>e. te_status e = ''FAIL'' \<and> (name, x) \<notin> working \<and> \<not> (infra_entry e \<and> count_infra_fail_rows name x proto run_id d < n)"
  have v: "te_status (tcp_view d t) = tw_status t" "infra_entry (tcp_view d t) = (tw_status t = ''FAIL'' \<and> infra_row t)" for t
    by (simp_all add: tcp_view_def infra_entry_def infra_row_def)
  have "?L \<longleftrightarrow>
      (\<exists>r t. (r, t) \<in> set (joined d) \<and> tw_run_id t = Some run_id \<and> sg_name r = name \<and> sg_proto r = proto \<and> tw_domain t = x \<and>
         tw_id t = max_id (map tw_id (filter (\<lambda>t2. same_key t t2 \<and> tw_run_id t2 = Some run_id) (db_tcp d))) \<and> ?c (tcp_view d t))"
    unfolding v by (fastforce simp: latest_fails_def skips_fail_def is_latest_in_run_def key_of_def image_iff)
  also have "\<dots> \<longleftrightarrow> (\<exists>e. last_result (run_log run_id d) name proto x = Some e \<and> ?c e)"
    unfolding run_log_def by (rule newest_iff_last_result [OF ok, where p = "\<lambda>t. tw_run_id t = Some run_id"])
  also have "\<dots> \<longleftrightarrow> ?R"
    unfolding working_def completed_keys_iff [OF ok] infra_count [OF ok] by (auto simp: entry_works_def working_status_def)
  finally show ?thesis .
qed

lemma completed_keys_returned:
  assumes "ss_work s = None" and "ss_run_id s = Some run_id" and "get_completed_tcp_keys env proto s = (Inr keys, s1)"
  shows "keys = set (map key_of (completed_rows proto run_id (ss_db s)))" and "ss_db s1 = ss_db s" and "ss_run_id s1 = Some run_id"
  using assms
  by (auto simp: get_completed_tcp_keys_def with_write_lock_def then_op_def writer_def select_def db_call_def current_db_def await_def
      split: if_splits option.splits fault.splits sum.splits prod.splits)

lemma resume_keys_iff:
  assumes ok: "db_ok (ss_db s)" and w: "ss_work s = None" and r: "ss_run_id s = Some run_id"
    and ret: "get_resume_skip_tcp_keys env proto n s = (Inr keys, s')"
  shows "(name, x) \<in> keys \<longleftrightarrow> run_settled n (run_log run_id (ss_db s)) proto name x"
proof -
  obtain working s1 where c: "get_completed_tcp_keys env proto s = (Inr working, s1)"
    using ret by (cases "get_completed_tcp_keys env proto s"; cases "fst (get_completed_tcp_keys env proto s)")
      (auto simp: get_resume_skip_tcp_keys_def then_op_def)
  note k = completed_keys_returned [OF w r c]
  have "keys = working \<union> (if n \<le> 0 then {} else set (map key_of (filter (skips_fail working proto run_id n (ss_db s)) (latest_fails proto run_id (ss_db s)))))"
    using ret c k(2,3) by (auto simp: get_resume_skip_tcp_keys_def then_op_def read_committed_def db_call_def split: if_splits option.splits fault.splits)
  then show ?thesis
    using completed_keys_iff [OF ok, of name x proto run_id] failed_keys_iff [OF ok, of name x proto run_id n]
    unfolding k(1) run_settled_def by (auto split: option.split)
qed

text \<open>
  C8. A resumed campaign tests what the log of its run leaves open: the queue built with the keys the
  store says to skip has pending exactly the pairs of the matrix, on domains that are not excluded,
  that are not settled by the results of the run.
\<close>

theorem resume_tests_open_pairs:
  assumes "db_ok (ss_db s)" and "ss_work s = None" and "ss_run_id s = Some run_id"
    and "get_resume_skip_tcp_keys env ''tcp'' n s = (Inr keys, s')"
  shows "dom (pmap (build now rng w eps excluded keys items ds)) =
         {(si_label it, x) | it x. it \<in> set items \<and> x \<in> set ds \<and> x \<notin> excluded \<and>
            \<not> run_settled n (run_log run_id (ss_db s)) ''tcp'' (si_label it) x}"
  using resume_keys_iff [OF assms] by (auto simp: build_props)

text \<open>The store of a resumed run: two strategies were tested, one passed.\<close>

definition sample_resumed :: RunStore where
  "sample_resumed =
     fold (sstep (sample_store_env\<lparr>sv_fault := (\<lambda>n k. None), sv_arrivals := (\<lambda>n. ([], []))\<rparr>))
       [BeginRun (Some True) ''fp'' [], LogTcp (sample_entry ''fake'' ''a.com'' ''PASS''), LogTcp (sample_entry ''split'' ''a.com'' ''FAIL'')]
       (new_store empty_db 2 15 True)"

theorem resume_tests_open_pairs_witness:
  "(case fst (get_resume_skip_tcp_keys sample_store_env ''tcp'' 0 sample_resumed) of
      Inr keys \<Rightarrow> dom (pmap (build 0 sample_rng None 0 {} keys [mk_item ''fake'' ''fake:blob=stun'', mk_item ''split'' ''multisplit:pos=2''] [''a.com''])) =
        {(''split'', ''a.com'')}
    | Inl e \<Rightarrow> False)"
proof -
  have h: "db_ok (ss_db sample_resumed)" "ss_work sample_resumed = None" "ss_run_id sample_resumed = Some 1"
    by code_simp+
  have "\<not> isl (fst (get_resume_skip_tcp_keys sample_store_env ''tcp'' 0 sample_resumed))"
    by code_simp
  then obtain keys where r: "fst (get_resume_skip_tcp_keys sample_store_env ''tcp'' 0 sample_resumed) = Inr keys"
    by (cases "fst (get_resume_skip_tcp_keys sample_store_env ''tcp'' 0 sample_resumed)") auto
  have "run_settled 0 (run_log 1 (ss_db sample_resumed)) ''tcp'' ''fake'' ''a.com''"
    "\<not> run_settled 0 (run_log 1 (ss_db sample_resumed)) ''tcp'' ''split'' ''a.com''"
    by code_simp+
  then show ?thesis
    using resume_tests_open_pairs [OF h, of sample_store_env 0 keys "snd (get_resume_skip_tcp_keys sample_store_env ''tcp'' 0 sample_resumed)"
        0 sample_rng None 0 "{}" "[mk_item ''fake'' ''fake:blob=stun'', mk_item ''split'' ''multisplit:pos=2'']" "[''a.com'']",
        OF prod_eqI [of _ "(Inr keys, _)", simplified, OF r]]
    by (auto simp: r mk_item_def intro!: exI [of _ "mk_item ''split'' ''multisplit:pos=2''"])
qed

section \<open>Where results are lost or counted twice\<close>

text \<open>
  A flush that is cancelled while it waits for the database has emptied the buffers and does not put the
  rows back; closing the store afterwards loses them.
\<close>

lemma cancelled_flush_loses_results:
  "(let env = sample_store_env\<lparr>sv_fault := (\<lambda>n k. if k = Begin then Some (Cancels False) else None), sv_arrivals := (\<lambda>n. ([], []))\<rparr>;
        s = snd (log_tcp env (sample_entry ''fake'' ''a.com'' ''PASS'') (new_store empty_db 2 15 False));
        s1 = snd (flush env True s)
    in length (tcp_log s) = 1 \<and> tcp_log s1 = [] \<and> tcp_log (close_store env s1) = [])"
  by code_simp

text \<open>
  The operations on the other tables do not roll back when a commit fails. The transaction that stays open
  makes every flush fail until some other operation commits.
\<close>

lemma open_transaction_blocks_flush:
  assumes "ss_work s \<noteq> None" and "ss_conn s" and "ss_run_id s \<noteq> None" and "ss_tcp_pending s \<noteq> []"
  shows "fst (flush env wal s) = Inl (OperationalError ''cannot start a transaction within a transaction'')"
proof -
  have e: "\<not> locked_error (OperationalError ''cannot start a transaction within a transaction'')"
    by code_simp
  obtain i where i: "ss_run_id s = Some i"
    using assms(3) by auto
  have "fst (flush_transaction env t u s1) = Inl (OperationalError ''cannot start a transaction within a transaction'')"
    if "ss_work s1 = ss_work s" "ss_conn s1" "ss_run_id s1 = Some i" for t u s1
    using that assms(1) by (simp add: flush_transaction_def with_write_lock_def then_op_def writer_def ensure_run_id_on_db_def begin_immediate_def)
  from this [of "s\<lparr>ss_tcp_pending := [], ss_udp_pending := []\<rparr>" "ss_tcp_pending s" "ss_udp_pending s"]
  obtain s2 where "flush_transaction env (ss_tcp_pending s) (ss_udp_pending s) (s\<lparr>ss_tcp_pending := [], ss_udp_pending := []\<rparr>) =
      (Inl (OperationalError ''cannot start a transaction within a transaction''), s2)"
    using assms(2) i by (cases "flush_transaction env (ss_tcp_pending s) (ss_udp_pending s) (s\<lparr>ss_tcp_pending := [], ss_udp_pending := []\<rparr>)") simp
  then show ?thesis
    using assms(4) e by (simp add: flush_def Let_def numeral_eq_Suc then_op_def)
qed

lemma failed_commit_leaves_transaction:
  "(let env = sample_store_env\<lparr>sv_fault := (\<lambda>n k. if k = Commit then Some (Fails True ''database is locked'' 0) else None)\<rparr>
    in ss_work (snd (save_checkpoint env 1 0 [] [] [] [] (new_store empty_db 2 15 False))) \<noteq> None)"
  by code_simp

text \<open>
  A failure of the infrastructure does not count against a domain while a campaign runs, but the rows that seed
  the quarantine of a resumed campaign count it.
\<close>

definition infra_fail :: "nat \<Rightarrow> tcp_row" where
  "infra_fail i = (tcp_row_values [] 1 1 ((sample_entry ''fake'' ''a.com'' ''FAIL'')\<lparr>te_error := ''ns pool exhausted''\<rparr>))\<lparr>tw_id := i\<rparr>"

lemma seeding_counts_infra_failures:
  "(let q = new_quarantine (default_config\<lparr>qc_min_attempts := 2\<rparr>);
        live = fold (\<lambda>i q. fst (record_probe [] ''a.com'' False (Some ''FAIL'') [] ''ns pool exhausted'' q)) [1, 2::nat] q;
        s = new_store (empty_db\<lparr>db_tcp := [infra_fail 1, infra_fail 2]\<rparr>) 2 15 True
    in exclude_domains live = {} \<and>
       (case fst (domain_pass_rows sample_store_env s) of
          Inr rows \<Rightarrow> exclude_domains (fst (seed_from_rows [] rows q)) = {''a.com''} | Inl e \<Rightarrow> False))"
  by code_simp

text \<open>A domain that is listed twice makes the query for common strategies return nothing.\<close>

lemma common_tcp_duplicate_domain:
  assumes "\<not> distinct ds"
  shows "common_tcp ds limit d = []"
proof -
  have "length (fromkeys (map (\<lambda>(r, t). tw_domain t) rows)) \<noteq> length ds"
    if "\<forall>(r, t) \<in> set rows. tw_domain t \<in> set ds" for rows :: "(strategy_row \<times> tcp_row) list"
  proof -
    have "length (fromkeys (map (\<lambda>(r, t). tw_domain t) rows)) = card (set (map (\<lambda>(r, t). tw_domain t) rows))"
      using distinct_card [OF distinct_fromkeys, of "map (\<lambda>(r, t). tw_domain t) rows"] by simp
    also have "\<dots> \<le> card (set ds)"
      using that by (intro card_mono) auto
    also have "\<dots> < length ds"
      using assms card_length [of ds] card_distinct [of ds] by linarith
    finally show ?thesis by simp
  qed
  then have "fst (snd (coverage_group rows name)) \<noteq> int (length ds)" if "\<forall>(r, t) \<in> set rows. tw_domain t \<in> set ds" for rows name
    using that by (simp add: coverage_group_def Let_def)
  then have "filter (\<lambda>g. fst (snd g) = int (length ds)) (coverage_groups rows) = []" if "\<forall>(r, t) \<in> set rows. tw_domain t \<in> set ds" for rows
    using that unfolding coverage_groups_def filter_empty_conv set_map by blast
  moreover have "(\<lambda>(name, n, avg). n = int (length ds)) = (\<lambda>g :: string \<times> int \<times> rat. fst (snd g) = int (length ds))"
    by (auto simp: fun_eq_iff)
  moreover have "\<forall>(r, t) \<in> set (latest_rows (\<lambda>r t. sg_proto r = ''tcp'' \<and> tw_domain t \<in> set ds \<and> row_works t) d). tw_domain t \<in> set ds"
    by (auto simp: latest_rows_def)
  ultimately show ?thesis
    by (simp add: common_tcp_def sql_limit_def)
qed

end
