(* ===== verification/BatchScheduler.thy ===== *)
theory BatchScheduler
  imports AdaptiveQueue
begin

text \<open>
  \<^verbatim>\<open>service/batch_scheduler.py\<close> (cutting strategies and jobs into bridge batches, and the
  accumulator of a bridge worker) and \<open>BatchContext.item_domains\<close> of
  \<^verbatim>\<open>service/batch_models.py\<close>. The upper limit \<open>DEFAULT_BRIDGE_BATCH_MAX\<close> comes from the
  environment (2000 by default) and is an argument.
\<close>

section \<open>Batch keys and batch contexts\<close>

definition batch_job_key :: "AdaptiveJob \<Rightarrow> string \<times> string \<times> string" where
  "batch_job_key j =
     (si_label (aj_item j), aj_domain j, if si_protocol (aj_item j) = [] then ''tls12'' else si_protocol (aj_item j))"

record BatchContext =
  bc_ns_name :: string
  bc_items :: "StrategyItem list"
  bc_domain :: string
  bc_batch_id :: int
  bc_protocol :: string
  bc_domains :: "string list option"

definition item_domains :: "BatchContext \<Rightarrow> string list result" where
  "item_domains ctx =
     (case bc_domains ctx of
        Some ds \<Rightarrow>
          if length ds \<noteq> length (bc_items ctx)
          then Inl (ValueError (''domains length '' @ digits_of_nat (length ds) @ '' != items length ''
                 @ digits_of_nat (length (bc_items ctx))))
          else Inr ds
      | None \<Rightarrow> Inr (replicate (length (bc_items ctx)) (bc_domain ctx)))"

lemma item_domains_length: "item_domains ctx = Inr ds \<Longrightarrow> length ds = length (bc_items ctx)"
  by (auto simp: item_domains_def split: option.splits if_splits)

section \<open>Cutting into batches\<close>

definition scheduler_batch_size :: "int \<Rightarrow> int \<Rightarrow> nat" where
  "scheduler_batch_size batch_max batch_size = nat (max 1 (min batch_size batch_max))"

definition iter_batches :: "nat \<Rightarrow> StrategyItem list \<Rightarrow> StrategyItem list list" where
  "iter_batches n items = (if items = [] then [] else chunks n items)"

record group_state =
  gr_out :: "AdaptiveJob list list"
  gr_domain :: string
  gr_cur :: "AdaptiveJob list"
  gr_labels :: "string set"

definition emit_cur :: "group_state \<Rightarrow> group_state" where
  "emit_cur s = s\<lparr>gr_out := (if gr_cur s = [] then gr_out s else gr_out s @ [gr_cur s]), gr_cur := [], gr_labels := {}\<rparr>"

definition group_step :: "nat \<Rightarrow> group_state \<Rightarrow> AdaptiveJob \<Rightarrow> group_state" where
  "group_step n s j =
     (let s1 = (if aj_domain j \<noteq> gr_domain s then (emit_cur s)\<lparr>gr_domain := aj_domain j\<rparr> else s);
          l = si_label (aj_item j)
      in if l \<in> gr_labels s1
         then (emit_cur s1)\<lparr>gr_cur := [j], gr_labels := {l}\<rparr>
         else (let s2 = (if n \<le> length (gr_cur s1) then emit_cur s1 else s1)
               in s2\<lparr>gr_cur := gr_cur s2 @ [j], gr_labels := insert l (gr_labels s2)\<rparr>))"

definition group_jobs_by_domain :: "nat \<Rightarrow> bool \<Rightarrow> AdaptiveJob list \<Rightarrow> AdaptiveJob list list" where
  "group_jobs_by_domain n flush_partial jobs =
     (case jobs of
        [] \<Rightarrow> []
      | j0 # _ \<Rightarrow>
          (let s = foldl (group_step n) \<lparr>gr_out = [], gr_domain = aj_domain j0, gr_cur = [], gr_labels = {}\<rparr> jobs
           in if gr_cur s \<noteq> [] \<and> (flush_partial \<or> n \<le> length (gr_cur s)) then gr_out s @ [gr_cur s] else gr_out s))"

section \<open>The accumulator\<close>

record BatchJobAccumulator =
  ac_batch_size :: nat
  ac_jobs :: "AdaptiveJob list"
  ac_keys :: "(string \<times> string \<times> string) set"

definition new_accumulator :: "int \<Rightarrow> BatchJobAccumulator" where
  "new_accumulator batch_size = \<lparr>ac_batch_size = nat (max 1 batch_size), ac_jobs = [], ac_keys = {}\<rparr>"

definition ac_domain :: "BatchJobAccumulator \<Rightarrow> string option" where
  "ac_domain a = (case ac_jobs a of [] \<Rightarrow> None | j # _ \<Rightarrow> Some (aj_domain j))"

definition ac_domains :: "BatchJobAccumulator \<Rightarrow> string list" where
  "ac_domains a = map aj_domain (ac_jobs a)"

definition ac_flush :: "BatchJobAccumulator \<Rightarrow> AdaptiveJob list \<times> BatchJobAccumulator" where
  "ac_flush a = (ac_jobs a, a\<lparr>ac_jobs := [], ac_keys := {}\<rparr>)"

definition can_accept :: "BatchJobAccumulator \<Rightarrow> AdaptiveJob \<Rightarrow> bool" where
  "can_accept a j =
     (if aj_fanout j then False
      else if batch_job_key j \<in> ac_keys a then False
      else if ac_jobs a \<noteq> [] \<and> snd (snd (batch_job_key (hd (ac_jobs a)))) \<noteq> snd (snd (batch_job_key j)) then False
      else length (ac_jobs a) < ac_batch_size a)"

definition ac_push :: "AdaptiveJob \<Rightarrow> BatchJobAccumulator \<Rightarrow> bool \<times> BatchJobAccumulator" where
  "ac_push j a =
     (if \<not> can_accept a j then (False, a)
      else (True, a\<lparr>ac_jobs := ac_jobs a @ [j], ac_keys := insert (batch_job_key j) (ac_keys a)\<rparr>))"

definition is_full :: "BatchJobAccumulator \<Rightarrow> bool" where
  "is_full a = (ac_batch_size a \<le> length (ac_jobs a))"

section \<open>Batches of strategies\<close>

interpretation strategy_batches: batching "iter_batches (scheduler_batch_size batch_max batch_size)"
    "scheduler_batch_size batch_max batch_size" for batch_max batch_size
proof
  have pos: "0 < scheduler_batch_size batch_max batch_size" by (simp add: scheduler_batch_size_def)
  fix xs b :: "StrategyItem list"
  show "concat (iter_batches (scheduler_batch_size batch_max batch_size) xs) = xs"
    using concat_chunks [OF pos, of xs] by (simp add: iter_batches_def)
  show "b \<noteq> []" if "b \<in> set (iter_batches (scheduler_batch_size batch_max batch_size) xs)"
    using chunks_bounds [OF pos] that by (auto simp: iter_batches_def split: if_splits)
  show "length b \<le> scheduler_batch_size batch_max batch_size"
    if "b \<in> set (iter_batches (scheduler_batch_size batch_max batch_size) xs)"
    using chunks_bounds [OF pos] that by (auto simp: iter_batches_def split: if_splits)
qed

section \<open>Batches of jobs\<close>

definition job_label :: "AdaptiveJob \<Rightarrow> string" where
  "job_label j = si_label (aj_item j)"

text \<open>A batch the bridge can run: bounded, on one domain, no label twice.\<close>

definition bridge_batch :: "nat \<Rightarrow> AdaptiveJob list \<Rightarrow> bool" where
  "bridge_batch n b = (b \<noteq> [] \<and> length b \<le> n \<and> (\<forall>j \<in> set b. aj_domain j = aj_domain (hd b)) \<and> distinct (map job_label b))"

definition group_inv :: "nat \<Rightarrow> AdaptiveJob list \<Rightarrow> group_state \<Rightarrow> bool" where
  "group_inv n seen s =
     (concat (gr_out s) @ gr_cur s = seen \<and> (\<forall>b \<in> set (gr_out s). bridge_batch n b) \<and>
      length (gr_cur s) \<le> n \<and> gr_labels s = set (map job_label (gr_cur s)) \<and> distinct (map job_label (gr_cur s)) \<and>
      (\<forall>j \<in> set (gr_cur s). aj_domain j = gr_domain s))"

lemma cur_bridge_batch: "group_inv n seen s \<Longrightarrow> gr_cur s \<noteq> [] \<Longrightarrow> bridge_batch n (gr_cur s)"
  by (auto simp: group_inv_def bridge_batch_def)

lemma emit_cur_inv:
  "group_inv n seen s \<Longrightarrow> group_inv n seen ((emit_cur s)\<lparr>gr_domain := d\<rparr>) \<and> group_inv n seen (emit_cur s) \<and> gr_cur (emit_cur s) = []"
  using cur_bridge_batch [of n seen s] by (auto simp: group_inv_def emit_cur_def)

lemma emit_cur_domain [simp]: "gr_domain (emit_cur s) = gr_domain s" "gr_labels (emit_cur s) = {}" "gr_cur (emit_cur s) = []"
  by (simp_all add: emit_cur_def)

lemma group_add:
  assumes "group_inv n seen s" "length (gr_cur s) < n" "job_label j \<notin> gr_labels s" "aj_domain j = gr_domain s"
  shows "group_inv n (seen @ [j]) (s\<lparr>gr_cur := gr_cur s @ [j], gr_labels := insert (job_label j) (gr_labels s)\<rparr>)"
  using assms by (auto simp: group_inv_def)

lemma group_step_inv:
  assumes inv: "group_inv n seen s" and n: "0 < n"
  shows "group_inv n (seen @ [j]) (group_step n s j)"
proof -
  define s1 where "s1 = (if aj_domain j \<noteq> gr_domain s then (emit_cur s)\<lparr>gr_domain := aj_domain j\<rparr> else s)"
  have i1: "group_inv n seen s1" and d1: "aj_domain j = gr_domain s1"
    using inv emit_cur_inv [OF inv, of "aj_domain j"] by (simp_all add: s1_def)
  have e1: "group_inv n seen (emit_cur s1)" using emit_cur_inv [OF i1] by blast
  show ?thesis
  proof (cases "job_label j \<in> gr_labels s1")
    case True
    have "group_inv n (seen @ [j]) ((emit_cur s1)\<lparr>gr_cur := [] @ [j], gr_labels := insert (job_label j) {}\<rparr>)"
      using group_add [OF e1, of j] n d1 by simp
    then show ?thesis using True by (simp add: group_step_def Let_def s1_def [symmetric] job_label_def)
  next
    case False
    define s2 where "s2 = (if n \<le> length (gr_cur s1) then emit_cur s1 else s1)"
    have "group_inv n (seen @ [j]) (s2\<lparr>gr_cur := gr_cur s2 @ [j], gr_labels := insert (job_label j) (gr_labels s2)\<rparr>)"
      using group_add [of n seen s2 j] i1 e1 n d1 False by (auto simp: s2_def)
    then show ?thesis using False by (simp add: group_step_def Let_def s1_def [symmetric] s2_def [symmetric] job_label_def)
  qed
qed

lemma group_foldl_inv:
  "0 < n \<Longrightarrow> group_inv n seen s \<Longrightarrow> group_inv n (seen @ js) (foldl (group_step n) s js)"
proof (induction js arbitrary: seen s)
  case (Cons j js)
  then show ?case using Cons.IH [of "seen @ [j]" "group_step n s j"] group_step_inv [of n seen s j] by simp
qed simp

lemma group_jobs_inv:
  assumes "0 < n"
  obtains s where "group_inv n (j # js) s"
    "group_jobs_by_domain n fp (j # js) = (if gr_cur s \<noteq> [] \<and> (fp \<or> n \<le> length (gr_cur s)) then gr_out s @ [gr_cur s] else gr_out s)"
proof -
  let ?s0 = "\<lparr>gr_out = [], gr_domain = aj_domain j, gr_cur = [], gr_labels = {}\<rparr>"
  define s where "s = foldl (group_step n) ?s0 (j # js)"
  have "group_inv n [] ?s0" by (simp add: group_inv_def)
  then have "group_inv n (j # js) s"
    using group_foldl_inv [OF assms, of "[]" ?s0 "j # js"] by (simp add: s_def)
  moreover have "group_jobs_by_domain n fp (j # js) =
      (if gr_cur s \<noteq> [] \<and> (fp \<or> n \<le> length (gr_cur s)) then gr_out s @ [gr_cur s] else gr_out s)"
    by (simp add: group_jobs_by_domain_def s_def Let_def)
  ultimately show ?thesis using that by blast
qed

lemma group_jobs_props:
  assumes "0 < n"
  shows "concat (group_jobs_by_domain n True jobs) = jobs" "b \<in> set (group_jobs_by_domain n fp jobs) \<Longrightarrow> bridge_batch n b"
proof -
  show "concat (group_jobs_by_domain n True jobs) = jobs"
  proof (cases jobs)
    case (Cons j js)
    obtain s where "group_inv n (j # js) s" "group_jobs_by_domain n True (j # js) = (if gr_cur s \<noteq> [] then gr_out s @ [gr_cur s] else gr_out s)"
      using group_jobs_inv [OF assms, of j js True] by auto
    then show ?thesis using Cons by (auto simp: group_inv_def)
  qed (simp add: group_jobs_by_domain_def)
  show "bridge_batch n b" if b: "b \<in> set (group_jobs_by_domain n fp jobs)"
  proof (cases jobs)
    case (Cons j js)
    obtain s where s: "group_inv n (j # js) s" "group_jobs_by_domain n fp (j # js) = (if gr_cur s \<noteq> [] \<and> (fp \<or> n \<le> length (gr_cur s)) then gr_out s @ [gr_cur s] else gr_out s)"
      using group_jobs_inv [OF assms] .
    then show ?thesis using b Cons cur_bridge_batch [OF s(1)] by (auto simp: group_inv_def split: if_splits)
  qed (use b in \<open>simp add: group_jobs_by_domain_def\<close>)
qed

interpretation job_batches: batching "group_jobs_by_domain (scheduler_batch_size batch_max batch_size) True"
    "scheduler_batch_size batch_max batch_size" for batch_max batch_size
proof
  have pos: "0 < scheduler_batch_size batch_max batch_size" by (simp add: scheduler_batch_size_def)
  fix xs b
  show "concat (group_jobs_by_domain (scheduler_batch_size batch_max batch_size) True xs) = xs"
    by (rule group_jobs_props [OF pos])
  assume "b \<in> set (group_jobs_by_domain (scheduler_batch_size batch_max batch_size) True xs)"
  from group_jobs_props(2) [OF pos this]
  show "b \<noteq> []" "length b \<le> scheduler_batch_size batch_max batch_size" by (simp_all add: bridge_batch_def)
qed

section \<open>The accumulator's invariant\<close>

definition ac_inv :: "BatchJobAccumulator \<Rightarrow> bool" where
  "ac_inv a = (length (ac_jobs a) \<le> ac_batch_size a \<and> ac_keys a = set (map batch_job_key (ac_jobs a)) \<and>
     distinct (map batch_job_key (ac_jobs a)) \<and>
     (\<forall>j \<in> set (ac_jobs a). \<not> aj_fanout j \<and> snd (snd (batch_job_key j)) = snd (snd (batch_job_key (hd (ac_jobs a))))))"

datatype acop = AcPush AdaptiveJob | AcFlush

fun acstep :: "acop \<Rightarrow> BatchJobAccumulator \<Rightarrow> BatchJobAccumulator" where
  "acstep (AcPush j) a = snd (ac_push j a)"
| "acstep AcFlush a = snd (ac_flush a)"

lemma acstep_inv: "ac_inv a \<Longrightarrow> ac_inv (acstep x a)"
proof (cases x)
  case (AcPush j)
  assume i: "ac_inv a"
  show ?thesis
  proof (cases "can_accept a j")
    case True
    then show ?thesis using i AcPush
      by (cases "ac_jobs a") (auto simp: ac_push_def can_accept_def ac_inv_def split: if_splits)
  qed (use i AcPush in \<open>simp add: ac_push_def\<close>)
qed (simp add: ac_flush_def ac_inv_def)

interpretation acc: step_system acstep ac_inv
  by unfold_locales (rule acstep_inv)

lemma new_accumulator_inv: "ac_inv (new_accumulator n)"
  by (simp add: ac_inv_def new_accumulator_def)

text \<open>
  What a worker's two attempts to place a job come to: after a flush every job that is not a
  fan-out job is accepted.
\<close>

lemma push_after_flush: "ac_inv a \<Longrightarrow> 0 < ac_batch_size a \<Longrightarrow> fst (ac_push j (snd (ac_flush a))) = (\<not> aj_fanout j)"
  by (simp add: ac_push_def can_accept_def ac_flush_def)

section \<open>Properties\<close>

text \<open>
  Grouping jobs for the bridge loses and reorders nothing, and every batch can run as
  one: not larger than the configured size, on one domain, with no strategy label twice.
\<close>

theorem job_groups_runnable:
  "concat (group_jobs_by_domain (scheduler_batch_size batch_max bs) True jobs) = jobs \<and>
   (\<forall>b \<in> set (group_jobs_by_domain (scheduler_batch_size batch_max bs) True jobs).
      b \<noteq> [] \<and> length b \<le> scheduler_batch_size batch_max bs \<and>
      (\<forall>j \<in> set b. aj_domain j = aj_domain (hd b)) \<and> distinct (map job_label b))"
proof -
  have pos: "0 < scheduler_batch_size batch_max bs" by (simp add: scheduler_batch_size_def)
  have "b \<noteq> [] \<and> length b \<le> scheduler_batch_size batch_max bs \<and> (\<forall>j \<in> set b. aj_domain j = aj_domain (hd b)) \<and> distinct (map job_label b)"
    if "b \<in> set (group_jobs_by_domain (scheduler_batch_size batch_max bs) True jobs)" for b
    using group_jobs_props(2) [OF pos that] unfolding bridge_batch_def .
  then show ?thesis using job_batches.concat_batches by blast
qed

theorem job_groups_runnable_witness:
  "concat (group_jobs_by_domain (scheduler_batch_size 2000 2) True [from_item (mk_item ''a'' ''x'') ''d'' False]) =
     [from_item (mk_item ''a'' ''x'') ''d'' False]"
  using job_groups_runnable [of 2000 2 "[from_item (mk_item ''a'' ''x'') ''d'' False]"] by blast

text \<open>
  Whatever jobs a worker pushes, the accumulated batch stays within its size, never
  holds a pair twice, never mixes protocols and never holds a fan-out job.
\<close>

theorem accumulated_batch_ok:
  fixes bs :: int and ops :: "acop list"
  defines "a \<equiv> fold acstep ops (new_accumulator bs)"
  shows "length (ac_jobs a) \<le> ac_batch_size a \<and> distinct (map batch_job_key (ac_jobs a)) \<and>
    (\<forall>j \<in> set (ac_jobs a). \<not> aj_fanout j \<and> snd (snd (batch_job_key j)) = snd (snd (batch_job_key (hd (ac_jobs a)))))"
  using acc.run_inv [OF new_accumulator_inv, of ops bs] by (simp add: a_def ac_inv_def)

theorem accumulated_batch_ok_witness:
  "distinct (map batch_job_key (ac_jobs (fold acstep [AcPush (from_item (mk_item ''a'' ''x'') ''d'' False),
     AcPush (from_item (mk_item ''a'' ''x'') ''d'' False)] (new_accumulator 5))))"
  using accumulated_batch_ok [of "[AcPush (from_item (mk_item ''a'' ''x'') ''d'' False),
     AcPush (from_item (mk_item ''a'' ''x'') ''d'' False)]" 5] by blast

end
