(* ===== verification/BridgePool.thy ===== *)
theory BridgePool
  imports BatchScheduler Quarantine
begin

text \<open>
  \<^verbatim>\<open>engine/bridge_worker_pool.py\<close>: domain isolation, the batch probe with its accounting, the
  quarantine hook, and the worker that drains a fixed queue. The probe itself is an argument:
  \<open>outcome\<close> is what \<open>_run_probe_batch\<close> returns or raises. Accounting callbacks are recorded
  as a list of events in the order they are awaited; progress callbacks only report and are
  left out. A worker is modelled between its own awaits: what other workers do to the shared
  queue meanwhile is not.
\<close>

section \<open>Results and jobs\<close>

definition STOPPED_BEFORE_PROBE :: string where
  "STOPPED_BEFORE_PROBE = ''stopped before probe''"

record BridgeJob =
  bj_item :: StrategyItem
  bj_domain :: string
  bj_fanout :: bool

definition result_campaign_pass :: "TcpTestResult \<Rightarrow> bool" where
  "result_campaign_pass r = tcp_campaign_pass r"

datatype account =
    AccountOk BridgeJob bool TcpTestResult
  | AccountSkipped BridgeJob

fun account_job :: "account \<Rightarrow> BridgeJob" where
  "account_job (AccountOk j ok r) = j"
| "account_job (AccountSkipped j) = j"

section \<open>Domain isolation\<close>

record DomainIsolationPool =
  iso_enabled :: bool
  iso_active :: "string set"

definition claim_domain :: "string \<Rightarrow> DomainIsolationPool \<Rightarrow> bool \<times> DomainIsolationPool" where
  "claim_domain d dip =
     (if \<not> iso_enabled dip then (True, dip)
      else if d \<in> iso_active dip then (False, dip)
      else (True, dip\<lparr>iso_active := insert d (iso_active dip)\<rparr>))"

definition release_domains :: "string list \<Rightarrow> DomainIsolationPool \<Rightarrow> DomainIsolationPool" where
  "release_domains ds dip =
     (if \<not> iso_enabled dip \<or> ds = [] then dip else dip\<lparr>iso_active := iso_active dip - set ds\<rparr>)"

definition excluded_snapshot :: "string set option \<Rightarrow> DomainIsolationPool \<Rightarrow> string set" where
  "excluded_snapshot extra dip = (case extra of None \<Rightarrow> iso_active dip | Some x \<Rightarrow> iso_active dip \<union> x)"

section \<open>One batch\<close>

definition stopped_result :: "BridgeJob \<Rightarrow> TcpTestResult" where
  "stopped_result j = (new_tcp_result (bj_item j) (bj_domain j))\<lparr>tr_success := False, tr_error := STOPPED_BEFORE_PROBE\<rparr>"

definition pad_results :: "BridgeJob list \<Rightarrow> TcpTestResult list \<Rightarrow> TcpTestResult list" where
  "pad_results jobs results = results @ map stopped_result (drop (length results) jobs)"

definition account_one :: "BridgeJob \<times> TcpTestResult \<Rightarrow> account" where
  "account_one jr = (case jr of (j, r) \<Rightarrow>
     if tr_error r = STOPPED_BEFORE_PROBE then AccountSkipped j else AccountOk j (result_campaign_pass r) r)"

text \<open>
  \<open>zip(\<dots>, strict=True)\<close> raises only after the shorter list is used up, so an overlong result
  list is reported after every job has been accounted. The domains are released in any case.
\<close>

definition run_bridge_batch ::
    "BridgeJob list \<Rightarrow> TcpTestResult list result \<Rightarrow> DomainIsolationPool \<Rightarrow> account list \<times> py_error option \<times> DomainIsolationPool" where
  "run_bridge_batch jobs outcome dip =
     (if jobs = [] then ([], None, dip)
      else (let dip1 = release_domains (map bj_domain jobs) dip
            in case outcome of
                 Inl e \<Rightarrow> ([], Some e, dip1)
               | Inr results \<Rightarrow>
                   (let padded = pad_results jobs results
                    in (map account_one (zip jobs padded),
                        if length jobs < length padded then Some (ValueError ''zip() argument 2 is longer than argument 1'') else None,
                        dip1))))"

section \<open>Quarantine hook\<close>

record quarantine_write =
  qw_domain :: string
  qw_reason :: string
  qw_failed :: int
  qw_denylist :: "QInfo option"

definition persist_quarantine :: "DomainQuarantine \<Rightarrow> string \<Rightarrow> quarantine_write" where
  "persist_quarantine q d =
     (let info = dict_get (dq_quarantined q) d
      in \<lparr>qw_domain = d,
          qw_reason = (case info of None \<Rightarrow> [] | Some i \<Rightarrow> qi_reason i),
          qw_failed = (case info of None \<Rightarrow> 0 | Some i \<Rightarrow> qi_failed i),
          qw_denylist = (if qc_auto_denylist (dq_config q) then info else None)\<rparr>)"

definition record_quarantine_hit ::
    "string \<Rightarrow> string \<Rightarrow> bool \<Rightarrow> string \<Rightarrow> string \<Rightarrow> DomainQuarantine \<Rightarrow> string set \<Rightarrow> DomainQuarantine \<times> string set \<times> quarantine_write option" where
  "record_quarantine_hit ts d ok fail_phase err q excluded =
     (case record_probe ts d ok None fail_phase err q of
        (q1, None) \<Rightarrow> (q1, excluded, None)
      | (q1, Some newly) \<Rightarrow> (q1, insert newly excluded, Some (persist_quarantine q1 newly)))"

section \<open>The fixed-queue worker\<close>

record worker_env =
  we_batch_size :: nat
  we_excluded :: "string set"
  we_stop :: "nat \<Rightarrow> bool"
  we_probe :: "nat \<Rightarrow> BridgeJob list \<Rightarrow> TcpTestResult list result"

record worker_state =
  ws_queue :: "(StrategyItem \<times> string) list"
  ws_acc :: "(StrategyItem \<times> string) list"
  ws_iso :: DomainIsolationPool
  ws_log :: "account list"
  ws_looks :: nat
  ws_batches :: nat
  ws_error :: "py_error option"

definition mk_job :: "StrategyItem \<times> string \<Rightarrow> BridgeJob" where
  "mk_job x = \<lparr>bj_item = fst x, bj_domain = snd x, bj_fanout = False\<rparr>"

definition worker_flush :: "worker_env \<Rightarrow> worker_state \<Rightarrow> worker_state" where
  "worker_flush env s =
     (if ws_acc s = [] then s
      else (let batch = map mk_job (ws_acc s)
            in case run_bridge_batch batch (we_probe env (ws_batches s) batch) (ws_iso s) of
                 (lg, err, dip) \<Rightarrow>
                   s\<lparr>ws_acc := [], ws_iso := dip, ws_log := ws_log s @ lg, ws_batches := Suc (ws_batches s), ws_error := err\<rparr>))"

fun worker_loop :: "nat \<Rightarrow> worker_env \<Rightarrow> worker_state \<Rightarrow> worker_state" where
  "worker_loop 0 env s = s"
| "worker_loop (Suc n) env s =
     (if ws_error s \<noteq> None then s
      else if we_stop env (ws_looks s) then worker_flush env (s\<lparr>ws_looks := Suc (ws_looks s)\<rparr>)
      else (let s0 = s\<lparr>ws_looks := Suc (ws_looks s)\<rparr>
            in case ws_queue s0 of
                 [] \<Rightarrow> worker_flush env s0
               | (it, d) # rest \<Rightarrow>
                   (let s1 = s0\<lparr>ws_queue := rest\<rparr>
                    in if d \<in> we_excluded env
                       then worker_loop n env (s1\<lparr>ws_log := ws_log s1 @ [AccountSkipped (mk_job (it, d))]\<rparr>)
                       else (case claim_domain d (ws_iso s1) of
                               (False, dip) \<Rightarrow> worker_loop n env (worker_flush env (s1\<lparr>ws_queue := rest @ [(it, d)]\<rparr>))
                             | (True, dip) \<Rightarrow>
                                 (let s2 = s1\<lparr>ws_iso := dip, ws_acc := ws_acc s1 @ [(it, d)]\<rparr>
                                  in worker_loop n env (if we_batch_size env \<le> length (ws_acc s2) then worker_flush env s2 else s2))))))"

text \<open>Twice the queue length and one more iterations are enough, as the theorem below shows.\<close>

definition run_queue_bridge_worker :: "worker_env \<Rightarrow> DomainIsolationPool \<Rightarrow> (StrategyItem \<times> string) list \<Rightarrow> worker_state" where
  "run_queue_bridge_worker env dip queue =
     worker_loop (2 * length queue + 1) env
       \<lparr>ws_queue = queue, ws_acc = [], ws_iso = dip, ws_log = [], ws_looks = 0, ws_batches = 0, ws_error = None\<rparr>"

section \<open>A batch accounts every job once\<close>

lemma pad_results_length: "length results \<le> length jobs \<Longrightarrow> length (pad_results jobs results) = length jobs"
  by (simp add: pad_results_def)

lemma pad_results_ge: "length jobs \<le> length (pad_results jobs results)"
  by (simp add: pad_results_def)

lemma account_job_one [simp]: "account_job (account_one (j, r)) = j"
  by (simp add: account_one_def)

lemma map_account_zip: "length jobs \<le> length rs \<Longrightarrow> map account_job (map account_one (zip jobs rs)) = jobs"
proof (induction jobs arbitrary: rs)
  case (Cons j jobs)
  then show ?case by (cases rs) simp_all
qed simp

lemma run_bridge_batch_ok:
  assumes "outcome = Inr results" "length results \<le> length jobs" "jobs \<noteq> []"
  shows "\<exists>lg. run_bridge_batch jobs outcome dip = (lg, None, release_domains (map bj_domain jobs) dip) \<and> map account_job lg = jobs"
  using assms map_account_zip [of jobs "pad_results jobs results"]
  by (auto simp: run_bridge_batch_def Let_def pad_results_length)

section \<open>The worker drains its queue\<close>

definition well_behaved :: "worker_env \<Rightarrow> bool" where
  "well_behaved env = ((\<forall>n. \<not> we_stop env n) \<and>
     (\<forall>n jobs. \<exists>rs. we_probe env n jobs = Inr rs \<and> length rs \<le> length jobs))"

definition pair_of :: "account \<Rightarrow> StrategyItem \<times> string" where
  "pair_of a = (bj_item (account_job a), bj_domain (account_job a))"

lemma pair_of_mk [simp]: "pair_of (AccountSkipped (mk_job x)) = x"
  by (simp add: pair_of_def mk_job_def)

text \<open>
  \<open>base\<close> are the domains that were active before this worker claimed any: on those every job
  is excluded, as when no other worker is running.
\<close>

definition w_inv :: "worker_env \<Rightarrow> string set \<Rightarrow> (StrategyItem \<times> string) multiset \<Rightarrow> worker_state \<Rightarrow> bool" where
  "w_inv env base all s =
     (ws_error s = None \<and> mset (map pair_of (ws_log s)) + mset (ws_acc s) + mset (ws_queue s) = all \<and>
      base \<subseteq> we_excluded env \<and>
      (if iso_enabled (ws_iso s) then iso_active (ws_iso s) = base \<union> snd ` set (ws_acc s) \<and> base \<inter> snd ` set (ws_acc s) = {}
       else iso_active (ws_iso s) = base))"

lemma worker_flush_inv:
  assumes wb: "well_behaved env" and inv: "w_inv env base all s"
  shows "w_inv env base all (worker_flush env s)" "ws_acc (worker_flush env s) = []" "ws_queue (worker_flush env s) = ws_queue s"
proof -
  have "w_inv env base all (worker_flush env s) \<and> ws_acc (worker_flush env s) = [] \<and> ws_queue (worker_flush env s) = ws_queue s"
  proof (cases "ws_acc s = []")
    case True
    then show ?thesis using inv by (simp add: worker_flush_def)
  next
    case False
    define batch where "batch = map mk_job (ws_acc s)"
    have ne: "batch \<noteq> []" using False by (simp add: batch_def)
    obtain rs where rs: "we_probe env (ws_batches s) batch = Inr rs" "length rs \<le> length batch"
      using wb unfolding well_behaved_def by blast
    obtain lg where lg: "run_bridge_batch batch (we_probe env (ws_batches s) batch) (ws_iso s)
        = (lg, None, release_domains (map bj_domain batch) (ws_iso s))" "map account_job lg = batch"
      using run_bridge_batch_ok [OF rs ne] by blast
    have "map pair_of lg = map (\<lambda>j. (bj_item j, bj_domain j)) (map account_job lg)" by (simp add: pair_of_def)
    also have "\<dots> = ws_acc s" unfolding lg(2) by (simp add: batch_def comp_def) (simp add: mk_job_def)
    finally have pairs: "map pair_of lg = ws_acc s" .
    have ds: "set (map bj_domain batch) = snd ` set (ws_acc s)" by (auto simp: batch_def mk_job_def)
    have fl: "worker_flush env s = s\<lparr>ws_acc := [], ws_iso := release_domains (map bj_domain batch) (ws_iso s),
        ws_log := ws_log s @ lg, ws_batches := Suc (ws_batches s), ws_error := None\<rparr>"
      using False lg(1) by (simp add: worker_flush_def Let_def batch_def)
    show ?thesis using inv pairs ds ne unfolding fl w_inv_def release_domains_def
      by (auto simp: ac_simps) (metis disjoint_iff imageI snd_conv)
  qed
  then show "w_inv env base all (worker_flush env s)" "ws_acc (worker_flush env s) = []" "ws_queue (worker_flush env s) = ws_queue s"
    by blast+
qed

definition w_size :: "worker_state \<Rightarrow> nat" where
  "w_size s = 2 * length (ws_queue s) + (if ws_acc s = [] then 0 else 1)"

lemma w_inv_looks [simp]: "w_inv env base all (s\<lparr>ws_looks := n\<rparr>) = w_inv env base all s"
  by (simp add: w_inv_def)

lemma worker_loop_drains:
  "well_behaved env \<Longrightarrow> w_inv env base all s \<Longrightarrow> w_size s < n \<Longrightarrow>
   w_inv env base all (worker_loop n env s) \<and> ws_acc (worker_loop n env s) = [] \<and> ws_queue (worker_loop n env s) = []"
proof (induction n arbitrary: s)
  case 0
  then show ?case by simp
next
  case (Suc n)
  define s0 where "s0 = s\<lparr>ws_looks := Suc (ws_looks s)\<rparr>"
  have i0: "w_inv env base all s0" and z0: "w_size s0 < Suc n" and err: "ws_error s = None"
    and ns: "\<not> we_stop env k" for k
    using Suc.prems by (auto simp: s0_def w_size_def w_inv_def well_behaved_def)
  show ?case
  proof (cases "ws_queue s0")
    case Nil
    then show ?thesis using worker_flush_inv [OF Suc.prems(1) i0] err ns by (simp add: s0_def)
  next
    case (Cons x rest)
    obtain it d where x: "x = (it, d)" by fastforce
    define s1 where "s1 = s0\<lparr>ws_queue := rest\<rparr>"
    have q: "ws_queue s = (it, d) # rest" using Cons x by (simp add: s0_def)
    show ?thesis
    proof (cases "d \<in> we_excluded env")
      case True
      let ?s2 = "s1\<lparr>ws_log := ws_log s1 @ [AccountSkipped (mk_job (it, d))]\<rparr>"
      have "worker_loop (Suc n) env s = worker_loop n env ?s2" using True q err ns by (simp add: s0_def s1_def Let_def)
      moreover have "w_inv env base all ?s2" using i0 Cons x by (auto simp: w_inv_def s1_def)
      moreover have "w_size ?s2 < n" using z0 Cons by (simp add: w_size_def s1_def)
      ultimately show ?thesis using Suc.IH [OF Suc.prems(1)] by simp
    next
      case notex: False
      show ?thesis
      proof (cases "fst (claim_domain d (ws_iso s1))")
        case False
        let ?s2 = "worker_flush env (s1\<lparr>ws_queue := rest @ [(it, d)]\<rparr>)"
        have act: "iso_enabled (ws_iso s0)" "d \<in> iso_active (ws_iso s0)"
          using False by (auto simp: claim_domain_def s1_def split: if_splits)
        have c: "claim_domain d (ws_iso s) = (False, ws_iso s)"
          using act by (simp add: claim_domain_def s0_def)
        have ne: "ws_acc s0 \<noteq> []" using act i0 notex by (auto simp: w_inv_def)
        have i2: "w_inv env base all (s1\<lparr>ws_queue := rest @ [(it, d)]\<rparr>)"
          using i0 Cons x by (auto simp: w_inv_def s1_def)
        have "worker_loop (Suc n) env s = worker_loop n env ?s2"
          using c notex q err ns by (simp add: s0_def s1_def Let_def)
        moreover have "w_size ?s2 < n"
          using z0 Cons ne worker_flush_inv(2,3) [OF Suc.prems(1) i2] by (simp add: w_size_def)
        ultimately show ?thesis using Suc.IH [OF Suc.prems(1) worker_flush_inv(1) [OF Suc.prems(1) i2]] by simp
      next
        case True
        define s2 where "s2 = s1\<lparr>ws_iso := snd (claim_domain d (ws_iso s1)), ws_acc := ws_acc s1 @ [(it, d)]\<rparr>"
        have i2: "w_inv env base all s2"
          using i0 Cons x True notex by (auto simp: w_inv_def s2_def s1_def claim_domain_def split: if_splits)
        obtain i where c: "claim_domain d (ws_iso s) = (True, i)"
          using True by (cases "claim_domain d (ws_iso s)") (simp add: s1_def s0_def)
        let ?s3 = "if we_batch_size env \<le> length (ws_acc s2) then worker_flush env s2 else s2"
        have "worker_loop (Suc n) env s = worker_loop n env ?s3"
          using c notex q err ns by (simp add: s0_def s1_def s2_def Let_def)
        moreover have "w_inv env base all ?s3" using i2 worker_flush_inv(1) [OF Suc.prems(1) i2] by simp
        moreover have "w_size ?s3 < n"
          using z0 Cons worker_flush_inv(2,3) [OF Suc.prems(1) i2] by (auto simp: w_size_def s2_def s1_def)
        ultimately show ?thesis using Suc.IH [OF Suc.prems(1)] by simp
      qed
    qed
  qed
qed

section \<open>Properties\<close>


definition sample_worker_env :: worker_env where
  "sample_worker_env = \<lparr>we_batch_size = 2, we_excluded = {''x.com''}, we_stop = (\<lambda>_. False),
     we_probe = (\<lambda>n jobs. Inr (map (\<lambda>j. new_tcp_result (bj_item j) (bj_domain j)) jobs))\<rparr>"


end
