(* ===== verification/SettleProfile.thy ===== *)
theory SettleProfile
  imports Prelude
begin

text \<open>
  \<^verbatim>\<open>engine/settle_profile.py\<close>: the settle times and curl budgets of single strategies, taken from the
  rows of a benchmark. Reading and writing the file as JSON is left out; times are rationals.
\<close>

record TimingOverride =
  to_settle_max :: rat
  to_curl_timeout :: rat

record SettleProfile =
  st_domain :: string
  st_defaults :: "TimingOverride option"
  st_strategies :: "(string, TimingOverride) dict"
  st_source_path :: string

section \<open>Looking up a strategy\<close>

definition match_key :: "SettleProfile \<Rightarrow> string \<Rightarrow> string option" where
  "match_key p strategy =
     (let key = strip strategy; first = strip (before_char (CHR 0x0A) key)
      in if dict_get (st_strategies p) key \<noteq> None then Some key
         else if dict_get (st_strategies p) first \<noteq> None then Some first
         else None)"

definition lookup_timing :: "SettleProfile \<Rightarrow> string \<Rightarrow> TimingOverride option" where
  "lookup_timing p strategy =
     (case match_key p strategy of Some k \<Rightarrow> dict_get (st_strategies p) k | None \<Rightarrow> st_defaults p)"

definition settle_max_for :: "SettleProfile \<Rightarrow> string \<Rightarrow> rat option" where
  "settle_max_for p strategy = map_option to_settle_max (lookup_timing p strategy)"

definition curl_timeout_for :: "SettleProfile \<Rightarrow> string \<Rightarrow> rat option" where
  "curl_timeout_for p strategy = map_option to_curl_timeout (lookup_timing p strategy)"

section \<open>Building a profile\<close>

record bench_row =
  br_ok :: bool
  br_strategy_full :: string
  br_strategy :: string
  br_settle_max :: rat
  br_curl_t :: rat

definition row_strategy :: "bench_row \<Rightarrow> string" where
  "row_strategy r = (if br_strategy_full r \<noteq> [] then br_strategy_full r else br_strategy r)"

definition group_row :: "bench_row \<Rightarrow> (string, bench_row list) dict \<Rightarrow> (string, bench_row list) dict" where
  "group_row r groups =
     (if \<not> br_ok r then groups
      else if row_strategy r = [] then groups
      else dict_set (row_strategy r) (dict_getd groups (row_strategy r) [] @ [r]) groups)"

text \<open>\<^verbatim>\<open>min(passes, key=\<dots>)\<close> returns the first of the smallest.\<close>

definition faster :: "bench_row \<Rightarrow> bench_row \<Rightarrow> bool" where
  "faster a b = (br_settle_max a < br_settle_max b \<or> br_settle_max a = br_settle_max b \<and> br_curl_t a < br_curl_t b)"

definition best_row :: "bench_row list \<Rightarrow> bench_row" where
  "best_row rows = fold (\<lambda>r best. if faster r best then r else best) (tl rows) (hd rows)"

definition row_timing :: "bench_row \<Rightarrow> TimingOverride" where
  "row_timing r = \<lparr>to_settle_max = br_settle_max r, to_curl_timeout = br_curl_t r\<rparr>"

definition least :: "rat list \<Rightarrow> rat" where
  "least xs = fold min (tl xs) (hd xs)"

definition build_profile_from_rows :: "bench_row list \<Rightarrow> string \<Rightarrow> SettleProfile" where
  "build_profile_from_rows rows d =
     (let strategies = map (\<lambda>(strat, passes). (strat, row_timing (best_row passes))) (fold group_row rows []);
          defaults = (if strategies = [] then None
                      else Some \<lparr>to_settle_max = least (map (\<lambda>(k, t). to_settle_max t) strategies),
                                 to_curl_timeout = least (map (\<lambda>(k, t). to_curl_timeout t) strategies)\<rparr>)
      in \<lparr>st_domain = d, st_defaults = defaults, st_strategies = strategies, st_source_path = []\<rparr>)"

section \<open>Loading without being asked\<close>

definition AUTO_LOAD_MIN_CURL :: rat where
  "AUTO_LOAD_MIN_CURL = 2"

definition OFF_WORDS :: "string list" where
  "OFF_WORDS = [''0'', ''off'', ''false'', ''no'']"

text \<open>\<open>env\<close> is the variable \<^verbatim>\<open>BLOCKCHECKS_SETTLE_PROFILE\<close>, \<open>load\<close> the reading of a profile, with no path for the default one.\<close>

definition auto_load_profile :: "string \<Rightarrow> (string option \<Rightarrow> SettleProfile option) \<Rightarrow> SettleProfile option" where
  "auto_load_profile env load =
     (let path = strip env
      in if lower path \<in> set OFF_WORDS then None
         else case load (if path \<noteq> [] then Some path else None) of
                None \<Rightarrow> None
              | Some p \<Rightarrow>
                  (case st_defaults p of
                     Some t \<Rightarrow> if to_curl_timeout t < AUTO_LOAD_MIN_CURL then None else Some p
                   | None \<Rightarrow> Some p))"

section \<open>The profile holds the fastest passing rows\<close>

lemma best_row_fold:
  assumes "b' = fold (\<lambda>r best. if faster r best then r else best) rs b"
  shows "b' \<in> set (b # rs) \<and> (\<forall>r \<in> set (b # rs). \<not> faster r b')"
  using assms
proof (induction rs arbitrary: b)
  case Nil
  then show ?case by (simp add: faster_def)
next
  case (Cons r rs)
  let ?m = "if faster r b then r else b"
  have ih: "b' \<in> set (?m # rs)" "\<forall>x \<in> set (?m # rs). \<not> faster x b'"
    using Cons.IH [of ?m] Cons.prems by simp_all
  have "\<not> faster ?m b'" using ih(2) by simp
  then have "\<not> faster r b'" "\<not> faster b b'"
    by (auto simp: faster_def split: if_splits)
  then show ?case using ih by (auto split: if_splits)
qed

lemma best_row_least: "rows \<noteq> [] \<Longrightarrow> best_row rows \<in> set rows \<and> (\<forall>r \<in> set rows. \<not> faster r (best_row rows))"
  using best_row_fold [OF refl, of "tl rows" "hd rows"] by (cases rows) (simp_all add: best_row_def)

lemma groups_exact:
  "dict_getd (fold group_row rows groups) s [] =
     dict_getd groups s [] @ (if s = [] then [] else filter (\<lambda>r. br_ok r \<and> row_strategy r = s) rows)"
  by (induction rows arbitrary: groups) (auto simp: group_row_def dict_getd_def map_of_update')

lemma groups_nonempty:
  "\<forall>s. dict_get groups s \<noteq> Some [] \<Longrightarrow> \<forall>s. dict_get (fold group_row rows groups) s \<noteq> Some []"
proof (induction rows arbitrary: groups)
  case (Cons r rows)
  have "\<forall>s. dict_get (group_row r groups) s \<noteq> Some []"
    using Cons.prems by (simp add: group_row_def map_of_update')
  from Cons.IH [OF this] show ?case by simp
qed simp

text \<open>The override of a strategy is a passing row of it that no passing row of it undercuts.\<close>

theorem profile_has_fastest_row:
  assumes "s \<noteq> []"
  shows "case dict_get (st_strategies (build_profile_from_rows rows d)) s of
           None \<Rightarrow> \<not> (\<exists>r \<in> set rows. br_ok r \<and> row_strategy r = s)
         | Some t \<Rightarrow> \<exists>r \<in> set rows. br_ok r \<and> row_strategy r = s \<and> t = row_timing r \<and>
                       (\<forall>r' \<in> set rows. br_ok r' \<and> row_strategy r' = s \<longrightarrow> \<not> faster r' r)"
proof -
  let ?g = "fold group_row rows []" and ?p = "filter (\<lambda>r. br_ok r \<and> row_strategy r = s) rows"
  have get: "dict_get (st_strategies (build_profile_from_rows rows d)) s = map_option (\<lambda>ps. row_timing (best_row ps)) (dict_get ?g s)"
    by (simp add: build_profile_from_rows_def Let_def map_of_map)
  have exact: "dict_getd ?g s [] = ?p"
    using groups_exact [of rows "[]" s] assms by (simp add: dict_getd_def)
  have nonempty: "\<forall>s. dict_get ?g s \<noteq> Some []"
    by (rule groups_nonempty) (simp add:)
  show ?thesis
  proof (cases "dict_get ?g s")
    case None
    then have "?p = []" using exact by (simp add: dict_getd_def)
    then show ?thesis using None by (auto simp: get filter_empty_conv)
  next
    case (Some ps)
    then have "ps = ?p" "ps \<noteq> []" using exact nonempty by (auto simp: dict_getd_def)
    then show ?thesis using best_row_least [of ps] by (auto simp: get Some)
  qed
qed

end
