(* ===== verification/ProbeLog.thy ===== *)
theory ProbeLog
  imports RunStoreProps BridgePool SettleProfile
begin

text \<open>
  \<^verbatim>\<open>engine/probe_result_logger.py\<close>, the campaign logger of \<^verbatim>\<open>engine/async_runner.py\<close> and
  \<^verbatim>\<open>engine/probe_executors.py\<close>: one probe of a strategy, the result it fills in, and the row it leaves in the
  run store. The check inside the namespace is an argument: it raises with a text or returns the dictionary
  of the worker. The namespace a probe takes from the pool and gives back is the matter of \<^verbatim>\<open>NetnsPool\<close> and
  left out, as are log lines. What the resolver cache and the audit answer is part of the runner; the run
  store with its faults is that of \<^verbatim>\<open>RunStore\<close>. Offers to the provider store never raise and are returned.
\<close>

section \<open>The status of a result\<close>

definition NS_POOL_EXHAUSTED :: string where
  "NS_POOL_EXHAUSTED = ''ns pool exhausted''"

definition PROBE_SKIP_ERRORS :: "string list" where
  "PROBE_SKIP_ERRORS = [STOPPED_BEFORE_PROBE, NS_POOL_EXHAUSTED]"

definition tcp_row_status :: "TcpTestResult \<Rightarrow> string" where
  "tcp_row_status r =
     (if tr_error r \<in> set PROBE_SKIP_ERRORS then ''SKIPPED''
      else if tr_throttled r then ''THROTTLED''
      else if tr_success r then ''PASS''
      else ''FAIL'')"

definition opt_text :: "string option \<Rightarrow> string" where
  "opt_text x = (case x of None \<Rightarrow> [] | Some s \<Rightarrow> s)"

definition resolved_ip_for_log :: "string \<Rightarrow> string option \<Rightarrow> string" where
  "resolved_ip_for_log used_ip resolved_ip = (if used_ip \<noteq> [] then used_ip else opt_text resolved_ip)"

definition BACKEND_LUA :: string where "BACKEND_LUA = ''lua_bridge''"
definition BACKEND_ONESHOT :: string where "BACKEND_ONESHOT = ''oneshot''"

definition campaign_harvest_status :: "TcpTestResult \<Rightarrow> string \<Rightarrow> string" where
  "campaign_harvest_status r backend =
     (let base = tcp_row_status r
      in if base \<noteq> ''PASS'' then base
         else if backend = BACKEND_LUA then (if tr_success r \<and> tr_bridge_applied r = Some True then ''PASS'' else ''FAIL'')
         else if backend = BACKEND_ONESHOT then ''FAIL''
         else ''FAIL'')"

definition campaign_fail_phase :: "TcpTestResult \<Rightarrow> string \<Rightarrow> string \<Rightarrow> string" where
  "campaign_fail_phase r backend status =
     (let phase = tr_fail_phase r
      in if status = ''PASS'' then phase
         else if backend = BACKEND_ONESHOT \<and> tr_success r then or_else phase BACKEND_ONESHOT
         else if backend = BACKEND_LUA \<and> tr_success r \<and> tr_bridge_applied r \<noteq> Some True then or_else phase ''no_bridge_applied''
         else phase)"

section \<open>Rows\<close>

text \<open>What a caller knows about the resolution of the domain.\<close>

record log_context =
  lc_resolved_ip :: "string option"
  lc_dns_verdict :: string
  lc_doh_server :: string

text \<open>An offer to the provider store.\<close>

record pass_upsert =
  pu_strategy :: string
  pu_domain :: string
  pu_protocol :: string
  pu_latency_ms :: rat
  pu_http_code :: int

definition proto_db :: "StrategyItem \<Rightarrow> string" where
  "proto_db it = (if or_else (si_protocol it) ''tls12'' = ''http'' then ''http'' else ''tcp'')"

text \<open>The arguments of \<^verbatim>\<open>log_tcp\<close> that the three loggers share; the rest has its default.\<close>

definition base_entry :: "StrategyItem \<Rightarrow> string \<Rightarrow> string \<Rightarrow> TcpTestResult \<Rightarrow> log_context \<Rightarrow> tcp_entry" where
  "base_entry it d status r ctx =
     \<lparr>te_strategy = si_label it, te_proto = proto_db it, te_config_path = si_strategy it, te_domain = d, te_status = status,
      te_http_code = tr_http_code r, te_latency_ms = tr_latency_ms r, te_gateway_ms = 0,
      te_content_valid = tr_content_valid r, te_error = tr_error r, te_timestamp = [],
      te_read_rate_bps = tr_read_rate_bps r, te_resolved_ip = resolved_ip_for_log (tr_used_ip r) (lc_resolved_ip ctx),
      te_dns_verdict = lc_dns_verdict ctx, te_doh_server = lc_doh_server ctx, te_fail_phase = [],
      te_bridge_applied = None, te_probe_host = tr_probe_host r, te_bridge_batch_id = 0, te_bridge_gen = 0,
      te_epoch_ms = 0, te_settle_ms = tr_settle_ms r, te_content_len = Some (tr_content_length r)\<rparr>"

definition bridge_entry :: "StrategyItem \<Rightarrow> string \<Rightarrow> string \<Rightarrow> string \<Rightarrow> TcpTestResult \<Rightarrow> log_context \<Rightarrow> tcp_entry" where
  "bridge_entry it d status phase r ctx =
     (base_entry it d status r ctx)\<lparr>te_fail_phase := phase, te_bridge_applied := tr_bridge_applied r,
        te_bridge_batch_id := tr_bridge_batch_id r, te_bridge_gen := tr_bridge_gen r\<rparr>"

definition upsert_of :: "StrategyItem \<Rightarrow> string \<Rightarrow> string \<Rightarrow> rat \<Rightarrow> int \<Rightarrow> pass_upsert" where
  "upsert_of it d proto ms http =
     \<lparr>pu_strategy = si_strategy it, pu_domain = d, pu_protocol = proto, pu_latency_ms = ms, pu_http_code = http\<rparr>"

definition offer :: "bool \<Rightarrow> StrategyItem \<Rightarrow> string \<Rightarrow> TcpTestResult \<Rightarrow> pass_upsert list" where
  "offer c it d r = (if c then [upsert_of it d (proto_db it) (tr_latency_ms r) (tr_http_code r)] else [])"

section \<open>The plain logger\<close>

definition plain_log_tcp_probe ::
    "store_env \<Rightarrow> bool \<Rightarrow> StrategyItem \<Rightarrow> string \<Rightarrow> TcpTestResult \<Rightarrow> log_context \<Rightarrow> bool \<Rightarrow> (pass_upsert list) db_op" where
  "plain_log_tcp_probe env db it d r ctx save_data_block =
     (if \<not> db then return_op []
      else then_op (log_tcp env (base_entry it d (tcp_row_status r) r ctx))
             (\<lambda>_. return_op (offer (save_data_block \<and> tr_success r) it d r)))"

definition plain_log_tcp_result ::
    "store_env \<Rightarrow> bool \<Rightarrow> StrategyItem \<Rightarrow> string \<Rightarrow> TcpTestResult \<Rightarrow> log_context \<Rightarrow> (pass_upsert list) db_op" where
  "plain_log_tcp_result env db it d r ctx =
     (if \<not> db then return_op []
      else then_op (log_tcp env (bridge_entry it d (tcp_row_status r) (tr_fail_phase r) r ctx))
             (\<lambda>_. return_op (offer (tcp_row_status r = ''PASS'') it d r)))"

definition quic_entry :: "StrategyItem \<Rightarrow> string \<Rightarrow> TcpTestResult \<Rightarrow> log_context \<Rightarrow> tcp_entry" where
  "quic_entry it d r ctx =
     (base_entry it d (if tr_success r then ''PASS'' else ''FAIL'') r ctx)
       \<lparr>te_proto := ''quic'', te_content_valid := True, te_read_rate_bps := 0, te_resolved_ip := opt_text (lc_resolved_ip ctx)\<rparr>"

definition log_quic_result ::
    "store_env \<Rightarrow> bool \<Rightarrow> StrategyItem \<Rightarrow> string \<Rightarrow> TcpTestResult \<Rightarrow> log_context \<Rightarrow> (pass_upsert list) db_op" where
  "log_quic_result env db it d r ctx =
     (if \<not> db then return_op [] else then_op (log_tcp env (quic_entry it d r ctx)) (\<lambda>_. return_op []))"

definition udp_log_entry :: "string \<Rightarrow> string \<Rightarrow> bool \<Rightarrow> rat \<Rightarrow> string \<Rightarrow> string \<Rightarrow> udp_entry" where
  "udp_log_entry l target ok ms err cfg =
     \<lparr>ue_strategy = l, ue_config_path = cfg, ue_target = target, ue_status = (if ok then ''PASS'' else ''FAIL''),
      ue_latency_ms = ms, ue_error = err, ue_timestamp = [], ue_epoch_ms = 0\<rparr>"

definition log_udp_result :: "store_env \<Rightarrow> bool \<Rightarrow> StrategyItem \<Rightarrow> string \<Rightarrow> UdpTestResult \<Rightarrow> (pass_upsert list) db_op" where
  "log_udp_result env db it target r =
     then_op (when_op db (log_udp env (udp_log_entry (si_label it) target (ur_success r) (ur_latency_ms r) (ur_error r) (si_strategy it))))
       (\<lambda>_. return_op (if ur_success r then [upsert_of it target ''udp'' (ur_latency_ms r) 0] else []))"

section \<open>The campaign logger\<close>

definition log_tcp_campaign ::
    "store_env \<Rightarrow> bool \<Rightarrow> string \<Rightarrow> StrategyItem \<Rightarrow> string \<Rightarrow> TcpTestResult \<Rightarrow> log_context \<Rightarrow> bool \<Rightarrow> (pass_upsert list) db_op" where
  "log_tcp_campaign env db backend it d r ctx save_data_block =
     (if \<not> db then return_op []
      else let status = campaign_harvest_status r backend;
               phase = campaign_fail_phase r backend status
           in then_op (log_tcp env (bridge_entry it d status phase r ctx))
                (\<lambda>_. return_op (offer (save_data_block \<and> status = ''PASS'') it d r)))"

text \<open>\<open>backend\<close> is the field that \<^verbatim>\<open>set_probe_backend\<close> sets.\<close>

definition campaign_log_result ::
    "store_env \<Rightarrow> bool \<Rightarrow> string \<Rightarrow> StrategyItem \<Rightarrow> string \<Rightarrow> TcpTestResult \<Rightarrow> log_context \<Rightarrow> (pass_upsert list) db_op" where
  "campaign_log_result env db backend it d r ctx = log_tcp_campaign env db backend it d r ctx True"

definition campaign_log_probe ::
    "store_env \<Rightarrow> bool \<Rightarrow> StrategyItem \<Rightarrow> string \<Rightarrow> TcpTestResult \<Rightarrow> log_context \<Rightarrow> bool \<Rightarrow> (pass_upsert list) db_op" where
  "campaign_log_probe env db it d r ctx save_data_block = log_tcp_campaign env db BACKEND_ONESHOT it d r ctx save_data_block"

section \<open>What a worker returns\<close>

text \<open>The dictionary of a worker; an absent key is \<open>None\<close>, and no value is null.\<close>

record probe_data =
  pd_success :: "bool option"
  pd_http_code :: "int option"
  pd_latency_ms :: "rat option"
  pd_content_len :: "int option"
  pd_content_ok :: "bool option"
  pd_throttled :: "bool option"
  pd_read_rate_bps :: "rat option"
  pd_error :: "string option"
  pd_used_ip :: "string option"
  pd_resolve_name :: "string option"
  pd_bridge_rst_in :: "bool option"
  pd_bridge_rst_in_ttl :: "int option"
  pd_bridge_applied :: "bool option"
  pd_batch_id :: "int option"
  pd_bridge_gen :: "int option"
  pd_detail :: "string option"

definition no_data :: probe_data where
  "no_data = \<lparr>pd_success = None, pd_http_code = None, pd_latency_ms = None, pd_content_len = None, pd_content_ok = None,
     pd_throttled = None, pd_read_rate_bps = None, pd_error = None, pd_used_ip = None, pd_resolve_name = None,
     pd_bridge_rst_in = None, pd_bridge_rst_in_ttl = None, pd_bridge_applied = None, pd_batch_id = None,
     pd_bridge_gen = None, pd_detail = None\<rparr>"

definition get_or :: "'a option \<Rightarrow> 'a \<Rightarrow> 'a" where
  "get_or x dflt = (case x of None \<Rightarrow> dflt | Some v \<Rightarrow> v)"

definition data_success :: "probe_data \<Rightarrow> bool" where
  "data_success data = get_or (pd_success data) False"

text \<open>The fields both \<^verbatim>\<open>test_tcp\<close> and \<^verbatim>\<open>tcp_result_from_data\<close> read.\<close>

definition fill_result :: "probe_data \<Rightarrow> TcpTestResult \<Rightarrow> TcpTestResult" where
  "fill_result data r =
     r\<lparr>tr_success := data_success data, tr_http_code := get_or (pd_http_code data) 0,
       tr_latency_ms := get_or (pd_latency_ms data) 0, tr_content_length := get_or (pd_content_len data) 0,
       tr_content_valid := get_or (pd_content_ok data) True, tr_throttled := get_or (pd_throttled data) False,
       tr_read_rate_bps := get_or (pd_read_rate_bps data) 0, tr_error := opt_text (pd_error data),
       tr_used_ip := opt_text (pd_used_ip data), tr_probe_host := opt_text (pd_resolve_name data)\<rparr>"

definition tcp_result_from_data :: "StrategyItem \<Rightarrow> string \<Rightarrow> probe_data \<Rightarrow> TcpTestResult result" where
  "tcp_result_from_data it d data =
     (let r = (fill_result data (new_tcp_result it d))
                \<lparr>tr_rst_in_ttl := get_or (pd_bridge_rst_in_ttl data) 0, tr_bridge_applied := pd_bridge_applied data,
                 tr_bridge_batch_id := get_or (pd_batch_id data) 0, tr_bridge_gen := get_or (pd_bridge_gen data) 0\<rparr>
      in if get_or (pd_bridge_rst_in data) False \<and> \<not> tr_success r then Inr (r\<lparr>tr_fail_phase := phase_value TLS_RST_AT_SNI\<rparr>)
         else if tr_error r \<noteq> [] \<and> \<not> tr_success r then
           (case classify_fail_phase (tr_error r) (tr_http_code r) of
              Inl e \<Rightarrow> Inl e
            | Inr p \<Rightarrow> Inr (r\<lparr>tr_fail_phase := phase_value p\<rparr>))
         else Inr r)"

section \<open>The executors\<close>

record tcp_runner =
  xr_db :: bool
  xr_secure_dns :: bool
  xr_dns_cache :: bool
  xr_primary_ip :: "string \<Rightarrow> string option"
  xr_candidates :: "string \<Rightarrow> string list option"
  xr_audit :: "string \<Rightarrow> (string \<times> string) option"
  xr_doh_server :: string
  xr_try_wssize :: bool
  xr_settle_profile :: "SettleProfile option"

text \<open>
  The calls of the checks, with the arguments that differ between calls of one runner; \<open>TcpCheckMulti\<close> has
  one entry for each domain of the list.
\<close>

datatype probe_call =
    TcpCheck (pc_item: StrategyItem) (pc_domain: string) (pc_timeout: rat) (pc_extra: string)
      (pc_resolved: "string option") (pc_candidates: "string list") (pc_settle: "rat option")
  | QuicCheck StrategyItem string string rat "string option"
  | UdpCheck StrategyItem string int rat

type_synonym probe = "probe_call \<Rightarrow> string + probe_data"

definition timing_for :: "tcp_runner \<Rightarrow> StrategyItem \<Rightarrow> rat \<Rightarrow> rat \<times> rat option" where
  "timing_for x it timeout =
     (case xr_settle_profile x of
        None \<Rightarrow> (timeout, None)
      | Some p \<Rightarrow> (case lookup_timing p (si_strategy it) of
                    None \<Rightarrow> (timeout, None)
                  | Some t \<Rightarrow> (to_curl_timeout t, Some (to_settle_max t))))"

definition resolve_domain_dns :: "tcp_runner \<Rightarrow> string \<Rightarrow> log_context" where
  "resolve_domain_dns x d =
     (if xr_secure_dns x \<and> xr_dns_cache x then
        (case xr_audit x d of
           None \<Rightarrow> \<lparr>lc_resolved_ip = xr_primary_ip x d, lc_dns_verdict = [], lc_doh_server = []\<rparr>
         | Some (verdict, server) \<Rightarrow>
             \<lparr>lc_resolved_ip = xr_primary_ip x d, lc_dns_verdict = verdict, lc_doh_server = or_else server (xr_doh_server x)\<rparr>)
      else \<lparr>lc_resolved_ip = None, lc_dns_verdict = [], lc_doh_server = []\<rparr>)"

definition resolve_domain_ips :: "tcp_runner \<Rightarrow> string \<Rightarrow> string list" where
  "resolve_domain_ips x d = (if xr_dns_cache x then get_or (xr_candidates x d) [] else [])"

text \<open>A check, and the second one with the window-size companion when the first failed.\<close>

definition check_with_retry :: "tcp_runner \<Rightarrow> probe \<Rightarrow> StrategyItem \<Rightarrow> string \<Rightarrow> rat \<Rightarrow> string option \<Rightarrow> rat option \<Rightarrow> probe_data \<Rightarrow> string + probe_data" where
  "check_with_retry x probe it d timeout ip settle data =
     (if should_retry (data_success data) (xr_try_wssize x) (or_else (si_protocol it) ''tls12'') (si_strategy it) (si_is_config it)
      then probe (TcpCheck it d (retry_timeout WSSIZE_RETRY timeout) (wp_cmd WSSIZE_RETRY) ip (resolve_domain_ips x d) settle)
      else Inr data)"

definition exc_text :: "db_exc \<Rightarrow> string" where
  "exc_text e = (case e of OperationalError m \<Rightarrow> m | OtherError m \<Rightarrow> m | CancelledError \<Rightarrow> [])"

text \<open>\<^verbatim>\<open>except Exception as e\<close>: a cancellation passes through.\<close>

definition catch_op :: "(string \<Rightarrow> 'a) \<Rightarrow> 'a db_op \<Rightarrow> 'a db_op" where
  "catch_op h m s =
     (case m s of
        (Inr x, s1) \<Rightarrow> (Inr x, s1)
      | (Inl CancelledError, s1) \<Rightarrow> (Inl CancelledError, s1)
      | (Inl e, s1) \<Rightarrow> (Inr (h (exc_text e)), s1))"

fun py_error_text :: "py_error \<Rightarrow> string" where
  "py_error_text (ValueError m) = m"
| "py_error_text (KeyError m) = m"
| "py_error_text IndexError = ''list index out of range''"
| "py_error_text (TypeError m) = m"
| "py_error_text OverflowError = ''overflow''"
| "py_error_text (OSError m) = m"
| "py_error_text (SystemExit m) = m"

definition with_error :: "string \<Rightarrow> TcpTestResult \<Rightarrow> TcpTestResult" where
  "with_error msg r = r\<lparr>tr_error := take 200 msg\<rparr>"

type_synonym tested = "TcpTestResult \<times> pass_upsert list"

definition log_tested :: "TcpTestResult \<Rightarrow> (pass_upsert list) db_op \<Rightarrow> tested db_op" where
  "log_tested r m = then_op m (\<lambda>us. return_op (r, us))"

definition no_ip :: "string option \<Rightarrow> bool" where
  "no_ip ip = (opt_text ip = [])"

definition checked_result :: "tcp_runner \<Rightarrow> probe \<Rightarrow> StrategyItem \<Rightarrow> string \<Rightarrow> rat \<Rightarrow> rat option \<Rightarrow> string + TcpTestResult" where
  "checked_result x probe it d timeout settle =
     (let ip = lc_resolved_ip (resolve_domain_dns x d)
      in case probe (TcpCheck it d timeout [] ip (resolve_domain_ips x d) settle) of
           Inl msg \<Rightarrow> Inl msg
         | Inr data0 \<Rightarrow>
             (case check_with_retry x probe it d timeout ip settle data0 of
                Inl msg \<Rightarrow> Inl msg
              | Inr data \<Rightarrow> Inr (fill_result data (new_tcp_result it d))))"

definition nodata_skip :: "tcp_runner \<Rightarrow> string \<Rightarrow> bool" where
  "nodata_skip x d = (xr_secure_dns x \<and> xr_dns_cache x \<and> no_ip (lc_resolved_ip (resolve_domain_dns x d)))"

definition test_tcp :: "store_env \<Rightarrow> tcp_runner \<Rightarrow> probe \<Rightarrow> StrategyItem \<Rightarrow> string \<Rightarrow> rat \<Rightarrow> tested db_op" where
  "test_tcp env x probe it d timeout0 =
     (let (timeout, settle) = timing_for x it timeout0; ctx = resolve_domain_dns x d
      in if nodata_skip x d then
           (let r = (new_tcp_result it d)\<lparr>tr_error := DNS_NODATA_SKIP, tr_fail_phase := phase_value DNS_RESOLVE\<rparr>
            in log_tested r (campaign_log_probe env (xr_db x) it d r ctx False))
         else
           (case checked_result x probe it d timeout settle of
              Inl msg \<Rightarrow> return_op (with_error msg (new_tcp_result it d), [])
            | Inr r \<Rightarrow> catch_op (\<lambda>msg. (with_error msg r, [])) (log_tested r (campaign_log_probe env (xr_db x) it d r ctx False))))"

text \<open>
  The loop of \<^verbatim>\<open>test_tcp_domains\<close> over the answers of one fan-out check. It stops at the first exception, with
  the results so far and the offers made; the caller adds an error for each domain without a result.
\<close>

definition missing_results :: "StrategyItem \<Rightarrow> string \<Rightarrow> string list \<Rightarrow> TcpTestResult list \<Rightarrow> TcpTestResult list" where
  "missing_results it msg ds results =
     foldl (\<lambda>rs d. if list_ex (\<lambda>r. tr_domain r = d) rs then rs else rs @ [with_error msg (new_tcp_result it d)]) results ds"

fun test_answers ::
    "store_env \<Rightarrow> tcp_runner \<Rightarrow> string \<Rightarrow> probe \<Rightarrow> StrategyItem \<Rightarrow> rat \<Rightarrow> rat option \<Rightarrow> (string, probe_data) dict \<Rightarrow>
     string list \<Rightarrow> TcpTestResult list \<Rightarrow> pass_upsert list \<Rightarrow> (string option \<times> TcpTestResult list \<times> pass_upsert list) db_op" where
  "test_answers env x backend probe it timeout settle answers [] results us = return_op (None, results, us)"
| "test_answers env x backend probe it timeout settle answers (d # ds) results us =
     (case check_with_retry x probe it d timeout (lc_resolved_ip (resolve_domain_dns x d)) settle (dict_getd answers d no_data) of
        Inl msg \<Rightarrow> return_op (Some msg, results, us)
      | Inr data \<Rightarrow>
          (case tcp_result_from_data it d data of
             Inl e \<Rightarrow> return_op (Some (py_error_text e), results, us)
           | Inr r \<Rightarrow>
               then_op
                 (catch_op Inl (then_op (campaign_log_result env (xr_db x) backend it d r (resolve_domain_dns x d)) (\<lambda>u. return_op (Inr u))))
                 (\<lambda>logged. case logged of
                    Inl msg \<Rightarrow> return_op (Some msg, results, us)
                  | Inr u \<Rightarrow> test_answers env x backend probe it timeout settle answers ds (results @ [r]) (us @ u))))"

text \<open>\<open>multi\<close> is the fan-out check; \<open>backend\<close> is \<open>BACKEND_ONESHOT\<close> unless another task sets the field meanwhile.\<close>

definition test_tcp_domains ::
    "store_env \<Rightarrow> tcp_runner \<Rightarrow> string \<Rightarrow> probe \<Rightarrow> (rat \<Rightarrow> string + (string, probe_data) dict) \<Rightarrow> StrategyItem \<Rightarrow> string list \<Rightarrow> rat \<Rightarrow>
     (TcpTestResult list \<times> pass_upsert list) db_op" where
  "test_tcp_domains env x backend probe multi it ds timeout0 =
     (if ds = [] then return_op ([], [])
      else let (timeout, settle) = timing_for x it timeout0
           in case multi timeout of
                Inl msg \<Rightarrow> return_op (missing_results it msg ds [], [])
              | Inr answers \<Rightarrow>
                  then_op (test_answers env x backend probe it timeout settle answers ds [] [])
                    (\<lambda>(failure, results, us). return_op
                       (case failure of None \<Rightarrow> results | Some msg \<Rightarrow> missing_results it msg ds results, us)))"

section \<open>QUIC and UDP\<close>

definition is_quic_dropped :: "string \<Rightarrow> bool" where
  "is_quic_dropped err = (contains ''timeout'' (lower err) \<or> contains ''timed out'' (lower err))"

text \<open>\<open>switch\<close> is the variable \<^verbatim>\<open>BLOCKCHECKS_QUIC_FALLBACK\<close>.\<close>

definition quic_fallback_variants :: "string \<Rightarrow> string \<Rightarrow> string list" where
  "quic_fallback_variants switch strategy =
     (if strategy = [] \<or> startswith (strip strategy) ''--'' then []
      else if lower (strip switch) \<in> set [''0'', ''false'', ''off'', ''no''] then []
      else map (\<lambda>suffix. strip strategy @ suffix) (filter (\<lambda>suffix. \<not> contains suffix (strip strategy)) ['':badsum'', '':ip_ttl=1'']))"

definition fill_quic :: "probe_data \<Rightarrow> TcpTestResult \<Rightarrow> TcpTestResult" where
  "fill_quic data r =
     r\<lparr>tr_success := data_success data, tr_http_code := get_or (pd_http_code data) 0,
       tr_latency_ms := get_or (pd_latency_ms data) 0, tr_content_length := get_or (pd_content_len data) 0,
       tr_error := opt_text (pd_error data), tr_probe_host := opt_text (pd_resolve_name data)\<rparr>"

text \<open>The loop over the variants: whether it ended by an exception, and the result as far as it was filled in.\<close>

fun try_variants :: "probe \<Rightarrow> StrategyItem \<Rightarrow> string \<Rightarrow> rat \<Rightarrow> rat \<Rightarrow> string option \<Rightarrow> string list \<Rightarrow> TcpTestResult \<Rightarrow> string option \<times> TcpTestResult" where
  "try_variants probe it d timeout later ip [] r = (None, r)"
| "try_variants probe it d timeout later ip (v # vs) r =
     (case probe (QuicCheck it v d timeout ip) of
        Inl msg \<Rightarrow> (Some msg, r)
      | Inr data \<Rightarrow>
          (let r1 = fill_quic data r
           in if tr_success r1 \<or> \<not> is_quic_dropped (tr_error r1) then (None, r1)
              else try_variants probe it d later later ip vs r1))"

definition test_quic :: "store_env \<Rightarrow> tcp_runner \<Rightarrow> probe \<Rightarrow> string \<Rightarrow> StrategyItem \<Rightarrow> string \<Rightarrow> rat \<Rightarrow> tested db_op" where
  "test_quic env x probe switch it d timeout =
     (let ctx = resolve_domain_dns x d
      in case try_variants probe it d timeout (min timeout 3) (lc_resolved_ip ctx)
                (si_strategy it # quic_fallback_variants switch (si_strategy it)) (new_tcp_result it d) of
           (Some msg, r) \<Rightarrow> return_op (with_error msg r, [])
         | (None, r) \<Rightarrow> catch_op (\<lambda>msg. (with_error msg r, [])) (log_tested r (log_quic_result env (xr_db x) it d r ctx)))"

definition udp_target :: "string \<Rightarrow> int \<Rightarrow> string" where
  "udp_target ip port = ip @ '':'' @ str_int port"

definition new_udp_result :: "StrategyItem \<Rightarrow> string \<Rightarrow> UdpTestResult" where
  "new_udp_result it target = \<lparr>ur_item = it, ur_target = target, ur_success = False, ur_latency_ms = 0, ur_error = []\<rparr>"

definition fill_udp :: "probe_data \<Rightarrow> UdpTestResult \<Rightarrow> UdpTestResult" where
  "fill_udp data r = r\<lparr>ur_success := data_success data, ur_latency_ms := get_or (pd_latency_ms data) 0, ur_error := opt_text (pd_detail data)\<rparr>"

definition udp_error :: "string \<Rightarrow> UdpTestResult \<Rightarrow> UdpTestResult" where
  "udp_error msg r = r\<lparr>ur_error := take 200 msg\<rparr>"

definition test_udp :: "store_env \<Rightarrow> tcp_runner \<Rightarrow> probe \<Rightarrow> StrategyItem \<Rightarrow> string \<Rightarrow> int \<Rightarrow> rat \<Rightarrow> (UdpTestResult \<times> pass_upsert list) db_op" where
  "test_udp env x probe it ip port timeout =
     (let r0 = new_udp_result it (udp_target ip port)
      in case probe (UdpCheck it ip port timeout) of
           Inl msg \<Rightarrow> return_op (udp_error msg r0, [])
         | Inr data \<Rightarrow>
             (let r = fill_udp data r0
              in catch_op (\<lambda>msg. (udp_error msg r, []))
                   (then_op (log_udp_result env (xr_db x) it (udp_target ip port) r) (\<lambda>us. return_op (r, us)))))"

section \<open>A campaign of probes\<close>

text \<open>
  What the runner does with the store while it tests: single probes, fan-out probes, the logging of one result of
  a bridge batch, QUIC and UDP probes. The text in a fan-out probe and in the logging of a batch is the backend that
  the logger has at that time; \<^verbatim>\<open>AsyncTestRunner\<close> sets the one-shot backend before a probe and the bridge after it.
\<close>

datatype probe_op =
    OneTcp probe StrategyItem string rat
  | ManyTcp string probe "rat \<Rightarrow> string + (string, probe_data) dict" StrategyItem "string list" rat
  | BridgeLog string StrategyItem string TcpTestResult log_context
  | OneQuic probe string StrategyItem string rat
  | OneUdp probe StrategyItem string int rat

fun run_probe :: "store_env \<Rightarrow> tcp_runner \<Rightarrow> probe_op \<Rightarrow> unit db_op" where
  "run_probe env x (OneTcp probe it d t) = done_op (test_tcp env x probe it d t)"
| "run_probe env x (ManyTcp backend probe multi it ds t) = done_op (test_tcp_domains env x backend probe multi it ds t)"
| "run_probe env x (BridgeLog backend it d r ctx) = done_op (campaign_log_result env (xr_db x) backend it d r ctx)"
| "run_probe env x (OneQuic probe switch it d t) = done_op (test_quic env x probe switch it d t)"
| "run_probe env x (OneUdp probe it ip port t) = done_op (test_udp env x probe it ip port t)"

definition probe_step :: "store_env \<Rightarrow> tcp_runner \<Rightarrow> probe_op \<Rightarrow> RunStore \<Rightarrow> RunStore" where
  "probe_step env x p s = snd (run_probe env x p s)"

text \<open>A row of the campaign that counts as a pass of TCP or HTTP was applied by the bridge.\<close>

definition harvest_ok :: "tcp_entry \<Rightarrow> bool" where
  "harvest_ok e = (te_status e = ''PASS'' \<and> te_proto e \<noteq> ''quic'' \<longrightarrow> te_bridge_applied e = Some True)"

section \<open>Operations that keep an invariant of the store\<close>

definition keeps :: "(RunStore \<Rightarrow> bool) \<Rightarrow> 'a db_op \<Rightarrow> bool" where
  "keeps I m = (\<forall>s. I s \<longrightarrow> I (snd (m s)))"

lemma keepsD: "keeps I m \<Longrightarrow> I s \<Longrightarrow> I (snd (m s))"
  by (simp add: keeps_def)

lemma keeps_return: "keeps I (return_op x)"
  by (simp add: keeps_def return_op_def)

lemma keeps_then: "keeps I m \<Longrightarrow> (\<And>x. keeps I (f x)) \<Longrightarrow> keeps I (then_op m f)"
  unfolding keeps_def then_op_def by (fastforce split: prod.splits sum.splits)

lemma keeps_when: "keeps I m \<Longrightarrow> keeps I (when_op c m)"
  by (simp add: when_op_def keeps_return)

lemma keeps_catch: "keeps I m \<Longrightarrow> keeps I (catch_op h m)"
  unfolding keeps_def catch_op_def by (fastforce split: prod.splits sum.splits db_exc.splits)

lemma keeps_done: "keeps I m \<Longrightarrow> keeps I (done_op m)"
  unfolding done_op_def by (rule keeps_then [OF _ keeps_return])

lemmas keeps_intros = keeps_return keeps_then keeps_when keeps_catch keeps_done

section \<open>The rows of a campaign\<close>

definition harvest_inv :: "store_env \<Rightarrow> RunStore \<Rightarrow> bool" where
  "harvest_inv env s = (store_inv s \<and> list_all harvest_ok (tcp_log s))"

definition harvest_arrivals :: "store_env \<Rightarrow> bool" where
  "harvest_arrivals env = (\<forall>n. list_all harvest_ok (fst (sv_arrivals env n)))"

lemma harvest_plain [simp]: "harvest_ok (plain e) = harvest_ok e"
  by (simp add: harvest_ok_def plain_def)

lemma harvest_stamp [simp]: "harvest_ok (stamp_tcp env n e) = harvest_ok e"
  by (simp add: harvest_ok_def stamp_tcp_def)

lemma harvest_arr: "harvest_arrivals env \<Longrightarrow> list_all harvest_ok (arr_tcp env a b)"
  by (auto simp: arr_tcp_def harvest_arrivals_def list_all_iff)

lemma keeps_step:
  assumes "steady_env env" "harvest_arrivals env" and "\<forall>n. list_all harvest_ok (own_tcp env n a)"
  shows "keeps (harvest_inv env) (run_op env a)"
  unfolding keeps_def harvest_inv_def
proof (intro allI impI)
  fix s
  assume s: "store_inv s \<and> list_all harvest_ok (tcp_log s)"
  then have "list_all harvest_ok (emits_tcp env a s)"
    using assms(3) harvest_arr [OF assms(2)] by (auto simp: emits_tcp_def list_all_iff)
  then show "store_inv (snd (run_op env a s)) \<and> list_all harvest_ok (tcp_log (snd (run_op env a s)))"
    using step_logs [OF assms(1), of s a] s by (simp add: sstep_def)
qed

lemma keeps_log_tcp: "steady_env env \<Longrightarrow> harvest_arrivals env \<Longrightarrow> harvest_ok e \<Longrightarrow> keeps (harvest_inv env) (log_tcp env e)"
  using keeps_step [of env "LogTcp e"] by simp

lemma keeps_log_udp: "steady_env env \<Longrightarrow> harvest_arrivals env \<Longrightarrow> keeps (harvest_inv env) (log_udp env e)"
  using keeps_step [of env "LogUdp e"] by simp

lemma harvest_campaign: "harvest_ok (bridge_entry it d (campaign_harvest_status r backend) phase r ctx)"
  by (auto simp: harvest_ok_def bridge_entry_def base_entry_def campaign_harvest_status_def Let_def)

lemma harvest_quic: "harvest_ok (quic_entry it d r ctx)"
  by (simp add: harvest_ok_def quic_entry_def)

lemma keeps_campaign:
  assumes "steady_env env" "harvest_arrivals env"
  shows "keeps (harvest_inv env) (log_tcp_campaign env db backend it d r ctx save)"
  by (simp add: log_tcp_campaign_def Let_def keeps_intros keeps_log_tcp [OF assms] harvest_campaign)

lemma keeps_answers:
  assumes "steady_env env" "harvest_arrivals env"
  shows "keeps (harvest_inv env) (test_answers env x backend probe it timeout settle answers ds results us)"
proof (induction ds arbitrary: results us)
  case Nil
  then show ?case by (simp add: keeps_return)
next
  case (Cons d ds)
  then show ?case
    by (auto simp: campaign_log_result_def intro!: keeps_intros keeps_campaign [OF assms] split: sum.split)
qed

lemma keeps_probe:
  assumes "steady_env env" "harvest_arrivals env"
  shows "keeps (harvest_inv env) (run_probe env x p)"
proof (cases p)
  case (OneTcp probe it d t)
  then show ?thesis
    by (auto simp: test_tcp_def Let_def log_tested_def campaign_log_probe_def intro!: keeps_intros keeps_campaign [OF assms]
        split: prod.split sum.split)
next
  case (ManyTcp backend probe multi it ds t)
  then show ?thesis
    by (auto simp: test_tcp_domains_def intro!: keeps_intros keeps_answers [OF assms] split: prod.split sum.split)
next
  case (BridgeLog backend it d r ctx)
  then show ?thesis
    by (auto simp: campaign_log_result_def intro!: keeps_intros keeps_campaign [OF assms])
next
  case (OneQuic probe switch it d t)
  then show ?thesis
    by (auto simp: test_quic_def Let_def log_tested_def log_quic_result_def intro!: keeps_intros keeps_log_tcp [OF assms] harvest_quic
        split: prod.split option.split)
next
  case (OneUdp probe it ip port t)
  then show ?thesis
    by (auto simp: test_udp_def Let_def log_udp_result_def intro!: keeps_intros keeps_log_udp [OF assms] split: sum.split)
qed

section \<open>Properties\<close>

lemma probe_steps_keep:
  "steady_env env \<Longrightarrow> harvest_arrivals env \<Longrightarrow> harvest_inv env s \<Longrightarrow> harvest_inv env (fold (probe_step env x) ops s)"
  by (induction ops arbitrary: s) (simp_all add: probe_step_def keepsD [OF keeps_probe])

text \<open>
  C9. The store never holds a pass of a TCP or HTTP strategy that the bridge did not apply: after any sequence of
  probes, with any answers and exceptions of the checks, any error of the database and whatever backend the
  logger is set to, every such row, written or buffered, carries the confirmation of the bridge.
\<close>

theorem harvest_passes_applied:
  assumes "steady_env env" and "store_inv s" and "list_all harvest_ok (tcp_log s)" and "harvest_arrivals env"
  shows "list_all harvest_ok (tcp_log (fold (probe_step env x) ops s))"
  using probe_steps_keep [OF assms(1,4), of s x ops] assms(2,3) by (simp add: harvest_inv_def)

definition sample_runner :: tcp_runner where
  "sample_runner =
     \<lparr>xr_db = True, xr_secure_dns = True, xr_dns_cache = True,
      xr_primary_ip = (\<lambda>d. if d = ''gone.com'' then None else Some ''1.2.3.4''), xr_candidates = (\<lambda>d. Some [''1.2.3.4'']),
      xr_audit = (\<lambda>d. Some (''OK'', [])), xr_doh_server = ''https://dns.example/dns-query'', xr_try_wssize = True,
      xr_settle_profile = None\<rparr>"

definition ok_data :: probe_data where
  "ok_data = no_data\<lparr>pd_success := Some True, pd_http_code := Some 200, pd_latency_ms := Some 80\<rparr>"

definition sample_answer :: probe where
  "sample_answer c = (case c of TcpCheck it d t extra ip ips settle \<Rightarrow> if extra = [] then Inr no_data else Inr ok_data | _ \<Rightarrow> Inr ok_data)"

definition applied_result :: "bool option \<Rightarrow> TcpTestResult" where
  "applied_result a = (new_tcp_result (mk_item ''std_fake_1'' ''fake'') ''a.com'')\<lparr>tr_success := True, tr_bridge_applied := a\<rparr>"

definition sample_context :: log_context where
  "sample_context = \<lparr>lc_resolved_ip = None, lc_dns_verdict = [], lc_doh_server = []\<rparr>"

definition sample_probe_ops :: "probe_op list" where
  "sample_probe_ops =
     [OneTcp sample_answer (mk_item ''std_split_1'' ''multisplit'') ''a.com'' 5,
      BridgeLog BACKEND_LUA (mk_item ''std_fake_1'' ''fake'') ''a.com'' (applied_result (Some True)) sample_context,
      BridgeLog BACKEND_LUA (mk_item ''std_fake_2'' ''fake2'') ''a.com'' (applied_result None) sample_context]"

lemma sample_arrivals: "harvest_arrivals sample_store_env"
  by (simp add: harvest_arrivals_def sample_store_env_def harvest_ok_def sample_entry_def)

theorem harvest_passes_applied_witness:
  "list_all harvest_ok (tcp_log (fold (probe_step sample_store_env sample_runner) sample_probe_ops (new_store empty_db 2 15 False))) \<and>
   map (\<lambda>e. (te_strategy e, te_status e, te_fail_phase e))
     (tcp_log (fold (probe_step sample_store_env sample_runner) sample_probe_ops (new_store empty_db 2 15 False))) =
     [(''std_split_1'', ''FAIL'', ''oneshot''), (''std_fake_1'', ''PASS'', []), (''late'', ''FAIL'', []),
      (''std_fake_2'', ''FAIL'', ''no_bridge_applied'')]"
proof
  have "tcp_log (new_store empty_db 2 15 False) = []"
    by (simp add: tcp_log_def new_store_def committed_tcp_def empty_db_def)
  then show "list_all harvest_ok (tcp_log (fold (probe_step sample_store_env sample_runner) sample_probe_ops (new_store empty_db 2 15 False)))"
    using harvest_passes_applied [OF sample_env_steady new_store_inv [of 2] _ sample_arrivals, of 15 False sample_runner sample_probe_ops]
    by simp
qed code_simp

text \<open>Reading the dictionary of a worker never raises: an error text always has a phase.\<close>

lemma result_from_data_total: "\<exists>r. tcp_result_from_data it d data = Inr r \<and> tr_domain r = d \<and> tr_item r = it"
  by (simp add: tcp_result_from_data_def Let_def classify_fail_phase_def fill_result_def new_tcp_result_def)

definition uncancelled :: "'a db_op \<Rightarrow> bool" where
  "uncancelled m = (\<forall>s. store_inv s \<longrightarrow> fst (m s) \<noteq> Inl CancelledError)"

lemma flush_uncancelled: "steady_env env \<Longrightarrow> store_ok s \<Longrightarrow> stamped s \<Longrightarrow> fst (flush env wal s) \<noteq> Inl CancelledError"
  by (rule outcome_cases [OF flush_logs [of env s wal]]) auto

lemma log_tcp_uncancelled:
  assumes env: "steady_env env"
  shows "uncancelled (log_tcp env e)"
  unfolding uncancelled_def
proof (intro allI impI)
  fix s
  assume inv: "store_inv s"
  let ?s1 = "mark_pending env (s\<lparr>ss_tcp_pending := ss_tcp_pending s @ [stamp_tcp env (ss_tick s) e]\<rparr>)"
  have ok: "store_ok ?s1" "stamped ?s1"
  proof -
    note p = pending_ok [of s ?s1 env "s\<lparr>ss_tcp_pending := ss_tcp_pending s @ [stamp_tcp env (ss_tick s) e]\<rparr>"]
    show "store_ok ?s1" using p(1) inv by (simp add: store_inv_def)
    show "stamped ?s1"
      using p(5,6) inv env by (simp add: store_inv_def stamped_def stamp_tcp_def steady_env_def)
  qed
  have "fst (maybe_flush_by_age env ?s1) \<noteq> Inl CancelledError"
    using flush_uncancelled [OF env ok] by (simp add: maybe_flush_by_age_def split: option.split)
  then show "fst (log_tcp env e s) \<noteq> Inl CancelledError"
    using flush_uncancelled [OF env ok] inv by (simp add: log_tcp_def Let_def store_inv_def)
qed

text \<open>A logged row is in the log whether or not the call raised.\<close>

lemma log_tcp_logged:
  assumes "steady_env env" "store_inv s" "\<forall>n. sv_arrivals env n = ([], [])"
  shows "tcp_log (snd (log_tcp env e s)) = tcp_log s @ [plain (stamp_tcp env (ss_tick s) e)]" and "store_inv (snd (log_tcp env e s))"
proof -
  have none: "arr_tcp env a b = []" for a b
    using assms(3) by (simp add: arr_tcp_def)
  show "tcp_log (snd (log_tcp env e s)) = tcp_log s @ [plain (stamp_tcp env (ss_tick s) e)]" "store_inv (snd (log_tcp env e s))"
    using step_logs [OF assms(1,2), of "LogTcp e"] by (simp_all add: sstep_def emits_tcp_def none)
qed

text \<open>What the row of a one-shot probe says.\<close>

definition oneshot_row :: "StrategyItem \<Rightarrow> string \<Rightarrow> TcpTestResult \<Rightarrow> log_context \<Rightarrow> tcp_entry" where
  "oneshot_row it d r ctx =
     bridge_entry it d (campaign_harvest_status r BACKEND_ONESHOT) (campaign_fail_phase r BACKEND_ONESHOT (campaign_harvest_status r BACKEND_ONESHOT)) r ctx"



section \<open>The fan-out test\<close>

lemma answers_domains:
  "test_answers env x backend probe it t settle answers ds results us s = (Inr (f, rs, us'), s') \<Longrightarrow>
   \<exists>k. map tr_domain rs = map tr_domain results @ take k ds \<and> (f = None \<longrightarrow> k = length ds)"
proof (induction ds arbitrary: results us s)
  case Nil
  then show ?case by (simp add: return_op_def)
next
  case (Cons d ds)
  have stop: ?case if "f \<noteq> None" "rs = results"
    using that by (intro exI [where x = 0]) simp
  show ?case
  proof (cases "check_with_retry x probe it d t (lc_resolved_ip (resolve_domain_dns x d)) settle (dict_getd answers d no_data)")
    case (Inl msg)
    then show ?thesis using Cons.prems by (intro stop) (auto simp: return_op_def)
  next
    case (Inr data)
    obtain r where r: "tcp_result_from_data it d data = Inr r" "tr_domain r = d"
      using result_from_data_total by metis
    obtain logged s1 where run: "catch_op Inl (then_op (campaign_log_result env (xr_db x) backend it d r (resolve_domain_dns x d)) (\<lambda>u. return_op (Inr u))) s = (Inr logged, s1)"
      using Cons.prems by (simp add: Inr r then_op_def split: prod.splits sum.splits)
    show ?thesis
    proof (cases logged)
      case (Inl msg)
      then show ?thesis using Cons.prems run by (intro stop) (auto simp: Inr r then_op_def return_op_def)
    next
      case (Inr u)
      have "test_answers env x backend probe it t settle answers ds (results @ [r]) (us @ u) s1 = (Inr (f, rs, us'), s')"
        using Cons.prems run by (simp add: \<open>check_with_retry _ _ _ _ _ _ _ _ = _\<close> r then_op_def Inr)
      from Cons.IH [OF this] obtain k where "map tr_domain rs = map tr_domain (results @ [r]) @ take k ds" "f = None \<longrightarrow> k = length ds"
        by blast
      then show ?thesis by (intro exI [where x = "Suc k"]) (simp add: r)
    qed
  qed
qed

lemma missing_complete:
  assumes "distinct (pre @ ds)" "map tr_domain rs = pre @ take k ds"
  shows "map tr_domain (missing_results it msg ds rs) = pre @ ds"
  using assms
proof (induction ds arbitrary: pre k rs)
  case Nil
  then show ?case by (simp add: missing_results_def)
next
  case (Cons d ds)
  have seen: "list_ex (\<lambda>r. tr_domain r = d) rs = (d \<in> set (map tr_domain rs))"
    by (auto simp: list_ex_iff)
  let ?rs = "if list_ex (\<lambda>r. tr_domain r = d) rs then rs else rs @ [with_error msg (new_tcp_result it d)]"
  have "map tr_domain ?rs = (pre @ [d]) @ take (k - 1) ds"
    using Cons.prems unfolding seen by (cases k) (simp_all add: with_error_def new_tcp_result_def)
  moreover have "distinct ((pre @ [d]) @ ds)"
    using Cons.prems(1) by simp
  ultimately have "map tr_domain (missing_results it msg ds ?rs) = (pre @ [d]) @ ds"
    using Cons.IH [of "pre @ [d]" ?rs "k - 1"] by blast
  then show ?case by (simp add: missing_results_def)
qed

text \<open>
  A fan-out test that returns has one result for each domain, in the order of the list, whatever was raised on
  the way: the results so far and an error for each domain that was not reached.
\<close>

theorem fanout_results_per_domain:
  assumes "distinct ds" and "test_tcp_domains env x backend probe multi it ds t s = (Inr (rs, us), s')"
  shows "map tr_domain rs = ds"
proof -
  have all_done: "map tr_domain (case f of None \<Rightarrow> rs | Some msg \<Rightarrow> missing_results it msg ds rs) = ds"
    if "test_answers env x backend probe it t' settle answers ds [] [] s = (Inr (f, rs, us'), s1)" for f rs us' s1 t' settle answers
    using answers_domains [OF that] missing_complete [of "[]" ds rs] assms(1) by (auto split: option.split)
  show ?thesis
    using assms(2) missing_complete [of "[]" ds "[]" 0 it] assms(1) all_done
    by (auto simp: test_tcp_domains_def return_op_def then_op_def split: prod.splits sum.splits if_splits)
qed

section \<open>Gaps\<close>

text \<open>The one-shot backend never writes a pass, but a throttled probe of it is among the working strategies.\<close>

lemma throttled_oneshot_works:
  "tr_throttled r \<Longrightarrow> tr_error r = [] \<Longrightarrow> tr_bridge_applied r = None \<Longrightarrow> entry_works (oneshot_row it d r ctx)"
  by (simp add: entry_works_def oneshot_row_def bridge_entry_def base_entry_def campaign_harvest_status_def tcp_row_status_def
      PROBE_SKIP_ERRORS_def STOPPED_BEFORE_PROBE_def NS_POOL_EXHAUSTED_def working_status_def)

text \<open>
  The fan-out test stores a connect timeout with its phase, so that a resumed run probes the pair again; the single
  test stores the same timeout without a phase, and a resumed run skips it as a failure of the strategy.
\<close>

definition timeout_data :: probe_data where
  "timeout_data = no_data\<lparr>pd_success := Some False, pd_error := Some ''Connection timed out''\<rparr>"

lemma single_test_loses_infra_phase:
  "infra_entry (bridge_entry it d ''FAIL'' (tr_fail_phase r) r ctx) \<and>
   \<not> infra_entry (oneshot_row it d (fill_result timeout_data (new_tcp_result it d)) ctx)"
  if "tcp_result_from_data it d timeout_data = Inr r"
proof -
  have "classify_fail_phase ''Connection timed out'' 0 = Inr CONNECT_TIMEOUT"
    by code_simp
  then have "r = (fill_result timeout_data (new_tcp_result it d))\<lparr>tr_fail_phase := ''connect_timeout''\<rparr>"
    using that by (simp add: tcp_result_from_data_def Let_def fill_result_def timeout_data_def no_data_def get_or_def opt_text_def
        data_success_def new_tcp_result_def)
  moreover have "is_infra_fail_phase ''connect_timeout'' ''Connection timed out''" "\<not> is_infra_fail_phase [] ''Connection timed out''"
    by code_simp+
  ultimately show ?thesis
    by (simp add: infra_entry_def oneshot_row_def bridge_entry_def base_entry_def fill_result_def timeout_data_def no_data_def get_or_def
        opt_text_def data_success_def new_tcp_result_def campaign_harvest_status_def tcp_row_status_def campaign_fail_phase_def Let_def
        PROBE_SKIP_ERRORS_def STOPPED_BEFORE_PROBE_def NS_POOL_EXHAUSTED_def)
qed

text \<open>A domain without an address is logged outside the handler: an error of the database leaves the test.\<close>

lemma nodata_skip_raises:
  "\<exists>e s'. test_tcp (sample_store_env\<lparr>sv_fault := \<lambda>n k. if k = Connect then Some (Fails False ''disk full'' 0) else None\<rparr>)
     sample_runner sample_answer (mk_item ''std_fake_1'' ''fake'') ''gone.com'' 5 (new_store empty_db 1 15 False) = (Inl e, s')"
proof -
  let ?r = "test_tcp (sample_store_env\<lparr>sv_fault := \<lambda>n k. if k = Connect then Some (Fails False ''disk full'' 0) else None\<rparr>)
     sample_runner sample_answer (mk_item ''std_fake_1'' ''fake'') ''gone.com'' 5 (new_store empty_db 1 15 False)"
  have "isl (fst ?r)" by code_simp
  then show ?thesis by (cases ?r) (auto simp: isl_def)
qed

end
