(* ===== verification/PairMatrix.thy ===== *)
theory PairMatrix
  imports ProbeLog
begin

text \<open>
  \<^verbatim>\<open>engine/pair_matrix_runner.py\<close>: every TCP result that passed is combined with every UDP strategy, one task for
  each pair. What the two checks of a task do is an argument. A task has two steps that other tasks can come
  between: the checks, after which the pair is in the list of results, and the rows it writes while it
  holds the lock of the database; a schedule names the task of each step. That at most as many tasks run at
  a time as there are namespaces only rules out some schedules. Log lines are left out.
\<close>

section \<open>The tasks\<close>

record pair_config =
  pm_db :: bool
  pm_domain :: string
  pm_pair_domain :: "string option"
  pm_voice_ip :: string
  pm_voice_port :: int
  pm_udp_bypass :: bool
  pm_fingerprint :: string

definition log_domain :: "pair_config \<Rightarrow> string" where
  "log_domain c = (case pm_pair_domain c of None \<Rightarrow> pm_domain c | Some d \<Rightarrow> or_else d (pm_domain c))"

definition voice_target :: "pair_config \<Rightarrow> string" where
  "voice_target c = pm_voice_ip c @ '':'' @ str_int (pm_voice_port c)"

record pair_task =
  pt_tcp_i :: nat
  pt_tcp :: TcpTestResult
  pt_udp_ord :: nat
  pt_udp :: StrategyItem

definition working_tcp :: "pair_config \<Rightarrow> TcpTestResult list \<Rightarrow> (nat \<times> TcpTestResult) list" where
  "working_tcp c rs = (if pm_udp_bypass c then enumerate 0 rs else filter (\<lambda>(i, r). tr_success r) (enumerate 0 rs))"

definition pair_tasks :: "pair_config \<Rightarrow> TcpTestResult list \<Rightarrow> StrategyItem list \<Rightarrow> pair_task list" where
  "pair_tasks c rs us =
     concat (map (\<lambda>(i, r). map (\<lambda>(j, u). \<lparr>pt_tcp_i = i, pt_tcp = r, pt_udp_ord = j, pt_udp = u\<rparr>) (enumerate 0 us)) (working_tcp c rs))"

definition task_key :: "pair_task \<Rightarrow> string \<times> string" where
  "task_key t = (si_label (tr_item (pt_tcp t)), si_label (pt_udp t))"

section \<open>One pair\<close>

definition pair_overall :: "TcpTestResult \<Rightarrow> bool \<Rightarrow> string" where
  "pair_overall r udp_ok =
     (if tr_throttled r \<and> udp_ok then ''THROTTLED''
      else if tr_success r \<and> udp_ok then ''PASS''
      else if tr_success r \<and> \<not> udp_ok then ''PARTIAL''
      else ''FAIL'')"

definition pair_result :: "pair_task \<Rightarrow> probe_data \<Rightarrow> PairResult" where
  "pair_result t data =
     (let ok = data_success data
      in \<lparr>pr_tcp_item = tr_item (pt_tcp t), pr_udp_item = pt_udp t, pr_tcp_ok = tr_success (pt_tcp t), pr_udp_ok = ok,
          pr_tcp_ms = tr_latency_ms (pt_tcp t), pr_udp_ms = get_or (pd_latency_ms data) 0, pr_overall = pair_overall (pt_tcp t) ok\<rparr>)"

text \<open>\<^verbatim>\<open>log_pair\<close> is given the flag of the pair, \<^verbatim>\<open>gateway_ok\<close> is always false.\<close>

definition write_pair :: "store_env \<Rightarrow> pair_config \<Rightarrow> pair_task \<Rightarrow> probe_data \<Rightarrow> unit db_op" where
  "write_pair env c t data =
     (let p = pair_result t data
      in then_op (log_udp env (udp_log_entry (si_label (pt_udp t)) (voice_target c) (pr_udp_ok p) (pr_udp_ms p) (opt_text (pd_detail data)) (si_strategy (pt_udp t))))
           (\<lambda>_. then_op (log_pair env (si_label (tr_item (pt_tcp t))) (si_label (pt_udp t)) (log_domain c) (pr_tcp_ok p) False (pr_udp_ok p)
                            (pr_tcp_ms p) 0 (pr_udp_ms p) (pr_overall p))
           (\<lambda>_. save_checkpoint env (int (pt_tcp_i t)) (int (pt_udp_ord t))
                  (si_label (tr_item (pt_tcp t)) @ ''+'' @ si_label (pt_udp t) @ ''@'' @ voice_target c)
                  (pm_fingerprint c) (si_label (tr_item (pt_tcp t))) (si_label (pt_udp t)))))"

section \<open>The run\<close>

text \<open>
  What the checks of a task do: the TCP check or the UDP check raises, or the UDP check returns a dictionary;
  the result of the TCP check is not read.
\<close>

type_synonym pair_probe = "pair_task \<Rightarrow> string + probe_data"

datatype task_state = Waiting | Checked probe_data | Finished

record pair_run =
  pm_states :: "task_state list"
  pm_pairs :: "PairResult list"
  pm_offers :: "pass_upsert list"

definition pair_offer :: "pair_config \<Rightarrow> pair_task \<Rightarrow> probe_data \<Rightarrow> pass_upsert list" where
  "pair_offer c t data =
     (if data_success data
      then [\<lparr>pu_strategy = si_strategy (pt_udp t), pu_domain = voice_target c, pu_protocol = ''udp'',
             pu_latency_ms = get_or (pd_latency_ms data) 0, pu_http_code = 0\<rparr>]
      else [])"

text \<open>
  One step of the task \<open>i\<close>. An exception of a check, or of the database while the rows are written, ends the
  task; \<^verbatim>\<open>gather\<close> collects it and the other tasks go on.
\<close>

definition task_step ::
    "store_env \<Rightarrow> pair_config \<Rightarrow> pair_task list \<Rightarrow> (string \<times> string) set \<Rightarrow> pair_probe \<Rightarrow> nat \<Rightarrow> pair_run \<times> RunStore \<Rightarrow> pair_run \<times> RunStore" where
  "task_step env c tasks completed probe i rs =
     (case rs of (r, s) \<Rightarrow>
      if i < length tasks then
        (let t = tasks ! i
         in case pm_states r ! i of
              Waiting \<Rightarrow>
                if task_key t \<in> completed then (r\<lparr>pm_states := (pm_states r)[i := Finished]\<rparr>, s)
                else (case probe t of
                        Inl msg \<Rightarrow> (r\<lparr>pm_states := (pm_states r)[i := Finished]\<rparr>, s)
                      | Inr data \<Rightarrow>
                          (r\<lparr>pm_states := (pm_states r)[i := Checked data], pm_pairs := pm_pairs r @ [pair_result t data],
                             pm_offers := pm_offers r @ pair_offer c t data\<rparr>, s))
            | Checked data \<Rightarrow>
                (r\<lparr>pm_states := (pm_states r)[i := Finished]\<rparr>, if pm_db c then snd (write_pair env c t data s) else s)
            | Finished \<Rightarrow> (r, s))
      else (r, s))"

definition new_pair_run :: "pair_task list \<Rightarrow> pair_run" where
  "new_pair_run tasks = \<lparr>pm_states = map (\<lambda>_. Waiting) tasks, pm_pairs = [], pm_offers = []\<rparr>"

text \<open>The keys of the database; when the query raises, nothing counts as completed.\<close>

definition completed_keys :: "store_env \<Rightarrow> pair_config \<Rightarrow> ((string \<times> string) set) db_op" where
  "completed_keys env c = (if pm_db c then catch_op (\<lambda>_. {}) (get_completed_pair_keys env (log_domain c)) else return_op {})"

definition run_pair_matrix ::
    "store_env \<Rightarrow> pair_config \<Rightarrow> pair_probe \<Rightarrow> TcpTestResult list \<Rightarrow> StrategyItem list \<Rightarrow> nat list \<Rightarrow> pair_run db_op" where
  "run_pair_matrix env c probe rs us schedule =
     (let tasks = pair_tasks c rs us
      in if working_tcp c rs = [] then return_op (new_pair_run [])
         else then_op (completed_keys env c)
                (\<lambda>completed s. let (r, s') = fold (task_step env c tasks completed probe) schedule (new_pair_run tasks, s) in (Inr r, s')))"

text \<open>\<^verbatim>\<open>gather\<close> waits for every task: a schedule it can have followed has both steps of each.\<close>

definition full_schedule :: "pair_task list \<Rightarrow> nat list \<Rightarrow> bool" where
  "full_schedule tasks schedule = (\<forall>i < length tasks. count_list schedule i \<ge> 2)"

end
