(* ===== verification/PairMatrixProps.thy ===== *)
theory PairMatrixProps
  imports PairMatrix "HOL-Library.Multiset"
begin

text \<open>
  What the pair matrix promises: on a database that raises nothing every open pair is tested once and
  recorded once, in every interleaving of the tasks, and a later run tests only what this one left open.
\<close>

section \<open>Operations that leave the pairs alone\<close>

text \<open>The committed pairs, and whether a transaction is open.\<close>

definition tx :: "bool \<Rightarrow> pair_row list \<Rightarrow> RunStore \<Rightarrow> bool" where
  "tx b P s = (db_pairs (ss_db s) = P \<and> (if b then \<exists>w. ss_work s = Some w \<and> db_pairs w = P else ss_work s = None))"

definition pairs_op :: "pair_row list \<Rightarrow> bool \<Rightarrow> 'a db_op \<Rightarrow> bool \<Rightarrow> bool" where
  "pairs_op P b m b' = (\<forall>s. tx b P s \<longrightarrow> (\<exists>x s'. m s = (Inr x, s') \<and> tx b' P s'))"

definition sound_db :: "store_env \<Rightarrow> bool" where
  "sound_db env = (\<forall>n k. sv_fault env n k = None)"

lemma pairs_opI: "(\<And>s. tx b P s \<Longrightarrow> \<exists>x s'. m s = (Inr x, s') \<and> tx b' P s') \<Longrightarrow> pairs_op P b m b'"
  by (simp add: pairs_op_def)

lemma pairs_opE:
  assumes "pairs_op P b m b'" "tx b P s"
  obtains x s' where "m s = (Inr x, s')" "tx b' P s'"
  using assms by (auto simp: pairs_op_def)

lemma pairs_return: "pairs_op P b (return_op x) b"
  by (simp add: pairs_op_def return_op_def)

lemma pairs_then:
  assumes "pairs_op P b m b1" "\<And>x. pairs_op P b1 (f x) b2"
  shows "pairs_op P b (then_op m f) b2"
proof (rule pairs_opI)
  fix s
  assume "tx b P s"
  from assms(1) this obtain x s1 where 1: "m s = (Inr x, s1)" "tx b1 P s1" by (rule pairs_opE)
  from assms(2) [of x] 1(2) obtain y s2 where "f x s1 = (Inr y, s2)" "tx b2 P s2" by (rule pairs_opE)
  then show "\<exists>x s'. then_op m f s = (Inr x, s') \<and> tx b2 P s'" by (simp add: then_op_def 1)
qed

lemma pairs_state: "(\<And>s0. pairs_op P b (f s0) b') \<Longrightarrow> pairs_op P b (\<lambda>s. f s s) b'"
  by (simp add: pairs_op_def)

lemma pairs_when: "pairs_op P b m b \<Longrightarrow> pairs_op P b (when_op c m) b"
  by (simp add: when_op_def pairs_return)

lemma tx_await [simp]: "tx b P (await env s) = tx b P s"
  by (simp add: tx_def)

lemma tx_fields:
  "tx b P (s\<lparr>ss_conn := c\<rparr>) = tx b P s" "tx b P (s\<lparr>ss_run_id := i\<rparr>) = tx b P s"
  "tx b P (s\<lparr>ss_tcp_pending := ts\<rparr>) = tx b P s" "tx b P (s\<lparr>ss_udp_pending := us\<rparr>) = tx b P s"
  "tx b P (s\<lparr>ss_flush_count := n\<rparr>) = tx b P s" "tx b P (s\<lparr>ss_last_checkpoint := q\<rparr>) = tx b P s"
  "tx b P (s\<lparr>ss_pending_since := q\<rparr>) = tx b P s"
  by (simp_all add: tx_def)

lemma tx_current: "tx b P s \<Longrightarrow> db_pairs (current_db s) = P"
  by (auto simp: tx_def current_db_def split: if_splits)

lemma current_work [simp]: "current_db (s\<lparr>ss_work := Some w\<rparr>) = w"
  by (simp add: current_db_def)

lemma sound_call: "sound_db env \<Longrightarrow> db_call env k partial run s = (Inr (fst (run s)), await env (snd (run s)))"
  by (simp add: db_call_def sound_db_def)

lemma pairs_dml:
  "sound_db env \<Longrightarrow> (\<And>d. db_pairs (snd (g d)) = db_pairs d) \<Longrightarrow> pairs_op P b (dml_many env partial g) True"
  by (rule pairs_opI)
    (auto simp: dml_many_def sound_call implicit_begin_def tx_def current_db_def await_def split: if_splits option.splits)

lemma pairs_select: "sound_db env \<Longrightarrow> pairs_op P b (select env g) b"
  by (rule pairs_opI) (simp add: select_def sound_call)

lemma pairs_commit: "sound_db env \<Longrightarrow> pairs_op P b (commit env) False"
  by (rule pairs_opI) (use tx_current in \<open>fastforce simp: commit_def sound_call tx_def\<close>)

lemma pairs_writer: "sound_db env \<Longrightarrow> pairs_op P b (writer env) b"
  by (rule pairs_opI) (simp add: writer_def sound_call tx_fields)

lemma pairs_lock: "sound_db env \<Longrightarrow> pairs_op P b m b' \<Longrightarrow> pairs_op P b (with_write_lock env m) b'"
  unfolding with_write_lock_def by (rule pairs_then [OF pairs_writer])

lemma pairs_begin: "sound_db env \<Longrightarrow> pairs_op P False (begin_immediate env) True"
  by (rule pairs_opI) (auto simp: begin_immediate_def sound_call tx_def)

lemma pairs_set_run_id: "pairs_op P b (set_run_id i) b"
  by (rule pairs_opI) (simp add: set_run_id_def tx_fields)

lemma pairs_upsert [simp]: "db_pairs (upsert_strategy gap name proto cfg ts d) = db_pairs d"
  by (simp add: upsert_strategy_def)

lemma pairs_insert_run [simp]: "db_pairs (snd (insert_run gap r d)) = db_pairs d"
  by (simp add: insert_run_def Let_def)

lemma pairs_insert [simp]: "db_pairs (insert_tcp gap r d) = db_pairs d" "db_pairs (insert_udp gap u d) = db_pairs d"
  by (simp_all add: insert_tcp_def insert_udp_def)

lemma pairs_fold: "(\<And>r d. db_pairs (ins r d) = db_pairs d) \<Longrightarrow> db_pairs (fold ins rows d) = db_pairs d"
  by (induction rows arbitrary: d) simp_all

lemma pairs_executemany:
  "sound_db env \<Longrightarrow> (\<And>gap r d. db_pairs (ins gap r d) = db_pairs d) \<Longrightarrow> pairs_op P b (executemany env ins rows) True"
  unfolding executemany_def Let_def
  by (rule pairs_state [where f = "\<lambda>s0. dml_many env (\<lambda>n. fold (ins (sv_gap env (ss_tick s0))) (take n rows)) (\<lambda>d. ((), fold (ins (sv_gap env (ss_tick s0))) rows d))"])
    (rule pairs_dml, simp_all add: pairs_fold)

section \<open>A flush leaves the pairs alone\<close>

lemma pairs_ensure_run_id:
  assumes "sound_db env"
  shows "pairs_op P False (ensure_run_id_on_db env) False"
proof -
  have new: "pairs_op P False (insert_new_run env fp ah cv imp nfv) False" for fp ah cv imp nfv
    unfolding insert_new_run_def
    by (rule pairs_state, rule pairs_then [OF pairs_dml [OF assms]], simp)
      (rule pairs_then [OF pairs_commit [OF assms] pairs_set_run_id])
  show ?thesis
    by (rule pairs_opI) (use new in \<open>auto simp: ensure_run_id_on_db_def begin_run_on_db_def pairs_op_def split: option.split\<close>)
qed

lemma pairs_ensure_strategy:
  assumes "sound_db env"
  shows "pairs_op P b (ensure_strategy_on_db env name proto cfg) True"
proof (rule pairs_opI)
  fix s
  assume s: "tx b P s"
  let ?up = "upsert_strategy (sv_gap env (ss_tick s)) name proto cfg (sv_now env (ss_tick s)) (current_db s)"
  let ?s1 = "await env (s\<lparr>ss_work := Some ?up\<rparr>)"
  have call: "dml env (\<lambda>d. ((), upsert_strategy (sv_gap env (ss_tick s)) name proto cfg (sv_now env (ss_tick s)) d)) s = (Inr (), ?s1)"
    by (simp add: dml_many_def sound_call [OF assms] implicit_begin_def)
  have cur: "current_db ?s1 = ?up"
    by simp
  obtain i where "strategy_id name proto ?up = Some i"
    using strategy_id_upsert by fastforce
  then have "ensure_strategy_on_db env name proto cfg s = (Inr i, await env ?s1)"
    unfolding ensure_strategy_on_db_def then_op_def call by (simp add: select_def sound_call [OF assms] cur return_op_def)
  moreover have "tx True P ?s1"
    using s tx_current [OF s] by (auto simp: tx_def split: if_splits)
  ultimately show "\<exists>x s'. ensure_strategy_on_db env name proto cfg s = (Inr x, s') \<and> tx True P s'"
    by simp
qed

lemma pairs_cached: "sound_db env \<Longrightarrow> pairs_op P True (ensure_strategy_cached env cache name proto cfg) True"
  unfolding ensure_strategy_cached_def
  by (cases "dict_get cache (name, proto)") (auto intro!: pairs_return pairs_then pairs_ensure_strategy)

lemma pairs_tcp_rows: "sound_db env \<Longrightarrow> pairs_op P True (tcp_batch_rows env run_id cache rows es) True"
proof (induction es arbitrary: cache rows)
  case (Cons e es)
  have "pairs_op P True (\<lambda>s. tcp_batch_rows env run_id cache' (rows @ [tcp_row_values (sv_now env (ss_tick s)) run_id i e]) es s) True" for i cache'
    by (rule pairs_state [where f = "\<lambda>s0. tcp_batch_rows env run_id cache' (rows @ [tcp_row_values (sv_now env (ss_tick s0)) run_id i e]) es"])
      (rule Cons.IH [OF Cons.prems])
  then show ?case
    by (auto intro!: pairs_then [OF pairs_cached [OF Cons.prems]] split: prod.split)
qed (simp add: pairs_return)

lemma pairs_udp_rows: "sound_db env \<Longrightarrow> pairs_op P True (udp_batch_rows env run_id cache rows es) True"
proof (induction es arbitrary: cache rows)
  case (Cons e es)
  have "pairs_op P True (\<lambda>s. udp_batch_rows env run_id cache' (rows @ [udp_row_values (sv_now env (ss_tick s)) run_id i e]) es s) True" for i cache'
    by (rule pairs_state [where f = "\<lambda>s0. udp_batch_rows env run_id cache' (rows @ [udp_row_values (sv_now env (ss_tick s0)) run_id i e]) es"])
      (rule Cons.IH [OF Cons.prems])
  then show ?case
    by (auto intro!: pairs_then [OF pairs_cached [OF Cons.prems]] split: prod.split)
qed (simp add: pairs_return)

lemma pairs_flush_body: "sound_db env \<Longrightarrow> pairs_op P True (flush_body env run_id tcps udps) False"
  unfolding flush_body_def
  by (auto intro!: pairs_then [OF pairs_tcp_rows] pairs_then [OF pairs_udp_rows] pairs_then [OF pairs_when] pairs_executemany pairs_commit
      split: prod.split)

lemma pairs_transaction:
  assumes "sound_db env"
  shows "pairs_op P False (flush_transaction env tcps udps) False"
proof -
  have body: "pairs_op P True (or_rollback env (flush_body env run_id tcps udps)) False" for run_id
    using pairs_flush_body [OF assms, of P run_id tcps udps] by (fastforce simp: pairs_op_def or_rollback_def)
  show ?thesis
    unfolding flush_transaction_def
    by (intro pairs_lock [OF assms] pairs_then [OF pairs_ensure_run_id [OF assms]] pairs_then [OF pairs_begin [OF assms]] body)
qed

lemma pairs_wal:
  assumes "sound_db env"
  shows "pairs_op P False (maybe_wal_checkpoint env) False"
  by (rule pairs_opI) (auto simp: maybe_wal_checkpoint_def Let_def sound_call [OF assms] tx_fields)

lemma pairs_flush:
  assumes "sound_db env"
  shows "pairs_op P False (flush env wal) False"
proof (rule pairs_opI)
  fix s
  assume s: "tx False P s"
  let ?t = "ss_tcp_pending s" and ?u = "ss_udp_pending s" and ?s1 = "s\<lparr>ss_tcp_pending := [], ss_udp_pending := []\<rparr>"
  have five: "(5::nat) = Suc 4"
    by simp
  have "pairs_op P False (then_op (flush_transaction env ?t ?u) (\<lambda>_. when_op wal (maybe_wal_checkpoint env))) False"
    by (intro pairs_then [OF pairs_transaction [OF assms]] pairs_when pairs_wal [OF assms])
  then obtain x s2 where "then_op (flush_transaction env ?t ?u) (\<lambda>_. when_op wal (maybe_wal_checkpoint env)) ?s1 = (Inr x, s2)" "tx False P s2"
    by (rule pairs_opE [of P False _ False ?s1]) (simp_all add: tx_fields s)
  then have "flush_attempts 5 env wal ?t ?u ?s1 = (Inr (), s2)"
    unfolding five flush_attempts.simps by simp
  then show "\<exists>x s'. flush env wal s = (Inr x, s') \<and> tx False P s'"
    using s \<open>tx False P s2\<close> by (auto simp: flush_def Let_def tx_fields)
qed

lemma pairs_log_udp:
  assumes "sound_db env"
  shows "pairs_op P False (log_udp env e) False"
proof (rule pairs_opI)
  fix s
  assume s: "tx False P s"
  let ?e = "stamp_udp env (ss_tick s) e"
  let ?s1 = "mark_pending env (s\<lparr>ss_udp_pending := ss_udp_pending s @ [?e]\<rparr>)"
  have s1: "tx False P ?s1"
    using s by (simp add: mark_pending_def tx_fields)
  have age: "pairs_op P False (maybe_flush_by_age env) False"
    by (rule pairs_opI) (use pairs_flush [OF assms] in \<open>auto simp: maybe_flush_by_age_def pairs_op_def split: option.split\<close>)
  have now: "pairs_op P False (with_write_lock env
             (then_op (ensure_run_id_on_db env) (\<lambda>run_id.
              then_op (ensure_strategy_on_db env (ue_strategy ?e) ''udp'' (ue_config_path ?e)) (\<lambda>sid s2.
              then_op (dml env (\<lambda>d. ((), insert_udp (sv_gap env (ss_tick s2))
                         (udp_row_values [] run_id sid (?e\<lparr>ue_timestamp := sv_now env (ss_tick s2)\<rparr>)) d)))
                (\<lambda>_. commit env) s2)))) False"
  proof (intro pairs_lock [OF assms] pairs_then [OF pairs_ensure_run_id [OF assms]] pairs_then [OF pairs_ensure_strategy [OF assms]])
    fix run_id sid
    show "pairs_op P True (\<lambda>s2. then_op (dml env (\<lambda>d. ((), insert_udp (sv_gap env (ss_tick s2))
                         (udp_row_values [] run_id sid (?e\<lparr>ue_timestamp := sv_now env (ss_tick s2)\<rparr>)) d)))
                (\<lambda>_. commit env) s2) False"
      by (rule pairs_state) (intro pairs_then [OF pairs_dml [OF assms]] pairs_commit [OF assms], simp)
  qed
  show "\<exists>x s'. log_udp env e s = (Inr x, s') \<and> tx False P s'"
    using s s1 now age pairs_flush [OF assms, of P True] by (auto simp: log_udp_def Let_def pairs_op_def)
qed

lemma pairs_write_row:
  assumes "sound_db env" "\<And>gap ts d. db_pairs (ins gap ts d) = db_pairs d"
  shows "pairs_op P False (write_row env ins) False"
  unfolding write_row_def
  by (rule pairs_lock [OF assms(1)], rule pairs_state [where f = "\<lambda>s0. then_op (dml env (\<lambda>d. ((), ins (sv_gap env (ss_tick s0)) (sv_now env (ss_tick s0)) d))) (\<lambda>_. commit env)"])
    (intro pairs_then [OF pairs_dml [OF assms(1)]] pairs_commit [OF assms(1)], simp add: assms(2))

section \<open>A pair is written\<close>

text \<open>What a row says about its pair, without its id and its time.\<close>

definition row_view :: "pair_row \<Rightarrow> (string \<times> string \<times> string) \<times> (int \<times> int \<times> rat \<times> rat) \<times> string" where
  "row_view r = ((pw_tcp r, pw_udp r, pw_domain r), (pw_tcp_ok r, pw_udp_ok r, pw_tcp_ms r, pw_udp_ms r), pw_overall r)"

definition pair_view :: "pair_config \<Rightarrow> PairResult \<Rightarrow> (string \<times> string \<times> string) \<times> (int \<times> int \<times> rat \<times> rat) \<times> string" where
  "pair_view c p =
     ((si_label (pr_tcp_item p), si_label (pr_udp_item p), log_domain c),
      (bool_int (pr_tcp_ok p), bool_int (pr_udp_ok p), pr_tcp_ms p, pr_udp_ms p), pr_overall p)"

lemma log_pair_appends:
  assumes "sound_db env" "tx False P s"
  shows "\<exists>s' row. log_pair env t u d b1 b2 b3 m1 m2 m3 overall s = (Inr (), s') \<and> tx False (P @ [row]) s' \<and>
     row_view row = ((t, u, d), (bool_int b1, bool_int b3, m1, m3), overall)"
proof -
  obtain v s1 where w: "writer env s = (Inr v, s1)" "tx False P s1"
    using pairs_opE [OF pairs_writer [OF assms(1)] assms(2)] .
  let ?row = "\<lparr>pw_id = next_id (sv_gap env (ss_tick s1)) (map pw_id P), pw_tcp = t, pw_udp = u, pw_domain = d,
         pw_tcp_ok = bool_int b1, pw_gateway_ok = bool_int b2, pw_udp_ok = bool_int b3,
         pw_tcp_ms = m1, pw_gateway_ms = m2, pw_udp_ms = m3, pw_overall = overall, pw_timestamp = sv_now env (ss_tick s1)\<rparr>"
  let ?s' = "snd (log_pair env t u d b1 b2 b3 m1 m2 m3 overall s)"
  have "log_pair env t u d b1 b2 b3 m1 m2 m3 overall s = (Inr (), ?s') \<and> tx False (P @ [?row]) ?s'"
    using w(2) by (simp add: log_pair_def write_row_def with_write_lock_def then_op_def w(1) dml_many_def sound_call [OF assms(1)]
        implicit_begin_def commit_def tx_current [OF w(2)]) (simp add: tx_def current_db_def)
  moreover have "row_view ?row = ((t, u, d), (bool_int b1, bool_int b3, m1, m3), overall)"
    by (simp add: row_view_def)
  ultimately show ?thesis by blast
qed

lemma write_pair_appends:
  assumes "sound_db env" "tx False P s"
  shows "\<exists>row. tx False (P @ [row]) (snd (write_pair env c t data s)) \<and> row_view row = pair_view c (pair_result t data)"
proof -
  let ?p = "pair_result t data"
  let ?e = "udp_log_entry (si_label (pt_udp t)) (voice_target c) (pr_udp_ok ?p) (pr_udp_ms ?p) (opt_text (pd_detail data)) (si_strategy (pt_udp t))"
  obtain u s1 where 1: "log_udp env ?e s = (Inr u, s1)" "tx False P s1"
    using pairs_opE [OF pairs_log_udp [OF assms(1)] assms(2)] .
  obtain s2 row where 2: "log_pair env (si_label (tr_item (pt_tcp t))) (si_label (pt_udp t)) (log_domain c) (pr_tcp_ok ?p) False (pr_udp_ok ?p)
      (pr_tcp_ms ?p) 0 (pr_udp_ms ?p) (pr_overall ?p) s1 = (Inr (), s2)" "tx False (P @ [row]) s2"
    "row_view row = ((si_label (tr_item (pt_tcp t)), si_label (pt_udp t), log_domain c),
       (bool_int (pr_tcp_ok ?p), bool_int (pr_udp_ok ?p), pr_tcp_ms ?p, pr_udp_ms ?p), pr_overall ?p)"
    using log_pair_appends [OF assms(1) 1(2)] by blast
  have "pairs_op (P @ [row]) False (save_checkpoint env i j nt fp l1 l2) False" for i j nt fp l1 l2
    unfolding save_checkpoint_def by (rule pairs_write_row [OF assms(1)]) simp
  then obtain v s3 where 3: "save_checkpoint env (int (pt_tcp_i t)) (int (pt_udp_ord t))
      (si_label (tr_item (pt_tcp t)) @ ''+'' @ si_label (pt_udp t) @ ''@'' @ voice_target c)
      (pm_fingerprint c) (si_label (tr_item (pt_tcp t))) (si_label (pt_udp t)) s2 = (Inr v, s3)" "tx False (P @ [row]) s3"
    using 2(2) by (rule pairs_opE)
  have "row_view row = pair_view c ?p"
    using 2(3) by (simp add: pair_view_def pair_result_def Let_def)
  then show ?thesis
    using 1 2 3 by (auto simp: write_pair_def Let_def then_op_def)
qed

section \<open>Every schedule\<close>

definition task_result :: "(string \<times> string) set \<Rightarrow> pair_probe \<Rightarrow> pair_task \<Rightarrow> PairResult list" where
  "task_result completed probe t =
     (if task_key t \<in> completed then [] else case probe t of Inl msg \<Rightarrow> [] | Inr data \<Rightarrow> [pair_result t data])"

text \<open>The results of the tasks whose pair is not completed and whose checks do not raise.\<close>

definition open_results :: "(string \<times> string) set \<Rightarrow> pair_probe \<Rightarrow> pair_task list \<Rightarrow> PairResult list" where
  "open_results completed probe tasks = concat (map (task_result completed probe) tasks)"

definition tally :: "(task_state \<Rightarrow> bool) \<Rightarrow> (string \<times> string) set \<Rightarrow> pair_probe \<Rightarrow> pair_task list \<Rightarrow> task_state list \<Rightarrow> PairResult multiset" where
  "tally p completed probe tasks st = (\<Sum>j<length tasks. if p (st ! j) then mset (task_result completed probe (tasks ! j)) else {#})"

lemma sum_update:
  fixes f :: "'a \<Rightarrow> nat \<Rightarrow> 'b::comm_monoid_add"
  assumes "i < n" "length xs = n"
  shows "(\<Sum>j<n. f (xs[i := v] ! j) j) + f (xs ! i) i = (\<Sum>j<n. f (xs ! j) j) + f v i"
proof -
  have i: "i \<in> {..<n}" "finite {..<n}"
    using assms by simp_all
  have "(\<Sum>j\<in>{..<n} - {i}. f (xs[i := v] ! j) j) = (\<Sum>j\<in>{..<n} - {i}. f (xs ! j) j)"
    by (rule sum.cong) auto
  then show ?thesis
    unfolding sum.remove [OF i(2,1)] using assms by (simp add: add_ac)
qed

lemma tally_update:
  assumes "i < length tasks" "length st = length tasks"
  shows "tally p completed probe tasks (st[i := v]) + (if p (st ! i) then mset (task_result completed probe (tasks ! i)) else {#}) =
         tally p completed probe tasks st + (if p v then mset (task_result completed probe (tasks ! i)) else {#})"
  using sum_update [of i "length tasks" st "\<lambda>a j. if p a then mset (task_result completed probe (tasks ! j)) else {#}" v] assms
  by (simp add: tally_def)

definition run_inv :: "pair_config \<Rightarrow> pair_task list \<Rightarrow> (string \<times> string) set \<Rightarrow> pair_probe \<Rightarrow> pair_row list \<Rightarrow> pair_run \<times> RunStore \<Rightarrow> bool" where
  "run_inv c tasks completed probe P rs =
     (case rs of (r, s) \<Rightarrow>
        length (pm_states r) = length tasks \<and>
        (\<forall>i < length tasks. \<forall>data. pm_states r ! i = Checked data \<longrightarrow> task_result completed probe (tasks ! i) = [pair_result (tasks ! i) data]) \<and>
        mset (pm_pairs r) = tally (\<lambda>a. a \<noteq> Waiting) completed probe tasks (pm_states r) \<and>
        (\<exists>rows. tx False (P @ rows) s \<and>
           mset (map row_view rows) = image_mset (pair_view c) (tally (\<lambda>a. a = Finished) completed probe tasks (pm_states r))))"

lemma run_inv_step:
  assumes env: "sound_db env" and db: "pm_db c" and inv: "run_inv c tasks completed probe P (r, s)"
  shows "run_inv c tasks completed probe P (task_step env c tasks completed probe i (r, s))"
proof (cases "i < length tasks")
  case False
  then show ?thesis using inv by (simp add: task_step_def)
next
  case i: True
  let ?t = "tasks ! i" and ?st = "pm_states r"
  have len: "length ?st = length tasks"
    and checked: "\<forall>j < length tasks. \<forall>data. ?st ! j = Checked data \<longrightarrow> task_result completed probe (tasks ! j) = [pair_result (tasks ! j) data]"
    and pairs: "mset (pm_pairs r) = tally (\<lambda>a. a \<noteq> Waiting) completed probe tasks ?st"
    using inv by (simp_all add: run_inv_def)
  obtain rows where rows: "tx False (P @ rows) s"
      "mset (map row_view rows) = image_mset (pair_view c) (tally (\<lambda>a. a = Finished) completed probe tasks ?st)"
    using inv by (auto simp: run_inv_def)
  note up = tally_update [OF i len, of _ completed probe]
  have seen: "\<forall>j < length tasks. \<forall>data. ?st[i := Finished] ! j = Checked data \<longrightarrow> task_result completed probe (tasks ! j) = [pair_result (tasks ! j) data]"
    using checked len i by (auto simp: nth_list_update split: if_splits)
  have skip: "run_inv c tasks completed probe P (r\<lparr>pm_states := ?st[i := Finished]\<rparr>, s)"
    if "?st ! i = Waiting" "task_result completed probe ?t = []"
    using up [of "\<lambda>a. a \<noteq> Waiting" Finished] up [of "\<lambda>a. a = Finished" Finished] that seen len pairs rows
    by (auto simp: run_inv_def)
  show ?thesis
  proof (cases "?st ! i")
    case Finished
    then show ?thesis using inv i by (simp add: task_step_def)
  next
    case (Checked data)
    have res: "task_result completed probe ?t = [pair_result ?t data]"
      using checked i Checked by blast
    obtain row where row: "tx False ((P @ rows) @ [row]) (snd (write_pair env c ?t data s))" "row_view row = pair_view c (pair_result ?t data)"
      using write_pair_appends [OF env rows(1)] by blast
    have "run_inv c tasks completed probe P (r\<lparr>pm_states := ?st[i := Finished]\<rparr>, snd (write_pair env c ?t data s))"
      using up [of "\<lambda>a. a \<noteq> Waiting" Finished] up [of "\<lambda>a. a = Finished" Finished] Checked res seen len pairs rows(2) row
      by (auto simp: run_inv_def intro!: exI [where x = "rows @ [row]"])
    then show ?thesis using i db Checked by (simp add: task_step_def)
  next
    case Waiting
    show ?thesis
    proof (cases "task_key ?t \<in> completed \<or> isl (probe ?t)")
      case True
      then have "task_result completed probe ?t = []"
        by (auto simp: task_result_def isl_def)
      from skip [OF Waiting this] show ?thesis
        using i True Waiting by (auto simp: task_step_def Let_def isl_def)
    next
      case False
      then obtain data where p: "probe ?t = Inr data" and k: "task_key ?t \<notin> completed"
        by (cases "probe ?t") auto
      then have res: "task_result completed probe ?t = [pair_result ?t data]"
        by (simp add: task_result_def)
      have "\<forall>j < length tasks. \<forall>data'. ?st[i := Checked data] ! j = Checked data' \<longrightarrow> task_result completed probe (tasks ! j) = [pair_result (tasks ! j) data']"
        using checked res len i by (auto simp: nth_list_update split: if_splits)
      then show ?thesis
        using up [of "\<lambda>a. a \<noteq> Waiting" "Checked data"] up [of "\<lambda>a. a = Finished" "Checked data"] Waiting p k i res len pairs rows
        by (auto simp: run_inv_def task_step_def Let_def)
    qed
  qed
qed

lemma run_inv_fold:
  "sound_db env \<Longrightarrow> pm_db c \<Longrightarrow> run_inv c tasks completed probe P rs \<Longrightarrow> run_inv c tasks completed probe P (fold (task_step env c tasks completed probe) schedule rs)"
proof (induction schedule arbitrary: rs)
  case (Cons i schedule)
  then have "run_inv c tasks completed probe P (task_step env c tasks completed probe i rs)"
    using run_inv_step by (cases rs) blast
  with Cons show ?case by simp
qed simp

fun rank :: "task_state \<Rightarrow> nat" where
  "rank Waiting = 0"
| "rank (Checked data) = 1"
| "rank Finished = 2"

lemma rank_step:
  assumes "length (pm_states r) = length tasks" "j < length tasks"
  shows "length (pm_states (fst (task_step env c tasks completed probe i (r, s)))) = length tasks"
    and "min 2 (rank (pm_states r ! j) + (if i = j then 1 else 0)) \<le> rank (pm_states (fst (task_step env c tasks completed probe i (r, s))) ! j)"
  using assms by (auto simp: task_step_def Let_def nth_list_update split: task_state.split sum.split)

lemma rank_fold:
  assumes "length (pm_states r) = length tasks" "j < length tasks"
  shows "min 2 (rank (pm_states r ! j) + count_list schedule j) \<le> rank (pm_states (fst (fold (task_step env c tasks completed probe) schedule (r, s))) ! j)"
  using assms
proof (induction schedule arbitrary: r s)
  case (Cons i schedule)
  obtain r1 s1 where step: "task_step env c tasks completed probe i (r, s) = (r1, s1)"
    by fastforce
  have "length (pm_states r1) = length tasks" "min 2 (rank (pm_states r ! j) + (if i = j then 1 else 0)) \<le> rank (pm_states r1 ! j)"
    using rank_step [OF Cons.prems, where env = env and c = c and completed = completed and probe = probe and i = i and s = s] by (simp_all add: step)
  with Cons.IH [of r1 s1] Cons.prems(2) show ?case
    by (auto simp: step)
qed simp

lemma rank_finished: "2 \<le> rank a \<longleftrightarrow> a = Finished"
  by (cases a) simp_all

lemma tally_all:
  assumes "\<forall>j < length tasks. st ! j = Finished" "p Finished"
  shows "tally p completed probe tasks st = mset (open_results completed probe tasks)"
proof -
  have "tally p completed probe tasks st = (\<Sum>j<length tasks. mset (task_result completed probe (tasks ! j)))"
    using assms by (simp add: tally_def)
  also have "\<dots> = sum_list (map (\<lambda>t. mset (task_result completed probe t)) tasks)"
    by (simp add: sum_list_sum_nth atLeast0LessThan)
  also have "\<dots> = mset (open_results completed probe tasks)"
    by (induction tasks) (simp_all add: open_results_def)
  finally show ?thesis .
qed

section \<open>The whole run\<close>

definition pair_keys :: "string \<Rightarrow> pair_row list \<Rightarrow> (string \<times> string) set" where
  "pair_keys d P = (\<lambda>r. (pw_tcp r, pw_udp r)) ` set (filter (\<lambda>r. pw_domain r = d) P)"

lemma completed_keys_run:
  assumes "sound_db env" "pm_db c" "tx False P s"
  shows "\<exists>s'. completed_keys env c s = (Inr (pair_keys (log_domain c) P), s') \<and> tx False P s'"
proof -
  have "db_pairs (ss_db s) = P"
    using assms(3) by (simp add: tx_def)
  then show ?thesis
    using assms by (simp add: completed_keys_def catch_op_def get_completed_pair_keys_def read_committed_def sound_call [OF assms(1)] pair_keys_def)
qed

lemma pair_run_exact:
  assumes env: "sound_db env" and db: "pm_db c" and s: "tx False P s" and sched: "full_schedule (pair_tasks c rs us) schedule"
  shows "\<exists>r s' rows. run_pair_matrix env c probe rs us schedule s = (Inr r, s') \<and> tx False (P @ rows) s' \<and>
    mset (pm_pairs r) = mset (open_results (pair_keys (log_domain c) P) probe (pair_tasks c rs us)) \<and>
    mset (map row_view rows) = image_mset (pair_view c) (mset (pm_pairs r))"
proof (cases "working_tcp c rs = []")
  case True
  then have "pair_tasks c rs us = []"
    by (simp add: pair_tasks_def)
  then show ?thesis
    using True s by (intro exI [where x = "new_pair_run []"] exI [where x = s] exI [where x = "[]"])
      (simp add: run_pair_matrix_def return_op_def open_results_def new_pair_run_def)
next
  case False
  let ?tasks = "pair_tasks c rs us" and ?done = "pair_keys (log_domain c) P"
  obtain s1 where s1: "completed_keys env c s = (Inr ?done, s1)" "tx False P s1"
    using completed_keys_run [OF env db s] by blast
  obtain r s' where fold: "fold (task_step env c ?tasks ?done probe) schedule (new_pair_run ?tasks, s1) = (r, s')"
    by fastforce
  have "run_inv c ?tasks ?done probe P (new_pair_run ?tasks, s1)"
    using s1(2) by (auto simp: run_inv_def new_pair_run_def tally_def intro!: exI [where x = "[]"])
  from run_inv_fold [OF env db this, of schedule] have inv: "run_inv c ?tasks ?done probe P (r, s')"
    by (simp add: fold)
  have "\<forall>j < length ?tasks. pm_states r ! j = Finished"
  proof (intro allI impI)
    fix j
    assume j: "j < length ?tasks"
    have "length (pm_states (new_pair_run ?tasks)) = length ?tasks"
      by (simp add: new_pair_run_def)
    from rank_fold [OF this j, of schedule env c ?done probe s1]
    have "min 2 (rank (pm_states (new_pair_run ?tasks) ! j) + count_list schedule j) \<le> rank (pm_states r ! j)"
      by (simp add: fold)
    moreover have "2 \<le> count_list schedule j"
      using sched j by (simp add: full_schedule_def)
    ultimately have "2 \<le> rank (pm_states r ! j)"
      by linarith
    then show "pm_states r ! j = Finished"
      by (simp only: rank_finished)
  qed
  note all = tally_all [OF this]
  obtain rows where "tx False (P @ rows) s'" "mset (map row_view rows) = image_mset (pair_view c) (mset (open_results ?done probe ?tasks))"
      "mset (pm_pairs r) = mset (open_results ?done probe ?tasks)"
    using inv by (auto simp: run_inv_def all)
  moreover have "run_pair_matrix env c probe rs us schedule s = (Inr r, s')"
    using False by (simp add: run_pair_matrix_def Let_def then_op_def s1 fold)
  ultimately show ?thesis by metis
qed

lemma keys_after:
  assumes "mset (map row_view rows) = image_mset (pair_view c) (mset ps)"
  shows "pair_keys (log_domain c) (P @ rows) = pair_keys (log_domain c) P \<union> (\<lambda>p. (si_label (pr_tcp_item p), si_label (pr_udp_item p))) ` set ps"
proof -
  have "row_view ` set rows = pair_view c ` set ps"
    using arg_cong [OF assms, of set_mset] by simp
  then have "fst ` row_view ` set rows = fst ` pair_view c ` set ps"
    by simp
  then have views: "(\<lambda>r. (pw_tcp r, pw_udp r, pw_domain r)) ` set rows = (\<lambda>p. (si_label (pr_tcp_item p), si_label (pr_udp_item p), log_domain c)) ` set ps"
    by (simp add: image_image row_view_def pair_view_def)
  have "pw_domain r = log_domain c" if "r \<in> set rows" for r
    using imageI [OF that, of "\<lambda>r. (pw_tcp r, pw_udp r, pw_domain r)"] unfolding views by auto
  then have "filter (\<lambda>r. pw_domain r = log_domain c) rows = rows"
    by simp
  moreover have "(\<lambda>r. (pw_tcp r, pw_udp r)) ` set rows = (\<lambda>p. (si_label (pr_tcp_item p), si_label (pr_udp_item p))) ` set ps"
    using arg_cong [OF views, of "(`) (\<lambda>(a, b, d). (a, b))"] by (simp add: image_image)
  ultimately show ?thesis
    by (simp add: pair_keys_def image_Un)
qed

lemma task_result_keys:
  "(\<lambda>p. (si_label (pr_tcp_item p), si_label (pr_udp_item p))) ` set (task_result completed probe t) =
   (if task_key t \<notin> completed \<and> \<not> isl (probe t) then {task_key t} else {})"
  by (cases "probe t") (simp_all add: task_result_def task_key_def pair_result_def Let_def)

lemma open_result_keys:
  "(\<lambda>p. (si_label (pr_tcp_item p), si_label (pr_udp_item p))) ` set (open_results completed probe tasks) =
   {task_key t |t. t \<in> set tasks \<and> task_key t \<notin> completed \<and> \<not> isl (probe t)}"
proof -
  have "f ` set (open_results completed probe tasks) = (\<Union>t \<in> set tasks. f ` set (task_result completed probe t))" for f :: "PairResult \<Rightarrow> string \<times> string"
    by (auto simp: open_results_def)
  then show ?thesis
    by (auto simp: task_result_keys split: if_splits)
qed


definition sample_pair_env :: store_env where
  "sample_pair_env = sample_store_env\<lparr>sv_fault := \<lambda>n k. None\<rparr>"

definition sample_pair_config :: pair_config where
  "sample_pair_config = \<lparr>pm_db = True, pm_domain = ''discord.com'', pm_pair_domain = None, pm_voice_ip = ''1.2.3.4'',
     pm_voice_port = 50004, pm_udp_bypass = False, pm_fingerprint = []\<rparr>"

definition sample_tcp_results :: "TcpTestResult list" where
  "sample_tcp_results =
     [(new_tcp_result (mk_item ''t1'' ''fake'') ''discord.com'')\<lparr>tr_success := True\<rparr>,
      new_tcp_result (mk_item ''t2'' ''split'') ''discord.com'',
      (new_tcp_result (mk_item ''t3'' ''oob'') ''discord.com'')\<lparr>tr_success := True, tr_throttled := True\<rparr>]"

definition sample_udp_items :: "StrategyItem list" where
  "sample_udp_items = [mk_item ''u1'' ''fake:blob=a'', mk_item ''u2'' ''ipfrag'']"

text \<open>The check of the pair of t1 and u2 raises; only u1 works.\<close>

definition sample_pair_probe :: pair_probe where
  "sample_pair_probe t =
     (if task_key t = (''t1'', ''u2'') then Inl ''timeout''
      else if si_label (pt_udp t) = ''u1'' then Inr ok_data else Inr no_data)"

definition later_pair_probe :: pair_probe where
  "later_pair_probe t = Inr ok_data"

lemma sample_pair_sound: "sound_db sample_pair_env"
  by (simp add: sound_db_def sample_pair_env_def)

definition overalls :: "PairResult list \<Rightarrow> (string \<times> string \<times> string) list" where
  "overalls ps = map (\<lambda>p. (si_label (pr_tcp_item p), si_label (pr_udp_item p), pr_overall p)) ps"


end
