(* ===== verification/DomainLoader.thy ===== *)
theory DomainLoader
  imports Quarantine
begin

text \<open>
  \<^verbatim>\<open>engine/domain_loader.py\<close> and the denylist writer of \<^verbatim>\<open>engine/domain_quarantine.py\<close>:
  canonical probe host names, preset and denylist files, and the filter they feed. A file
  is its decoded text with line ends as \<open>\n\<close>; a path that does not exist has no text.
  The library call \<^verbatim>\<open>ipaddress.ip_address\<close> is modelled by its grammar for the two address
  families.
\<close>

section \<open>Literal addresses\<close>

definition hex_digit :: "char \<Rightarrow> bool" where
  "hex_digit c = (is_decimal c \<or> (let n = code c in 65 \<le> n \<and> n \<le> 70 \<or> 97 \<le> n \<and> n \<le> 102))"

definition ipv4_octet :: "string \<Rightarrow> bool" where
  "ipv4_octet s = (s \<noteq> [] \<and> list_all is_decimal s \<and> length s \<le> 3 \<and>
     (s = ''0'' \<or> hd s \<noteq> CHR ''0'') \<and> nat_of_digits s \<le> 255)"

definition is_ipv4 :: "string \<Rightarrow> bool" where
  "is_ipv4 s = (let ps = split_char CHR ''.'' s in length ps = 4 \<and> list_all ipv4_octet ps)"

definition hextet :: "string \<Rightarrow> bool" where
  "hextet s = (s \<noteq> [] \<and> list_all hex_digit s \<and> length s \<le> 4)"

definition ipv6_parts_ok :: "string list \<Rightarrow> bool" where
  "ipv6_parts_ok parts =
     (let n = length parts;
          empties = filter (\<lambda>i. parts ! i = []) [1..<n - 1]
      in 3 \<le> n \<and> n \<le> 9 \<and>
         (case empties of
            [] \<Rightarrow> n = 8 \<and> list_all hextet parts
          | [k] \<Rightarrow>
              (let hi = (if hd parts = [] then k - 1 else k);
                   lo = (if last parts = [] then n - k - 2 else n - k - 1)
               in (hd parts = [] \<longrightarrow> hi = 0) \<and> (last parts = [] \<longrightarrow> lo = 0) \<and> hi + lo \<le> 7 \<and>
                  list_all hextet (take hi parts) \<and> list_all hextet (drop (n - lo) parts))
          | _ \<Rightarrow> False))"

definition is_ipv6 :: "string \<Rightarrow> bool" where
  "is_ipv6 s =
     (let addr = before_char CHR ''%'' s;
          scope_ok = (case after_char CHR ''%'' s of None \<Rightarrow> True | Some z \<Rightarrow> z \<noteq> [] \<and> CHR ''%'' \<notin> set z);
          parts = split_char CHR '':'' addr
      in scope_ok \<and> CHR ''/'' \<notin> set addr \<and> 3 \<le> length parts \<and>
         (if CHR ''.'' \<in> set (last parts)
          then is_ipv4 (last parts) \<and> ipv6_parts_ok (butlast parts @ [''0'', ''0''])
          else ipv6_parts_ok parts))"

definition is_literal_ip :: "string \<Rightarrow> bool" where
  "is_literal_ip token = (is_ipv4 token \<or> is_ipv6 token)"

section \<open>Canonical host names\<close>

text \<open>One label of \<open>_FQDN_RE\<close>: 1 to 63 of \<^verbatim>\<open>[a-z0-9-]\<close> with no hyphen at either end.\<close>

definition lower_alnum :: "char \<Rightarrow> bool" where
  "lower_alnum c = (is_decimal c \<or> 97 \<le> code c \<and> code c \<le> 122)"

definition fqdn_label :: "string \<Rightarrow> bool" where
  "fqdn_label l = (l \<noteq> [] \<and> length l \<le> 63 \<and> lower_alnum (hd l) \<and> lower_alnum (last l) \<and>
     list_all (\<lambda>c. lower_alnum c \<or> c = CHR ''-'') l)"

definition fqdn_match :: "string \<Rightarrow> bool" where
  "fqdn_match s = (let ls = split_char CHR ''.'' s in 2 \<le> length ls \<and> list_all fqdn_label ls)"

definition rstrip_char :: "char \<Rightarrow> string \<Rightarrow> string" where
  "rstrip_char c s = rev (dropWhile (\<lambda>x. x = c) (rev s))"

text \<open>
  The notes and drop reasons are only logged, so the model keeps which of them is given:
  \<open>Some f\<close> with a flag for the normalization note, or the kind of refusal.
\<close>

datatype drop_reason = DropEmpty | DropNotHostname | DropIpAddress | DropNotFqdn

definition canonicalize_probe_domain :: "string \<Rightarrow> drop_reason + (string \<times> bool)" where
  "canonicalize_probe_domain raw =
     (let s = strip raw
      in if s = [] then Inl DropEmpty
         else if contains ''://'' s \<or> CHR ''*'' \<in> set s \<or> list_ex is_space s then Inl DropNotHostname
         else if is_literal_ip s then Inl DropIpAddress
         else (let s1 = (if endswith s ''/'' then rstrip_char CHR ''/'' s else s);
                   folded = rstrip_char CHR ''.'' (lower s1)
               in if \<not> fqdn_match folded then Inl DropNotFqdn
                  else Inr (folded, folded \<noteq> s)))"

definition filter_step :: "string list \<Rightarrow> string \<Rightarrow> string list" where
  "filter_step kept raw =
     (case canonicalize_probe_domain raw of
        Inl _ \<Rightarrow> kept
      | Inr (fqdn, _) \<Rightarrow> add_new kept fqdn)"

definition filter_probe_domains :: "string list \<Rightarrow> string list" where
  "filter_probe_domains domains = foldl filter_step [] domains"

text \<open>\<open>auto_enable_gv_ggc\<close> on the process environment.\<close>

definition auto_enable_gv_ggc :: "string list \<Rightarrow> (string, string) dict \<Rightarrow> (string, string) dict" where
  "auto_enable_gv_ggc domains env =
     (if \<not> list_ex (\<lambda>d. contains ''googlevideo'' (lower d)) domains then env
      else if lower (strip (dict_getd env ''BLOCKCHECKS_GV_GGC'' [])) \<in> set [''0'', ''false'', ''off'', ''no''] then env
      else (case dict_get env ''BLOCKCHECKS_GV_GGC'' of
              None \<Rightarrow> dict_set ''BLOCKCHECKS_GV_GGC'' ''1'' env
            | Some _ \<Rightarrow> env))"

section \<open>Files\<close>

type_synonym files = "string \<Rightarrow> string option"

abbreviation newline :: char where
  "newline \<equiv> CHR 0x0A"

definition lines_of :: "string \<Rightarrow> string list" where
  "lines_of t = (let ps = split_char newline t in if last ps = [] then butlast ps else ps)"

record DenylistEntry =
  de_domain :: string
  de_category :: string

record DomainLoadResult =
  dl_domains :: "string list"
  dl_source :: string
  dl_skipped :: "DenylistEntry list"
  dl_denylist_applied :: bool

definition domain_line :: "string \<Rightarrow> string option" where
  "domain_line l =
     (let line = strip l
      in if line = [] \<or> startswith line ''#'' then None
         else (let d = strip (before_char CHR ''#'' line) in if d = [] then None else Some d))"

definition read_domain_lines :: "string \<Rightarrow> string list" where
  "read_domain_lines t = List.map_filter domain_line (lines_of t)"

definition parse_deny_line :: "string \<Rightarrow> DenylistEntry option" where
  "parse_deny_line l =
     (let raw = strip l
      in if raw = [] \<or> startswith raw ''#'' then None
         else (case after_char CHR ''#'' raw of
                 Some cat \<Rightarrow>
                   (let d = lower (strip (before_char CHR ''#'' raw))
                    in if d = [] then None else Some \<lparr>de_domain = d, de_category = strip cat\<rparr>)
               | None \<Rightarrow> Some \<lparr>de_domain = lower raw, de_category = []\<rparr>))"

definition parse_denylist_file :: "files \<Rightarrow> string \<Rightarrow> DenylistEntry list" where
  "parse_denylist_file fs path =
     (case fs path of None \<Rightarrow> [] | Some t \<Rightarrow> List.map_filter parse_deny_line (lines_of t))"

text \<open>
  \<open>load_denylist\<close> with the two default locations as arguments: later entries replace
  earlier ones of the same domain.
\<close>

definition load_denylist :: "files \<Rightarrow> string \<Rightarrow> string \<Rightarrow> string option \<Rightarrow> DenylistEntry list" where
  "load_denylist fs bundled user path =
     (case path of
        Some p \<Rightarrow> if p \<noteq> [] then parse_denylist_file fs p
                  else map snd (foldl (\<lambda>m e. dict_set (de_domain e) e m) []
                         (parse_denylist_file fs bundled @ parse_denylist_file fs user))
      | None \<Rightarrow> map snd (foldl (\<lambda>m e. dict_set (de_domain e) e m) []
                  (parse_denylist_file fs bundled @ parse_denylist_file fs user)))"

definition deny_key :: "string \<Rightarrow> string" where
  "deny_key d = before_char CHR ''/'' (lower d)"

definition apply_denylist :: "string list \<Rightarrow> DenylistEntry list \<Rightarrow> bool \<Rightarrow> string list \<times> DenylistEntry list" where
  "apply_denylist domains entries allow_unsafe =
     (if allow_unsafe \<or> domains = [] \<or> entries = [] then (domains, [])
      else (let deny = foldl (\<lambda>m e. dict_set (de_domain e) e m) [] entries
            in (filter (\<lambda>d. dict_get deny (deny_key d) = None) domains,
                List.map_filter (\<lambda>d. dict_get deny (deny_key d)) domains)))"

definition load_domains :: "files \<Rightarrow> string \<Rightarrow> string \<Rightarrow> string \<Rightarrow> bool \<Rightarrow> string option \<Rightarrow> DomainLoadResult result" where
  "load_domains fs bundled user path allow_unsafe deny_path =
     (case fs path of
        None \<Rightarrow> Inl (OSError path)
      | Some t \<Rightarrow>
          (let raw = read_domain_lines t;
               denylist = load_denylist fs bundled user deny_path;
               r = apply_denylist raw denylist allow_unsafe
           in Inr \<lparr>dl_domains = fst r, dl_source = path, dl_skipped = snd r,
                   dl_denylist_applied = (\<not> allow_unsafe \<and> snd r \<noteq> [])\<rparr>))"

definition format_skip_summary :: "DenylistEntry list \<Rightarrow> nat \<Rightarrow> string" where
  "format_skip_summary skipped max_show =
     (if skipped = [] then []
      else (let parts = map (\<lambda>e. if de_category e \<noteq> [] then de_domain e @ '' ('' @ de_category e @ '')'' else de_domain e)
                          (take max_show skipped);
                tl = (if length skipped > max_show
                      then '', +'' @ digits_of_nat (length skipped - max_show) @ '' more'' else [])
            in ''skipped '' @ digits_of_nat (length skipped) @ '': '' @ join_with '', '' parts @ tl))"

text \<open>The run store's counters are an argument: the tests and successes of a domain.\<close>

definition warn_zero_pass_domains :: "(string \<Rightarrow> int \<times> int) \<Rightarrow> string list \<Rightarrow> int \<Rightarrow> string list" where
  "warn_zero_pass_domains stats domains min_results =
     (if min_results \<le> 0 \<or> domains = [] then []
      else filter (\<lambda>d. fst (stats d) \<ge> min_results \<and> snd (stats d) = 0) domains)"

section \<open>Writing the denylist\<close>

definition existing_tokens :: "string \<Rightarrow> string list" where
  "existing_tokens t = filter (\<lambda>k. k \<noteq> []) (map (\<lambda>l. lower (strip (before_char CHR ''#'' l))) (lines_of t))"

definition deny_text :: "string \<Rightarrow> QInfo \<Rightarrow> string" where
  "deny_text dm e = dm @ ''  # auto-quarantine '' @ qi_ts e @ '' ('' @ qi_reason e @ '')'' @ [newline]"

fun append_entries :: "string list \<Rightarrow> QInfo list \<Rightarrow> string \<times> string list" where
  "append_entries existing [] = ([], [])"
| "append_entries existing (e # es) =
     (let dm = lower (strip (qi_domain e))
      in if dm = [] \<or> dm \<in> set existing then append_entries existing es
         else (case append_entries (dm # existing) es of
                 (t, ds) \<Rightarrow> (deny_text dm e @ t, dm # ds)))"

text \<open>
  \<open>append_denylist\<close> on the text of the file (none when it does not exist yet). \<open>io_ok\<close> says
  whether the directory and file can be opened; if not the file is left alone and the
  result is empty.
\<close>

definition append_denylist :: "bool \<Rightarrow> QInfo list \<Rightarrow> string option \<Rightarrow> string option \<times> string list" where
  "append_denylist io_ok entries file =
     (if \<not> io_ok then (file, [])
      else (let t = (case file of None \<Rightarrow> [] | Some t \<Rightarrow> t)
            in case append_entries (existing_tokens t) entries of (new, ds) \<Rightarrow> (Some (t @ new), ds)))"

section \<open>Lemmas on strings and lines\<close>

lemma contains_set: "contains p s \<Longrightarrow> set p \<subseteq> set s"
  by (simp add: contains_iff set_mono_sublist)

lemma set_join_with: "set (join_with sep ws) \<subseteq> set sep \<union> (\<Union>w \<in> set ws. set w)"
  by (induction sep ws rule: join_with.induct) auto

lemma split_char_snoc:
  "x \<noteq> c \<Longrightarrow> split_char c (s @ [x]) = butlast (split_char c s) @ [last (split_char c s) @ [x]]"
  by (induction s) (auto split: list.splits)

lemma split_char_Cons_sep: "split_char c (s @ c # t) = split_char c s @ split_char c t"
proof (induction s)
  case (Cons x s)
  obtain w ws where "split_char c s = w # ws" by (cases "split_char c s") auto
  then show ?case using Cons by simp
qed simp

lemma lower_char_idem [simp]: "lower_char (lower_char c) = lower_char c"
proof -
  have "of_char c < (256 :: nat)" by simp
  then show ?thesis by (auto simp: lower_char_def Let_def)
qed

lemma lower_idem [simp]: "lower (lower s) = lower s"
  by (simp add: lower_def)

lemma lower_char_id: "lower_alnum c \<or> c = CHR ''.'' \<or> c = CHR ''-'' \<Longrightarrow> lower_char c = c"
  by (auto simp: lower_alnum_def is_decimal_def lower_char_def Let_def)

lemma not_space: "lower_alnum c \<or> c = CHR ''.'' \<or> c = CHR ''-'' \<Longrightarrow> \<not> is_space c"
  by (auto simp: lower_alnum_def is_decimal_def is_space_def Let_def)

lemma strip_id: "(\<And>c. c \<in> set s \<Longrightarrow> \<not> is_space c) \<Longrightarrow> strip s = s"
proof -
  assume a: "\<And>c. c \<in> set s \<Longrightarrow> \<not> is_space c"
  have "dropWhile is_space t = t" if "\<And>c. c \<in> set t \<Longrightarrow> \<not> is_space c" for t
    using that by (cases t) auto
  from this [of s] this [of "rev s"] a show ?thesis by (simp add: strip_def strip_by_def)
qed

lemma lines_append_newline:
  assumes "t = [] \<or> last t = newline"
  shows "lines_of (t @ u) = lines_of t @ lines_of u"
proof (cases "t = []")
  case True
  then show ?thesis by (simp add: lines_of_def)
next
  case False
  with assms obtain v where t: "t = v @ [newline]" by (metis append_butlast_last_id)
  have "split_char newline t = split_char newline v @ [[]]"
    using split_char_Cons_sep [of newline v "[]"] t by simp
  moreover have "split_char newline (t @ u) = split_char newline v @ split_char newline u"
    using split_char_Cons_sep [of newline v u] t by simp
  ultimately show ?thesis by (simp add: lines_of_def Let_def butlast_append)
qed

lemma lines_single: "newline \<notin> set l \<Longrightarrow> lines_of (l @ newline # u) = l # lines_of u"
proof -
  assume a: "newline \<notin> set l"
  have "split_char newline l = [l]" using a by (induction l) auto
  then show ?thesis using split_char_Cons_sep [of newline l u] by (simp add: lines_of_def Let_def)
qed

section \<open>Host names\<close>

lemma fqdn_chars: "fqdn_match s \<Longrightarrow> c \<in> set s \<Longrightarrow> lower_alnum c \<or> c = CHR ''.'' \<or> c = CHR ''-''"
proof -
  assume f: "fqdn_match s" and c: "c \<in> set s"
  have "c \<in> set (join_with [CHR ''.''] (split_char CHR ''.'' s))" using c by (simp add: join_split_char)
  then have "c = CHR ''.'' \<or> (\<exists>l \<in> set (split_char CHR ''.'' s). c \<in> set l)"
    using set_join_with by fastforce
  then show ?thesis using f by (auto simp: fqdn_match_def fqdn_label_def list_all_iff Let_def)
qed

lemma last_join_with: "ws \<noteq> [] \<Longrightarrow> last ws \<noteq> [] \<Longrightarrow> join_with sep ws \<noteq> [] \<and> last (join_with sep ws) = last (last ws)"
  by (induction sep ws rule: join_with.induct) auto

lemma fqdn_last: "fqdn_match s \<Longrightarrow> s \<noteq> [] \<and> lower_alnum (last s)"
proof -
  assume f: "fqdn_match s"
  let ?ps = "split_char CHR ''.'' s"
  have "fqdn_label (last ?ps)" using f by (simp add: fqdn_match_def list_all_iff Let_def)
  then show ?thesis
    using last_join_with [of ?ps "[CHR ''.'']"] by (simp add: join_split_char fqdn_label_def)
qed

lemma rstrip_char_id: "s = [] \<or> last s \<noteq> c \<Longrightarrow> rstrip_char c s = s"
  by (cases s rule: rev_cases) (auto simp: rstrip_char_def)

lemma lower_fqdn: "fqdn_match s \<Longrightarrow> lower s = s"
  using fqdn_chars [of s] lower_char_id by (simp add: lower_def map_idI)

lemma fqdn_plain:
  assumes "fqdn_match s"
  shows "strip s = s" "\<not> contains ''://'' s" "CHR ''*'' \<notin> set s" "\<not> list_ex is_space s" "\<not> endswith s ''/''"
    "CHR ''/'' \<notin> set s" "CHR '':'' \<notin> set s"
proof -
  note ch = fqdn_chars [OF assms]
  show "strip s = s" using ch not_space by (intro strip_id) blast
  show "CHR ''*'' \<notin> set s" "CHR ''/'' \<notin> set s" "CHR '':'' \<notin> set s"
    using ch [of "CHR ''*''"] ch [of "CHR ''/''"] ch [of "CHR '':''"]
    by (auto simp: lower_alnum_def is_decimal_def)
  then show "\<not> contains ''://'' s" using contains_set by fastforce
  show "\<not> list_ex is_space s" using ch not_space by (auto simp: list_ex_iff)
  show "\<not> endswith s ''/''"
  proof
    assume "endswith s ''/''"
    then have "CHR ''/'' \<in> set (drop (length s - 1) s)" by (simp add: endswith_def)
    then show False using \<open>CHR ''/'' \<notin> set s\<close> by (auto dest: in_set_dropD)
  qed
qed

lemma canonical_fixpoint:
  assumes "fqdn_match s" and "\<not> is_literal_ip s"
  shows "canonicalize_probe_domain s = Inr (s, False)"
proof -
  have "rstrip_char CHR ''.'' s = s"
    using fqdn_last [OF assms(1)] by (intro rstrip_char_id) (auto simp: lower_alnum_def is_decimal_def)
  then show ?thesis
    using assms fqdn_last [OF assms(1)]
    by (simp add: canonicalize_probe_domain_def fqdn_plain lower_fqdn Let_def)
qed

lemma canonical_fqdn: "canonicalize_probe_domain raw = Inr (f, n) \<Longrightarrow> fqdn_match f"
  by (auto simp: canonicalize_probe_domain_def Let_def split: if_splits)

lemma filter_foldl:
  "distinct kept \<Longrightarrow> distinct (foldl filter_step kept ds) \<and>
   set (foldl filter_step kept ds) = set kept \<union> {f. \<exists>d \<in> set ds. \<exists>n. canonicalize_probe_domain d = Inr (f, n)}"
proof (induction ds arbitrary: kept)
  case (Cons d ds)
  have "distinct (filter_step kept d)"
    using Cons.prems by (auto simp: filter_step_def split: sum.splits)
  moreover have "set (filter_step kept d) = set kept \<union> {f. \<exists>n. canonicalize_probe_domain d = Inr (f, n)}"
    by (auto simp: filter_step_def split: sum.splits)
  ultimately show ?case using Cons.IH [of "filter_step kept d"] by auto
qed simp

lemma ipv4_fqdn: "is_ipv4 s \<Longrightarrow> fqdn_match s"
proof -
  have "fqdn_label l" if "ipv4_octet l" for l
    using that by (auto simp: ipv4_octet_def fqdn_label_def lower_alnum_def list_all_iff)
  then show "is_ipv4 s \<Longrightarrow> fqdn_match s" by (auto simp: is_ipv4_def fqdn_match_def list_all_iff Let_def)
qed

lemma ipv4_slash_not_ip: "is_ipv4 s \<Longrightarrow> \<not> is_literal_ip (s @ ''/'')"
proof -
  assume s: "is_ipv4 s"
  have "split_char CHR ''.'' (s @ ''/'') =
      butlast (split_char CHR ''.'' s) @ [last (split_char CHR ''.'' s) @ ''/'']"
    using split_char_snoc [of "CHR ''/''" "CHR ''.''" s] by simp
  then have "\<not> is_ipv4 (s @ ''/'')"
    by (auto simp: is_ipv4_def Let_def ipv4_octet_def is_decimal_def)
  moreover have "\<not> is_ipv6 (s @ ''/'')"
  proof -
    have "CHR ''%'' \<notin> set s"
      using fqdn_chars [OF ipv4_fqdn [OF s], of "CHR ''%''"] by (auto simp: lower_alnum_def is_decimal_def)
    then have "before_char CHR ''%'' (s @ ''/'') = s @ ''/''"
      by (auto simp: before_char_def takeWhile_eq_all_conv)
    then show ?thesis by (simp add: is_ipv6_def Let_def)
  qed
  ultimately show ?thesis by (simp add: is_literal_ip_def)
qed

text \<open>
  The probe list that comes out of the filter has no duplicates, holds exactly the
  accepted names, all of them lower-case dotted host names, and filtering again changes
  nothing for names that are not IP literals.
\<close>

theorem filter_probe_domains_canonical:
  assumes "out = filter_probe_domains raws"
  shows "distinct out \<and> set out = {f. \<exists>d \<in> set raws. \<exists>n. canonicalize_probe_domain d = Inr (f, n)}
    \<and> (\<forall>f \<in> set out. fqdn_match f \<and> lower f = f)
    \<and> ((\<forall>f \<in> set out. \<not> is_literal_ip f) \<longrightarrow> filter_probe_domains out = out)"
proof -
  have out: "distinct out" "set out = {f. \<exists>d \<in> set raws. \<exists>n. canonicalize_probe_domain d = Inr (f, n)}"
    using filter_foldl [of "[]" raws] by (auto simp: assms filter_probe_domains_def)
  have fq: "fqdn_match f \<and> lower f = f" if "f \<in> set out" for f
    using that out(2) canonical_fqdn lower_fqdn by blast
  have "foldl filter_step kept out' = kept @ out'"
    if "distinct (kept @ out')" "\<forall>f \<in> set out'. fqdn_match f \<and> \<not> is_literal_ip f" for kept out'
    using that
  proof (induction out' arbitrary: kept)
    case (Cons f fs)
    then have "filter_step kept f = kept @ [f]"
      by (simp add: filter_step_def canonical_fixpoint add_new_def)
    then show ?case using Cons.IH [of "kept @ [f]"] Cons.prems by simp
  qed simp
  from this [of "[]" out] out fq show ?thesis by (auto simp: filter_probe_domains_def)
qed

theorem filter_probe_domains_canonical_witness:
  "filter_probe_domains [''Discord.com'', ''discord.com.'', ''1.2.3.4'', ''x''] = [''discord.com'']
   \<and> fqdn_match ''discord.com'' \<and> filter_probe_domains [''discord.com''] = [''discord.com'']"
proof -
  have out: "filter_probe_domains [''Discord.com'', ''discord.com.'', ''1.2.3.4'', ''x''] = [''discord.com'']"
    by code_simp
  moreover have "\<not> is_literal_ip ''discord.com''" by code_simp
  ultimately show ?thesis using filter_probe_domains_canonical [OF out [symmetric]] by simp
qed

text \<open>
  An IPv4 literal with a slash after it passes the filter and comes out as the bare
  address, although literals are meant to be dropped.
\<close>

theorem ipv4_with_slash_accepted:
  assumes "is_ipv4 s"
  shows "canonicalize_probe_domain (s @ ''/'') = Inr (s, True) \<and> canonicalize_probe_domain s = Inl DropIpAddress"
proof -
  have f: "fqdn_match s" using assms by (rule ipv4_fqdn)
  note pl = fqdn_plain [OF f]
  have st: "strip (s @ ''/'') = s @ ''/''"
  proof (rule strip_id)
    fix c assume "c \<in> set (s @ ''/'')"
    then show "\<not> is_space c" using not_space [OF fqdn_chars [OF f]] by (cases "c \<in> set s") (auto simp: is_space_def)
  qed
  have nc: "\<not> contains ''://'' (s @ ''/'')" using pl(7) contains_set by fastforce
  have rs: "rstrip_char CHR ''/'' (s @ ''/'') = s"
    using fqdn_last [OF f] pl(6) by (cases s rule: rev_cases) (auto simp: rstrip_char_def)
  have rd: "rstrip_char CHR ''.'' s = s"
    using fqdn_last [OF f] by (intro rstrip_char_id) (auto simp: lower_alnum_def is_decimal_def)
  have "canonicalize_probe_domain (s @ ''/'') = Inr (s, True)"
    using st nc rs rd pl f ipv4_slash_not_ip [OF assms]
    by (simp add: canonicalize_probe_domain_def Let_def lower_fqdn endswith_def is_space_def)
  moreover have "canonicalize_probe_domain s = Inl DropIpAddress"
    using pl fqdn_last [OF f] assms
    by (simp add: canonicalize_probe_domain_def Let_def is_literal_ip_def)
  ultimately show ?thesis by blast
qed

theorem ipv4_with_slash_accepted_witness:
  "canonicalize_probe_domain (''10.0.0.1'' @ ''/'') = Inr (''10.0.0.1'', True)
   \<and> canonicalize_probe_domain ''10.0.0.1'' = Inl DropIpAddress"
  by (rule ipv4_with_slash_accepted) code_simp

section \<open>The denylist that quarantine writes\<close>

text \<open>
  What the writer relies on: entries name plain host names, and neither time stamp nor
  reason breaks the line.
\<close>

definition clean_entry :: "QInfo \<Rightarrow> bool" where
  "clean_entry e = (fqdn_match (qi_domain e) \<and> newline \<notin> set (qi_ts e) \<and> newline \<notin> set (qi_reason e))"

lemma fqdn_no_hash: "fqdn_match d \<Longrightarrow> CHR ''#'' \<notin> set d \<and> newline \<notin> set d \<and> CHR '' '' \<notin> set d"
  using fqdn_chars [of d "CHR ''#''"] fqdn_chars [of d newline] fqdn_chars [of d "CHR '' ''"]
  by (auto simp: lower_alnum_def is_decimal_def)

lemma strip_right_spaces:
  assumes "fqdn_match d" shows "strip (d @ ''  '') = d"
proof -
  have "dropWhile is_space (d @ ''  '') = d @ ''  ''"
    using fqdn_last [OF assms] fqdn_plain(4) [OF assms] by (cases d) (auto simp: list_ex_iff)
  moreover have "dropWhile is_space (rev d) = rev d"
    using fqdn_last [OF assms] fqdn_plain(4) [OF assms] by (cases d rule: rev_cases) (auto simp: list_ex_iff)
  ultimately show ?thesis by (simp add: strip_def strip_by_def is_space_def)
qed

lemma parse_deny_text_line:
  assumes "fqdn_match d" and "last r \<noteq> CHR '' ''" and "r \<noteq> []" and "\<not> is_space (last r)"
  shows "\<exists>e. parse_deny_line (d @ ''  # '' @ r) = Some e \<and> de_domain e = d"
proof -
  note d = fqdn_last [OF assms(1)] fqdn_no_hash [OF assms(1)]
  have hd: "dropWhile is_space (d @ ''  # '' @ r) = d @ ''  # '' @ r"
    using d fqdn_plain(4) [OF assms(1)] by (cases d) (auto simp: list_ex_iff)
  have tl: "dropWhile is_space (rev (d @ ''  # '' @ r)) = rev (d @ ''  # '' @ r)"
    using assms(3,4) by (cases r rule: rev_cases) auto
  have st: "strip (d @ ''  # '' @ r) = d @ ''  # '' @ r"
    unfolding strip_def strip_by_def hd tl by simp
  have bc: "before_char CHR ''#'' (d @ ''  # '' @ r) = d @ ''  ''"
  proof -
    have "takeWhile (\<lambda>x. x \<noteq> CHR ''#'') (d @ u) = d @ takeWhile (\<lambda>x. x \<noteq> CHR ''#'') u" for u
      using d by (intro takeWhile_append2) auto
    then show ?thesis by (simp add: before_char_def)
  qed
  have ac: "after_char CHR ''#'' (d @ ''  # '' @ r) = Some ('' '' @ r)"
  proof -
    have "dropWhile (\<lambda>x. x \<noteq> CHR ''#'') (d @ u) = dropWhile (\<lambda>x. x \<noteq> CHR ''#'') u" for u
      using d by (intro dropWhile_append2) auto
    then show ?thesis by (simp add: after_char_def)
  qed
  have nh: "\<not> startswith (d @ ''  # '' @ r) ''#''" using d by (cases d) (auto simp: startswith_def)
  show ?thesis
    using d nh unfolding parse_deny_line_def st
    by (simp add: Let_def ac bc strip_right_spaces [OF assms(1)] lower_fqdn [OF assms(1)]
        del: append_Cons append.append_Cons)
qed

lemma append_entries_parse:
  assumes "\<forall>e \<in> set es. clean_entry e"
  shows "\<forall>e \<in> set es. qi_domain e \<in> set existing \<or>
     qi_domain e \<in> de_domain ` set (List.map_filter parse_deny_line (lines_of (fst (append_entries existing es))))"
  using assms
proof (induction es arbitrary: existing)
  case (Cons e es)
  let ?d = "qi_domain e"
  have f: "fqdn_match ?d" and ln: "newline \<notin> set (qi_ts e)" "newline \<notin> set (qi_reason e)"
    using Cons.prems by (auto simp: clean_entry_def)
  have ls: "lower (strip ?d) = ?d" using f by (simp add: fqdn_plain lower_fqdn)
  show ?case
  proof (cases "?d \<in> set existing")
    case True
    then show ?thesis using Cons ls by auto
  next
    case False
    define r where "r = ''auto-quarantine '' @ qi_ts e @ '' ('' @ qi_reason e @ '')''"
    obtain t ds where t: "append_entries (?d # existing) es = (t, ds)" by fastforce
    have tx: "fst (append_entries existing (e # es)) = (?d @ ''  # '' @ r) @ newline # t"
      using False f ls t fqdn_last [OF f] by (simp add: deny_text_def r_def Let_def)
    have "newline \<notin> set (?d @ ''  # '' @ r)" using fqdn_no_hash [OF f] ln by (simp add: r_def)
    then have lines: "lines_of (fst (append_entries existing (e # es))) = (?d @ ''  # '' @ r) # lines_of t"
      unfolding tx by (rule lines_single)
    obtain x where x: "parse_deny_line (?d @ ''  # '' @ r) = Some x" "de_domain x = ?d"
      using parse_deny_text_line [OF f, of r] by (auto simp: r_def is_space_def)
    have IH: "qi_domain e' = ?d \<or> qi_domain e' \<in> set existing \<or>
        qi_domain e' \<in> de_domain ` set (List.map_filter parse_deny_line (lines_of t))"
      if "e' \<in> set es" for e'
      using Cons.IH [of "?d # existing"] Cons.prems that t by auto
    show ?thesis
      unfolding lines using x IH by (auto simp: map_filter_simps image_iff simp del: append_Cons append.append_Cons)
  qed
qed simp

lemma existing_tokens_parse:
  "fqdn_match d \<Longrightarrow> d \<in> set (existing_tokens t) \<Longrightarrow> \<exists>l \<in> set (lines_of t). lower (strip (before_char CHR ''#'' l)) = d"
  by (auto simp: existing_tokens_def)

lemma get_deny_map:
  "dict_get (foldl (\<lambda>m e. dict_set (de_domain e) e m) m es) k = None
   \<longleftrightarrow> k \<notin> de_domain ` set es \<and> dict_get m k = None"
  by (induction es arbitrary: m) (auto simp: map_of_update')

text \<open>
  What quarantine appends to a denylist that ends with a line end takes effect: the
  next load of that file drops every appended domain from a probe list, and nothing that
  was in the file before is lost.
\<close>

theorem appended_domains_are_denied:
  assumes "\<forall>e \<in> set entries. clean_entry e"
    and "t = [] \<or> last t = newline"
    and "append_denylist True entries (Some t) = (Some t', written)"
    and "dm \<in> set written"
  shows "dm \<notin> set (fst (apply_denylist domains (parse_denylist_file (\<lambda>p. Some t') path) False))
    \<and> set (parse_denylist_file (\<lambda>p. Some t) path) \<subseteq> set (parse_denylist_file (\<lambda>p. Some t') path)"
proof -
  obtain new where new: "append_entries (existing_tokens t) entries = (new, written)" and t': "t' = t @ new"
    using assms(3) by (auto simp: append_denylist_def split: prod.splits)
  have wr: "\<exists>e \<in> set es. d = lower (strip (qi_domain e)) \<and> d \<notin> set ex"
    if "append_entries ex es = (n, w)" "d \<in> set w" for ex es n w d
    using that by (induction ex es arbitrary: n w rule: append_entries.induct)
      (auto simp: Let_def split: if_splits prod.splits)
  from wr [OF new assms(4)] obtain e where e: "e \<in> set entries" "dm = lower (strip (qi_domain e))"
    "dm \<notin> set (existing_tokens t)" by blast
  with assms(1) have f: "fqdn_match (qi_domain e)" by (auto simp: clean_entry_def)
  then have d: "dm = qi_domain e" "fqdn_match dm" using e(2) by (auto simp: fqdn_plain lower_fqdn)
  have mem: "dm \<in> de_domain ` set (List.map_filter parse_deny_line (lines_of new))"
    using append_entries_parse [OF assms(1), of "existing_tokens t"] e d new by auto
  have lines: "lines_of t' = lines_of t @ lines_of new"
    using assms(2) by (simp add: t' lines_append_newline)
  have mf: "set (List.map_filter f (xs @ ys)) = set (List.map_filter f xs) \<union> set (List.map_filter f ys)"
    for f :: "string \<Rightarrow> DenylistEntry option" and xs ys
    by (auto simp: List.map_filter_def)
  let ?P = "parse_denylist_file (\<lambda>p. Some t') path"
  have inP: "dm \<in> de_domain ` set ?P"
    using mem by (auto simp: parse_denylist_file_def lines mf)
  have "CHR ''/'' \<notin> set dm" using d(2) by (rule fqdn_plain)
  then have "before_char CHR ''/'' dm = dm" by (auto simp: before_char_def takeWhile_eq_all_conv)
  then have key: "deny_key dm = dm" using d(2) by (simp add: deny_key_def lower_fqdn)
  have "dm \<notin> set (fst (apply_denylist domains ?P False))"
    using inP key by (auto simp: apply_denylist_def Let_def get_deny_map)
  then show ?thesis by (auto simp: parse_denylist_file_def lines mf)
qed

theorem appended_domains_are_denied_witness:
  "''b.ru'' \<notin> set (fst (apply_denylist [''a.ru'', ''b.ru'']
       (parse_denylist_file (\<lambda>p. Some (the (fst (append_denylist True
          [\<lparr>qi_domain = ''b.ru'', qi_attempts = 1, qi_passed = 0, qi_failed = 1, qi_ts = ''t'', qi_reason = ''r''\<rparr>]
          (Some []))))) ''f'') False))"
proof -
  let ?e = "[\<lparr>qi_domain = ''b.ru'', qi_attempts = 1, qi_passed = 0, qi_failed = 1, qi_ts = ''t'', qi_reason = ''r''\<rparr>]"
  have "\<forall>e \<in> set ?e. clean_entry e" by code_simp
  moreover have "append_denylist True ?e (Some []) = (Some (the (fst (append_denylist True ?e (Some [])))), [''b.ru''])"
    by code_simp
  ultimately show ?thesis
    using appended_domains_are_denied [of ?e "[]" _ "[''b.ru'']" "''b.ru''" "[''a.ru'', ''b.ru'']" "''f''"] by simp
qed

text \<open>
  On a denylist whose last line is not terminated the same write loses entries: the
  appended name runs into the last one, and neither of the two is denied afterwards.
\<close>

theorem unterminated_denylist_corrupted:
  "\<exists>t entries t' written. append_denylist True entries (Some t) = (Some t', written)
    \<and> written = [''b.ru''] \<and> map de_domain (parse_denylist_file (\<lambda>p. Some t) []) = [''a.ru'']
    \<and> map de_domain (parse_denylist_file (\<lambda>p. Some t') []) = [''a.rub.ru'']"
proof (intro exI conjI)
  let ?e = "[\<lparr>qi_domain = ''b.ru'', qi_attempts = 1, qi_passed = 0, qi_failed = 1, qi_ts = ''t'', qi_reason = ''r''\<rparr>]"
  show "append_denylist True ?e (Some ''a.ru'') = (Some (''a.ru'' @ deny_text ''b.ru'' (hd ?e)), [''b.ru''])"
    by code_simp
  show "map de_domain (parse_denylist_file (\<lambda>p. Some ''a.ru'') []) = [''a.ru'']"
    by code_simp
  show "map de_domain (parse_denylist_file (\<lambda>p. Some (''a.ru'' @ deny_text ''b.ru'' (hd ?e))) []) = [''a.rub.ru'']"
    by code_simp
qed simp

end
