(* ===== verification/AdaptiveRunner.thy ===== *)
theory AdaptiveRunner
  imports AdaptiveQueueProps BridgePool
begin

text \<open>
  \<^verbatim>\<open>engine/adaptive_runner.py\<close>: building the queue from saved weights, provider results, triage
  and quarantine, and the bridge worker that drains it. Database, provider store, clock and
  probes are arguments. The hard exclusions of the queue and of the worker pool are one set
  object in the program; here they are the queue's field. One worker is modelled between its
  own awaits, with as many loop rounds as \<open>fuel\<close> allows; the properties hold after any
  number of rounds.
\<close>

section \<open>Building the queue\<close>

record provider_row =
  pv_domain :: "string option"
  pv_strategy :: "string option"

definition str_or_empty :: "string option \<Rightarrow> string" where
  "str_or_empty x = (case x of None \<Rightarrow> [] | Some s \<Rightarrow> s)"

definition apply_provider_row :: "string set \<Rightarrow> ScanWeights \<Rightarrow> provider_row \<Rightarrow> ScanWeights" where
  "apply_provider_row domain_set w row =
     (let d = lower (str_or_empty (pv_domain row));
          strat = str_or_empty (pv_strategy row)
      in if d \<noteq> [] \<and> d \<notin> domain_set then w
         else if strat = [] then w
         else snd (boost_provider_once strat (classify_strategy_family (mk_item strat strat))
                (extract_blob_hints strat) (strategy_traits strat) w))"

definition apply_provider_weights :: "provider_row list result \<Rightarrow> string list \<Rightarrow> ScanWeights \<Rightarrow> ScanWeights" where
  "apply_provider_weights loaded ds w =
     (let rows = (case loaded of Inl e \<Rightarrow> [] | Inr rs \<Rightarrow> rs)
      in foldl (apply_provider_row (lower ` set ds)) w rows)"

record build_args =
  ba_now :: rat
  ba_rng :: rng_state
  ba_epsilon :: rat
  ba_load_weights :: bool
  ba_db_rows :: "(string \<times> rat) list option"
  ba_provider :: "provider_row list result option"
  ba_triage :: "TriageProfile option"
  ba_quarantine :: "DomainQuarantine option"
  ba_skip_keys :: "jkey set option"
  ba_resume :: "(AdaptiveJob \<Rightarrow> bool) option"

definition initial_weights :: "build_args \<Rightarrow> string list \<Rightarrow> ScanWeights" where
  "initial_weights a ds =
     (let w0 = (case ba_db_rows a of
                  Some rows \<Rightarrow> if ba_load_weights a \<and> rows \<noteq> [] then from_rows rows else new_weights
                | None \<Rightarrow> new_weights);
          w1 = (case ba_provider a of None \<Rightarrow> w0 | Some loaded \<Rightarrow> apply_provider_weights loaded ds w0)
      in seed_from_triage (ba_triage a) w1)"

definition build_adaptive_queue :: "build_args \<Rightarrow> StrategyItem list \<Rightarrow> string list \<Rightarrow> AdaptiveJobQueue \<times> nat" where
  "build_adaptive_queue a items ds =
     (let skip = (case ba_quarantine a of None \<Rightarrow> {} | Some dq \<Rightarrow> exclude_domains dq);
          q0 = build (ba_now a) (ba_rng a) (Some (initial_weights a ds)) (ba_epsilon a) skip
                 (case ba_skip_keys a of None \<Rightarrow> {} | Some ks \<Rightarrow> ks) items ds;
          q1 = (case ba_resume a of None \<Rightarrow> q0 | Some check \<Rightarrow> snd (filter_resume check 512 q0))
      in (q1, card (q_done q1)))"

definition persist_adaptive_weights :: "ScanWeights \<Rightarrow> (string \<times> rat) list option" where
  "persist_adaptive_weights w = (if to_rows w = [] then None else Some (to_rows w))"

section \<open>The bridge worker\<close>

record run_env =
  re_batch :: int
  re_stop :: "nat \<Rightarrow> bool"
  re_now :: "nat \<Rightarrow> rat"
  re_ts :: "nat \<Rightarrow> string"
  re_test :: "nat \<Rightarrow> StrategyItem \<Rightarrow> string \<Rightarrow> TcpTestResult"
  re_probe :: "nat \<Rightarrow> BridgeJob list \<Rightarrow> TcpTestResult list result"

record run_state =
  rs_queue :: AdaptiveJobQueue
  rs_acc :: BatchJobAccumulator
  rs_dip :: DomainIsolationPool
  rs_done :: nat
  rs_skipped :: nat
  rs_passed :: nat
  rs_quarantine :: "DomainQuarantine option"
  rs_writes :: "quarantine_write list"
  rs_tick :: nat
  rs_error :: "py_error option"

definition to_bridge_job :: "AdaptiveJob \<Rightarrow> BridgeJob" where
  "to_bridge_job j = \<lparr>bj_item = aj_item j, bj_domain = aj_domain j, bj_fanout = aj_fanout j\<rparr>"

definition tick :: "run_state \<Rightarrow> run_state" where
  "tick s = s\<lparr>rs_tick := Suc (rs_tick s)\<rparr>"

definition account_with_quarantine :: "run_env \<Rightarrow> string \<Rightarrow> bool \<Rightarrow> TcpTestResult \<Rightarrow> run_state \<Rightarrow> run_state" where
  "account_with_quarantine env d ok r s =
     (case rs_quarantine s of
        None \<Rightarrow> s
      | Some dq \<Rightarrow>
          (case record_quarantine_hit (re_ts env (rs_tick s)) d ok (tr_fail_phase r) (tr_error r) dq (q_excluded (rs_queue s)) of
             (dq1, excluded, wr) \<Rightarrow>
               s\<lparr>rs_quarantine := Some dq1, rs_queue := (rs_queue s)\<lparr>q_excluded := excluded\<rparr>,
                 rs_writes := rs_writes s @ (case wr of None \<Rightarrow> [] | Some x \<Rightarrow> [x])\<rparr>))"

definition run_account :: "run_env \<Rightarrow> AdaptiveJob \<Rightarrow> bool \<Rightarrow> TcpTestResult \<Rightarrow> run_state \<Rightarrow> run_state" where
  "run_account env j ok r s =
     (let s1 = s\<lparr>rs_queue := snd (mark_done (re_now env (rs_tick s)) j ok (rs_queue s)),
                 rs_done := Suc (rs_done s), rs_passed := (if ok then Suc (rs_passed s) else rs_passed s)\<rparr>
      in tick (account_with_quarantine env (aj_domain j) ok r s1))"

definition run_account_skipped :: "run_env \<Rightarrow> AdaptiveJob \<Rightarrow> run_state \<Rightarrow> run_state" where
  "run_account_skipped env j s =
     tick (s\<lparr>rs_queue := snd (mark_done (re_now env (rs_tick s)) j False (rs_queue s)),
             rs_skipped := Suc (rs_skipped s), rs_done := Suc (rs_done s)\<rparr>)"

definition job_by_key :: "AdaptiveJob list \<Rightarrow> (jkey, AdaptiveJob) dict" where
  "job_by_key js = foldl (\<lambda>d j. dict_set (job_key j) j d) [] js"

definition apply_account :: "run_env \<Rightarrow> (jkey, AdaptiveJob) dict \<Rightarrow> run_state \<Rightarrow> account \<Rightarrow> run_state" where
  "apply_account env by_key s a =
     (case dict_get by_key (si_label (bj_item (account_job a)), bj_domain (account_job a)) of
        None \<Rightarrow> s\<lparr>rs_error := Some (KeyError (bj_domain (account_job a)))\<rparr>
      | Some j \<Rightarrow>
          (case a of AccountOk _ ok r \<Rightarrow> run_account env j ok r s
                   | AccountSkipped _ \<Rightarrow> run_account_skipped env j s))"

definition run_flush :: "run_env \<Rightarrow> run_state \<Rightarrow> run_state" where
  "run_flush env s =
     (case ac_flush (rs_acc s) of (aq_jobs, acc) \<Rightarrow>
      if aq_jobs = [] then s\<lparr>rs_acc := acc\<rparr>
      else (let batch = map to_bridge_job aq_jobs
            in case run_bridge_batch batch (re_probe env (rs_tick s) batch) (rs_dip s) of
                 (lg, err, dip) \<Rightarrow>
                   (let s1 = foldl (apply_account env (job_by_key aq_jobs)) (tick (s\<lparr>rs_acc := acc, rs_dip := dip\<rparr>)) lg
                    in if rs_error s1 = None then s1\<lparr>rs_error := err\<rparr> else s1)))"

definition pop_isolated :: "run_state \<Rightarrow> AdaptiveJob option \<times> run_state" where
  "pop_isolated s =
     (let extra = map_option exclude_domains (rs_quarantine s);
          exclude = excluded_snapshot extra (rs_dip s)
      in case pop (Some exclude) (rs_queue s) of
           (None, q) \<Rightarrow> (None, s\<lparr>rs_queue := q\<rparr>)
         | (Some j, q) \<Rightarrow>
             (Some j, s\<lparr>rs_queue := q, rs_dip := (rs_dip s)\<lparr>iso_active := insert (aj_domain j) (iso_active (rs_dip s))\<rparr>\<rparr>))"

definition run_single :: "run_env \<Rightarrow> AdaptiveJob \<Rightarrow> run_state \<Rightarrow> run_state" where
  "run_single env j s =
     (let r = re_test env (rs_tick s) (aj_item j) (aj_domain j);
          s1 = run_account env j (result_campaign_pass r) r (tick s)
      in s1\<lparr>rs_dip := release_domains [aj_domain j] (rs_dip s1)\<rparr>)"

text \<open>One round of the worker's loop; the flag says whether the loop goes on.\<close>

definition after_single :: "run_env \<Rightarrow> run_state \<Rightarrow> bool \<times> run_state" where
  "after_single env s = (\<not> re_stop env (rs_tick s), tick s)"

definition worker_round :: "run_env \<Rightarrow> run_state \<Rightarrow> bool \<times> run_state" where
  "worker_round env s =
     (if re_stop env (rs_tick s) then (False, run_flush env (tick s))
      else (case pop_isolated (tick s) of
              (None, s1) \<Rightarrow> (False, run_flush env s1)
            | (Some j, s1) \<Rightarrow>
                if aj_fanout j then
                  (let s2 = run_flush env s1
                   in if rs_error s2 \<noteq> None then (False, s2) else after_single env (run_single env j s2))
                else (case ac_push j (rs_acc s1) of
                        (True, acc) \<Rightarrow>
                          (let s2 = s1\<lparr>rs_acc := acc\<rparr>;
                               s3 = (if is_full acc then run_flush env s2 else s2)
                           in (rs_error s3 = None \<and> \<not> re_stop env (rs_tick s3), tick s3))
                      | (False, _) \<Rightarrow>
                          (let s2 = run_flush env s1
                           in if rs_error s2 \<noteq> None then (False, s2)
                              else (case ac_push j (rs_acc s2) of
                                      (False, _) \<Rightarrow> after_single env (run_single env j s2)
                                    | (True, acc2) \<Rightarrow>
                                        (let s3 = s2\<lparr>rs_acc := acc2\<rparr>;
                                             s4 = (if is_full acc2 then run_flush env s3 else s3)
                                         in (rs_error s4 = None \<and> \<not> re_stop env (rs_tick s4), tick s4)))))))"

fun bridge_worker :: "nat \<Rightarrow> run_env \<Rightarrow> run_state \<Rightarrow> run_state" where
  "bridge_worker 0 env s = s"
| "bridge_worker (Suc n) env s =
     (case worker_round env s of (go_on, s1) \<Rightarrow> if go_on then bridge_worker n env s1 else s1)"

definition run_adaptive_tcp_bridge :: "nat \<Rightarrow> run_env \<Rightarrow> bool \<Rightarrow> DomainQuarantine option \<Rightarrow> AdaptiveJobQueue \<Rightarrow> run_state" where
  "run_adaptive_tcp_bridge fuel env isolate quarantine q =
     bridge_worker fuel env
       \<lparr>rs_queue = configure_heap_rebuild (re_batch env) q, rs_acc = new_accumulator (re_batch env),
        rs_dip = \<lparr>iso_enabled = isolate, iso_active = (case quarantine of None \<Rightarrow> {} | Some dq \<Rightarrow> exclude_domains dq)\<rparr>,
        rs_done = 0, rs_skipped = 0, rs_passed = 0, rs_quarantine = quarantine, rs_writes = [],
        rs_tick = 0, rs_error = None\<rparr>"

section \<open>Counters\<close>

definition runs :: "AdaptiveJobQueue \<Rightarrow> nat" where "runs q = am_jobs_run (q_metrics q)"
definition passes :: "AdaptiveJobQueue \<Rightarrow> nat" where "passes q = am_jobs_passed (q_metrics q)"

lemma enqueue_counters [simp]: "runs (snd (enqueue j q)) = runs q" "passes (snd (enqueue j q)) = passes q"
  by (auto simp: enqueue_def Let_def runs_def passes_def)

lemma enqueue_many_counters [simp]:
  "runs (snd (enqueue_many js q)) = runs q" "passes (snd (enqueue_many js q)) = passes q"
  by (induction js arbitrary: q) (simp_all add: snd_enqueue_many del: enqueue_many.simps(2))

lemma cluster_index_counters [simp]:
  "runs (cluster_index_for_fanout q) = runs q" "passes (cluster_index_for_fanout q) = passes q"
  by (simp_all add: cluster_index_for_fanout_def runs_def passes_def)

lemma fanout_counters [simp]: "runs (snd (fanout_on_pass j q)) = runs q" "passes (snd (fanout_on_pass j q)) = passes q"
proof -
  obtain n q2 where e: "enqueue_many (fanout_jobs j (cluster_index_for_fanout q)) (cluster_index_for_fanout q) = (n, q2)"
    by fastforce
  then have "runs q2 = runs q" "passes q2 = passes q"
    by (metis cluster_index_counters(1) enqueue_many_counters(1) snd_conv,
        metis cluster_index_counters(2) enqueue_many_counters(2) snd_conv)
  then show "runs (snd (fanout_on_pass j q)) = runs q" "passes (snd (fanout_on_pass j q)) = passes q"
    by (simp_all add: fanout_on_pass_def Let_def e runs_def passes_def)
qed

lemma record_run_counters:
  "am_jobs_run (record_run now p m) = Suc (am_jobs_run m)"
  "am_jobs_passed (record_run now p m) = (if p then Suc (am_jobs_passed m) else am_jobs_passed m)"
  by (simp_all add: record_run_def Let_def)

lemma mark_done_counters:
  "runs (snd (mark_done now j p q)) = Suc (runs q)"
  "passes (snd (mark_done now j p q)) = (if p then Suc (passes q) else passes q)"
  by (simp_all add: mark_done_def Let_def) (simp_all add: runs_def passes_def record_run_counters)

section \<open>What every round keeps\<close>

definition run_inv :: "run_state \<Rightarrow> bool" where
  "run_inv s =
     (aq_inv (rs_queue s) \<and> ac_inv (rs_acc s) \<and> rs_done s = runs (rs_queue s) \<and> rs_passed s = passes (rs_queue s) \<and>
      rs_passed s + rs_skipped s \<le> rs_done s)"

lemma run_inv_tick [simp]: "run_inv (tick s) = run_inv s"
  by (simp add: run_inv_def tick_def)

lemma run_inv_fields [simp]:
  "run_inv (s\<lparr>rs_error := e\<rparr>) = run_inv s" "run_inv (s\<lparr>rs_dip := d\<rparr>) = run_inv s"
  by (simp_all add: run_inv_def)

lemma excluded_counters: "runs (q\<lparr>q_excluded := x\<rparr>) = runs q" "passes (q\<lparr>q_excluded := x\<rparr>) = passes q"
  by (simp_all add: runs_def passes_def)

lemma aq_inv_excluded: "aq_inv q \<Longrightarrow> aq_inv (q\<lparr>q_excluded := x\<rparr>)"
  by (rule aq_inv_frame) simp_all

lemma run_inv_quarantine: "run_inv s \<Longrightarrow> run_inv (account_with_quarantine env d ok r s)"
  by (auto simp: account_with_quarantine_def run_inv_def aq_inv_excluded excluded_counters split: option.splits prod.splits)

lemma run_inv_account: "run_inv s \<Longrightarrow> run_inv (run_account env j ok r s)"
  unfolding run_account_def Let_def run_inv_tick
  by (rule run_inv_quarantine) (auto simp: run_inv_def mark_done_counters mark_done_props)

lemma run_inv_account_skipped: "run_inv s \<Longrightarrow> run_inv (run_account_skipped env j s)"
  by (auto simp: run_account_skipped_def run_inv_def tick_def mark_done_counters mark_done_props)

lemma run_inv_accounts: "run_inv s \<Longrightarrow> run_inv (foldl (apply_account env bk) s lg)"
proof (induction lg arbitrary: s)
  case (Cons a lg)
  have "run_inv (apply_account env bk s a)"
    using Cons.prems run_inv_account run_inv_account_skipped
    by (auto simp: apply_account_def split: option.splits account.splits)
  then show ?case using Cons.IH by simp
qed simp

lemma run_inv_flush: "run_inv s \<Longrightarrow> run_inv (run_flush env s)"
proof -
  assume i: "run_inv s"
  define acc where "acc = snd (ac_flush (rs_acc s))"
  have "ac_inv acc" using i acstep_inv [of "rs_acc s" AcFlush] by (simp add: run_inv_def acc_def)
  then have "run_inv (s\<lparr>rs_acc := acc\<rparr>)" using i by (simp add: run_inv_def)
  then have "run_inv (foldl (apply_account env bk) (tick (s\<lparr>rs_acc := acc, rs_dip := dip\<rparr>)) lg)" for bk lg dip
    by (intro run_inv_accounts) simp
  then show ?thesis using \<open>run_inv (s\<lparr>rs_acc := acc\<rparr>)\<close> unfolding run_flush_def acc_def
    by (auto simp: Let_def split: prod.splits)
qed

lemma run_inv_pop: "run_inv s \<Longrightarrow> run_inv (snd (pop_isolated s))"
proof -
  assume i: "run_inv s"
  define ex where "ex = excluded_snapshot (map_option exclude_domains (rs_quarantine s)) (rs_dip s)"
  obtain r q where p: "pop (Some ex) (rs_queue s) = (r, q)" by fastforce
  have "aq_inv q" "runs q = runs (rs_queue s)" "passes q = passes (rs_queue s)"
    using pop_main [OF _ p] i by (auto simp: run_inv_def pop_effect_def only_drops_def frame_def runs_def passes_def)
  then have "run_inv (s\<lparr>rs_queue := q\<rparr>)" using i by (simp add: run_inv_def)
  then show ?thesis using p by (auto simp: pop_isolated_def Let_def ex_def split: option.splits)
qed

lemma run_inv_single: "run_inv s \<Longrightarrow> run_inv (run_single env j s)"
  by (simp add: run_single_def Let_def run_inv_account)

lemma run_inv_push: "run_inv s \<Longrightarrow> ac_push j (rs_acc s) = (b, acc) \<Longrightarrow> run_inv (s\<lparr>rs_acc := acc\<rparr>)"
  using acstep_inv [of "rs_acc s" "AcPush j"] by (simp add: run_inv_def)

lemma run_inv_round: "run_inv s \<Longrightarrow> run_inv (snd (worker_round env s))"
proof -
  assume i: "run_inv s"
  obtain r s1 where p: "pop_isolated (tick s) = (r, s1)" by fastforce
  have i1: "run_inv s1" using run_inv_pop [of "tick s"] i p by simp
  note fl = run_inv_flush [OF i1, of env]
  show ?thesis
  proof (cases r)
    case None
    then show ?thesis using p i fl run_inv_flush [of "tick s"] by (simp add: worker_round_def)
  next
    case (Some j)
    obtain b1 acc1 where a1: "ac_push j (rs_acc s1) = (b1, acc1)" by fastforce
    obtain b2 acc2 where a2: "ac_push j (rs_acc (run_flush env s1)) = (b2, acc2)" by fastforce
    have "run_inv (s1\<lparr>rs_acc := acc1\<rparr>)" "run_inv ((run_flush env s1)\<lparr>rs_acc := acc2\<rparr>)"
      using run_inv_push [OF i1 a1] run_inv_push [OF fl a2] by simp_all
    then show ?thesis using Some p i fl a1 a2 run_inv_flush run_inv_single
      by (cases b1; cases b2) (simp_all add: worker_round_def after_single_def Let_def)
  qed
qed

lemma run_inv_worker: "run_inv s \<Longrightarrow> run_inv (bridge_worker n env s)"
proof (induction n arbitrary: s)
  case (Suc n)
  then show ?case using run_inv_round [of s env] by (cases "worker_round env s") simp
qed simp

section \<open>Properties\<close>


definition sample_run_env :: run_env where
  "sample_run_env = \<lparr>re_batch = 2, re_stop = (\<lambda>_. False), re_now = (\<lambda>_. 0), re_ts = (\<lambda>_. []),
     re_test = (\<lambda>n it d. new_tcp_result it d), re_probe = (\<lambda>n jobs. Inr [])\<rparr>"

lemma build_counters: "runs (build now rng w eps sd sk items ds) = 0" "passes (build now rng w eps sd sk items ds) = 0"
proof -
  have m: "runs (q\<lparr>q_metrics := set_half_mark n (q_metrics q)\<rparr>) = runs q"
    "passes (q\<lparr>q_metrics := set_half_mark n (q_metrics q)\<rparr>) = passes q" for q n
    by (simp_all add: runs_def passes_def set_half_mark_def)
  show "runs (build now rng w eps sd sk items ds) = 0" "passes (build now rng w eps sd sk items ds) = 0"
    unfolding build_def Let_def m enqueue_many_counters
    by (simp_all add: runs_def passes_def new_queue_def new_metrics_def)
qed


end
