(* ===== verification/QuicRaw.thy ===== *)
theory QuicRaw
  imports PyJson FailPhase "HOL-Library.Word"
begin

text \<open>
  \<^verbatim>\<open>checkers/quic_raw.py\<close>: the QUIC variable-length integer, the synthetic Initial packet, the
  recognition of a server reply and of an ICMP error, and the classification of a probe.
  Random bytes, blob files and what the sockets deliver are arguments: a probe sees a list
  of rounds until its deadline, each with the outcome of the two receive calls.
\<close>

unbundle bit_operations_syntax

type_synonym byte = "8 word"
type_synonym bytes = "byte list"

section \<open>Big-endian numbers\<close>

text \<open>\<open>n.to_bytes(k, "big")\<close>, which raises \<open>OverflowError\<close> when \<open>n\<close> needs more bytes, and \<open>int.from_bytes\<close>.\<close>

fun be_bytes :: "nat \<Rightarrow> nat \<Rightarrow> bytes" where
  "be_bytes 0 n = []"
| "be_bytes (Suc k) n = be_bytes k (n div 256) @ [of_nat (n mod 256)]"

definition to_bytes :: "nat \<Rightarrow> nat \<Rightarrow> bytes result" where
  "to_bytes k n = (if n < 256 ^ k then Inr (be_bytes k n) else Inl OverflowError)"

definition from_bytes :: "bytes \<Rightarrow> nat" where
  "from_bytes bs = foldl (\<lambda>n b. 256 * n + unat b) 0 bs"

lemma length_be_bytes [simp]: "length (be_bytes k n) = k"
  by (induction k arbitrary: n) simp_all

lemma be_bytes_numeral:
  "be_bytes (numeral k) n = be_bytes (pred_numeral k) (n div 256) @ [of_nat (n mod 256)]"
  unfolding numeral_eq_Suc [of k] by simp

lemma unat_of_nat_byte [simp]: "n < 256 \<Longrightarrow> unat (of_nat n :: byte) = n"
  by (simp add: unsigned_of_nat take_bit_nat_eq_self)

lemma from_bytes_snoc: "from_bytes (bs @ [b]) = 256 * from_bytes bs + unat b"
  by (simp add: from_bytes_def)

lemma from_be_bytes: "n < 256 ^ k \<Longrightarrow> from_bytes (be_bytes k n) = n"
proof (induction k arbitrary: n)
  case 0
  then show ?case by (simp add: from_bytes_def)
next
  case (Suc k)
  have "from_bytes (be_bytes k (n div 256)) = n div 256"
    using Suc by (intro Suc.IH) (simp add: div_less_iff_less_mult mult.commute)
  then show ?case by (simp add: from_bytes_snoc)
qed

section \<open>Packets\<close>

definition quic_varint :: "nat \<Rightarrow> bytes result" where
  "quic_varint n =
     (if n < 64 then Inr [of_nat n]
      else if n < 16384 then to_bytes 2 (0x4000 OR n)
      else if n < 1073741824 then to_bytes 4 (0x80000000 OR n)
      else to_bytes 8 (0xC000000000000000 OR n))"

definition pn_len :: nat where "pn_len = 1"

definition initial_prefix :: "bytes \<Rightarrow> bytes result" where
  "initial_prefix dcid =
     (let first = 0xC0 OR (pn_len - 1);
          scid = []; tok = []
      in bind_result (to_bytes 4 1) (\<lambda>version.
         bind_result (quic_varint (length tok)) (\<lambda>tok_len.
         Inr ([of_nat first] @ version @ [of_nat (length dcid)] @ dcid @ [of_nat (length scid)] @ scid @ tok_len @ tok))))"

text \<open>\<open>urandom k n\<close>: the \<open>k\<close>-th call of \<open>os.urandom(n)\<close>.\<close>

definition synthetic_rfc9000_initial :: "(nat \<Rightarrow> nat \<Rightarrow> bytes) \<Rightarrow> bytes result" where
  "synthetic_rfc9000_initial urandom =
     (let dcid = urandom 0 8
      in bind_result (initial_prefix dcid) (\<lambda>prefix_bytes.
         let length_field_size = 2;
             payload_len = 1200 - length prefix_bytes - length_field_size - pn_len
         in bind_result (quic_varint (pn_len + payload_len)) (\<lambda>length_field.
            Inr (prefix_bytes @ length_field @ urandom 1 pn_len @ urandom 2 payload_len))))"

definition load_quic_initial :: "(string \<times> bytes option) list \<Rightarrow> (nat \<Rightarrow> nat \<Rightarrow> bytes) \<Rightarrow> (bytes \<times> string) result" where
  "load_quic_initial candidates urandom =
     (case find (\<lambda>(name, content). case content of None \<Rightarrow> False | Some data \<Rightarrow> 40 \<le> length data) candidates of
        Some (name, Some data) \<Rightarrow> Inr (data, name)
      | _ \<Rightarrow> bind_result (synthetic_rfc9000_initial urandom) (\<lambda>p. Inr (p, ''synthetic_rfc9000'')))"

definition is_quic_long_header_response :: "bytes \<Rightarrow> bytes \<Rightarrow> bool" where
  "is_quic_long_header_response sent data =
     (if length data < 5 then False
      else if sent \<noteq> [] \<and> data = sent then False
      else if data ! 0 AND 0xC0 \<noteq> 0xC0 then False
      else (let version = from_bytes (take 4 (drop 1 data))
            in if version = 0 then 7 \<le> length data else version = 1))"

definition parse_icmp :: "bytes \<Rightarrow> (byte \<times> byte) option" where
  "parse_icmp pkt =
     (if length pkt < 8 then None
      else (let pkt1 = (if drop_bit 4 (pkt ! 0) = 4 \<and> 20 \<le> length pkt
                        then drop (unat (pkt ! 0 AND 0x0F) * 4) pkt else pkt)
            in if length pkt1 < 4 then None else Some (pkt1 ! 0, pkt1 ! 1)))"

section \<open>A probe\<close>

record QuicRawResult =
  qr_ip :: string
  qr_port :: int
  qr_phase :: FailPhase
  qr_response_received :: bool
  qr_icmp_port_unreachable :: bool
  qr_blob_used :: string
  qr_latency_ms :: rat
  qr_error :: string

definition quic_to_dict :: "QuicRawResult \<Rightarrow> jdict" where
  "quic_to_dict r =
    [(''ip'', JStr (qr_ip r)), (''port'', JInt (qr_port r)), (''phase'', JStr (phase_value (qr_phase r))),
     (''response_received'', JBool (qr_response_received r)),
     (''icmp_port_unreachable'', JBool (qr_icmp_port_unreachable r)),
     (''blob_used'', JStr (qr_blob_used r)), (''latency_ms'', JFloat (round1 (qr_latency_ms r))),
     (''error'', JStr (qr_error r))]"

datatype udp_event = UdpData bytes | UdpTimeout | UdpError string
datatype icmp_event = NoIcmpSocket | IcmpData bytes | IcmpTimeout | IcmpError string

definition icmp_blocks :: "bytes \<Rightarrow> nat option" where
  "icmp_blocks pkt =
     (case parse_icmp pkt of
        None \<Rightarrow> None
      | Some (ty, cd) \<Rightarrow> if ty = 3 \<and> (cd = 3 \<or> cd = 13) then Some (unat cd) else None)"

fun probe_rounds :: "bytes \<Rightarrow> (udp_event \<times> icmp_event) list \<Rightarrow> QuicRawResult \<Rightarrow> QuicRawResult" where
  "probe_rounds packet [] res =
     res\<lparr>qr_phase := QUIC_DROP, qr_error := ''QUIC Initial sent, no response (dropped)''\<rparr>"
| "probe_rounds packet ((u, i) # rounds) res =
     (case u of
        UdpError msg \<Rightarrow> res\<lparr>qr_phase := UDP_BLOCKED, qr_error := take 120 msg\<rparr>
      | _ \<Rightarrow>
          if (case u of UdpData data \<Rightarrow> is_quic_long_header_response packet data | _ \<Rightarrow> False)
          then res\<lparr>qr_response_received := True, qr_phase := PASS\<rparr>
          else (case i of
                  IcmpData pkt \<Rightarrow>
                    (case icmp_blocks pkt of
                       Some cd \<Rightarrow> res\<lparr>qr_icmp_port_unreachable := True, qr_phase := UDP_BLOCKED,
                                     qr_error := ''ICMP dest-unreachable code '' @ digits_of_nat cd\<rparr>
                     | None \<Rightarrow> probe_rounds packet rounds res)
                | IcmpError msg \<Rightarrow> res\<lparr>qr_phase := UDP_BLOCKED, qr_error := take 120 msg\<rparr>
                | _ \<Rightarrow> probe_rounds packet rounds res))"

text \<open>
  \<open>blob\<close> is the caller's packet with its name, \<open>None\<close> or empty for the built-in choice; \<open>sent\<close>
  is \<open>None\<close> when sending worked and the message of the \<open>OSError\<close> otherwise; \<open>latency\<close> is the
  clock's reading at the end.
\<close>

definition probe_packet ::
    "(string \<times> bytes option) list \<Rightarrow> (nat \<Rightarrow> nat \<Rightarrow> bytes) \<Rightarrow> bytes option \<Rightarrow> string \<Rightarrow> (bytes \<times> string) result" where
  "probe_packet candidates urandom blob blob_name =
     (case blob of Some (b # bs) \<Rightarrow> Inr (b # bs, blob_name) | _ \<Rightarrow> load_quic_initial candidates urandom)"

definition probe_quic_initial ::
    "(string \<times> bytes option) list \<Rightarrow> (nat \<Rightarrow> nat \<Rightarrow> bytes) \<Rightarrow> string \<Rightarrow> int \<Rightarrow> bytes option \<Rightarrow> string \<Rightarrow>
     rat \<Rightarrow> string option \<Rightarrow> (udp_event \<times> icmp_event) list \<Rightarrow> QuicRawResult result" where
  "probe_quic_initial candidates urandom ip port blob blob_name latency sent rounds =
     (let res = \<lparr>qr_ip = ip, qr_port = port, qr_phase = UNKNOWN, qr_response_received = False,
                 qr_icmp_port_unreachable = False, qr_blob_used = [], qr_latency_ms = 0, qr_error = []\<rparr>
      in bind_result (probe_packet candidates urandom blob blob_name) (\<lambda>(packet, used).
              let res = res\<lparr>qr_blob_used := used\<rparr>;
                  r = (case sent of
                         Some msg \<Rightarrow> res\<lparr>qr_phase := UDP_BLOCKED, qr_error := take 120 msg\<rparr>
                       | None \<Rightarrow> probe_rounds packet rounds res)
              in Inr (r\<lparr>qr_latency_ms := latency\<rparr>)))"

section \<open>Decoding a variable-length integer\<close>

text \<open>
  The reference: RFC 9000 gives the length in the two top bits of the first byte, and the
  value in the remaining bits. The result is the value and the number of bytes used.
\<close>

definition varint_size :: "byte \<Rightarrow> nat" where
  "varint_size b = 2 ^ (unat b div 64)"

definition varint_decode :: "bytes \<Rightarrow> (nat \<times> nat) option" where
  "varint_decode bs =
     (case bs of
        [] \<Rightarrow> None
      | b # _ \<Rightarrow>
          (let k = varint_size b
           in if length bs < k then None else Some (from_bytes (take k bs) mod 2 ^ (8 * k - 2), k)))"

lemma or_disjoint_nat: "n < 2 ^ k \<Longrightarrow> (a * 2 ^ k) OR n = a * 2 ^ k + (n :: nat)"
proof -
  assume n: "n < 2 ^ k"
  have "a * 2 ^ k = push_bit k a" by (simp add: push_bit_eq_mult)
  moreover have "n = take_bit k n" using n by (simp add: take_bit_nat_eq_self)
  moreover have "push_bit k a OR take_bit k n = push_bit k a + take_bit k n"
    by (rule disjunctive_add [symmetric]) (auto simp: bit_push_bit_iff bit_take_bit_iff)
  ultimately show ?thesis by simp
qed

lemma from_bytes_take_first:
  assumes "n < 256 ^ Suc k"
  shows "be_bytes (Suc k) n = of_nat (n div 256 ^ k) # be_bytes k (n mod 256 ^ k)"
  using assms
proof (induction k arbitrary: n)
  case 0
  then show ?case by simp
next
  case (Suc k)
  have "be_bytes (Suc (Suc k)) n = be_bytes (Suc k) (n div 256) @ [of_nat (n mod 256)]" by simp
  also have "be_bytes (Suc k) (n div 256) = of_nat (n div 256 div 256 ^ k) # be_bytes k (n div 256 mod 256 ^ k)"
    using Suc.prems by (intro Suc.IH) (simp add: div_less_iff_less_mult mult.commute)
  also have "n div 256 div 256 ^ k = n div 256 ^ Suc k" by (simp add: div_mult2_eq)
  also have "n div 256 mod 256 ^ k = n mod 256 ^ Suc k div 256" by (simp add: mod_mult2_eq)
  finally show ?case by (simp add: mod_mult2_eq)
qed


lemma varint_tagged:
  assumes "t < 4" "k = 2 ^ t" "n < 2 ^ (8 * k - 2)"
  shows "varint_decode (be_bytes k (t * 2 ^ (8 * k - 2) + n) @ rest) = Some (n, k)"
proof -
  have "0 < k" using assms(2) by simp
  then obtain j where k: "k = Suc j" using gr0_implies_Suc by blast
  have e: "8 * k - 2 = 8 * j + 6" by (simp add: k)
  define m where "m = t * 2 ^ (8 * j + 6) + n"
  have p: "(256 :: nat) ^ i = 2 ^ (8 * i)" for i by (simp add: power_mult)
  have n: "n < 2 ^ (8 * j + 6)" using assms(3) e by simp
  have t: "t + 1 \<le> 4" using assms(1) by simp
  have "m < (t + 1) * 2 ^ (8 * j + 6)" using n by (simp add: m_def)
  also have "\<dots> \<le> 4 * 2 ^ (8 * j + 6)" using t by (rule mult_right_mono) simp
  also have "\<dots> = 256 ^ Suc j" by (simp add: p power_add)
  finally have m: "m < 256 ^ Suc j" .
  have "m div 256 ^ j div 64 = m div (2 ^ (8 * j) * 2 ^ 6)" by (simp add: p div_mult2_eq)
  also have "\<dots> = m div 2 ^ (8 * j + 6)" by (simp only: power_add)
  also have "\<dots> = t" using n by (simp add: m_def)
  finally have tag: "m div 256 ^ j div 64 = t" .
  have "m div 256 ^ j < 256" using m by (simp add: div_less_iff_less_mult mult.commute)
  then have sz: "varint_size (of_nat (m div 256 ^ j)) = k"
    by (simp add: varint_size_def tag assms(2))
  have bs: "be_bytes k m = of_nat (m div 256 ^ j) # be_bytes j (m mod 256 ^ j)"
    unfolding k by (rule from_bytes_take_first [OF m])
  have fb: "from_bytes (be_bytes k m) = m" using m unfolding k by (rule from_be_bytes)
  have "varint_decode (be_bytes k m @ rest) = Some (from_bytes (take k (be_bytes k m @ rest)) mod 2 ^ (8 * k - 2), k)"
    by (simp add: varint_decode_def bs sz Let_def) (simp add: k)
  also have "take k (be_bytes k m @ rest) = be_bytes k m" by simp
  also have "from_bytes \<dots> mod 2 ^ (8 * k - 2) = n" using n unfolding fb by (simp add: e m_def)
  finally show ?thesis by (simp add: m_def e)
qed

lemma to_bytes_tagged:
  assumes "t < 4" "k = 2 ^ t" "n < 2 ^ (8 * k - 2)"
  shows "to_bytes k ((t * 2 ^ (8 * k - 2)) OR n) = Inr (be_bytes k (t * 2 ^ (8 * k - 2) + n))"
proof -
  have "t * 2 ^ (8 * k - 2) + n < (t + 1) * 2 ^ (8 * k - 2)" using assms(3) by simp
  also have "\<dots> \<le> 2 ^ 2 * 2 ^ (8 * k - 2)" using assms(1) by (intro mult_right_mono) auto
  also have "\<dots> = 2 ^ (2 + (8 * k - 2))" by (simp only: power_add)
  also have "2 + (8 * k - 2) = 8 * k" using assms(2) by (cases k) auto
  also have "(2 :: nat) ^ (8 * k) = 256 ^ k" by (simp add: power_mult)
  finally show ?thesis by (simp add: to_bytes_def or_disjoint_nat [OF assms(3)])
qed

lemma quic_varint_value:
  assumes "n < 2 ^ 62"
  obtains t where "t < 4" "n < 2 ^ (8 * 2 ^ t - 2)"
    "quic_varint n = Inr (be_bytes (2 ^ t) (t * 2 ^ (8 * 2 ^ t - 2) + n))"
proof -
  consider "n < 64" | "64 \<le> n" "n < 16384" | "16384 \<le> n" "n < 1073741824" | "1073741824 \<le> n"
    by linarith
  then show thesis
  proof cases
    case 1
    then show thesis by (intro that [of 0]) (simp_all add: quic_varint_def)
  next
    case 2
    then show thesis using to_bytes_tagged [of 1 2 n] by (intro that [of 1]) (simp_all add: quic_varint_def)
  next
    case 3
    have e: "(0x80000000 :: nat) = 2 * 2 ^ (8 * 4 - 2)" "(1073741824 :: nat) = 2 ^ (8 * 4 - 2)" by simp_all
    have "to_bytes 4 (0x80000000 OR n) = Inr (be_bytes 4 (0x80000000 + n))"
      unfolding e(1) using 3(2) unfolding e(2) by (intro to_bytes_tagged) simp_all
    then show thesis using 3 by (intro that [of 2]) (simp_all add: quic_varint_def)
  next
    case 4
    have e: "(0xC000000000000000 :: nat) = 3 * 2 ^ (8 * 8 - 2)" "(62 :: nat) = 8 * 8 - 2" by simp_all
    have "to_bytes 8 (0xC000000000000000 OR n) = Inr (be_bytes 8 (0xC000000000000000 + n))"
      unfolding e(1) using assms unfolding e(2) by (intro to_bytes_tagged) simp_all
    then show thesis using 4 assms by (intro that [of 3]) (simp_all add: quic_varint_def)
  qed
qed

text \<open>
  The variable-length integer round trip: every \<open>n\<close> below \<open>2 ^ 62\<close> is encoded without an
  error in 1, 2, 4 or 8 bytes, and the decoder of RFC 9000 reads back \<open>n\<close> and the number of
  bytes used, whatever follows.
\<close>

theorem quic_varint_roundtrip:
  assumes "n < 2 ^ 62"
  shows "\<exists>bs. quic_varint n = Inr bs \<and> length bs \<in> {1, 2, 4, 8} \<and>
              varint_decode (bs @ rest) = Some (n, length bs)"
proof -
  obtain t where t: "t < 4" and n: "n < 2 ^ (8 * 2 ^ t - 2)"
    and q: "quic_varint n = Inr (be_bytes (2 ^ t) (t * 2 ^ (8 * 2 ^ t - 2) + n))"
    using quic_varint_value [OF assms] by blast
  have "t = 0 \<or> t = 1 \<or> t = 2 \<or> t = 3" using t by linarith
  then have "(2 :: nat) ^ t \<in> {1, 2, 4, 8}" by auto
  then show ?thesis using q varint_tagged [OF t refl n, of rest] by simp
qed

theorem quic_varint_roundtrip_witness:
  "\<exists>bs. quic_varint 20000 = Inr bs \<and> length bs \<in> {1, 2, 4, 8} \<and>
        varint_decode (bs @ [7]) = Some (20000, length bs)"
  by (rule quic_varint_roundtrip) simp

lemma initial_prefix_eq:
  assumes "length dcid = 8"
  shows "initial_prefix dcid = Inr (0xC0 # be_bytes 4 1 @ [8] @ dcid @ [0] @ [0])"
  by (simp add: initial_prefix_def pn_len_def to_bytes_def quic_varint_def assms)

text \<open>
  The fallback packet is a well-formed Initial: when \<open>os.urandom\<close> returns the bytes asked
  for, the packet is built without an error, is exactly 1200 bytes (the minimum datagram of an
  Initial), is a version 1 long header, and its two-byte Length field at offset 16 counts
  exactly the bytes that follow it.
\<close>

theorem synthetic_initial_wellformed:
  assumes "\<And>k n. length (urandom k n) = n"
  shows "\<exists>p. synthetic_rfc9000_initial urandom = Inr p \<and> length p = 1200 \<and>
             is_quic_long_header_response [] p \<and>
             varint_decode (drop 16 p) = Some (length (drop 18 p), 2)"
proof -
  define pre where "pre = (0xC0 :: byte) # be_bytes 4 1 @ [8] @ urandom 0 8 @ [0] @ [0]"
  have pre: "initial_prefix (urandom 0 8) = Inr pre"
    by (simp add: initial_prefix_eq pre_def assms)
  have len: "length pre = 16" by (simp add: pre_def assms)
  have q: "quic_varint 1182 = Inr (be_bytes 2 (1 * 2 ^ 14 + 1182))"
    using to_bytes_tagged [of 1 2 1182] by (simp add: quic_varint_def del: or_numerals)
  define p where "p = pre @ be_bytes 2 (1 * 2 ^ 14 + 1182) @ urandom 1 1 @ urandom 2 1181"
  have "synthetic_rfc9000_initial urandom = Inr p"
    by (simp add: synthetic_rfc9000_initial_def pre len pn_len_def q p_def Let_def del: be_bytes.simps)
  moreover have lp: "length p = 1200" by (simp add: p_def len assms)
  moreover have "varint_decode (drop 16 p) = Some (1182, 2)"
    using varint_tagged [of 1 2 1182 "urandom 1 1 @ urandom 2 1181"] by (simp add: p_def len del: be_bytes.simps)
  moreover have "is_quic_long_header_response [] p"
  proof -
    have b4: "be_bytes 4 (Suc 0) = [0, 0, 0, 1]" by (simp add: be_bytes_numeral)
    have hd: "p ! 0 = 0xC0" by (simp add: p_def pre_def)
    have "take 4 (drop 1 p) = [0, 0, 0, 1]" by (simp add: p_def pre_def b4)
    then show ?thesis using lp by (simp add: is_quic_long_header_response_def hd from_bytes_def)
  qed
  ultimately show ?thesis by auto
qed

theorem synthetic_initial_wellformed_witness:
  "\<exists>p. synthetic_rfc9000_initial (\<lambda>k n. replicate n 7) = Inr p \<and> length p = 1200 \<and>
       is_quic_long_header_response [] p \<and>
       varint_decode (drop 16 p) = Some (length (drop 18 p), 2)"
  by (rule synthetic_initial_wellformed) simp

section \<open>The verdict of a probe\<close>

definition answers :: "bytes \<Rightarrow> udp_event \<times> icmp_event \<Rightarrow> bool" where
  "answers packet r = (case fst r of UdpData data \<Rightarrow> is_quic_long_header_response packet data | _ \<Rightarrow> False)"

definition refuses :: "udp_event \<times> icmp_event \<Rightarrow> bool" where
  "refuses r = ((case fst r of UdpError _ \<Rightarrow> True | _ \<Rightarrow> False) \<or>
                (case snd r of IcmpData pkt \<Rightarrow> icmp_blocks pkt \<noteq> None | IcmpError _ \<Rightarrow> True | _ \<Rightarrow> False))"

lemma probe_rounds_verdict:
  "qr_phase (probe_rounds packet rounds res) =
     (case find (\<lambda>r. answers packet r \<or> refuses r) rounds of
        None \<Rightarrow> QUIC_DROP | Some r \<Rightarrow> if answers packet r then PASS else UDP_BLOCKED)"
  by (induction packet rounds res rule: probe_rounds.induct)
    (auto simp: answers_def refuses_def split: udp_event.splits icmp_event.splits option.splits)

lemma probe_rounds_flags:
  assumes "\<not> qr_response_received res" "\<not> qr_icmp_port_unreachable res"
  shows "(qr_response_received (probe_rounds packet rounds res) \<longleftrightarrow>
            qr_phase (probe_rounds packet rounds res) = PASS) \<and>
         (qr_icmp_port_unreachable (probe_rounds packet rounds res) \<longrightarrow>
            qr_phase (probe_rounds packet rounds res) = UDP_BLOCKED)"
  using assms
  by (induction packet rounds res rule: probe_rounds.induct)
    (auto split: udp_event.splits icmp_event.splits option.splits)

lemma synthetic_total:
  assumes "\<And>k n. length (urandom k n) = n"
  shows "\<exists>p. synthetic_rfc9000_initial urandom = Inr p"
proof -
  obtain bs where "quic_varint 1182 = Inr bs" using quic_varint_value [of 1182] by auto
  then show ?thesis by (simp add: synthetic_rfc9000_initial_def initial_prefix_eq assms pn_len_def)
qed

lemma probe_packet_total:
  assumes "\<And>k n. length (urandom k n) = n"
  shows "\<exists>packet used. probe_packet candidates urandom blob name = Inr (packet, used)"
proof -
  obtain p where p: "synthetic_rfc9000_initial urandom = Inr p"
    using synthetic_total [of urandom, OF assms] by blast
  have "\<exists>packet used. load_quic_initial candidates urandom = Inr (packet, used)"
    unfolding load_quic_initial_def by (simp add: p split: option.split)
  then show ?thesis by (simp add: probe_packet_def split: option.split list.split)
qed

lemma probe_rounds_blob_used: "qr_blob_used (probe_rounds p rs res) = qr_blob_used res"
  by (induction p rs res rule: probe_rounds.induct)
    (auto split: udp_event.splits icmp_event.splits option.splits)

text \<open>
  The verdict of a QUIC probe. When the send works, the first round that is decisive
  settles it: a long-header reply gives PASS, a socket error or an ICMP destination
  unreachable gives UDP_BLOCKED, and no decisive round at all gives QUIC_DROP; a failed send
  gives UDP_BLOCKED. A reply is reported exactly when the verdict is PASS, an ICMP block only
  with UDP_BLOCKED.
\<close>

theorem probe_quic_verdict:
  assumes "\<And>k n. length (urandom k n) = n"
  shows "\<exists>packet used r.
     probe_packet candidates urandom blob name = Inr (packet, used) \<and>
     probe_quic_initial candidates urandom ip port blob name latency sent rounds = Inr r \<and>
     qr_blob_used r = used \<and>
     qr_phase r = (if sent \<noteq> None then UDP_BLOCKED
                   else case find (\<lambda>x. answers packet x \<or> refuses x) rounds of
                          None \<Rightarrow> QUIC_DROP
                        | Some x \<Rightarrow> if answers packet x then PASS else UDP_BLOCKED) \<and>
     (qr_response_received r \<longleftrightarrow> qr_phase r = PASS) \<and>
     (qr_icmp_port_unreachable r \<longrightarrow> qr_phase r = UDP_BLOCKED)"
proof -
  obtain packet used where p: "probe_packet candidates urandom blob name = Inr (packet, used)"
    using probe_packet_total [of urandom, OF assms] by blast
  define res where "res = \<lparr>qr_ip = ip, qr_port = port, qr_phase = UNKNOWN, qr_response_received = False,
    qr_icmp_port_unreachable = False, qr_blob_used = used, qr_latency_ms = 0, qr_error = []\<rparr>"
  have "\<not> qr_response_received res" "\<not> qr_icmp_port_unreachable res" "qr_blob_used res = used"
    by (simp_all add: res_def)
  then show ?thesis
    using probe_rounds_flags [of res packet rounds] probe_rounds_verdict [of packet rounds res]
    by (cases sent) (auto simp: probe_quic_initial_def p Let_def probe_rounds_blob_used res_def)
qed

theorem probe_quic_verdict_witness:
  "\<exists>packet used r.
     probe_packet [] (\<lambda>k n. replicate n 0) (Some [0xC0, 1]) ''b'' = Inr (packet, used) \<and>
     probe_quic_initial [] (\<lambda>k n. replicate n 0) ''1.2.3.4'' 443 (Some [0xC0, 1]) ''b'' 5 None
       [(UdpTimeout, IcmpTimeout), (UdpTimeout, IcmpData [3, 13, 0, 0, 0, 0, 0, 0])] = Inr r \<and>
     qr_blob_used r = used \<and>
     qr_phase r = (if (None :: string option) \<noteq> None then UDP_BLOCKED
                   else case find (\<lambda>x. answers packet x \<or> refuses x)
                               [(UdpTimeout, IcmpTimeout), (UdpTimeout, IcmpData [3, 13, 0, 0, 0, 0, 0, 0])] of
                          None \<Rightarrow> QUIC_DROP
                        | Some x \<Rightarrow> if answers packet x then PASS else UDP_BLOCKED) \<and>
     (qr_response_received r \<longleftrightarrow> qr_phase r = PASS) \<and>
     (qr_icmp_port_unreachable r \<longrightarrow> qr_phase r = UDP_BLOCKED)"
  by (rule probe_quic_verdict) simp

end
