(* ===== verification/RunDeadline.thy ===== *)
theory RunDeadline
  imports Prelude
begin

text \<open>
  \<^verbatim>\<open>engine/run_deadline.py\<close>: the wall-clock budget of a run. The clock's reading is an argument
  of every operation that reads it. The background timer is a coroutine: it is created, then
  computes its delay when the event loop first runs it, sleeps, and fires; the event loop's
  steps and the other tasks of the run are the rules of a transition system over time.
  Times are exact rationals; the \<^verbatim>\<open>nan\<close> and \<^verbatim>\<open>inf\<close> budgets \<^verbatim>\<open>argparse\<close> would accept as floats, and
  the text of \<^verbatim>\<open>budget_label\<close> in a log line, are left out.
\<close>

section \<open>The budget\<close>

definition parse_time_limit_seconds :: "rat option \<Rightarrow> rat option \<Rightarrow> rat option result" where
  "parse_time_limit_seconds hours minutes =
     (if hours \<noteq> None \<and> minutes \<noteq> None
      then Inl (ValueError ''use only one of --max-timeh or --max-timem'')
      else case hours of
        Some h \<Rightarrow> if h \<le> 0 then Inl (ValueError ''--max-timeh must be positive'') else Inr (Some (h * 3600))
      | None \<Rightarrow>
          (case minutes of
             Some m \<Rightarrow> if m \<le> 0 then Inl (ValueError ''--max-timem must be positive'') else Inr (Some (m * 60))
           | None \<Rightarrow> Inr None))"

definition validate_time_limit_args :: "rat option \<Rightarrow> rat option \<Rightarrow> unit result" where
  "validate_time_limit_args hours minutes =
     (if hours \<noteq> None \<and> minutes \<noteq> None
      then Inl (SystemExit ''use only one of --max-timeh or --max-timem'') else Inr ())"

section \<open>State and operations\<close>

datatype timer = TimerCreated | TimerSleeping rat | TimerDone | TimerCancelled

text \<open>\<open>rd_stop\<close> is the flag of the shared \<^verbatim>\<open>asyncio.Event\<close>, which other tasks may set too.\<close>

record RunDeadline =
  rd_stop :: bool
  rd_budget :: "rat option"
  rd_triggered :: bool
  rd_reason :: "string option"
  rd_deadline :: "rat option"
  rd_task :: "timer option"

definition new_deadline :: "bool \<Rightarrow> rat option \<Rightarrow> RunDeadline" where
  "new_deadline stop budget =
     \<lparr>rd_stop = stop, rd_budget = budget, rd_triggered = False, rd_reason = None,
      rd_deadline = None, rd_task = None\<rparr>"

definition from_args :: "bool \<Rightarrow> rat option \<Rightarrow> rat option \<Rightarrow> RunDeadline option result" where
  "from_args stop hours minutes =
     (case parse_time_limit_seconds hours minutes of
        Inl (ValueError e) \<Rightarrow> Inl (SystemExit (''ERROR: '' @ e))
      | Inl e \<Rightarrow> Inl e
      | Inr None \<Rightarrow> Inr None
      | Inr (Some sec) \<Rightarrow> Inr (Some (new_deadline stop (Some sec))))"

definition arm :: "rat \<Rightarrow> RunDeadline \<Rightarrow> RunDeadline" where
  "arm now s = (case rd_budget s of None \<Rightarrow> s | Some b \<Rightarrow> s\<lparr>rd_deadline := Some (now + b)\<rparr>)"

definition start_background :: "RunDeadline \<Rightarrow> RunDeadline" where
  "start_background s = (if rd_deadline s = None then s else s\<lparr>rd_task := Some TimerCreated\<rparr>)"

definition cancel :: "RunDeadline \<Rightarrow> RunDeadline" where
  "cancel s =
     (case rd_task s of
        Some TimerCreated \<Rightarrow> s\<lparr>rd_task := Some TimerCancelled\<rparr>
      | Some (TimerSleeping w) \<Rightarrow> s\<lparr>rd_task := Some TimerCancelled\<rparr>
      | _ \<Rightarrow> s)"

text \<open>\<open>_wait\<close> up to its \<open>await\<close>, and from its wake-up to the end.\<close>

definition wait_begin :: "rat \<Rightarrow> RunDeadline \<Rightarrow> RunDeadline" where
  "wait_begin now s =
     (case rd_deadline s of
        None \<Rightarrow> s\<lparr>rd_task := Some TimerDone\<rparr>
      | Some d \<Rightarrow> s\<lparr>rd_task := Some (TimerSleeping (now + max 0 (d - now)))\<rparr>)"

definition wait_end :: "RunDeadline \<Rightarrow> RunDeadline" where
  "wait_end s =
     (let s = s\<lparr>rd_task := Some TimerDone\<rparr>
      in if rd_stop s then s
         else s\<lparr>rd_triggered := True, rd_reason := Some ''time_limit'', rd_stop := True\<rparr>)"

definition expired :: "rat \<Rightarrow> RunDeadline \<Rightarrow> bool \<times> RunDeadline" where
  "expired now s =
     (if (case rd_deadline s of None \<Rightarrow> False | Some d \<Rightarrow> d \<le> now)
      then (True, if rd_triggered s then s
                  else s\<lparr>rd_triggered := True, rd_reason := Some ''time_limit'', rd_stop := True\<rparr>)
      else (rd_stop s, s))"

definition remaining_sec :: "rat \<Rightarrow> RunDeadline \<Rightarrow> rat option" where
  "remaining_sec now s = map_option (\<lambda>d. max 0 (d - now)) (rd_deadline s)"

definition expired_sync :: "rat \<Rightarrow> RunDeadline \<Rightarrow> bool" where
  "expired_sync now s = (case rd_deadline s of None \<Rightarrow> False | Some d \<Rightarrow> d \<le> now)"

section \<open>Runs\<close>

text \<open>
  What can happen from the creation of the object at time \<open>t0\<close>: time passes, any operation is
  called, another task sets the stop event, and the event loop runs the timer, never before
  its sleep is over.
\<close>

inductive dl_run :: "RunDeadline \<Rightarrow> rat \<Rightarrow> rat \<Rightarrow> RunDeadline \<Rightarrow> bool" for s0 t0 where
  start: "dl_run s0 t0 t0 s0"
| time: "dl_run s0 t0 now s \<Longrightarrow> now \<le> now' \<Longrightarrow> dl_run s0 t0 now' s"
| do_arm: "dl_run s0 t0 now s \<Longrightarrow> dl_run s0 t0 now (arm now s)"
| do_start: "dl_run s0 t0 now s \<Longrightarrow> dl_run s0 t0 now (start_background s)"
| do_cancel: "dl_run s0 t0 now s \<Longrightarrow> dl_run s0 t0 now (cancel s)"
| do_poll: "dl_run s0 t0 now s \<Longrightarrow> dl_run s0 t0 now (snd (expired now s))"
| stop_set: "dl_run s0 t0 now s \<Longrightarrow> dl_run s0 t0 now (s\<lparr>rd_stop := True\<rparr>)"
| timer_begin: "dl_run s0 t0 now s \<Longrightarrow> rd_task s = Some TimerCreated \<Longrightarrow> dl_run s0 t0 now (wait_begin now s)"
| timer_end: "dl_run s0 t0 now s \<Longrightarrow> rd_task s = Some (TimerSleeping w) \<Longrightarrow> w \<le> now \<Longrightarrow>
              dl_run s0 t0 now (wait_end s)"

definition dl_inv :: "rat \<Rightarrow> rat \<Rightarrow> rat \<Rightarrow> RunDeadline \<Rightarrow> bool" where
  "dl_inv b t0 now s =
     (rd_budget s = Some b \<and>
      (\<forall>d. rd_deadline s = Some d \<longrightarrow> t0 + b \<le> d) \<and>
      (\<forall>w. rd_task s = Some (TimerSleeping w) \<longrightarrow> t0 + b \<le> w) \<and>
      (rd_triggered s \<longrightarrow> rd_stop s \<and> t0 + b \<le> now) \<and>
      rd_reason s = (if rd_triggered s then Some ''time_limit'' else None) \<and> t0 \<le> now)"

lemmas dl_ops = arm_def start_background_def cancel_def wait_begin_def wait_end_def expired_def Let_def

lemma dl_run_inv:
  assumes "dl_run (new_deadline stop (Some b)) t0 now s"
  shows "dl_inv b t0 now s"
  using assms
proof induction
  case start
  then show ?case by (simp add: dl_inv_def new_deadline_def)
next
  case (time now s now')
  then show ?case by (auto simp: dl_inv_def)
next
  case (timer_begin now s)
  then show ?case by (cases "rd_deadline s") (auto simp: dl_inv_def dl_ops max_def)
next
  case (timer_end now s w)
  then show ?case by (auto simp: dl_inv_def dl_ops split: if_splits)
next
  case (do_cancel now s)
  then show ?case by (cases "rd_task s") (auto simp: dl_inv_def dl_ops split: timer.splits)
qed (auto simp: dl_inv_def dl_ops split: option.splits if_splits)

text \<open>
  C23. The deadline never fires early and says why it fired: in every run of a deadline created
  with a budget, however timer, polls, re-arming and the other tasks interleave, the deadline
  has triggered only if the whole budget has passed since its creation; then the stop event is
  set and the reason is the time limit, and before that there is no reason. Once a poll has
  answered that the run expired, every later poll does.
\<close>

theorem deadline_never_early:
  assumes "dl_run (new_deadline stop (Some b)) t0 now s"
  shows "(rd_triggered s \<longrightarrow> t0 + b \<le> now \<and> rd_stop s) \<and>
         rd_reason s = (if rd_triggered s then Some ''time_limit'' else None) \<and>
         (fst (expired now s) \<longrightarrow> (\<forall>now' s'. dl_run (snd (expired now s)) now now' s' \<longrightarrow> fst (expired now' s')))"
proof -
  have inv: "dl_inv b t0 now s" using assms by (rule dl_run_inv)
  have stop: "rd_stop s'" if "dl_run s1 t1 now' s'" "rd_stop s1" for s1 t1 now' s'
    using that by induction (auto simp: dl_ops split: option.splits timer.splits)
  have "rd_stop (snd (expired now s))" if "fst (expired now s)"
    using that inv by (auto simp: expired_def dl_inv_def split: option.splits if_splits)
  then have "fst (expired now' s')" if "fst (expired now s)" "dl_run (snd (expired now s)) now now' s'" for now' s'
    using stop [OF that(2)] that(1) by (auto simp: expired_def)
  then show ?thesis using inv by (auto simp: dl_inv_def)
qed

theorem deadline_never_early_witness:
  "let s = snd (expired 70 (arm 10 (new_deadline False (Some 60)))) in
     (rd_triggered s \<longrightarrow> 10 + 60 \<le> (70 :: rat) \<and> rd_stop s) \<and> rd_triggered s"
proof -
  have "dl_run (new_deadline False (Some 60)) 10 10 (arm 10 (new_deadline False (Some 60)))"
    by (rule dl_run.do_arm [OF dl_run.start])
  then have "dl_run (new_deadline False (Some 60)) 10 70 (arm 10 (new_deadline False (Some 60)))"
    by (rule dl_run.time) simp
  note run = dl_run.do_poll [OF this]
  have "rd_triggered (snd (expired 70 (arm 10 (new_deadline False (Some 60)))))"
    by (simp add: expired_def arm_def new_deadline_def)
  then show ?thesis using conjunct1 [OF deadline_never_early [OF run]] by (simp only: Let_def simp_thms)
qed

text \<open>
  After the deadline has passed, a poll answers True and leaves the stop event set, and a timer
  whose sleep is over sets it too.
\<close>

lemma passed_deadline_stops:
  assumes "dl_run (new_deadline stop (Some b)) t0 now s" and "rd_deadline s = Some d" and "d \<le> now"
  shows "fst (expired now s) \<and> rd_stop (snd (expired now s)) \<and> expired_sync now s \<and>
         remaining_sec now s = Some 0 \<and> rd_stop (wait_end s)"
  using dl_run_inv [OF assms(1)] assms(2,3)
  by (auto simp: dl_inv_def expired_def expired_sync_def remaining_sec_def wait_end_def Let_def max_def)

text \<open>
  A run stopped by a signal is reported as stopped by its time limit when it is polled after
  the deadline: unlike the timer, the poll does not look at the stop event.
\<close>

lemma signal_stop_relabelled:
  "let s = (arm 0 (new_deadline False (Some 60)))\<lparr>rd_stop := True\<rparr> in
     rd_reason (wait_end s) = None \<and> rd_reason (snd (expired 60 s)) = Some ''time_limit''"
  by (simp add: wait_end_def expired_def arm_def new_deadline_def Let_def)

end
