(* ===== verification/LuaBridge.thy ===== *)
theory LuaBridge
  imports PyJson
begin

text \<open>
  \<^verbatim>\<open>service/lua_bridge_ipc.py\<close>: the files through which the campaign tells a running nfqws2
  daemon which strategy to apply, and reads back what it did; and the reader on the other side,
  \<^verbatim>\<open>bs_read_strategy_ipc\<close> of \<^verbatim>\<open>lua/blockchecks/write_ipc.lua\<close>. A publication is a list of file
  operations, each atomic; the daemon may look between any two of them, and its own reads of the
  three files are three separate operations too. Permissions are the outcomes of \<^verbatim>\<open>chmod\<close>, \<^verbatim>\<open>sudo\<close>
  and \<^verbatim>\<open>setfacl\<close>, given by an environment.
\<close>

section \<open>Permissions\<close>

datatype ipc_error =
    IpcPermissionError
  | IpcPublishError string
  | IpcOSError string

type_synonym 'a ipc_result = "ipc_error + 'a"

text \<open>
  The environment: whether \<^verbatim>\<open>os.chmod\<close> to a mode works, whether the \<^verbatim>\<open>sudo\<close> retry works, whether
  \<^verbatim>\<open>setfacl\<close> is installed (probed once per process) and whether it works on a path.
\<close>

record perm_env =
  pe_chmod :: "string \<Rightarrow> nat \<Rightarrow> bool"
  pe_sudo_chmod :: "string \<Rightarrow> bool"
  pe_setfacl_usable :: bool
  pe_setfacl :: "string \<Rightarrow> bool"

record perm_state =
  ps_sudo_ok :: "string list"
  ps_world_warned :: "string list"

definition mode_own :: "bool \<Rightarrow> nat" where "mode_own is_dir = (if is_dir then 504 else 432)"
definition mode_world :: "bool \<Rightarrow> nat" where "mode_world is_dir = (if is_dir then 511 else 438)"

definition chmod_or_sudo :: "perm_env \<Rightarrow> string \<Rightarrow> nat \<Rightarrow> perm_state \<Rightarrow> bool \<times> perm_state" where
  "chmod_or_sudo env path mode st =
     (if path \<in> set (ps_sudo_ok st) then (True, st)
      else if pe_chmod env path mode then (True, st)
      else if \<not> pe_sudo_chmod env path then (False, st)
      else (True, st\<lparr>ps_sudo_ok := add_new (ps_sudo_ok st) path\<rparr>))"

definition apply_setfacl :: "perm_env \<Rightarrow> string \<Rightarrow> bool" where
  "apply_setfacl env path = (if \<not> pe_setfacl_usable env then False else pe_setfacl env path)"

text \<open>\<open>warn_key\<close> is the directory of the path.\<close>

definition ipc_relax_for_nobody :: "perm_env \<Rightarrow> string \<Rightarrow> string \<Rightarrow> bool \<Rightarrow> perm_state \<Rightarrow> perm_state ipc_result" where
  "ipc_relax_for_nobody env path warn_key is_dir st =
     (let st = snd (chmod_or_sudo env path (mode_own is_dir) st)
      in if apply_setfacl env path then Inr st
         else (let (ok, st) = chmod_or_sudo env path (mode_world is_dir) st
               in if \<not> ok then Inl IpcPermissionError
                  else Inr (st\<lparr>ps_world_warned := add_new (ps_world_warned st) warn_key\<rparr>)))"

lemma relax_raises_iff:
  "ipc_relax_for_nobody env path k is_dir st = Inl e \<longleftrightarrow>
     e = IpcPermissionError \<and> \<not> apply_setfacl env path \<and> path \<notin> set (ps_sudo_ok st) \<and>
     \<not> pe_chmod env path (mode_world is_dir) \<and> \<not> pe_sudo_chmod env path"
  by (auto simp: ipc_relax_for_nobody_def chmod_or_sudo_def Let_def split: if_splits)

section \<open>Events\<close>

record BridgeEvent =
  ev_event :: string
  ev_gen :: int
  ev_id :: int
  ev_reason :: string
  ev_ttl :: int
  ev_matched :: int
  ev_raw :: "jdict option"

text \<open>\<open>int(x)\<close> without a default.\<close>

fun int_of_json :: "json \<Rightarrow> int result" where
  "int_of_json JNone = bad_type"
| "int_of_json (JStr s) = (case int_of_str s of None \<Rightarrow> Inl (ValueError s) | Some n \<Rightarrow> Inr n)"
| "int_of_json (JList xs) = bad_type"
| "int_of_json (JDict d) = bad_type"
| "int_of_json v = to_int v"

text \<open>
  \<open>loads\<close> is \<^verbatim>\<open>json.loads\<close>, \<open>None\<close> for its decoding error. A field of the wrong type makes the
  conversion raise, and the error leaves \<open>from_line\<close>.
\<close>

definition event_of_dict :: "jdict \<Rightarrow> BridgeEvent result" where
  "event_of_dict data =
     bind_result (to_str (jget data ''event'')) (\<lambda>event.
     bind_result (to_int (jget data ''gen'')) (\<lambda>gen.
     bind_result (to_int (jget data ''id'')) (\<lambda>i.
     bind_result (to_str (jget data ''reason'')) (\<lambda>reason.
     bind_result (to_int (jget data ''ttl'')) (\<lambda>ttl.
     bind_result (case dict_get data ''matched'' of Some v \<Rightarrow> int_of_json v | None \<Rightarrow> Inr (- 1)) (\<lambda>matched.
     Inr \<lparr>ev_event = event, ev_gen = gen, ev_id = i, ev_reason = reason, ev_ttl = ttl,
          ev_matched = matched, ev_raw = Some data\<rparr>))))))"

definition from_line :: "(string \<Rightarrow> json option) \<Rightarrow> string \<Rightarrow> BridgeEvent option result" where
  "from_line loads line =
     (let line = strip line
      in if line = [] then Inr None
         else (case loads line of
                 Some (JDict data) \<Rightarrow> bind_result (event_of_dict data) (\<lambda>ev. Inr (Some ev))
               | _ \<Rightarrow> Inr None))"

definition is_rst_in :: "BridgeEvent \<Rightarrow> bool" where
  "is_rst_in ev = (ev_event ev = ''STRATEGY_FAIL'' \<and> ev_reason ev = ''rst_in'')"

definition is_applied :: "BridgeEvent \<Rightarrow> bool" where
  "is_applied ev = (ev_event ev = ''APPLIED'' \<and> ev_matched ev \<noteq> 0)"

definition event_to_dict :: "BridgeEvent \<Rightarrow> jdict" where
  "event_to_dict ev =
     [(''event'', JStr (ev_event ev)), (''gen'', JInt (ev_gen ev)), (''id'', JInt (ev_id ev)),
      (''reason'', JStr (ev_reason ev)), (''ttl'', JInt (ev_ttl ev)), (''matched'', JInt (ev_matched ev))]"

lemma event_dict_roundtrip:
  "event_of_dict (event_to_dict ev) = Inr (ev\<lparr>ev_raw := Some (event_to_dict ev)\<rparr>)"
  by (simp add: event_of_dict_def event_to_dict_def jget_def)

definition accepts :: "int \<Rightarrow> int option \<Rightarrow> BridgeEvent \<Rightarrow> bool" where
  "accepts since_gen expect_id ev = (since_gen \<le> ev_gen ev \<or> expect_id = Some (ev_id ev))"

fun drain_lines :: "(string \<Rightarrow> json option) \<Rightarrow> int \<Rightarrow> int option \<Rightarrow> string list \<Rightarrow> BridgeEvent list result" where
  "drain_lines loads since_gen expect_id [] = Inr []"
| "drain_lines loads since_gen expect_id (line # lines) =
     bind_result (from_line loads line) (\<lambda>e.
     bind_result (drain_lines loads since_gen expect_id lines) (\<lambda>out.
       Inr (case e of
              None \<Rightarrow> out
            | Some ev \<Rightarrow> if accepts since_gen expect_id ev then ev # out else out)))"

text \<open>\<open>events\<close> is the lines of the events file, \<open>None\<close> when there is no such file.\<close>

definition drain_events :: "(string \<Rightarrow> json option) \<Rightarrow> int \<Rightarrow> int option \<Rightarrow> string list option \<Rightarrow> BridgeEvent list result" where
  "drain_events loads since_gen expect_id events =
     (case events of None \<Rightarrow> Inr [] | Some lines \<Rightarrow> drain_lines loads since_gen expect_id lines)"

section \<open>Heartbeat\<close>

definition HEARTBEAT_LUA_PERIOD_S :: rat where "HEARTBEAT_LUA_PERIOD_S = 1 / 5"
definition HEARTBEAT_FRESH_MAX_AGE_S :: rat where "HEARTBEAT_FRESH_MAX_AGE_S = HEARTBEAT_LUA_PERIOD_S * 5"

datatype hb_stat = HbMissing | HbStatError | HbFile nat rat

definition heartbeat_age :: "rat \<Rightarrow> hb_stat \<Rightarrow> rat option" where
  "heartbeat_age now st =
     (case st of
        HbFile sz mtime \<Rightarrow> if sz = 0 then None else Some (max 0 (now - mtime))
      | _ \<Rightarrow> None)"

text \<open>The polls of the loop until the deadline: the clock and the file at each of them.\<close>

fun wait_heartbeat_fresh :: "(rat \<times> hb_stat) list \<Rightarrow> bool" where
  "wait_heartbeat_fresh [] = False"
| "wait_heartbeat_fresh ((now, st) # polls) =
     (case heartbeat_age now st of
        Some age \<Rightarrow> if age \<le> HEARTBEAT_FRESH_MAX_AGE_S then True else wait_heartbeat_fresh polls
      | None \<Rightarrow> wait_heartbeat_fresh polls)"

lemma wait_heartbeat_iff:
  "wait_heartbeat_fresh polls \<longleftrightarrow>
     (\<exists>(now, st) \<in> set polls. \<exists>sz mtime. st = HbFile sz mtime \<and> 0 < sz \<and> now - mtime \<le> 1)"
  by (induction polls rule: wait_heartbeat_fresh.induct)
    (auto simp: heartbeat_age_def HEARTBEAT_FRESH_MAX_AGE_S_def HEARTBEAT_LUA_PERIOD_S_def
        split: hb_stat.splits option.splits if_splits)

section \<open>Files of a bridge\<close>

text \<open>
  The directory of one namespace: its files, and the staging directories by generation. Removing
  a tree always succeeds here; the code ignores its errors.
\<close>

record bridge_fs =
  fs_files :: "string \<rightharpoonup> string"
  fs_staging :: "int \<Rightarrow> (string \<rightharpoonup> string) option"

datatype fs_op =
    Relax string bool
  | RmStaging int
  | MkStaging int
  | WriteStaged int string string
  | ReplaceFile int string
  | WriteFile string string
  | RmBase

record bridge_state =
  br_fs :: bridge_fs
  br_perm :: perm_state

definition fs_effect :: "fs_op \<Rightarrow> bridge_fs \<Rightarrow> bridge_fs" where
  "fs_effect op fs =
     (case op of
        Relax path is_dir \<Rightarrow> fs
      | RmStaging g \<Rightarrow> fs\<lparr>fs_staging := (fs_staging fs)(g := None)\<rparr>
      | MkStaging g \<Rightarrow>
          fs\<lparr>fs_staging := (fs_staging fs)(g := Some (case fs_staging fs g of None \<Rightarrow> Map.empty | Some d \<Rightarrow> d))\<rparr>
      | WriteStaged g n txt' \<Rightarrow> fs\<lparr>fs_staging := (fs_staging fs)(g := map_option (\<lambda>d. d(n \<mapsto> txt')) (fs_staging fs g))\<rparr>
      | ReplaceFile g n \<Rightarrow>
          (case Option.bind (fs_staging fs g) (\<lambda>d. d n) of
             None \<Rightarrow> fs
           | Some c \<Rightarrow> fs\<lparr>fs_files := (fs_files fs)(n \<mapsto> c),
                          fs_staging := (fs_staging fs)(g := map_option (\<lambda>d. d(n := None)) (fs_staging fs g))\<rparr>)
      | WriteFile n txt' \<Rightarrow> fs\<lparr>fs_files := (fs_files fs)(n \<mapsto> txt')\<rparr>
      | RmBase \<Rightarrow> \<lparr>fs_files = Map.empty, fs_staging = (\<lambda>_. None)\<rparr>)"

text \<open>Paths are relative to the directory of the namespace, which is the empty path.\<close>

definition parent_of :: "string \<Rightarrow> string" where
  "parent_of path = (if CHR ''/'' \<in> set path then rev (tl (dropWhile (\<lambda>c. c \<noteq> CHR ''/'') (rev path))) else [])"

text \<open>One operation; writing or moving into a directory that is gone is an \<^verbatim>\<open>OSError\<close>.\<close>

definition exec_op :: "perm_env \<Rightarrow> fs_op \<Rightarrow> bridge_state \<Rightarrow> bridge_state ipc_result" where
  "exec_op env op s =
     (case op of
        Relax path is_dir \<Rightarrow>
          (case ipc_relax_for_nobody env path (if is_dir then path else parent_of path) is_dir (br_perm s) of
             Inl e \<Rightarrow> Inl e | Inr ps \<Rightarrow> Inr (s\<lparr>br_perm := ps\<rparr>))
      | WriteStaged g n txt' \<Rightarrow>
          if fs_staging (br_fs s) g = None then Inl (IpcOSError n) else Inr (s\<lparr>br_fs := fs_effect op (br_fs s)\<rparr>)
      | ReplaceFile g n \<Rightarrow>
          if Option.bind (fs_staging (br_fs s) g) (\<lambda>d. d n) = None then Inl (IpcOSError n)
          else Inr (s\<lparr>br_fs := fs_effect op (br_fs s)\<rparr>)
      | _ \<Rightarrow> Inr (s\<lparr>br_fs := fs_effect op (br_fs s)\<rparr>))"

text \<open>
  Operations in order. \<open>fault i\<close> is the message of an \<^verbatim>\<open>OSError\<close> that the \<open>i\<close>-th operation raises,
  such as a full device; the rest is not done.
\<close>

fun run_ops :: "perm_env \<Rightarrow> (nat \<Rightarrow> string option) \<Rightarrow> nat \<Rightarrow> fs_op list \<Rightarrow> bridge_state \<Rightarrow> bridge_state \<times> ipc_error option" where
  "run_ops env fault i [] s = (s, None)"
| "run_ops env fault i (op # ops) s =
     (case fault i of
        Some msg \<Rightarrow> (s, Some (IpcOSError msg))
      | None \<Rightarrow>
          (case exec_op env op s of Inl e \<Rightarrow> (s, Some e) | Inr s' \<Rightarrow> run_ops env fault (Suc i) ops s'))"

definition line_text :: "int \<Rightarrow> string" where
  "line_text n = str_int n @ [CHR 0x0A]"

definition rstrip :: "string \<Rightarrow> string" where
  "rstrip s = rev (dropWhile is_space (rev s))"

definition cmd_text :: "string option \<Rightarrow> string option" where
  "cmd_text cmd = (case cmd of Some (c # cs) \<Rightarrow> Some (rstrip (c # cs) @ [CHR 0x0A]) | _ \<Rightarrow> None)"

definition init_ops :: "fs_op list" where
  "init_ops =
     concat (map (\<lambda>n. [WriteFile n [], Relax n False])
       [''strategy.id'', ''strategy.gen'', ''strategy.ready'', ''strategy.cmd'', ''events.ndjson'', ''heartbeat''])"

definition bridge_setup :: "perm_env \<Rightarrow> (nat \<Rightarrow> string option) \<Rightarrow> bridge_state \<Rightarrow> bridge_state \<times> ipc_error option" where
  "bridge_setup env fault s = run_ops env fault 0 (Relax [] True # init_ops) s"

definition bridge_teardown :: "perm_env \<Rightarrow> bridge_state \<Rightarrow> bridge_state \<times> ipc_error option" where
  "bridge_teardown env s = run_ops env (\<lambda>_. None) 0 [RmBase] s"

definition truncate_events :: "perm_env \<Rightarrow> (nat \<Rightarrow> string option) \<Rightarrow> bridge_state \<Rightarrow> bridge_state \<times> ipc_error option" where
  "truncate_events env fault s = run_ops env fault 0 [WriteFile ''events.ndjson'' [], Relax ''events.ndjson'' False] s"

text \<open>The files staged by a publication, and those of them committed before the fence, in order.\<close>

definition staged_files :: "int \<Rightarrow> int \<Rightarrow> string option \<Rightarrow> (string \<times> string) list" where
  "staged_files sid gen cmd =
     [(''strategy.id'', line_text sid), (''strategy.gen'', line_text gen)] @
     (case cmd_text cmd of None \<Rightarrow> [] | Some c \<Rightarrow> [(''strategy.cmd'', c)]) @
     [(''strategy.ready'', line_text gen)]"

definition commit_names :: "string option \<Rightarrow> string list" where
  "commit_names cmd =
     [''strategy.gen''] @ (case cmd_text cmd of None \<Rightarrow> [] | Some c \<Rightarrow> [''strategy.cmd'']) @ [''strategy.id'', ''strategy.ready'']"

definition staging_ops :: "bridge_fs \<Rightarrow> int \<Rightarrow> int \<Rightarrow> string option \<Rightarrow> fs_op list" where
  "staging_ops fs sid gen cmd =
     [Relax [] True] @
     (if fs_files fs ''events.ndjson'' \<noteq> None then [Relax ''events.ndjson'' False] else []) @
     (if fs_staging fs gen \<noteq> None then [RmStaging gen] else []) @
     [MkStaging gen, Relax (''.staging.'' @ str_int gen) True] @
     map (\<lambda>(n, c). WriteStaged gen n c) (staged_files sid gen cmd) @
     map (\<lambda>(n, c). Relax (''.staging.'' @ str_int gen @ ''/'' @ n) False) (staged_files sid gen cmd)"

definition commit_ops :: "int \<Rightarrow> string option \<Rightarrow> fs_op list" where
  "commit_ops gen cmd = concat (map (\<lambda>n. [ReplaceFile gen n, Relax n False]) (commit_names cmd))"

definition publish_ops :: "bridge_fs \<Rightarrow> int \<Rightarrow> int \<Rightarrow> string option \<Rightarrow> fs_op list" where
  "publish_ops fs sid gen cmd = staging_ops fs sid gen cmd @ commit_ops gen cmd @ [RmStaging gen]"

definition publish ::
    "perm_env \<Rightarrow> (nat \<Rightarrow> string option) \<Rightarrow> string \<Rightarrow> int \<Rightarrow> int \<Rightarrow> string option \<Rightarrow> bridge_state \<Rightarrow> bridge_state \<times> ipc_error option" where
  "publish env fault ns_name sid gen cmd s =
     (case run_ops env fault 0 (publish_ops (br_fs s) sid gen cmd) s of
        (s', Some (IpcOSError msg)) \<Rightarrow>
          (s', Some (IpcPublishError (''IPC publish failed for '' @ ns_name @ '': '' @ msg)))
      | r \<Rightarrow> r)"

section \<open>The reader in the daemon\<close>

text \<open>The decimal numbers the publisher writes; an empty line is no number.\<close>

definition dec_int :: "string \<Rightarrow> int option" where
  "dec_int s =
     (let (neg, body) = (case s of CHR ''-'' # r \<Rightarrow> (True, r) | _ \<Rightarrow> (False, s));
          n = int (nat_of_digits body)
      in if body \<noteq> [] \<and> list_all is_decimal body then Some (if neg then - n else n) else None)"

definition read_number :: "(string \<rightharpoonup> string) \<Rightarrow> string \<Rightarrow> int option" where
  "read_number files n = Option.bind (files n) (\<lambda>c. dec_int (before_char (CHR 0x0A) c))"

text \<open>The files as they are at each of the three reads; without an id the callers ignore the answer.\<close>

definition bs_read_strategy_ipc ::
    "(string \<rightharpoonup> string) \<Rightarrow> (string \<rightharpoonup> string) \<Rightarrow> (string \<rightharpoonup> string) \<Rightarrow> (int \<times> int) option" where
  "bs_read_strategy_ipc f_ready f_gen f_id =
     (case read_number f_ready ''strategy.ready'' of
        None \<Rightarrow> None
      | Some ready_gen \<Rightarrow>
          if read_number f_gen ''strategy.gen'' \<noteq> Some ready_gen then None
          else map_option (\<lambda>i. (i, ready_gen)) (read_number f_id ''strategy.id''))"

lemma dec_int_str_int [simp]: "dec_int (str_int i) = Some i"
proof (cases "i < 0")
  case True
  have "list_all is_decimal (digits_of_nat (nat (- i)))"
    using digits_of_nat_decimal by (auto simp: list_all_iff)
  then show ?thesis using True by (simp add: dec_int_def str_int_def)
next
  case False
  obtain c cs where d: "digits_of_nat (nat i) = c # cs" by (cases "digits_of_nat (nat i)") auto
  have all: "list_all is_decimal (c # cs)"
    using digits_of_nat_decimal [of _ "nat i"] by (auto simp: list_all_iff d)
  have "c \<noteq> CHR ''-''"
  proof
    assume "c = CHR ''-''"
    with all have "is_decimal (CHR ''-'')" by simp
    moreover have "\<not> is_decimal (CHR ''-'')" by code_simp
    ultimately show False by simp
  qed
  then have "(case c # cs of CHR ''-'' # r \<Rightarrow> (True, r) | _ \<Rightarrow> (False, c # cs)) = (False, c # cs)"
    by (auto split: char.splits bool.splits)
  then show ?thesis using False all nat_of_digits_of_nat [of "nat i"] d
    by (simp add: dec_int_def str_int_def)
qed

lemma before_newline: "before_char (CHR 0x0A) (line_text i) = str_int i"
proof -
  have "CHR 0x0A \<notin> set (str_int i)"
  proof
    assume "CHR 0x0A \<in> set (str_int i)"
    then have "is_decimal (CHR 0x0A)" using digits_of_nat_decimal by (auto simp: str_int_def split: if_splits)
    moreover have "\<not> is_decimal (CHR 0x0A)" by code_simp
    ultimately show False by simp
  qed
  then have "\<And>x. x \<in> set (str_int i) \<Longrightarrow> x \<noteq> CHR 0x0A" by auto
  then show ?thesis by (simp add: before_char_def line_text_def takeWhile_append2)
qed

lemma read_number_line [simp]: "read_number (f(n \<mapsto> line_text i)) n = Some i"
  by (simp add: read_number_def before_newline)

lemma read_number_other [simp]: "m \<noteq> n \<Longrightarrow> read_number (f(n := c)) m = read_number f m"
  by (simp add: read_number_def)

section \<open>What a reader can see during a publication\<close>

lemma exec_op_effect: "exec_op env op s = Inr s' \<Longrightarrow> br_fs s' = fs_effect op (br_fs s)"
  by (cases op) (auto simp: exec_op_def fs_effect_def split: if_splits sum.splits)

text \<open>However far the run gets, the files are those after a prefix of the operations.\<close>

lemma run_ops_prefix:
  "\<exists>M \<le> length ops. \<forall>n. br_fs (fst (run_ops env fault i (take n ops) s)) = fold fs_effect (take (min n M) ops) (br_fs s)"
proof (induction ops arbitrary: i s)
  case Nil
  then show ?case by simp
next
  case (Cons op ops)
  show ?case
  proof (cases "\<exists>s'. fault i = None \<and> exec_op env op s = Inr s'")
    case False
    then have "br_fs (fst (run_ops env fault i (take n (op # ops)) s)) = br_fs s" for n
      by (cases n) (auto split: option.splits sum.splits)
    then show ?thesis by (intro exI [of _ 0]) simp
  next
    case True
    then obtain s' where s': "fault i = None" "exec_op env op s = Inr s'" by blast
    obtain M where M: "M \<le> length ops"
      "\<And>n. br_fs (fst (run_ops env fault (Suc i) (take n ops) s')) = fold fs_effect (take (min n M) ops) (br_fs s')"
      using Cons.IH [of "Suc i" s'] by blast
    have "br_fs (fst (run_ops env fault i (take n (op # ops)) s)) = fold fs_effect (take (min n (Suc M)) (op # ops)) (br_fs s)" for n
      using M(2) exec_op_effect [OF s'(2)] s' by (cases n) auto
    then show ?thesis using M(1) by (intro exI [of _ "Suc M"]) simp
  qed
qed

definition quiet :: "fs_op \<Rightarrow> bool" where
  "quiet op = (case op of ReplaceFile _ _ \<Rightarrow> False | WriteFile _ _ \<Rightarrow> False | RmBase \<Rightarrow> False | _ \<Rightarrow> True)"

lemma quiet_files: "list_all quiet ops \<Longrightarrow> fs_files (fold fs_effect ops fs) = fs_files fs"
  by (induction ops arbitrary: fs) (auto simp: quiet_def fs_effect_def split: fs_op.splits)

lemma fold_write_staged:
  assumes "fs_staging fs g = Some d"
  shows "fs_staging (fold fs_effect (map (\<lambda>(n, c). WriteStaged g n c) xs) fs) g
           = Some (fold (\<lambda>(n, c) d. d(n \<mapsto> c)) xs d)"
  using assms
proof (induction xs arbitrary: fs d)
  case Nil
  then show ?case by simp
next
  case (Cons x xs)
  obtain n c where x: "x = (n, c)" by fastforce
  have "fs_staging (fs_effect (WriteStaged g n c) fs) g = Some (d(n \<mapsto> c))" using Cons.prems by (simp add: fs_effect_def)
  from Cons.IH [OF this] show ?case by (simp add: x)
qed

lemma fold_relax: "fold fs_effect (map (\<lambda>(n, c). Relax (h n) b) xs) fs = fs"
  by (induction xs arbitrary: fs) (auto simp: fs_effect_def)

definition staged_map :: "int \<Rightarrow> int \<Rightarrow> string option \<Rightarrow> string \<rightharpoonup> string" where
  "staged_map sid gen cmd = fold (\<lambda>(n, c) d. d(n \<mapsto> c)) (staged_files sid gen cmd) Map.empty"

lemma staging_ops_quiet: "list_all quiet (staging_ops fs sid gen cmd)"
  by (auto simp: staging_ops_def quiet_def list_all_iff)

lemma staging_ops_effect:
  "fs_files (fold fs_effect (staging_ops fs sid gen cmd) fs) = fs_files fs \<and>
   fs_staging (fold fs_effect (staging_ops fs sid gen cmd) fs) gen = Some (staged_map sid gen cmd)"
proof -
  define fs1 where "fs1 = fold fs_effect
    ([Relax [] True] @ (if fs_files fs ''events.ndjson'' \<noteq> None then [Relax ''events.ndjson'' False] else []) @
     (if fs_staging fs gen \<noteq> None then [RmStaging gen] else []) @
     [MkStaging gen, Relax (''.staging.'' @ str_int gen) True]) fs"
  have 1: "fs_files fs1 = fs_files fs" "fs_staging fs1 gen = Some Map.empty"
    by (auto simp: fs1_def fs_effect_def)
  have "fold fs_effect (staging_ops fs sid gen cmd) fs =
    fold fs_effect (map (\<lambda>(n, c). Relax (''.staging.'' @ str_int gen @ ''/'' @ n) False) (staged_files sid gen cmd))
      (fold fs_effect (map (\<lambda>(n, c). WriteStaged gen n c) (staged_files sid gen cmd)) fs1)"
    by (simp add: staging_ops_def fs1_def)
  then have "fs_staging (fold fs_effect (staging_ops fs sid gen cmd) fs) gen = Some (staged_map sid gen cmd)"
    using fold_write_staged [OF 1(2)] by (simp add: fold_relax staged_map_def)
  then show ?thesis using quiet_files [OF staging_ops_quiet] by simp
qed

text \<open>The commit phase moves the staged files into place one after another.\<close>

definition committed :: "(string \<rightharpoonup> string) \<Rightarrow> string list \<Rightarrow> (string \<rightharpoonup> string) \<Rightarrow> (string \<rightharpoonup> string)" where
  "committed d ns files = fold (\<lambda>n f. f(n := d n)) ns files"

lemma committed_cong: "(\<And>n. n \<in> set ns \<Longrightarrow> d n = d' n) \<Longrightarrow> committed d ns files = committed d' ns files"
  unfolding committed_def by (rule fold_cong) auto

lemma commit_prefix_effect:
  assumes "fs_staging fs g = Some d" and "distinct ns" and "set ns \<subseteq> dom d"
  shows "fs_files (fold fs_effect (take m (concat (map (\<lambda>n. [ReplaceFile g n, Relax n False]) ns))) fs)
           = committed d (take ((m + 1) div 2) ns) (fs_files fs)"
  using assms
proof (induction ns arbitrary: fs d m)
  case Nil
  then show ?case by (simp add: committed_def)
next
  case (Cons n ns)
  define fs1 where "fs1 = fs_effect (ReplaceFile g n) fs"
  obtain c where c: "d n = Some c" using Cons.prems(3) by auto
  have f1: "fs_files fs1 = (fs_files fs)(n := d n)" and s1: "fs_staging fs1 g = Some (d(n := None))"
    using Cons.prems(1) c by (simp_all add: fs1_def fs_effect_def)
  consider "m = 0" | "m = 1" | m' where "m = Suc (Suc m')" by (metis One_nat_def not0_implies_Suc)
  then show ?case
  proof cases
    case (3 m')
    have "fs_files (fold fs_effect (take m' (concat (map (\<lambda>n. [ReplaceFile g n, Relax n False]) ns))) fs1)
        = committed (d(n := None)) (take ((m' + 1) div 2) ns) (fs_files fs1)"
      using Cons.prems by (intro Cons.IH [OF s1]) auto
    also have "\<dots> = committed d (take ((m' + 1) div 2) ns) (fs_files fs1)"
      using Cons.prems(2) by (intro committed_cong) (auto dest: in_set_takeD)
    finally show ?thesis by (simp add: 3 f1 committed_def fs1_def [symmetric] fs_effect_def [of "Relax _ _"])
  qed (simp_all add: committed_def fs1_def [symmetric] f1)
qed

lemma commit_names_staged:
  "distinct (commit_names cmd)" "set (commit_names cmd) \<subseteq> dom (staged_map sid gen cmd)"
  by (cases "cmd_text cmd"; simp add: commit_names_def staged_map_def staged_files_def)+

text \<open>
  The files at every moment of a publication: those before it, with the first \<open>k\<close> of the files of
  the commit order replaced, where \<open>k\<close> only grows.
\<close>

lemma publish_phases:
  "\<exists>phase. mono phase \<and>
     (\<forall>n. fs_files (br_fs (fst (run_ops env fault i (take n (publish_ops (br_fs s) sid gen cmd)) s)))
            = committed (staged_map sid gen cmd) (take (phase n) (commit_names cmd)) (fs_files (br_fs s)))"
proof -
  let ?W = "staging_ops (br_fs s) sid gen cmd" and ?C = "commit_ops gen cmd"
  obtain M where M: "\<And>n. br_fs (fst (run_ops env fault i (take n (publish_ops (br_fs s) sid gen cmd)) s))
      = fold fs_effect (take (min n M) (publish_ops (br_fs s) sid gen cmd)) (br_fs s)"
    using run_ops_prefix [of "publish_ops (br_fs s) sid gen cmd" env fault i s] by blast
  define phase where "phase n = (min n M - length ?W + 1) div 2" for n
  note d = commit_names_staged
  have "fs_files (fold fs_effect (take m (publish_ops (br_fs s) sid gen cmd)) (br_fs s))
      = committed (staged_map sid gen cmd) (take ((m - length ?W + 1) div 2) (commit_names cmd)) (fs_files (br_fs s))" for m
  proof (cases "m \<le> length ?W")
    case True
    have "list_all quiet (take m ?W)" using staging_ops_quiet by (auto simp: list_all_iff dest: in_set_takeD)
    then show ?thesis using True by (simp add: publish_ops_def quiet_files committed_def)
  next
    case False
    let ?fs = "fold fs_effect ?W (br_fs s)"
    have "list_all quiet (take j [RmStaging gen])" for j by (cases j) (simp_all add: quiet_def)
    then have "fs_files (fold fs_effect (take m (publish_ops (br_fs s) sid gen cmd)) (br_fs s))
        = fs_files (fold fs_effect (take (m - length ?W) ?C) ?fs)"
      using False by (simp add: publish_ops_def quiet_files)
    also have "\<dots> = committed (staged_map sid gen cmd) (take ((m - length ?W + 1) div 2) (commit_names cmd)) (fs_files ?fs)"
      unfolding commit_ops_def
      by (rule commit_prefix_effect) (use staging_ops_effect d in simp_all)
    finally show ?thesis by (simp add: staging_ops_effect)
  qed
  moreover have "mono phase" unfolding phase_def by (intro monoI div_le_mono) auto
  ultimately show ?thesis unfolding M by (intro exI [of _ phase]) (simp add: phase_def)
qed

definition files_at ::
    "perm_env \<Rightarrow> (nat \<Rightarrow> string option) \<Rightarrow> int \<Rightarrow> int \<Rightarrow> string option \<Rightarrow> bridge_state \<Rightarrow> nat \<Rightarrow> (string \<rightharpoonup> string)" where
  "files_at env fault sid gen cmd s n =
     fs_files (br_fs (fst (run_ops env fault 0 (take n (publish_ops (br_fs s) sid gen cmd)) s)))"

lemma staged_map_names [simp]:
  "staged_map sid gen cmd ''strategy.gen'' = Some (line_text gen)"
  "staged_map sid gen cmd ''strategy.id'' = Some (line_text sid)"
  "staged_map sid gen cmd ''strategy.ready'' = Some (line_text gen)"
  by (simp_all add: staged_map_def staged_files_def split: option.splits)

lemma committed_numbers:
  fixes files sid gen cmd k
  defines "f \<equiv> committed (staged_map sid gen cmd) (take k (commit_names cmd)) files"
  shows "read_number f ''strategy.gen'' = (if 1 \<le> k then Some gen else read_number files ''strategy.gen'')"
    and "read_number f ''strategy.id'' = (if length (commit_names cmd) - 1 \<le> k then Some sid else read_number files ''strategy.id'')"
    and "read_number f ''strategy.ready'' = (if length (commit_names cmd) \<le> k then Some gen else read_number files ''strategy.ready'')"
proof -
  have "read_number f ''strategy.gen'' = (if 1 \<le> k then Some gen else read_number files ''strategy.gen'') \<and>
    read_number f ''strategy.id'' = (if length (commit_names cmd) - 1 \<le> k then Some sid else read_number files ''strategy.id'') \<and>
    read_number f ''strategy.ready'' = (if length (commit_names cmd) \<le> k then Some gen else read_number files ''strategy.ready'')"
  proof (cases "cmd_text cmd")
    case None
    have "k = 0 \<or> k = 1 \<or> k = 2 \<or> (\<exists>k'. k = 3 + k')" by presburger
    then show ?thesis
      by (elim disjE exE) (simp_all add: f_def commit_names_def None committed_def numeral_2_eq_2 numeral_3_eq_3)
  next
    case (Some c)
    have "k = 0 \<or> k = 1 \<or> k = 2 \<or> k = 3 \<or> (\<exists>k'. k = 4 + k')" by presburger
    then show ?thesis
      by (elim disjE exE) (simp_all add: f_def commit_names_def Some committed_def eval_nat_numeral)
  qed
  then show "read_number f ''strategy.gen'' = (if 1 \<le> k then Some gen else read_number files ''strategy.gen'')"
    and "read_number f ''strategy.id'' = (if length (commit_names cmd) - 1 \<le> k then Some sid else read_number files ''strategy.id'')"
    and "read_number f ''strategy.ready'' = (if length (commit_names cmd) \<le> k then Some gen else read_number files ''strategy.ready'')"
    by blast+
qed

lemma commit_names_length: "3 \<le> length (commit_names cmd)"
  by (simp add: commit_names_def)

lemma files_at_numbers:
  "\<exists>phase. mono phase \<and> (\<forall>n.
     read_number (files_at env fault sid gen cmd s n) ''strategy.gen''
       = (if 1 \<le> phase n then Some gen else read_number (fs_files (br_fs s)) ''strategy.gen'') \<and>
     read_number (files_at env fault sid gen cmd s n) ''strategy.id''
       = (if length (commit_names cmd) - 1 \<le> phase n then Some sid else read_number (fs_files (br_fs s)) ''strategy.id'') \<and>
     read_number (files_at env fault sid gen cmd s n) ''strategy.ready''
       = (if length (commit_names cmd) \<le> phase n then Some gen else read_number (fs_files (br_fs s)) ''strategy.ready''))"
proof -
  obtain phase :: "nat \<Rightarrow> nat" where "mono phase"
    "\<And>n. files_at env fault sid gen cmd s n = committed (staged_map sid gen cmd) (take (phase n) (commit_names cmd)) (fs_files (br_fs s))"
    using publish_phases [of env fault 0 s sid gen cmd] unfolding files_at_def by blast
  then show ?thesis using committed_numbers by (intro exI [of _ phase]) simp
qed

text \<open>
  C24. A publication is atomic for a reader that sees all files at one moment: at every moment of
  a publication under a new generation, also when it fails half-way, the daemon reads either the
  strategy published before, or nothing, or the new strategy with the new generation.
\<close>

theorem publish_atomic:
  assumes "read_number (fs_files (br_fs s)) ''strategy.ready'' \<noteq> Some gen"
  shows "let f = files_at env fault sid gen cmd s n; old = fs_files (br_fs s) in
           bs_read_strategy_ipc f f f \<in> {bs_read_strategy_ipc old old old, None, Some (sid, gen)}"
proof -
  obtain phase :: "nat \<Rightarrow> nat" where
    "\<And>n. read_number (files_at env fault sid gen cmd s n) ''strategy.gen''
       = (if 1 \<le> phase n then Some gen else read_number (fs_files (br_fs s)) ''strategy.gen'')"
    "\<And>n. read_number (files_at env fault sid gen cmd s n) ''strategy.id''
       = (if length (commit_names cmd) - 1 \<le> phase n then Some sid else read_number (fs_files (br_fs s)) ''strategy.id'')"
    "\<And>n. read_number (files_at env fault sid gen cmd s n) ''strategy.ready''
       = (if length (commit_names cmd) \<le> phase n then Some gen else read_number (fs_files (br_fs s)) ''strategy.ready'')"
    using files_at_numbers [of env fault sid gen cmd s] by blast
  then show ?thesis using assms commit_names_length [of cmd]
    by (auto simp: bs_read_strategy_ipc_def Let_def split: option.splits if_splits)
qed

lemma split_read_cases:
  assumes "read_number (fs_files (br_fs s)) ''strategy.ready'' \<noteq> Some gen"
    and "n1 \<le> n2" and "n2 \<le> n3"
    and "bs_read_strategy_ipc (files_at env fault sid gen cmd s n1) (files_at env fault sid gen cmd s n2)
           (files_at env fault sid gen cmd s n3) = Some (i, g)"
  shows "(g = gen \<longrightarrow> i = sid) \<and>
         (g \<noteq> gen \<longrightarrow> read_number (fs_files (br_fs s)) ''strategy.ready'' = Some g \<and>
                      read_number (fs_files (br_fs s)) ''strategy.gen'' = Some g \<and>
                      (i = sid \<or> read_number (fs_files (br_fs s)) ''strategy.id'' = Some i))"
proof -
  obtain phase :: "nat \<Rightarrow> nat" where "mono phase" and numbers:
    "\<And>n. read_number (files_at env fault sid gen cmd s n) ''strategy.gen''
       = (if 1 \<le> phase n then Some gen else read_number (fs_files (br_fs s)) ''strategy.gen'')"
    "\<And>n. read_number (files_at env fault sid gen cmd s n) ''strategy.id''
       = (if length (commit_names cmd) - 1 \<le> phase n then Some sid else read_number (fs_files (br_fs s)) ''strategy.id'')"
    "\<And>n. read_number (files_at env fault sid gen cmd s n) ''strategy.ready''
       = (if length (commit_names cmd) \<le> phase n then Some gen else read_number (fs_files (br_fs s)) ''strategy.ready'')"
    using files_at_numbers [of env fault sid gen cmd s] by blast
  then have "phase n1 \<le> phase n2" "phase n2 \<le> phase n3" using assms(2,3) by (simp_all add: monoD)
  then show ?thesis using assms(1,4) numbers commit_names_length [of cmd]
    by (auto simp: bs_read_strategy_ipc_def split: option.splits if_splits)
qed

text \<open>
  The daemon reads the three files one after another, while the publication goes on. Whatever
  it sees at the three moments, a read that reports the new generation has the new strategy id;
  and a read that reports another generation found that one in both fence files before.
\<close>

theorem split_read_generation:
  assumes "read_number (fs_files (br_fs s)) ''strategy.ready'' \<noteq> Some gen"
    and "n1 \<le> n2" and "n2 \<le> n3"
    and "bs_read_strategy_ipc (files_at env fault sid gen cmd s n1) (files_at env fault sid gen cmd s n2)
           (files_at env fault sid gen cmd s n3) = Some (i, g)"
  shows "(g = gen \<longrightarrow> i = sid) \<and>
         (g \<noteq> gen \<longrightarrow> read_number (fs_files (br_fs s)) ''strategy.ready'' = Some g \<and>
                      read_number (fs_files (br_fs s)) ''strategy.gen'' = Some g \<and>
                      (i = sid \<or> read_number (fs_files (br_fs s)) ''strategy.id'' = Some i))"
  using assms by (rule split_read_cases)

definition sample_perm_env :: perm_env where
  "sample_perm_env = \<lparr>pe_chmod = (\<lambda>p m. True), pe_sudo_chmod = (\<lambda>p. False), pe_setfacl_usable = False, pe_setfacl = (\<lambda>p. False)\<rparr>"

definition sample_bridge :: bridge_state where
  "sample_bridge =
     \<lparr>br_fs = \<lparr>fs_files = [''strategy.id'' \<mapsto> line_text 7, ''strategy.gen'' \<mapsto> line_text 3, ''strategy.ready'' \<mapsto> line_text 3],
              fs_staging = (\<lambda>_. None)\<rparr>,
      br_perm = \<lparr>ps_sudo_ok = [], ps_world_warned = []\<rparr>\<rparr>"

lemma sample_bridge_numbers:
  "read_number (fs_files (br_fs sample_bridge)) ''strategy.ready'' = Some 3"
  "read_number (fs_files (br_fs sample_bridge)) ''strategy.gen'' = Some 3"
  "read_number (fs_files (br_fs sample_bridge)) ''strategy.id'' = Some 7"
  by (simp_all add: sample_bridge_def)

theorem publish_atomic_witness:
  "let f = files_at sample_perm_env (\<lambda>_. None) 8 4 None sample_bridge 14; old = fs_files (br_fs sample_bridge) in
     bs_read_strategy_ipc f f f \<in> {bs_read_strategy_ipc old old old, None, Some (8, 4)}"
  by (rule publish_atomic) (simp add: sample_bridge_numbers)

lemma sample_commit_moments:
  "read_number (files_at sample_perm_env (\<lambda>_. None) 8 4 None sample_bridge 0) ''strategy.ready'' = Some 3"
  "read_number (files_at sample_perm_env (\<lambda>_. None) 8 4 None sample_bridge 0) ''strategy.gen'' = Some 3"
  "read_number (files_at sample_perm_env (\<lambda>_. None) 8 4 None sample_bridge 12) ''strategy.id'' = Some 8"
  "read_number (files_at sample_perm_env (\<lambda>_. None) 8 4 None sample_bridge 12) ''strategy.ready'' = Some 3"
  by code_simp+

text \<open>
  The remaining window of the protocol: a daemon that has read both fence files before the
  publication and the id after it was moved into place applies the new strategy under the old
  generation.
\<close>

theorem split_read_race:
  "bs_read_strategy_ipc (files_at sample_perm_env (\<lambda>_. None) 8 4 None sample_bridge 0)
     (files_at sample_perm_env (\<lambda>_. None) 8 4 None sample_bridge 0)
     (files_at sample_perm_env (\<lambda>_. None) 8 4 None sample_bridge 12) = Some (8, 3)"
  by (simp add: bs_read_strategy_ipc_def sample_commit_moments)

theorem split_read_generation_witness:
  "read_number (fs_files (br_fs sample_bridge)) ''strategy.ready'' = Some 3 \<and>
   (8 = (8 :: int) \<or> read_number (fs_files (br_fs sample_bridge)) ''strategy.id'' = Some 8)"
  using split_read_generation [where s = sample_bridge and gen = 4 and sid = 8 and cmd = None and env = sample_perm_env
      and fault = "\<lambda>_. None" and ?n1.0 = 0 and ?n2.0 = 0 and ?n3.0 = 12 and i = 8 and g = 3]
  by (simp add: sample_bridge_numbers bs_read_strategy_ipc_def sample_commit_moments)

text \<open>
  C25. Events are attributed to the right strategy: for an event the daemon writes after a read
  during or after the publication, with the id and generation it read, draining from the new
  generation with the published id accepts the event exactly when it is about the published
  strategy. Generations grow, so an event about another strategy is never taken for it.
\<close>

theorem events_attributed:
  assumes "\<And>g. read_number (fs_files (br_fs s)) ''strategy.ready'' = Some g \<Longrightarrow> g < gen"
    and "n1 \<le> n2" and "n2 \<le> n3"
    and "bs_read_strategy_ipc (files_at env fault sid gen cmd s n1) (files_at env fault sid gen cmd s n2)
           (files_at env fault sid gen cmd s n3) = Some (ev_id ev, ev_gen ev)"
  shows "accepts gen (Some sid) ev \<longleftrightarrow> ev_id ev = sid"
proof -
  have "read_number (fs_files (br_fs s)) ''strategy.ready'' \<noteq> Some gen" using assms(1) by blast
  from split_read_cases [OF this assms(2-4)] show ?thesis
    using assms(1) [of "ev_gen ev"] by (auto simp: accepts_def)
qed

theorem events_attributed_witness:
  "accepts 4 (Some 8) \<lparr>ev_event = ''APPLIED'', ev_gen = 3, ev_id = 8, ev_reason = [], ev_ttl = 0, ev_matched = 1, ev_raw = None\<rparr>"
  using events_attributed [where s = sample_bridge and gen = 4 and sid = 8 and cmd = None and env = sample_perm_env
      and fault = "\<lambda>_. None" and ?n1.0 = 0 and ?n2.0 = 0 and ?n3.0 = 12
      and ev = "\<lparr>ev_event = ''APPLIED'', ev_gen = 3, ev_id = 8, ev_reason = [], ev_ttl = 0, ev_matched = 1, ev_raw = None\<rparr>"]
  by (simp add: sample_bridge_numbers bs_read_strategy_ipc_def sample_commit_moments)

section \<open>The outcome of a publication\<close>

definition relaxable :: "perm_env \<Rightarrow> bool" where
  "relaxable env = (\<forall>p. apply_setfacl env p \<or> pe_sudo_chmod env p \<or> (\<forall>m. pe_chmod env p m))"

lemma relaxable_ok: "relaxable env \<Longrightarrow> \<exists>ps. ipc_relax_for_nobody env path k is_dir st = Inr ps"
  using relax_raises_iff [of env path k is_dir st]
  by (cases "ipc_relax_for_nobody env path k is_dir st") (auto simp: relaxable_def)

lemma run_ops_append:
  "run_ops env fault i (xs @ ys) s =
     (case run_ops env fault i xs s of (s', None) \<Rightarrow> run_ops env fault (i + length xs) ys s' | r \<Rightarrow> r)"
  by (induction xs arbitrary: i s) (auto split: option.splits sum.splits)

text \<open>An operation is enabled in a file system when only its permissions can make it fail.\<close>

definition enabled :: "fs_op \<Rightarrow> bridge_fs \<Rightarrow> bool" where
  "enabled op fs =
     (case op of
        WriteStaged g n c \<Rightarrow> fs_staging fs g \<noteq> None
      | ReplaceFile g n \<Rightarrow> Option.bind (fs_staging fs g) (\<lambda>d. d n) \<noteq> None
      | _ \<Rightarrow> True)"

lemma exec_op_enabled:
  assumes "relaxable env" and "enabled op (br_fs s)"
  shows "\<exists>s1. exec_op env op s = Inr s1"
proof (cases op)
  case (Relax path is_dir)
  obtain ps where "ipc_relax_for_nobody env path (if is_dir then path else parent_of path) is_dir (br_perm s) = Inr ps"
    using relaxable_ok [OF assms(1)] by blast
  then show ?thesis by (simp add: exec_op_def Relax)
qed (use assms(2) in \<open>simp_all add: exec_op_def enabled_def\<close>)

fun all_enabled :: "fs_op list \<Rightarrow> bridge_fs \<Rightarrow> bool" where
  "all_enabled [] fs = True"
| "all_enabled (op # ops) fs = (enabled op fs \<and> all_enabled ops (fs_effect op fs))"

lemma all_enabled_append:
  "all_enabled (xs @ ys) fs \<longleftrightarrow> all_enabled xs fs \<and> all_enabled ys (fold fs_effect xs fs)"
  by (induction xs arbitrary: fs) auto

lemma run_ops_enabled:
  assumes "relaxable env" and "all_enabled ops (br_fs s)"
  shows "\<exists>s'. run_ops env (\<lambda>_. None) i ops s = (s', None) \<and> br_fs s' = fold fs_effect ops (br_fs s)"
  using assms(2)
proof (induction ops arbitrary: i s)
  case Nil
  then show ?case by simp
next
  case (Cons op ops)
  have "enabled op (br_fs s)" using Cons.prems by simp
  then obtain s1 where s1: "exec_op env op s = Inr s1" using exec_op_enabled [OF assms(1)] by blast
  from exec_op_effect [OF s1] Cons.prems Cons.IH [of s1 "Suc i"] show ?case by (simp add: s1)
qed

lemma enabled_writes:
  "fs_staging fs g \<noteq> None \<Longrightarrow> all_enabled (map (\<lambda>(n, c). WriteStaged g n c) xs) fs"
  by (induction xs arbitrary: fs) (auto simp: enabled_def fs_effect_def)

lemma enabled_relaxes: "all_enabled (map (\<lambda>(n, c). Relax (h n) b) xs) fs"
  by (induction xs arbitrary: fs) (auto simp: enabled_def fs_effect_def)

lemma enabled_commits:
  assumes "fs_staging fs g = Some d" and "distinct ns" and "set ns \<subseteq> dom d"
  shows "all_enabled (concat (map (\<lambda>n. [ReplaceFile g n, Relax n False]) ns)) fs"
  using assms
proof (induction ns arbitrary: fs d)
  case Nil
  then show ?case by simp
next
  case (Cons n ns)
  obtain c where c: "d n = Some c" using Cons.prems(3) by auto
  have "fs_staging (fs_effect (ReplaceFile g n) fs) g = Some (d(n := None))"
    using Cons.prems(1) c by (simp add: fs_effect_def)
  moreover have "set ns \<subseteq> dom (d(n := None))" using Cons.prems(2,3) by auto
  ultimately have "all_enabled (concat (map (\<lambda>n. [ReplaceFile g n, Relax n False]) ns)) (fs_effect (ReplaceFile g n) fs)"
    using Cons.IH Cons.prems(2) by simp
  then show ?case using Cons.prems(1) c by (simp add: enabled_def fs_effect_def [of "Relax _ _"])
qed

lemma publish_all_enabled: "all_enabled (publish_ops fs sid gen cmd) fs"
proof -
  have "all_enabled (staging_ops fs sid gen cmd) fs"
    unfolding staging_ops_def
    by (auto simp: all_enabled_append enabled_def fs_effect_def intro!: enabled_writes enabled_relaxes)
  moreover have "all_enabled (commit_ops gen cmd) (fold fs_effect (staging_ops fs sid gen cmd) fs)"
    unfolding commit_ops_def
    by (rule enabled_commits) (use staging_ops_effect commit_names_staged in simp_all)
  ultimately show ?thesis by (simp add: publish_ops_def all_enabled_append enabled_def)
qed

lemma run_ops_all: "run_ops env fault i ops s = run_ops env fault i (take (length ops) ops) s"
  by simp

text \<open>
  The outcome of a publication. The error that reaches the caller is a permission error or a
  publish error, never a bare \<^verbatim>\<open>OSError\<close>. When permissions can be set and no file operation fails,
  there is no error and the daemon then reads exactly the published id and generation.
\<close>

theorem publish_outcome:
  "(\<forall>s' msg. publish env fault ns sid gen cmd s \<noteq> (s', Some (IpcOSError msg))) \<and>
   (relaxable env \<longrightarrow>
     (\<exists>s'. publish env (\<lambda>_. None) ns sid gen cmd s = (s', None) \<and>
        bs_read_strategy_ipc (fs_files (br_fs s')) (fs_files (br_fs s')) (fs_files (br_fs s')) = Some (sid, gen) \<and>
        fs_staging (br_fs s') gen = None))"
proof (intro conjI impI allI)
  fix s' msg
  show "publish env fault ns sid gen cmd s \<noteq> (s', Some (IpcOSError msg))"
    by (auto simp: publish_def split: prod.splits option.splits ipc_error.splits)
next
  assume r: "relaxable env"
  obtain s' where run: "run_ops env (\<lambda>_. None) 0 (publish_ops (br_fs s) sid gen cmd) s = (s', None)"
    and fs: "br_fs s' = fold fs_effect (publish_ops (br_fs s) sid gen cmd) (br_fs s)"
    using run_ops_enabled [OF r publish_all_enabled] by blast
  have "fs_staging (br_fs s') gen = None" unfolding fs by (simp add: publish_ops_def fs_effect_def [of "RmStaging _"])
  moreover have "fs_files (br_fs s') = committed (staged_map sid gen cmd) (commit_names cmd) (fs_files (br_fs s))"
  proof -
    let ?fs = "fold fs_effect (staging_ops (br_fs s) sid gen cmd) (br_fs s)"
    have "fs_files (fold fs_effect (take (2 * length (commit_names cmd)) (commit_ops gen cmd)) ?fs)
        = committed (staged_map sid gen cmd) (take ((2 * length (commit_names cmd) + 1) div 2) (commit_names cmd)) (fs_files ?fs)"
      unfolding commit_ops_def
      by (rule commit_prefix_effect) (use staging_ops_effect commit_names_staged in simp_all)
    moreover have "length (commit_ops gen cmd) = 2 * length (commit_names cmd)"
      by (auto simp: commit_ops_def commit_names_def split: option.splits)
    ultimately show ?thesis unfolding fs
      by (simp add: publish_ops_def fs_effect_def [of "RmStaging _"] staging_ops_effect)
  qed
  then have "bs_read_strategy_ipc (fs_files (br_fs s')) (fs_files (br_fs s')) (fs_files (br_fs s')) = Some (sid, gen)"
    using committed_numbers [of sid gen cmd "length (commit_names cmd)" "fs_files (br_fs s)"] commit_names_length [of cmd]
    by (simp add: bs_read_strategy_ipc_def)
  ultimately show "\<exists>s'. publish env (\<lambda>_. None) ns sid gen cmd s = (s', None) \<and>
        bs_read_strategy_ipc (fs_files (br_fs s')) (fs_files (br_fs s')) (fs_files (br_fs s')) = Some (sid, gen) \<and>
        fs_staging (br_fs s') gen = None"
    by (intro exI [of _ s']) (simp add: publish_def run)
qed

theorem publish_outcome_witness:
  "\<exists>s'. publish sample_perm_env (\<lambda>_. None) ''ns1'' 8 4 None sample_bridge = (s', None) \<and>
     bs_read_strategy_ipc (fs_files (br_fs s')) (fs_files (br_fs s')) (fs_files (br_fs s')) = Some (8, 4) \<and>
     fs_staging (br_fs s') 4 = None"
proof -
  have "relaxable sample_perm_env" by (simp add: relaxable_def sample_perm_env_def)
  then show ?thesis
    using publish_outcome [of sample_perm_env "\<lambda>_. None" "''ns1''" 8 4 None sample_bridge] by blast
qed

end
