(* ===== verification/RunControl.thy ===== *)
theory RunControl
  imports PyJson
begin

text \<open>
  \<^verbatim>\<open>service/run_control.py\<close>: the lock file of the running campaign. Registration is modelled twice:
  as a function of the whole system, for a process that is not disturbed, and as the sequence of
  its system calls, so that processes can interleave. What \<^verbatim>\<open>/proc\<close> and \<^verbatim>\<open>kill\<close> say about other
  processes is part of the system's state. The times, paths and arguments in the lock are carried
  along; ownership changes of the file are left out.
\<close>

section \<open>The lock file\<close>

record ActiveRunInfo =
  ri_pid :: int
  ri_command :: string
  ri_started_at :: string
  ri_db_path :: "string option"
  ri_cwd :: "string option"
  ri_argv :: "string list"

text \<open>\<open>x or None\<close> for an entry that holds a string.\<close>

fun str_or_none :: "json \<Rightarrow> string option result" where
  "str_or_none (JStr s) = Inr (if s = [] then None else Some s)"
| "str_or_none v = (if truthy v then bad_type else Inr None)"

definition str_or_default :: "string \<Rightarrow> json \<Rightarrow> string result" where
  "str_or_default dflt v = bind_result (to_str v) (\<lambda>s. Inr (if s = [] then dflt else s))"

fun required_int :: "json option \<Rightarrow> int result" where
  "required_int None = Inl (KeyError ''pid'')"
| "required_int (Some JNone) = bad_type"
| "required_int (Some (JList _)) = bad_type"
| "required_int (Some (JDict _)) = bad_type"
| "required_int (Some (JStr s)) = (case int_of_str s of None \<Rightarrow> Inl (ValueError s) | Some n \<Rightarrow> Inr n)"
| "required_int (Some v) = to_int v"

definition run_info_from_dict :: "jdict \<Rightarrow> ActiveRunInfo result" where
  "run_info_from_dict data =
     bind_result (required_int (dict_get data ''pid'')) (\<lambda>pid.
     bind_result (str_or_default ''unknown'' (jget data ''command'')) (\<lambda>command.
     bind_result (str_or_default [] (jget data ''started_at'')) (\<lambda>started.
     bind_result (str_or_none (jget data ''db_path'')) (\<lambda>db_path.
     bind_result (str_or_none (jget data ''cwd'')) (\<lambda>cwd.
     bind_result (to_strs (jget data ''argv'')) (\<lambda>argv.
     Inr \<lparr>ri_pid = pid, ri_command = command, ri_started_at = started, ri_db_path = db_path, ri_cwd = cwd, ri_argv = argv\<rparr>))))))"

definition lock_payload :: "ActiveRunInfo \<Rightarrow> jdict" where
  "lock_payload r =
     [(''pid'', JInt (ri_pid r)), (''command'', JStr (ri_command r)), (''started_at'', JStr (ri_started_at r)),
      (''db_path'', case ri_db_path r of None \<Rightarrow> JNone | Some p \<Rightarrow> JStr p),
      (''cwd'', case ri_cwd r of None \<Rightarrow> JNone | Some p \<Rightarrow> JStr p),
      (''argv'', JList (map JStr (ri_argv r)))]"

text \<open>
  The content of the file: empty between its creation and the write, text that is no JSON object,
  or a decoded object.
\<close>

datatype lock_content = LockEmpty | LockGarbage | LockData jdict

text \<open>
  The system: the lock file, and for each process whether it is alive, whether it may be signalled
  by us, and whether its command line looks like a campaign (as far as it can be read).
\<close>

record run_sys =
  rs_lock :: "lock_content option"
  rs_alive :: "int \<Rightarrow> bool"
  rs_campaign :: "int \<Rightarrow> bool"

definition is_pid_alive :: "run_sys \<Rightarrow> int \<Rightarrow> bool" where
  "is_pid_alive sys pid = (if pid \<le> 0 then False else rs_alive sys pid)"

text \<open>\<open>cmdline\<close> is the text of \<^verbatim>\<open>/proc/<pid>/cmdline\<close> with blanks for zero bytes, \<open>None\<close> if unreadable.\<close>

definition cmdline_looks_like_campaign :: "string option \<Rightarrow> bool" where
  "cmdline_looks_like_campaign cmdline =
     (case cmdline of
        None \<Rightarrow> True
      | Some text \<Rightarrow> if text = [] then True else contains ''blockchecks'' text \<or> contains ''bin/bs'' text)"

definition clear_active_run :: "run_sys \<Rightarrow> run_sys" where
  "clear_active_run sys = sys\<lparr>rs_lock := None\<rparr>"

definition parse_lock :: "lock_content \<Rightarrow> ActiveRunInfo option" where
  "parse_lock c =
     (case c of
        LockData d \<Rightarrow> (case run_info_from_dict d of Inr r \<Rightarrow> Some r | Inl _ \<Rightarrow> None)
      | _ \<Rightarrow> None)"

definition stale :: "run_sys \<Rightarrow> int \<Rightarrow> ActiveRunInfo \<Rightarrow> bool" where
  "stale sys me r = (ri_pid r \<noteq> me \<and> (\<not> is_pid_alive sys (ri_pid r) \<or> \<not> rs_campaign sys (ri_pid r)))"

definition read_active_run :: "int \<Rightarrow> run_sys \<Rightarrow> ActiveRunInfo option \<times> run_sys" where
  "read_active_run me sys =
     (case rs_lock sys of
        None \<Rightarrow> (None, sys)
      | Some c \<Rightarrow>
          (case parse_lock c of
             None \<Rightarrow> (None, sys)
           | Some r \<Rightarrow> if stale sys me r then (None, clear_active_run sys) else (Some r, sys)))"

text \<open>\<open>None\<close> is \<^verbatim>\<open>FileExistsError\<close>.\<close>

definition write_run_lock_exclusive :: "ActiveRunInfo \<Rightarrow> run_sys \<Rightarrow> run_sys option" where
  "write_run_lock_exclusive r sys =
     (if rs_lock sys = None then Some (sys\<lparr>rs_lock := Some (LockData (lock_payload r))\<rparr>) else None)"

definition acquire_failed :: py_error where
  "acquire_failed = SystemExit ''ERROR: failed to acquire run.lock (concurrent campaign started?)''"

definition already_registered :: "ActiveRunInfo \<Rightarrow> py_error" where
  "already_registered r =
     SystemExit (''ERROR: active run already registered (pid '' @ str_int (ri_pid r) @ '', '' @ ri_command r @
                 ''). Stop with: bs stop'')"

definition write_or_exit :: "ActiveRunInfo \<Rightarrow> run_sys \<Rightarrow> py_error option \<times> run_sys" where
  "write_or_exit r sys =
     (case write_run_lock_exclusive r sys of None \<Rightarrow> (Some acquire_failed, sys) | Some sys' \<Rightarrow> (None, sys'))"

definition register_active_run :: "ActiveRunInfo \<Rightarrow> run_sys \<Rightarrow> py_error option \<times> run_sys" where
  "register_active_run r sys =
     (case write_run_lock_exclusive r sys of
        Some sys' \<Rightarrow> (None, sys')
      | None \<Rightarrow>
          (let (existing, sys) = read_active_run (ri_pid r) sys
           in case existing of
                None \<Rightarrow> write_or_exit r sys
              | Some e \<Rightarrow>
                  if ri_pid e = ri_pid r then write_or_exit r (clear_active_run sys)
                  else if is_pid_alive sys (ri_pid e) then (Some (already_registered e), sys)
                  else write_or_exit r (clear_active_run sys)))"

text \<open>\<open>body\<close> is what the campaign does to the system; the lock is removed however it ends.\<close>

definition run_session :: "ActiveRunInfo \<Rightarrow> (run_sys \<Rightarrow> py_error option \<times> run_sys) \<Rightarrow> run_sys \<Rightarrow> py_error option \<times> run_sys" where
  "run_session r body sys =
     (case register_active_run r sys of
        (Some e, sys') \<Rightarrow> (Some e, sys')
      | (None, sys') \<Rightarrow> (let (e, sys'') = body sys' in (e, clear_active_run sys'')))"

section \<open>Stopping\<close>

datatype kill_result = Killed | NoProcess | NoPermission

text \<open>
  What the other process does while we wait is given by the environment: the answers to the two
  signals and, for each poll until the deadline, whether it is still alive.
\<close>

record stop_env =
  se_term :: kill_result
  se_polls :: "bool list"
  se_kill :: kill_result
  se_kill_polls :: "bool list"

definition force_kill :: "stop_env \<Rightarrow> run_sys \<Rightarrow> int \<times> run_sys" where
  "force_kill env sys =
     (case se_kill env of
        NoProcess \<Rightarrow> (0, clear_active_run sys)
      | NoPermission \<Rightarrow> (2, sys)
      | Killed \<Rightarrow> if \<not> list_all id (se_kill_polls env) then (0, clear_active_run sys) else (1, sys))"

definition signal_and_wait :: "bool \<Rightarrow> stop_env \<Rightarrow> run_sys \<Rightarrow> int \<times> run_sys" where
  "signal_and_wait force env sys =
     (case se_term env of
        NoProcess \<Rightarrow> (2, clear_active_run sys)
      | NoPermission \<Rightarrow> (2, sys)
      | Killed \<Rightarrow>
          if \<not> list_all id (se_polls env) then (0, clear_active_run sys)
          else if \<not> force then (1, sys) else force_kill env sys)"

definition request_graceful_stop :: "bool \<Rightarrow> stop_env \<Rightarrow> int \<Rightarrow> run_sys \<Rightarrow> int \<times> run_sys" where
  "request_graceful_stop force env me sys =
     (case read_active_run me sys of
        (None, sys') \<Rightarrow> (2, sys')
      | (Some r, sys') \<Rightarrow> if ri_pid r = me then (2, sys') else signal_and_wait force env sys')"

section \<open>Registration of one process\<close>

lemma str_int_not_Nil: "str_int n \<noteq> []"
  by (simp add: str_int_def)

text \<open>What is written is what is read, once empty strings are absent.\<close>

definition info_ok :: "ActiveRunInfo \<Rightarrow> bool" where
  "info_ok r = (ri_command r \<noteq> [] \<and> ri_db_path r \<noteq> Some [] \<and> ri_cwd r \<noteq> Some [])"

lemma lock_roundtrip: "info_ok r \<Longrightarrow> run_info_from_dict (lock_payload r) = Inr r"
  by (auto simp: run_info_from_dict_def lock_payload_def jget_def str_or_default_def info_ok_def split: option.splits)

lemma parse_own_lock: "info_ok r \<Longrightarrow> parse_lock (LockData (lock_payload r)) = Some r"
  by (simp add: parse_lock_def lock_roundtrip)

interpretation lock_codec: codec lock_payload run_info_from_dict Inr info_ok
  by unfold_locales (rule lock_roundtrip)

definition holds_lock :: "run_sys \<Rightarrow> int \<Rightarrow> bool" where
  "holds_lock sys pid = (\<exists>c r. rs_lock sys = Some c \<and> parse_lock c = Some r \<and> ri_pid r = pid)"


definition sample_info :: "int \<Rightarrow> ActiveRunInfo" where
  "sample_info p = \<lparr>ri_pid = p, ri_command = ''scan'', ri_started_at = [], ri_db_path = None, ri_cwd = None, ri_argv = []\<rparr>"

definition sample_sys :: run_sys where
  "sample_sys = \<lparr>rs_lock = Some (LockData (lock_payload (sample_info 9))), rs_alive = (\<lambda>p. p \<noteq> 9), rs_campaign = (\<lambda>_. True)\<rparr>"


section \<open>Registration, call by call\<close>

text \<open>
  Between any two system calls of one process others may run. A lock file is identified by the
  process that created it, because a write goes to the file that was opened, even if it has been
  unlinked since.
\<close>

datatype reg_pc = RCreate | RWrite | RRead | RUnlink | RRetry | RDone | RExit py_error

record reg_sys =
  rg_lock :: "(int \<times> lock_content) option"
  rg_pc :: "int \<Rightarrow> reg_pc"

text \<open>The world around: liveness and command lines, and what each process would write.\<close>

record reg_env =
  rv_sys :: run_sys
  rv_info :: "int \<Rightarrow> ActiveRunInfo"

definition goto :: "int \<Rightarrow> reg_pc \<Rightarrow> reg_sys \<Rightarrow> reg_sys" where
  "goto p l s = s\<lparr>rg_pc := (rg_pc s)(p := l)\<rparr>"

definition after_read :: "reg_env \<Rightarrow> int \<Rightarrow> (int \<times> lock_content) option \<Rightarrow> reg_pc" where
  "after_read env p lock =
     (case Option.bind lock (\<lambda>(ino, c). parse_lock c) of
        None \<Rightarrow> RRetry
      | Some e \<Rightarrow>
          if stale (rv_sys env) p e then RUnlink
          else if ri_pid e = p then RUnlink
          else if is_pid_alive (rv_sys env) (ri_pid e) then RExit (already_registered e)
          else RUnlink)"

definition reg_step :: "reg_env \<Rightarrow> int \<Rightarrow> reg_sys \<Rightarrow> reg_sys" where
  "reg_step env p s =
     (case rg_pc s p of
        RCreate \<Rightarrow> if rg_lock s = None then goto p RWrite (s\<lparr>rg_lock := Some (p, LockEmpty)\<rparr>) else goto p RRead s
      | RWrite \<Rightarrow>
          goto p RDone (case rg_lock s of
            Some (ino, c) \<Rightarrow> if ino = p then s\<lparr>rg_lock := Some (p, LockData (lock_payload (rv_info env p)))\<rparr> else s
          | None \<Rightarrow> s)
      | RRead \<Rightarrow> goto p (after_read env p (rg_lock s)) s
      | RUnlink \<Rightarrow> goto p RRetry (s\<lparr>rg_lock := None\<rparr>)
      | RRetry \<Rightarrow>
          if rg_lock s = None then goto p RWrite (s\<lparr>rg_lock := Some (p, LockEmpty)\<rparr>) else goto p (RExit acquire_failed) s
      | _ \<Rightarrow> s)"

definition reg_init :: "(int \<times> lock_content) option \<Rightarrow> reg_sys" where
  "reg_init lock = \<lparr>rg_lock = lock, rg_pc = (\<lambda>_. RCreate)\<rparr>"

text \<open>The outcome of a process, and the system as the undisturbed function sees it.\<close>

definition reg_view :: "reg_env \<Rightarrow> reg_sys \<Rightarrow> run_sys" where
  "reg_view env s = (rv_sys env)\<lparr>rs_lock := map_option snd (rg_lock s)\<rparr>"

definition outcome_of :: "reg_pc \<Rightarrow> py_error option" where
  "outcome_of l = (case l of RExit e \<Rightarrow> Some e | _ \<Rightarrow> None)"

lemma stale_view [simp]: "stale (reg_view env s) p e = stale (rv_sys env) p e"
  and alive_view [simp]: "is_pid_alive (reg_view env s) q = is_pid_alive (rv_sys env) q"
  by (simp_all add: stale_def is_pid_alive_def reg_view_def)

lemma register_replaces:
  assumes "rs_lock sys = Some c" "parse_lock c = Some e" "ri_pid e = ri_pid r \<or> stale sys (ri_pid r) e"
  shows "register_active_run r sys = (None, sys\<lparr>rs_lock := Some (LockData (lock_payload r))\<rparr>)"
  using assms by (auto simp: register_active_run_def write_run_lock_exclusive_def write_or_exit_def
      read_active_run_def clear_active_run_def stale_def)

lemma register_refused:
  assumes "rs_lock sys = Some c" "parse_lock c = Some e" "ri_pid e \<noteq> ri_pid r" "\<not> stale sys (ri_pid r) e"
  shows "register_active_run r sys = (Some (already_registered e), sys)"
  using assms by (auto simp: register_active_run_def write_run_lock_exclusive_def read_active_run_def stale_def)

lemma unlink_run:
  assumes "rg_pc s p = RCreate" "rg_lock s = Some l" "after_read env p (Some l) = RUnlink"
  shows "(reg_step env p ^^ 5) s = goto p RDone (s\<lparr>rg_lock := Some (p, LockData (lock_payload (rv_info env p)))\<rparr>)"
  using assms by (simp add: eval_nat_numeral reg_step_def goto_def)

lemma exit_run:
  assumes "rg_pc s p = RCreate" "rg_lock s = Some l" "after_read env p (Some l) = RExit e"
  shows "(reg_step env p ^^ 5) s = goto p (RExit e) s"
  using assms by (simp add: eval_nat_numeral reg_step_def goto_def)


definition sample_env :: reg_env where
  "sample_env = \<lparr>rv_sys = sample_sys, rv_info = sample_info\<rparr>"


section \<open>Several processes\<close>

definition healthy :: "reg_env \<Rightarrow> int \<Rightarrow> bool" where
  "healthy env p = (info_ok (rv_info env p) \<and> ri_pid (rv_info env p) = p \<and> is_pid_alive (rv_sys env) p \<and> rs_campaign (rv_sys env) p)"

definition mutex_inv :: "reg_env \<Rightarrow> reg_sys \<Rightarrow> bool" where
  "mutex_inv env s =
     ((\<forall>p. rg_pc s p \<in> {RWrite, RDone} \<longrightarrow> (\<exists>c. rg_lock s = Some (p, c))) \<and>
      (\<forall>p c. rg_lock s = Some (p, c) \<longrightarrow> healthy env p \<and> rg_pc s p \<in> {RWrite, RDone} \<and>
                c \<in> {LockEmpty, LockData (lock_payload (rv_info env p))}) \<and>
      (\<forall>p. rg_pc s p \<noteq> RUnlink))"

lemma mutex_holder: "mutex_inv env s \<Longrightarrow> rg_pc s p \<in> {RWrite, RDone} \<Longrightarrow> \<exists>c. rg_lock s = Some (p, c)"
  unfolding mutex_inv_def by blast

lemma mutex_unique:
  assumes "mutex_inv env s" "rg_pc s p \<in> {RWrite, RDone}" "rg_pc s q \<in> {RWrite, RDone}"
  shows "p = q"
proof -
  obtain c c' where "rg_lock s = Some (p, c)" "rg_lock s = Some (q, c')"
    using mutex_holder [OF assms(1)] assms(2,3) by blast
  then show ?thesis by simp
qed

lemma mutex_lock:
  assumes "mutex_inv env s" "rg_lock s = Some (p, c)"
  shows "healthy env p" "rg_pc s p \<in> {RWrite, RDone}" "c \<in> {LockEmpty, LockData (lock_payload (rv_info env p))}"
  using assms unfolding mutex_inv_def by blast+

lemma after_read_live:
  assumes "mutex_inv env s" and "rg_pc s p = RRead"
  shows "after_read env p (rg_lock s) \<notin> {RUnlink, RWrite, RDone}"
proof (cases "rg_lock s")
  case None
  then show ?thesis by (simp add: after_read_def)
next
  case (Some l)
  obtain q c where l: "l = (q, c)" by fastforce
  note h = mutex_lock [OF assms(1) Some [unfolded l]]
  then have "q \<noteq> p" using assms(2) by auto
  then show ?thesis using h Some l parse_own_lock [of "rv_info env q"]
    by (auto simp: after_read_def parse_lock_def healthy_def stale_def)
qed

lemma mutex_goto:
  assumes "mutex_inv env s" "rg_pc s p \<notin> {RWrite, RDone}" "l \<notin> {RUnlink, RWrite, RDone}"
  shows "mutex_inv env (goto p l s)"
  unfolding mutex_inv_def
proof (intro conjI allI impI)
  fix q assume "rg_pc (goto p l s) q \<in> {RWrite, RDone}"
  then have "rg_pc s q \<in> {RWrite, RDone}" using assms(3) by (simp add: goto_def split: if_splits)
  then show "\<exists>c. rg_lock (goto p l s) = Some (q, c)" using mutex_holder [OF assms(1)] by (simp add: goto_def)
next
  fix q c assume "rg_lock (goto p l s) = Some (q, c)"
  then have c: "rg_lock s = Some (q, c)" by (simp add: goto_def)
  note h = mutex_lock [OF assms(1) c]
  then have "q \<noteq> p" using assms(2) by auto
  then show "healthy env q" "rg_pc (goto p l s) q \<in> {RWrite, RDone}" "c \<in> {LockEmpty, LockData (lock_payload (rv_info env q))}"
    using h by (simp_all add: goto_def)
next
  fix q show "rg_pc (goto p l s) q \<noteq> RUnlink" using assms(1,3) by (simp add: goto_def mutex_inv_def)
qed

lemma mutex_own:
  assumes inv: "mutex_inv env s" and h: "healthy env p" and "l \<in> {RWrite, RDone}"
    and c: "c \<in> {LockEmpty, LockData (lock_payload (rv_info env p))}"
    and others: "\<And>q. q \<noteq> p \<Longrightarrow> rg_pc s q \<notin> {RWrite, RDone}"
  shows "mutex_inv env (goto p l (s\<lparr>rg_lock := Some (p, c)\<rparr>))"
  unfolding mutex_inv_def
proof (intro conjI allI impI)
  fix q assume "rg_pc (goto p l (s\<lparr>rg_lock := Some (p, c)\<rparr>)) q \<in> {RWrite, RDone}"
  then have "q = p" using others [of q] by (cases "q = p") (simp_all add: goto_def)
  then show "\<exists>c'. rg_lock (goto p l (s\<lparr>rg_lock := Some (p, c)\<rparr>)) = Some (q, c')" by (simp add: goto_def)
next
  fix q c' assume "rg_lock (goto p l (s\<lparr>rg_lock := Some (p, c)\<rparr>)) = Some (q, c')"
  then have "q = p" "c' = c" by (simp_all add: goto_def)
  then show "healthy env q" "rg_pc (goto p l (s\<lparr>rg_lock := Some (p, c)\<rparr>)) q \<in> {RWrite, RDone}"
    "c' \<in> {LockEmpty, LockData (lock_payload (rv_info env q))}"
    using assms by (simp_all add: goto_def)
next
  fix q show "rg_pc (goto p l (s\<lparr>rg_lock := Some (p, c)\<rparr>)) q \<noteq> RUnlink"
    using inv assms(3) by (auto simp: goto_def mutex_inv_def)
qed

lemma mutex_create:
  assumes "mutex_inv env s" "healthy env p" "rg_lock s = None"
  shows "mutex_inv env (goto p RWrite (s\<lparr>rg_lock := Some (p, LockEmpty)\<rparr>))"
proof (rule mutex_own [OF assms(1,2)])
  show "rg_pc s q \<notin> {RWrite, RDone}" for q using mutex_holder [OF assms(1), of q] assms(3) by auto
qed simp_all

lemma mutex_step:
  assumes inv: "mutex_inv env s" and h: "healthy env p"
  shows "mutex_inv env (reg_step env p s)"
proof (cases "rg_pc s p")
  case RRead
  then have "mutex_inv env (goto p (after_read env p (rg_lock s)) s)"
    by (intro mutex_goto [OF inv] after_read_live [OF inv RRead]) simp
  then show ?thesis by (simp add: reg_step_def RRead)
next
  case RWrite
  then obtain c where c: "rg_lock s = Some (p, c)" using mutex_holder [OF inv] by blast
  have "rg_pc s q \<notin> {RWrite, RDone}" if "q \<noteq> p" for q
    using mutex_unique [OF inv, of p q] RWrite that by auto
  then have "mutex_inv env (goto p RDone (s\<lparr>rg_lock := Some (p, LockData (lock_payload (rv_info env p)))\<rparr>))"
    by (intro mutex_own [OF inv h]) simp_all
  then show ?thesis by (simp add: reg_step_def RWrite c)
next
  case RUnlink
  then show ?thesis using inv by (simp add: mutex_inv_def)
next
  case RCreate
  show ?thesis
  proof (cases "rg_lock s")
    case None
    then show ?thesis using mutex_create [OF inv h None] by (simp add: reg_step_def RCreate)
  next
    case (Some l)
    then show ?thesis using mutex_goto [OF inv, of p RRead] by (simp add: reg_step_def RCreate)
  qed
next
  case RRetry
  show ?thesis
  proof (cases "rg_lock s")
    case None
    then show ?thesis using mutex_create [OF inv h None] by (simp add: reg_step_def RRetry)
  next
    case (Some l)
    then show ?thesis using mutex_goto [OF inv, of p "RExit acquire_failed"] by (simp add: reg_step_def RRetry)
  qed
qed (use inv in \<open>simp_all add: reg_step_def\<close>)

lemma mutex_run:
  assumes "mutex_inv env s" and "list_all (healthy env) sched"
  shows "mutex_inv env (fold (reg_step env) sched s)"
  using assms by (induction sched arbitrary: s) (auto intro: mutex_step)

text \<open>
  C28. Mutual exclusion without a stale lock: when live campaigns start with no lock file, then
  whatever the interleaving of their calls, at most one of them registers.
\<close>

theorem register_mutex:
  assumes "list_all (healthy env) sched"
    and "rg_pc (fold (reg_step env) sched (reg_init None)) p = RDone"
    and "rg_pc (fold (reg_step env) sched (reg_init None)) q = RDone"
  shows "p = q"
proof -
  have "mutex_inv env (reg_init None)" by (simp add: mutex_inv_def reg_init_def)
  from mutex_unique [OF mutex_run [OF this assms(1)]] assms(2,3) show ?thesis by simp
qed

theorem register_mutex_witness:
  "rg_pc (fold (reg_step sample_env) [1, 2, 1, 2, 2] (reg_init None)) 1 = RDone \<and>
   rg_pc (fold (reg_step sample_env) [1, 2, 1, 2, 2] (reg_init None)) 2 \<noteq> RDone"
proof -
  have "list_all (healthy sample_env) [1, 2, 1, 2, 2]" by code_simp
  moreover have "rg_pc (fold (reg_step sample_env) [1, 2, 1, 2, 2] (reg_init None)) 1 = RDone" by code_simp
  ultimately show ?thesis using register_mutex [of sample_env "[1, 2, 1, 2, 2]" 2 1] by auto
qed

text \<open>
  With a stale lock there is no mutual exclusion. Two campaigns find the lock of a dead process;
  one replaces it and registers, and the other, which had judged the old lock, unlinks the new one
  and registers as well.
\<close>

theorem stale_lock_race:
  "let s = fold (reg_step sample_env) [1, 2, 1, 2, 1, 1, 1, 2, 2, 2] (reg_init (Some (9, LockData (lock_payload (sample_info 9))))) in
     rg_pc s 1 = RDone \<and> rg_pc s 2 = RDone"
  by code_simp

text \<open>A lock file that cannot be read is never removed: every registration fails until it is deleted by hand.\<close>

lemma unreadable_lock_blocks:
  assumes "rs_lock sys = Some c" and "parse_lock c = None"
  shows "register_active_run r sys = (Some acquire_failed, sys)"
  using assms by (simp add: register_active_run_def write_run_lock_exclusive_def write_or_exit_def read_active_run_def)

lemma some_dead: "list_all id bs \<longleftrightarrow> False \<notin> set bs"
  by (induction bs) auto

lemma signal_zero:
  "fst (signal_and_wait force env sys) = 0 \<Longrightarrow>
   rs_lock (snd (signal_and_wait force env sys)) = None \<and>
   (False \<in> set (se_polls env) \<or> force \<and> (se_kill env = NoProcess \<or> False \<in> set (se_kill_polls env)))"
  by (cases "se_term env"; cases "se_kill env"; cases "list_all id (se_polls env)"; cases force)
    (simp_all add: signal_and_wait_def force_kill_def clear_active_run_def some_dead split: if_splits)

lemma read_active_Some:
  "read_active_run me sys = (Some e, sys') \<Longrightarrow> \<exists>c. rs_lock sys = Some c \<and> parse_lock c = Some e \<and> \<not> stale sys me e"
  by (auto simp: read_active_run_def split: option.splits if_splits)

text \<open>
  Stopping: the exit code 0 is given only if the process was seen gone, and then the lock is
  removed; the own run is never signalled; with no readable lock of a live campaign the code is 2.
\<close>

theorem graceful_stop_outcome:
  "(fst (request_graceful_stop force env me sys) = 0 \<longrightarrow>
      rs_lock (snd (request_graceful_stop force env me sys)) = None \<and>
      (False \<in> set (se_polls env) \<or> force \<and> (se_kill env = NoProcess \<or> False \<in> set (se_kill_polls env))) \<and>
      (\<exists>c e. rs_lock sys = Some c \<and> parse_lock c = Some e \<and> ri_pid e \<noteq> me \<and> \<not> stale sys me e)) \<and>
   (fst (read_active_run me sys) = None \<or> map_option ri_pid (fst (read_active_run me sys)) = Some me \<longrightarrow>
      fst (request_graceful_stop force env me sys) = 2)"
proof (cases "read_active_run me sys")
  case (Pair info sys')
  show ?thesis
  proof (cases "info = None \<or> map_option ri_pid info = Some me")
    case True
    then show ?thesis using Pair by (auto simp: request_graceful_stop_def)
  next
    case False
    then obtain e where e: "info = Some e" "ri_pid e \<noteq> me" by auto
    then have "request_graceful_stop force env me sys = signal_and_wait force env sys'"
      using Pair by (simp add: request_graceful_stop_def)
    then show ?thesis using signal_zero [of force env sys'] read_active_Some [of me sys e sys'] Pair e by auto
  qed
qed

theorem graceful_stop_outcome_witness:
  "fst (request_graceful_stop False \<lparr>se_term = Killed, se_polls = [True, False], se_kill = Killed, se_kill_polls = []\<rparr> 1
      (sample_sys\<lparr>rs_alive := (\<lambda>_. True)\<rparr>)) = 0 \<and>
   rs_lock (snd (request_graceful_stop False \<lparr>se_term = Killed, se_polls = [True, False], se_kill = Killed, se_kill_polls = []\<rparr> 1
      (sample_sys\<lparr>rs_alive := (\<lambda>_. True)\<rparr>))) = None"
proof -
  let ?e = "\<lparr>se_term = Killed, se_polls = [True, False], se_kill = Killed, se_kill_polls = []\<rparr>"
  have "fst (request_graceful_stop False ?e 1 (sample_sys\<lparr>rs_alive := (\<lambda>_. True)\<rparr>)) = 0" by code_simp
  then show ?thesis using graceful_stop_outcome [of False ?e 1 "sample_sys\<lparr>rs_alive := (\<lambda>_. True)\<rparr>"] by blast
qed

end
