(* ===== verification/BlobAliases.thy ===== *)
theory BlobAliases
  imports PyRegex TriagePrune
begin

text \<open>
  \<^verbatim>\<open>engine/blob_aliases.py\<close>: from the blob names of a strategy to files, to the \<^verbatim>\<open>--blob\<close> lines of an
  nfqws2 configuration and to the names nfqws2 accepts. The file system and the configured
  directories are a record of functions; warnings are left out.
\<close>

section \<open>Files\<close>

record blob_env =
  be_isfile :: "string \<Rightarrow> bool"
  be_isdir :: "string \<Rightarrow> bool"
  be_listdir :: "string \<Rightarrow> string list"
  be_blob_dir :: string
  be_repo_blobs_dir :: string
  be_project_dir :: string
  be_zapret2_root :: string
  be_fake_files_env :: "string option"

definition path_join :: "string \<Rightarrow> string \<Rightarrow> string" where
  "path_join a b =
     (if startswith b ''/'' then b
      else if a = [] \<or> endswith a ''/'' then a @ b else a @ ''/'' @ b)"

definition FAKE_FILES_DIR :: "blob_env \<Rightarrow> string" where
  "FAKE_FILES_DIR env =
     (case be_fake_files_env env of
        Some d \<Rightarrow> d | None \<Rightarrow> path_join (path_join (be_zapret2_root env) ''files'') ''fake'')"

definition OPT_BLOBS :: "blob_env \<Rightarrow> string" where
  "OPT_BLOBS env = path_join (be_zapret2_root env) ''blobs''"

definition BUILTIN_BLOBS :: "string list" where
  "BUILTIN_BLOBS = [''fake_default_tls'', ''fake_default_http'', ''fake_default_quic'']"

definition or_dir :: "string option \<Rightarrow> string \<Rightarrow> string" where
  "or_dir d dflt = (case d of Some (c # cs) \<Rightarrow> c # cs | _ \<Rightarrow> dflt)"

definition search_bases :: "blob_env \<Rightarrow> string option \<Rightarrow> string list" where
  "search_bases env blobs_dir =
     foldl (\<lambda>bases c. if c \<noteq> [] \<and> c \<notin> set bases then bases @ [c] else bases) []
       [or_dir blobs_dir (be_blob_dir env), be_repo_blobs_dir env, path_join (be_project_dir env) ''blobs'',
        OPT_BLOBS env, FAKE_FILES_DIR env]"

fun first_some :: "('a \<Rightarrow> 'b option) \<Rightarrow> 'a list \<Rightarrow> 'b option" where
  "first_some f [] = None"
| "first_some f (x # xs) = (case f x of Some y \<Rightarrow> Some y | None \<Rightarrow> first_some f xs)"

definition is_bin :: "string \<Rightarrow> bool" where
  "is_bin f = endswith f ''.bin''"

definition stem :: "string \<Rightarrow> string" where
  "stem f = take (length f - 4) f"

text \<open>The loop over the bases for a name without an existing mapped file.\<close>

definition fuzzy_candidates :: "blob_env \<Rightarrow> string \<Rightarrow> string \<Rightarrow> string list" where
  "fuzzy_candidates env name base =
     (let known = sort (filter is_bin (be_listdir env base));
          candidates = filter (\<lambda>f. contains name f \<and> \<not> contains ''quic_initial'' f) known
      in if candidates = [] then filter (contains name) known else candidates)"

definition fuzzy_in :: "blob_env \<Rightarrow> string \<Rightarrow> string \<Rightarrow> string option" where
  "fuzzy_in env name base =
     (if \<not> be_isdir env base then None
      else (let exact = path_join base (name @ ''.bin'')
            in if be_isfile env exact then Some exact
               else (case fuzzy_candidates env name base of [] \<Rightarrow> None | f # _ \<Rightarrow> Some (path_join base f))))"

definition mapped_in :: "blob_env \<Rightarrow> string \<Rightarrow> string \<Rightarrow> string \<Rightarrow> string option" where
  "mapped_in env name mapped base =
     (if \<not> be_isdir env base then None
      else map_option (path_join base)
             (find (\<lambda>f. is_bin f \<and> (stem f = stem mapped \<or> contains name (stem f))) (be_listdir env base)))"

function resolve_blob_path :: "blob_env \<Rightarrow> string option \<Rightarrow> string \<Rightarrow> string option" where
  "resolve_blob_path env blobs_dir name =
     (if name \<in> set BUILTIN_BLOBS \<or> name = ''0x00000000'' then None
      else (let bases = search_bases env blobs_dir;
                mapped = dict_get BLOB_ALIAS_MAP name
            in case (case mapped of None \<Rightarrow> None
                     | Some m \<Rightarrow> find (be_isfile env) (map (\<lambda>b. path_join b m) bases)) of
                 Some path \<Rightarrow> Some path
               | None \<Rightarrow>
                   if name \<noteq> [] \<and> startswith name ''b'' \<and> dict_get BLOB_ALIAS_MAP (tl name) \<noteq> None
                   then resolve_blob_path env blobs_dir (tl name)
                   else (case first_some (fuzzy_in env name) bases of
                           Some path \<Rightarrow> Some path
                         | None \<Rightarrow>
                             (case mapped of None \<Rightarrow> None
                              | Some m \<Rightarrow> first_some (mapped_in env name m) bases))))"
  by pat_completeness auto
termination
  by (relation "measure (\<lambda>(env, d, name). length name)") auto

declare resolve_blob_path.simps [simp del]

section \<open>Names in strategies\<close>

definition BLOB_NAME_RE :: re where
  "BLOB_NAME_RE =
     RSeq (ranyof [''blob'', ''pattern'', ''seqovl_pattern'']) (RSeq (rlit ''='') (RGroup 1 (rplus is_word)))"

definition extract_blob_names :: "string list \<Rightarrow> string list" where
  "extract_blob_names strategies =
     foldl add_new [] (filter (\<lambda>n. n \<noteq> ''0x00000000'') (concat (map (re_findall BLOB_NAME_RE) strategies)))"

text \<open>\<^verbatim>\<open>re.match\<close> with the anchored expression: it may still end before a final line end.\<close>

definition BLOB_SAFE_RE :: re where
  "BLOB_SAFE_RE =
     RSeq RStart (RSeq (RCls (\<lambda>c. is_ascii_letter c \<or> c = CHR ''_'')) (RSeq (RStar is_ident) REnd))"

definition safe_blob_name :: "string \<Rightarrow> string" where
  "safe_blob_name name = (if re_run BLOB_SAFE_RE ([], name) \<noteq> [] then name else ''b'' @ name)"

section \<open>Configuration lines\<close>

definition blob_prefix :: "string \<Rightarrow> string" where
  "blob_prefix ident = ''--blob='' @ ident @ '':@''"

definition blob_cli_line :: "blob_env \<Rightarrow> string option \<Rightarrow> string \<Rightarrow> string option" where
  "blob_cli_line env blobs_dir name =
     (if name = ''0x00000000'' then None
      else (case resolve_blob_path env blobs_dir name of
              Some (c # path) \<Rightarrow> Some (blob_prefix name @ c # path) | _ \<Rightarrow> None))"

text \<open>\<open>s.split(p, 1)[1]\<close>, which raises \<open>IndexError\<close> when \<open>p\<close> does not occur.\<close>

fun after_sub :: "string \<Rightarrow> string \<Rightarrow> string result" where
  "after_sub p [] = Inl IndexError"
| "after_sub p (x # xs) = (if startswith (x # xs) p then Inr (drop (length p) (x # xs)) else after_sub p xs)"

definition append_blob_line ::
    "blob_env \<Rightarrow> string option \<Rightarrow> string list \<times> (string, string) dict \<Rightarrow> string \<Rightarrow>
     (string list \<times> (string, string) dict) result" where
  "append_blob_line env blobs_dir st name =
     (let (lines, renames) = st;
          safe = dict_getd renames name (safe_blob_name name);
          renames = (if dict_get renames name = None then dict_set name safe renames else renames)
      in if safe = [] then Inr (lines, renames)
         else if list_ex (\<lambda>line. startswith line (blob_prefix safe)) lines then Inr (lines, renames)
         else (case blob_cli_line env blobs_dir name of
                 Some cli \<Rightarrow>
                   bind_result (after_sub '':@'' cli) (\<lambda>path. Inr (lines @ [blob_prefix safe @ path], renames))
               | None \<Rightarrow> Inr (lines, dict_set name [] renames)))"

fun append_blob_cli_lines ::
    "blob_env \<Rightarrow> string option \<Rightarrow> string list \<Rightarrow> string list \<times> (string, string) dict \<Rightarrow>
     (string list \<times> (string, string) dict) result" where
  "append_blob_cli_lines env blobs_dir [] st = Inr st"
| "append_blob_cli_lines env blobs_dir (name # names) st =
     bind_result (append_blob_line env blobs_dir st name) (append_blob_cli_lines env blobs_dir names)"

text \<open>
  \<open>re.sub\<close> with a replacement that depends on the match; the text read so far is reversed in
  \<open>b\<close>. After an empty match the next character is copied.
\<close>

function re_sub_from :: "re \<Rightarrow> (caps \<Rightarrow> string) \<Rightarrow> string \<Rightarrow> string \<Rightarrow> string" where
  "re_sub_from r f b a =
     (case re_run r (b, a) of
        (c, b', a') # _ \<Rightarrow>
          (if length a' < length a then f c @ re_sub_from r f b' a'
           else f c @ (case a of [] \<Rightarrow> [] | x # xs \<Rightarrow> x # re_sub_from r f (x # b) xs))
      | [] \<Rightarrow> (case a of [] \<Rightarrow> [] | x # xs \<Rightarrow> x # re_sub_from r f (x # b) xs))"
  by pat_completeness auto
termination
  by (relation "measure (\<lambda>(r, f, b, a). length a)") auto

declare re_sub_from.simps [simp del]

definition rename_re :: "string \<Rightarrow> re" where
  "rename_re orig =
     RSeq (RGroup 1 (RSeq (ranyof [''blob'', ''pattern'', ''seqovl_pattern'']) (rlit ''='')))
          (RSeq (rlit orig) RBound)"

definition apply_blob_renames :: "string \<Rightarrow> (string, string) dict \<Rightarrow> string" where
  "apply_blob_renames strategy renames =
     foldl (\<lambda>s (orig, safe).
        if orig = [] \<or> safe = [] \<or> orig = safe then s
        else re_sub_from (rename_re orig) (\<lambda>c. group 1 c @ safe) [] s) strategy renames"

definition sanitize_strategy_for_nfqws2 ::
    "blob_env \<Rightarrow> string option \<Rightarrow> string list \<Rightarrow> string \<Rightarrow> string list \<Rightarrow> (string list \<times> string) result" where
  "sanitize_strategy_for_nfqws2 env blobs_dir extra_names strategy lines =
     (let names = foldl add_new [] (filter (\<lambda>n. n \<noteq> []) extra_names);
          names = foldl add_new names (extract_blob_names [strategy])
      in bind_result (append_blob_cli_lines env (Some (or_dir blobs_dir (be_blob_dir env))) names (lines, []))
           (\<lambda>(lines, renames). Inr (lines, apply_blob_renames strategy renames)))"

definition blob_cli_lines :: "blob_env \<Rightarrow> string option \<Rightarrow> string list \<Rightarrow> string list result" where
  "blob_cli_lines env blobs_dir names =
     bind_result (append_blob_cli_lines env blobs_dir names ([], [])) (\<lambda>(out, renames). Inr out)"

section \<open>Export\<close>

definition strip_b :: "string \<Rightarrow> string" where
  "strip_b name = (if startswith name ''b'' \<and> dict_get BLOB_ALIAS_MAP (tl name) \<noteq> None then tl name else name)"

definition blob_export_filename :: "string \<Rightarrow> string option" where
  "blob_export_filename name =
     (if name \<in> set BUILTIN_BLOBS \<or> name = ''0x00000000'' then None
      else (case dict_get BLOB_ALIAS_MAP (strip_b name) of
              Some f \<Rightarrow> Some f
            | None \<Rightarrow> (case dict_get BLOB_ALIAS_MAP name of Some f \<Rightarrow> Some f | None \<Rightarrow> Some (strip_b name @ ''.bin''))))"

definition blob_export_cli_line :: "string \<Rightarrow> string \<Rightarrow> string option" where
  "blob_export_cli_line name pre =
     (case blob_export_filename name of
        None \<Rightarrow> None
      | Some fname \<Rightarrow>
          (let orig = strip_b name;
               ident = (if dict_get BLOB_ALIAS_MAP orig \<noteq> None then safe_blob_name orig else name)
           in Some (''--blob='' @ ident @ '':@'' @ pre @ ''/blobs/'' @ fname)))"

section \<open>Resolution finds existing files\<close>

lemma first_some_Some: "first_some f xs = Some y \<Longrightarrow> \<exists>x \<in> set xs. f x = Some y"
  by (induction xs) (auto split: option.splits)

text \<open>What the resolver relies on: a listed entry with the suffix is a regular file.\<close>

definition bins_are_files :: "blob_env \<Rightarrow> bool" where
  "bins_are_files env = (\<forall>base f. f \<in> set (be_listdir env base) \<longrightarrow> is_bin f \<longrightarrow> be_isfile env (path_join base f))"

lemma fuzzy_candidates_files:
  "f \<in> set (fuzzy_candidates env name base) \<Longrightarrow> f \<in> set (be_listdir env base) \<and> is_bin f"
  by (auto simp: fuzzy_candidates_def Let_def split: if_splits)

lemma fuzzy_in_file:
  assumes "bins_are_files env" and "fuzzy_in env name base = Some p"
  shows "be_isfile env p"
proof (cases "be_isfile env (path_join base (name @ ''.bin''))")
  case True
  with assms(2) show ?thesis by (simp add: fuzzy_in_def split: if_splits)
next
  case False
  with assms(2) obtain f fs where "fuzzy_candidates env name base = f # fs" and p: "p = path_join base f"
    by (auto simp: fuzzy_in_def Let_def split: if_splits list.splits)
  then have "f \<in> set (fuzzy_candidates env name base)" by simp
  with fuzzy_candidates_files assms(1) p show ?thesis by (simp add: bins_are_files_def)
qed

lemma mapped_in_file:
  assumes "bins_are_files env" and "mapped_in env name m base = Some p"
  shows "be_isfile env p"
  using assms by (auto simp: mapped_in_def bins_are_files_def find_Some_iff split: if_splits)

lemma find_isfile: "find (be_isfile env) xs = Some p \<Longrightarrow> be_isfile env p"
  by (auto simp: find_Some_iff)

lemma resolve_file:
  "bins_are_files env \<Longrightarrow> resolve_blob_path env d name = Some p \<Longrightarrow> be_isfile env p"
proof (induction env d name rule: resolve_blob_path.induct)
  case (1 env d name)
  let ?mapped = "dict_get BLOB_ALIAS_MAP name" and ?bases = "search_bases env d"
  have unfolded: "resolve_blob_path env d name = Some p" by (rule 1(3))
  show ?case
  proof (rule ccontr)
    assume no: "\<not> be_isfile env p"
    have f: "find (be_isfile env) xs \<noteq> Some p" for xs using no find_isfile by blast
    have fz: "first_some (fuzzy_in env name) bs \<noteq> Some p" for bs
      using no first_some_Some fuzzy_in_file [OF 1(2)] by metis
    have mp: "first_some (mapped_in env name m) bs \<noteq> Some p" for m bs
      using no first_some_Some mapped_in_file [OF 1(2)] by metis
    have rec: "resolve_blob_path env d (tl name) \<noteq> Some p"
      if "name \<notin> set BUILTIN_BLOBS \<and> name \<noteq> ''0x00000000''"
        "(case ?mapped of None \<Rightarrow> None | Some m \<Rightarrow> find (be_isfile env) (map (\<lambda>b. path_join b m) ?bases)) = None"
        "name \<noteq> [] \<and> startswith name ''b'' \<and> dict_get BLOB_ALIAS_MAP (tl name) \<noteq> None"
      using 1(1) [OF _ refl refl that(2,3) 1(2)] that(1) no by blast
    show False
      using unfolded f fz mp rec
      by (subst (asm) resolve_blob_path.simps) (auto simp: Let_def split: if_splits option.splits)
  qed
qed

text \<open>
  Blob resolution. Built-in names and the zero pattern resolve to nothing. An alias whose
  file exists in a search directory resolves to that file in the first directory that has it.
  Whatever a name resolves to, by alias, exact name or fuzzy match, is an existing file.
\<close>

theorem resolve_blob_path_correct:
  assumes "bins_are_files env"
  shows "(name \<in> set BUILTIN_BLOBS \<or> name = ''0x00000000'' \<longrightarrow> resolve_blob_path env d name = None) \<and>
         (\<forall>m b. name \<notin> set BUILTIN_BLOBS \<and> name \<noteq> ''0x00000000'' \<and> dict_get BLOB_ALIAS_MAP name = Some m \<and>
                b \<in> set (search_bases env d) \<and> be_isfile env (path_join b m) \<longrightarrow>
            resolve_blob_path env d name = find (be_isfile env) (map (\<lambda>b. path_join b m) (search_bases env d))) \<and>
         (\<forall>p. resolve_blob_path env d name = Some p \<longrightarrow> be_isfile env p)"
proof (intro conjI allI impI)
  fix p
  assume "resolve_blob_path env d name = Some p"
  then show "be_isfile env p" using resolve_file [OF assms] by blast
next
  fix m b
  assume a: "name \<notin> set BUILTIN_BLOBS \<and> name \<noteq> ''0x00000000'' \<and> dict_get BLOB_ALIAS_MAP name = Some m \<and>
                b \<in> set (search_bases env d) \<and> be_isfile env (path_join b m)"
  have "find (be_isfile env) (map (\<lambda>b. path_join b m) (search_bases env d)) \<noteq> None"
    using a by (auto simp: find_None_iff)
  then obtain q where "find (be_isfile env) (map (\<lambda>b. path_join b m) (search_bases env d)) = Some q" by blast
  then show "resolve_blob_path env d name = find (be_isfile env) (map (\<lambda>b. path_join b m) (search_bases env d))"
    using a by (simp add: resolve_blob_path.simps [of env d name] Let_def)
qed (simp add: resolve_blob_path.simps)

definition sample_blob_env :: blob_env where
  "sample_blob_env =
     \<lparr>be_isfile = (\<lambda>p. p \<in> set [''/r/stun.bin'', ''/o/blobs/stun.bin'']),
      be_isdir = (\<lambda>p. p = ''/r''), be_listdir = (\<lambda>p. if p = ''/r'' then [''stun.bin''] else []),
      be_blob_dir = ''/b'', be_repo_blobs_dir = ''/r'', be_project_dir = ''/p'', be_zapret2_root = ''/o'',
      be_fake_files_env = None\<rparr>"

lemma sample_bins: "bins_are_files sample_blob_env"
  by (simp add: bins_are_files_def sample_blob_env_def path_join_def startswith_def endswith_def)

theorem resolve_blob_path_correct_witness:
  "bins_are_files sample_blob_env \<and> resolve_blob_path sample_blob_env None ''stun'' = Some ''/r/stun.bin'' \<and>
   be_isfile sample_blob_env ''/r/stun.bin''"
proof -
  have m: "dict_get BLOB_ALIAS_MAP ''stun'' = Some ''stun.bin''"
    and b: "''stun'' \<notin> set BUILTIN_BLOBS" "''/r'' \<in> set (search_bases sample_blob_env None)"
      "be_isfile sample_blob_env (path_join ''/r'' ''stun.bin'')"
    and f: "find (be_isfile sample_blob_env) (map (\<lambda>b. path_join b ''stun.bin'') (search_bases sample_blob_env None))
            = Some ''/r/stun.bin''"
    by code_simp+
  have "resolve_blob_path sample_blob_env None ''stun'' = Some ''/r/stun.bin''"
    using resolve_blob_path_correct [OF sample_bins, of "''stun''" None] m b f by auto
  then show ?thesis using sample_bins resolve_blob_path_correct [OF sample_bins, of "''stun''" None] by blast
qed

section \<open>Declared identifiers\<close>

definition nfqws2_ident :: "string \<Rightarrow> bool" where
  "nfqws2_ident i = (case i of [] \<Rightarrow> False | c # _ \<Rightarrow> (is_ascii_letter c \<or> c = CHR ''_'') \<and> list_all is_ident i)"

lemma safe_blob_name_ident:
  assumes "list_all is_ident name"
  shows "nfqws2_ident (safe_blob_name name)"
proof (cases "re_run BLOB_SAFE_RE ([], name) \<noteq> []")
  case True
  then obtain c r where "name = c # r" "is_ascii_letter c \<or> c = CHR ''_''"
    by (cases name) (auto simp: BLOB_SAFE_RE_def split: if_splits)
  with True assms show ?thesis by (simp add: safe_blob_name_def nfqws2_ident_def)
next
  case False
  have "is_ascii_letter CHR ''b''" by code_simp
  with False assms show ?thesis by (simp add: safe_blob_name_def nfqws2_ident_def is_ident_def)
qed

lemma safe_not_Nil [simp]: "safe_blob_name name \<noteq> []"
proof
  assume "safe_blob_name name = []"
  then have "name = []" "re_run BLOB_SAFE_RE ([], name) \<noteq> []" by (auto simp: safe_blob_name_def split: if_splits)
  then show False by (simp add: BLOB_SAFE_RE_def)
qed

lemma after_sub_prefix:
  assumes "CHR '':'' \<notin> set pre" and "pre' = pre @ '':@''"
  shows "after_sub '':@'' (pre' @ r) = Inr r"
  using assms
proof (induction pre arbitrary: pre')
  case Nil
  then show ?case by (simp add: startswith_def)
next
  case (Cons x pre)
  then show ?case by (auto simp: startswith_def)
qed

lemma ident_no_colon: "list_all is_ident name \<Longrightarrow> CHR '':'' \<notin> set name"
proof
  assume "list_all is_ident name" "CHR '':'' \<in> set name"
  then have "is_ident CHR '':''" by (simp add: list_all_iff)
  moreover have "\<not> is_ident CHR '':''" by code_simp
  ultimately show False by simp
qed

lemma after_sub_blob_prefix:
  "list_all is_ident name \<Longrightarrow> after_sub '':@'' (blob_prefix name @ path) = Inr path"
  using ident_no_colon [of name]
  by (intro after_sub_prefix [of "''--blob='' @ name"]) (simp_all add: blob_prefix_def)

definition declared :: "string \<Rightarrow> string list \<Rightarrow> bool" where
  "declared ident lines = list_ex (\<lambda>line. startswith line (blob_prefix ident)) lines"

definition blob_lines_of :: "(string \<times> string) list \<Rightarrow> string list" where
  "blob_lines_of adds = map (\<lambda>(i, p). blob_prefix i @ p) adds"

definition rename_ok :: "blob_env \<Rightarrow> string option \<Rightarrow> string list \<Rightarrow> (string, string) dict \<Rightarrow> string \<Rightarrow> bool" where
  "rename_ok env d lines renames n =
     (case dict_get renames n of
        None \<Rightarrow> False
      | Some safe \<Rightarrow> (safe = [] \<and> blob_cli_line env d n = None) \<or> (safe = safe_blob_name n \<and> declared safe lines))"

definition adds_ok :: "blob_env \<Rightarrow> string option \<Rightarrow> string list \<Rightarrow> (string \<times> string) list \<Rightarrow> bool" where
  "adds_ok env d names adds =
     (distinct (map fst adds) \<and>
      list_all (\<lambda>(i, p). nfqws2_ident i \<and> (\<exists>n \<in> set names. i = safe_blob_name n \<and> resolve_blob_path env d n = Some p)) adds)"

lemma blob_cli_line_Some:
  "blob_cli_line env d n = Some cli \<Longrightarrow> \<exists>p. resolve_blob_path env d n = Some p \<and> cli = blob_prefix n @ p"
  by (auto simp: blob_cli_line_def split: if_splits option.splits list.splits)

lemma declared_append [simp]: "declared i (xs @ ys) \<longleftrightarrow> declared i xs \<or> declared i ys"
  by (auto simp: declared_def list_ex_iff)

lemma declared_own: "declared i [blob_prefix i @ p]"
  by (simp add: declared_def startswith_def)

lemma declared_adds: "(i, p) \<in> set adds \<Longrightarrow> declared i (blob_lines_of adds)"
  by (force simp: declared_def blob_lines_of_def list_ex_iff startswith_def)

text \<open>
  The state of the loop after the names \<open>seen\<close>: every name met has an answer, and no other name
  has one.
\<close>

definition blob_loop_inv ::
    "blob_env \<Rightarrow> string option \<Rightarrow> string list \<Rightarrow> string list \<Rightarrow> (string \<times> string) list \<Rightarrow> (string, string) dict \<Rightarrow> bool" where
  "blob_loop_inv env d lines seen adds renames =
     (adds_ok env d seen adds \<and> (\<forall>n \<in> set seen. rename_ok env d (lines @ blob_lines_of adds) renames n) \<and>
      (\<forall>n. dict_get renames n \<noteq> None \<longrightarrow> n \<in> set seen))"

lemma rename_ok_mono:
  assumes "rename_ok env d lines renames n" and "n \<noteq> name" and "map_of renames' = (map_of renames)(name \<mapsto> v)"
  shows "rename_ok env d (lines @ extra) renames' n"
  using assms by (auto simp: rename_ok_def split: option.splits)

lemma blob_loop_inv_extend:
  assumes inv: "blob_loop_inv env d lines seen adds renames"
    and name: "name \<notin> set seen"
    and upd: "map_of renames' = (map_of renames)(name \<mapsto> v)"
    and adds: "adds_ok env d (seen @ [name]) (adds @ new)"
    and ok: "rename_ok env d (lines @ blob_lines_of (adds @ new)) renames' name"
  shows "blob_loop_inv env d lines (seen @ [name]) (adds @ new) renames'"
proof -
  have "rename_ok env d (lines @ blob_lines_of (adds @ new)) renames' n" if "n \<in> set seen" for n
    using rename_ok_mono [OF _ _ upd, of env d "lines @ blob_lines_of adds" n "blob_lines_of new"] inv that name
    by (auto simp: blob_loop_inv_def blob_lines_of_def)
  then show ?thesis using inv upd adds ok by (auto simp: blob_loop_inv_def split: if_splits)
qed

lemma adds_ok_more: "adds_ok env d seen adds \<Longrightarrow> adds_ok env d (seen @ [name]) adds"
  by (auto simp: adds_ok_def list_all_iff)

lemma append_blob_line_inv:
  assumes inv: "blob_loop_inv env d lines seen adds renames" and name: "list_all is_ident name"
  shows "\<exists>adds' renames'. append_blob_line env d (lines @ blob_lines_of adds, renames) name
                            = Inr (lines @ blob_lines_of adds', renames') \<and>
                          blob_loop_inv env d lines (seen @ [name]) adds' renames'"
proof (cases "dict_get renames name")
  case (Some safe)
  then have "name \<in> set seen" using inv by (auto simp: blob_loop_inv_def)
  then have ok: "rename_ok env d (lines @ blob_lines_of adds) renames name" using inv by (simp add: blob_loop_inv_def)
  have "append_blob_line env d (lines @ blob_lines_of adds, renames) name = Inr (lines @ blob_lines_of adds, renames)"
    using ok Some by (auto simp: append_blob_line_def rename_ok_def dict_getd_def declared_def [symmetric])
  moreover have "blob_loop_inv env d lines (seen @ [name]) adds renames"
    using inv ok by (auto simp: blob_loop_inv_def adds_ok_def list_all_iff)
  ultimately show ?thesis by blast
next
  case None
  then have new: "name \<notin> set seen" using inv by (auto simp: blob_loop_inv_def rename_ok_def)
  have adds: "adds_ok env d (seen @ [name]) adds" using inv adds_ok_more by (simp add: blob_loop_inv_def)
  let ?safe = "safe_blob_name name" and ?lines = "lines @ blob_lines_of adds"
  show ?thesis
  proof (cases "declared ?safe ?lines")
    case True
    then have "append_blob_line env d (?lines, renames) name = Inr (?lines, dict_set name ?safe renames)"
      using None by (simp add: append_blob_line_def dict_getd_def declared_def [symmetric])
    moreover have "blob_loop_inv env d lines (seen @ [name]) (adds @ []) (dict_set name ?safe renames)"
      by (rule blob_loop_inv_extend [OF inv new]) (use True adds in \<open>auto simp: update_conv' rename_ok_def\<close>)
    ultimately show ?thesis by auto
  next
    case undecl: False
    show ?thesis
    proof (cases "blob_cli_line env d name")
      case line: None
      then have "append_blob_line env d (?lines, renames) name
                 = Inr (?lines, dict_set name [] (dict_set name ?safe renames))"
        using None undecl by (simp add: append_blob_line_def dict_getd_def declared_def [symmetric])
      moreover have "blob_loop_inv env d lines (seen @ [name]) (adds @ []) (dict_set name [] (dict_set name ?safe renames))"
        by (rule blob_loop_inv_extend [OF inv new]) (use line adds in \<open>auto simp: update_conv' rename_ok_def\<close>)
      ultimately show ?thesis by auto
    next
      case (Some cli)
      then obtain p where p: "resolve_blob_path env d name = Some p" "cli = blob_prefix name @ p"
        using blob_cli_line_Some by blast
      have "append_blob_line env d (?lines, renames) name
            = Inr (?lines @ [blob_prefix ?safe @ p], dict_set name ?safe renames)"
        using None undecl Some p after_sub_blob_prefix [OF name, of p]
        by (simp add: append_blob_line_def dict_getd_def Let_def declared_def [symmetric])
      then have "append_blob_line env d (?lines, renames) name
            = Inr (lines @ blob_lines_of (adds @ [(?safe, p)]), dict_set name ?safe renames)"
        by (simp add: blob_lines_of_def)
      moreover have "?safe \<notin> set (map fst adds)" using undecl declared_adds by auto
      then have "adds_ok env d (seen @ [name]) (adds @ [(?safe, p)])"
        using adds p(1) safe_blob_name_ident [OF name] by (simp add: adds_ok_def)
      then have "blob_loop_inv env d lines (seen @ [name]) (adds @ [(?safe, p)]) (dict_set name ?safe renames)"
        by (rule blob_loop_inv_extend [OF inv new, rotated])
          (use declared_own in \<open>simp_all add: update_conv' rename_ok_def blob_lines_of_def\<close>)
      ultimately show ?thesis by blast
    qed
  qed
qed

lemma append_blob_cli_lines_inv:
  assumes "blob_loop_inv env d lines seen adds renames" and "list_all (list_all is_ident) names"
  shows "\<exists>adds' renames'. append_blob_cli_lines env d names (lines @ blob_lines_of adds, renames)
                            = Inr (lines @ blob_lines_of adds', renames') \<and>
                          blob_loop_inv env d lines (seen @ names) adds' renames'"
  using assms
proof (induction names arbitrary: seen adds renames)
  case Nil
  then show ?case by auto
next
  case (Cons name names)
  from append_blob_line_inv [OF Cons.prems(1), of name] Cons.prems(2) obtain a1 r1 where
    step: "append_blob_line env d (lines @ blob_lines_of adds, renames) name = Inr (lines @ blob_lines_of a1, r1)"
    and inv: "blob_loop_inv env d lines (seen @ [name]) a1 r1" by auto
  then show ?case using Cons.IH [OF inv] Cons.prems(2) by simp
qed

text \<open>
  Declaring the blobs of a strategy. For names made of ASCII letters, digits and underscores
  the function never fails. It appends lines for distinct identifiers, each accepted by nfqws2
  (no leading digit) and pointing at the resolved file of one of the names; and the returned
  renames answer every name: either with the identifier under which a line of the
  configuration declares it, or with the empty string, and then the name has no file.
\<close>

theorem blob_declarations_complete:
  assumes "list_all (list_all is_ident) names"
  shows "\<exists>adds renames. append_blob_cli_lines env d names (lines, []) = Inr (lines @ blob_lines_of adds, renames) \<and>
           distinct (map fst adds) \<and>
           (\<forall>i p. (i, p) \<in> set adds \<longrightarrow> nfqws2_ident i \<and>
              (\<exists>n \<in> set names. i = safe_blob_name n \<and> resolve_blob_path env d n = Some p)) \<and>
           (\<forall>n \<in> set names. \<exists>safe. dict_get renames n = Some safe \<and>
              (safe = [] \<and> blob_cli_line env d n = None \<or>
               safe = safe_blob_name n \<and> declared safe (lines @ blob_lines_of adds)))"
proof -
  have "blob_loop_inv env d lines [] [] []" by (simp add: blob_loop_inv_def adds_ok_def)
  from append_blob_cli_lines_inv [OF this assms] obtain adds renames where
    run: "append_blob_cli_lines env d names (lines, []) = Inr (lines @ blob_lines_of adds, renames)"
    and inv: "blob_loop_inv env d lines names adds renames" by (auto simp: blob_lines_of_def)
  have "\<exists>safe. dict_get renames n = Some safe \<and>
              (safe = [] \<and> blob_cli_line env d n = None \<or>
               safe = safe_blob_name n \<and> declared safe (lines @ blob_lines_of adds))" if "n \<in> set names" for n
    using inv that by (auto simp: blob_loop_inv_def rename_ok_def split: option.splits)
  then show ?thesis using run inv
    by (intro exI [of _ adds] exI [of _ renames]) (auto simp: blob_loop_inv_def adds_ok_def list_all_iff)
qed

theorem blob_declarations_complete_witness:
  "list_all (list_all is_ident) [''stun'', ''4pda''] \<and>
   (\<exists>adds renames. append_blob_cli_lines sample_blob_env None [''stun'', ''4pda''] ([''--lua''], [])
        = Inr ([''--lua''] @ blob_lines_of adds, renames) \<and> distinct (map fst adds))"
proof -
  have "list_all (list_all is_ident) [''stun'', ''4pda'']" by code_simp
  then show ?thesis
    using blob_declarations_complete [of "[''stun'', ''4pda'']" sample_blob_env None "[''--lua'']"] by blast
qed

end
