(* ===== verification/ByedpiTranslator.thy ===== *)
theory ByedpiTranslator
  imports BlobAliases PyText
begin

text \<open>
  \<^verbatim>\<open>engine/byedpi_translator.py\<close>: from one nfqws2 strategy line to the command line of ciadpi, with the
  quality of the translation and notes about what was lost. The notes about dropped options come
  in the iteration order of a Python set, which differs between processes: the functions take that
  order as the argument \<open>dropped\<close>. The dash of the notes is written as a hyphen.
\<close>

section \<open>Tables\<close>

datatype quality = TRANSLATION_FULL | TRANSLATION_PARTIAL | TRANSLATION_NONE

record Translation =
  t_argv :: "string list"
  t_quality :: quality
  t_notes :: "string list"

definition UNMAPPED_FOOLINGS :: "string list" where
  "UNMAPPED_FOOLINGS =
     [''badsum'', ''badsid'', ''badseq'', ''tcp_seq'', ''tcp_flags_unset'', ''tcp_flags_set'', ''ip_autottl'',
      ''ipfrag'', ''tcpseg'', ''padencap'', ''seqovl'', ''seqovl_pattern'', ''quic'', ''wssize'', ''circular'',
      ''dup'', ''tcp_ts'']"

definition UNMAPPED_FOOLING_PREFIXES :: "string list" where
  "UNMAPPED_FOOLING_PREFIXES = [''ip6_'']"

definition DROPPABLE_FOOLINGS :: "string list" where
  "DROPPABLE_FOOLINGS = [''tcp_ack'', ''tcp_ts_up'']"

definition SUPPORTED_FAMILIES :: "string list" where
  "SUPPORTED_FAMILIES =
     [''fake'', ''hostfakesplit'', ''fakedsplit'', ''fakeddisorder'', ''multisplit'', ''multidisorder'',
      ''tlsrec'', ''oob'', ''syndata'']"

definition POS_MAP :: "(string, string) dict" where
  "POS_MAP =
     [(''midsld'', ''0+sm''), (''mid'', ''0+m''), (''start'', ''0''), (''end'', ''-1+e''), (''host'', ''0+h''),
      (''hostmid'', ''0+hm''), (''1'', ''1''), (''2'', ''2''), (''3'', ''3'')]"

definition POS_FLAG_ORDER :: "(string \<times> string) list" where
  "POS_FLAG_ORDER = [(''tls_'', ''+s''), (''sni_'', ''+s''), (''http_'', ''+h''), (''host_'', ''+h'')]"

definition POS_RE :: re where
  "POS_RE = RSeq (rlit ''pos='') (RGroup 1 (rplus (\<lambda>c. c \<noteq> CHR '':'' \<and> c \<noteq> CHR '']'' \<and> c \<noteq> CHR '','')))"

definition MULTI_POS_RE :: re where
  "MULTI_POS_RE = RSeq (rlit ''pos='') (RGroup 1 (rplus (\<lambda>c. c \<noteq> CHR '':'')))"

definition BLOB_RE :: re where
  "BLOB_RE = RSeq (rlit ''blob='') (RGroup 1 (rplus is_ident))"

definition PATTERN_RE :: re where
  "PATTERN_RE = RSeq (rlit ''pattern='') (RGroup 1 (rplus is_ident))"

definition REPEATS_RE :: re where
  "REPEATS_RE = RSeq (rlit ''repeats='') (RGroup 1 (rplus is_decimal))"

definition URP_RE :: re where
  "URP_RE = RSeq (rlit ''urp='') (RGroup 1 (RCls (\<lambda>c. c \<in> set ''bsmc'')))"

section \<open>Helpers\<close>

definition flag_pos :: "string \<Rightarrow> string \<times> string \<Rightarrow> string option" where
  "flag_pos v pf =
     (let rest = drop (length (fst pf)) v
      in if startswith v (fst pf) \<and> isdigit rest then Some (rest @ snd pf) else None)"

definition pos_to_byedpi :: "string \<Rightarrow> string" where
  "pos_to_byedpi pos_value =
     (let v = strip pos_value
      in if isdigit v then v
         else (case dict_get POS_MAP v of
                 Some p \<Rightarrow> p
               | None \<Rightarrow> (case first_some (flag_pos v) POS_FLAG_ORDER of Some p \<Rightarrow> p | None \<Rightarrow> v)))"

definition first_match :: "string \<Rightarrow> re \<Rightarrow> string option" where
  "first_match text rx = map_option (group 1) (re_search rx text)"

text \<open>\<open>x or y\<close> for an optional string.\<close>

definition or_str :: "string option \<Rightarrow> string \<Rightarrow> string" where
  "or_str x y = (case x of Some (c # cs) \<Rightarrow> c # cs | _ \<Rightarrow> y)"

definition blob_argv :: "blob_env \<Rightarrow> string \<Rightarrow> string list" where
  "blob_argv env blob_name =
     (case resolve_blob_path env None blob_name of
        Some path \<Rightarrow> if path \<noteq> [] \<and> be_isfile env path then [''-l'', path] else []
      | None \<Rightarrow> [])"

definition blob_args :: "blob_env \<Rightarrow> string option \<Rightarrow> string list" where
  "blob_args env blob = (case blob of Some (c # cs) \<Rightarrow> blob_argv env (c # cs) | _ \<Rightarrow> [])"

definition segment_name :: "string \<Rightarrow> string" where
  "segment_name seg = (if CHR ''='' \<in> set seg then before_char CHR ''='' seg else seg)"

definition desync_option_names :: "string \<Rightarrow> string list" where
  "desync_option_names line =
     map segment_name
       (filter (\<lambda>seg. seg \<noteq> [])
         (concat (map (\<lambda>row. map (\<lambda>seg. lower (strip seg)) (split_char CHR '':'' row))
           (filter (\<lambda>row. row \<noteq> []) (map strip (splitlines line))))))"

definition has_unmapped_fooling :: "string \<Rightarrow> bool" where
  "has_unmapped_fooling line =
     list_ex (\<lambda>name. name \<in> set UNMAPPED_FOOLINGS \<or> list_ex (startswith name) UNMAPPED_FOOLING_PREFIXES)
       (desync_option_names line)"

definition fooling_argv :: "string list \<Rightarrow> string \<Rightarrow> string list \<times> string list" where
  "fooling_argv dropped line =
     (let names = desync_option_names line
      in (if ''tcp_md5'' \<in> set names then [''--md5sig''] else [],
          map (\<lambda>bad. bad @ '' unsupported - dropped'') (filter (\<lambda>bad. bad \<in> set names) dropped)))"

section \<open>Families\<close>

definition translate_fake :: "blob_env \<Rightarrow> string list \<Rightarrow> string \<Rightarrow> Translation" where
  "translate_fake env dropped line =
     (let (fool, notes) = fooling_argv dropped line
      in \<lparr>t_argv = [''-f'', ''-1''] @ blob_args env (first_match line BLOB_RE) @ fool,
          t_quality = TRANSLATION_PARTIAL,
          t_notes = notes @ (if re_found REPEATS_RE line
                             then [''repeats=N has no ciadpi equivalent (single fake send)''] else [])\<rparr>)"

definition translate_hostfakesplit :: "string list \<Rightarrow> string \<Rightarrow> Translation" where
  "translate_hostfakesplit dropped line =
     (let (fool, notes) = fooling_argv dropped line
      in \<lparr>t_argv = [''--split'', ''1+sm''] @
            (if contains ''disorder_after'' line \<or> contains ''disorder'' line then [''--disorder'', ''1+sm''] else []) @ fool,
          t_quality = TRANSLATION_PARTIAL, t_notes = notes\<rparr>)"

definition pattern_or_blob :: "string \<Rightarrow> string option" where
  "pattern_or_blob line =
     (case first_match line PATTERN_RE of Some (c # cs) \<Rightarrow> Some (c # cs) | _ \<Rightarrow> first_match line BLOB_RE)"

definition translate_fakedsplit :: "blob_env \<Rightarrow> string \<Rightarrow> Translation" where
  "translate_fakedsplit env line =
     (let pos = pos_to_byedpi (or_str (first_match line POS_RE) ''1'')
      in \<lparr>t_argv = [''--fake'', pos, ''--disorder'', pos] @ blob_args env (pattern_or_blob line),
          t_quality = TRANSLATION_FULL, t_notes = []\<rparr>)"

definition translate_fakeddisorder :: "blob_env \<Rightarrow> string \<Rightarrow> Translation" where
  "translate_fakeddisorder env line =
     (let pos = pos_to_byedpi (or_str (first_match line POS_RE) ''1'')
      in \<lparr>t_argv = [''--disorder'', pos, ''--fake'', pos] @ blob_args env (pattern_or_blob line),
          t_quality = TRANSLATION_FULL, t_notes = []\<rparr>)"

definition translate_multisplit :: "string \<Rightarrow> Translation" where
  "translate_multisplit line =
     (let pos_value = or_str (first_match line MULTI_POS_RE) ''1'';
          positions = filter (\<lambda>p. p \<noteq> []) (map strip (split_char CHR '','' pos_value))
      in \<lparr>t_argv = concat (map (\<lambda>p. [''--split'', pos_to_byedpi p]) positions) @
            (if contains ''disorder'' line \<and> positions \<noteq> [] then [''--disorder'', pos_to_byedpi (hd positions)] else []),
          t_quality = TRANSLATION_PARTIAL,
          t_notes = (if contains ''seqovl'' line then [''seqovl unsupported - dropped''] else [])\<rparr>)"

definition translate_tlsrec :: "string \<Rightarrow> Translation" where
  "translate_tlsrec line =
     \<lparr>t_argv = [''-r'', pos_to_byedpi (or_str (first_match line POS_RE) ''1+s'')], t_quality = TRANSLATION_FULL, t_notes = []\<rparr>"

definition translate_oob :: "string \<Rightarrow> Translation" where
  "translate_oob line =
     (let urp = or_str (first_match line URP_RE) ''b'';
          pos = dict_getd [(''b'', ''0''), (''s'', ''0+sm''), (''m'', ''0+m''), (''c'', ''-1+e'')] urp ''0''
      in \<lparr>t_argv = [''-o'', pos], t_quality = TRANSLATION_FULL, t_notes = []\<rparr>)"

definition translate_syndata :: "string \<Rightarrow> Translation" where
  "translate_syndata line =
     \<lparr>t_argv = [''-f'', ''-1''] @
        (if contains ''tls_mod'' line then [''-Q'', if contains ''rnd'' line then ''rand'' else ''orig''] else []),
      t_quality = TRANSLATION_PARTIAL,
      t_notes = (if re_found REPEATS_RE line then [''repeats=N has no ciadpi equivalent''] else [])\<rparr>"

definition family_translator :: "blob_env \<Rightarrow> string list \<Rightarrow> (string, string \<Rightarrow> Translation) dict" where
  "family_translator env dropped =
     [(''fake'', translate_fake env dropped), (''hostfakesplit'', translate_hostfakesplit dropped),
      (''fakedsplit'', translate_fakedsplit env), (''fakeddisorder'', translate_fakeddisorder env),
      (''multisplit'', translate_multisplit), (''multidisorder'', translate_multisplit),
      (''tlsrec'', translate_tlsrec), (''oob'', translate_oob), (''syndata'', translate_syndata)]"

text \<open>\<open>families\<close> is the set of supported families in its iteration order.\<close>

definition family_of :: "string list \<Rightarrow> string \<Rightarrow> string option" where
  "family_of families line = find (startswith line) (sort_key (\<lambda>f. - int (length f)) families)"

definition translate :: "blob_env \<Rightarrow> string list \<Rightarrow> string list \<Rightarrow> string \<Rightarrow> Translation option result" where
  "translate env families dropped strategy =
     (let line = strip strategy
      in if line = [] then Inr None
         else if has_unmapped_fooling line then Inr None
         else (case family_of families line of
                 None \<Rightarrow> Inr None
               | Some family \<Rightarrow>
                   (case dict_get (family_translator env dropped) family of
                      None \<Rightarrow> Inl (KeyError family)
                    | Some f \<Rightarrow> Inr (Some (f line)))))"

definition translate_or_skip :: "blob_env \<Rightarrow> string list \<Rightarrow> string list \<Rightarrow> string \<Rightarrow> string list result" where
  "translate_or_skip env families dropped strategy =
     bind_result (translate env families dropped strategy)
       (\<lambda>t. Inr (case t of Some x \<Rightarrow> t_argv x | None \<Rightarrow> []))"

definition is_supported :: "blob_env \<Rightarrow> string list \<Rightarrow> string list \<Rightarrow> string \<Rightarrow> bool result" where
  "is_supported env families dropped strategy =
     bind_result (translate env families dropped strategy) (\<lambda>t. Inr (t \<noteq> None))"

section \<open>The family is the longest prefix\<close>

lemma find_sorted_longest:
  assumes "find P (sort_key (\<lambda>f. - int (length f)) fs) = Some f"
  shows "f \<in> set fs" "P f" "g \<in> set fs \<Longrightarrow> P g \<Longrightarrow> length g \<le> length f"
proof -
  let ?s = "sort_key (\<lambda>f. - int (length f)) fs"
  obtain i where i: "i < length ?s" "P (?s ! i)" "f = ?s ! i" "\<And>j. j < i \<Longrightarrow> \<not> P (?s ! j)"
    using assms unfolding find_Some_iff by blast
  have "f \<in> set ?s" unfolding i(3) using i(1) by (rule nth_mem)
  then show "f \<in> set fs" by (simp only: set_sort)
  show "P f" unfolding i(3) by (rule i(2))
  show "length g \<le> length f" if "g \<in> set fs" "P g"
  proof -
    have "g \<in> set ?s" using that(1) by (simp only: set_sort)
    then obtain j where j: "j < length ?s" "?s ! j = g" unfolding in_set_conv_nth by blast
    have "i \<le> j"
    proof (rule ccontr)
      assume "\<not> i \<le> j"
      then have "j < i" by simp
      from i(4) [OF this] j(2) that(2) show False by simp
    qed
    moreover have "sorted (map (\<lambda>f. - int (length f)) ?s)" by simp
    ultimately have "map (\<lambda>f. - int (length f)) ?s ! i \<le> map (\<lambda>f. - int (length f)) ?s ! j"
      using j(1) by (intro sorted_nth_mono) simp_all
    then show ?thesis unfolding i(3) using i(1) j by (simp only: nth_map)
  qed
qed

lemma family_of_iff:
  "family_of families line = Some f \<longleftrightarrow>
     f \<in> set families \<and> startswith line f \<and> (\<forall>g \<in> set families. startswith line g \<longrightarrow> length g \<le> length f)"
proof
  assume "family_of families line = Some f"
  from find_sorted_longest [OF this [unfolded family_of_def]]
  show "f \<in> set families \<and> startswith line f \<and> (\<forall>g \<in> set families. startswith line g \<longrightarrow> length g \<le> length f)" by blast
next
  assume f: "f \<in> set families \<and> startswith line f \<and> (\<forall>g \<in> set families. startswith line g \<longrightarrow> length g \<le> length f)"
  then have "family_of families line \<noteq> None" by (auto simp: family_of_def find_None_iff)
  then obtain h where h: "family_of families line = Some h" by blast
  from find_sorted_longest [OF this [unfolded family_of_def]] f have "startswith line h" "length h = length f"
    by (auto intro: le_antisym)
  then have "h = f" using f by (auto simp: startswith_def)
  then show "family_of families line = Some f" using h by simp
qed

lemma family_of_cong:
  assumes "set fs = set gs"
  shows "family_of fs line = family_of gs line"
proof -
  have "family_of fs line = Some f \<longleftrightarrow> family_of gs line = Some f" for f
    using assms by (simp add: family_of_iff)
  then show ?thesis by (metis option.exhaust)
qed

section \<open>Translation does not depend on the iteration order of sets\<close>

definition same_translation :: "Translation \<Rightarrow> Translation \<Rightarrow> bool" where
  "same_translation t u = (t_argv t = t_argv u \<and> t_quality t = t_quality u \<and> mset (t_notes t) = mset (t_notes u))"

lemma fooling_argv_order:
  assumes "mset dropped = mset dropped'"
  shows "fst (fooling_argv dropped line) = fst (fooling_argv dropped' line)"
    "mset (snd (fooling_argv dropped line)) = mset (snd (fooling_argv dropped' line))"
  using assms by (simp_all add: fooling_argv_def Let_def flip: image_mset_filter_mset_swap)

lemma family_translator_order:
  assumes "mset dropped = mset dropped'" and "dict_get (family_translator env dropped) f = Some t"
  obtains u where "dict_get (family_translator env dropped') f = Some u" "\<And>line. same_translation (t line) (u line)"
proof -
  have fake: "same_translation (translate_fake env dropped line) (translate_fake env dropped' line)" for line
    using fooling_argv_order [OF assms(1), of line]
    by (simp add: translate_fake_def same_translation_def case_prod_beta Let_def)
  have host: "same_translation (translate_hostfakesplit dropped line) (translate_hostfakesplit dropped' line)" for line
    using fooling_argv_order [OF assms(1), of line]
    by (simp add: translate_hostfakesplit_def same_translation_def case_prod_beta Let_def)
  show thesis
    using assms(2) fake host that
    by (auto simp: family_translator_def same_translation_def split: if_splits)
qed

lemma supported_have_translator:
  "f \<in> set SUPPORTED_FAMILIES \<Longrightarrow> dict_get (family_translator env dropped) f \<noteq> None"
  by (auto simp: SUPPORTED_FAMILIES_def family_translator_def)

text \<open>
  Translation is total and, although the code iterates over sets, deterministic: it never raises;
  an empty line, a line with an option ciadpi does not know and a line that starts with no supported
  family are skipped, and every other line gets the translation of the longest family it starts with;
  whatever the iteration orders, the command line and the quality are the same and the notes are the
  same up to their order.
\<close>

theorem translate_deterministic:
  assumes "set families = set SUPPORTED_FAMILIES" and "mset dropped = mset DROPPABLE_FOOLINGS"
  shows "(strip s = [] \<or> has_unmapped_fooling (strip s) \<or> \<not> list_ex (startswith (strip s)) SUPPORTED_FAMILIES \<longrightarrow>
            translate env families dropped s = Inr None) \<and>
         (strip s \<noteq> [] \<and> \<not> has_unmapped_fooling (strip s) \<and> list_ex (startswith (strip s)) SUPPORTED_FAMILIES \<longrightarrow>
            (\<exists>t u. translate env families dropped s = Inr (Some t) \<and>
                   translate env SUPPORTED_FAMILIES DROPPABLE_FOOLINGS s = Inr (Some u) \<and> same_translation t u))"
proof (intro conjI impI)
  assume "strip s = [] \<or> has_unmapped_fooling (strip s) \<or> \<not> list_ex (startswith (strip s)) SUPPORTED_FAMILIES"
  moreover have "family_of families (strip s) = None" if "\<not> list_ex (startswith (strip s)) SUPPORTED_FAMILIES"
    using that assms(1) by (auto simp: family_of_def find_None_iff list_ex_iff)
  ultimately show "translate env families dropped s = Inr None" by (auto simp: translate_def Let_def)
next
  assume a: "strip s \<noteq> [] \<and> \<not> has_unmapped_fooling (strip s) \<and> list_ex (startswith (strip s)) SUPPORTED_FAMILIES"
  then have "family_of SUPPORTED_FAMILIES (strip s) \<noteq> None" by (auto simp: family_of_def find_None_iff list_ex_iff)
  then obtain f where f: "family_of SUPPORTED_FAMILIES (strip s) = Some f" by blast
  then have "f \<in> set SUPPORTED_FAMILIES" by (simp add: family_of_iff)
  then obtain t where t: "dict_get (family_translator env dropped) f = Some t" using supported_have_translator by blast
  obtain u where u: "dict_get (family_translator env DROPPABLE_FOOLINGS) f = Some u"
    and same: "\<And>line. same_translation (t line) (u line)"
    using family_translator_order [OF assms(2) t] by blast
  show "\<exists>t u. translate env families dropped s = Inr (Some t) \<and>
              translate env SUPPORTED_FAMILIES DROPPABLE_FOOLINGS s = Inr (Some u) \<and> same_translation t u"
    using a f t u same family_of_cong [OF assms(1)] by (simp add: translate_def Let_def)
qed

theorem translate_deterministic_witness:
  "\<exists>t u. translate sample_blob_env (rev SUPPORTED_FAMILIES) (rev DROPPABLE_FOOLINGS) ''fakedsplit:pos=2'' = Inr (Some t) \<and>
         translate sample_blob_env SUPPORTED_FAMILIES DROPPABLE_FOOLINGS ''fakedsplit:pos=2'' = Inr (Some u) \<and>
         same_translation t u"
proof -
  have "strip ''fakedsplit:pos=2'' \<noteq> [] \<and> \<not> has_unmapped_fooling (strip ''fakedsplit:pos=2'') \<and>
      list_ex (startswith (strip ''fakedsplit:pos=2'')) SUPPORTED_FAMILIES" by code_simp
  then show ?thesis
    using translate_deterministic [of "rev SUPPORTED_FAMILIES" "rev DROPPABLE_FOOLINGS" "''fakedsplit:pos=2''" sample_blob_env]
    by simp
qed

text \<open>The translation of one line of each kind, as documented in the code.\<close>

lemma translate_examples:
  "translate sample_blob_env SUPPORTED_FAMILIES DROPPABLE_FOOLINGS ''multisplit:pos=1,midsld'' =
     Inr (Some \<lparr>t_argv = [''--split'', ''1'', ''--split'', ''0+sm''], t_quality = TRANSLATION_PARTIAL, t_notes = []\<rparr>)"
  "translate sample_blob_env SUPPORTED_FAMILIES DROPPABLE_FOOLINGS ''fake:blob=stun:badsum'' = Inr None"
  by code_simp+

text \<open>
  \<^verbatim>\<open>tcp_ack\<close> is named among the options that make a strategy untranslatable, and is dropped instead.
\<close>

lemma tcp_ack_translated:
  "translate sample_blob_env SUPPORTED_FAMILIES DROPPABLE_FOOLINGS ''fake:blob=stun:tcp_ack=-66000'' =
     Inr (Some \<lparr>t_argv = [''-f'', ''-1'', ''-l'', ''/r/stun.bin''], t_quality = TRANSLATION_PARTIAL,
                t_notes = [''tcp_ack unsupported - dropped'']\<rparr>)"
  by code_simp

text \<open>
  The option \<^verbatim>\<open>tcp_md5\<close> of a \<^verbatim>\<open>fakedsplit\<close> strategy is lost without a note, and the translation is still
  reported as an exact one.
\<close>

lemma fakedsplit_loses_md5:
  "translate sample_blob_env SUPPORTED_FAMILIES DROPPABLE_FOOLINGS ''fakedsplit:pos=1:tcp_md5'' =
     Inr (Some \<lparr>t_argv = [''--fake'', ''1'', ''--disorder'', ''1''], t_quality = TRANSLATION_FULL, t_notes = []\<rparr>)"
  by code_simp

end
