(* ===== verification/ConfBuilder.thy ===== *)
theory ConfBuilder
  imports BlobAliases PyText PyJson
begin

text \<open>
  \<^verbatim>\<open>engine/conf_builder.py\<close>: from strategies to the text of nfqws2 configurations. What the functions
  read from the host is a record: the blob files, the custom Lua manifest, the text of \<^verbatim>\<open>.conf\<close>
  files, and the settings taken from \<^verbatim>\<open>engine/config.py\<close>. Warnings are left out; the dash in one
  comment of the exported text is written as a hyphen.
\<close>

section \<open>The host\<close>

record lua_fn =
  lf_file :: string
  lf_included :: "string list"
  lf_excluded :: "string list"
  lf_description :: string
  lf_requires_triage :: "string list"
  lf_blob_classes :: "string list"

record conf_env =
  cv_blobs :: blob_env
  cv_manifest :: "(string, lua_fn) dict"
  cv_read_text :: "string \<Rightarrow> string option"
  cv_exists :: "string \<Rightarrow> bool"
  cv_resolve :: "string \<Rightarrow> string"
  cv_lua_custom_dir :: string
  cv_lua_init_scripts :: "string list"
  cv_qnum_tcp :: int
  cv_qnum_udp :: int
  cv_timestamp :: string

text \<open>
  The decoded manifest: \<open>Inl\<close> when the file is missing or no TOML, else its \<^verbatim>\<open>[[lua]]\<close> tables. A table
  with a field of the wrong type ends the loop; the entries read before it stay.
\<close>

definition or_text :: "string \<Rightarrow> string \<Rightarrow> string" where
  "or_text s dflt = (if s = [] then dflt else s)"

definition manifest_entry :: "string \<Rightarrow> jdict \<Rightarrow> lua_fn result" where
  "manifest_entry name entry =
     bind_result (to_str (jget entry ''file'')) (\<lambda>f.
     bind_result (to_strs (jget entry ''included'')) (\<lambda>inc.
     bind_result (to_strs (jget entry ''excluded'')) (\<lambda>exc.
     bind_result (to_str (jget entry ''description'')) (\<lambda>desc.
     bind_result (to_strs (jget entry ''requires_triage'')) (\<lambda>req.
     bind_result (to_strs (jget entry ''blob_classes'')) (\<lambda>cls.
     Inr \<lparr>lf_file = or_text f (name @ ''.lua''), lf_included = inc, lf_excluded = exc, lf_description = desc,
          lf_requires_triage = req, lf_blob_classes = cls\<rparr>))))))"

fun manifest_loop :: "jdict list \<Rightarrow> (string, lua_fn) dict \<Rightarrow> (string, lua_fn) dict" where
  "manifest_loop [] registry = registry"
| "manifest_loop (entry # entries) registry =
     (case to_str (jget entry ''name'') of
        Inl e \<Rightarrow> registry
      | Inr nm \<Rightarrow>
          if lower nm = [] then manifest_loop entries registry
          else (case manifest_entry (lower nm) entry of
                  Inl e \<Rightarrow> registry
                | Inr meta \<Rightarrow> manifest_loop entries (dict_set (lower nm) meta registry)))"

definition load_custom_lua_manifest :: "jdict list result \<Rightarrow> (string, lua_fn) dict" where
  "load_custom_lua_manifest loaded = (case loaded of Inl e \<Rightarrow> [] | Inr entries \<Rightarrow> manifest_loop entries [])"

section \<open>Expressions\<close>

definition STRATEGY_N_RE :: re where
  "STRATEGY_N_RE = RSeq (rlit '':strategy='') (RSeq (rplus is_decimal) (RSeq (RStar is_space) REnd))"

definition STRATEGY_TAG_RE :: re where
  "STRATEGY_TAG_RE = RSeq (rlit '':strategy='') (RSeq (rplus is_decimal) RBound)"

definition hex_char :: "char \<Rightarrow> bool" where
  "hex_char c = (is_decimal c \<or> (let n = code c in 65 \<le> n \<and> n \<le> 70 \<or> 97 \<le> n \<and> n \<le> 102))"

definition HEX_BLOB_RE :: re where
  "HEX_BLOB_RE = RSeq RStart (RSeq (rlit ''0x'') (RSeq (rplus hex_char) REnd))"

definition BLOB_EXPORT_RE :: re where
  "BLOB_EXPORT_RE =
     RSeq (ranyof [''blob'', ''pattern'', ''seqovl_pattern''])
       (RSeq (rlit ''='') (RGroup 1 (rplus (\<lambda>c. \<not> is_space c \<and> c \<noteq> CHR '':''))))"

definition TTL_PARAM_RE :: re where
  "TTL_PARAM_RE =
     RSeq (RAlt RStart (rlit '':''))
       (RSeq (ranyof [''ip_ttl'', ''ip6_ttl''])
         (RSeq (rlit ''='')
           (RSeq (RGroup 1 (RSeq (ropt (rlit ''-'')) (rplus is_decimal))) (RAlt (rlit '':'') REnd))))"

definition PARAM_RE :: re where
  "PARAM_RE =
     RSeq (RNotBehind is_ident)
       (RSeq (RGroup 1 (RSeq (RCls (\<lambda>c. is_ascii_letter c \<or> c = CHR ''_'')) (RStar is_ident)))
         (RSeq (rlit ''='') (RGroup 2 (rplus (\<lambda>c. c \<noteq> CHR '':'' \<and> \<not> is_space c)))))"

definition uses_fn_re :: "string \<Rightarrow> re" where
  "uses_fn_re fn = RSeq (RAlt RStart (RAlt (rlit '':'') (rlit ''=''))) (RSeq (rlit fn) (rlit '':''))"

definition lua_fn_name :: "string \<Rightarrow> bool" where
  "lua_fn_name s = (re_run BLOB_SAFE_RE ([], s) \<noteq> [])"

section \<open>Custom Lua\<close>

definition DEFAULT_KEENETIC_PREFIX :: string where
  "DEFAULT_KEENETIC_PREFIX = ''/opt/etc/nfqws2''"

definition custom_lua_copy_comments :: "conf_env \<Rightarrow> string \<Rightarrow> string \<Rightarrow> string list" where
  "custom_lua_copy_comments env strategy pre =
     map (\<lambda>(fn, meta). ''# COPY lua: '' @ cv_resolve env (path_join (cv_lua_custom_dir env) (lf_file meta)) @
                      '' -> '' @ pre @ ''/lua/'' @ lf_file meta)
       (filter (\<lambda>(fn, meta). re_found (uses_fn_re fn) (lower strategy)) (cv_manifest env))"

definition custom_lua_files_for :: "conf_env \<Rightarrow> string list \<Rightarrow> string list" where
  "custom_lua_files_for env strategies =
     fromkeys (map (\<lambda>(fn, meta). lf_file meta)
       (filter (\<lambda>(fn, meta). re_found (uses_fn_re fn) (lower (join_with [CHR 0x0A] strategies))) (cv_manifest env)))"

text \<open>The first value of each parameter, in order of appearance.\<close>

definition add_param :: "(string, string) dict \<Rightarrow> string \<times> string \<Rightarrow> (string, string) dict" where
  "add_param params kv = (if dict_get params (fst kv) = None then params @ [kv] else params)"

definition strategy_params :: "string \<Rightarrow> (string, string) dict" where
  "strategy_params strategy =
     foldl add_param []
       (concat (map (\<lambda>part. map (\<lambda>c. (group 1 c, group 2 c)) (re_finditer PARAM_RE part))
         (split_str [CHR 0x5C, CHR ''n''] strategy)))"

definition param_issue :: "string \<Rightarrow> lua_fn \<Rightarrow> string \<Rightarrow> string option" where
  "param_issue fn meta key =
     (if key \<in> set (lf_excluded meta)
      then Some (fn @ '': param '' @ [CHR 0x27] @ key @ [CHR 0x27] @ '' is excluded (custom Lua '' @ lf_file meta @
                 '' does not support it)'')
      else if key \<notin> set (lf_included meta) \<and> key \<noteq> ''optional''
      then Some (fn @ '': param '' @ [CHR 0x27] @ key @ [CHR 0x27] @ '' undocumented for '' @ lf_file meta @
                 '' (add to included/excluded in lua/custom/manifest.toml)'')
      else None)"

definition validate_custom_lua_params :: "conf_env \<Rightarrow> string \<Rightarrow> string list" where
  "validate_custom_lua_params env strategy =
     (case find (\<lambda>(fn, meta). re_found (uses_fn_re fn) (lower strategy)) (cv_manifest env) of
        None \<Rightarrow> []
      | Some (fn, meta) \<Rightarrow> List.map_filter (param_issue fn meta) (dict_keys (strategy_params strategy)))"

section \<open>Parts of a strategy\<close>

definition strip_strategy_n :: "string \<Rightarrow> string" where
  "strip_strategy_n text = re_sub_from STRATEGY_N_RE (\<lambda>c. []) [] (strip text)"

definition looks_like_conf_path :: "string \<Rightarrow> bool" where
  "looks_like_conf_path text =
     (let head = strip_strategy_n text in endswith head ''.conf'' \<and> contains ''/'' head)"

definition is_lua_function_core :: "string \<Rightarrow> bool" where
  "is_lua_function_core text =
     (if text = [] \<or> startswith text ''/'' \<or> startswith text ''--'' then False
      else lua_fn_name (strip (before_char CHR '':'' text)))"

definition LUA_DESYNC :: string where
  "LUA_DESYNC = ''--lua-desync=''"

definition lua_desync_cores_from_conf :: "conf_env \<Rightarrow> string \<Rightarrow> string list" where
  "lua_desync_cores_from_conf env path =
     (case cv_read_text env (strip_strategy_n path) of
        None \<Rightarrow> []
      | Some text \<Rightarrow>
          filter is_lua_function_core
            (map (\<lambda>raw. strip (drop (length LUA_DESYNC) raw))
              (filter (\<lambda>raw. startswith raw LUA_DESYNC) (map strip (splitlines text)))))"

definition split_cli_args :: "string \<Rightarrow> string list" where
  "split_cli_args raw_line =
     map (\<lambda>arg. if startswith arg ''--'' then arg else ''--'' @ arg)
       (filter (\<lambda>arg. arg \<noteq> []) (map strip (split_str '' --'' raw_line)))"

definition export_part :: "conf_env \<Rightarrow> string \<Rightarrow> string list" where
  "export_part env part =
     (if looks_like_conf_path part then lua_desync_cores_from_conf env part
      else if startswith part LUA_DESYNC
      then (let core = strip (drop (length LUA_DESYNC) part)
            in if is_lua_function_core core then [core] else [])
      else if startswith part ''--''
      then (let cores = filter is_lua_function_core
                  (map (drop (length LUA_DESYNC)) (filter (\<lambda>tok. startswith tok LUA_DESYNC) (split_cli_args part)))
            in if cores \<noteq> [] then cores
               else if contains ''/'' part then [] else [part])
      else if is_lua_function_core part then [part]
      else [])"

definition strategy_parts_for_export :: "conf_env \<Rightarrow> string \<Rightarrow> string list" where
  "strategy_parts_for_export env strat =
     (let text = strip strat
      in if text = [] then []
         else if looks_like_conf_path text then lua_desync_cores_from_conf env text
         else concat (map (export_part env)
                (filter (\<lambda>p. p \<noteq> []) (map strip (split_char (CHR 0x0A) text)))))"

definition flatten_export_strategies :: "conf_env \<Rightarrow> string list \<Rightarrow> string list" where
  "flatten_export_strategies env strategies =
     filter (\<lambda>p. \<not> startswith p ''--'') (concat (map (strategy_parts_for_export env) strategies))"

definition core_ttl_ok :: "string \<Rightarrow> bool" where
  "core_ttl_ok core =
     list_all (\<lambda>v. case int_of_str v of Some n \<Rightarrow> 0 \<le> n \<and> n \<le> 255 | None \<Rightarrow> False) (re_findall TTL_PARAM_RE core)"

definition blob_export_ok :: "string \<Rightarrow> bool" where
  "blob_export_ok n =
     list_all (\<lambda>p. lua_fn_name p \<or> re_run HEX_BLOB_RE ([], p) \<noteq> []) (filter (\<lambda>p. p \<noteq> []) (split_char CHR ''+'' n))"

definition rename_export_blobs :: "string \<Rightarrow> string" where
  "rename_export_blobs strat =
     (let renames = map (\<lambda>name. (name, safe_blob_name name))
            (filter (\<lambda>name. name \<noteq> safe_blob_name name \<and> re_run HEX_BLOB_RE ([], name) = []) (extract_blob_names [strat]))
      in if renames \<noteq> [] then apply_blob_renames strat renames else strat)"

definition keep_export_strategy :: "conf_env \<Rightarrow> string \<Rightarrow> string option" where
  "keep_export_strategy env strat =
     (let parts = strategy_parts_for_export env strat;
          cores = filter (\<lambda>p. \<not> startswith p ''--'') parts
      in if parts = [] then None
         else if list_ex (\<lambda>c. \<not> core_ttl_ok c) cores then None
         else if list_ex (\<lambda>n. \<not> blob_export_ok n) (concat (map (re_findall BLOB_EXPORT_RE) cores)) then None
         else Some strat)"

definition filter_export_strategies :: "conf_env \<Rightarrow> string list \<Rightarrow> string list" where
  "filter_export_strategies env strategies =
     List.map_filter
       (\<lambda>s. case keep_export_strategy env (rename_export_blobs s) of Some [] \<Rightarrow> None | k \<Rightarrow> k) strategies"

section \<open>Lines\<close>

definition escape_conf_lt :: "string \<Rightarrow> string" where
  "escape_conf_lt cli = replace_char CHR ''<'' [CHR 0x5C, CHR ''<''] cli"

definition ensure_strategy_n :: "string \<Rightarrow> nat \<Rightarrow> string" where
  "ensure_strategy_n strategy n =
     (let s = strip strategy
      in if re_found STRATEGY_TAG_RE s then s else s @ '':strategy='' @ digits_of_nat n)"

definition desync_line :: "nat \<Rightarrow> string \<Rightarrow> string" where
  "desync_line i part =
     (if startswith part ''--'' then escape_conf_lt part
      else LUA_DESYNC @ escape_conf_lt (ensure_strategy_n part i))"

definition desync_cli_lines :: "conf_env \<Rightarrow> string list \<Rightarrow> string list" where
  "desync_cli_lines env strategies =
     concat (map (\<lambda>(i, strat). map (desync_line (Suc i)) (strategy_parts_for_export env strat))
       (enumerate 0 strategies))"

definition STOCK_KEENETIC_BLOB_FILES :: "string list" where
  "STOCK_KEENETIC_BLOB_FILES = [''tls_clienthello.bin'', ''quic_initial.bin'']"

definition blob_copy_comment :: "conf_env \<Rightarrow> string \<Rightarrow> string \<Rightarrow> string option" where
  "blob_copy_comment env name pre =
     (case blob_export_filename name of
        None \<Rightarrow> None
      | Some fname \<Rightarrow>
          if fname \<in> set STOCK_KEENETIC_BLOB_FILES then None
          else (let dest = pre @ ''/blobs/'' @ fname
                in Some (case resolve_blob_path (cv_blobs env) None name of
                           Some src \<Rightarrow> ''# COPY blob: '' @ src @ '' -> '' @ dest
                         | None \<Rightarrow> ''# COPY blob: <missing '' @ name @ ''> -> '' @ dest)))"

definition ipset_export_path :: "string \<Rightarrow> string" where
  "ipset_export_path pre = pre @ ''/lists/user.ipset''"

definition blob_copy_comments :: "conf_env \<Rightarrow> string list \<Rightarrow> string \<Rightarrow> string list" where
  "blob_copy_comments env names pre = fromkeys (List.map_filter (\<lambda>n. blob_copy_comment env n pre) names)"

definition export_blob_names :: "conf_env \<Rightarrow> string list list \<Rightarrow> string list" where
  "export_blob_names env groups = extract_blob_names (flatten_export_strategies env (concat groups))"

definition add_blobs_from_strategy :: "conf_env \<Rightarrow> string list \<Rightarrow> string \<Rightarrow> (string list \<times> string) result" where
  "add_blobs_from_strategy env lines strategy =
     bind_result (append_blob_cli_lines (cv_blobs env) (Some (be_blob_dir (cv_blobs env))) (extract_blob_names [strategy]) (lines, []))
       (\<lambda>(lines, renames). Inr (lines, apply_blob_renames strategy renames))"

definition DEFAULT_UDP_L7 :: string where
  "DEFAULT_UDP_L7 = ''wireguard,stun,discord,mtproto,unknown''"

definition VOICE_UDP_FILTER :: string where
  "VOICE_UDP_FILTER = ''50000-50100''"

definition build_filter_lines :: "conf_env \<Rightarrow> string \<Rightarrow> string list" where
  "build_filter_lines env protocol =
     (let tcp = ''--qnum='' @ str_int (cv_qnum_tcp env);
          udp = ''--qnum='' @ str_int (cv_qnum_udp env)
      in dict_getd
        [(''http'', [tcp, ''--filter-tcp=80'', ''--filter-l3=ipv4'', ''--filter-l7=http'', ''--ipcache-lifetime=0'',
                    ''--bind-fix4'', ''--payload=http_req'']),
         (''quic'', [udp, ''--filter-udp=443'', ''--filter-l3=ipv4'', ''--filter-l7=quic'', ''--ipcache-lifetime=0'',
                    ''--bind-fix4'', ''--payload=quic_initial'']),
         (''udp_voice'', [udp, ''--filter-udp='' @ VOICE_UDP_FILTER, ''--filter-l3=ipv4'', ''--filter-l7=discord,stun'',
                    ''--ipcache-lifetime=0'', ''--bind-fix4'', ''--payload=discord_ip_discovery,stun,unknown'']),
         (''udp_game'', [udp, ''--filter-udp=1024-65535'', ''--filter-l3=ipv4'', ''--filter-l7='' @ DEFAULT_UDP_L7,
                    ''--ipcache-lifetime=0'', ''--bind-fix4'', ''--payload=unknown''])]
        protocol
        [tcp, ''--filter-tcp=443'', ''--filter-l3=ipv4'', ''--filter-l7=tls'', ''--ipcache-lifetime=0'',
         ''--bind-fix4'', ''--payload=tls_client_hello''])"

definition hash_comment :: "string \<Rightarrow> string" where
  "hash_comment text =
     ''# '' @ replace_char CHR '')'' '']'' (replace_char CHR ''('' ''['' (lstrip_by (\<lambda>c. c = CHR ''#'' \<or> c = CHR '' '') text))"

definition quote_multiline :: "string \<Rightarrow> string" where
  "quote_multiline v =
     [CHR 0x22] @ replace_char (CHR 0x22) [CHR 0x5C, CHR 0x22] (replace_char (CHR 0x5C) [CHR 0x5C, CHR 0x5C] v) @ [CHR 0x22]"

definition STOCK_LUA_NAMES :: "string list" where
  "STOCK_LUA_NAMES = [''zapret-lib.lua'', ''zapret-antidpi.lua'', ''zapret-auto.lua'']"

definition lua_init_lines :: "string \<Rightarrow> string list \<Rightarrow> string list" where
  "lua_init_lines pre extra = map (\<lambda>name. ''--lua-init=@'' @ pre @ ''/lua/'' @ name) (STOCK_LUA_NAMES @ extra)"

section \<open>Whole configurations\<close>

text \<open>The optional arguments of the builders: \<open>None\<close> and an empty value mean the same.\<close>

record conf_args =
  ca_tcp :: "string list"
  ca_udp :: "string list"
  ca_quic :: "string list"
  ca_comment :: string
  ca_domains :: "string list"
  ca_ipset_ips :: "string list"
  ca_ipset_file :: string

abbreviation nl :: string where "nl \<equiv> [CHR 0x0A]"

definition opt_line :: "string \<Rightarrow> string \<Rightarrow> string list" where
  "opt_line pre v = (if v = [] then [] else [pre @ v])"

definition CIRCULAR :: string where
  "CIRCULAR = ''circular:fails=2:time=300:retrans=3:nld=2''"

definition DEFAULT_UDP_FILTER :: string where
  "DEFAULT_UDP_FILTER = ''590-600,1400,3478-3481,5349,19294-19344,49152-65535''"

definition DEFAULT_UDP_PORTS :: string where
  "DEFAULT_UDP_PORTS = ''443,590:600,1400,3478:3481,5349,19294:19344,49152:65535''"

definition DEFAULT_UDP_PAYLOAD :: string where
  "DEFAULT_UDP_PAYLOAD =
     ''wireguard_initiation,wireguard_response,wireguard_cookie,stun,discord_ip_discovery,mtproto_initial,unknown''"

definition keenetic_copy_header :: "conf_env \<Rightarrow> string list \<Rightarrow> string list \<Rightarrow> string list \<Rightarrow> string \<Rightarrow> string \<Rightarrow> string list" where
  "keenetic_copy_header env tcp udp quic pre ipset_file =
     (let cores = flatten_export_strategies env (tcp @ udp @ quic);
          names = export_blob_names env [tcp, udp, quic]
      in [''# Uncommented paths: '' @ pre @ ''/{blobs,lua,lists} only.'',
          ''# --filter-l7 is the flow protocol; --payload is packet type (sticky until the next --payload=).''] @
         custom_lua_copy_comments env (join_with nl cores) pre @
         blob_copy_comments env names pre @
         (if ipset_file = [] then [] else [''# COPY ipset: '' @ ipset_file @ '' -> '' @ ipset_export_path pre]))"

text \<open>The four argument lists of the exported file.\<close>

definition keenetic_base_args :: "conf_env \<Rightarrow> string \<Rightarrow> conf_args \<Rightarrow> string list" where
  "keenetic_base_args env pre a =
     lua_init_lines pre (custom_lua_files_for env (flatten_export_strategies env (ca_tcp a @ ca_udp a @ ca_quic a))) @
     List.map_filter (\<lambda>n. blob_export_cli_line n pre) (export_blob_names env [ca_tcp a, ca_udp a, ca_quic a]) @
     (if ca_ipset_file a \<noteq> [] then [''--ipset=@'' @ ipset_export_path pre]
      else if ca_ipset_ips a \<noteq> [] then [''--ipset-ip='' @ join_with '','' (ca_ipset_ips a)] else [])"

definition keenetic_tcp_args :: "conf_env \<Rightarrow> string list \<Rightarrow> string list" where
  "keenetic_tcp_args env tcp =
     [''--filter-tcp=443,80,1984,5222'', ''--filter-l7=http,tls,mtproto'', ''--payload=tls_client_hello,mtproto_initial''] @
     (if flatten_export_strategies env tcp \<noteq> []
      then [''--out-range=-s34228'', ''--in-range=-s5556 --lua-desync='' @ CIRCULAR, ''--in-range=x''] else []) @
     desync_cli_lines env tcp @ [''--payload=http_req'', ''--lua-desync=http_methodeol:badsum'']"

definition keenetic_quic_args :: "conf_env \<Rightarrow> string list \<Rightarrow> string list" where
  "keenetic_quic_args env quic =
     [''--filter-udp=443'', ''--filter-l7=quic'', ''--payload=quic_initial''] @ desync_cli_lines env quic"

definition keenetic_udp_args :: "conf_env \<Rightarrow> string list \<Rightarrow> string list" where
  "keenetic_udp_args env udp =
     [''--filter-udp='' @ DEFAULT_UDP_FILTER, ''--filter-l7='' @ DEFAULT_UDP_L7, ''--out-range=<n2'',
      ''--payload='' @ DEFAULT_UDP_PAYLOAD] @
     (if flatten_export_strategies env udp \<noteq> [] then [''--lua-desync='' @ CIRCULAR] else []) @
     desync_cli_lines env udp"

definition keenetic_mode :: "string \<Rightarrow> string" where
  "keenetic_mode mode =
     dict_getd [(''auto'', ''$MODE_AUTO''), (''list'', ''$MODE_LIST''), (''all'', ''$MODE_ALL'')] (lower mode) ''$MODE_AUTO''"

definition export_filtered :: "conf_env \<Rightarrow> conf_args \<Rightarrow> conf_args" where
  "export_filtered env a =
     a\<lparr>ca_tcp := filter_export_strategies env (ca_tcp a), ca_udp := filter_export_strategies env (ca_udp a),
       ca_quic := filter_export_strategies env (ca_quic a)\<rparr>"

definition shell_args :: "string list \<Rightarrow> string" where
  "shell_args args = join_with (nl @ '' '') args"

definition keenetic_header :: "conf_env \<Rightarrow> string \<Rightarrow> conf_args \<Rightarrow> string list" where
  "keenetic_header env pre b =
     [''# Generated by blockcheckS nfconf at '' @ cv_timestamp env] @ opt_line ''# '' (ca_comment b) @
     keenetic_copy_header env (ca_tcp b) (ca_udp b) (ca_quic b) pre (ca_ipset_file b) @
     (if ca_domains b = [] then []
      else [''# domains ('' @ digits_of_nat (length (ca_domains b)) @ ''): '' @ join_with '','' (take 8 (ca_domains b)) @
            (if 8 < length (ca_domains b) then ''...'' else [])]) @
     [''# Format: nfqws2-keenetic etc/nfqws2/nfqws2.conf'', []]"

definition keenetic_body :: "conf_env \<Rightarrow> string \<Rightarrow> string \<Rightarrow> string \<Rightarrow> conf_args \<Rightarrow> string" where
  "keenetic_body env isp_interface pre mode b =
     concat (map (\<lambda>l. l @ nl)
       [''# Provider network interface'',
        ''ISP_INTERFACE='' @ quote_multiline isp_interface, [],
        ''# Startup arguments'',
        ''NFQWS_BASE_ARGS='' @ quote_multiline (shell_args (keenetic_base_args env pre b)), [],
        ''# HTTP(S) strategy'',
        ''NFQWS_ARGS='' @ quote_multiline (shell_args (keenetic_tcp_args env (ca_tcp b))), [],
        ''# QUIC strategy'',
        ''NFQWS_ARGS_QUIC='' @ quote_multiline (shell_args (keenetic_quic_args env (ca_quic b))), [],
        ''# UDP strategy (doesn'' @ [CHR 0x27] @ ''t use lists from NFQWS_EXTRA_ARGS)'',
        ''NFQWS_ARGS_UDP='' @ quote_multiline (shell_args (keenetic_udp_args env (ca_udp b))), [],
        ''# $MODE_AUTO / $MODE_LIST / $MODE_ALL - defined by keenetic init scripts'',
        ''NFQWS_EXTRA_ARGS='' @ [CHR 0x22] @ keenetic_mode mode @ [CHR 0x22], [],
        ''# UDP ports for iptables rules'',
        ''UDP_PORTS='' @ DEFAULT_UDP_PORTS])"

definition build_keenetic_conf :: "conf_env \<Rightarrow> string \<Rightarrow> string \<Rightarrow> string \<Rightarrow> conf_args \<Rightarrow> string" where
  "build_keenetic_conf env isp_interface pre mode a =
     (let quic = (if ca_quic a = [] then [''fake:blob=quic_initial:repeats=11''] else ca_quic a);
          b = export_filtered env (a\<lparr>ca_quic := quic\<rparr>)
      in join_with nl (keenetic_header env pre b) @ keenetic_body env isp_interface pre mode b)"

definition raw_profile :: "string \<Rightarrow> string list \<Rightarrow> string list \<Rightarrow> conf_env \<Rightarrow> string list \<Rightarrow> string list" where
  "raw_profile new shared filters env strategies =
     (if strategies = [] then [] else [new] @ shared @ filters @ desync_cli_lines env strategies)"

definition build_raw_conf_lines :: "conf_env \<Rightarrow> string \<Rightarrow> int \<Rightarrow> conf_args \<Rightarrow> string list result" where
  "build_raw_conf_lines env blobs_dir qnum_tcp a =
     (let b = export_filtered env a;
          cores = flatten_export_strategies env (ca_tcp b @ ca_udp b @ ca_quic b);
          extra_lua = custom_lua_files_for env cores;
          isfile = be_isfile (cv_blobs env);
          lua_inits = map (\<lambda>p. ''--lua-init=@'' @ p) (filter (cv_exists env) (cv_lua_init_scripts env)) @
            map (\<lambda>f. ''--lua-init=@'' @ path_join (cv_lua_custom_dir env) f)
              (filter (\<lambda>f. isfile (path_join (cv_lua_custom_dir env) f)) extra_lua);
          hostlist = (if ca_domains b = [] then [] else [''--hostlist-domains='' @ join_with '','' (ca_domains b)]);
          ipset = (if ca_ipset_file b \<noteq> [] then [''--ipset=@'' @ ca_ipset_file b]
                   else if ca_ipset_ips b \<noteq> [] then [''--ipset-ip='' @ join_with '','' (ca_ipset_ips b)] else []);
          shared = ipset @ hostlist
      in bind_result (blob_cli_lines (cv_blobs env) (Some blobs_dir) (extract_blob_names cores)) (\<lambda>blob_lines.
         Inr ([hash_comment (''blockcheckS raw nfqws2 conf host-oriented '' @ cv_timestamp env)] @
              (if ca_comment b = [] then [] else [hash_comment (ca_comment b)]) @
              custom_lua_copy_comments env (join_with nl cores) DEFAULT_KEENETIC_PREFIX @
              [''--qnum='' @ str_int qnum_tcp, ''--ipcache-lifetime=0'', ''--bind-fix4''] @ lua_inits @ blob_lines @ shared @
              [''--filter-tcp=443'', ''--filter-l3=ipv4'', ''--filter-l7=tls'', ''--payload=tls_client_hello''] @
              desync_cli_lines env (ca_tcp b) @
              raw_profile ''--new=quic'' shared [''--filter-udp=443'', ''--filter-l7=quic'', ''--payload=quic_initial''] env (ca_quic b) @
              raw_profile ''--new=voice'' shared
                [''--filter-udp=50000-50100'', ''--filter-l3=ipv4'', ''--filter-l7=discord,stun'',
                 ''--payload=discord_ip_discovery,stun,unknown''] env (ca_udp b))))"

definition build_raw_conf :: "conf_env \<Rightarrow> string \<Rightarrow> int \<Rightarrow> conf_args \<Rightarrow> string result" where
  "build_raw_conf env blobs_dir qnum_tcp a =
     bind_result (build_raw_conf_lines env blobs_dir qnum_tcp a) (\<lambda>lines. Inr (join_with nl lines @ nl))"

text \<open>The text of \<^verbatim>\<open>user.list\<close>.\<close>

definition write_user_list :: "string list \<Rightarrow> string" where
  "write_user_list ds =
     concat (map (\<lambda>d. d @ nl) (filter (\<lambda>d. d \<noteq> [] \<and> \<not> startswith d ''#'') (map strip ds)))"

text \<open>What the bundle puts beside the configuration: files to copy, as source and destination.\<close>

definition write_export_bundle :: "conf_env \<Rightarrow> string \<Rightarrow> string list \<Rightarrow> string list \<Rightarrow> string list \<Rightarrow> string \<Rightarrow> (string \<times> string) list" where
  "write_export_bundle env out_dir tcp udp quic ipset_file =
     (let cores = flatten_export_strategies env (tcp @ udp @ quic);
          isfile = be_isfile (cv_blobs env)
      in List.map_filter (\<lambda>name.
            case (blob_export_filename name, resolve_blob_path (cv_blobs env) None name) of
              (Some fname, Some src) \<Rightarrow>
                if fname \<in> set STOCK_KEENETIC_BLOB_FILES \<or> \<not> isfile src then None
                else Some (src, path_join (path_join out_dir ''blobs'') fname)
            | _ \<Rightarrow> None) (extract_blob_names cores) @
         map (\<lambda>f. (path_join (cv_lua_custom_dir env) f, path_join (path_join out_dir ''lua'') f))
           (filter (\<lambda>f. isfile (path_join (cv_lua_custom_dir env) f)) (custom_lua_files_for env cores)) @
         (if ipset_file \<noteq> [] \<and> isfile ipset_file
          then [(ipset_file, path_join (path_join out_dir ''lists'') ''user.ipset'')] else []))"

section \<open>Quoting\<close>

text \<open>
  The reference: how a POSIX shell reads a word in double quotes. A backslash escapes a dollar sign,
  a backquote, a double quote or a backslash and disappears with a line end; an unescaped dollar sign
  or backquote starts an expansion, which the reader refuses.
\<close>

fun dquote_read :: "string \<Rightarrow> (string \<times> string) option" where
  "dquote_read [] = None"
| "dquote_read [c] = (if c = CHR 0x22 then Some ([], []) else None)"
| "dquote_read (c # d # r) =
     (if c = CHR 0x22 then Some ([], d # r)
      else if c = CHR ''$'' \<or> c = CHR 0x60 then None
      else if c = CHR 0x5C then
        (if d = CHR ''$'' \<or> d = CHR 0x60 \<or> d = CHR 0x22 \<or> d = CHR 0x5C
         then map_option (\<lambda>(v, rest). (d # v, rest)) (dquote_read r)
         else if d = CHR 0x0A then dquote_read r
         else map_option (\<lambda>(v, rest). (c # v, rest)) (dquote_read (d # r)))
      else map_option (\<lambda>(v, rest). (c # v, rest)) (dquote_read (d # r)))"

definition shell_word :: "string \<Rightarrow> (string \<times> string) option" where
  "shell_word s = (case s of c # r \<Rightarrow> if c = CHR 0x22 then dquote_read r else None | [] \<Rightarrow> None)"

definition esc_char :: "char \<Rightarrow> string" where
  "esc_char c = (if c = CHR 0x5C \<or> c = CHR 0x22 then [CHR 0x5C, c] else [c])"

lemma quote_multiline_esc: "quote_multiline v = [CHR 0x22] @ concat (map esc_char v) @ [CHR 0x22]"
proof -
  have "replace_char (CHR 0x22) [CHR 0x5C, CHR 0x22] (replace_char (CHR 0x5C) [CHR 0x5C, CHR 0x5C] v) = concat (map esc_char v)"
    by (induction v) (auto simp: esc_char_def)
  then show ?thesis by (simp add: quote_multiline_def)
qed

lemma dquote_read_Cons:
  "x \<noteq> [] \<Longrightarrow> c \<noteq> CHR 0x22 \<Longrightarrow> c \<noteq> CHR ''$'' \<Longrightarrow> c \<noteq> CHR 0x60 \<Longrightarrow> c \<noteq> CHR 0x5C \<Longrightarrow>
   dquote_read (c # x) = map_option (\<lambda>(v, rest). (c # v, rest)) (dquote_read x)"
  by (cases x) auto

lemma dquote_read_esc:
  "CHR ''$'' \<notin> set v \<Longrightarrow> CHR 0x60 \<notin> set v \<Longrightarrow> dquote_read (concat (map esc_char v) @ CHR 0x22 # rest) = Some (v, rest)"
proof (induction v)
  case Nil
  then show ?case by (cases rest) auto
next
  case (Cons c v)
  then show ?case
    by (cases "c = CHR 0x5C \<or> c = CHR 0x22") (auto simp: esc_char_def dquote_read_Cons)
qed

text \<open>
  Quoting round trip: a value without dollar signs and backquotes is written so that the shell
  that sources the file reads exactly that value, with its line ends, quotes and backslashes, and
  stops where the value ends.
\<close>

theorem quote_roundtrip:
  assumes "CHR ''$'' \<notin> set v" and "CHR 0x60 \<notin> set v"
  shows "shell_word (quote_multiline v @ rest) = Some (v, rest)"
  using dquote_read_esc [OF assms] by (simp add: shell_word_def quote_multiline_esc)

theorem quote_roundtrip_witness:
  "shell_word (quote_multiline [CHR ''a'', CHR 0x22, CHR 0x5C, CHR 0x0A] @ nl) = Some ([CHR ''a'', CHR 0x22, CHR 0x5C, CHR 0x0A], nl)"
  by (rule quote_roundtrip) simp_all

text \<open>A dollar sign is not escaped: the shell expands it instead of reading the value.\<close>

lemma quote_leaves_expansion: "shell_word (quote_multiline ''$(id)'') = None"
  by (simp add: shell_word_def quote_multiline_esc esc_char_def)

section \<open>The exported lines\<close>

lemma set_strip_sub: "c \<in> set (strip s) \<Longrightarrow> c \<in> set s"
  unfolding strip_def strip_by_def by (auto dest!: set_dropWhileD)

lemma split_char_no_sep: "w \<in> set (split_char c s) \<Longrightarrow> c \<notin> set w"
  by (induction c s arbitrary: w rule: split_char.induct) (auto split: if_splits list.splits)

lemma split_from_chars:
  "w \<in> set (split_from sep cur k s) \<Longrightarrow> c \<in> set w \<Longrightarrow> c \<in> set cur \<union> set s"
  by (induction sep cur k s arbitrary: w rule: split_from.induct) (fastforce split: if_splits)+

lemma split_cli_args_chars:
  assumes "a \<in> set (split_cli_args part)" and "c \<in> set a" and "c \<noteq> CHR ''-''"
  shows "c \<in> set part"
proof -
  from assms obtain w where "w \<in> set (split_str '' --'' part)" and "c \<in> set (strip w)"
    by (auto simp: split_cli_args_def split: if_splits)
  then show ?thesis
    using split_from_chars [of w "'' --''" "[]" 0 part c] set_strip_sub [of c w] by (simp add: split_str_def)
qed

lemma conf_cores_ok:
  "p \<in> set (lua_desync_cores_from_conf env path) \<Longrightarrow> is_lua_function_core p \<and> CHR 0x0A \<notin> set p"
proof
  assume p: "p \<in> set (lua_desync_cores_from_conf env path)"
  then show "is_lua_function_core p" by (auto simp: lua_desync_cores_from_conf_def split: option.splits)
  from p obtain t l where "l \<in> set (splitlines t)" and pl: "p = strip (drop (length LUA_DESYNC) (strip l))"
    by (auto simp: lua_desync_cores_from_conf_def split: option.splits)
  moreover have "line_break (CHR 0x0A)" by (simp add: line_break_def Let_def)
  ultimately have "CHR 0x0A \<notin> set l"
    using lines_from_no_break [of "[]" l t] by (auto simp: splitlines_def)
  with pl show "CHR 0x0A \<notin> set p" by (auto dest!: set_strip_sub in_set_dropD)
qed

definition exportable :: "string \<Rightarrow> bool" where
  "exportable p =
     (CHR 0x0A \<notin> set p \<and> (is_lua_function_core p \<or> startswith p ''--'' \<and> \<not> contains ''/'' p))"

lemma export_part_ok:
  assumes "CHR 0x0A \<notin> set part" and p: "p \<in> set (export_part env part)"
  shows "exportable p"
proof -
  have arg: "CHR 0x0A \<notin> set (drop n a)" if "a \<in> set (split_cli_args part)" for a n
    using split_cli_args_chars [OF that, of "CHR 0x0A"] assms(1) by (auto dest!: in_set_dropD)
  have core: "CHR 0x0A \<notin> set (strip (drop n part))" for n
    using assms(1) by (auto dest!: set_strip_sub in_set_dropD)
  show ?thesis
    using p assms(1) arg core unfolding export_part_def exportable_def Let_def
    by (auto split: if_splits dest: conf_cores_ok)
qed

lemma strategy_parts_ok: "p \<in> set (strategy_parts_for_export env strat) \<Longrightarrow> exportable p"
proof -
  assume p: "p \<in> set (strategy_parts_for_export env strat)"
  have part: "CHR 0x0A \<notin> set (strip w)" if "w \<in> set (split_char CHR 0x0A t)" for w t
    using split_char_no_sep [OF that] by (auto dest: set_strip_sub)
  from p consider "p \<in> set (lua_desync_cores_from_conf env (strip strat))"
    | w where "w \<in> set (split_char CHR 0x0A (strip strat))" "p \<in> set (export_part env (strip w))"
    by (auto simp: strategy_parts_for_export_def Let_def split: if_splits)
  then show ?thesis
  proof cases
    case 1
    then show ?thesis using conf_cores_ok by (simp add: exportable_def)
  next
    case 2
    then show ?thesis using export_part_ok [OF part] by blast
  qed
qed

lemma decimal_word: "is_decimal c \<Longrightarrow> is_word c"
  by (simp add: is_word_def is_digit_def Let_def)

lemma run_tag:
  "re_run STRATEGY_TAG_RE (b, a) \<noteq> [] \<longleftrightarrow>
   (\<exists>d v. a = '':strategy='' @ d @ v \<and> d \<noteq> [] \<and> list_all is_decimal d \<and> (v = [] \<or> \<not> is_word (hd v)))"
  (is "?L \<longleftrightarrow> ?R")
proof
  assume ?L
  then obtain x xs b' a' where a: "a = '':strategy='' @ x # xs" and x: "is_decimal x"
    and e: "(b', a') \<in> set (star_ends is_decimal (x # rev '':strategy='' @ b) xs)" and bd: "at_boundary (b', a')"
    by (auto simp: STRATEGY_TAG_RE_def rplus_def re_run_rlit prefix_def split: if_splits list.splits simp del: rlit.simps append_Cons)
  from star_ends_consume [OF e] obtain w where w: "xs = w @ a'" "b' = rev w @ x # rev '':strategy='' @ b" "\<forall>c \<in> set w. is_decimal c"
    by blast
  have "is_word (hd b')" "b' \<noteq> []" using w x by (cases "rev w"; auto intro: decimal_word simp: in_set_conv_decomp)+
  with bd have "a' = [] \<or> \<not> is_word (hd a')" by (auto simp: at_boundary_def split: list.splits)
  with a x w show ?R by (intro exI [of _ "x # w"] exI [of _ a']) (auto simp: list_all_iff)
next
  assume ?R
  then obtain e v where e: "a = '':strategy='' @ e @ v" "e \<noteq> []" "list_all is_decimal e"
    and v: "v = [] \<or> \<not> is_word (hd v)" by blast
  then obtain x d where xd: "e = x # d" by (cases e) auto
  with e have a: "a = '':strategy='' @ (x # d) @ v" and d: "is_decimal x" "list_all is_decimal d" by simp_all
  have "(rev d @ x # rev '':strategy='' @ b, v) \<in> set (star_ends is_decimal (x # rev '':strategy='' @ b) (d @ v))"
    using d(2) by (intro star_ends_all) (simp add: list_all_iff)
  moreover have "at_boundary (rev d @ x # rev '':strategy='' @ b, v)"
    using d v by (cases "rev d"; cases v) (auto simp: at_boundary_def decimal_word list_all_iff in_set_conv_decomp dest: arg_cong [of _ _ set])
  ultimately show ?L
    using a d(1) by (fastforce simp: STRATEGY_TAG_RE_def rplus_def re_run_rlit simp del: rlit.simps)
qed

lemma found_tag_iff:
  "re_found STRATEGY_TAG_RE s \<longleftrightarrow>
   (\<exists>u d v. s = u @ '':strategy='' @ d @ v \<and> d \<noteq> [] \<and> list_all is_decimal d \<and> (v = [] \<or> \<not> is_word (hd v)))"
  unfolding re_found_iff run_tag by blast

lemma ensure_strategy_n_tagged: "re_found STRATEGY_TAG_RE (ensure_strategy_n strategy n)"
proof (cases "re_found STRATEGY_TAG_RE (strip strategy)")
  case True
  then show ?thesis by (simp add: ensure_strategy_n_def)
next
  case False
  have "list_all is_decimal (digits_of_nat n)" by (auto simp: list_all_iff digits_of_nat_decimal)
  then have "re_found STRATEGY_TAG_RE (strip strategy @ '':strategy='' @ digits_of_nat n @ [])"
    unfolding found_tag_iff
    by (intro exI [of _ "strip strategy"] exI [of _ "digits_of_nat n"] exI [of _ "[]"]) simp
  with False show ?thesis by (simp add: ensure_strategy_n_def)
qed

text \<open>Escaping neither breaks a tag apart nor joins it to what follows.\<close>

lemma escape_keeps_decimals: "list_all is_decimal d \<Longrightarrow> escape_conf_lt d = d"
  by (induction d) (auto simp: escape_conf_lt_def is_decimal_def)

lemma escape_append: "escape_conf_lt (a @ b) = escape_conf_lt a @ escape_conf_lt b"
  by (simp add: escape_conf_lt_def)

lemma escape_hd: "v = [] \<or> \<not> is_word (hd v) \<Longrightarrow> escape_conf_lt v = [] \<or> \<not> is_word (hd (escape_conf_lt v))"
  by (cases v) (auto simp: escape_conf_lt_def is_word_def is_ascii_letter_def is_digit_def is_decimal_def Let_def)

lemma escape_keeps_tag: "re_found STRATEGY_TAG_RE s \<Longrightarrow> re_found STRATEGY_TAG_RE (escape_conf_lt s)"
proof -
  assume "re_found STRATEGY_TAG_RE s"
  then obtain u d v where s: "s = u @ '':strategy='' @ d @ v" and d: "d \<noteq> []" "list_all is_decimal d"
    and v: "v = [] \<or> \<not> is_word (hd v)"
    unfolding found_tag_iff by blast
  have "escape_conf_lt '':strategy='' = '':strategy=''" by (simp add: escape_conf_lt_def)
  with s d have "escape_conf_lt s = escape_conf_lt u @ '':strategy='' @ d @ escape_conf_lt v"
    by (simp only: escape_append escape_keeps_decimals)
  with d escape_hd [OF v] show ?thesis unfolding found_tag_iff by blast
qed

lemma set_escape: "c \<in> set (escape_conf_lt s) \<Longrightarrow> c = CHR 0x5C \<or> c \<in> set s"
  by (auto simp: escape_conf_lt_def replace_char_def split: if_splits)

lemma contains_char: "contains [c] s \<longleftrightarrow> c \<in> set s"
  by (auto simp: contains_iff sublist_def in_set_conv_decomp)

lemma desync_line_ok:
  assumes "exportable part"
  shows "CHR 0x0A \<notin> set (desync_line i part)"
    and "startswith (desync_line i part) ''--''"
    and "startswith part ''--'' \<Longrightarrow> \<not> contains ''/'' (desync_line i part)"
    and "\<not> startswith part ''--'' \<Longrightarrow>
         \<exists>core. desync_line i part = LUA_DESYNC @ core \<and> re_found STRATEGY_TAG_RE core"
proof -
  have digits: "CHR 0x0A \<notin> set (digits_of_nat i)"
    using digits_of_nat_decimal [of "CHR 0x0A" i] by (auto simp: is_decimal_def)
  show "CHR 0x0A \<notin> set (desync_line i part)"
    using assms digits
    by (auto simp: desync_line_def exportable_def ensure_strategy_n_def Let_def LUA_DESYNC_def
        dest!: set_escape split: if_splits dest: set_strip_sub)
  show "startswith (desync_line i part) ''--''"
    by (cases "startswith part ''--''")
       (auto simp: desync_line_def LUA_DESYNC_def startswith_iff prefix_def escape_conf_lt_def)
  show "\<not> contains ''/'' (desync_line i part)" if "startswith part ''--''"
    using assms that
    by (auto simp: desync_line_def exportable_def is_lua_function_core_def contains_char dest!: set_escape)
  show "\<exists>core. desync_line i part = LUA_DESYNC @ core \<and> re_found STRATEGY_TAG_RE core" if "\<not> startswith part ''--''"
    using that escape_keeps_tag [OF ensure_strategy_n_tagged] by (auto simp: desync_line_def)
qed


definition sample_conf_env :: conf_env where
  "sample_conf_env = \<lparr>cv_blobs = sample_blob_env, cv_manifest = [], cv_read_text = (\<lambda>p. None), cv_exists = (\<lambda>p. False),
     cv_resolve = id, cv_lua_custom_dir = ''lua'', cv_lua_init_scripts = [], cv_qnum_tcp = 200, cv_qnum_udp = 201,
     cv_timestamp = ''now''\<rparr>"

lemma sample_lines:
  "desync_cli_lines sample_conf_env [''fake:blob=x<2''] = [''--lua-desync=fake:blob=x'' @ [CHR 0x5C] @ ''<2:strategy=1'']"
  by code_simp


text \<open>
  A range check that skips a value: the expression consumes the colon after one time-to-live, so the
  option right behind it is not seen.
\<close>

lemma second_ttl_unchecked:
  "core_ttl_ok ''fake:ip_ttl=5:ip6_ttl=300'' \<and> \<not> core_ttl_ok ''fake:ip6_ttl=300''"
  by code_simp

end
