(* ===== verification/FamilyAxes.thy ===== *)
theory FamilyAxes
  imports TriagePrune
begin

text \<open>
  \<^verbatim>\<open>engine/family_axes.py\<close>: the constants of a scan and the axis table of every strategy family, and
  the part of \<^verbatim>\<open>generators/families/_helpers.py\<close> that reads a table. A table is a dictionary; its values
  carry their Python type as a constructor. Numbers that are only ever printed (fragment positions,
  \<^verbatim>\<open>ipfrag_next\<close>) are kept as the text they print as.
\<close>

section \<open>Axis tables\<close>

datatype axis =
    Strs "string list"
  | Ints "int list"
  | Flag bool
  | Bools "bool list"
  | Text string
  | Pairs "(string \<times> string) list"
  | Triples "(string \<times> string \<times> string) list"
  | IntPairs "(int \<times> int) list"
  | Opts "string option list"

type_synonym family = "(string, axis) dict"

definition ALL_FOOLINGS_TCP :: "string list" where
  "ALL_FOOLINGS_TCP =
     [[], ''tcp_md5'', ''badsum'', ''tcp_seq=-3000'', ''tcp_seq=1000000'', ''tcp_ack=-66000:tcp_ts_up'',
        ''tcp_ts=-1000'', ''tcp_flags_unset=ACK'', ''tcp_flags_set=SYN'']"

definition ALL_FOOLINGS_UDP :: "string list" where
  "ALL_FOOLINGS_UDP =
     [''badsum'']"

definition ALL_FOOLINGS_IPV6 :: "string list" where
  "ALL_FOOLINGS_IPV6 =
     [''ip6_hopbyhop'', ''ip6_hopbyhop:ip6_hopbyhop2'', ''ip6_destopt'', ''ip6_routing'', ''ip6_ah'']"

definition FAST_FOOLINGS_IPV6 :: "string list" where
  "FAST_FOOLINGS_IPV6 =
     [''ip6_hopbyhop'', ''ip6_destopt'']"

definition ALL_REPEATS :: "int list" where
  "ALL_REPEATS =
     [6, 3, 1, 8, 10, 11, 12, 2, 4, 5, 7, 9, 14, 15, 20]"

definition ALL_TTL :: "int list" where
  "ALL_TTL =
     [1, 5, 7, 12, 63, 64, 127, 128, 255]"

definition ALL_AUTOTTL :: "string list" where
  "ALL_AUTOTTL =
     [''-1,3-20'', ''-2,5-15'', ''-3,7-12'', ''-4,3-20'', ''-5,5-15'']"

definition ALL_SPLIT_POSITIONS :: "string list" where
  "ALL_SPLIT_POSITIONS =
     [''1'', ''2'', ''3'', ''23'', ''45'', ''midsld'', ''sniext+1'', ''sniext+4'', ''host+1'',
        ''1,midsld'', ''1,midsld,1220'', ''1,sniext+1,host+1,midsld-2,midsld,midsld+2,endhost-1'']"

definition ALL_SEQOVL :: "int list" where
  "ALL_SEQOVL =
     [1, 568, 652, 664, 679, 681]"

definition TLS_MODS :: "string list" where
  "TLS_MODS =
     [[], ''rnd'', ''rnd,dupsid'', ''rnd,dupsid,padencap'', ''rnd,dupsid,sni=www.google.com'',
        ''rnd,dupsid,sni=fonts.google.com'', ''rnd,dupsid,sni=ya.ru'']"

definition ALL_BLOBS_TCP :: "string list" where
  "ALL_BLOBS_TCP =
     [''0x00000000'', ''stun'', ''max_ru'', ''google'', ''4pda'']"

definition FAST_FOOLINGS_TCP :: "string list" where
  "FAST_FOOLINGS_TCP =
     [''tcp_ts=-1000'', [], ''tcp_md5'', ''badsum'', ''tcp_ack=-66000:tcp_ts_up'',
        ''tcp_md5:tcp_ts=-1000'', ''tcp_seq=-3000'', ''tcp_seq=1000000'', ''tcp_flags_unset=ACK'',
        ''tcp_flags_set=SYN'']"

definition FAST_REPEATS :: "int list" where
  "FAST_REPEATS =
     [6, 8, 3, 11, 12, 4, 14]"

definition axes_fake :: family where
  "axes_fake =
    [(''blobs'', Strs ALL_BLOBS_TCP),
     (''repeats'', Ints FAST_REPEATS),
     (''foolings'', Strs FAST_FOOLINGS_TCP),
     (''ttl_static'', Ints ALL_TTL),
     (''ttl_auto'', Strs ALL_AUTOTTL),
     (''tls_mods'', Strs (take 3 TLS_MODS)),
     (''ack_drop'', Flag True),
     (''send_md5'', Flag True)]"

definition axes_hostfake :: family where
  "axes_hostfake =
    [(''foolings'', Strs (filter (\<lambda>f. f \<noteq> []) (take 5 FAST_FOOLINGS_TCP))),
     (''variants'', Strs [''base'', ''disorder'', ''nofake1'', ''midhost=midsld'', ''nodrop'']),
     (''ttl_static'', Ints ALL_TTL),
     (''ttl_auto'', Strs ALL_AUTOTTL),
     (''ack_drop'', Flag True),
     (''send_md5'', Flag True)]"

definition axes_multisplit :: family where
  "axes_multisplit =
    [(''repeats'', Ints [1, 6, 11]),
     (''positions'', Strs ALL_SPLIT_POSITIONS),
     (''foolings'', Strs (take 4 FAST_FOOLINGS_TCP)),
     (''seqovl'', Ints ALL_SEQOVL),
     (''seqovl_blobs'', Strs ALL_BLOBS_TCP),
     (''ttl_static'', Ints ALL_TTL),
     (''ttl_auto'', Strs ALL_AUTOTTL),
     (''padencap'', Flag True)]"

definition axes_multidisorder :: family where
  "axes_multidisorder =
    [(''positions'', Strs [''1'', ''2'', ''midsld'', ''method+2'', ''1,midsld'']),
     (''foolings'', Strs (take 4 FAST_FOOLINGS_TCP)),
     (''seqovl'', Ints [664, 681]),
     (''seqovl_blobs'', Strs ALL_BLOBS_TCP),
     (''padencap'', Flag True)]"

definition axes_syndata :: family where
  "axes_syndata =
    [(''blobs'', Strs [''0x1603'', ''fake_default_tls'', []]),
     (''tls_mods'', Strs [[], ''rnd,dupsid'', ''rnd,dupsid,sni=www.google.com'']),
     (''plus_split'', Bools [False, True]),
     (''plus_hostfake'', Flag True)]"

definition axes_tcpseg :: family where
  "axes_tcpseg =
    [(''positions'', Strs [''0,1'', ''0,midsld'']),
     (''repeats'', Ints [1, 20, 100, 260]),
     (''ip_id'', Text ''rnd'')]"

definition axes_oob :: family where
  "axes_oob =
    [(''urps'', Strs [''b'', ''0'', ''2'', ''midsld'']),
     (''in_range'', Text ''-s1'')]"

definition axes_multi_fake :: family where
  "axes_multi_fake =
    [(''blob_pairs'', Pairs [(''stun'', ''max_ru''), (''max_ru'', ''stun''), (''stun'', ''google''), (''google'', ''stun''),
        (''max_ru'', ''google''), (''google'', ''max_ru''), (''stun'', ''4pda''), (''4pda'', ''stun'')]),
     (''repeat_pairs'', IntPairs [(6, 6), (6, 3), (8, 6), (3, 6)]),
     (''foolings'', Strs [''tcp_ts=-1000'', ''tcp_md5'', ''badsum'', []])]"

definition axes_triple_fake :: family where
  "axes_triple_fake =
    [(''triples'', Triples [(''stun'', ''max_ru'', ''google''), (''stun'', ''google'', ''max_ru''),
        (''max_ru'', ''stun'', ''google''), (''google'', ''stun'', ''max_ru'')]),
     (''repeats'', Ints [6, 3]),
     (''foolings'', Strs [''tcp_ts=-1000'', ''badsum'', []])]"

definition axes_fake_multisplit :: family where
  "axes_fake_multisplit =
    [(''blob_pairs'', Pairs [(''stun'', ''max_ru''), (''stun'', ''google''), (''max_ru'', ''google''), (''stun'', ''4pda''),
        (''google'', ''max_ru''), (''4pda'', ''google'')]),
     (''pattern_blobs'', Strs ALL_BLOBS_TCP),
     (''seqovl'', Ints [664, 681, 652]),
     (''positions'', Strs [''2'', ''1,midsld'', ''midsld'']),
     (''repeats'', Ints [6, 3, 8]),
     (''foolings'', Strs [''tcp_ts=-1000'', ''tcp_md5'', ''badsum'', []])]"

definition axes_fake_multisplit_hostfake :: family where
  "axes_fake_multisplit_hostfake =
    [(''blob_pairs'', Pairs [(''google'', ''max_ru''), (''stun'', ''max_ru''), (''stun'', ''google''), (''max_ru'', ''google'')]),
     (''seqovl'', Ints [664, 681]),
     (''positions'', Strs [''1'', ''2'']),
     (''repeats'', Ints [6, 8]),
     (''foolings'', Strs [''tcp_ts=-1000'', ''tcp_md5'', ''badsum'']),
     (''hf_hosts'', Strs [''www.google.com'', ''fonts.google.com''])]"

definition axes_fake_multidisorder :: family where
  "axes_fake_multidisorder =
    [(''blobs'', Strs ALL_BLOBS_TCP),
     (''positions'', Strs [''1'', ''2'', ''midsld'', ''method+2'']),
     (''repeats'', Ints [6, 3, 8, 11]),
     (''foolings'', Strs [''tcp_ts=-1000'', ''tcp_md5'', ''badsum'', []])]"

definition axes_fakedsplit :: family where
  "axes_fakedsplit =
    [(''positions'', Strs [''1'', ''midsld'', ''sniext+1'', ''method+2'']),
     (''pattern_blobs'', Strs ALL_BLOBS_TCP),
     (''foolings'', Strs (filter (\<lambda>f. f \<noteq> []) (take 4 FAST_FOOLINGS_TCP))),
     (''repeats'', Ints [6, 11]),
     (''ack_drop'', Flag True),
     (''send_md5'', Flag True)]"

definition axes_fakeddisorder :: family where
  "axes_fakeddisorder =
    [(''positions'', Strs [''1'', ''midsld'', ''method+2'']),
     (''pattern_blobs'', Strs ALL_BLOBS_TCP),
     (''foolings'', Strs (filter (\<lambda>f. f \<noteq> []) (take 4 FAST_FOOLINGS_TCP))),
     (''repeats'', Ints [6, 11]),
     (''ack_drop'', Flag True),
     (''send_md5'', Flag True)]"

definition axes_fake_fakedsplit :: family where
  "axes_fake_fakedsplit =
    [(''blobs'', Strs ALL_BLOBS_TCP),
     (''positions'', Strs [''1'', ''midsld'', ''method+2'']),
     (''pattern_blobs'', Strs ALL_BLOBS_TCP),
     (''repeats'', Ints [6, 3, 8]),
     (''foolings'', Strs [''tcp_ts=-1000'', ''tcp_md5'', ''badsum''])]"

definition axes_tcp_ipfrag :: family where
  "axes_tcp_ipfrag =
    [(''positions'', Strs [''8'', ''16'', ''24'', ''32'', ''40'', ''48'', ''64'']),
     (''repeats'', Ints [6, 11, 4]),
     (''combo_blobs'', Strs [[], ''stun'', ''google'']),
     (''disorder'', Bools [False, True]),
     (''ipfrag_next'', Opts [None, Some ''255''])]"

definition axes_fake_hostfake :: family where
  "axes_fake_hostfake =
    [(''blobs'', Strs ALL_BLOBS_TCP),
     (''repeats'', Ints [6, 3, 8, 11, 2]),
     (''foolings'', Strs [''tcp_ts=-1000'', ''tcp_md5'', ''badsum'']),
     (''hf_variants'', Strs [''base'', ''disorder_after'']),
     (''ack_drop'', Flag True),
     (''send_md5'', Flag True)]"

definition axes_rst_fake :: family where
  "axes_rst_fake =
    [(''mods'', Strs [''rst:badsum'', ''rst:ip_ttl=10'', ''rst:ip_ttl=1'', ''rst:tcp_md5'', ''rst:rstack:badsum'',
        ''rst:rstack:ip_ttl=10'', ''rst:rstack:ip_ttl=1'', ''rst:badsum:tcp_md5'']),
     (''flag_fakes'', Strs [''send:tcp_flags_set=FIN,RST,ACK,PSH,URG,ECE:badsum'',
        ''send:tcp_flags_set=FIN,RST,ECE,ACK,CWR:ip_ttl=10'',
        ''send:tcp_flags_set=FIN,RST,ACK,PSH,URG:tcp_md5'', ''send:tcp_flags_set=FIN:tcp_md5''])]"

definition axes_synack :: family where
  "axes_synack =
    [(''modes'', Strs [''synack'', ''synack'', ''acksyn'']),
     (''foolings'', Strs [[]])]"

definition axes_wssize :: family where
  "axes_wssize =
    [(''sizes'', Strs [''wssize:wsize=1:scale=6'']),
     (''combos'', Bools [False, True])]"

definition axes_geneva_fool :: family where
  "axes_geneva_fool =
    [(''fools'', Strs [''fool=bs_dataofs:badsum'', ''fool=bs_dataofs:ip_ttl=10'', ''fool=bs_iplen:len=64'',
        ''fool=bs_iplen:len=78'', ''fool=bs_corrupt_load'', ''fool=bs_corrupt_load:badsum'',
        ''fool=bs_corrupt_load:ip_ttl=8'', ''fool=bs_corrupt_wscale'', ''fool=bs_corrupt_uto'']),
     (''repeats'', Ints [1, 2])]"

definition axes_udp_discord :: family where
  "axes_udp_discord =
    [(''blobs'', Strs [''discord_udp'', ''stun'']),
     (''repeats'', Ints [6, 12, 3, 2]),
     (''ttl_static'', Ints [5]),
     (''ttl_auto'', Strs [''-2,3-20''])]"

definition axes_udp_quic :: family where
  "axes_udp_quic =
    [(''port_ranges'', Strs [''443'']),
     (''blobs'', Strs [''quic_google'', ''quic_dbank'', ''quic_gv_kyber_1'', ''quic_gv_kyber_2'']),
     (''repeats'', Ints [1, 2, 5, 6, 10, 11, 20])]"

definition axes_udp_game :: family where
  "axes_udp_game =
    [(''port_ranges'', Strs [''1024-65535'']),
     (''blobs'', Strs [''quic_initial_dbankcloud_ru'', ''game_udp'']),
     (''repeats'', Ints [10, 12, 14]),
     (''out_range'', Opts [None, Some ''n1-<n3'', Some ''n1-<n4'', Some ''n1-<n5''])]"

definition axes_udp_multiblob :: family where
  "axes_udp_multiblob =
    [(''profiles'', Pairs [(''stun'', ''discord_udp''), (''quic_dbank'', ''discord_udp''), (''game_udp'', ''discord_udp'')]),
     (''repeats'', Ints [6, 10, 12])]"

definition axes_http_simple :: family where
  "axes_http_simple =
    [(''variants'', Strs [''http_hostcase'', ''http_methodeol'', ''http_hostcase:spell=hoSt'', ''http_domcase'',
        ''http_unixeol''])]"

definition axes_http_fake :: family where
  "axes_http_fake =
    [(''blobs'', Strs [''fake_default_http'', ''0x00000000'']),
     (''repeats'', Ints (take 4 FAST_REPEATS)),
     (''foolings'', Strs (take 4 FAST_FOOLINGS_TCP))]"

definition axes_http_tls_dual :: family where
  "axes_http_tls_dual =
    [(''http_blobs'', Strs [''fake_default_http'']),
     (''repeats'', Ints [6, 3]),
     (''foolings'', Strs [''tcp_ts=-1000'', ''badsum'', []])]"

definition axes_quic_fake :: family where
  "axes_quic_fake =
    [(''blobs'', Strs [''fake_default_quic'', ''quic_initial'', ''quic_google'', ''quic_vk'']),
     (''repeats'', Ints [1, 2, 5, 6, 10, 11, 20]),
     (''foolings'', Strs [[], ''badsum'']),
     (''ip6_send_drop'', Flag True)]"

definition axes_quic_gv :: family where
  "axes_quic_gv =
    [(''blobs'', Strs [''quic_gv_kyber_1'', ''quic_gv_kyber_2'', ''quic_google'']),
     (''repeats'', Ints [1, 2, 5, 6, 11])]"

definition axes_quic_ipfrag :: family where
  "axes_quic_ipfrag =
    [(''positions'', Strs [''8'', ''16'', ''24'', ''32'', ''40'', ''48'', ''64'']),
     (''repeats'', Ints [6, 11, 4]),
     (''disorder'', Bools [False, True]),
     (''ipfrag_next'', Opts [None, Some ''255''])]"

definition FAMILY_AXES :: "(string, family) dict" where
  "FAMILY_AXES =
    [(''fake'', axes_fake),
     (''hostfake'', axes_hostfake),
     (''multisplit'', axes_multisplit),
     (''multidisorder'', axes_multidisorder),
     (''syndata'', axes_syndata),
     (''tcpseg'', axes_tcpseg),
     (''oob'', axes_oob),
     (''multi_fake'', axes_multi_fake),
     (''triple_fake'', axes_triple_fake),
     (''fake_multisplit'', axes_fake_multisplit),
     (''fake_multisplit_hostfake'', axes_fake_multisplit_hostfake),
     (''fake_multidisorder'', axes_fake_multidisorder),
     (''fakedsplit'', axes_fakedsplit),
     (''fakeddisorder'', axes_fakeddisorder),
     (''fake_fakedsplit'', axes_fake_fakedsplit),
     (''tcp_ipfrag'', axes_tcp_ipfrag),
     (''fake_hostfake'', axes_fake_hostfake),
     (''rst_fake'', axes_rst_fake),
     (''synack'', axes_synack),
     (''wssize'', axes_wssize),
     (''geneva_fool'', axes_geneva_fool),
     (''udp_discord'', axes_udp_discord),
     (''udp_quic'', axes_udp_quic),
     (''udp_game'', axes_udp_game),
     (''udp_multiblob'', axes_udp_multiblob),
     (''http_simple'', axes_http_simple),
     (''http_fake'', axes_http_fake),
     (''http_tls_dual'', axes_http_tls_dual),
     (''quic_fake'', axes_quic_fake),
     (''quic_gv'', axes_quic_gv),
     (''quic_ipfrag'', axes_quic_ipfrag)]"

section \<open>Reading a table\<close>

text \<open>\<open>family.get(key, default)\<close>, by the type of the value.\<close>

definition get_strs :: "family \<Rightarrow> string \<Rightarrow> string list \<Rightarrow> string list" where
  "get_strs fam k d = (case dict_get fam k of Some (Strs xs) \<Rightarrow> xs | _ \<Rightarrow> d)"

definition get_ints :: "family \<Rightarrow> string \<Rightarrow> int list \<Rightarrow> int list" where
  "get_ints fam k d = (case dict_get fam k of Some (Ints xs) \<Rightarrow> xs | _ \<Rightarrow> d)"

definition get_flag :: "family \<Rightarrow> string \<Rightarrow> bool" where
  "get_flag fam k = (case dict_get fam k of Some (Flag b) \<Rightarrow> b | _ \<Rightarrow> False)"

definition get_bools :: "family \<Rightarrow> string \<Rightarrow> bool list \<Rightarrow> bool list" where
  "get_bools fam k d = (case dict_get fam k of Some (Bools xs) \<Rightarrow> xs | _ \<Rightarrow> d)"

definition get_text :: "family \<Rightarrow> string \<Rightarrow> string \<Rightarrow> string" where
  "get_text fam k d = (case dict_get fam k of Some (Text s) \<Rightarrow> s | _ \<Rightarrow> d)"

definition get_pairs :: "family \<Rightarrow> string \<Rightarrow> (string \<times> string) list" where
  "get_pairs fam k = (case dict_get fam k of Some (Pairs xs) \<Rightarrow> xs | _ \<Rightarrow> [])"

definition get_triples :: "family \<Rightarrow> string \<Rightarrow> (string \<times> string \<times> string) list" where
  "get_triples fam k = (case dict_get fam k of Some (Triples xs) \<Rightarrow> xs | _ \<Rightarrow> [])"

definition get_int_pairs :: "family \<Rightarrow> string \<Rightarrow> (int \<times> int) list \<Rightarrow> (int \<times> int) list" where
  "get_int_pairs fam k d = (case dict_get fam k of Some (IntPairs xs) \<Rightarrow> xs | _ \<Rightarrow> d)"

definition get_opts :: "family \<Rightarrow> string \<Rightarrow> string option list \<Rightarrow> string option list" where
  "get_opts fam k d = (case dict_get fam k of Some (Opts xs) \<Rightarrow> xs | _ \<Rightarrow> d)"

text \<open>The type that the readers expect of a key; with it no reader meets a value of another type.\<close>

definition axis_ok :: "string \<Rightarrow> axis \<Rightarrow> bool" where
  "axis_ok k v =
     (case v of
        Strs _ \<Rightarrow> k \<in> set [''blobs'', ''foolings'', ''ttl_auto'', ''tls_mods'', ''variants'', ''positions'', ''seqovl_blobs'',
          ''pattern_blobs'', ''hf_hosts'', ''hf_variants'', ''combo_blobs'', ''mods'', ''flag_fakes'', ''modes'', ''sizes'',
          ''fools'', ''http_blobs'', ''ip6_fools'', ''ipv6_extra'', ''hosts'', ''urps'', ''port_ranges'']
      | Ints _ \<Rightarrow> k \<in> set [''repeats'', ''ttl_static'', ''seqovl'']
      | Flag _ \<Rightarrow> k \<in> set [''ack_drop'', ''send_md5'', ''padencap'', ''plus_hostfake'', ''ip6_send_drop'']
      | Bools _ \<Rightarrow> k \<in> set [''plus_split'', ''disorder'', ''combos'']
      | Text _ \<Rightarrow> k \<in> set [''ip_id'', ''in_range'']
      | Pairs _ \<Rightarrow> k \<in> set [''blob_pairs'', ''profiles'']
      | Triples _ \<Rightarrow> k = ''triples''
      | IntPairs _ \<Rightarrow> k = ''repeat_pairs''
      | Opts _ \<Rightarrow> k \<in> set [''ipfrag_next'', ''out_range''])"

definition family_ok :: "family \<Rightarrow> bool" where
  "family_ok fam = list_all (\<lambda>(k, v). axis_ok k v) fam"

lemma FAMILY_AXES_ok: "list_all (\<lambda>(name, fam). family_ok fam) FAMILY_AXES"
  by code_simp

lemma FAMILY_AXES_registered: "set (dict_keys FAMILY_AXES) = set (map fs_name REGISTRY) \<and> distinct (dict_keys FAMILY_AXES)"
  by code_simp

lemma family_ok_set: "axis_ok k v \<Longrightarrow> family_ok fam \<Longrightarrow> family_ok (dict_set k v fam)"
  using set_update_subset [of k v fam] by (auto simp: family_ok_def list_all_iff)

definition axes_for :: "string \<Rightarrow> family" where
  "axes_for name = (if name \<in> set (map fs_name REGISTRY) then dict_getd FAMILY_AXES name [] else [])"

lemma axes_for_ok: "family_ok (axes_for name)"
proof (cases "name \<in> set (map fs_name REGISTRY)")
  case True
  then obtain fam where "map_of FAMILY_AXES name = Some fam"
    using FAMILY_AXES_registered by (metis (no_types, lifting) list.set_map map_of_eq_None_iff not_None_eq)
  moreover from this have "family_ok fam" using FAMILY_AXES_ok map_of_SomeD by (fastforce simp: list_all_iff)
  ultimately show ?thesis using True by (simp add: axes_for_def dict_getd_def)
next
  case False
  then show ?thesis by (simp add: axes_for_def family_ok_def)
qed

end
