(* ===== verification/Expanders.thy ===== *)
theory Expanders
  imports FamilyAxes PyText
begin

text \<open>
  \<^verbatim>\<open>generators/families/_helpers.py\<close>, \<^verbatim>\<open>fake.py\<close>, \<^verbatim>\<open>split.py\<close> and \<^verbatim>\<open>tamper.py\<close>: every family of strategies is
  expanded from its axis table into labelled strategy strings. An expander passes on the pair of the
  items so far and the set of their stripped strategies. The digest of \<^verbatim>\<open>cmd_label\<close> (BLAKE2s of
  \<^verbatim>\<open>hashlib\<close>) is an argument.
\<close>

section \<open>Helpers\<close>

abbreviation line_end :: string where "line_end \<equiv> [CHR 0x0A]"

definition cmd_label :: "(string \<Rightarrow> string) \<Rightarrow> string \<Rightarrow> string \<Rightarrow> string" where
  "cmd_label digest pre cmd = pre @ ''_'' @ digest cmd"

definition format_pair_label :: "string \<Rightarrow> nat \<Rightarrow> string" where
  "format_pair_label label width =
     (if length label \<le> width then label
      else (let tail_n = min 7 width
            in take (width - tail_n) label @ (if tail_n = 0 then label else drop (length label - tail_n) label)))"

definition ttl_clause :: "string \<Rightarrow> string" where
  "ttl_clause t =
     (if t = [] then []
      else if contains ''-'' t \<and> contains '','' t then '':ip_autottl='' @ t
      else '':ip_ttl='' @ t)"

definition fooling_clause :: "string \<Rightarrow> string" where
  "fooling_clause fool = (if fool = [] then [] else '':'' @ fool)"

definition required_foolings :: "string list \<Rightarrow> string list" where
  "required_foolings fools = filter (\<lambda>f. f \<noteq> []) fools"

definition with_ack_drop :: "string \<Rightarrow> string" where
  "with_ack_drop core = core @ line_end @ ''--payload=empty --out-range=s1<d1'' @ line_end @ ''pktmod:ip_ttl=1''"

definition with_send_md5 :: "string \<Rightarrow> string" where
  "with_send_md5 core = core @ line_end @ ''--payload=empty --out-range=<s1'' @ line_end @ ''send:tcp_md5''"

definition with_ip6_send_drop :: "string \<Rightarrow> string" where
  "with_ip6_send_drop fool = ''send:'' @ fool @ line_end @ ''drop''"

definition or_word :: "string \<Rightarrow> string \<Rightarrow> string" where
  "or_word s w = (if s = [] then w else s)"

type_synonym rows = "(string \<times> string) list"

text \<open>\<open>_add\<close> of the generator: the first item of a strategy stays.\<close>

type_synonym gen_acc = "StrategyItem list \<times> string list"

definition gen_item :: "string \<Rightarrow> string \<times> string \<Rightarrow> StrategyItem" where
  "gen_item proto r = \<lparr>si_label = fst r, si_strategy = snd r, si_is_config = False, si_protocol = proto\<rparr>"

definition add_item :: "string \<Rightarrow> string \<times> string \<Rightarrow> gen_acc \<Rightarrow> gen_acc" where
  "add_item proto r acc =
     (let k = strip (snd r)
      in if k \<in> set (snd acc) then acc else (fst acc @ [gen_item proto r], snd acc @ [k]))"

fun emit_rows :: "string \<Rightarrow> string \<Rightarrow> rows \<Rightarrow> gen_acc \<Rightarrow> bool \<times> gen_acc" where
  "emit_rows level proto [] acc = (False, acc)"
| "emit_rows level proto (r # rs) acc =
     (if level = ''single'' then (True, add_item proto r acc)
      else emit_rows level proto rs (add_item proto r acc))"

text \<open>\<open>if emit_rows(\<dots>): return items\<close>, and a call whose result is not used.\<close>

definition emit_then :: "string \<Rightarrow> string \<Rightarrow> rows \<Rightarrow> (gen_acc \<Rightarrow> gen_acc) \<Rightarrow> gen_acc \<Rightarrow> gen_acc" where
  "emit_then level proto rows cont acc =
     (case emit_rows level proto rows acc of (stop, acc') \<Rightarrow> if stop then acc' else cont acc')"

definition emit_all :: "string \<Rightarrow> string \<Rightarrow> rows \<Rightarrow> gen_acc \<Rightarrow> gen_acc" where
  "emit_all level proto rows acc = snd (emit_rows level proto rows acc)"

definition ttl_companion_rows :: "string \<Rightarrow> string \<Rightarrow> int list \<Rightarrow> string list \<Rightarrow> (string \<Rightarrow> string) \<Rightarrow> rows" where
  "ttl_companion_rows label strat static auto auto_fmt =
     map (\<lambda>t. (label @ ''_ttl'' @ str_int t, strat @ ttl_clause (str_int t))) static @
     map (\<lambda>t. (label @ ''_'' @ auto_fmt t, strat @ ttl_clause t)) auto"

definition auto_full :: "string \<Rightarrow> string" where
  "auto_full t = ''autottl'' @ t"

definition ttl_rows :: "rows \<Rightarrow> int list \<Rightarrow> string list \<Rightarrow> (string \<Rightarrow> string) \<Rightarrow> rows" where
  "ttl_rows cores static auto auto_fmt =
     concat (map (\<lambda>(lab, st). ttl_companion_rows lab st static auto auto_fmt) cores)"

section \<open>Parameters of an expansion\<close>

record StrategyParams =
  sp_repeats :: "int list"
  sp_foolings :: "string list"
  sp_blobs :: "string list"
  sp_ttl_static :: "int list"
  sp_ttl_auto :: "string list"
  sp_positions :: "string list"
  sp_tls_mods :: "string list"
  sp_ack_drop :: bool
  sp_send_md5 :: bool
  sp_blob_pairs :: "(string \<times> string) list"
  sp_pattern_blobs :: "string list"
  sp_seqovl_blobs :: "string list"
  sp_seqovl :: "int list"
  sp_variants :: "string list"
  sp_fools :: "string list"
  sp_out_range :: "string option list"
  sp_profiles :: "(string \<times> string) list"
  sp_triples :: "(string \<times> string \<times> string) list"
  sp_hf_hosts :: "string list"
  sp_hf_variants :: "string list"

definition or_default :: "'a list \<Rightarrow> 'a list \<Rightarrow> 'a list" where
  "or_default xs d = (if xs = [] then d else xs)"

definition from_family :: "family \<Rightarrow> StrategyParams" where
  "from_family fam =
     \<lparr>sp_repeats = or_default (get_ints fam ''repeats'' []) [6],
      sp_foolings = or_default (get_strs fam ''foolings'' []) [[]],
      sp_blobs = get_strs fam ''blobs'' [],
      sp_ttl_static = get_ints fam ''ttl_static'' [],
      sp_ttl_auto = get_strs fam ''ttl_auto'' [],
      sp_positions = get_strs fam ''positions'' [],
      sp_tls_mods = get_strs fam ''tls_mods'' [],
      sp_ack_drop = get_flag fam ''ack_drop'',
      sp_send_md5 = get_flag fam ''send_md5'',
      sp_blob_pairs = get_pairs fam ''blob_pairs'',
      sp_pattern_blobs = get_strs fam ''pattern_blobs'' [],
      sp_seqovl_blobs = get_strs fam ''seqovl_blobs'' [],
      sp_seqovl = get_ints fam ''seqovl'' [],
      sp_variants = get_strs fam ''variants'' [],
      sp_fools = get_strs fam ''fools'' [],
      sp_out_range = get_opts fam ''out_range'' [],
      sp_profiles = get_pairs fam ''profiles'',
      sp_triples = get_triples fam ''triples'',
      sp_hf_hosts = get_strs fam ''hf_hosts'' [],
      sp_hf_variants = get_strs fam ''hf_variants'' []\<rparr>"

text \<open>\<open>from_family\<close> with \<open>foolings=required_foolings(family.get("foolings", ()))\<close>; the keyword replaces the axis.\<close>

definition from_family_fooled :: "family \<Rightarrow> StrategyParams" where
  "from_family_fooled fam = (from_family fam)\<lparr>sp_foolings := required_foolings (get_strs fam ''foolings'' [])\<rparr>"

section \<open>Fake packets\<close>

definition nofool :: "string \<Rightarrow> string" where
  "nofool fool = or_word fool ''nofool''"

definition ACK_BLOBS :: "string list" where
  "ACK_BLOBS = [''stun'', ''google'', ''0x00000000'']"

definition hf_core :: "string \<Rightarrow> string \<Rightarrow> string" where
  "hf_core variant fool =
     (let f = fooling_clause fool
      in if variant = ''base'' then ''hostfakesplit:nofake2'' @ f @ '':repeats=1''
         else if variant = ''disorder'' then ''hostfakesplit:disorder_after:nofake2'' @ f @ '':repeats=1''
         else ''hostfakesplit:'' @ variant @ f @ '':repeats=1'')"

definition fake_hf_line :: "string \<Rightarrow> string \<Rightarrow> string" where
  "fake_hf_line hf fool =
     (let f = fooling_clause fool
      in if hf = ''base'' then ''hostfakesplit:nofake2'' @ f @ '':repeats=1''
         else ''hostfakesplit:'' @ hf @ '':nofake2'' @ f @ '':repeats=1'')"

text \<open>The line \<open>fake:blob=\<dots>\<close> that most families share.\<close>

definition fake_line :: "string \<Rightarrow> int \<Rightarrow> string \<Rightarrow> string" where
  "fake_line blob r fool = ''fake:blob='' @ blob @ '':repeats='' @ str_int r @ fooling_clause fool"

definition fake_core :: "string \<times> int \<times> string \<Rightarrow> string \<times> string" where
  "fake_core c =
     (case c of (blob, r, fool) \<Rightarrow>
        (''std_fake_'' @ blob @ ''_r'' @ str_int r @ ''_'' @ nofool fool, fake_line blob r fool))"

definition fake_combos :: "StrategyParams \<Rightarrow> (string \<times> int \<times> string) list" where
  "fake_combos p = [(blob, r, fool). blob \<leftarrow> sp_blobs p, r \<leftarrow> sp_repeats p, fool \<leftarrow> sp_foolings p]"

definition fake_ip6_rows :: "family \<Rightarrow> StrategyParams \<Rightarrow> rows" where
  "fake_ip6_rows fam p =
     (let fool = (case required_foolings (sp_foolings p) of f # _ \<Rightarrow> f | [] \<Rightarrow> ''tcp_ts=-1000'')
      in [(''std_fake_'' @ blob @ ''_r6_'' @ ip6, ''fake:blob='' @ blob @ '':repeats=6:'' @ ip6 @ '':'' @ fool).
           ip6 \<leftarrow> get_strs fam ''ipv6_extra'' [], blob \<leftarrow> [''stun'', ''google'']])"

definition fake_tls_row :: "(string \<Rightarrow> string) \<Rightarrow> string \<Rightarrow> int \<Rightarrow> string \<Rightarrow> string \<times> string" where
  "fake_tls_row digest blob r tmod =
     (let cmd = ''fake:blob='' @ blob @ '':repeats='' @ str_int r @ '':tls_mod='' @ tmod
      in (cmd_label digest (''std_fake_'' @ blob @ ''_r'' @ str_int r @ ''_tlsmod='' @ take 20 tmod) cmd, cmd))"

definition fake_companions :: "(string \<Rightarrow> string) \<Rightarrow> StrategyParams \<Rightarrow> string \<Rightarrow> string list \<Rightarrow> rows" where
  "fake_companions digest p level known =
     (let combos = fake_combos p; cores = map fake_core combos;
          ack = [(lab @ ''_ackdrop'', with_ack_drop st). ((lab, st), (blob, r, fool)) \<leftarrow> zip cores combos,
                   sp_ack_drop p \<and> fool \<in> set [[], ''tcp_ts=-1000''] \<and> blob \<in> set ACK_BLOBS];
          md5 = [(lab @ ''_sendmd5'', with_send_md5 st). ((lab, st), (blob, r, fool)) \<leftarrow> zip cores combos,
                   sp_send_md5 p \<and> contains ''tcp_md5'' fool];
          ttl = ttl_rows (filter (\<lambda>(lab, st). \<not> (level = ''fast'' \<and> lab \<in> set known)) cores)
                  (sp_ttl_static p) (sp_ttl_auto p) auto_full;
          tls = [fake_tls_row digest blob r tmod.
                   blob \<leftarrow> filter (\<lambda>b. b \<in> set [''google'', ''0x00000000'']) (sp_blobs p), r \<leftarrow> [6, 8],
                   tmod \<leftarrow> filter (\<lambda>t. t \<noteq> []) (sp_tls_mods p)];
          empty_fool = (list_all (\<lambda>f. f = []) (sp_foolings p) \<or> [] \<in> set (sp_foolings p))
      in ack @ md5 @ ttl @ (if empty_fool then tls else []))"

definition fam_fake :: "(string \<Rightarrow> string) \<Rightarrow> family \<Rightarrow> string \<Rightarrow> string list \<Rightarrow> gen_acc \<Rightarrow> gen_acc" where
  "fam_fake digest fam level known =
     (let p = from_family fam
      in emit_then level ''tls12'' (map fake_core (fake_combos p)) (\<lambda>acc.
           emit_all level ''tls12'' (fake_companions digest p level known)
             (if get_strs fam ''ipv6_extra'' [] \<noteq> [] \<and> level \<noteq> ''single''
              then emit_all ''fast'' ''tls12'' (fake_ip6_rows fam p) acc else acc)))"

definition hostfake_core :: "string \<times> string \<Rightarrow> string \<times> string" where
  "hostfake_core c = (case c of (fool, variant) \<Rightarrow> (''std_hf_'' @ variant @ ''_'' @ nofool fool, hf_core variant fool))"

definition hostfake_line :: "string \<Rightarrow> string \<Rightarrow> string" where
  "hostfake_line host fool = ''hostfakesplit:host='' @ host @ '':nofake2'' @ fooling_clause fool @ '':repeats=1''"

definition hostfake_hosts :: "family \<Rightarrow> StrategyParams \<Rightarrow> rows" where
  "hostfake_hosts fam p =
     [(''std_hf_host_'' @ host @ ''_'' @ nofool fool, hostfake_line host fool).
       host \<leftarrow> get_strs fam ''hosts'' [], fool \<leftarrow> or_default (required_foolings (sp_foolings p)) [''tcp_ts=-1000'']]"

definition hostfake_companions :: "StrategyParams \<Rightarrow> string \<Rightarrow> string list \<Rightarrow> rows" where
  "hostfake_companions p level known =
     (let combos = [(fool, variant). fool \<leftarrow> sp_foolings p, variant \<leftarrow> sp_variants p]; cores = map hostfake_core combos;
          ack = [(lab @ ''_ackdrop'', with_ack_drop st). ((lab, st), (fool, variant)) \<leftarrow> zip cores combos,
                   sp_ack_drop p \<and> fool = ''tcp_ts=-1000'' \<and> variant = ''base''];
          md5 = [(lab @ ''_sendmd5'', with_send_md5 st). ((lab, st), (fool, variant)) \<leftarrow> zip cores combos,
                   sp_send_md5 p \<and> contains ''tcp_md5'' fool \<and> variant = ''base''];
          ttl = ttl_rows (filter (\<lambda>(lab, st). \<not> (level = ''fast'' \<and> lab \<in> set known)) cores)
                  (sp_ttl_static p) (sp_ttl_auto p) auto_full
      in ack @ md5 @ ttl)"

definition fam_hostfake :: "family \<Rightarrow> string \<Rightarrow> string list \<Rightarrow> gen_acc \<Rightarrow> gen_acc" where
  "fam_hostfake fam level known =
     (let p = from_family_fooled fam;
          cores = [hostfake_core (fool, variant). fool \<leftarrow> sp_foolings p, variant \<leftarrow> sp_variants p]
      in emit_then level ''tls12'' (hostfake_hosts fam p)
           (emit_then level ''tls12'' cores
             (emit_all level ''tls12'' (hostfake_companions p level known))))"

definition fam_multi_fake :: "family \<Rightarrow> string \<Rightarrow> gen_acc \<Rightarrow> gen_acc" where
  "fam_multi_fake fam level =
     (let p = from_family fam;
          repeat_pairs = get_int_pairs fam ''repeat_pairs'' (map (\<lambda>r. (r, r)) (get_ints fam ''repeats'' [6]))
      in emit_all level ''tls12''
           [(''std_multi_'' @ b1 @ ''+'' @ b2 @ ''_r'' @ str_int r1 @ ''+'' @ str_int r2 @ ''_'' @ nofool fool,
             fake_line b1 r1 fool @ line_end @ fake_line b2 r2 fool).
              (b1, b2) \<leftarrow> sp_blob_pairs p, (r1, r2) \<leftarrow> repeat_pairs, fool \<leftarrow> sp_foolings p])"

definition fam_triple_fake :: "family \<Rightarrow> string \<Rightarrow> gen_acc \<Rightarrow> gen_acc" where
  "fam_triple_fake fam level =
     (let p = from_family fam
      in emit_all level ''tls12''
           [(''std_triple_'' @ b1 @ ''+'' @ b2 @ ''+'' @ b3 @ ''_r'' @ str_int r @ ''_'' @ nofool fool,
             join_with line_end (map (\<lambda>b. fake_line b r fool) [b1, b2, b3])).
              (b1, b2, b3) \<leftarrow> sp_triples p, r \<leftarrow> sp_repeats p, fool \<leftarrow> sp_foolings p])"

definition fam_fake_multidisorder :: "family \<Rightarrow> string \<Rightarrow> gen_acc \<Rightarrow> gen_acc" where
  "fam_fake_multidisorder fam level =
     (let p = from_family fam
      in emit_all level ''tls12''
           [(''std_fmd_'' @ blob @ ''_p'' @ pos @ ''_r'' @ str_int r @ ''_'' @ nofool fool,
             fake_line blob r fool @ line_end @ ''multidisorder:pos='' @ pos @ fooling_clause fool).
              blob \<leftarrow> sp_blobs p, pos \<leftarrow> sp_positions p, r \<leftarrow> sp_repeats p, fool \<leftarrow> sp_foolings p])"

definition fam_fake_hostfake :: "family \<Rightarrow> string \<Rightarrow> gen_acc \<Rightarrow> gen_acc" where
  "fam_fake_hostfake fam level =
     (let p = from_family_fooled fam
      in emit_all level ''tls12''
           [(''std_fh_'' @ blob @ ''_r'' @ str_int r @ ''_'' @ hf @ ''_'' @ nofool fool,
             fake_line blob r fool @ line_end @ fake_hf_line hf fool).
              blob \<leftarrow> sp_blobs p, r \<leftarrow> sp_repeats p, fool \<leftarrow> sp_foolings p, hf \<leftarrow> sp_hf_variants p])"

definition slug :: "string \<Rightarrow> string" where
  "slug s = replace_char CHR ''='' ''_'' (replace_char CHR '':'' ''_'' s)"

definition RST_SCOPE :: string where
  "RST_SCOPE = ''--payload=empty --out-range=s1<d1''"

definition rst_fake_row :: "(string \<Rightarrow> string) \<Rightarrow> string \<Rightarrow> string \<times> string" where
  "rst_fake_row digest fake =
     (let cmd = RST_SCOPE @ line_end @ fake
      in (cmd_label digest (''std_rst_'' @ before_char CHR '':'' fake @ ''_'' @ take 40 (slug fake)) cmd, cmd))"

definition fam_rst_fake :: "(string \<Rightarrow> string) \<Rightarrow> family \<Rightarrow> string \<Rightarrow> gen_acc \<Rightarrow> gen_acc" where
  "fam_rst_fake digest fam level =
     emit_then level ''tls12''
       (map (\<lambda>m. (''std_rst_'' @ slug m, RST_SCOPE @ line_end @ m)) (get_strs fam ''mods'' [''rst:badsum'']))
       (emit_all level ''tls12'' (map (rst_fake_row digest) (get_strs fam ''flag_fakes'' [])))"

definition fam_synack :: "family \<Rightarrow> string \<Rightarrow> gen_acc \<Rightarrow> gen_acc" where
  "fam_synack fam level =
     (let p = from_family fam
      in emit_then level ''tls12''
           (map (\<lambda>m. (''std_synack_'' @ m, ''synack_split:mode='' @ m)) (fromkeys (get_strs fam ''modes'' [''synack''])))
           (\<lambda>acc. emit_all level ''tls12''
              (map (\<lambda>fool. (''std_synack_fool_'' @ nofool fool, ''synack'' @ fooling_clause fool))
                (or_default (sp_foolings p) [[]]))
              (add_item ''tls12'' (''std_synack_bare'', ''synack'') acc)))"

section \<open>Splits\<close>

text \<open>\<^verbatim>\<open>int\<close> is only reached for digits; on the three superscripts that \<^verbatim>\<open>isdigit\<close> accepts Python's raises, here the test fails.\<close>

definition disorder_seqovl_ok :: "string \<Rightarrow> int \<Rightarrow> bool" where
  "disorder_seqovl_ok pos seqovl =
     (let head = strip (before_char CHR '','' pos)
      in if \<not> isdigit head then True
         else (case int_of_str head of Some n \<Rightarrow> seqovl < n | None \<Rightarrow> False))"

definition ipfrag_opts :: "string \<Rightarrow> string \<Rightarrow> bool \<Rightarrow> string option \<Rightarrow> string" where
  "ipfrag_opts kind pos disorder nxt =
     ''ipfrag_pos_'' @ kind @ ''='' @ pos @ (if disorder then '':ipfrag_disorder'' else []) @
     (case nxt of None \<Rightarrow> [] | Some n \<Rightarrow> '':ipfrag_next='' @ n)"

definition ipfrag_label :: "string \<Rightarrow> string \<Rightarrow> bool \<Rightarrow> string option \<Rightarrow> string" where
  "ipfrag_label pre pos disorder nxt =
     pre @ pos @ (if disorder then ''_disorder'' else []) @
     (case nxt of None \<Rightarrow> [] | Some n \<Rightarrow> ''_next'' @ n)"

definition skip_null :: "string list \<Rightarrow> string list" where
  "skip_null blobs = filter (\<lambda>b. b \<noteq> ''0x00000000'') blobs"

definition multisplit_line :: "string \<Rightarrow> int \<Rightarrow> string \<Rightarrow> string \<Rightarrow> string" where
  "multisplit_line pos seqovl blob fool =
     ''multisplit:pos='' @ pos @ '':seqovl='' @ str_int seqovl @ '':seqovl_pattern='' @ blob @ fooling_clause fool"

definition multisplit_cores :: "StrategyParams \<Rightarrow> rows" where
  "multisplit_cores p =
     [(''std_split_'' @ pos @ ''_s'' @ str_int seqovl @ ''_'' @ blob @ ''_'' @ nofool fool, multisplit_line pos seqovl blob fool).
       pos \<leftarrow> sp_positions p, seqovl \<leftarrow> sp_seqovl p, fool \<leftarrow> sp_foolings p, blob \<leftarrow> skip_null (sp_seqovl_blobs p)]"

definition PADENCAP_ROWS :: rows where
  "PADENCAP_ROWS =
     map (\<lambda>tmod. (''std_seqovl_pad_'' @ take 12 tmod,
                  ''fake:blob=google:repeats=6:tls_mod='' @ tmod @ line_end @ ''multisplit:pos=10,sniext+1:seqovl=1''))
       [''rnd,dupsid,padencap'', ''rnd,dupsid'']"

definition fam_multisplit :: "family \<Rightarrow> string \<Rightarrow> gen_acc \<Rightarrow> gen_acc" where
  "fam_multisplit fam level =
     (let p = from_family fam; cores = multisplit_cores p
      in emit_then level ''tls12'' cores (\<lambda>acc.
           (let acc' = emit_all level ''tls12'' (ttl_rows cores (sp_ttl_static p) (sp_ttl_auto p) auto_full) acc
            in if get_flag fam ''padencap'' then emit_all level ''tls12'' PADENCAP_ROWS acc' else acc')))"

definition fam_multidisorder :: "family \<Rightarrow> string \<Rightarrow> gen_acc \<Rightarrow> gen_acc" where
  "fam_multidisorder fam level =
     (let p = from_family fam
      in emit_then level ''tls12''
           [(''std_mdis_'' @ pos @ ''_'' @ blob @ ''_'' @ nofool fool,
             ''multidisorder:pos='' @ pos @ '':seqovl_pattern='' @ blob @ fooling_clause fool).
              pos \<leftarrow> sp_positions p, fool \<leftarrow> sp_foolings p, blob \<leftarrow> sp_seqovl_blobs p]
           (emit_all level ''tls12''
             [(''std_mdis_'' @ pos @ ''_s'' @ str_int seqovl @ ''_'' @ blob @ ''_'' @ nofool fool,
               ''multidisorder:pos='' @ pos @ '':seqovl='' @ str_int seqovl @ '':seqovl_pattern='' @ blob @ fooling_clause fool).
                pos \<leftarrow> sp_positions p, fool \<leftarrow> sp_foolings p, blob \<leftarrow> sp_seqovl_blobs p, seqovl \<leftarrow> sp_seqovl p,
                disorder_seqovl_ok pos seqovl]))"

definition faked_core :: "string \<Rightarrow> string \<Rightarrow> string \<times> string \<times> string \<times> int \<Rightarrow> string \<times> string" where
  "faked_core fn pre c =
     (case c of (pos, blob, fool, r) \<Rightarrow>
        (pre @ ''_p'' @ pos @ ''_'' @ blob @ ''_r'' @ str_int r @ ''_'' @ nofool fool,
         fn @ '':pos='' @ pos @ '':pattern='' @ blob @ fooling_clause fool @ '':repeats='' @ str_int r))"

definition fam_faked_core :: "string \<Rightarrow> string \<Rightarrow> family \<Rightarrow> string \<Rightarrow> gen_acc \<Rightarrow> gen_acc" where
  "fam_faked_core fn pre fam level =
     (let p = from_family_fooled fam;
          combos = [(pos, blob, fool, r). pos \<leftarrow> sp_positions p, blob \<leftarrow> skip_null (sp_pattern_blobs p),
                      fool \<leftarrow> sp_foolings p, r \<leftarrow> sp_repeats p];
          cores = map (faked_core fn pre) combos;
          ack = [(lab @ ''_ackdrop'', with_ack_drop st). ((lab, st), (pos, blob, fool, r)) \<leftarrow> zip cores combos,
                   sp_ack_drop p \<and> fool = ''tcp_ts=-1000'' \<and> r = 6];
          md5 = [(lab @ ''_sendmd5'', with_send_md5 st). ((lab, st), (pos, blob, fool, r)) \<leftarrow> zip cores combos,
                   sp_send_md5 p \<and> contains ''tcp_md5'' fool \<and> r = 6]
      in emit_then level ''tls12'' cores (emit_all level ''tls12'' (ack @ md5)))"

definition fam_fake_multisplit :: "family \<Rightarrow> string \<Rightarrow> gen_acc \<Rightarrow> gen_acc" where
  "fam_fake_multisplit fam level =
     (let p = from_family fam
      in emit_all level ''tls12''
           [(''std_fms_'' @ b1 @ ''+'' @ b2 @ ''_p'' @ pos @ ''_s'' @ str_int seqovl @ ''_r'' @ str_int r @ ''_'' @ nofool fool,
             fake_line b1 r fool @ line_end @ multisplit_line pos seqovl b2 fool).
              (b1, b2) \<leftarrow> filter (\<lambda>(a, b). a \<noteq> b) (sp_blob_pairs p), pos \<leftarrow> sp_positions p, seqovl \<leftarrow> sp_seqovl p,
              r \<leftarrow> sp_repeats p, fool \<leftarrow> sp_foolings p])"

definition fam_fake_multisplit_hostfake :: "family \<Rightarrow> string \<Rightarrow> gen_acc \<Rightarrow> gen_acc" where
  "fam_fake_multisplit_hostfake fam level =
     (let p = from_family_fooled fam
      in emit_all level ''tls12''
           [(''std_fmsh_'' @ b1 @ ''+'' @ b2 @ ''_p'' @ pos @ ''_s'' @ str_int seqovl @ ''_h'' @ before_char CHR ''.'' host @
             ''_r'' @ str_int r @ ''_'' @ nofool fool,
             fake_line b1 r fool @ line_end @ multisplit_line pos seqovl b2 fool @ line_end @ hostfake_line host fool).
              (b1, b2) \<leftarrow> filter (\<lambda>(a, b). a \<noteq> b) (sp_blob_pairs p), pos \<leftarrow> sp_positions p, seqovl \<leftarrow> sp_seqovl p,
              r \<leftarrow> sp_repeats p, fool \<leftarrow> sp_foolings p, host \<leftarrow> sp_hf_hosts p])"

definition fam_fake_fakedsplit :: "family \<Rightarrow> string \<Rightarrow> gen_acc \<Rightarrow> gen_acc" where
  "fam_fake_fakedsplit fam level =
     (let p = from_family_fooled fam
      in emit_all level ''tls12''
           [(''std_ffds_'' @ blob @ ''+'' @ pattern @ ''_p'' @ pos @ ''_r'' @ str_int r @ ''_'' @ nofool fool,
             fake_line blob r fool @ line_end @ ''fakedsplit:pos='' @ pos @ '':pattern='' @ pattern @ fooling_clause fool).
              blob \<leftarrow> sp_blobs p, pattern \<leftarrow> sp_pattern_blobs p, pos \<leftarrow> sp_positions p, r \<leftarrow> sp_repeats p,
              fool \<leftarrow> sp_foolings p])"

definition fam_ipfrag :: "string \<Rightarrow> string \<Rightarrow> family \<Rightarrow> string \<Rightarrow> gen_acc \<Rightarrow> gen_acc" where
  "fam_ipfrag kind proto fam level =
     (let p = from_family fam; disorder = get_bools fam ''disorder'' [False]; nxts = get_opts fam ''ipfrag_next'' [None];
          word = (if kind = ''tcp'' then ''tcp'' else ''quic'');
          blobs0 = filter (\<lambda>b. b \<noteq> []) (get_strs fam ''combo_blobs'' [[]]);
          combo_blobs = (if kind = ''udp'' then or_default blobs0 [''fake_default_quic''] else blobs0)
      in emit_then level proto
           [(ipfrag_label (''std_'' @ word @ ''_ipfrag_pos'') pos dis nxt,
             ''send:ipfrag:'' @ ipfrag_opts kind pos dis nxt @ line_end @ ''drop'').
              pos \<leftarrow> sp_positions p, dis \<leftarrow> disorder, nxt \<leftarrow> nxts]
           (emit_all level proto
             [(ipfrag_label (''std_'' @ word @ ''_fake_ipfrag'' @ (if kind = ''tcp'' then ''_'' @ blob else []) @ ''_r'' @ str_int r @ ''_pos'')
                 pos dis None,
               ''fake:blob='' @ blob @ '':repeats='' @ str_int r @ line_end @ ''send:ipfrag:'' @ ipfrag_opts kind pos dis None @
               line_end @ ''drop'').
                pos \<leftarrow> sp_positions p, blob \<leftarrow> combo_blobs, r \<leftarrow> sp_repeats p, dis \<leftarrow> take 1 disorder]))"

section \<open>Headers and datagrams\<close>

definition syndata_row :: "string \<Rightarrow> string \<Rightarrow> bool \<Rightarrow> string \<times> string" where
  "syndata_row blob tmod psplit =
     (let base = (if blob \<noteq> [] then ''syndata:blob='' @ blob @ (if tmod \<noteq> [] then '':tls_mod='' @ tmod else []) else ''syndata'')
      in (''std_syn_'' @ or_word blob ''bare'' @ ''_'' @ or_word (take 15 tmod) ''nomod'' @ (if psplit then ''_split'' else []),
          base @ (if psplit then line_end @ ''multisplit:pos=1,midsld:seqovl=1'' else [])))"

definition fam_syndata :: "family \<Rightarrow> string \<Rightarrow> gen_acc \<Rightarrow> gen_acc" where
  "fam_syndata fam level =
     (let p = from_family fam
      in emit_then level ''tls12''
           [syndata_row blob tmod psplit.
              blob \<leftarrow> sp_blobs p, tmod \<leftarrow> sp_tls_mods p, psplit \<leftarrow> get_bools fam ''plus_split'' [False]]
           (\<lambda>acc. if get_flag fam ''plus_hostfake''
                  then add_item ''tls12'' (''std_syn_bare_hf_ts'', ''syndata'' @ line_end @ ''hostfakesplit:nofake2:tcp_ts=-1000'') acc
                  else acc))"

definition fam_tcpseg :: "family \<Rightarrow> string \<Rightarrow> gen_acc \<Rightarrow> gen_acc" where
  "fam_tcpseg fam level =
     (let p = from_family fam
      in emit_all level ''tls12''
           [(''std_tcpseg_p'' @ pos @ ''_r'' @ str_int r,
             ''tcpseg:pos='' @ pos @ '':ip_id='' @ get_text fam ''ip_id'' ''rnd'' @ '':repeats='' @ str_int r).
              pos \<leftarrow> sp_positions p, r \<leftarrow> sp_repeats p])"

definition fam_oob :: "family \<Rightarrow> string \<Rightarrow> gen_acc \<Rightarrow> gen_acc" where
  "fam_oob fam level =
     (let in_range = get_text fam ''in_range'' []
      in emit_all level ''tls12''
           (map (\<lambda>urp. (''std_oob_urp'' @ urp,
                        (if in_range \<noteq> [] then ''--in-range='' @ in_range @ line_end else []) @ ''oob:urp='' @ urp))
             (get_strs fam ''urps'' [])))"

definition fam_geneva_fool :: "family \<Rightarrow> string \<Rightarrow> gen_acc \<Rightarrow> gen_acc" where
  "fam_geneva_fool fam level =
     (let p = from_family fam
      in emit_all level ''tls12''
           [(''std_gva_'' @ slug fool @ ''_r'' @ str_int r, ''send:'' @ fool @ '':repeats='' @ str_int r).
              fool \<leftarrow> sp_fools p, r \<leftarrow> sp_repeats p])"

text \<open>\<open>sizes[0]\<close> is the first size; the table of the family has one and no filter removes it.\<close>

definition fam_wssize :: "family \<Rightarrow> string \<Rightarrow> gen_acc \<Rightarrow> gen_acc" where
  "fam_wssize fam level =
     (let sizes = get_strs fam ''sizes'' [''wssize:wsize=1:scale=6'']
      in emit_then level ''tls12'' (map (\<lambda>s. (''std_wssize'', s)) sizes)
           (\<lambda>acc. if list_ex id (get_bools fam ''combos'' [False])
                  then add_item ''tls12'' (''std_wssize_multisplit'', hd sizes @ line_end @ ''multisplit:pos=1:seqovl=1'') acc
                  else acc))"

definition fam_http_simple :: "family \<Rightarrow> string \<Rightarrow> gen_acc \<Rightarrow> gen_acc" where
  "fam_http_simple fam level =
     emit_all level ''http''
       (map (\<lambda>v. (''std_http_'' @ replace_char CHR '':'' ''_'' v, v)) (get_strs fam ''variants'' []))"

text \<open>The families that only emit \<open>fake:blob=\<dots>\<close> lines, with or without foolings.\<close>

definition fooled_fakes :: "string \<Rightarrow> string list \<Rightarrow> StrategyParams \<Rightarrow> rows" where
  "fooled_fakes pre blobs p =
     [(pre @ blob @ ''_r'' @ str_int r @ ''_'' @ nofool fool, fake_line blob r fool).
       blob \<leftarrow> blobs, r \<leftarrow> sp_repeats p, fool \<leftarrow> sp_foolings p]"

definition plain_fakes :: "string \<Rightarrow> string list \<Rightarrow> StrategyParams \<Rightarrow> rows" where
  "plain_fakes pre blobs p = [(pre @ blob @ ''_r'' @ str_int r, fake_line blob r []). blob \<leftarrow> blobs, r \<leftarrow> sp_repeats p]"

definition fam_http_fake :: "family \<Rightarrow> string \<Rightarrow> gen_acc \<Rightarrow> gen_acc" where
  "fam_http_fake fam level =
     (let p = from_family fam in emit_all level ''http'' (fooled_fakes ''std_http_fake_'' (sp_blobs p) p))"

definition fam_http_tls_dual :: "family \<Rightarrow> string \<Rightarrow> gen_acc \<Rightarrow> gen_acc" where
  "fam_http_tls_dual fam level =
     emit_all level ''http'' (fooled_fakes ''std_http_tls_dual_'' (get_strs fam ''http_blobs'' []) (from_family fam))"

definition LOCAL_FOOLINGS_IPV6 :: "string list" where
  "LOCAL_FOOLINGS_IPV6 = [''ip6_hopbyhop'', ''ip6_destopt'']"

definition fam_quic_fake :: "family \<Rightarrow> string \<Rightarrow> gen_acc \<Rightarrow> gen_acc" where
  "fam_quic_fake fam level =
     (let p = from_family fam
      in emit_then level ''quic'' (fooled_fakes ''std_quic_fake_'' (sp_blobs p) p)
           (\<lambda>acc. if get_flag fam ''ip6_send_drop''
                  then emit_all level ''quic''
                         (map (\<lambda>fool. (''std_quic_ip6_'' @ replace_char CHR '':'' ''_'' fool,
                                       ''--filter-l3=ipv6'' @ line_end @ with_ip6_send_drop fool))
                           (get_strs fam ''ip6_fools'' LOCAL_FOOLINGS_IPV6)) acc
                  else acc))"

definition fam_quic_gv :: "family \<Rightarrow> string \<Rightarrow> gen_acc \<Rightarrow> gen_acc" where
  "fam_quic_gv fam level =
     (let p = from_family fam in emit_all level ''quic'' (plain_fakes ''std_quic_gv_'' (sp_blobs p) p))"

definition fam_udp_discord :: "family \<Rightarrow> string \<Rightarrow> gen_acc \<Rightarrow> gen_acc" where
  "fam_udp_discord fam level =
     (let p = from_family fam; cores = plain_fakes ''std_udp_'' (or_default (sp_blobs p) [''discord_udp'']) p
      in emit_then level ''udp_voice'' cores
           (emit_all level ''udp_voice'' (ttl_rows cores (sp_ttl_static p) (sp_ttl_auto p) (\<lambda>t. ''autottl''))))"

definition fam_udp_quic :: "family \<Rightarrow> string \<Rightarrow> gen_acc \<Rightarrow> gen_acc" where
  "fam_udp_quic fam level =
     (let p = from_family fam in emit_all level ''quic'' (plain_fakes ''std_udp_quic_'' (sp_blobs p) p))"

definition fam_udp_game :: "family \<Rightarrow> string \<Rightarrow> gen_acc \<Rightarrow> gen_acc" where
  "fam_udp_game fam level =
     (let p = from_family fam
      in emit_all level ''udp_game''
           [(let w = (case orng of None \<Rightarrow> [] | Some x \<Rightarrow> x)
             in (''std_udp_game_'' @ blob @ ''_r'' @ str_int r @ ''_'' @ or_word w ''no'',
                 (if w \<noteq> [] then ''--out-range='' @ w @ line_end else []) @ fake_line blob r [])).
              blob \<leftarrow> sp_blobs p, r \<leftarrow> sp_repeats p, orng \<leftarrow> or_default (sp_out_range p) [None]])"

definition fam_udp_multiblob :: "family \<Rightarrow> string \<Rightarrow> gen_acc \<Rightarrow> gen_acc" where
  "fam_udp_multiblob fam level =
     (let p = from_family fam
      in emit_all level ''udp_voice''
           [(''std_udp_multiblob_'' @ b1 @ ''+'' @ b2 @ ''_r'' @ str_int r, fake_line b1 r [] @ line_end @ fake_line b2 r []).
              (b1, b2) \<leftarrow> sp_profiles p, r \<leftarrow> sp_repeats p])"

section \<open>The expander of a family\<close>

definition expanders ::
    "(string \<Rightarrow> string) \<Rightarrow> string list \<Rightarrow> (string, family \<Rightarrow> string \<Rightarrow> gen_acc \<Rightarrow> gen_acc) dict" where
  "expanders digest known =
     [(''_fam_fake'', \<lambda>fam level. fam_fake digest fam level known),
      (''_fam_rst_fake'', fam_rst_fake digest), (''_fam_synack'', fam_synack), (''_fam_geneva_fool'', fam_geneva_fool),
      (''_fam_wssize'', fam_wssize), (''_fam_hostfake'', \<lambda>fam level. fam_hostfake fam level known),
      (''_fam_multisplit'', fam_multisplit), (''_fam_multidisorder'', fam_multidisorder), (''_fam_syndata'', fam_syndata),
      (''_fam_tcpseg'', fam_tcpseg), (''_fam_oob'', fam_oob), (''_fam_multi_fake'', fam_multi_fake),
      (''_fam_triple_fake'', fam_triple_fake), (''_fam_fake_multisplit'', fam_fake_multisplit),
      (''_fam_fake_multidisorder'', fam_fake_multidisorder),
      (''_fam_fake_multisplit_hostfake'', fam_fake_multisplit_hostfake), (''_fam_fake_hostfake'', fam_fake_hostfake),
      (''_fam_fakedsplit'', fam_faked_core ''fakedsplit'' ''std_fds''),
      (''_fam_fakeddisorder'', fam_faked_core ''fakeddisorder'' ''std_fdd''),
      (''_fam_fake_fakedsplit'', fam_fake_fakedsplit), (''_fam_tcp_ipfrag'', fam_ipfrag ''tcp'' ''tls12''),
      (''_fam_http_simple'', fam_http_simple), (''_fam_http_fake'', fam_http_fake), (''_fam_http_tls_dual'', fam_http_tls_dual),
      (''_fam_udp_discord'', fam_udp_discord), (''_fam_udp_multiblob'', fam_udp_multiblob), (''_fam_quic_fake'', fam_quic_fake),
      (''_fam_quic_gv'', fam_quic_gv), (''_fam_quic_ipfrag'', fam_ipfrag ''udp'' ''quic''), (''_fam_udp_quic'', fam_udp_quic),
      (''_fam_udp_game'', fam_udp_game)]"

definition FAMILY_EXPANDERS :: "(string, string) dict" where
  "FAMILY_EXPANDERS = map (\<lambda>s. (fs_name s, fs_expander s)) REGISTRY"

definition resolve_family_name :: "string \<Rightarrow> string" where
  "resolve_family_name name = dict_getd FAMILY_ALIASES name name"

definition expand_family :: "(string \<Rightarrow> string) \<Rightarrow> string \<Rightarrow> family \<Rightarrow> string \<Rightarrow> string list \<Rightarrow> StrategyItem list" where
  "expand_family digest stype fam level known =
     (case dict_get FAMILY_EXPANDERS (resolve_family_name stype) of
        None \<Rightarrow> []
      | Some e \<Rightarrow> (case dict_get (expanders digest known) e of
                     None \<Rightarrow> []
                   | Some f \<Rightarrow> fst (f fam level ([], []))))"

lemma expanders_complete: "\<forall>s \<in> set REGISTRY. fs_expander s \<in> set (dict_keys (expanders digest known))"
  by code_simp

end
