(* ===== verification/StandardGen.thy ===== *)
theory StandardGen
  imports Expanders
begin

text \<open>
  \<^verbatim>\<open>generators/standard.py\<close>: the standard generator prepares the axis tables of the chosen families for the
  scan level and the triage profile, expands them, and caps the result so that no family is starved.
  The set of strategies known to work, which is read from the database, is an argument.
\<close>

section \<open>Interleaving under a cap\<close>

type_synonym groups = "StrategyItem list list"

definition rr_take :: "StrategyItem \<Rightarrow> StrategyItem list \<Rightarrow> StrategyItem list" where
  "rr_take it out = (if si_strategy it \<in> si_strategy ` set out then out else out @ [it])"

text \<open>One pass over the families at an index; the flag tells whether some family was long enough.\<close>

fun rr_pass :: "int \<Rightarrow> nat \<Rightarrow> groups \<Rightarrow> StrategyItem list \<Rightarrow> bool \<Rightarrow> StrategyItem list \<times> bool" where
  "rr_pass cap idx [] out advanced = (out, advanced)"
| "rr_pass cap idx (lst # gs) out advanced =
     (if length lst \<le> idx then rr_pass cap idx gs out advanced
      else (let out' = rr_take (lst ! idx) out
            in if cap \<le> int (length out') then (out', True) else rr_pass cap idx gs out' True))"

lemma rr_pass_advanced: "snd (rr_pass cap idx gs out False) \<Longrightarrow> idx < foldr max (map length gs) 0"
  by (induction gs arbitrary: out) (auto simp: Let_def less_max_iff_disj split: if_splits)

function round_robin_from :: "int \<Rightarrow> groups \<Rightarrow> nat \<Rightarrow> StrategyItem list \<Rightarrow> StrategyItem list" where
  "round_robin_from cap gs idx out =
     (if int (length out) < cap
      then (case rr_pass cap idx gs out False of
              (out', advanced) \<Rightarrow> if advanced then round_robin_from cap gs (Suc idx) out' else out')
      else out)"
  by pat_completeness auto
termination
  by (relation "measure (\<lambda>(cap, gs, idx, out). foldr max (map length gs) 0 - idx)")
     (auto dest: rr_pass_advanced [unfolded split_beta] simp: diff_less_mono2 split: prod.splits,
      metis diff_less_mono2 lessI rr_pass_advanced snd_conv)

declare round_robin_from.simps [simp del]

definition round_robin :: "(string, StrategyItem list) dict \<Rightarrow> int \<Rightarrow> StrategyItem list" where
  "round_robin groups cap = round_robin_from cap (map snd groups) 0 []"

section \<open>Preparing the tables\<close>

definition mut_full_fake :: "family \<Rightarrow> family" where
  "mut_full_fake fam =
     dict_set ''tls_mods'' (Strs TLS_MODS)
       (dict_set ''foolings'' (Strs (ALL_FOOLINGS_TCP @ ALL_FOOLINGS_IPV6))
         (dict_set ''repeats'' (Ints (filter (\<lambda>r. r \<notin> {100, 260}) ALL_REPEATS)) fam))"

definition mut_full_tcp_fools :: "family \<Rightarrow> family" where
  "mut_full_tcp_fools fam = dict_set ''foolings'' (Strs (fromkeys (get_strs fam ''foolings'' [] @ ALL_FOOLINGS_TCP))) fam"

definition mut_full_quic_fake :: "family \<Rightarrow> family" where
  "mut_full_quic_fake fam =
     dict_set ''ip6_fools'' (Strs ALL_FOOLINGS_IPV6)
       (dict_set ''foolings'' (Strs (fromkeys (get_strs fam ''foolings'' [[]] @ ALL_FOOLINGS_UDP))) fam)"

definition mut_full_udp_discord :: "family \<Rightarrow> family" where
  "mut_full_udp_discord fam =
     dict_set ''ttl_auto'' (Strs [''-2,3-20'', ''-1,2-10''])
       (dict_set ''ttl_static'' (Ints [5, 8]) (dict_set ''repeats'' (Ints [2, 3, 4, 6, 8, 10, 12, 14]) fam))"

definition mut_fast_fake :: "family \<Rightarrow> family" where
  "mut_fast_fake fam = dict_set ''ipv6_extra'' (Strs FAST_FOOLINGS_IPV6) fam"

definition SCAN_MUTATORS :: "(string, (string, family \<Rightarrow> family) dict) dict" where
  "SCAN_MUTATORS =
     [(''full'',
        [(''fake'', mut_full_fake), (''hostfake'', mut_full_tcp_fools), (''fakedsplit'', mut_full_tcp_fools),
         (''fakeddisorder'', mut_full_tcp_fools), (''fake_hostfake'', mut_full_tcp_fools), (''http_fake'', mut_full_tcp_fools),
         (''quic_fake'', mut_full_quic_fake), (''udp_discord'', mut_full_udp_discord)]),
      (''fast'', [(''fake'', mut_fast_fake)])]"

fun the_ttl :: "ttl_value \<Rightarrow> int" where
  "the_ttl (TtlInt n) = n"
| "the_ttl (TtlStr s) = 0"

text \<open>\<open>if fam.get(key) is not None: fam[key] = f(fam[key])\<close>.\<close>

definition map_strs :: "string \<Rightarrow> (string list \<Rightarrow> string list) \<Rightarrow> family \<Rightarrow> family" where
  "map_strs k f fam = (case dict_get fam k of Some (Strs xs) \<Rightarrow> dict_set k (Strs (f xs)) fam | _ \<Rightarrow> fam)"

definition map_ints :: "string \<Rightarrow> (int list \<Rightarrow> int list) \<Rightarrow> family \<Rightarrow> family" where
  "map_ints k f fam = (case dict_get fam k of Some (Ints xs) \<Rightarrow> dict_set k (Ints (f xs)) fam | _ \<Rightarrow> fam)"

definition apply_triage_axes :: "TriageProfile \<Rightarrow> string \<Rightarrow> string \<Rightarrow> family \<Rightarrow> family" where
  "apply_triage_axes triage level protocol fam =
     (let fam1 = map_strs ''foolings'' (\<lambda>xs. filter_fooling_values xs (Some triage)) fam;
          fam2 = map_strs ''blobs'' (\<lambda>xs. filter_blob_aliases (Some xs) (Some triage) protocol) fam1;
          fam3 = map_ints ''ttl_static'' (\<lambda>xs. map the_ttl (filter_ttl_values (map TtlInt xs) (Some triage) level)) fam2;
          fam4 = map_strs ''positions'' (\<lambda>xs. filter_split_positions xs (Some triage) level) fam3;
          fam5 = (if viable_hosts triage \<noteq> [] then dict_set ''hosts'' (Strs (take 8 (fromkeys (viable_hosts triage)))) fam4 else fam4)
      in (case autottl_delta triage of
            None \<Rightarrow> fam5
          | Some d \<Rightarrow> map_strs ''ttl_auto'' (\<lambda>xs. fromkeys (str_int d # xs)) fam5))"

definition prepare_family :: "string \<Rightarrow> string \<Rightarrow> TriageProfile option \<Rightarrow> string \<Rightarrow> family" where
  "prepare_family stype level triage protocol =
     (let fam = axes_for stype;
          fam' = (case dict_get (dict_getd SCAN_MUTATORS level []) stype of Some mut \<Rightarrow> mut fam | None \<Rightarrow> fam)
      in case triage of None \<Rightarrow> fam' | Some t \<Rightarrow> apply_triage_axes t level protocol fam')"

section \<open>The generator\<close>

definition FAMILIES_BY_PROTOCOL :: "(string, string list) dict" where
  "FAMILIES_BY_PROTOCOL =
     [(''udp_voice'', UDP_VOICE_FAMILIES), (''udp_game'', families_of ''udp_game''), (''http'', HTTP_FAMILIES),
      (''quic'', QUIC_HTTP3_FAMILIES)]"

definition new_generator :: "string list option \<Rightarrow> string list result" where
  "new_generator strategy_types =
     (let types = (case strategy_types of None \<Rightarrow> TCP_FAMILIES | Some ts \<Rightarrow> ts)
      in case find (\<lambda>t. resolve_family_name t \<notin> set (map fs_name REGISTRY) \<and> t \<noteq> ''all'') types of
           Some t \<Rightarrow> Inl (ValueError (''Unknown strategy type: '' @ t))
         | None \<Rightarrow> Inr types)"

definition selected_types :: "string list \<Rightarrow> string \<Rightarrow> string list" where
  "selected_types strategy_types protocol =
     (let raw = (if ''all'' \<in> set strategy_types then map fs_name REGISTRY else strategy_types);
          allowed = dict_getd FAMILIES_BY_PROTOCOL protocol TCP_FAMILIES
      in fromkeys (filter (\<lambda>r. r \<in> set allowed) (map resolve_family_name raw)))"

definition narrowed_types :: "TriageProfile option \<Rightarrow> string \<Rightarrow> string list \<Rightarrow> string list" where
  "narrowed_types triage level types =
     (if triage \<noteq> None \<and> level \<noteq> ''full''
      then (let narrowed = filter (\<lambda>t. t \<in> set (families_for_profile triage)) types
            in if narrowed \<noteq> [] then narrowed else types)
      else types)"

definition run_types :: "string list \<Rightarrow> string \<Rightarrow> string \<Rightarrow> TriageProfile option \<Rightarrow> string list" where
  "run_types strategy_types protocol level triage =
     filter (\<lambda>t. t \<in> set (map fs_name REGISTRY)) (narrowed_types triage level (selected_types strategy_types protocol))"

definition family_items ::
    "(string \<Rightarrow> string) \<Rightarrow> string \<Rightarrow> string list \<Rightarrow> string \<Rightarrow> TriageProfile option \<Rightarrow> string \<Rightarrow> StrategyItem list" where
  "family_items digest protocol known level triage t =
     expand_family digest t (prepare_family t level triage protocol) level known"

definition generate ::
    "(string \<Rightarrow> string) \<Rightarrow> string list \<Rightarrow> string \<Rightarrow> string list \<Rightarrow> string \<Rightarrow> int \<Rightarrow> TriageProfile option \<Rightarrow> StrategyItem list" where
  "generate digest strategy_types protocol known level max_count triage =
     (if (case triage of Some t \<Rightarrow> \<not> bypassable t | None \<Rightarrow> False) then []
      else (let types = run_types strategy_types protocol level triage;
                expanded = map (\<lambda>t. (t, family_items digest protocol known level triage t)) types;
                flat = concat (map snd expanded)
            in if max_count < int (length flat) then prune_items_by_triage (round_robin expanded max_count) triage level
               else prune_items_by_triage flat triage level))"

text \<open>\<open>known_working\<close>: the set passed in, or else what the database holds for the domain.\<close>

definition known_working :: "string list \<Rightarrow> (string \<Rightarrow> string list) option \<Rightarrow> string \<Rightarrow> string list" where
  "known_working run_set working domain =
     (if run_set = [] \<and> domain \<noteq> [] then (case working of Some get \<Rightarrow> get domain | None \<Rightarrow> []) else run_set)"

definition std_families :: "(string \<Rightarrow> string) \<Rightarrow> string list \<Rightarrow> string \<Rightarrow> string list \<Rightarrow> string \<Rightarrow> int \<Rightarrow> TriageProfile option \<Rightarrow> StrategyItem list result" where
  "std_families digest types protocol known level max_count triage =
     bind_result (new_generator (Some types)) (\<lambda>ts. Inr (generate digest ts protocol known level max_count triage))"

section \<open>Fair interleaving\<close>

abbreviation strategies :: "StrategyItem list \<Rightarrow> string set" where
  "strategies out \<equiv> si_strategy ` set out"

lemma rr_take_distinct: "distinct (map si_strategy out) \<Longrightarrow> distinct (map si_strategy (rr_take it out))"
  by (auto simp: rr_take_def)

lemma rr_take_set: "set (rr_take it out) \<subseteq> insert it (set out)" "set out \<subseteq> set (rr_take it out)"
  by (auto simp: rr_take_def)

lemma rr_take_has: "si_strategy it \<in> strategies (rr_take it out)"
  by (auto simp: rr_take_def)

lemma rr_take_length: "length (rr_take it out) \<le> Suc (length out)"
  by (simp add: rr_take_def)

lemma rr_pass_distinct:
  "distinct (map si_strategy out) \<Longrightarrow> distinct (map si_strategy (fst (rr_pass cap idx gs out adv)))"
  by (induction cap idx gs out adv rule: rr_pass.induct) (simp_all add: Let_def rr_take_distinct)

lemma rr_pass_subset: "set (fst (rr_pass cap idx gs out adv)) \<subseteq> set out \<union> \<Union>(set ` set gs)"
proof (induction cap idx gs out adv rule: rr_pass.induct)
  case (2 cap idx lst gs out adv)
  show ?case
  proof (cases "length lst \<le> idx")
    case True
    with 2 show ?thesis by auto
  next
    case False
    let ?out = "rr_take (lst ! idx) out"
    have here: "set ?out \<subseteq> set out \<union> set lst"
      using False rr_take_set(1) [of "lst ! idx" out] nth_mem [of idx lst] by auto
    show ?thesis
    proof (cases "cap \<le> int (length ?out)")
      case True
      with False here show ?thesis by (auto simp: Let_def)
    next
      case room: False
      from subset_trans [OF 2(2) [OF False refl room] Un_mono [OF here order_refl]]
      show ?thesis using False room by (simp add: Let_def Un_assoc)
    qed
  qed
qed simp

lemma rr_pass_mono: "set out \<subseteq> set (fst (rr_pass cap idx gs out adv))"
  by (induction cap idx gs out adv rule: rr_pass.induct) (use rr_take_set(2) in \<open>fastforce simp: Let_def\<close>)+

lemma rr_pass_length: "int (length out) < cap \<Longrightarrow> int (length (fst (rr_pass cap idx gs out adv))) \<le> cap"
proof (induction cap idx gs out adv rule: rr_pass.induct)
  case (2 cap idx lst gs out adv)
  then show ?case using rr_take_length [of "lst ! idx" out] by (auto simp: Let_def)
qed simp

lemma rr_pass_flag: "snd (rr_pass cap idx gs out True)"
  by (induction gs arbitrary: out) (simp_all add: Let_def)

lemma rr_pass_short:
  "\<not> snd (rr_pass cap idx gs out False) \<Longrightarrow> lst \<in> set gs \<Longrightarrow> length lst \<le> idx"
  by (induction gs arbitrary: out) (auto simp: Let_def rr_pass_flag split: if_splits)

text \<open>A pass meets every family when the cap leaves room for one item of each.\<close>

lemma rr_pass_covers:
  assumes "int (length (fst (rr_pass cap idx gs out adv))) < cap \<or> int (length out + length gs) \<le> cap"
    and "lst \<in> set gs" and "idx < length lst"
  shows "si_strategy (lst ! idx) \<in> strategies (fst (rr_pass cap idx gs out adv))"
  using assms
proof (induction cap idx gs out adv rule: rr_pass.induct)
  case (2 cap idx l gs out adv)
  let ?out = "rr_take (l ! idx) out"
  show ?case
  proof (cases "length l \<le> idx")
    case True
    with 2 show ?thesis by auto
  next
    case False
    note len = rr_take_length [of "l ! idx" out]
    have here: "si_strategy (l ! idx) \<in> strategies (fst (rr_pass cap idx gs ?out True))"
      using rr_take_has [of "l ! idx" out] rr_pass_mono [of ?out cap idx gs True] by auto
    show ?thesis
    proof (cases "cap \<le> int (length ?out)")
      case True
      with False 2(3) len have "gs = []" by (cases gs) (auto simp: Let_def)
      with 2(4) True False show ?thesis by (simp add: Let_def rr_take_has)
    next
      case room: False
      show ?thesis
      proof (cases "lst = l")
        case True
        with here room False show ?thesis by (simp add: Let_def)
      next
        case other: False
        with 2(4) have "lst \<in> set gs" by simp
        moreover have "int (length (fst (rr_pass cap idx gs ?out True))) < cap \<or> int (length ?out + length gs) \<le> cap"
          using 2(3) False room len by (auto simp: Let_def)
        ultimately show ?thesis using 2(2) [OF False refl room] 2(5) False room by (simp add: Let_def)
      qed
    qed
  qed
qed simp

lemma rr_from_cases [case_names stop last step]:
  obtains "\<not> int (length out) < cap" "round_robin_from cap gs idx out = out"
  | "int (length out) < cap" "\<not> snd (rr_pass cap idx gs out False)"
    "round_robin_from cap gs idx out = fst (rr_pass cap idx gs out False)"
  | "int (length out) < cap" "snd (rr_pass cap idx gs out False)"
    "round_robin_from cap gs idx out = round_robin_from cap gs (Suc idx) (fst (rr_pass cap idx gs out False))"
  by (cases "int (length out) < cap"; cases "snd (rr_pass cap idx gs out False)")
     (simp_all add: round_robin_from.simps [of cap gs idx out] split_beta)

lemma rr_from_induct [case_names step]:
  assumes "\<And>cap gs idx out. (int (length out) < cap \<Longrightarrow> snd (rr_pass cap idx gs out False) \<Longrightarrow>
             P cap gs (Suc idx) (fst (rr_pass cap idx gs out False))) \<Longrightarrow> P cap gs idx out"
  shows "P cap gs idx out"
proof (induction cap gs idx out rule: round_robin_from.induct)
  case (1 cap gs idx out)
  show ?case
  proof (rule assms)
    assume room: "int (length out) < cap" and adv: "snd (rr_pass cap idx gs out False)"
    show "P cap gs (Suc idx) (fst (rr_pass cap idx gs out False))" by (rule 1 [OF room prod.collapse adv])
  qed
qed

lemma rr_from_distinct:
  "distinct (map si_strategy out) \<Longrightarrow> distinct (map si_strategy (round_robin_from cap gs idx out))"
proof (induction cap gs idx out rule: rr_from_induct)
  case (step cap gs idx out)
  then show ?case using rr_pass_distinct [OF step(2), of cap idx gs False]
    by (cases cap gs idx out rule: rr_from_cases) simp_all
qed

lemma rr_from_subset: "set (round_robin_from cap gs idx out) \<subseteq> set out \<union> \<Union>(set ` set gs)"
proof (induction cap gs idx out rule: rr_from_induct)
  case (step cap gs idx out)
  note sub = rr_pass_subset [of cap idx gs out False]
  show ?case
    by (cases cap gs idx out rule: rr_from_cases) (simp, simp add: sub, use sub step in \<open>simp, blast\<close>)
qed

lemma rr_from_mono: "set out \<subseteq> set (round_robin_from cap gs idx out)"
proof (induction cap gs idx out rule: rr_from_induct)
  case (step cap gs idx out)
  note mono = rr_pass_mono [of out cap idx gs False]
  show ?case
    using mono step by (cases cap gs idx out rule: rr_from_cases) (simp_all add: subset_trans [OF mono])
qed

lemma rr_from_length: "int (length out) \<le> cap \<Longrightarrow> int (length (round_robin_from cap gs idx out)) \<le> cap"
proof (induction cap gs idx out rule: rr_from_induct)
  case (step cap gs idx out)
  then show ?case using rr_pass_length [of out cap idx gs False]
    by (cases cap gs idx out rule: rr_from_cases) simp_all
qed

lemma rr_from_full: "int (length (round_robin_from cap gs idx out)) < cap \<Longrightarrow> int (length out) < cap"
  by (cases cap gs idx out rule: rr_from_cases) simp_all

lemma rr_from_complete:
  assumes "int (length (round_robin_from cap gs idx out)) < cap"
    and "lst \<in> set gs" and "idx \<le> k" and "k < length lst"
  shows "si_strategy (lst ! k) \<in> strategies (round_robin_from cap gs idx out)"
  using assms
proof (induction cap gs idx out rule: rr_from_induct)
  case (step cap gs idx out)
  let ?p = "rr_pass cap idx gs out False"
  show ?case
  proof (cases cap gs idx out rule: rr_from_cases)
    case stop
    with step(2) show ?thesis by simp
  next
    case last
    with rr_pass_short [of cap idx gs out lst] step(3-5) show ?thesis by simp
  next
    case next_idx: step
    have less: "int (length (round_robin_from cap gs (Suc idx) (fst ?p))) < cap" using step(2) next_idx(3) by simp
    show ?thesis
    proof (cases "k = idx")
      case False
      with step.IH [OF next_idx(1,2) less step(3) _ step(5)] step(4) next_idx(3) show ?thesis by simp
    next
      case True
      with rr_pass_covers [of cap idx gs out False lst] rr_from_full [OF less] step(3,5)
      have "si_strategy (lst ! k) \<in> strategies (fst ?p)" by simp
      then show ?thesis unfolding next_idx(3) using rr_from_mono [of "fst ?p" cap gs "Suc idx"] by auto
    qed
  qed
qed

lemma rr_from_first:
  assumes "int (length gs) \<le> cap" and "lst \<in> set gs" and "lst \<noteq> []"
  shows "si_strategy (hd lst) \<in> strategies (round_robin_from cap gs 0 [])"
proof (cases cap gs "0 :: nat" "[] :: StrategyItem list" rule: rr_from_cases)
  case stop
  moreover have "0 < cap" using assms(1) length_pos_if_in_set [OF assms(2)] by linarith
  ultimately show ?thesis by simp
next
  case last
  with rr_pass_short [of cap 0 gs "[]" lst] assms show ?thesis by simp
next
  case step
  have "si_strategy (hd lst) \<in> strategies (fst (rr_pass cap 0 gs [] False))"
    using rr_pass_covers [of cap 0 gs "[]" False lst] assms by (simp add: hd_conv_nth)
  then show ?thesis unfolding step(3)
    using rr_from_mono [of "fst (rr_pass cap 0 gs [] False)" cap gs "Suc 0"] by auto
qed

text \<open>
  The interleaving of the families under a cap. The result has at most as many items as the cap,
  no strategy twice, and only items of the families. When the cap leaves room for one item of every
  family, the first strategy of every family is in it, so no family is starved; and when the result
  stays below the cap, no strategy of any family is missing.
\<close>

lemma round_robin_facts:
  "let out = round_robin gs cap in
     distinct (map si_strategy out) \<and> set out \<subseteq> \<Union>((set \<circ> snd) ` set gs) \<and> int (length out) \<le> max 0 cap \<and>
     (int (length gs) \<le> cap \<longrightarrow>
        (\<forall>(t, lst) \<in> set gs. lst \<noteq> [] \<longrightarrow> si_strategy (hd lst) \<in> strategies out)) \<and>
     (int (length out) < cap \<longrightarrow> (\<forall>(t, lst) \<in> set gs. strategies lst \<subseteq> strategies out))"
proof -
  let ?gs = "map snd gs" let ?out = "round_robin_from cap ?gs 0 []"
  have "int (length ?out) \<le> max 0 cap"
    using rr_from_length [of "[]" cap ?gs 0] by (cases "0 \<le> cap") (simp_all add: round_robin_from.simps)
  moreover have "set ?out \<subseteq> \<Union>((set \<circ> snd) ` set gs)" using rr_from_subset [of cap ?gs 0 "[]"] by (simp add: image_image)
  moreover have "strategies lst \<subseteq> strategies ?out" if "int (length ?out) < cap" "(t, lst) \<in> set gs" for t lst
    using rr_from_complete [OF that(1), of lst] that(2) by (force simp: in_set_conv_nth)
  moreover have "si_strategy (hd lst) \<in> strategies ?out" if "int (length gs) \<le> cap" "(t, lst) \<in> set gs" "lst \<noteq> []" for t lst
    using rr_from_first [of ?gs cap lst] that by force
  ultimately show ?thesis using rr_from_distinct [of "[]" cap ?gs 0]
    unfolding round_robin_def Let_def split_beta by (intro conjI impI ballI) (simp, simp, simp, metis prod.collapse, metis prod.collapse)
qed

end
