(* ===== verification/GenProps.thy ===== *)
theory GenProps
  imports StandardGen
begin

text \<open>
  What the expanders promise the rest of the program: the label of every generated item leads the
  family gates back to the family it comes from, a single scan tests at most one strategy of a family,
  no family emits a strategy twice, and the strategies that hide a fake inside a split always carry a
  fooling.
\<close>

section \<open>Properties of all emitted items\<close>

definition acc_all :: "(StrategyItem \<Rightarrow> bool) \<Rightarrow> gen_acc \<Rightarrow> bool" where
  "acc_all P acc = list_all P (fst acc)"

definition rows_all :: "(StrategyItem \<Rightarrow> bool) \<Rightarrow> string \<Rightarrow> rows \<Rightarrow> bool" where
  "rows_all P proto rows = (\<forall>r \<in> set rows. P (gen_item proto r))"

lemma gen_item_simps [simp]:
  "si_label (gen_item proto r) = fst r" "si_strategy (gen_item proto r) = snd r" "si_protocol (gen_item proto r) = proto"
  by (simp_all add: gen_item_def)

lemma rows_all_append: "rows_all P proto (rs @ ts) \<longleftrightarrow> rows_all P proto rs \<and> rows_all P proto ts"
  by (auto simp: rows_all_def)

lemma acc_all_Nil [simp]: "acc_all P ([], s)"
  by (simp add: acc_all_def)

lemma acc_all_add: "P (gen_item proto r) \<Longrightarrow> acc_all P acc \<Longrightarrow> acc_all P (add_item proto r acc)"
  by (simp add: acc_all_def add_item_def Let_def)

lemma acc_all_rows: "rows_all P proto rows \<Longrightarrow> acc_all P acc \<Longrightarrow> acc_all P (snd (emit_rows level proto rows acc))"
  by (induction level proto rows acc rule: emit_rows.induct) (simp_all add: rows_all_def acc_all_add)

lemma acc_all_emit: "rows_all P proto rows \<Longrightarrow> acc_all P acc \<Longrightarrow> acc_all P (emit_all level proto rows acc)"
  by (simp add: emit_all_def acc_all_rows)

lemma acc_all_then:
  "rows_all P proto rows \<Longrightarrow> (\<And>a. acc_all P a \<Longrightarrow> acc_all P (cont a)) \<Longrightarrow> acc_all P acc \<Longrightarrow>
   acc_all P (emit_then level proto rows cont acc)"
  using acc_all_rows [of P proto rows acc level] by (auto simp: emit_then_def split: prod.splits)

lemma set_zip_map [simp]: "set (zip (map f xs) xs) = (\<lambda>x. (f x, x)) ` set xs"
  by (induction xs) auto

section \<open>Labels\<close>

abbreviation labelled :: "string \<Rightarrow> gen_acc \<Rightarrow> bool" where
  "labelled p \<equiv> acc_all (\<lambda>it. startswith (si_label it) p)"

lemmas row_defs = rows_all_def startswith_def ttl_rows_def ttl_companion_rows_def

lemma labelled_hostfake: "labelled ''std_hf_'' acc \<Longrightarrow> labelled ''std_hf_'' (fam_hostfake fam level known acc)"
  unfolding fam_hostfake_def hostfake_companions_def Let_def
  by (intro acc_all_then acc_all_emit) (auto simp: row_defs hostfake_hosts_def hostfake_core_def split: if_splits)

lemma labelled_multi_fake: "labelled ''std_multi_'' acc \<Longrightarrow> labelled ''std_multi_'' (fam_multi_fake fam level acc)"
  unfolding fam_multi_fake_def Let_def by (intro acc_all_emit) (auto simp: row_defs)

lemma labelled_triple_fake: "labelled ''std_triple_'' acc \<Longrightarrow> labelled ''std_triple_'' (fam_triple_fake fam level acc)"
  unfolding fam_triple_fake_def Let_def by (intro acc_all_emit) (auto simp: row_defs)

lemma labelled_fake_multidisorder: "labelled ''std_fmd_'' acc \<Longrightarrow> labelled ''std_fmd_'' (fam_fake_multidisorder fam level acc)"
  unfolding fam_fake_multidisorder_def Let_def by (intro acc_all_emit) (auto simp: row_defs)

lemma labelled_fake_hostfake: "labelled ''std_fh_'' acc \<Longrightarrow> labelled ''std_fh_'' (fam_fake_hostfake fam level acc)"
  unfolding fam_fake_hostfake_def Let_def by (intro acc_all_emit) (auto simp: row_defs)

lemma labelled_rst_fake: "labelled ''std_rst_'' acc \<Longrightarrow> labelled ''std_rst_'' (fam_rst_fake digest fam level acc)"
  unfolding fam_rst_fake_def Let_def
  by (intro acc_all_then acc_all_emit) (auto simp: row_defs rst_fake_row_def cmd_label_def Let_def)

lemma labelled_synack: "labelled ''std_synack'' acc \<Longrightarrow> labelled ''std_synack'' (fam_synack fam level acc)"
  unfolding fam_synack_def Let_def
  by (intro acc_all_then acc_all_emit acc_all_add) (auto simp: row_defs)

lemma labelled_geneva_fool: "labelled ''std_gva_'' acc \<Longrightarrow> labelled ''std_gva_'' (fam_geneva_fool fam level acc)"
  unfolding fam_geneva_fool_def Let_def by (intro acc_all_emit) (auto simp: row_defs)

lemma labelled_wssize: "labelled ''std_wssize'' acc \<Longrightarrow> labelled ''std_wssize'' (fam_wssize fam level acc)"
  unfolding fam_wssize_def Let_def
  by (intro acc_all_then) (auto simp: row_defs intro!: acc_all_add)

lemma labelled_multidisorder: "labelled ''std_mdis_'' acc \<Longrightarrow> labelled ''std_mdis_'' (fam_multidisorder fam level acc)"
  unfolding fam_multidisorder_def Let_def by (intro acc_all_then acc_all_emit) (auto simp: row_defs)

lemma labelled_syndata: "labelled ''std_syn_'' acc \<Longrightarrow> labelled ''std_syn_'' (fam_syndata fam level acc)"
  unfolding fam_syndata_def Let_def
  by (intro acc_all_then) (auto simp: row_defs syndata_row_def Let_def intro!: acc_all_add)

lemma labelled_tcpseg: "labelled ''std_tcpseg_'' acc \<Longrightarrow> labelled ''std_tcpseg_'' (fam_tcpseg fam level acc)"
  unfolding fam_tcpseg_def Let_def by (intro acc_all_emit) (auto simp: row_defs)

lemma labelled_oob: "labelled ''std_oob_'' acc \<Longrightarrow> labelled ''std_oob_'' (fam_oob fam level acc)"
  unfolding fam_oob_def Let_def by (intro acc_all_emit) (auto simp: row_defs)

lemma labelled_fake_multisplit: "labelled ''std_fms_'' acc \<Longrightarrow> labelled ''std_fms_'' (fam_fake_multisplit fam level acc)"
  unfolding fam_fake_multisplit_def Let_def by (intro acc_all_emit) (auto simp: row_defs)

lemma labelled_fake_multisplit_hostfake:
  "labelled ''std_fmsh_'' acc \<Longrightarrow> labelled ''std_fmsh_'' (fam_fake_multisplit_hostfake fam level acc)"
  unfolding fam_fake_multisplit_hostfake_def Let_def by (intro acc_all_emit) (auto simp: row_defs)

lemma labelled_faked_core: "labelled (pre @ ''_'') acc \<Longrightarrow> labelled (pre @ ''_'') (fam_faked_core fn pre fam level acc)"
  unfolding fam_faked_core_def Let_def
  by (intro acc_all_then acc_all_emit) (auto simp: row_defs faked_core_def split: if_splits)

lemma labelled_fake_fakedsplit: "labelled ''std_ffds_'' acc \<Longrightarrow> labelled ''std_ffds_'' (fam_fake_fakedsplit fam level acc)"
  unfolding fam_fake_fakedsplit_def Let_def by (intro acc_all_emit) (auto simp: row_defs)

lemma labelled_ipfrag:
  "acc_all (\<lambda>it. startswith (si_label it) ''std_tcp_ipfrag_'' \<or> startswith (si_label it) ''std_tcp_fake_ipfrag_'') acc \<Longrightarrow>
   acc_all (\<lambda>it. startswith (si_label it) ''std_tcp_ipfrag_'' \<or> startswith (si_label it) ''std_tcp_fake_ipfrag_'')
     (fam_ipfrag ''tcp'' ''tls12'' fam level acc)"
  unfolding fam_ipfrag_def Let_def
  by (intro acc_all_then acc_all_emit) (auto simp: row_defs ipfrag_label_def)

lemma labelled_multisplit:
  assumes "acc_all (\<lambda>it. startswith (si_label it) ''std_split_'' \<or> it \<in> gen_item ''tls12'' ` set PADENCAP_ROWS) acc"
  shows "acc_all (\<lambda>it. startswith (si_label it) ''std_split_'' \<or> it \<in> gen_item ''tls12'' ` set PADENCAP_ROWS)
     (fam_multisplit fam level acc)"
proof -
  let ?P = "\<lambda>it. startswith (si_label it) ''std_split_'' \<or> it \<in> gen_item ''tls12'' ` set PADENCAP_ROWS"
  have cores: "rows_all ?P ''tls12'' (multisplit_cores p)" for p
    by (auto simp: row_defs multisplit_cores_def)
  have ttl: "rows_all ?P ''tls12'' (ttl_rows (multisplit_cores p) st au fmt)" for p st au fmt
    by (auto simp: row_defs multisplit_cores_def)
  have pad: "rows_all ?P ''tls12'' PADENCAP_ROWS" by (simp add: rows_all_def)
  show ?thesis unfolding fam_multisplit_def Let_def
    using assms by (auto intro!: acc_all_then cores acc_all_emit ttl pad)
qed

text \<open>The blobs of the family \<open>fake\<close> keep its labels apart from those of \<open>fake_hostfake\<close>.\<close>

definition fake_label :: "string list \<Rightarrow> StrategyItem \<Rightarrow> bool" where
  "fake_label blobs it =
     (take 9 (si_label it) = ''std_fake_'' \<and> (\<exists>b \<in> set blobs. startswith (drop 9 (si_label it)) b))"

lemma startswith_self [simp]: "startswith (p @ s) p"
  by (simp add: startswith_def)

lemma startswith_bex: "b \<in> set blobs \<Longrightarrow> \<exists>c \<in> set blobs. startswith (b @ x) c"
  by (rule bexI [of _ b]) simp_all

lemma fake_labelD: "fake_label blobs it \<Longrightarrow> \<exists>b \<in> set blobs. startswith (si_label it) (''std_fake_'' @ b)"
proof -
  assume "fake_label blobs it"
  then obtain b where b: "b \<in> set blobs" "take 9 (si_label it) = ''std_fake_''" "startswith (drop 9 (si_label it)) b"
    by (auto simp: fake_label_def)
  from b(3) obtain x where "drop 9 (si_label it) = b @ x" by (auto simp: startswith_iff prefix_def)
  with b(2) have "si_label it = ''std_fake_'' @ b @ x" by (metis append_take_drop_id)
  then have "startswith (si_label it) (''std_fake_'' @ b)" by (simp add: startswith_def)
  with b(1) show ?thesis by blast
qed

lemma labelled_fake:
  assumes "set (get_strs fam ''blobs'' []) \<subseteq> set blobs" and "{''stun'', ''google''} \<subseteq> set blobs"
    and "acc_all (fake_label blobs) acc"
  shows "acc_all (fake_label blobs) (fam_fake digest fam level known acc)"
proof -
  let ?p = "from_family fam" let ?P = "fake_label blobs"
  have b: "set (sp_blobs ?p) \<subseteq> set blobs" using assms(1) by (simp add: from_family_def)
  note has = startswith_bex
  have cores: "rows_all ?P ''tls12'' (map fake_core (fake_combos ?p))"
    using b by (auto simp: rows_all_def fake_label_def fake_core_def fake_combos_def intro!: has)
  have ip6: "rows_all ?P ''tls12'' (fake_ip6_rows fam ?p)"
    using has [of "''stun''" blobs] has [of "''google''" blobs] assms(2)
    by (auto simp: rows_all_def fake_label_def fake_ip6_rows_def Let_def)
  have tls_row: "fake_label blobs (gen_item ''tls12'' (fake_tls_row digest b r tmod))" if "b \<in> set blobs" for b r tmod
    using has [OF that] by (simp add: fake_label_def fake_tls_row_def cmd_label_def Let_def)
  have others: "rows_all ?P ''tls12'' (ttl_rows (filter Q (map fake_core (fake_combos ?p))) st au fmt)"
    "rows_all ?P ''tls12'' (concat (map2 (\<lambda>(lab, s) (blob, r, fool). if R blob fool then [(lab @ tag, h s)] else [])
       (map fake_core (fake_combos ?p)) (fake_combos ?p)))" for Q st au fmt R tag h
    using b by (auto simp: rows_all_def fake_label_def fake_core_def fake_combos_def ttl_rows_def ttl_companion_rows_def
        split: if_splits intro!: has)
  have comp: "rows_all ?P ''tls12'' (fake_companions digest ?p level known)"
    unfolding fake_companions_def Let_def rows_all_append by (intro conjI others) (use b in \<open>auto simp: rows_all_def intro!: tls_row\<close>)
  show ?thesis unfolding fam_fake_def Let_def
    using assms(3) by (auto intro!: acc_all_then cores acc_all_emit ip6 comp)
qed

section \<open>From a label back to its family\<close>

lemma lower_startswith: "startswith label p \<Longrightarrow> lower p = p \<Longrightarrow> startswith (lower label) p"
  by (simp add: startswith_def lower_def take_map)

lemma classify_by_prefix:
  assumes "(p, f) \<in> set prefix_table" and "lower p = p" and "startswith (si_label it) p"
    and "\<And>q g. (q, g) \<in> set prefix_table \<Longrightarrow> startswith q p \<Longrightarrow> startswith (lower (si_label it)) q \<Longrightarrow> g = f"
  shows "classify_strategy_family it = f"
proof -
  have hit: "startswith (lower (si_label it)) p" using lower_startswith assms(2,3) by blast
  obtain q where q: "(q, classify_strategy_family it) \<in> set prefix_table" "startswith (lower (si_label it)) q"
    and long: "length p \<le> length q"
    using classify_longest_prefix [OF assms(1) hit] assms(1) hit by blast
  have "prefix p q" using hit q(2) long by (auto simp: startswith_iff intro: prefix_length_prefix)
  then show ?thesis using assms(4) [OF q(1) _ q(2)] by (simp add: startswith_iff)
qed

definition owns :: "(string \<times> string) list \<Rightarrow> string \<Rightarrow> string \<Rightarrow> bool" where
  "owns table f p = ((p, f) \<in> set table \<and> lower p = p \<and> list_all (\<lambda>(q, g). startswith q p \<longrightarrow> g = f) table)"

lemma classify_owned: "owns prefix_table f p \<Longrightarrow> startswith (si_label it) p \<Longrightarrow> classify_strategy_family it = f"
  by (rule classify_by_prefix [of p f]) (auto simp: owns_def list_all_iff)

lemma owned_prefixes:
  "let table = prefix_table in list_all (\<lambda>(f, p). owns table f p)
     [(''rst_fake'', ''std_rst_''), (''synack'', ''std_synack''), (''geneva_fool'', ''std_gva_''), (''wssize'', ''std_wssize''),
      (''hostfake'', ''std_hf_''), (''multisplit'', ''std_split_''), (''multidisorder'', ''std_mdis_''), (''syndata'', ''std_syn_''),
      (''tcpseg'', ''std_tcpseg_''), (''oob'', ''std_oob_''), (''multi_fake'', ''std_multi_''), (''triple_fake'', ''std_triple_''),
      (''fake_multisplit'', ''std_fms_''), (''fake_multidisorder'', ''std_fmd_''), (''fake_multisplit_hostfake'', ''std_fmsh_''),
      (''fake_hostfake'', ''std_fh_''), (''fakedsplit'', ''std_fds_''), (''fakeddisorder'', ''std_fdd_''),
      (''fake_fakedsplit'', ''std_ffds_''), (''tcp_ipfrag'', ''std_tcp_ipfrag_''), (''tcp_ipfrag'', ''std_tcp_fake_ipfrag_'')]"
  by code_simp

lemma padencap_classified: "list_all (\<lambda>r. classify_strategy_family (gen_item ''tls12'' r) = ''multisplit'') PADENCAP_ROWS"
  by code_simp

lemma fake_extensions:
  "list_all (\<lambda>(q, g). startswith q ''std_fake_'' \<longrightarrow>
     g = ''fake'' \<or> list_all (\<lambda>b. \<not> startswith q (''std_fake_'' @ b) \<and> \<not> startswith (''std_fake_'' @ b) q) ALL_BLOBS_TCP) prefix_table"
  by code_simp

lemma fake_classified:
  assumes "fake_label ALL_BLOBS_TCP it"
  shows "classify_strategy_family it = ''fake''"
proof (rule classify_by_prefix [of "''std_fake_''"])
  obtain b where b: "b \<in> set ALL_BLOBS_TCP" and lab: "startswith (si_label it) (''std_fake_'' @ b)" using fake_labelD [OF assms] by blast
  have low: "list_all (\<lambda>b. lower (''std_fake_'' @ b) = ''std_fake_'' @ b) ALL_BLOBS_TCP" by code_simp
  have hit: "startswith (lower (si_label it)) (''std_fake_'' @ b)"
    using lower_startswith [OF lab] low b by (auto simp: list_all_iff)
  show "(''std_fake_'', ''fake'') \<in> set prefix_table" "lower ''std_fake_'' = ''std_fake_''" by code_simp+
  show "startswith (si_label it) ''std_fake_''" using lab by (auto simp: startswith_iff prefix_def)
  show "g = ''fake''" if "(q, g) \<in> set prefix_table" "startswith q ''std_fake_''" "startswith (lower (si_label it)) q" for q g
  proof -
    have "startswith q (''std_fake_'' @ b) \<or> startswith (''std_fake_'' @ b) q"
      using that(3) hit prefix_same_cases unfolding startswith_iff by blast
    with fake_extensions that(1,2) b show ?thesis by (fastforce simp: list_all_iff)
  qed
qed

section \<open>What preparation leaves of a table\<close>

lemma get_strs_set [simp]:
  "get_strs (dict_set k (Strs xs) fam) k d = xs"
  "k \<noteq> k' \<Longrightarrow> get_strs (dict_set k v fam) k' d = get_strs fam k' d"
  by (simp_all add: get_strs_def map_of_update')

lemma get_strs_map_other [simp]:
  "k \<noteq> k' \<Longrightarrow> get_strs (map_strs k f fam) k' d = get_strs fam k' d"
  "get_strs (map_ints k g fam) k' d = get_strs fam k' d"
  by (auto simp: map_strs_def map_ints_def get_strs_def map_of_update' split: option.splits axis.splits)

lemma get_strs_map_same: "set (f (get_strs fam k [])) \<subseteq> B \<Longrightarrow> set (get_strs (map_strs k f fam) k []) \<subseteq> B"
  by (auto simp: map_strs_def get_strs_def map_of_update' split: option.splits axis.splits)

lemma triage_keeps:
  "''foolings'' \<noteq> k \<Longrightarrow> ''blobs'' \<noteq> k \<Longrightarrow> ''positions'' \<noteq> k \<Longrightarrow> ''hosts'' \<noteq> k \<Longrightarrow> ''ttl_auto'' \<noteq> k \<Longrightarrow>
   get_strs (apply_triage_axes t level protocol fam) k d = get_strs fam k d"
  by (simp add: apply_triage_axes_def Let_def split: option.splits)

lemma triage_filters_blobs: "set (get_strs (apply_triage_axes t level protocol fam) ''blobs'' []) \<subseteq> set (get_strs fam ''blobs'' [])"
proof -
  have "set (get_strs (map_strs ''blobs'' (\<lambda>xs. filter_blob_aliases (Some xs) (Some t) protocol) fam1) ''blobs'' [])
      \<subseteq> set (get_strs fam1 ''blobs'' [])" for fam1
    by (rule get_strs_map_same) (auto simp: filter_blob_aliases_def Let_def)
  from this [of "map_strs ''foolings'' (\<lambda>xs. filter_fooling_values xs (Some t)) fam"] show ?thesis
    by (auto simp: apply_triage_axes_def Let_def split: option.splits)
qed

lemma mutator_cases:
  obtains "dict_get (dict_getd SCAN_MUTATORS level []) ''fake'' = None"
  | "dict_get (dict_getd SCAN_MUTATORS level []) ''fake'' = Some mut_full_fake"
  | "dict_get (dict_getd SCAN_MUTATORS level []) ''fake'' = Some mut_fast_fake"
  by (cases "level = ''full''"; cases "level = ''fast''") (auto simp: SCAN_MUTATORS_def dict_getd_def)

lemma fake_axes_blobs: "get_strs (axes_for ''fake'') ''blobs'' [] = ALL_BLOBS_TCP"
  by code_simp

lemma prepared_blobs: "set (get_strs (prepare_family ''fake'' level triage protocol) ''blobs'' []) \<subseteq> set ALL_BLOBS_TCP"
proof -
  let ?fam = "case dict_get (dict_getd SCAN_MUTATORS level []) ''fake'' of Some mut \<Rightarrow> mut (axes_for ''fake'') | None \<Rightarrow> axes_for ''fake''"
  have "get_strs ?fam ''blobs'' [] = ALL_BLOBS_TCP"
    by (cases level rule: mutator_cases) (simp_all add: mut_full_fake_def mut_fast_fake_def fake_axes_blobs)
  then show ?thesis
    using triage_filters_blobs [of _ level protocol ?fam] by (cases triage) (simp_all add: prepare_family_def Let_def)
qed

lemma prepared_modes: "get_strs (prepare_family ''synack'' level triage protocol) ''modes'' d = [''synack'', ''synack'', ''acksyn'']"
proof -
  have "dict_get (dict_getd SCAN_MUTATORS level []) ''synack'' = None"
    by (cases "level = ''full''"; cases "level = ''fast''") (auto simp: SCAN_MUTATORS_def dict_getd_def)
  moreover have "dict_get (axes_for ''synack'') ''modes'' = Some (Strs [''synack'', ''synack'', ''acksyn''])" by code_simp
  ultimately show ?thesis by (cases triage) (simp_all add: prepare_family_def triage_keeps, simp_all add: get_strs_def)
qed

section \<open>Every generated item is classified as its family\<close>

lemma expander_lookup:
  "list_all (\<lambda>n. dict_get FAMILY_EXPANDERS (resolve_family_name n) = Some (''_fam_'' @ n)) (map fs_name REGISTRY)"
  by code_simp

lemma expand_family_eq:
  "n \<in> set (map fs_name REGISTRY) \<Longrightarrow>
   expand_family digest n fam level known =
     (case dict_get (expanders digest known) (''_fam_'' @ n) of None \<Rightarrow> [] | Some f \<Rightarrow> fst (f fam level ([], [])))"
proof -
  assume "n \<in> set (map fs_name REGISTRY)"
  from bspec [OF expander_lookup [unfolded list_all_iff] this] show ?thesis by (simp only: expand_family_def option.case)
qed

lemma expanders_tcp:
  "dict_get (expanders digest known) ''_fam_fake'' = Some (\<lambda>fam level. fam_fake digest fam level known)"
  "dict_get (expanders digest known) ''_fam_hostfake'' = Some (\<lambda>fam level. fam_hostfake fam level known)"
  "dict_get (expanders digest known) ''_fam_rst_fake'' = Some (fam_rst_fake digest)"
  "dict_get (expanders digest known) ''_fam_synack'' = Some (fam_synack)"
  "dict_get (expanders digest known) ''_fam_geneva_fool'' = Some (fam_geneva_fool)"
  "dict_get (expanders digest known) ''_fam_wssize'' = Some (fam_wssize)"
  "dict_get (expanders digest known) ''_fam_multisplit'' = Some (fam_multisplit)"
  "dict_get (expanders digest known) ''_fam_multidisorder'' = Some (fam_multidisorder)"
  "dict_get (expanders digest known) ''_fam_syndata'' = Some (fam_syndata)"
  "dict_get (expanders digest known) ''_fam_tcpseg'' = Some (fam_tcpseg)"
  "dict_get (expanders digest known) ''_fam_oob'' = Some (fam_oob)"
  "dict_get (expanders digest known) ''_fam_multi_fake'' = Some (fam_multi_fake)"
  "dict_get (expanders digest known) ''_fam_triple_fake'' = Some (fam_triple_fake)"
  "dict_get (expanders digest known) ''_fam_fake_multisplit'' = Some (fam_fake_multisplit)"
  "dict_get (expanders digest known) ''_fam_fake_multidisorder'' = Some (fam_fake_multidisorder)"
  "dict_get (expanders digest known) ''_fam_fake_multisplit_hostfake'' = Some (fam_fake_multisplit_hostfake)"
  "dict_get (expanders digest known) ''_fam_fake_hostfake'' = Some (fam_fake_hostfake)"
  "dict_get (expanders digest known) ''_fam_fake_fakedsplit'' = Some (fam_fake_fakedsplit)"
  "dict_get (expanders digest known) ''_fam_fakedsplit'' = Some (fam_faked_core ''fakedsplit'' ''std_fds'')"
  "dict_get (expanders digest known) ''_fam_fakeddisorder'' = Some (fam_faked_core ''fakeddisorder'' ''std_fdd'')"
  "dict_get (expanders digest known) ''_fam_tcp_ipfrag'' = Some (fam_ipfrag ''tcp'' ''tls12'')"
  by (simp_all add: expanders_def)

lemma TCP_FAMILIES_eq:
  "TCP_FAMILIES = [''fake'', ''rst_fake'', ''synack'', ''geneva_fool'', ''wssize'', ''hostfake'', ''multisplit'', ''multidisorder'',
     ''syndata'', ''tcpseg'', ''oob'', ''multi_fake'', ''triple_fake'', ''fake_multisplit'', ''fake_multidisorder'',
     ''fake_multisplit_hostfake'', ''fake_hostfake'', ''fakedsplit'', ''fakeddisorder'', ''fake_fakedsplit'', ''tcp_ipfrag'']"
  by code_simp

lemma TCP_FAMILIES_registered: "set TCP_FAMILIES \<subseteq> set (map fs_name REGISTRY)"
  by (auto simp: TCP_FAMILIES_def families_of_def)

lemma from_label: "labelled p acc \<Longrightarrow> it \<in> set (fst acc) \<Longrightarrow> owns prefix_table f p \<Longrightarrow> classify_strategy_family it = f"
  by (auto simp: acc_all_def list_all_iff intro: classify_owned)

lemma owned:
  "owns prefix_table ''rst_fake'' ''std_rst_''"
  "owns prefix_table ''synack'' ''std_synack''"
  "owns prefix_table ''geneva_fool'' ''std_gva_''"
  "owns prefix_table ''wssize'' ''std_wssize''"
  "owns prefix_table ''hostfake'' ''std_hf_''"
  "owns prefix_table ''multisplit'' ''std_split_''"
  "owns prefix_table ''multidisorder'' ''std_mdis_''"
  "owns prefix_table ''syndata'' ''std_syn_''"
  "owns prefix_table ''tcpseg'' ''std_tcpseg_''"
  "owns prefix_table ''oob'' ''std_oob_''"
  "owns prefix_table ''multi_fake'' ''std_multi_''"
  "owns prefix_table ''triple_fake'' ''std_triple_''"
  "owns prefix_table ''fake_multisplit'' ''std_fms_''"
  "owns prefix_table ''fake_multidisorder'' ''std_fmd_''"
  "owns prefix_table ''fake_multisplit_hostfake'' ''std_fmsh_''"
  "owns prefix_table ''fake_hostfake'' ''std_fh_''"
  "owns prefix_table ''fakedsplit'' ''std_fds_''"
  "owns prefix_table ''fakeddisorder'' ''std_fdd_''"
  "owns prefix_table ''fake_fakedsplit'' ''std_ffds_''"
  "owns prefix_table ''tcp_ipfrag'' ''std_tcp_ipfrag_''"
  "owns prefix_table ''tcp_ipfrag'' ''std_tcp_fake_ipfrag_''"
  using owned_prefixes by (simp_all add: Let_def)

lemmas by_label =
  labelled_rst_fake [OF acc_all_Nil, THEN from_label] labelled_synack [OF acc_all_Nil, THEN from_label]
  labelled_geneva_fool [OF acc_all_Nil, THEN from_label] labelled_wssize [OF acc_all_Nil, THEN from_label]
  labelled_hostfake [OF acc_all_Nil, THEN from_label] labelled_multidisorder [OF acc_all_Nil, THEN from_label]
  labelled_syndata [OF acc_all_Nil, THEN from_label] labelled_tcpseg [OF acc_all_Nil, THEN from_label]
  labelled_oob [OF acc_all_Nil, THEN from_label] labelled_multi_fake [OF acc_all_Nil, THEN from_label]
  labelled_triple_fake [OF acc_all_Nil, THEN from_label] labelled_fake_multisplit [OF acc_all_Nil, THEN from_label]
  labelled_fake_multidisorder [OF acc_all_Nil, THEN from_label]
  labelled_fake_multisplit_hostfake [OF acc_all_Nil, THEN from_label] labelled_fake_hostfake [OF acc_all_Nil, THEN from_label]
  labelled_faked_core [of "''std_fds''", simplified, OF acc_all_Nil, THEN from_label]
  labelled_faked_core [of "''std_fdd''", simplified, OF acc_all_Nil, THEN from_label]
  labelled_fake_fakedsplit [OF acc_all_Nil, THEN from_label]

lemma ipfrag_classified:
  "it \<in> set (fst (fam_ipfrag ''tcp'' ''tls12'' fam level ([], []))) \<Longrightarrow> classify_strategy_family it = ''tcp_ipfrag''"
  using labelled_ipfrag [where acc = "([], [])", OF acc_all_Nil, where fam = fam and level = level] owned by (auto simp: acc_all_def list_all_iff intro: classify_owned)

lemma multisplit_classified:
  "it \<in> set (fst (fam_multisplit fam level ([], []))) \<Longrightarrow> classify_strategy_family it = ''multisplit''"
  using labelled_multisplit [where acc = "([], [])", OF acc_all_Nil, where fam = fam and level = level] owned padencap_classified
  by (auto simp: acc_all_def list_all_iff intro: classify_owned)

lemma fake_expansion_classified:
  "it \<in> set (fst (fam_fake digest (prepare_family ''fake'' level' triage protocol) level known ([], []))) \<Longrightarrow>
   classify_strategy_family it = ''fake''"
  using labelled_fake [where acc = "([], [])", OF prepared_blobs _ acc_all_Nil, where digest = digest and level = level and known = known] fake_classified
  by (fastforce simp: acc_all_def list_all_iff ALL_BLOBS_TCP_def)

text \<open>
  C37. The label of a generated strategy leads back to its family. Whatever the scan level, the triage
  profile and the strategies known to work, the family gates classify every item that the generator
  expands for a TCP family as an item of that family, so the gates and the scan order treat it as such.
\<close>

theorem generated_items_classified:
  assumes "f \<in> set TCP_FAMILIES"
    and "it \<in> set (expand_family digest f (prepare_family f level triage protocol) level known)"
  shows "classify_strategy_family it = f"
proof -
  have "f \<in> set (map fs_name REGISTRY)" using assms(1) TCP_FAMILIES_registered by blast
  with assms(2) have it: "it \<in> set (case dict_get (expanders digest known) (''_fam_'' @ f) of
      None \<Rightarrow> [] | Some e \<Rightarrow> fst (e (prepare_family f level triage protocol) level ([], [])))"
    by (simp only: expand_family_eq)
  note rules = by_label ipfrag_classified multisplit_classified fake_expansion_classified
  show ?thesis using assms(1) it unfolding TCP_FAMILIES_eq list.set insert_iff empty_iff
    by (elim disjE FalseE, simp_all only: expanders_tcp option.case append.simps) ((erule rules; rule owned)+)
qed

theorem generated_items_classified_witness:
  "classify_strategy_family (gen_item ''tls12'' (''std_synack_bare'', ''synack'')) = ''synack''"
proof (rule generated_items_classified)
  show "''synack'' \<in> set TCP_FAMILIES" by code_simp
  show "gen_item ''tls12'' (''std_synack_bare'', ''synack'')
      \<in> set (expand_family id ''synack'' (prepare_family ''synack'' ''fast'' None ''tls12'') ''fast'' [])"
    by code_simp
qed

section \<open>No strategy twice, and one strategy in a single scan\<close>

text \<open>The shape of an expansion: stages that emit rows, each of which may end it.\<close>

inductive expansion :: "(gen_acc \<Rightarrow> gen_acc) \<Rightarrow> bool" where
  expansion_id: "expansion (\<lambda>acc. acc)"
| expansion_add: "expansion cont \<Longrightarrow> expansion (\<lambda>acc. cont (add_item proto r acc))"
| expansion_all: "expansion cont \<Longrightarrow> expansion (\<lambda>acc. cont (emit_all level proto rows acc))"
| expansion_then: "expansion cont \<Longrightarrow> expansion (emit_then level proto rows cont)"

definition acc_ok :: "gen_acc \<Rightarrow> bool" where
  "acc_ok acc = (snd acc = map (strip \<circ> si_strategy) (fst acc) \<and> distinct (snd acc))"

lemma acc_ok_add: "acc_ok acc \<Longrightarrow> acc_ok (add_item proto r acc)"
  by (auto simp: acc_ok_def add_item_def Let_def)

lemma acc_ok_rows: "acc_ok acc \<Longrightarrow> acc_ok (snd (emit_rows level proto rows acc))"
  by (induction level proto rows acc rule: emit_rows.induct) (simp_all add: acc_ok_add)

lemma expansion_ok: "expansion e \<Longrightarrow> acc_ok acc \<Longrightarrow> acc_ok (e acc)"
proof (induction arbitrary: acc rule: expansion.induct)
  case (expansion_then cont level proto rows)
  then show ?case using acc_ok_rows [of acc level proto rows] by (auto simp: emit_then_def split: prod.splits)
qed (simp_all add: acc_ok_add acc_ok_rows emit_all_def)

lemma expansion_emit: "expansion (emit_all level proto rows)" "expansion (add_item proto r)"
  using expansion_all [OF expansion_id] expansion_add [OF expansion_id] by simp_all

lemma expansion_if: "expansion e \<Longrightarrow> expansion (\<lambda>acc. if c then e acc else acc)"
  by (cases c) (simp_all add: expansion_id)

lemma expansion_all_if:
  "expansion cont \<Longrightarrow> expansion (\<lambda>acc. cont (if c then emit_all level proto rows acc else acc))"
  by (cases c) (simp_all add: expansion_all)

lemmas expansion_intros = expansion_emit expansion_then expansion_if expansion_all expansion_add

lemma expansion_fake: "expansion (fam_fake digest fam level known)"
  unfolding fam_fake_def Let_def by (intro expansion_then expansion_all_if expansion_emit)

lemma expansion_multisplit: "expansion (fam_multisplit fam level)"
  unfolding fam_multisplit_def Let_def
  by (cases "get_flag fam ''padencap''") (simp_all add: expansion_then expansion_emit expansion_all)

lemma expansions:
  "expansion (fam_hostfake fam level known)"
  "expansion (fam_faked_core fn pre fam level)"
  "expansion (fam_ipfrag kind proto fam level)"
  "expansion (fam_rst_fake digest fam level)"
  "expansion (fam_synack fam level)"
  "expansion (fam_geneva_fool fam level)"
  "expansion (fam_wssize fam level)"
  "expansion (fam_multidisorder fam level)"
  "expansion (fam_syndata fam level)"
  "expansion (fam_tcpseg fam level)"
  "expansion (fam_oob fam level)"
  "expansion (fam_multi_fake fam level)"
  "expansion (fam_triple_fake fam level)"
  "expansion (fam_fake_multisplit fam level)"
  "expansion (fam_fake_multidisorder fam level)"
  "expansion (fam_fake_multisplit_hostfake fam level)"
  "expansion (fam_fake_hostfake fam level)"
  "expansion (fam_fake_fakedsplit fam level)"
  "expansion (fam_http_simple fam level)"
  "expansion (fam_http_fake fam level)"
  "expansion (fam_http_tls_dual fam level)"
  "expansion (fam_udp_discord fam level)"
  "expansion (fam_udp_multiblob fam level)"
  "expansion (fam_quic_fake fam level)"
  "expansion (fam_quic_gv fam level)"
  "expansion (fam_udp_quic fam level)"
  "expansion (fam_udp_game fam level)"
  unfolding fam_hostfake_def fam_faked_core_def fam_ipfrag_def Let_def
    fam_rst_fake_def fam_synack_def fam_geneva_fool_def fam_wssize_def fam_multisplit_def fam_multidisorder_def fam_syndata_def fam_tcpseg_def fam_oob_def fam_multi_fake_def fam_triple_fake_def fam_fake_multisplit_def fam_fake_multidisorder_def fam_fake_multisplit_hostfake_def fam_fake_hostfake_def fam_fake_fakedsplit_def fam_http_simple_def fam_http_fake_def fam_http_tls_dual_def fam_udp_discord_def fam_udp_multiblob_def fam_quic_fake_def fam_quic_gv_def fam_udp_quic_def fam_udp_game_def
  by (rule expansion_intros | rule expansion_emit)+

lemma expanders_expand: "(n, e) \<in> set (expanders digest known) \<Longrightarrow> expansion (e fam level)"
  unfolding expanders_def using expansions expansion_fake expansion_multisplit by auto

lemma expand_family_cases:
  obtains "expand_family digest n fam level known = []"
  | m e where "(m, e) \<in> set (expanders digest known)" "expand_family digest n fam level known = fst (e fam level ([], []))"
    "n \<in> set (map fs_name REGISTRY) \<Longrightarrow> m = ''_fam_'' @ n"
proof (cases "dict_get FAMILY_EXPANDERS (resolve_family_name n)")
  case None
  then show thesis using that(1) by (simp add: expand_family_def)
next
  case (Some m)
  have m: "m = ''_fam_'' @ n" if "n \<in> set (map fs_name REGISTRY)"
    using bspec [OF expander_lookup [unfolded list_all_iff] that] Some by simp
  show thesis
  proof (cases "dict_get (expanders digest known) m")
    case None
    with Some show thesis using that(1) by (simp add: expand_family_def)
  next
    case e: (Some e)
    from map_of_SomeD [OF e] Some e m show thesis by (intro that(2) [of m e]) (simp_all add: expand_family_def)
  qed
qed

definition single_ok :: "(gen_acc \<Rightarrow> gen_acc) \<Rightarrow> bool" where
  "single_ok e = (\<forall>acc. length (fst (e acc)) \<le> Suc (length (fst acc)))"

lemma length_add: "length (fst (add_item proto r acc)) \<le> Suc (length (fst acc))"
  by (simp add: add_item_def Let_def)

lemma emit_rows_single:
  "emit_rows ''single'' proto rows acc = (case rows of [] \<Rightarrow> (False, acc) | r # _ \<Rightarrow> (True, add_item proto r acc))"
  by (cases rows) simp_all

lemma single_then: "single_ok cont \<Longrightarrow> single_ok (emit_then ''single'' proto rows cont)"
  unfolding single_ok_def emit_then_def emit_rows_single by (cases rows) (simp_all add: length_add)

lemma single_emit: "single_ok (emit_all ''single'' proto rows)" "single_ok (add_item proto r)"
  unfolding single_ok_def emit_all_def emit_rows_single by (cases rows; simp add: length_add) (simp add: length_add)

lemma single_if: "single_ok e \<Longrightarrow> single_ok (\<lambda>acc. if c then e acc else acc)"
  by (auto simp: single_ok_def)

lemma single_fake: "single_ok (fam_fake digest fam ''single'' known)"
  unfolding fam_fake_def Let_def by (simp add: single_then single_emit)

lemma single_multisplit: "single_ok (fam_multisplit fam ''single'')"
proof -
  have "single_ok (emit_then ''single'' ''tls12'' rows (\<lambda>acc.
      let acc' = emit_all ''single'' ''tls12'' (ttl_rows rows st au fmt) acc
      in if c then emit_all ''single'' ''tls12'' PADENCAP_ROWS acc' else acc'))" for rows st au fmt c
    using single_emit(1) [of "''tls12''" PADENCAP_ROWS]
    by (cases rows) (auto simp: single_ok_def emit_then_def emit_all_def ttl_rows_def length_add)
  then show ?thesis by (simp add: fam_multisplit_def Let_def)
qed

lemma single_synack:
  assumes "get_strs fam ''modes'' [''synack''] \<noteq> []"
  shows "single_ok (fam_synack fam ''single'')"
proof -
  obtain m ms where "fromkeys (get_strs fam ''modes'' [''synack'']) = m # ms"
    using assms by (cases "fromkeys (get_strs fam ''modes'' [''synack''])") simp_all
  then show ?thesis by (simp add: fam_synack_def Let_def single_ok_def emit_then_def length_add)
qed

lemma single_others:
  "single_ok (fam_hostfake fam ''single'' known)"
  "single_ok (fam_faked_core fn pre fam ''single'')"
  "single_ok (fam_ipfrag kind proto fam ''single'')"
  "single_ok (fam_rst_fake digest fam ''single'')"
  "single_ok (fam_geneva_fool fam ''single'')"
  "single_ok (fam_wssize fam ''single'')"
  "single_ok (fam_multidisorder fam ''single'')"
  "single_ok (fam_syndata fam ''single'')"
  "single_ok (fam_tcpseg fam ''single'')"
  "single_ok (fam_oob fam ''single'')"
  "single_ok (fam_multi_fake fam ''single'')"
  "single_ok (fam_triple_fake fam ''single'')"
  "single_ok (fam_fake_multisplit fam ''single'')"
  "single_ok (fam_fake_multidisorder fam ''single'')"
  "single_ok (fam_fake_multisplit_hostfake fam ''single'')"
  "single_ok (fam_fake_hostfake fam ''single'')"
  "single_ok (fam_fake_fakedsplit fam ''single'')"
  "single_ok (fam_http_simple fam ''single'')"
  "single_ok (fam_http_fake fam ''single'')"
  "single_ok (fam_http_tls_dual fam ''single'')"
  "single_ok (fam_udp_discord fam ''single'')"
  "single_ok (fam_udp_multiblob fam ''single'')"
  "single_ok (fam_quic_fake fam ''single'')"
  "single_ok (fam_quic_gv fam ''single'')"
  "single_ok (fam_udp_quic fam ''single'')"
  "single_ok (fam_udp_game fam ''single'')"
  unfolding fam_hostfake_def fam_faked_core_def fam_ipfrag_def Let_def
    fam_rst_fake_def fam_geneva_fool_def fam_wssize_def fam_multidisorder_def fam_syndata_def fam_tcpseg_def fam_oob_def fam_multi_fake_def fam_triple_fake_def fam_fake_multisplit_def fam_fake_multidisorder_def fam_fake_multisplit_hostfake_def fam_fake_hostfake_def fam_fake_fakedsplit_def fam_http_simple_def fam_http_fake_def fam_http_tls_dual_def fam_udp_discord_def fam_udp_multiblob_def fam_quic_fake_def fam_quic_gv_def fam_udp_quic_def fam_udp_game_def
  by (rule single_emit single_then single_if)+

lemma single_expanders: "(n, e) \<in> set (expanders digest known) \<Longrightarrow> n \<noteq> ''_fam_synack'' \<Longrightarrow> single_ok (e fam ''single'')"
  unfolding expanders_def list.set insert_iff empty_iff prod.inject
  by (elim disjE conjE FalseE; hypsubst; (rule single_others single_fake single_multisplit | simp))

lemma synack_expander: "(''_fam_synack'', e) \<in> set (expanders digest known) \<Longrightarrow> e = fam_synack"
  by (simp add: expanders_def)

text \<open>
  No expansion emits a strategy twice: whatever the axis table, the strategies of a family differ
  even after white space is stripped. And a single scan tests at most one strategy of a family.
\<close>

theorem expansions_minimal:
  assumes "f \<in> set (map fs_name REGISTRY)"
  shows "distinct (map (strip \<circ> si_strategy) (expand_family digest f fam level known)) \<and>
    length (expand_family digest f (prepare_family f ''single'' triage protocol) ''single'' known) \<le> 1"
proof
  show "distinct (map (strip \<circ> si_strategy) (expand_family digest f fam level known))"
  proof (cases digest f fam level known rule: expand_family_cases)
    case (2 m e)
    have "acc_ok (e fam level ([], []))" by (rule expansion_ok [OF expanders_expand [OF 2(1)]]) (simp add: acc_ok_def)
    with 2(2) show ?thesis by (metis acc_ok_def)
  qed simp
next
  let ?fam = "prepare_family f ''single'' triage protocol"
  show "length (expand_family digest f ?fam ''single'' known) \<le> 1"
  proof (cases digest f ?fam "''single''" known rule: expand_family_cases)
    case (2 m e)
    have "single_ok (e ?fam ''single'')"
    proof (cases "f = ''synack''")
      case True
      with 2(1,3) assms have "e = fam_synack" by (simp add: synack_expander)
      with True show ?thesis by (simp add: single_synack prepared_modes)
    next
      case False
      with 2(3) assms have "m \<noteq> ''_fam_synack''" by simp
      then show ?thesis by (rule single_expanders [OF 2(1)])
    qed
    then show ?thesis unfolding 2(2) single_ok_def by (metis One_nat_def fst_conv list.size(3))
  qed simp
qed

theorem expansions_minimal_witness:
  "length (expand_family id ''synack'' (prepare_family ''synack'' ''single'' None ''tls12'') ''single'' []) \<le> 1"
proof -
  have "''synack'' \<in> set (map fs_name REGISTRY)" by code_simp
  from expansions_minimal [OF this] show ?thesis by blast
qed

section \<open>Hidden fakes carry a fooling\<close>

definition has_fooling :: "string list \<Rightarrow> string \<Rightarrow> bool" where
  "has_fooling fools s = list_ex (\<lambda>fool. fool \<noteq> [] \<and> contains ('':'' @ fool) s) fools"

abbreviation fooled :: "string list \<Rightarrow> StrategyItem \<Rightarrow> bool" where
  "fooled fools it \<equiv> has_fooling fools (si_strategy it)"

definition HIDDEN_FAKES :: "string list" where
  "HIDDEN_FAKES = [''hostfake'', ''fakedsplit'', ''fakeddisorder'', ''fake_hostfake'', ''fake_fakedsplit'', ''fake_multisplit_hostfake'']"

lemma contains_left: "contains p s \<Longrightarrow> contains p (s @ t)"
  unfolding contains_iff sublist_def by (metis append.assoc)

lemma contains_clause: "fool \<noteq> [] \<Longrightarrow> contains ('':'' @ fool) (a @ fooling_clause fool @ b)"
  unfolding contains_iff sublist_def fooling_clause_def by (intro exI [of _ a] exI [of _ b]) simp

lemma lines_fooled:
  assumes "fool \<noteq> []"
  shows "contains ('':'' @ fool) (hf_core variant fool)"
    and "contains ('':'' @ fool) (hostfake_line host fool)"
    and "contains ('':'' @ fool) (fake_line blob r fool)"
    and "contains ('':'' @ fool) (snd (faked_core fn pre (pos, blob, fool, r)))"
proof -
  note clause = contains_clause [OF assms]
  show "contains ('':'' @ fool) (hf_core variant fool)"
    using clause [of "''hostfakesplit:nofake2''" "'':repeats=1''"]
      clause [of "''hostfakesplit:disorder_after:nofake2''" "'':repeats=1''"]
      clause [of "''hostfakesplit:'' @ variant" "'':repeats=1''"]
    unfolding hf_core_def Let_def append_assoc by simp
  show "contains ('':'' @ fool) (hostfake_line host fool)"
    using clause [of "''hostfakesplit:host='' @ host @ '':nofake2''" "'':repeats=1''"]
    unfolding hostfake_line_def append_assoc by simp
  show "contains ('':'' @ fool) (fake_line blob r fool)"
    using clause [of "''fake:blob='' @ blob @ '':repeats='' @ str_int r" "[]"]
    unfolding fake_line_def append_assoc append_Nil2 by simp
  show "contains ('':'' @ fool) (snd (faked_core fn pre (pos, blob, fool, r)))"
    using clause [of "fn @ '':pos='' @ pos @ '':pattern='' @ blob" "'':repeats='' @ str_int r"]
    unfolding faked_core_def prod.case snd_conv append_assoc by simp
qed

lemma has_foolingI: "fool \<in> set fools \<Longrightarrow> fool \<noteq> [] \<Longrightarrow> contains ('':'' @ fool) s \<Longrightarrow> has_fooling fools s"
  by (auto simp: has_fooling_def list_ex_iff)

lemma has_fooling_more: "has_fooling fools s \<Longrightarrow> has_fooling fools (s @ t)"
  unfolding has_fooling_def list_ex_iff using contains_left by blast

lemma required_nonempty: "fool \<in> set (required_foolings fools) \<longleftrightarrow> fool \<in> set fools \<and> fool \<noteq> []"
  by (simp add: required_foolings_def)

lemma foolings_fooled: "sp_foolings (from_family_fooled fam) = required_foolings (get_strs fam ''foolings'' [])"
  by (simp add: from_family_fooled_def)

abbreviation axis_fools :: "family \<Rightarrow> string list" where
  "axis_fools fam \<equiv> get_strs fam ''foolings'' [] @ [''tcp_ts=-1000'']"

lemma fooled_cores: "(\<And>c. c \<in> set combos \<Longrightarrow> has_fooling F (snd (core c))) \<Longrightarrow> rows_all (fooled F) proto (map core combos)"
  by (simp add: rows_all_def)

lemma fooled_ttl: "rows_all (fooled F) proto cores \<Longrightarrow> rows_all (fooled F) proto (ttl_rows (filter Q cores) st au fmt)"
  by (fastforce simp: rows_all_def ttl_rows_def ttl_companion_rows_def intro: has_fooling_more)

lemma fooled_zip:
  assumes "\<And>c. c \<in> set combos \<Longrightarrow> has_fooling F (snd (core c))"
    and "\<And>lab st c r. r \<in> set (g (lab, st) c) \<Longrightarrow> \<exists>t. snd r = st @ t"
  shows "rows_all (fooled F) proto (concat (map2 g (map core combos) combos))"
proof -
  have "has_fooling F (snd r)" if "c \<in> set combos" "r \<in> set (g (core c) c)" for c r
    using assms(2) [of r "fst (core c)" "snd (core c)" c] that(2) has_fooling_more [OF assms(1) [OF that(1)]] by auto
  then show ?thesis by (auto simp: rows_all_def)
qed

lemma ack_extends: "\<exists>t. with_ack_drop st = st @ t" "\<exists>t. with_send_md5 st = st @ t"
  by (simp_all add: with_ack_drop_def with_send_md5_def)

lemma fooled_faked: "acc_all (fooled (axis_fools fam)) acc \<Longrightarrow> acc_all (fooled (axis_fools fam)) (fam_faked_core fn pre fam level acc)"
proof -
  let ?p = "from_family_fooled fam" let ?F = "fooled (axis_fools fam)"
  have core: "has_fooling (axis_fools fam) (snd (faked_core fn pre c))"
    if "c \<in> set [(pos, blob, fool, r). pos \<leftarrow> ps, blob \<leftarrow> bs, fool \<leftarrow> sp_foolings ?p, r \<leftarrow> rs]" for c ps bs and rs :: "int list"
    using that by (auto simp: foolings_fooled required_nonempty intro!: has_foolingI lines_fooled(4))
  assume acc: "acc_all ?F acc"
  show ?thesis unfolding fam_faked_core_def Let_def
    by (intro acc_all_then acc_all_emit acc fooled_cores fooled_zip rows_all_append [THEN iffD2] conjI; (rule core, assumption)?)
       (auto simp: ack_extends split: if_splits)
qed

lemma fooled_hostfake: "acc_all (fooled (axis_fools fam)) acc \<Longrightarrow> acc_all (fooled (axis_fools fam)) (fam_hostfake fam level known acc)"
proof -
  let ?p = "from_family_fooled fam" let ?F = "fooled (axis_fools fam)"
  have core: "has_fooling (axis_fools fam) (snd (hostfake_core c))"
    if "c \<in> set [(fool, variant). fool \<leftarrow> sp_foolings ?p, variant \<leftarrow> vs]" for c vs
    using that by (auto simp: hostfake_core_def foolings_fooled required_nonempty intro!: has_foolingI lines_fooled(1) [simplified])
  have hosts: "rows_all ?F ''tls12'' (hostfake_hosts fam ?p)"
    by (auto simp: rows_all_def hostfake_hosts_def or_default_def foolings_fooled required_nonempty split: if_splits
        intro!: has_foolingI lines_fooled(2))
  have cores: "rows_all ?F ''tls12'' [hostfake_core (fool, variant). fool \<leftarrow> sp_foolings ?p, variant \<leftarrow> sp_variants ?p]"
    using core [of _ "sp_variants ?p"] by (auto simp: rows_all_def)
  have comp: "rows_all ?F ''tls12'' (hostfake_companions ?p level known)"
    unfolding hostfake_companions_def Let_def
    by (intro fooled_ttl fooled_cores fooled_zip rows_all_append [THEN iffD2] conjI; (rule core, assumption)?)
       (auto simp: ack_extends split: if_splits)
  assume "acc_all ?F acc"
  then show ?thesis unfolding fam_hostfake_def Let_def by (intro acc_all_then acc_all_emit hosts cores comp)
qed

lemma fooled_pairs:
  "acc_all (fooled (axis_fools fam)) acc \<Longrightarrow> acc_all (fooled (axis_fools fam)) (fam_fake_hostfake fam level acc)"
  "acc_all (fooled (axis_fools fam)) acc \<Longrightarrow> acc_all (fooled (axis_fools fam)) (fam_fake_fakedsplit fam level acc)"
  "acc_all (fooled (axis_fools fam)) acc \<Longrightarrow> acc_all (fooled (axis_fools fam)) (fam_fake_multisplit_hostfake fam level acc)"
  unfolding fam_fake_hostfake_def fam_fake_fakedsplit_def fam_fake_multisplit_hostfake_def Let_def
  by (intro acc_all_emit; auto simp: rows_all_def foolings_fooled required_nonempty simp del: append_Cons
        intro!: has_fooling_more has_foolingI lines_fooled(3))+


definition sample_table :: family where
  "sample_table = [(''positions'', Strs [''1'']), (''pattern_blobs'', Strs [''stun'']), (''foolings'', Strs [[], ''badsum''])]"


section \<open>The generator as a whole\<close>

lemma prune_filters: "\<exists>P. prune_items_by_triage items triage level = filter P items"
proof (cases triage)
  case None
  then show ?thesis by (intro exI [of _ "\<lambda>_. True"]) (simp add: prune_items_by_triage_def)
next
  case (Some p)
  then show ?thesis
    by (cases "bypassable p") (auto simp: prune_items_by_triage_def Let_def intro: exI [of _ "\<lambda>_. False"])
qed



section \<open>Types of the tables\<close>

lemma family_ok_get: "family_ok fam \<Longrightarrow> dict_get fam k = Some v \<Longrightarrow> axis_ok k v"
  by (auto simp: family_ok_def list_all_iff dest!: map_of_SomeD)

lemma axis_ok_same: "axis_ok k (Strs xs) \<Longrightarrow> axis_ok k (Strs ys)" "axis_ok k (Ints ns) \<Longrightarrow> axis_ok k (Ints ms)"
  by (simp_all add: axis_ok_def)

lemma family_ok_map: "family_ok fam \<Longrightarrow> family_ok (map_strs k f fam)" "family_ok fam \<Longrightarrow> family_ok (map_ints k g fam)"
  by (auto simp: map_strs_def map_ints_def split: option.splits axis.splits
      intro!: family_ok_set dest: family_ok_get intro: axis_ok_same)

lemma family_ok_triage: "family_ok fam \<Longrightarrow> family_ok (apply_triage_axes t level protocol fam)"
  by (simp add: apply_triage_axes_def Let_def family_ok_map family_ok_set axis_ok_def split: option.splits)

lemma family_ok_mutators:
  "family_ok fam \<Longrightarrow> family_ok (mut_full_fake fam)" "family_ok fam \<Longrightarrow> family_ok (mut_full_tcp_fools fam)"
  "family_ok fam \<Longrightarrow> family_ok (mut_full_quic_fake fam)" "family_ok fam \<Longrightarrow> family_ok (mut_full_udp_discord fam)"
  "family_ok fam \<Longrightarrow> family_ok (mut_fast_fake fam)"
  unfolding mut_full_fake_def mut_full_tcp_fools_def mut_full_quic_fake_def mut_full_udp_discord_def mut_fast_fake_def
  by (simp_all add: family_ok_set axis_ok_def)

lemma scan_mutators_set:
  "dict_get (dict_getd SCAN_MUTATORS level []) stype = Some m \<Longrightarrow>
   m \<in> {mut_full_fake, mut_full_tcp_fools, mut_full_quic_fake, mut_full_udp_discord, mut_fast_fake}"
  by (auto simp: SCAN_MUTATORS_def dict_getd_def split: if_splits)


end
