(* ===== verification/StaticValidator.thy ===== *)
theory StaticValidator
  imports ConfBuilder
begin

text \<open>
  \<^verbatim>\<open>engine/static_validator.py\<close>: offline checks of a strategy string. The blob directories and the custom
  Lua manifest are those of the host record of the configuration builder. A character here is one of
  the first 256 of Unicode, all of which have an UTF-8 encoding.
\<close>

section \<open>Issues\<close>

datatype severity = SevError | SevWarning | SevInfo

record ValidationIssue =
  vi_code :: string
  vi_message :: string
  vi_severity :: severity

definition issue :: "string \<Rightarrow> string \<Rightarrow> severity \<Rightarrow> ValidationIssue" where
  "issue c msg sev = \<lparr>vi_code = c, vi_message = msg, vi_severity = sev\<rparr>"

record StrategyValidationResult =
  vr_strategy :: string
  vr_issues :: "ValidationIssue list"

definition is_error :: "ValidationIssue \<Rightarrow> bool" where
  "is_error i = (vi_severity i = SevError)"

definition is_valid :: "StrategyValidationResult \<Rightarrow> bool" where
  "is_valid r = (\<not> list_ex is_error (vr_issues r))"

definition errors :: "StrategyValidationResult \<Rightarrow> ValidationIssue list" where
  "errors r = filter is_error (vr_issues r)"

section \<open>Reading a strategy\<close>

definition SPLIT_FAMILIES :: "string list" where
  "SPLIT_FAMILIES =
     [''split2'', ''multisplit'', ''nmultisplit'', ''fakedsplit'', ''nfakedsplit'', ''fakeddisorder'', ''multidisorder'',
      ''hostfakesplit'', ''nhostfakesplit'', ''fake_fakedsplit'', ''fake_multisplit'', ''fake_multisplit_hostfake'',
      ''fake_fakeddisorder'', ''fake_multidisorder'']"

definition FAKE_MARKERS :: "string list" where
  "FAKE_MARKERS = [''fake'', ''dupfake'', ''multi_fake'', ''multifake'', ''fake_default'']"

definition BLOB_PARAM_RE :: re where
  "BLOB_PARAM_RE =
     RSeq (ranyof [''blob'', ''pattern'', ''seqovl_pattern'']) (RSeq (rlit ''='') (RGroup 1 (rplus is_ident)))"

definition POS_PARAM_RE :: re where
  "POS_PARAM_RE = RSeq (rlit ''pos='') (RGroup 1 (rplus (\<lambda>c. is_ident c \<or> c = CHR '','' \<or> c = CHR '':'')))"

definition NUM_PARAM :: re where
  "NUM_PARAM =
     RSeq (RAlt RStart (rlit '':''))
       (RSeq (RGroup 1 (ranyof [''tcp_ts'', ''tcp_ack'', ''tcp_seq'', ''ip_ttl'', ''ttl'']))
         (RSeq (rlit ''='') (RGroup 2 (rplus (\<lambda>c. c \<noteq> CHR '':'' \<and> \<not> is_space c)))))"

definition REPEATS_PARAM_RE :: re where
  "REPEATS_PARAM_RE = RSeq (rlit ''repeats='') (RGroup 1 (RSeq (ropt (rlit ''-'')) (rplus is_decimal)))"

definition extract_blobs :: "string \<Rightarrow> string list" where
  "extract_blobs strategy = fromkeys (re_findall BLOB_PARAM_RE strategy)"

definition leading_family :: "string \<Rightarrow> string option" where
  "leading_family strategy =
     (let token = lower (strip (before_char CHR '':'' (strip strategy))) in if token = [] then None else Some token)"

definition is_fake_family :: "string \<Rightarrow> bool" where
  "is_fake_family strategy = (\<exists>f \<in> set FAKE_MARKERS. leading_family strategy = Some f)"

definition is_split_family :: "string \<Rightarrow> bool" where
  "is_split_family strategy =
     ((\<exists>f \<in> set SPLIT_FAMILIES. leading_family strategy = Some f) \<or>
      list_ex (\<lambda>name. contains name (lower strategy) \<and> name \<noteq> ''hostfakesplit'') SPLIT_FAMILIES)"

definition is_well_formed :: "string \<Rightarrow> bool" where
  "is_well_formed strategy =
     (if CHR 0x0A \<in> set strategy \<or> CHR 0x0D \<in> set strategy then False
      else even (count_list strategy (CHR 0x22)))"

definition is_hex_literal :: "string \<Rightarrow> bool" where
  "is_hex_literal name = re_fullmatch (RSeq (rlit ''0x'') (rplus hex_char)) name"

section \<open>Checks of one core\<close>

definition digit_blob_issues :: "string list \<Rightarrow> ValidationIssue list" where
  "digit_blob_issues blobs =
     map (\<lambda>name. issue ''digit_blob_id''
            (''blob/pattern '' @ [CHR 0x27] @ name @ [CHR 0x27] @ '' starts with a digit (nfqws2 fatal identifier); runtime/export uses '' @
             [CHR 0x27] @ safe_blob_name name @ [CHR 0x27]) SevWarning)
       (filter (\<lambda>name. isdigit (take 1 name) \<and> \<not> is_hex_literal name) blobs)"

definition blob_known :: "conf_env \<Rightarrow> string option \<Rightarrow> string \<Rightarrow> bool" where
  "blob_known env blobs_dir name =
     (name = ''0x00000000'' \<or> name \<in> set BUILTIN_BLOBS \<or> is_hex_literal name \<or>
      name \<in> set (dict_keys BLOB_ALIAS_MAP) \<or>
      (case resolve_blob_path (cv_blobs env) blobs_dir name of Some p \<Rightarrow> p \<noteq> [] | None \<Rightarrow> False))"

definition unknown_blob_issues :: "conf_env \<Rightarrow> string option \<Rightarrow> string list \<Rightarrow> ValidationIssue list" where
  "unknown_blob_issues env blobs_dir blobs =
     map (\<lambda>name. issue ''unknown_blob''
            (''blob/pattern '' @ [CHR 0x27] @ name @ [CHR 0x27] @ '' not found in blobs dirs and not a known alias'') SevError)
       (filter (\<lambda>name. \<not> blob_known env blobs_dir name) blobs)"

text \<open>The limits of a numeric parameter and the words of the message when it is outside.\<close>

definition num_limits :: "string \<Rightarrow> (int \<times> int) \<times> string" where
  "num_limits param =
     (if param \<in> set [''ip_ttl'', ''ttl''] then ((0, 255), '' out of range 0..255'')
      else ((- (2 ^ 31), 2 ^ 31 - 1), '' outside int32 range''))"

definition num_issue :: "(string \<Rightarrow> string) \<Rightarrow> string \<times> string \<Rightarrow> ValidationIssue option" where
  "num_issue py_repr pv =
     (case pv of (param, val) \<Rightarrow>
        (case int_of_str val of
           None \<Rightarrow> Some (issue ''non_numeric_param'' (param @ '' is not a valid integer: '' @ py_repr val) SevError)
         | Some v \<Rightarrow>
             (case num_limits param of
                ((lo, hi), words) \<Rightarrow>
                  if lo \<le> v \<and> v \<le> hi then None
                  else Some (issue (''invalid_'' @ param) (param @ ''='' @ str_int v @ words) SevError))))"

definition num_params :: "string \<Rightarrow> (string \<times> string) list" where
  "num_params raw = map (\<lambda>c. (group 1 c, group 2 c)) (re_finditer NUM_PARAM raw)"

definition repeat_values :: "string \<Rightarrow> int list" where
  "repeat_values raw = List.map_filter int_of_str (re_findall REPEATS_PARAM_RE raw)"

definition repeats_issue :: "int \<Rightarrow> ValidationIssue option" where
  "repeats_issue r =
     (if 1 \<le> r \<and> r \<le> 20 then None
      else Some (issue ''repeats_range'' (''repeats='' @ str_int r @ '' outside 1..20'') (if r < 1 then SevError else SevWarning)))"

definition lua_issue :: "string \<Rightarrow> ValidationIssue" where
  "lua_issue msg =
     (if contains ''is excluded'' msg then issue ''custom_lua_excluded'' msg SevError
      else issue ''custom_lua_undocumented'' msg SevWarning)"

definition opt_issue :: "bool \<Rightarrow> string \<Rightarrow> string \<Rightarrow> severity \<Rightarrow> ValidationIssue list" where
  "opt_issue c cd msg sev = (if c then [issue cd msg sev] else [])"

definition validate_single :: "conf_env \<Rightarrow> (string \<Rightarrow> string) \<Rightarrow> string option \<Rightarrow> string \<Rightarrow> StrategyValidationResult" where
  "validate_single env py_repr blobs_dir raw =
     (let blobs = extract_blobs raw
      in \<lparr>vr_strategy = raw,
          vr_issues =
            digit_blob_issues blobs @
            opt_issue (is_fake_family raw \<and> blobs = []) ''fake_without_blob''
              ''Fake desync specified without blob=/pattern= source'' SevError @
            unknown_blob_issues env blobs_dir blobs @
            opt_issue (is_split_family raw \<and> \<not> re_found POS_PARAM_RE raw) ''split_without_pos''
              ''Split-family desync selected without specifying pos= offset'' SevWarning @
            List.map_filter (num_issue py_repr) (num_params raw) @
            List.map_filter repeats_issue (repeat_values raw) @
            opt_issue (CHR ''<'' \<in> set raw \<and> \<not> list_ex (\<lambda>t. startswith t [CHR 0x22]) (split_ws (strip raw))) ''unescaped_lt''
              (''Unescaped '' @ [CHR 0x27] @ ''<'' @ [CHR 0x27] @ '' in strategy; escape as '' @ [CHR 0x5C] @ ''< for @conf files'') SevInfo @
            map lua_issue (validate_custom_lua_params env raw)\<rparr>)"

section \<open>Whole strategies\<close>

definition SEPARATOR :: string where
  "SEPARATOR = [CHR 0x5C, CHR ''n'']"

definition core_segments :: "string \<Rightarrow> string list" where
  "core_segments raw = filter (\<lambda>seg. seg \<noteq> []) (map strip (if contains SEPARATOR raw then split_str SEPARATOR raw else [raw]))"

definition validate_strategy :: "conf_env \<Rightarrow> (string \<Rightarrow> string) \<Rightarrow> string option \<Rightarrow> string \<Rightarrow> StrategyValidationResult" where
  "validate_strategy env py_repr blobs_dir raw =
     (if strip raw = [] then
        \<lparr>vr_strategy = raw, vr_issues = [issue ''empty_strategy'' ''Strategy string is empty'' SevError]\<rparr>
      else if \<not> is_well_formed raw then
        \<lparr>vr_strategy = raw,
         vr_issues = [issue ''malformed'' ''Strategy contains broken encoding, unbalanced quotes, or a raw newline'' SevError]\<rparr>
      else
        \<lparr>vr_strategy = raw,
         vr_issues = concat (map (\<lambda>seg. vr_issues (validate_single env py_repr blobs_dir seg)) (core_segments raw))\<rparr>)"

definition validate_strategies :: "conf_env \<Rightarrow> (string \<Rightarrow> string) \<Rightarrow> string option \<Rightarrow> string list \<Rightarrow> StrategyValidationResult list" where
  "validate_strategies env py_repr blobs_dir strategies = map (validate_strategy env py_repr blobs_dir) strategies"

section \<open>What is accepted\<close>

lemma is_valid_conv: "is_valid r \<longleftrightarrow> (\<forall>i \<in> set (vr_issues r). vi_severity i \<noteq> SevError)"
  by (auto simp: is_valid_def list_ex_iff is_error_def)

lemma no_errors_Un: "(\<forall>i \<in> set (xs @ ys). vi_severity i \<noteq> SevError) \<longleftrightarrow>
    (\<forall>i \<in> set xs. vi_severity i \<noteq> SevError) \<and> (\<forall>i \<in> set ys. vi_severity i \<noteq> SevError)"
  by auto

lemma opt_issue_no_error: "(\<forall>i \<in> set (opt_issue c cd msg sev). vi_severity i \<noteq> SevError) \<longleftrightarrow> \<not> c \<or> sev \<noteq> SevError"
  by (simp add: opt_issue_def issue_def)

lemma map_filter_no_error:
  "(\<forall>i \<in> set (List.map_filter f xs). vi_severity i \<noteq> SevError) \<longleftrightarrow> (\<forall>x \<in> set xs. \<forall>i. f x = Some i \<longrightarrow> vi_severity i \<noteq> SevError)"
  by (force simp: List.map_filter_def)

text \<open>The conditions on one core, without reference to messages.\<close>

definition core_accepted :: "conf_env \<Rightarrow> string option \<Rightarrow> string \<Rightarrow> bool" where
  "core_accepted env blobs_dir raw =
     ((is_fake_family raw \<longrightarrow> extract_blobs raw \<noteq> []) \<and>
      list_all (blob_known env blobs_dir) (extract_blobs raw) \<and>
      list_all (\<lambda>(param, val). case int_of_str val of
          None \<Rightarrow> False | Some v \<Rightarrow> fst (fst (num_limits param)) \<le> v \<and> v \<le> snd (fst (num_limits param))) (num_params raw) \<and>
      list_all (\<lambda>r. 1 \<le> r) (repeat_values raw) \<and>
      \<not> list_ex (contains ''is excluded'') (validate_custom_lua_params env raw))"

lemma num_issue_none:
  "(\<forall>i. num_issue py_repr (param, val) = Some i \<longrightarrow> vi_severity i \<noteq> SevError) \<longleftrightarrow>
   (case int_of_str val of None \<Rightarrow> False | Some v \<Rightarrow> fst (fst (num_limits param)) \<le> v \<and> v \<le> snd (fst (num_limits param)))"
  by (auto simp: num_issue_def issue_def split: option.splits prod.splits)

lemma repeats_issue_none: "(\<forall>i. repeats_issue r = Some i \<longrightarrow> vi_severity i \<noteq> SevError) \<longleftrightarrow> 1 \<le> r"
  by (auto simp: repeats_issue_def issue_def)

lemma single_valid_iff: "is_valid (validate_single env py_repr blobs_dir raw) \<longleftrightarrow> core_accepted env blobs_dir raw"
proof -
  have digit: "(\<forall>i \<in> set (digit_blob_issues bs). vi_severity i \<noteq> SevError) = True" for bs
    by (simp add: digit_blob_issues_def issue_def)
  have unknown: "(\<forall>i \<in> set (unknown_blob_issues env blobs_dir bs). vi_severity i \<noteq> SevError) \<longleftrightarrow> list_all (blob_known env blobs_dir) bs" for bs
    by (auto simp: unknown_blob_issues_def issue_def list_all_iff)
  have lua: "(\<forall>i \<in> set (map lua_issue ms). vi_severity i \<noteq> SevError) \<longleftrightarrow> \<not> list_ex (contains ''is excluded'') ms" for ms
    by (induction ms) (auto simp: lua_issue_def issue_def)
  have num: "(\<forall>i \<in> set (List.map_filter (num_issue py_repr) ps). vi_severity i \<noteq> SevError) \<longleftrightarrow>
      list_all (\<lambda>(param, val). case int_of_str val of
          None \<Rightarrow> False | Some v \<Rightarrow> fst (fst (num_limits param)) \<le> v \<and> v \<le> snd (fst (num_limits param))) ps" for ps
    unfolding map_filter_no_error list_all_iff by (rule ball_cong [OF refl]) (simp add: split_paired_all num_issue_none)
  have rep: "(\<forall>i \<in> set (List.map_filter repeats_issue rs). vi_severity i \<noteq> SevError) \<longleftrightarrow> list_all (\<lambda>r. 1 \<le> r) rs" for rs
    unfolding map_filter_no_error list_all_iff repeats_issue_none ..
  show ?thesis
    unfolding is_valid_conv validate_single_def Let_def StrategyValidationResult.simps no_errors_Un opt_issue_no_error unknown lua num rep core_accepted_def
    by (simp only: digit severity.distinct simp_thms imp_conv_disj de_Morgan_conj)
qed

text \<open>
  The validator accepts a strategy exactly when it is not blank, is a single line with balanced quotes,
  and each of its cores names a payload where its family needs one, refers to known payloads only,
  has every checked number in its range and every repetition at least one, and uses no excluded Lua
  parameter.
\<close>

theorem validator_accepts_iff:
  "is_valid (validate_strategy env py_repr blobs_dir raw) \<longleftrightarrow>
     strip raw \<noteq> [] \<and> CHR 0x0A \<notin> set raw \<and> CHR 0x0D \<notin> set raw \<and> even (count_list raw (CHR 0x22)) \<and>
     list_all (core_accepted env blobs_dir) (core_segments raw)"
proof -
  have "(\<forall>i \<in> set (concat (map (\<lambda>seg. vr_issues (validate_single env py_repr blobs_dir seg)) segs)). vi_severity i \<noteq> SevError) \<longleftrightarrow>
      list_all (core_accepted env blobs_dir) segs" for segs
    unfolding list_all_iff single_valid_iff [of env py_repr, symmetric] is_valid_conv by auto
  then show ?thesis
    unfolding is_valid_conv validate_strategy_def by (auto simp: issue_def is_well_formed_def)
qed

text \<open>A strategy made of separators only has no core, so no check applies to it.\<close>

lemma separators_accepted: "is_valid (validate_strategy env py_repr blobs_dir SEPARATOR)"
proof -
  have "vr_issues (validate_strategy env py_repr blobs_dir SEPARATOR) = []"
  proof -
    have "strip SEPARATOR \<noteq> []" "is_well_formed SEPARATOR" "core_segments SEPARATOR = []"
      by code_simp+
    then show ?thesis
      by (simp add: validate_strategy_def)
  qed
  then show ?thesis
    by (simp add: is_valid_def)
qed

text \<open>The last backslash of a strategy may escape nothing.\<close>

lemma dangling_escape_well_formed: "is_well_formed [CHR ''x'', CHR 0x5C]"
  by code_simp

end
