(* ===== verification/CustomGen.thy ===== *)
theory CustomGen
  imports StaticValidator Expanders PyOrder
begin

text \<open>
  \<^verbatim>\<open>generators/custom.py\<close> and \<^verbatim>\<open>strategy_loader.py\<close>: strategies from custom lists, from configuration
  files and from a matrix file of the user. The files are arguments: the text of a path as Python's
  text mode returns it, or nothing when there is no such file, and the names in a directory. A file
  that exists can be read.
\<close>

record gen_env =
  gn_conf :: conf_env
  gn_repr :: "string \<Rightarrow> string"
  gn_digest :: "string \<Rightarrow> string"
  gn_text :: "string \<Rightarrow> string option"
  gn_listdir :: "string \<Rightarrow> string list option"
  gn_stdin :: string
  gn_custom_dir :: string
  gn_config_dir :: string

text \<open>\<open>for line in f\<close>\<close>

definition file_lines :: "string \<Rightarrow> string list" where
  "file_lines content = split_char (CHR 0x0A) content"

definition LABEL_PREFIX_LEN :: nat where "LABEL_PREFIX_LEN = 40"

definition cmd_human_label :: "(string \<Rightarrow> string) \<Rightarrow> string \<Rightarrow> string" where
  "cmd_human_label digest cmd =
     cmd_label digest
       (take LABEL_PREFIX_LEN (replace_char (CHR '':'') ''_'' (replace_char (CHR '' '') ''_'' (before_char (CHR 0x0A) cmd)))) cmd"

text \<open>The loops stop after the first item of a single scan.\<close>

definition single_first :: "string \<Rightarrow> 'a list \<Rightarrow> 'a list" where
  "single_first level items = (if level = ''single'' then take 1 items else items)"

section \<open>Custom lists\<close>

definition FILE_MAP :: "(string, string) dict" where
  "FILE_MAP = [(''http'', ''list_http.txt''), (''tls12'', ''list_https_tls12.txt''), (''tls13'', ''list_https_tls13.txt''),
               (''quic'', ''list_quic.txt''), (''udp_voice'', ''list_udp_voice.txt'')]"

definition strategy_lines :: "string \<Rightarrow> string list" where
  "strategy_lines content = filter (\<lambda>l. l \<noteq> [] \<and> \<not> startswith l ''#'') (map strip (file_lines content))"

definition custom_proto :: "string \<Rightarrow> string" where
  "custom_proto protocol = (if protocol \<in> set [''http'', ''quic'', ''tls13'', ''udp_voice''] then protocol else ''tls12'')"

definition custom_generate :: "gen_env \<Rightarrow> string \<Rightarrow> string \<Rightarrow> int \<Rightarrow> StrategyItem list" where
  "custom_generate env protocol level max_count =
     (case dict_get FILE_MAP protocol of
        None \<Rightarrow> []
      | Some filename \<Rightarrow>
          (case gn_text env (path_join (gn_custom_dir env) filename) of
             None \<Rightarrow> []
           | Some content \<Rightarrow>
               slice_to max_count (single_first level
                 (map (\<lambda>line. \<lparr>si_label = cmd_human_label (gn_digest env) line, si_strategy = line, si_is_config = False,
                                si_protocol = custom_proto protocol\<rparr>) (strategy_lines content)))))"

section \<open>Configuration files\<close>

definition DESYNC_PREFIX :: string where "DESYNC_PREFIX = ''--lua-desync=''"

definition desync_text :: "string \<Rightarrow> string" where
  "desync_text content =
     join_with SEPARATOR (map (drop (length DESYNC_PREFIX)) (filter (\<lambda>l. startswith l DESYNC_PREFIX) (map strip (file_lines content))))"

definition validate_or_skip :: "gen_env \<Rightarrow> string \<Rightarrow> bool" where
  "validate_or_skip env content =
     (let payload = desync_text content
      in payload = [] \<or> errors (validate_strategy (gn_conf env) (gn_repr env) None payload) = [])"

definition config_wanted :: "string \<Rightarrow> string \<Rightarrow> bool" where
  "config_wanted protocol fname =
     (endswith fname ''.conf'' \<and> (protocol = ''udp_voice'') = contains ''udp_voice'' fname)"

definition config_item :: "gen_env \<Rightarrow> string \<Rightarrow> StrategyItem option" where
  "config_item env fname =
     (let path = path_join (gn_config_dir env) fname
      in case gn_text env path of
           None \<Rightarrow> None
         | Some content \<Rightarrow>
             if validate_or_skip env content
             then Some \<lparr>si_label = replace_str ''.conf'' [] fname, si_strategy = path, si_is_config = True, si_protocol = ''tls12''\<rparr>
             else None)"

definition config_generate :: "gen_env \<Rightarrow> string \<Rightarrow> string \<Rightarrow> int \<Rightarrow> StrategyItem list" where
  "config_generate env protocol level max_count =
     (case gn_listdir env (gn_config_dir env) of
        None \<Rightarrow> []
      | Some names \<Rightarrow>
          slice_to max_count (single_first level
            (List.map_filter (config_item env) (filter (config_wanted protocol) (order_by_str id names)))))"

section \<open>The matrix of the user\<close>

definition UDP_SKIP_TCP_CLI :: "string list" where
  "UDP_SKIP_TCP_CLI = [''--filter-tcp'', ''--qnum=200'']"

definition UDP_SKIP_ON_TCP :: "string list" where
  "UDP_SKIP_ON_TCP = [''--filter-udp'', ''--qnum=201'', ''filter-udp'', ''blob=discord_udp'', ''discord_ip_discovery'']"

definition TCP_ONLY_FOOLING :: "string list" where
  "TCP_ONLY_FOOLING = [''tcp_ack'', ''tcp_ts_up'', ''tls_client_hello'', ''--filter-l7=tls'']"

definition SECTION_RE :: re where
  "SECTION_RE =
     rseqs [RStart, rlit ''#'', RStar is_space, rplus (\<lambda>c. c = CHR ''-''), RStar is_space,
            RGroup 1 (ranyof [''tcp'', ''udp'', ''quic'']), RBound]"

definition lane_of :: "string \<Rightarrow> string" where
  "lane_of protocol =
     dict_getd [(''udp_voice'', ''udp''), (''udp_game'', ''udp''), (''quic'', ''quic'')] protocol ''tcp''"

definition parse_matrix_section :: "string \<Rightarrow> string option" where
  "parse_matrix_section line = map_option (group 1) (re_search SECTION_RE (lower line))"

definition has_any :: "string list \<Rightarrow> string \<Rightarrow> bool" where
  "has_any toks low = list_ex (\<lambda>tok. contains tok low) toks"

definition keep_matrix_line :: "string \<Rightarrow> string \<Rightarrow> string option \<Rightarrow> bool" where
  "keep_matrix_line protocol strategy section =
     (let lane = lane_of protocol; low = lower strategy
      in case section of
           Some sec \<Rightarrow> sec = lane
         | None \<Rightarrow> if lane \<noteq> ''udp'' then \<not> has_any UDP_SKIP_ON_TCP low
                    else \<not> has_any (UDP_SKIP_TCP_CLI @ TCP_ONLY_FOOLING) low)"

fun user_matrix_items :: "(string \<Rightarrow> string) \<Rightarrow> string \<Rightarrow> string option \<Rightarrow> string list \<Rightarrow> StrategyItem list" where
  "user_matrix_items digest protocol section [] = []"
| "user_matrix_items digest protocol section (raw # rest) =
     (let line = strip raw
      in if line = [] \<or> line = ''---'' then user_matrix_items digest protocol section rest
         else case parse_matrix_section line of
                Some sec \<Rightarrow> user_matrix_items digest protocol (Some sec) rest
              | None \<Rightarrow>
                  if startswith line ''#'' then user_matrix_items digest protocol section rest
                  else (let strategy = replace_str SEPARATOR [CHR 0x0A] line
                        in if keep_matrix_line protocol strategy section
                           then \<lparr>si_label = cmd_human_label digest strategy, si_strategy = strategy, si_is_config = False,
                                  si_protocol = protocol\<rparr> # user_matrix_items digest protocol section rest
                           else user_matrix_items digest protocol section rest))"

definition user_generate :: "gen_env \<Rightarrow> string \<Rightarrow> string \<Rightarrow> string \<Rightarrow> int \<Rightarrow> StrategyItem list" where
  "user_generate env filepath protocol level max_count =
     (case (if filepath = ''-'' then Some (gn_stdin env) else gn_text env filepath) of
        None \<Rightarrow> []
      | Some content \<Rightarrow>
          slice_to max_count (single_first level (user_matrix_items (gn_digest env) protocol None (splitlines content))))"

section \<open>The strategy loader\<close>

definition from_string :: "string \<Rightarrow> string list" where
  "from_string strategy = (let s = strip strategy in if s = [] then [] else [s])"

definition from_file :: "gen_env \<Rightarrow> string \<Rightarrow> string list result" where
  "from_file env path =
     (case gn_text env path of
        None \<Rightarrow> Inl (OSError path)
      | Some content \<Rightarrow> Inr (map (replace_str SEPARATOR [CHR 0x0A]) (strategy_lines content)))"

definition from_custom_dir :: "gen_env \<Rightarrow> string \<Rightarrow> string \<Rightarrow> string list result" where
  "from_custom_dir env test_dir protocol =
     (case dict_get FILE_MAP protocol of
        None \<Rightarrow> Inl (ValueError (''Unknown protocol: '' @ protocol))
      | Some filename \<Rightarrow>
          (let filepath = path_join (path_join test_dir ''custom'') filename
           in case gn_text env filepath of
                None \<Rightarrow> Inl (OSError (''Strategy file not found: '' @ filepath))
              | Some content \<Rightarrow> from_file env filepath))"

end
