(* ===== verification/Flowseal.thy ===== *)
theory Flowseal
  imports CustomGen StandardGen
begin

text \<open>
  \<^verbatim>\<open>generators/flowseal.py\<close>: the Flowseal matrix. The generator expands its techniques into labelled rows,
  one of each technique first, and takes from them the first items that are new and that the triage
  profile leaves alive. Which blobs can be resolved is read from the file system.
\<close>

section \<open>Axes\<close>

definition FLW_REPEATS :: "int list" where
  "FLW_REPEATS = [3, 4, 6, 8, 11, 12]"

definition FLW_FOOLINGS :: "string list" where
  "FLW_FOOLINGS = [''tcp_ts=-1000'', ''tcp_md5'', ''tcp_seq'']"

definition FOOLINGS_TS_MD5 :: "string list" where
  "FOOLINGS_TS_MD5 = [''tcp_ts=-1000'', ''tcp_md5'', ''tcp_ts=-1000:tcp_md5'']"

text \<open>The first two positions are integers in the source; every position is only ever printed.\<close>

definition SPLIT_POS :: "string list" where
  "SPLIT_POS = [str_int 1, str_int 2, ''midsld'', ''sniext+1'', ''1,midsld'', ''2,sniext+1'']"

definition SEQOVL :: "int list" where
  "SEQOVL = [480, 568, 652, 664, 679, 681]"

definition BADSEQ_INCREMENTS :: "int list" where
  "BADSEQ_INCREMENTS = [2, 1000, 10000000]"

definition HOSTS :: "string list" where
  "HOSTS = [''www.google.com'', ''ya.ru'', ''ozon.ru'']"

definition SNI_LIST :: "string list" where
  "SNI_LIST = [''www.google.com'', ''fonts.google.com'', ''ya.ru'']"

definition TCP_PREFERRED :: "string list" where
  "TCP_PREFERRED =
     [''stun'', ''stun2'', ''max_ru'', ''google'', ''4pda'', ''tls_vk'', ''tls_5ka'', ''tls_funpay'', ''tls_rzd'']"

definition QUIC_PREFERRED :: "string list" where
  "QUIC_PREFERRED =
     [''quic_google'', ''quic_dbank'', ''quic_initial'', ''quic_4pda'', ''quic_vk'', ''quic_tencent'', ''quic_steam'',
      ''quic_5ka'', ''quic_rutube'', ''quic_funpay'', ''quic_cloudflare'', ''quic_alfabank'']"

definition UDP_PREFERRED :: "string list" where
  "UDP_PREFERRED = [''discord_udp'', ''game_udp'', ''quic_dbank'', ''stun'']"

section \<open>Blobs and foolings\<close>

definition resolvable :: "blob_env \<Rightarrow> string \<Rightarrow> bool" where
  "resolvable env n = (case resolve_blob_path env None n of None \<Rightarrow> False | Some p \<Rightarrow> p \<noteq> [])"

definition available_aliases :: "blob_env \<Rightarrow> string list \<Rightarrow> string list" where
  "available_aliases env preferred =
     or_default (filter (\<lambda>n. n \<in> set (dict_keys BLOB_ALIAS_MAP) \<and> resolvable env n) preferred) (take 3 preferred)"

definition tcp_blobs :: "blob_env \<Rightarrow> string list" where
  "tcp_blobs env = available_aliases env TCP_PREFERRED"

definition quic_blobs :: "blob_env \<Rightarrow> string list" where
  "quic_blobs env = or_default (filter (resolvable env) QUIC_PREFERRED) [''quic_google'', ''quic_dbank'']"

definition udp_blobs :: "blob_env \<Rightarrow> string list" where
  "udp_blobs env = or_default (filter (resolvable env) UDP_PREFERRED) [''discord_udp'', ''stun'']"

definition pattern_blobs :: "blob_env \<Rightarrow> string list \<Rightarrow> string list" where
  "pattern_blobs env blobs = filter (\<lambda>b. resolvable env b \<or> b \<in> set blobs) (fromkeys (blobs @ [''stun2'']))"

definition flw_viable_blobs :: "TriageProfile option \<Rightarrow> string list \<Rightarrow> string \<Rightarrow> string list" where
  "flw_viable_blobs triage aliases protocol = or_default (filter_blob_aliases (Some aliases) triage protocol) aliases"

definition fools :: "TriageProfile option \<Rightarrow> string list \<Rightarrow> string list" where
  "fools triage src = filter_fooling_values (or_default src FLW_FOOLINGS) triage"

section \<open>Techniques\<close>

definition flw_fake :: "string \<Rightarrow> int \<Rightarrow> string \<Rightarrow> string" where
  "flw_fake blob r rest = ''fake:blob='' @ blob @ '':repeats='' @ str_int r @ '':'' @ rest"

definition flw_split :: "string \<Rightarrow> int \<Rightarrow> string \<Rightarrow> string" where
  "flw_split pos seqovl pat = ''multisplit:pos='' @ pos @ '':seqovl='' @ str_int seqovl @ '':seqovl_pattern='' @ pat"

definition flw_seeds :: "TriageProfile option \<Rightarrow> string \<Rightarrow> string \<Rightarrow> string \<Rightarrow> rows" where
  "flw_seeds triage b0 b1 pat0 =
     [(''flw_multi_seed'', flw_fake b0 6 ''tcp_ts=-1000'' @ line_end @ flw_fake b1 6 ''tcp_ts=-1000''),
      (''flw_split_seed'', flw_split ''1'' 568 pat0),
      (''flw_exp_seqovl480'', flw_split ''1'' 480 pat0),
      (''flw_fds_seed'', ''fakedsplit:pos=1:pattern=0x00000000:tcp_ts=-1000:repeats=1''),
      (''flw_hf_seed'', ''hostfakesplit:host=ozon.ru:tcp_ts=-1000:tcp_md5:repeats=1''),
      (''flw_md_seed'',
       flw_fake ''0x00000000'' 11 (or_word (case fools triage [] of [] \<Rightarrow> ''tcp_ts=-1000'' | f # fs \<Rightarrow> f) ''tcp_ts=-1000'') @
       '':tls_mod=rnd,dupsid,sni=www.google.com'' @ line_end @ ''multidisorder:pos=1,midsld''),
      (''flw_syndata'', ''syndata''),
      (''flw_syndata_md'', ''syndata'' @ line_end @ ''multidisorder:pos=1,midsld''),
      (''flw_fake_seed'', flw_fake b0 6 ''tcp_ts=-1000''),
      (''flw_tlsmod_seed'', flw_fake b0 6 ''tcp_ts=-1000:tls_mod=rnd,dupsid,sni=www.google.com''),
      (''flw_ipid_seed'', flw_fake b0 6 ''tcp_ts=-1000:ip_id=zero''),
      (''flw_null_seed'', ''fake:blob=0x00000000:repeats=6:tcp_ts=-1000''),
      (''flw_blind_seed'', ''fake:repeats=6:tcp_ts=-1000'')]"

fun later_pairs :: "'a list \<Rightarrow> ('a \<times> 'a) list" where
  "later_pairs [] = []"
| "later_pairs (a # as) = map (Pair a) as @ later_pairs as"

fun later_triples :: "'a list \<Rightarrow> ('a \<times> 'a \<times> 'a) list" where
  "later_triples [] = []"
| "later_triples (a # as) = map (Pair a) (later_pairs as) @ later_triples as"

definition expand_multi :: "TriageProfile option \<Rightarrow> string list \<Rightarrow> rows" where
  "expand_multi triage blobs =
     [(''flw_multi_'' @ b1 @ ''+'' @ b2 @ ''_r'' @ str_int r @ ''_'' @ fool,
       flw_fake b1 r fool @ line_end @ flw_fake b2 r fool).
        (b1, b2) \<leftarrow> later_pairs blobs, r \<leftarrow> FLW_REPEATS, fool \<leftarrow> fools triage []] @
     [(''flw_multi_'' @ b1 @ ''+'' @ b2 @ ''_r'' @ str_int r @ ''_badseq'' @ str_int inc,
       flw_fake b1 r (''tcp_seq='' @ str_int inc) @ line_end @ flw_fake b2 r (''tcp_seq='' @ str_int inc)).
        (b1, b2) \<leftarrow> later_pairs blobs, inc \<leftarrow> BADSEQ_INCREMENTS, r \<leftarrow> [6, 8]] @
     (if 3 \<le> length blobs
      then [(''flw_triple_'' @ b1 @ ''+'' @ b2 @ ''+'' @ b3 @ ''_r'' @ str_int r @ ''_'' @ fool,
             flw_fake b1 r fool @ line_end @ flw_fake b2 r fool @ line_end @ flw_fake b3 r fool).
              (b1, b2, b3) \<leftarrow> later_triples blobs, r \<leftarrow> [6, 4, 8], fool \<leftarrow> fools triage [''tcp_ts=-1000'', ''tcp_seq'']]
      else [])"

definition expand_multisplit :: "TriageProfile option \<Rightarrow> string list \<Rightarrow> string list \<Rightarrow> rows" where
  "expand_multisplit triage blobs pats =
     concat [(''flw_split_p'' @ pos @ ''_s'' @ str_int seqovl @ ''_'' @ pat, flw_split pos seqovl pat) #
             [(''flw_fake_split_'' @ blob @ ''_r'' @ str_int r @ ''_p'' @ pos @ ''_s'' @ str_int seqovl @ ''_'' @ pat @ ''_'' @ fool,
               flw_fake blob r fool @ line_end @ flw_split pos seqovl pat).
                blob \<leftarrow> take 4 blobs, r \<leftarrow> [6, 8, 4], fool \<leftarrow> fools triage [''tcp_ts=-1000'', ''tcp_seq'']].
               pos \<leftarrow> SPLIT_POS, seqovl \<leftarrow> SEQOVL, pat \<leftarrow> pats]"

definition fds_core :: "string \<Rightarrow> string \<Rightarrow> string" where
  "fds_core pat fool = ''fakedsplit:pos=1:pattern='' @ pat @ '':'' @ fool @ '':repeats=1''"

definition expand_fakedsplit :: "TriageProfile option \<Rightarrow> string list \<Rightarrow> rows" where
  "expand_fakedsplit triage blobs =
     concat [(''flw_fds_p1_'' @ pat @ ''_'' @ fool, fds_core pat fool) #
             [(''flw_fake_fds_'' @ blob @ ''_r'' @ str_int r @ ''_'' @ pat @ ''_'' @ fool,
               flw_fake blob r fool @ line_end @ fds_core pat fool).
                blob \<leftarrow> take 3 blobs, r \<leftarrow> [6, 8]].
               pat \<leftarrow> ''0x00000000'' # take 3 blobs, fool \<leftarrow> fools triage []]"

definition flw_hf_core :: "bool \<Rightarrow> string \<Rightarrow> string \<Rightarrow> string" where
  "flw_hf_core disorder host fool =
     (if disorder then ''hostfakesplit:disorder_after:host='' else ''hostfakesplit:host='') @ host @ '':'' @ fool @ '':repeats=1''"

definition hf_tag :: "bool \<Rightarrow> string" where
  "hf_tag disorder = (if disorder then ''hf_disorder'' else ''hf'')"

definition expand_hostfake :: "TriageProfile option \<Rightarrow> string list \<Rightarrow> rows" where
  "expand_hostfake triage blobs =
     concat [(''flw_'' @ hf_tag disorder @ ''_'' @ host @ ''_'' @ fool, flw_hf_core disorder host fool) #
             [(''flw_fake_'' @ hf_tag disorder @ ''_'' @ blob @ ''_r'' @ str_int r @ ''_'' @ host @ ''_'' @ fool,
               flw_fake blob r fool @ line_end @ flw_hf_core disorder host fool).
                blob \<leftarrow> take 3 blobs, r \<leftarrow> [6, 8]].
               host \<leftarrow> HOSTS, fool \<leftarrow> fools triage FOOLINGS_TS_MD5, disorder \<leftarrow> [False, True]] @
     [(''flw_fake_hf_alt3_'' @ before_char CHR ''.'' host @ ''_'' @ or_word modifier ''plain'' @ ''_r'' @ str_int r,
       flw_fake ''stun'' r ''tcp_ts=-1000'' @ line_end @ ''hostfakesplit:host='' @ host @ '':tcp_ts=-1000'' @
         (if modifier = [] then [] else '':'' @ modifier)).
        host \<leftarrow> take 2 HOSTS, modifier \<leftarrow> [''altorder=1'', []], r \<leftarrow> [6, 8]]"

definition expand_multidisorder :: "TriageProfile option \<Rightarrow> string list \<Rightarrow> rows" where
  "expand_multidisorder triage blobs =
     [(''flw_md_'' @ blob @ ''_r'' @ str_int r @ ''_p'' @ pos @ ''_'' @ fool @ ''_sni='' @ sni,
       flw_fake blob r (fool @ '':tls_mod=rnd,dupsid,sni='' @ sni) @ line_end @ ''multidisorder:pos='' @ pos).
        pos \<leftarrow> [''1'', ''midsld'', ''1,midsld''], fool \<leftarrow> fools triage [''tcp_seq'', ''tcp_ts=-1000''],
        sni \<leftarrow> SNI_LIST, r \<leftarrow> [11, 8, 6], blob \<leftarrow> ''0x00000000'' # take 2 blobs]"

definition blob_singles :: "TriageProfile option \<Rightarrow> string \<Rightarrow> rows" where
  "blob_singles triage blob =
     concat [[(''flw_fake_'' @ blob @ ''_r'' @ str_int r @ ''_'' @ fool, flw_fake blob r fool). fool \<leftarrow> fools triage []] @
             [(''flw_tlsmod_'' @ blob @ ''_sni='' @ sni @ ''_r'' @ str_int r2,
               flw_fake blob r2 (''tcp_ts=-1000:tls_mod=rnd,dupsid,sni='' @ sni)).
                sni \<leftarrow> SNI_LIST, r2 \<leftarrow> [6, 8]].
               r \<leftarrow> FLW_REPEATS] @
     [(''flw_fake_'' @ blob @ ''_r'' @ str_int r @ ''_badseq'' @ str_int inc, flw_fake blob r (''tcp_seq='' @ str_int inc)).
        inc \<leftarrow> BADSEQ_INCREMENTS, r \<leftarrow> [6, 8]] @
     [(''flw_tlsmod_none_'' @ blob @ ''_r'' @ str_int r, flw_fake blob r ''tcp_ts=-1000:tls_mod=none''). r \<leftarrow> [6, 8]] @
     [(''flw_ipid_'' @ blob @ ''_r'' @ str_int r, flw_fake blob r ''tcp_ts=-1000:ip_id=zero''). r \<leftarrow> [6, 8]]"

definition expand_singles :: "TriageProfile option \<Rightarrow> string list \<Rightarrow> rows" where
  "expand_singles triage blobs =
     concat (map (blob_singles triage) blobs) @
     concat [[(''flw_null_r'' @ str_int r @ ''_'' @ fool, flw_fake ''0x00000000'' r fool),
              (''flw_blind_r'' @ str_int r @ ''_'' @ fool, ''fake:repeats='' @ str_int r @ '':'' @ fool)].
               r \<leftarrow> [6, 11, 12], fool \<leftarrow> fools triage []] @
     [(''flw_syndata_mdis'', ''syndata'' @ line_end @ ''multidisorder:pos=1,midsld:seqovl=1'')] @
     [(''flw_fake_msplit_'' @ blob @ ''_r6_badseq'' @ str_int inc,
       flw_fake blob 6 (''tcp_seq='' @ str_int inc) @ line_end @ ''multisplit'').
        blob \<leftarrow> take 3 blobs, inc \<leftarrow> [1000, 2]] @
     [(''flw_fake_msplit_'' @ blob @ ''_pos2sniext'',
       flw_fake blob 8 ''tcp_ts=-1000'' @ line_end @ ''multisplit:pos=2,sniext+1:seqovl=679'').
        blob \<leftarrow> take 2 blobs]"

definition iter_tcp :: "blob_env \<Rightarrow> TriageProfile option \<Rightarrow> rows" where
  "iter_tcp env triage =
     (let blobs = flw_viable_blobs triage (tcp_blobs env) ''tcp'';
          pats = pattern_blobs env blobs
      in flw_seeds triage (blobs ! 0) (if 1 < length blobs then blobs ! 1 else blobs ! 0) (pats ! 0) @
         expand_multi triage blobs @ expand_multisplit triage blobs pats @ expand_fakedsplit triage blobs @
         expand_hostfake triage blobs @ expand_multidisorder triage blobs @ expand_singles triage blobs)"

definition iter_quic :: "blob_env \<Rightarrow> rows" where
  "iter_quic env =
     concat [[(''flw_quic_'' @ blob @ ''_r'' @ str_int r, ''fake:blob='' @ blob @ '':repeats='' @ str_int r),
              (''flw_quic_'' @ blob @ ''_r'' @ str_int r @ ''_badsum'', flw_fake blob r ''badsum'')].
               blob \<leftarrow> quic_blobs env, r \<leftarrow> [1, 2, 5, 6, 10, 11, 20]]"

definition iter_udp :: "blob_env \<Rightarrow> rows" where
  "iter_udp env =
     concat [[(''flw_udp_'' @ blob @ ''_r'' @ str_int r, ''fake:blob='' @ blob @ '':repeats='' @ str_int r),
              (''flw_udp_'' @ blob @ ''_r'' @ str_int r @ ''_ttl5'', flw_fake blob r ''ip_ttl=5'')].
               blob \<leftarrow> udp_blobs env, r \<leftarrow> [3, 4, 6, 10, 12, 14]]"

definition iter_http :: "blob_env \<Rightarrow> TriageProfile option \<Rightarrow> rows" where
  "iter_http env triage =
     (let named = filter (resolvable env) [''max_ru'', ''google'']
      in [(''flw_http_'' @ blob @ ''_r'' @ str_int r @ ''_'' @ fool, flw_fake blob r fool).
            blob \<leftarrow> flw_viable_blobs triage named ''http'' @ [''0x00000000''], r \<leftarrow> [6, 8, 11], fool \<leftarrow> fools triage []])"

section \<open>Taking the first items\<close>

fun flw_take_from ::
    "TriageProfile option \<Rightarrow> string \<Rightarrow> int \<Rightarrow> string \<Rightarrow> rows \<Rightarrow> string list \<Rightarrow> StrategyItem list \<Rightarrow> StrategyItem list" where
  "flw_take_from triage level max_count protocol [] seen items = items"
| "flw_take_from triage level max_count protocol (row # rows) seen items =
     (if snd row \<in> set seen then flw_take_from triage level max_count protocol rows seen items
      else (let seen' = snd row # seen; it = gen_item protocol row
            in if prune_items_by_triage [it] triage level = [] then flw_take_from triage level max_count protocol rows seen' items
               else (let items' = items @ [it]
                     in if level = ''single'' \<or> max_count \<le> int (length items') then items'
                        else flw_take_from triage level max_count protocol rows seen' items')))"

definition flw_take :: "TriageProfile option \<Rightarrow> string \<Rightarrow> int \<Rightarrow> string \<Rightarrow> rows \<Rightarrow> StrategyItem list" where
  "flw_take triage level max_count protocol rows = flw_take_from triage level max_count protocol rows [] []"

definition flw_rows :: "blob_env \<Rightarrow> TriageProfile option \<Rightarrow> string \<Rightarrow> rows" where
  "flw_rows env triage protocol =
     (if protocol = ''quic'' then iter_quic env
      else if protocol = ''udp_voice'' then iter_udp env
      else if protocol = ''http'' then iter_http env triage
      else iter_tcp env triage)"

definition flw_protocol :: "string \<Rightarrow> string" where
  "flw_protocol protocol = (if protocol \<in> set [''quic'', ''udp_voice'', ''http''] then protocol else ''tls12'')"

definition flowseal_generate :: "blob_env \<Rightarrow> string \<Rightarrow> string \<Rightarrow> int \<Rightarrow> TriageProfile option \<Rightarrow> StrategyItem list" where
  "flowseal_generate env protocol level max_count triage =
     prune_items_by_triage (flw_take triage level max_count (flw_protocol protocol) (flw_rows env triage protocol)) triage level"

end
