(* ===== verification/MatrixGen.thy ===== *)
theory MatrixGen
  imports Flowseal ByedpiTranslator
begin

text \<open>
  \<^verbatim>\<open>matrix_generator.py\<close> and \<^verbatim>\<open>byedpi_matrix_generator.py\<close>: the matrix generator keeps a table of named
  strategy sources, creates the sources it needs, asks each of them for its share and combines what they
  return. The database is the function from a domain to the labels known to work there; the iteration
  order of the two constant sets of the ByeDPI translator is part of the environment.
\<close>

section \<open>The ByeDPI pool\<close>

definition NATIVE_BYEDPI :: "string list" where
  "NATIVE_BYEDPI =
     [''-o1 -a1'', ''-o1 -a1 -r-5+se'', ''-q1 -a1'', ''-q1 -s1 -a1'',
      ''-n {sni} -Qr -f-1 -r1+s -a1'', ''-n {sni} -f-1 -t8 -a1'',
      ''--fake -1 --ttl 8 --split 1+s --disorder 3+s -a1'', ''--fake -1 --split 1+s --disorder 1+s -a1'',
      ''-s1+s -d3+s -a1'', ''-s0+sm -d0+sm -a1'', ''-r3+s -a1'', ''-r-5+se -a1'', ''-f-1 -S -a1'',
      ''-f-1 -S --split 1+s -a1'', ''-M h -a1'', ''-M h,d -a1'', ''-Qr -f-1 -a1'', ''-Qr -f-1 -r1+s -a1'']"

definition NATIVE_HTTP_ONLY :: "string list" where
  "NATIVE_HTTP_ONLY = [''-M h -a1'', ''-M h,d -a1'']"

definition TRANSLATED_SEEDS :: "string list" where
  "TRANSLATED_SEEDS =
     [''fake:blob=stun:repeats=6'', ''fake:blob=max_ru:repeats=6'', ''fake:blob=google:repeats=6'',
      ''fake:blob=4pda:repeats=6'', ''hostfakesplit:nofake2'',
      ''hostfakesplit:disorder_after:nofake2:tcp_ack=-66000:tcp_ts_up'', ''fakedsplit:pos=1:pattern=stun:repeats=1'',
      ''fakedsplit:pos=midsld:pattern=google:repeats=1'', ''fakeddisorder:pos=1:pattern=google'',
      ''multisplit:pos=1,midsld'', ''multisplit:pos=1:repeats=6'', ''tlsrec:pos=3+s'', ''oob:urp=b'', ''oob:urp=s'',
      ''syndata:tls_mod=rnd'']"

text \<open>\<open>shlex.join\<close>\<close>

definition shlex_safe :: "char \<Rightarrow> bool" where
  "shlex_safe c = (is_ident c \<or> c \<in> set ''@%+=:,./-'')"

definition shlex_quote :: "string \<Rightarrow> string" where
  "shlex_quote s =
     (if s = [] then [CHR 0x27, CHR 0x27]
      else if list_all shlex_safe s then s
      else [CHR 0x27] @ replace_char CHR 0x27 [CHR 0x27, CHR 0x22, CHR 0x27, CHR 0x22, CHR 0x27] s @ [CHR 0x27])"

definition shlex_join :: "string list \<Rightarrow> string" where
  "shlex_join argv = join_with '' '' (map shlex_quote argv)"

text \<open>The first item of every strategy.\<close>

fun first_items :: "string list \<Rightarrow> StrategyItem list \<Rightarrow> StrategyItem list" where
  "first_items seen [] = []"
| "first_items seen (it # its) =
     (if si_strategy it \<in> set seen then first_items seen its
      else it # first_items (si_strategy it # seen) its)"

record ByedpiMatrixGenerator =
  include_native :: bool
  include_translated :: bool
  include_http :: bool

definition new_byedpi_generator :: ByedpiMatrixGenerator where
  "new_byedpi_generator = \<lparr>include_native = True, include_translated = True, include_http = True\<rparr>"

record matrix_env =
  mx_gen :: gen_env
  mx_families :: "string list"
  mx_dropped :: "string list"

abbreviation mx_blobs :: "matrix_env \<Rightarrow> blob_env" where
  "mx_blobs env \<equiv> cv_blobs (gn_conf (mx_gen env))"

definition native_items :: "bool \<Rightarrow> StrategyItem list" where
  "native_items http_mode =
     map (\<lambda>line. \<lparr>si_label = ''byedpi_native:'' @ line, si_strategy = line, si_is_config = False,
                   si_protocol = (if line \<in> set NATIVE_HTTP_ONLY then ''http'' else ''tls12'')\<rparr>)
       (filter (\<lambda>line. \<not> (line \<in> set NATIVE_HTTP_ONLY \<and> \<not> http_mode)) NATIVE_BYEDPI)"

definition translated_item :: "string \<Rightarrow> Translation \<Rightarrow> StrategyItem" where
  "translated_item seed tr =
     mk_item (''byedpi:'' @ replace_char CHR 0x0A ''|'' seed) (shlex_join (t_argv tr))"

fun translated_items :: "matrix_env \<Rightarrow> bool \<Rightarrow> string list \<Rightarrow> StrategyItem list result" where
  "translated_items env http_mode [] = Inr []"
| "translated_items env http_mode (seed # seeds) =
     (if \<not> contains ''tcp'' (lower seed) \<and> http_mode then translated_items env http_mode seeds
      else bind_result (translate (mx_blobs env) (mx_families env) (mx_dropped env) seed)
             (\<lambda>tr. bind_result (translated_items env http_mode seeds)
               (\<lambda>rest. Inr (case tr of None \<Rightarrow> rest | Some t \<Rightarrow> translated_item seed t # rest))))"

definition byedpi_generate :: "matrix_env \<Rightarrow> ByedpiMatrixGenerator \<Rightarrow> string \<Rightarrow> int \<Rightarrow> StrategyItem list result" where
  "byedpi_generate env gen protocol max_count =
     (let http_mode = (protocol = ''http'');
          native = (if include_native gen then native_items http_mode else [])
      in bind_result (if include_translated gen then translated_items env http_mode TRANSLATED_SEEDS else Inr [])
           (\<lambda>translated. Inr (slice_to max_count (first_items [] (native @ translated)))))"

section \<open>Sources\<close>

datatype generator =
    GCustom
  | GFlowseal
  | GByedpi ByedpiMatrixGenerator
  | GStandard "string list"
  | GConfigs
  | GFamilies "string list"
  | GUser string

definition standard_factory :: "string list \<Rightarrow> generator result" where
  "standard_factory types = bind_result (new_generator (Some types)) (\<lambda>ts. Inr (GStandard ts))"

definition GENERATORS :: "(string, generator result) dict" where
  "GENERATORS =
     [(''custom'', Inr GCustom), (''flowseal'', Inr GFlowseal), (''byedpi'', Inr (GByedpi new_byedpi_generator)),
      (''standard'', standard_factory TCP_FAMILIES), (''standard_udp'', standard_factory UDP_VOICE_FAMILIES),
      (''standard_udp_game'', standard_factory [''udp_game'']), (''standard_quic'', standard_factory QUIC_HTTP3_FAMILIES),
      (''standard_http'', standard_factory HTTP_FAMILIES), (''configs'', Inr GConfigs),
      (''fake'', Inr (GFamilies [''fake''])), (''faked'', Inr (GFamilies [''fakedsplit'', ''fakeddisorder''])),
      (''hostfake'', Inr (GFamilies [''hostfake''])), (''fake_multi'', Inr (GFamilies [''multi_fake''])),
      (''fake_faked'', Inr (GFamilies [''fake_fakedsplit'']))]"

text \<open>What the caller asks of a source; the run set is empty when it is not given.\<close>

record request =
  rq_protocol :: string
  rq_working :: "(string \<Rightarrow> string list) option"
  rq_domain :: string
  rq_level :: string
  rq_max :: int
  rq_run_set :: "string list"
  rq_triage :: "TriageProfile option"

definition rq_known :: "request \<Rightarrow> string list" where
  "rq_known rq = known_working (rq_run_set rq) (rq_working rq) (rq_domain rq)"

fun call_generate :: "matrix_env \<Rightarrow> request \<Rightarrow> generator \<Rightarrow> StrategyItem list result" where
  "call_generate env rq GCustom = Inr (custom_generate (mx_gen env) (rq_protocol rq) (rq_level rq) (rq_max rq))"
| "call_generate env rq GFlowseal =
     Inr (flowseal_generate (mx_blobs env) (rq_protocol rq) (rq_level rq) (rq_max rq) (rq_triage rq))"
| "call_generate env rq (GByedpi gen) = byedpi_generate env gen (rq_protocol rq) (rq_max rq)"
| "call_generate env rq (GStandard types) =
     Inr (generate (gn_digest (mx_gen env)) types (rq_protocol rq) (rq_known rq) (rq_level rq) (rq_max rq) (rq_triage rq))"
| "call_generate env rq GConfigs = Inr (config_generate (mx_gen env) (rq_protocol rq) (rq_level rq) (rq_max rq))"
| "call_generate env rq (GFamilies types) =
     std_families (gn_digest (mx_gen env)) types (rq_protocol rq) (rq_known rq) (rq_level rq) (rq_max rq) (rq_triage rq)"
| "call_generate env rq (GUser path) =
     Inr (user_generate (mx_gen env) path (rq_protocol rq) (rq_level rq) (rq_max rq))"

section \<open>The matrix generator\<close>

text \<open>Its state is the table of the sources created so far.\<close>

type_synonym sources = "(string, generator) dict"

definition register :: "string \<Rightarrow> generator \<Rightarrow> sources \<Rightarrow> sources" where
  "register name gen gens = dict_set name gen gens"

definition ensure_registered :: "string \<Rightarrow> sources \<Rightarrow> sources result" where
  "ensure_registered name gens =
     (if name \<in> set (dict_keys gens) then Inr gens
      else (case dict_get GENERATORS name of
              None \<Rightarrow> Inr gens
            | Some factory \<Rightarrow> bind_result factory (\<lambda>gen. Inr (register name gen gens))))"

text \<open>The loop over the sources. The request of a source is a function of its name.\<close>

fun collect :: "matrix_env \<Rightarrow> (string \<Rightarrow> request) \<Rightarrow> string list \<Rightarrow> sources \<Rightarrow> (sources \<times> StrategyItem list) result" where
  "collect env rq [] gens = Inr (gens, [])"
| "collect env rq (src # srcs) gens =
     bind_result (ensure_registered src gens) (\<lambda>gens'.
       case dict_get gens' src of
         None \<Rightarrow> collect env rq srcs gens'
       | Some gen \<Rightarrow>
           bind_result (call_generate env (rq src) gen) (\<lambda>items.
             bind_result (collect env rq srcs gens') (\<lambda>(gens'', rest). Inr (gens'', items @ rest))))"

definition dedupe :: "StrategyItem list \<Rightarrow> int \<Rightarrow> StrategyItem list" where
  "dedupe items max_count = slice_to max_count (first_items [] items)"

definition finalize_generated ::
    "StrategyItem list \<Rightarrow> int \<Rightarrow> TriageProfile option \<Rightarrow> string \<Rightarrow> string \<Rightarrow> StrategyItem list" where
  "finalize_generated items max_count triage level user_matrix =
     (let deduped = dedupe items max_count
      in if user_matrix \<noteq> [] then deduped else prune_items_by_triage deduped triage level)"

text \<open>\<open>max_count // len(sources) or max_count\<close>\<close>

definition per_source :: "int \<Rightarrow> string list \<Rightarrow> int" where
  "per_source max_count srcs =
     (let share = max_count div int (length srcs) in if share = 0 then max_count else share)"

text \<open>A matrix file of the user replaces every other source.\<close>

definition with_user :: "string \<Rightarrow> string list \<Rightarrow> sources \<Rightarrow> string list \<times> sources" where
  "with_user user_matrix srcs gens =
     (if user_matrix \<noteq> [] then ([''user''], register ''user'' (GUser user_matrix) gens) else (srcs, gens))"

definition map_protocol :: "(string \<Rightarrow> string) \<Rightarrow> StrategyItem \<Rightarrow> StrategyItem" where
  "map_protocol f it = it\<lparr>si_protocol := f (si_protocol it)\<rparr>"

definition run_sources ::
    "matrix_env \<Rightarrow> request \<Rightarrow> (string \<Rightarrow> string) \<Rightarrow> (string \<Rightarrow> string) \<Rightarrow> string \<Rightarrow> string list \<Rightarrow> sources \<Rightarrow> (sources \<times> StrategyItem list) result" where
  "run_sources env rq proto coerce user_matrix srcs gens =
     bind_result
       (collect env (\<lambda>src. rq\<lparr>rq_protocol := proto src, rq_max := per_source (rq_max rq) srcs\<rparr>) srcs gens)
       (\<lambda>(gens', items).
          Inr (gens', finalize_generated (map (map_protocol coerce) items) (rq_max rq) (rq_triage rq) (rq_level rq) user_matrix))"

definition generate_tcp ::
    "matrix_env \<Rightarrow> request \<Rightarrow> string \<Rightarrow> string list \<Rightarrow> sources \<Rightarrow> (sources \<times> StrategyItem list) result" where
  "generate_tcp env rq user_matrix sources gens =
     (let (srcs, gens') = with_user user_matrix (or_default sources [''custom'', ''configs'', ''standard'']) gens
      in run_sources env rq (\<lambda>_. rq_protocol rq) id user_matrix srcs gens')"

definition generate_http ::
    "matrix_env \<Rightarrow> request \<Rightarrow> string \<Rightarrow> string list \<Rightarrow> sources \<Rightarrow> (sources \<times> StrategyItem list) result" where
  "generate_http env rq user_matrix sources gens =
     (if (case rq_triage rq of Some t \<Rightarrow> http_blocked t = Some False | None \<Rightarrow> False) then Inr (gens, [])
      else generate_tcp env (rq\<lparr>rq_protocol := ''http''\<rparr>) user_matrix (or_default sources [''custom'', ''standard_http'']) gens)"

definition udp_remap :: "string \<Rightarrow> string" where
  "udp_remap s = dict_getd [(''standard'', ''standard_udp''), (''game'', ''standard_udp_game'')] s s"

definition udp_proto :: "string \<Rightarrow> string" where
  "udp_proto src = dict_getd [(''standard_udp_game'', ''udp_game'')] src ''udp_voice''"

definition UDP_PRESERVE :: "string list" where
  "UDP_PRESERVE = [''udp_voice'', ''udp_game'', ''quic'']"

definition udp_coerce :: "string \<Rightarrow> string" where
  "udp_coerce p = (if p \<in> set UDP_PRESERVE then p else ''udp_voice'')"

definition generate_udp ::
    "matrix_env \<Rightarrow> request \<Rightarrow> string \<Rightarrow> string list \<Rightarrow> sources \<Rightarrow> (sources \<times> StrategyItem list) result" where
  "generate_udp env rq user_matrix sources gens =
     (if (case rq_triage rq of Some t \<Rightarrow> voice_ok t \<and> \<not> udp_blocked t | None \<Rightarrow> False) \<and> user_matrix = [] then Inr (gens, [])
      else (let (srcs, gens') = with_user user_matrix (or_default sources [''custom'', ''standard_udp'']) gens
            in run_sources env (rq\<lparr>rq_run_set := []\<rparr>) udp_proto udp_coerce user_matrix (map udp_remap srcs) gens'))"

definition generate_quic ::
    "matrix_env \<Rightarrow> request \<Rightarrow> string \<Rightarrow> string list \<Rightarrow> sources \<Rightarrow> (sources \<times> StrategyItem list) result" where
  "generate_quic env rq user_matrix sources gens =
     (let (srcs, gens') = with_user user_matrix (or_default sources [''custom'', ''standard_quic'']) gens
      in run_sources env rq (\<lambda>_. ''quic'') (\<lambda>_. ''quic'') user_matrix srcs gens')"

section \<open>Pairs\<close>

text \<open>The key of a pair is a tuple; sorting by it is stable.\<close>

definition pair_key :: "string list \<Rightarrow> StrategyPair \<Rightarrow> bool \<times> string \<times> string" where
  "pair_key known p = (si_label (sp_tcp p) \<notin> set known, si_label (sp_tcp p), si_label (sp_udp p))"

fun key_less :: "bool \<times> string \<times> string \<Rightarrow> bool \<times> string \<times> string \<Rightarrow> bool" where
  "key_less (a, s, t) (b, u, v) = (\<not> a \<and> b \<or> a = b \<and> (string_less s u \<or> s = u \<and> string_less t v))"

definition sort_pairs :: "string list \<Rightarrow> StrategyPair list \<Rightarrow> StrategyPair list" where
  "sort_pairs known ps = order_by key_less (pair_key known) ps"

definition all_pairs :: "StrategyItem list \<Rightarrow> StrategyItem list \<Rightarrow> StrategyPair list" where
  "all_pairs tcps udps = [\<lparr>sp_tcp = t, sp_udp = u\<rparr>. t \<leftarrow> tcps, u \<leftarrow> udps]"

text \<open>The protocol of the TCP half is the default one of \<open>generate_tcp\<close>, and no run set is passed.\<close>

definition generate_pairs ::
    "matrix_env \<Rightarrow> request \<Rightarrow> int \<Rightarrow> int \<Rightarrow> string \<Rightarrow> string list \<Rightarrow> string list \<Rightarrow> sources \<Rightarrow> (sources \<times> StrategyPair list) result" where
  "generate_pairs env rq max_tcp max_udp user_matrix tcp_sources udp_sources gens =
     (let rq' = rq\<lparr>rq_protocol := ''tls12'', rq_run_set := []\<rparr>
      in bind_result (generate_tcp env (rq'\<lparr>rq_max := max_tcp\<rparr>) user_matrix tcp_sources gens) (\<lambda>(gens1, tcps).
         bind_result (generate_udp env (rq'\<lparr>rq_max := max_udp\<rparr>) user_matrix udp_sources gens1) (\<lambda>(gens2, udps).
           (let known = (case rq_working rq of Some get \<Rightarrow> get (rq_domain rq) | None \<Rightarrow> [])
            in Inr (gens2, sort_pairs known (all_pairs tcps udps))))))"

end
