(* ===== verification/MatrixProps.thy ===== *)
theory MatrixProps
  imports MatrixGen GenProps
begin

text \<open>
  What the matrix generator promises: the sources never fail, every result is free of duplicates and
  within its cap, and the pairs are complete and in order.
\<close>

section \<open>Pruning is a filter\<close>

definition survives :: "TriageProfile option \<Rightarrow> string \<Rightarrow> StrategyItem \<Rightarrow> bool" where
  "survives triage level it = (prune_items_by_triage [it] triage level \<noteq> [])"

lemma prune_eq_filter: "prune_items_by_triage items triage level = filter (survives triage level) items"
proof -
  have "\<exists>P. \<forall>items. prune_items_by_triage items triage level = filter P items"
  proof (cases triage)
    case None
    then show ?thesis by (intro exI [of _ "\<lambda>_. True"]) (simp add: prune_items_by_triage_def)
  next
    case (Some p)
    then show ?thesis
      by (cases "bypassable p") (auto simp: prune_items_by_triage_def Let_def intro: exI [of _ "\<lambda>_. False"])
  qed
  then obtain P where P: "\<And>items. prune_items_by_triage items triage level = filter P items" by blast
  show ?thesis unfolding survives_def P by (rule filter_cong) auto
qed

lemma first_items_strategies: "set (map si_strategy (first_items seen items)) = si_strategy ` set items - set seen"
  by (induction seen items rule: first_items.induct) auto

lemma first_items_distinct: "distinct (map si_strategy (first_items seen items))"
proof (induction seen items rule: first_items.induct)
  case (2 seen it its)
  then show ?case
    using first_items_strategies [of "si_strategy it # seen" its] by auto
qed simp

lemma first_items_subset: "set (first_items seen items) \<subseteq> set items"
  by (induction seen items rule: first_items.induct) auto

section \<open>Flowseal\<close>

definition flw_limit :: "string \<Rightarrow> int \<Rightarrow> nat" where
  "flw_limit level max_count = (if level = ''single'' then 1 else nat (max 1 max_count))"

lemma flw_take_from_eq:
  "length items < flw_limit level max_count \<Longrightarrow>
   flw_take_from triage level max_count protocol rows seen items =
     items @ take (flw_limit level max_count - length items)
       (filter (survives triage level) (first_items seen (map (gen_item protocol) rows)))"
proof (induction triage level max_count protocol rows seen items rule: flw_take_from.induct)
  case (2 triage level max_count protocol row rows seen items)
  show ?case
  proof (cases "snd row \<in> set seen \<or> \<not> survives triage level (gen_item protocol row)")
    case True
    then show ?thesis
      using 2 by (auto simp: survives_def Let_def)
  next
    case False
    then have alive: "prune_items_by_triage [gen_item protocol row] triage level \<noteq> []" by (simp add: survives_def)
    show ?thesis
    proof (cases "level = ''single'' \<or> max_count \<le> int (length (items @ [gen_item protocol row]))")
      case True
      then have "flw_limit level max_count = Suc (length items)"
        using 2(4) by (auto simp: flw_limit_def split: if_splits)
      then show ?thesis
        using alive True False by (auto simp: Let_def)
    next
      case more: False
      then have "length (items @ [gen_item protocol row]) < flw_limit level max_count"
        by (auto simp: flw_limit_def)
      moreover from this have "flw_limit level max_count - length items = Suc (flw_limit level max_count - Suc (length items))"
        by simp
      ultimately show ?thesis
        using alive more False 2(3) [of "snd row # seen" "gen_item protocol row" "items @ [gen_item protocol row]"] by (auto simp: Let_def)
    qed
  qed
qed simp

text \<open>
  C20. The Flowseal generator returns, for every protocol, level, cap and profile, exactly the first
  strategies of its table that are new and that the profile leaves alive: one of them in a single scan,
  else as many as the cap allows, and one when the cap is zero or negative. Stopping the expansion
  early loses nothing, and pruning the result again changes nothing.
\<close>

theorem flowseal_exact:
  "flowseal_generate env protocol level max_count triage =
     take (if level = ''single'' then 1 else nat (max 1 max_count))
       (prune_items_by_triage (first_items [] (map (gen_item (flw_protocol protocol)) (flw_rows env triage protocol))) triage level)"
proof -
  let ?alive = "filter (survives triage level) (first_items [] (map (gen_item (flw_protocol protocol)) (flw_rows env triage protocol)))"
  have "0 < flw_limit level max_count" by (auto simp: flw_limit_def)
  then have "flowseal_generate env protocol level max_count triage =
      filter (survives triage level) (take (flw_limit level max_count) ?alive)"
    by (simp add: flowseal_generate_def prune_eq_filter flw_take_def flw_take_from_eq)
  also have "\<dots> = take (flw_limit level max_count) ?alive"
    by (rule filter_id_conv [THEN iffD2]) (auto dest: in_set_takeD)
  finally show ?thesis by (simp add: prune_eq_filter flw_limit_def)
qed

text \<open>The indices that the TCP seeds use exist.\<close>

lemma or_default_nonempty: "d \<noteq> [] \<Longrightarrow> or_default xs d \<noteq> []"
  by (simp add: or_default_def)

lemma flw_blobs_nonempty: "flw_viable_blobs triage (tcp_blobs env) p \<noteq> []"
proof -
  have "take 3 TCP_PREFERRED \<noteq> []" by (simp add: TCP_PREFERRED_def)
  then show ?thesis by (simp only: flw_viable_blobs_def tcp_blobs_def available_aliases_def) (intro or_default_nonempty)
qed

lemma pattern_blobs_nonempty: "blobs \<noteq> [] \<Longrightarrow> pattern_blobs env blobs \<noteq> []"
  by (cases blobs) (auto simp: pattern_blobs_def filter_empty_conv)

section \<open>Sources never fail\<close>

fun gen_ok :: "generator \<Rightarrow> bool" where
  "gen_ok (GFamilies types) = (new_generator (Some types) = Inr types)"
| "gen_ok gen = True"

definition sources_ok :: "sources \<Rightarrow> bool" where
  "sources_ok gens = list_all (\<lambda>(name, gen). gen_ok gen) gens"

lemma sources_ok_register: "sources_ok gens \<Longrightarrow> gen_ok gen \<Longrightarrow> sources_ok (register name gen gens)"
  using set_update_subset [of name gen gens] by (auto simp: sources_ok_def register_def list_all_iff)

lemma sources_ok_get: "sources_ok gens \<Longrightarrow> dict_get gens name = Some gen \<Longrightarrow> gen_ok gen"
  by (auto simp: sources_ok_def list_all_iff dest: map_of_SomeD)

lemma factories_ok: "list_all (\<lambda>(name, factory). case factory of Inl e \<Rightarrow> False | Inr gen \<Rightarrow> gen_ok gen) GENERATORS"
  by code_simp

lemma ensure_registered_ok: "sources_ok gens \<Longrightarrow> \<exists>gens'. ensure_registered name gens = Inr gens' \<and> sources_ok gens'"
proof (cases "dict_get GENERATORS name")
  case (Some factory)
  then obtain gen where "factory = Inr gen" "gen_ok gen"
    using factories_ok by (fastforce simp: list_all_iff dest: map_of_SomeD split: sum.splits)
  then show "sources_ok gens \<Longrightarrow> ?thesis"
    using Some by (simp add: ensure_registered_def sources_ok_register)
qed (simp add: ensure_registered_def)

definition env_ok :: "matrix_env \<Rightarrow> bool" where
  "env_ok env = (set (mx_families env) = set SUPPORTED_FAMILIES)"

lemma translate_returns: "set families = set SUPPORTED_FAMILIES \<Longrightarrow> \<exists>t. translate benv families dropped s = Inr t"
  using supported_have_translator [of _ benv dropped]
  by (fastforce simp: translate_def Let_def family_of_iff split: option.splits)

lemma translated_items_return: "env_ok env \<Longrightarrow> \<exists>its. translated_items env http seeds = Inr its"
proof (induction env http seeds rule: translated_items.induct)
  case (2 env http seed seeds)
  moreover obtain t where "translate (mx_blobs env) (mx_families env) (mx_dropped env) seed = Inr t"
    using 2(3) translate_returns unfolding env_ok_def by blast
  ultimately show ?case by auto
qed simp

lemma byedpi_returns: "env_ok env \<Longrightarrow> \<exists>its. byedpi_generate env gen protocol n = Inr its"
  using translated_items_return [of env "protocol = ''http''" TRANSLATED_SEEDS] by (auto simp: byedpi_generate_def Let_def)

lemma call_generate_returns: "env_ok env \<Longrightarrow> gen_ok gen \<Longrightarrow> \<exists>its. call_generate env rq gen = Inr its"
  by (cases gen) (simp_all add: byedpi_returns std_families_def)

lemma collect_returns:
  "env_ok env \<Longrightarrow> sources_ok gens \<Longrightarrow> \<exists>gens' its. collect env rq srcs gens = Inr (gens', its) \<and> sources_ok gens'"
proof (induction srcs arbitrary: gens)
  case (Cons src srcs)
  obtain gens1 where g1: "ensure_registered src gens = Inr gens1" "sources_ok gens1"
    using ensure_registered_ok [OF Cons.prems(2)] by blast
  obtain gens2 its where g2: "collect env rq srcs gens1 = Inr (gens2, its)" "sources_ok gens2"
    using Cons.IH [OF Cons.prems(1) g1(2)] by blast
  show ?case
  proof (cases "dict_get gens1 src")
    case (Some gen)
    then obtain its' where "call_generate env (rq src) gen = Inr its'"
      using call_generate_returns [OF Cons.prems(1) sources_ok_get [OF g1(2)]] by blast
    then show ?thesis using Some g1 g2 by simp
  qed (use g1 g2 in simp)
qed simp

lemma with_user_ok: "sources_ok gens \<Longrightarrow> sources_ok (snd (with_user um srcs gens))"
  by (simp add: with_user_def sources_ok_register)

section \<open>The contract of a lane\<close>

text \<open>
  Each of the operations of the matrix generator returns what \<open>finalize_generated\<close> makes of raw items
  with the protocols of its lane, and leaves a table of good sources.
\<close>

definition lane_result ::
    "request \<Rightarrow> string \<Rightarrow> (string \<Rightarrow> bool) \<Rightarrow> (sources \<times> StrategyItem list) result \<Rightarrow> bool" where
  "lane_result rq um proto r \<longleftrightarrow>
     (\<exists>gens raw. r = Inr (gens, finalize_generated raw (rq_max rq) (rq_triage rq) (rq_level rq) um) \<and> sources_ok gens \<and>
        (\<forall>it \<in> set raw. proto (si_protocol it)))"

locale strategy_lane =
  fixes lane_op :: "matrix_env \<Rightarrow> request \<Rightarrow> string \<Rightarrow> string list \<Rightarrow> sources \<Rightarrow> (sources \<times> StrategyItem list) result"
    and proto :: "string \<Rightarrow> bool"
  assumes runs: "env_ok env \<Longrightarrow> sources_ok gens \<Longrightarrow> lane_result rq um proto (lane_op env rq um srcs gens)"
begin

lemma returns:
  assumes "env_ok env" and "sources_ok gens"
  obtains gens' items where "lane_op env rq um srcs gens = Inr (gens', items)" "sources_ok gens'"
    "distinct (map si_strategy items)" "0 \<le> rq_max rq \<Longrightarrow> int (length items) \<le> rq_max rq"
    "um = [] \<Longrightarrow> prune_items_by_triage items (rq_triage rq) (rq_level rq) = items"
    "\<forall>it \<in> set items. proto (si_protocol it)"
proof -
  obtain gens' raw where r: "lane_op env rq um srcs gens =
      Inr (gens', finalize_generated raw (rq_max rq) (rq_triage rq) (rq_level rq) um)" "sources_ok gens'"
      "\<forall>it \<in> set raw. proto (si_protocol it)"
    using runs [OF assms, of rq um srcs] unfolding lane_result_def by blast
  let ?items = "finalize_generated raw (rq_max rq) (rq_triage rq) (rq_level rq) um"
  obtain k where k: "dedupe raw (rq_max rq) = take k (first_items [] raw)"
    using slice_to_take unfolding dedupe_def by blast
  have dist: "distinct (map si_strategy (dedupe raw (rq_max rq)))"
    using first_items_distinct [of "[]" raw] by (simp add: k take_map [symmetric])
  have len: "0 \<le> rq_max rq \<Longrightarrow> int (length (dedupe raw (rq_max rq))) \<le> rq_max rq"
    by (simp add: dedupe_def length_slice_to)
  have sub: "set ?items \<subseteq> set raw"
    using first_items_subset [of "[]" raw]
    by (auto simp: finalize_generated_def Let_def k prune_eq_filter dest: in_set_takeD split: if_splits)
  have short: "int (length (filter P (dedupe raw (rq_max rq)))) \<le> int (length (dedupe raw (rq_max rq)))" for P
    by simp
  show thesis
  proof (rule that [OF r(1,2)])
    show "distinct (map si_strategy ?items)"
      using dist by (auto simp: finalize_generated_def Let_def prune_eq_filter distinct_map_filter)
    show "0 \<le> rq_max rq \<Longrightarrow> int (length ?items) \<le> rq_max rq"
      using len by (auto simp: finalize_generated_def Let_def prune_eq_filter intro: order_trans [OF short])
    show "um = [] \<Longrightarrow> prune_items_by_triage ?items (rq_triage rq) (rq_level rq) = ?items"
      by (simp add: finalize_generated_def Let_def prune_eq_filter)
    show "\<forall>it \<in> set ?items. proto (si_protocol it)"
      using r(3) sub by blast
  qed
qed

end

lemma run_sources_lane:
  assumes "env_ok env" and "sources_ok gens" and "\<And>p. proto (coerce p)"
    and same: "rq_max rq' = rq_max rq" "rq_triage rq' = rq_triage rq" "rq_level rq' = rq_level rq"
  shows "lane_result rq um proto (run_sources env rq' pr coerce um srcs gens)"
proof -
  let ?rq = "\<lambda>src. rq'\<lparr>rq_protocol := pr src, rq_max := per_source (rq_max rq') srcs\<rparr>"
  obtain gens' its where "collect env ?rq srcs gens = Inr (gens', its)" "sources_ok gens'"
    using collect_returns [OF assms(1,2)] by blast
  then show ?thesis
    unfolding lane_result_def run_sources_def using assms(3) same
    by (intro exI [of _ gens'] exI [of _ "map (map_protocol coerce) its"]) (auto simp: map_protocol_def)
qed

lemma lane_result_empty: "sources_ok gens \<Longrightarrow> lane_result rq um proto (Inr (gens, []))"
  unfolding lane_result_def
  by (intro exI [of _ gens] exI [of _ "[]"]) (simp add: finalize_generated_def dedupe_def slice_to_def prune_eq_filter)

interpretation tcp_lane: strategy_lane generate_tcp "\<lambda>_. True"
  by unfold_locales
     (auto simp: generate_tcp_def with_user_def intro!: run_sources_lane sources_ok_register)

interpretation http_lane: strategy_lane generate_http "\<lambda>_. True"
  by unfold_locales
     (auto simp: generate_http_def generate_tcp_def with_user_def
           intro!: run_sources_lane sources_ok_register lane_result_empty split: option.splits)

lemma udp_coerce_preserves: "udp_coerce p \<in> set UDP_PRESERVE"
  by (auto simp: udp_coerce_def, simp add: UDP_PRESERVE_def)

interpretation udp_lane: strategy_lane generate_udp "\<lambda>p. p \<in> set UDP_PRESERVE"
  by unfold_locales
     (auto simp: generate_udp_def with_user_def udp_coerce_preserves Let_def
           intro!: run_sources_lane sources_ok_register lane_result_empty split: option.splits)

interpretation quic_lane: strategy_lane generate_quic "\<lambda>p. p = ''quic''"
  by unfold_locales
     (auto simp: generate_quic_def with_user_def intro!: run_sources_lane sources_ok_register)


definition sample_conf_env :: conf_env where
  "sample_conf_env =
     \<lparr>cv_blobs = sample_blob_env, cv_manifest = [], cv_read_text = (\<lambda>_. None), cv_exists = (\<lambda>_. False), cv_resolve = id,
      cv_lua_custom_dir = ''/opt/lua'', cv_lua_init_scripts = [], cv_qnum_tcp = 200, cv_qnum_udp = 201, cv_timestamp = []\<rparr>"

definition sample_matrix_env :: matrix_env where
  "sample_matrix_env =
     \<lparr>mx_gen = \<lparr>gn_conf = sample_conf_env, gn_repr = id, gn_digest = id,
        gn_text = (\<lambda>p. if p = ''/etc/custom/list_udp_voice.txt'' then Some (''fake:blob=stun'' @ line_end @ ''fake:blob=stun'') else None),
        gn_listdir = (\<lambda>_. None), gn_stdin = [], gn_custom_dir = ''/etc/custom'', gn_config_dir = ''/etc/conf''\<rparr>,
      mx_families = rev SUPPORTED_FAMILIES, mx_dropped = DROPPABLE_FOOLINGS\<rparr>"

definition sample_request :: request where
  "sample_request = \<lparr>rq_protocol = ''tls12'', rq_working = None, rq_domain = ''discord.com'', rq_level = ''fast'', rq_max = 2,
     rq_run_set = [], rq_triage = None\<rparr>"


section \<open>Pairs\<close>

interpretation pair_order: key_order key_less
proof
  fix s t u :: "bool \<times> string \<times> string"
  show "\<not> key_less s s" by (cases s) simp
  show "key_less s t \<Longrightarrow> key_less t u \<Longrightarrow> key_less s u"
    by (cases s; cases t; cases u) (auto dest: string_less_trans)
  show "key_less s t \<or> s = t \<or> key_less t s"
    using string_less_total by (cases s; cases t) auto
qed

lemma sort_pairs_sorted: "ordered_by key_less (pair_key known) (sort_pairs known ps)"
  by (simp add: sort_pairs_def pair_order.ordered_order)

lemma mset_sort_pairs: "mset (sort_pairs known ps) = mset ps"
  by (simp add: sort_pairs_def)

lemma working_first:
  assumes "ordered_by key_less (pair_key known) ps" and "i < j" and "j < length ps" and "si_label (sp_tcp (ps ! j)) \<in> set known"
  shows "si_label (sp_tcp (ps ! i)) \<in> set known"
proof -
  have "\<not> key_less (pair_key known (ps ! j)) (pair_key known (ps ! i))"
    using assms(1-3) by (simp add: ordered_by_def sorted_wrt_iff_nth_less)
  then show ?thesis using assms(4) by (auto simp: pair_key_def)
qed



section \<open>Where the sources and their comments differ\<close>

text \<open>The ByeDPI pool for HTTP has more than the native HTTP lines.\<close>

lemma byedpi_http_not_only_http: "mk_item ''byedpi_native:-o1 -a1'' ''-o1 -a1'' \<in> set (native_items True)"
  by code_simp

text \<open>A seed of the Flowseal matrix that the static validator refuses.\<close>

lemma flw_blind_refused: "errors (validate_strategy sample_conf_env id None ''fake:repeats=6:tcp_ts=-1000'') \<noteq> []"
  by code_simp

end
