(* ===== verification/Metrics.thy ===== *)
theory Metrics
  imports PyText
begin

text \<open>
  \<^verbatim>\<open>service/metrics.py\<close>: finding, killing and watching the packet daemons. What the kernel and the helper
  programs answer is the argument \<open>proc_env\<close>; the clock is an argument of every operation that reads it;
  floating-point numbers are rationals. What is signalled is part of the result of a kill.
\<close>

section \<open>Processes\<close>

datatype read_result = ReadOk string | ReadDenied | ReadGone

datatype kill_result = KillOk | KillNoProcess | KillDenied | KillFailed

record proc_env =
  pe_status :: "int \<Rightarrow> string list option"
  pe_kill :: "int \<Rightarrow> kill_result"
  pe_sudo_kill :: "int \<Rightarrow> bool"
  pe_children :: "(int, int list) dict"
  pe_ns_inode :: "string \<Rightarrow> int option"
  pe_listdir :: "string list option"
  pe_comm :: "int \<Rightarrow> read_result"
  pe_ns_link :: "int \<Rightarrow> read_result"
  pe_sudo_readlink :: "int \<Rightarrow> string option"

definition MIB :: int where "MIB = 1024 * 1024"

text \<open>The numbers in a status file are decimal.\<close>

definition status_line_value :: "string \<Rightarrow> int" where
  "status_line_value line =
     (case split_ws line of
        a # b # rest \<Rightarrow> if isdigit (strip b) then (case int_of_str b of Some n \<Rightarrow> n * 1024 | None \<Rightarrow> 0) else 0
      | _ \<Rightarrow> 0)"

definition proc_status_value :: "proc_env \<Rightarrow> int \<Rightarrow> string \<Rightarrow> int" where
  "proc_status_value env pid fld =
     (case pe_status env pid of
        None \<Rightarrow> 0
      | Some ls \<Rightarrow>
          (case find (\<lambda>line. startswith line (fld @ '':'')) ls of
             None \<Rightarrow> 0
           | Some line \<Rightarrow> status_line_value line))"

definition process_rss_bytes :: "proc_env \<Rightarrow> int \<Rightarrow> int" where
  "process_rss_bytes env pid = proc_status_value env pid ''VmRSS''"

definition process_vms_bytes :: "proc_env \<Rightarrow> int \<Rightarrow> int" where
  "process_vms_bytes env pid = proc_status_value env pid ''VmSize''"

section \<open>Killing\<close>

definition kill_pid_sigkill :: "proc_env \<Rightarrow> int \<Rightarrow> bool" where
  "kill_pid_sigkill env pid =
     (case pe_kill env pid of
        KillOk \<Rightarrow> True
      | KillNoProcess \<Rightarrow> False
      | KillDenied \<Rightarrow> pe_sudo_kill env pid
      | KillFailed \<Rightarrow> False)"

definition pgrep_child_pids :: "proc_env \<Rightarrow> int \<Rightarrow> int list" where
  "pgrep_child_pids env ppid = dict_getd (pe_children env) ppid []"

definition all_children :: "proc_env \<Rightarrow> int set" where
  "all_children env = (\<Union>kv \<in> set (pe_children env). set (snd kv))"

lemma children_listed: "k \<in> set (pgrep_child_pids env p) \<Longrightarrow> k \<in> all_children env"
  by (cases "dict_get (pe_children env) p") (force simp: pgrep_child_pids_def all_children_def dict_getd_def dest: map_of_SomeD)+

lemma finite_all_children [simp]: "finite (all_children env)"
  by (simp add: all_children_def)

text \<open>The search takes the last pending process.\<close>

function descend :: "proc_env \<Rightarrow> int list \<Rightarrow> int list \<Rightarrow> int list \<Rightarrow> int list" where
  "descend env found pending seen =
     (if pending = [] then found
      else (let pid = last pending;
                new = filter (\<lambda>k. k \<notin> set seen) (pgrep_child_pids env pid)
            in descend env (found @ new) (butlast pending @ new) (seen @ new)))"
  by pat_completeness auto
termination
proof (relation "measures [\<lambda>(env, found, pending, seen). card (all_children env - set seen),
                           \<lambda>(env, found, pending, seen). length pending]")
  fix env found pending seen pid new
  assume pending: "pending \<noteq> []" and pid: "pid = last pending"
    and new: "new = filter (\<lambda>k. k \<notin> set seen) (pgrep_child_pids env pid)"
  have "card (all_children env - set (seen @ new)) < card (all_children env - set seen)" if ne: "new \<noteq> []"
  proof (rule psubset_card_mono)
    from ne have "hd new \<in> set new" by simp
    then obtain k where "k \<in> set new" by blast
    then have "k \<in> all_children env - set seen" "k \<notin> all_children env - set (seen @ new)"
      using new children_listed by auto
    then show "all_children env - set (seen @ new) \<subset> all_children env - set seen" by auto
  qed simp
  then show "((env, found @ new, butlast pending @ new, seen @ new), env, found, pending, seen)
      \<in> measures [\<lambda>(env, found, pending, seen). card (all_children env - set seen),
                   \<lambda>(env, found, pending, seen). length pending]"
    using pending by (cases "new = []") auto
qed simp

definition descendant_pids :: "proc_env \<Rightarrow> int \<Rightarrow> int list" where
  "descendant_pids env top_pid = descend env [] [top_pid] [top_pid]"

definition kill_all :: "proc_env \<Rightarrow> int list \<Rightarrow> int" where
  "kill_all env pids = int (length (filter (kill_pid_sigkill env) pids))"

text \<open>The processes that are sent the signal, in order, and how many of them it reached.\<close>

definition pkill_host_process_tree :: "proc_env \<Rightarrow> int \<Rightarrow> int list \<times> int" where
  "pkill_host_process_tree env top_pid =
     (let pids = descendant_pids env top_pid @ [top_pid] in (pids, kill_all env pids))"

section \<open>The daemons of a namespace\<close>

datatype scan_verdict = ScanHit | ScanMiss | ScanError

definition ns_matches :: "int \<Rightarrow> string \<Rightarrow> bool" where
  "ns_matches inode link = endswith link (''['' @ str_int inode @ '']'')"

definition scan_pid :: "proc_env \<Rightarrow> int \<Rightarrow> int \<Rightarrow> scan_verdict" where
  "scan_pid env inode pid =
     (case pe_comm env pid of
        ReadDenied \<Rightarrow> ScanError
      | ReadGone \<Rightarrow> ScanMiss
      | ReadOk comm \<Rightarrow>
          if strip comm \<noteq> ''nfqws2'' then ScanMiss
          else (case pe_ns_link env pid of
                  ReadGone \<Rightarrow> ScanMiss
                | ReadOk link \<Rightarrow> if ns_matches inode link then ScanHit else ScanMiss
                | ReadDenied \<Rightarrow>
                    (case pe_sudo_readlink env pid of
                       None \<Rightarrow> ScanError
                     | Some link \<Rightarrow> if link = [] then ScanError else if ns_matches inode link then ScanHit else ScanMiss)))"

definition proc_pids :: "string list \<Rightarrow> int list" where
  "proc_pids entries = List.map_filter int_of_str (filter isdigit entries)"

definition scan_nfqws2_pids :: "proc_env \<Rightarrow> string \<Rightarrow> int list \<times> int" where
  "scan_nfqws2_pids env ns_name =
     (case pe_ns_inode env ns_name of
        None \<Rightarrow> ([], 0)
      | Some inode \<Rightarrow>
          (case pe_listdir env of
             None \<Rightarrow> ([], 1)
           | Some entries \<Rightarrow>
               (let pids = proc_pids entries
                in (filter (\<lambda>pid. scan_pid env inode pid = ScanHit) pids,
                    int (length (filter (\<lambda>pid. scan_pid env inode pid = ScanError) pids))))))"

definition find_nfqws2_pids :: "proc_env \<Rightarrow> string \<Rightarrow> int list" where
  "find_nfqws2_pids env ns_name = fst (scan_nfqws2_pids env ns_name)"

record PkillResult =
  pk_killed :: int
  pk_scan_errors :: int

definition pkill_in_ns :: "proc_env \<Rightarrow> string \<Rightarrow> int list \<times> PkillResult" where
  "pkill_in_ns env ns_name =
     (let (pids, errs) = scan_nfqws2_pids env ns_name
      in (pids, \<lparr>pk_killed = kill_all env pids, pk_scan_errors = errs\<rparr>))"

definition pkill_nfqws2_in_ns :: "proc_env \<Rightarrow> string \<Rightarrow> int" where
  "pkill_nfqws2_in_ns env ns_name = pk_killed (snd (pkill_in_ns env ns_name))"

section \<open>Watching memory\<close>

record MemorySample =
  ms_ts :: rat
  ms_rss_bytes :: int

definition rss_mib :: "MemorySample \<Rightarrow> rat" where
  "rss_mib s = of_int (ms_rss_bytes s) / of_int MIB"

definition push_sample :: "MemorySample \<Rightarrow> int \<Rightarrow> MemorySample list \<Rightarrow> MemorySample list" where
  "push_sample s window samples =
     (let all = samples @ [s]
      in if max 1 window < int (length all) then drop (nat (int (length all) - window)) all else all)"

definition compute_leak_slope :: "MemorySample list \<Rightarrow> rat" where
  "compute_leak_slope samples =
     (if length samples < 2 then 0
      else (let xs = map ms_ts samples;
                ys = map rss_mib samples;
                n = of_nat (length xs);
                mean_x = sum_list xs / n;
                mean_y = sum_list ys / n;
                num = sum_list (map (\<lambda>(x, y). (x - mean_x) * (y - mean_y)) (zip xs ys));
                den = sum_list (map (\<lambda>x. (x - mean_x) ^ 2) xs)
            in if den = 0 then 0 else num / den))"

text \<open>The time of the last check is absent at first (minus infinity in the code).\<close>

record MemoryMonitor =
  mm_enabled :: bool
  mm_max_mib :: rat
  mm_leak_slope :: rat
  mm_py_max_mib :: rat
  mm_window :: int
  mm_poll :: rat
  mm_windows :: "(int, MemorySample list) dict"
  mm_last_py :: "MemorySample option"
  mm_last_check :: "rat option"

record monitor_config =
  mc_enabled :: bool
  mc_max_mib :: rat
  mc_leak_slope :: rat
  mc_py_max_mib :: rat
  mc_window :: int
  mc_poll :: rat

definition new_monitor ::
    "monitor_config \<Rightarrow> bool \<Rightarrow> rat option \<Rightarrow> rat option \<Rightarrow> rat option \<Rightarrow> int option \<Rightarrow> rat option \<Rightarrow> MemoryMonitor" where
  "new_monitor cfg enabled max_mib leak_slope py_max_mib window poll =
     \<lparr>mm_enabled = enabled \<and> mc_enabled cfg,
      mm_max_mib = (case max_mib of None \<Rightarrow> mc_max_mib cfg | Some v \<Rightarrow> v),
      mm_leak_slope = (case leak_slope of None \<Rightarrow> mc_leak_slope cfg | Some v \<Rightarrow> v),
      mm_py_max_mib = (case py_max_mib of None \<Rightarrow> mc_py_max_mib cfg | Some v \<Rightarrow> v),
      mm_window = (case window of None \<Rightarrow> mc_window cfg | Some v \<Rightarrow> v),
      mm_poll = (case poll of None \<Rightarrow> mc_poll cfg | Some v \<Rightarrow> v),
      mm_windows = [], mm_last_py = None, mm_last_check = None\<rparr>"

definition should_sample :: "rat \<Rightarrow> MemoryMonitor \<Rightarrow> bool \<times> MemoryMonitor" where
  "should_sample now m =
     (if \<not> mm_enabled m then (False, m)
      else if (case mm_last_check m of None \<Rightarrow> False | Some t \<Rightarrow> now - t < mm_poll m) then (False, m)
      else (True, m\<lparr>mm_last_check := Some now\<rparr>))"

definition clear_windows :: "int option \<Rightarrow> MemoryMonitor \<Rightarrow> MemoryMonitor" where
  "clear_windows pid m =
     (case pid of
        None \<Rightarrow> m\<lparr>mm_windows := []\<rparr>
      | Some p \<Rightarrow> m\<lparr>mm_windows := dict_del p (mm_windows m)\<rparr>)"

definition record_pid :: "proc_env \<Rightarrow> rat \<Rightarrow> int \<Rightarrow> MemoryMonitor \<Rightarrow> MemoryMonitor" where
  "record_pid env now pid m =
     (if \<not> mm_enabled m then m
      else (let rss = process_rss_bytes env pid
            in if rss \<le> 0 then m
               else m\<lparr>mm_windows :=
                        dict_set pid (push_sample \<lparr>ms_ts = now, ms_rss_bytes = rss\<rparr> (mm_window m) (dict_getd (mm_windows m) pid []))
                          (mm_windows m)\<rparr>))"

text \<open>The clock is read for every daemon; here all reads of one call give the same time.\<close>

definition record_ns :: "proc_env \<Rightarrow> rat \<Rightarrow> string \<Rightarrow> int list option \<Rightarrow> MemoryMonitor \<Rightarrow> MemoryMonitor" where
  "record_ns env now ns_name pids m =
     (if \<not> mm_enabled m then m
      else fold (record_pid env now) (case pids of Some ps \<Rightarrow> ps | None \<Rightarrow> find_nfqws2_pids env ns_name) m)"

definition sample_worker :: "proc_env \<Rightarrow> rat \<Rightarrow> int \<Rightarrow> MemoryMonitor \<Rightarrow> MemorySample option \<times> MemoryMonitor" where
  "sample_worker env now self_pid m =
     (let rss = process_rss_bytes env self_pid
      in if rss \<le> 0 then (None, m)
         else (let s = \<lparr>ms_ts = now, ms_rss_bytes = rss\<rparr> in (Some s, m\<lparr>mm_last_py := Some s\<rparr>)))"

definition worker_over_limit :: "proc_env \<Rightarrow> rat \<Rightarrow> int \<Rightarrow> MemoryMonitor \<Rightarrow> bool \<times> MemoryMonitor" where
  "worker_over_limit env now self_pid m =
     (let m' = snd (sample_worker env now self_pid m)
      in (case mm_last_py m' of None \<Rightarrow> False | Some s \<Rightarrow> mm_py_max_mib m' < rss_mib s, m'))"

text \<open>The reason is a text in the code; its two numbers are kept here.\<close>

datatype recycle_reason = RssAbove rat rat | LeakAbove rat rat

definition recycle_reason_of :: "MemoryMonitor \<Rightarrow> MemorySample list \<Rightarrow> recycle_reason option" where
  "recycle_reason_of m samples =
     (if samples = [] then None
      else if mm_max_mib m < rss_mib (last samples) then Some (RssAbove (rss_mib (last samples)) (mm_max_mib m))
      else if mm_leak_slope m < compute_leak_slope samples then Some (LeakAbove (compute_leak_slope samples) (mm_leak_slope m))
      else None)"

definition recycle_candidates :: "MemoryMonitor \<Rightarrow> (int \<times> recycle_reason) list" where
  "recycle_candidates m =
     List.map_filter (\<lambda>(pid, samples). map_option (Pair pid) (recycle_reason_of m samples)) (mm_windows m)"

section \<open>The process tree\<close>

definition child_rel :: "proc_env \<Rightarrow> (int \<times> int) set" where
  "child_rel env = {(p, k). k \<in> set (pgrep_child_pids env p)}"

text \<open>
  What the search keeps: the seen processes are the root and the found ones, all of them are in the tree,
  and the children of a seen process that is no longer pending are seen.
\<close>

definition search_inv :: "proc_env \<Rightarrow> int \<Rightarrow> int list \<Rightarrow> int list \<Rightarrow> int list \<Rightarrow> bool" where
  "search_inv env r found pending seen \<longleftrightarrow>
     set seen = insert r (set found) \<and> r \<notin> set found \<and> set pending \<subseteq> set seen \<and>
     (\<forall>k \<in> set found. (r, k) \<in> (child_rel env)\<^sup>+) \<and>
     (\<forall>p \<in> set seen - set pending. set (pgrep_child_pids env p) \<subseteq> set seen)"

lemma search_inv_step:
  assumes inv: "search_inv env r found pending seen" and "pending \<noteq> []"
    and new: "new = filter (\<lambda>k. k \<notin> set seen) (pgrep_child_pids env (last pending))"
  shows "search_inv env r (found @ new) (butlast pending @ new) (seen @ new)"
proof -
  have pending: "set pending = insert (last pending) (set (butlast pending))"
    using assms(2) by (metis append_butlast_last_id list.set(1,2) set_append Un_insert_right sup_bot.right_neutral)
  have reach: "(r, k) \<in> (child_rel env)\<^sup>+" if "k \<in> set new" for k
  proof -
    have step: "(last pending, k) \<in> child_rel env" using that new by (simp add: child_rel_def)
    have "last pending \<in> set seen" using inv pending by (auto simp: search_inv_def)
    then consider "last pending = r" | "(r, last pending) \<in> (child_rel env)\<^sup>+"
      using inv by (auto simp: search_inv_def)
    then show ?thesis using step by cases (auto intro: trancl_into_trancl)
  qed
  have new_set: "set new = set (pgrep_child_pids env (last pending)) - set seen" using new by auto
  have closed: "set (pgrep_child_pids env p) \<subseteq> set (seen @ new)" if "p \<in> set (seen @ new) - set (butlast pending @ new)" for p
  proof (cases "p = last pending")
    case False
    then have "p \<in> set seen - set pending" using that pending by auto
    then show ?thesis using inv unfolding search_inv_def by fastforce
  qed (use new_set in auto)
  have "set seen = insert r (set found)" "r \<notin> set found" "set pending \<subseteq> set seen" "\<forall>k \<in> set found. (r, k) \<in> (child_rel env)\<^sup>+"
    using inv unfolding search_inv_def by blast+
  then show ?thesis
    unfolding search_inv_def using closed reach new_set pending by (intro conjI ballI) auto
qed

lemma descend_exact:
  assumes "search_inv env r found pending seen"
  shows "set (descend env found pending seen) = {k. (r, k) \<in> (child_rel env)\<^sup>+} - {r}"
  using assms
proof (induction env found pending seen rule: descend.induct)
  case (1 env found pending seen)
  show ?case
  proof (cases "pending = []")
    case True
    then have closed: "\<forall>p \<in> set seen. set (pgrep_child_pids env p) \<subseteq> set seen" and seen: "set seen = insert r (set found)"
      and sound: "\<forall>k \<in> set found. (r, k) \<in> (child_rel env)\<^sup>+" and "r \<notin> set found"
      using 1(2) unfolding search_inv_def by auto
    have "(r, k) \<in> (child_rel env)\<^sup>+ \<Longrightarrow> k \<in> set seen" for k
      by (induction rule: trancl_induct) (use closed seen in \<open>auto simp: child_rel_def\<close>)
    then show ?thesis
      using True seen sound \<open>r \<notin> set found\<close> by auto
  next
    case False
    let ?new = "filter (\<lambda>k. k \<notin> set seen) (pgrep_child_pids env (last pending))"
    have "set (descend env (found @ ?new) (butlast pending @ ?new) (seen @ ?new)) = {k. (r, k) \<in> (child_rel env)\<^sup>+} - {r}"
      using 1(1) [OF False refl refl] search_inv_step [OF 1(2) False refl] by blast
    then show ?thesis
      using False by (subst descend.simps) (simp add: Let_def)
  qed
qed

text \<open>
  C35. The search for the descendants of a process ends on every process table, also one with cycles, and
  finds exactly the processes below the root; killing the tree sends the signal to these and, last, to the
  root, and to no other process.
\<close>

theorem process_tree_exact:
  "set (descendant_pids env r) = {k. (r, k) \<in> {(p, k). k \<in> set (pgrep_child_pids env p)}\<^sup>+} - {r} \<and>
   fst (pkill_host_process_tree env r) = descendant_pids env r @ [r] \<and>
   snd (pkill_host_process_tree env r) = int (length (filter (kill_pid_sigkill env) (descendant_pids env r @ [r])))"
proof -
  have "search_inv env r [] [r] [r]" by (simp add: search_inv_def)
  from descend_exact [OF this] show ?thesis
    by (simp add: descendant_pids_def pkill_host_process_tree_def Let_def kill_all_def child_rel_def)
qed

section \<open>Scoped kill\<close>

text \<open>The inode in the link of a namespace is its last part.\<close>

lemma str_int_no_bracket: "CHR ''['' \<notin> set (str_int i)"
  by (auto simp: str_int_def is_decimal_def dest: digits_of_nat_decimal)

lemma str_int_inject: "str_int i = str_int j \<longleftrightarrow> i = j"
proof -
  have "CHR ''-'' \<notin> set (digits_of_nat n)" for n by (auto simp: is_decimal_def dest: digits_of_nat_decimal)
  then show ?thesis
    by (auto simp: str_int_def) (metis list.set_intros(1))+
qed

lemma ns_matches_iff: "ns_matches inode (''net:['' @ str_int n @ '']'') \<longleftrightarrow> n = inode"
proof
  assume "ns_matches inode (''net:['' @ str_int n @ '']'')"
  then have "''net:['' @ str_int n @ '']'' =
      take (length (''net:['' @ str_int n @ '']'') - length (''['' @ str_int inode @ '']'')) (''net:['' @ str_int n @ '']'') @ ''['' @ str_int inode @ '']''"
    unfolding ns_matches_def endswith_def by (metis append_take_drop_id)
  then obtain r where "r @ ''['' @ str_int inode @ '']'' = ''net:['' @ str_int n @ '']''"
    by metis
  then have eq: "r @ CHR ''['' # str_int inode = ''net:'' @ CHR ''['' # str_int n" by simp
  have rev: "rev (str_int inode) @ CHR ''['' # rev r = rev (str_int n) @ CHR ''['' # rev ''net:''"
    using arg_cong [OF eq, of rev] by simp
  have cut: "takeWhile (\<lambda>c. c \<noteq> CHR ''['') (rev (str_int i) @ CHR ''['' # t) = rev (str_int i)" for i t
    using str_int_no_bracket [of i] by (subst takeWhile_append2) auto
  have "rev (str_int inode) = rev (str_int n)"
    using arg_cong [OF rev, of "takeWhile (\<lambda>c. c \<noteq> CHR ''['')"] unfolding cut .
  then show "n = inode" by (simp add: str_int_inject)
qed (auto simp: ns_matches_def endswith_def)

text \<open>
  Killing the daemons of a namespace touches no other process: a process is sent the signal only
  when it is called \<^verbatim>\<open>nfqws2\<close> and the network namespace the kernel names for it is the one asked for, and
  every such process whose entry can be read is sent it; a namespace that does not exist kills nothing.
\<close>

theorem kill_stays_in_namespace:
  assumes "pe_ns_inode env ns = Some inode" and "pe_listdir env = Some entries" and "pid \<in> set (proc_pids entries)"
    and "pe_comm env pid = ReadOk comm" and "pe_ns_link env pid = ReadOk (''net:['' @ str_int n @ '']'')"
  shows "pid \<in> set (fst (pkill_in_ns env ns)) \<longleftrightarrow> strip comm = ''nfqws2'' \<and> n = inode"
  using assms ns_matches_iff [of inode n] by (auto simp: pkill_in_ns_def scan_nfqws2_pids_def scan_pid_def Let_def)

definition sample_proc_env :: proc_env where
  "sample_proc_env =
     \<lparr>pe_status = (\<lambda>pid. Some [''Name: nfqws2'', ''VmRSS: '' @ str_int (1024 * pid) @ '' kB'']),
      pe_kill = (\<lambda>pid. KillOk), pe_sudo_kill = (\<lambda>_. False), pe_children = [(1, [7, 8]), (7, [9, 1])],
      pe_ns_inode = (\<lambda>ns. if ns = ''bs-p-0'' then Some 42 else None), pe_listdir = Some [''self'', ''7'', ''8''],
      pe_comm = (\<lambda>pid. ReadOk (''nfqws2'' @ [CHR 0x0A])),
      pe_ns_link = (\<lambda>pid. ReadOk (''net:['' @ str_int (35 + pid) @ '']'')), pe_sudo_readlink = (\<lambda>_. None)\<rparr>"

theorem kill_stays_in_namespace_witness:
  "7 \<in> set (fst (pkill_in_ns sample_proc_env ''bs-p-0'')) \<and> 8 \<notin> set (fst (pkill_in_ns sample_proc_env ''bs-p-0''))"
proof -
  have env: "pe_ns_inode sample_proc_env ''bs-p-0'' = Some 42" "pe_listdir sample_proc_env = Some [''self'', ''7'', ''8'']"
    "pe_comm sample_proc_env pid = ReadOk (''nfqws2'' @ [CHR 0x0A])"
    "pe_ns_link sample_proc_env pid = ReadOk (''net:['' @ str_int (35 + pid) @ '']'')" for pid
    by (simp_all add: sample_proc_env_def)
  have pids: "7 \<in> set (proc_pids [''self'', ''7'', ''8''])" "8 \<in> set (proc_pids [''self'', ''7'', ''8''])"
    and name: "strip (''nfqws2'' @ [CHR 0x0A]) = ''nfqws2''" by code_simp+
  show ?thesis
    using kill_stays_in_namespace [OF env(1,2) pids(1) env(3) env(4)] kill_stays_in_namespace [OF env(1,2) pids(2) env(3) env(4)] name
    by simp
qed

section \<open>Memory windows\<close>

lemma push_sample_length: "int (length (push_sample s window samples)) \<le> max 1 window" if "int (length samples) \<le> max 1 window"
  using that by (auto simp: push_sample_def Let_def)

lemma push_sample_suffix: "1 \<le> window \<Longrightarrow> push_sample s window samples = drop (length (samples @ [s]) - nat window) (samples @ [s])"
  by (auto simp: push_sample_def Let_def nat_diff_distrib' nat_add_distrib not_less)

text \<open>
  The slope of samples that lie on a line is the slope of the line; in particular a daemon whose memory
  does not change is never taken to leak.
\<close>

lemma sum_list_scaled: "(\<Sum>x\<leftarrow>xs. c * f x) = c * (\<Sum>x\<leftarrow>xs. f x :: rat)"
  by (induction xs) (simp_all add: algebra_simps)

lemma sum_list_nonneg_zero:
  assumes "(\<Sum>x\<leftarrow>xs. (f x :: rat) ^ 2) = 0" and "x \<in> set xs"
  shows "f x = 0"
proof -
  have "\<forall>y \<in> set (map (\<lambda>x. f x ^ 2) xs). y = 0"
    using assms(1) by (subst sum_list_nonneg_eq_0_iff [symmetric]) auto
  then show ?thesis using assms(2) by simp
qed

text \<open>
  The leak slope is the slope of the line through the samples when they lie on one: with at least two
  samples at different times whose memory grows by \<open>b\<close> MiB per second the result is exactly \<open>b\<close>.
\<close>

theorem leak_slope_of_line:
  assumes line: "\<forall>s \<in> set samples. rss_mib s = a + b * ms_ts s"
    and "s \<in> set samples" and "t \<in> set samples" and "ms_ts s \<noteq> ms_ts t"
  shows "compute_leak_slope samples = b"
proof -
  let ?n = "of_nat (length samples) :: rat" let ?mx = "(\<Sum>u\<leftarrow>samples. ms_ts u) / ?n" let ?my = "(\<Sum>u\<leftarrow>samples. rss_mib u) / ?n"
  have "samples \<noteq> []" using assms(2) by auto
  then have n: "?n \<noteq> 0" by simp
  have len: "\<not> length samples < 2"
    using assms(2-4) by (cases samples; cases "tl samples") auto
  have "(\<Sum>u\<leftarrow>samples. rss_mib u) = (\<Sum>u\<leftarrow>samples. a + b * ms_ts u)"
    using line by (intro arg_cong [where f = sum_list] map_cong) auto
  also have "\<dots> = ?n * a + b * (\<Sum>u\<leftarrow>samples. ms_ts u)"
    by (induction samples) (simp_all add: algebra_simps)
  finally have my: "?my = a + b * ?mx" using n by (simp add: field_simps)
  let ?den = "(\<Sum>u\<leftarrow>samples. (ms_ts u - ?mx) ^ 2)"
  have den: "?den \<noteq> 0"
  proof
    assume "?den = 0"
    then have "ms_ts u = ?mx" if "u \<in> set samples" for u
      using sum_list_nonneg_zero [of "\<lambda>u. ms_ts u - ?mx" samples u] that by simp
    then show False using assms(2-4) by metis
  qed
  have "(\<Sum>u\<leftarrow>samples. (ms_ts u - ?mx) * (rss_mib u - ?my)) = (\<Sum>u\<leftarrow>samples. b * (ms_ts u - ?mx) ^ 2)"
    using line my by (intro arg_cong [where f = sum_list] map_cong) (auto simp: power2_eq_square algebra_simps)
  also have "\<dots> = b * ?den" by (rule sum_list_scaled)
  finally have num: "(\<Sum>u\<leftarrow>samples. (ms_ts u - ?mx) * (rss_mib u - ?my)) = b * ?den" .
  have zip: "map (\<lambda>(x, y). (x - ?mx) * (y - ?my)) (zip (map ms_ts samples) (map rss_mib samples)) =
      map (\<lambda>u. (ms_ts u - ?mx) * (rss_mib u - ?my)) samples"
    by (simp add: zip_map_map zip_same_conv_map comp_def)
  show ?thesis
    using len den num unfolding compute_leak_slope_def Let_def length_map zip by (simp add: comp_def)
qed

theorem leak_slope_of_line_witness:
  "compute_leak_slope [\<lparr>ms_ts = 0, ms_rss_bytes = MIB\<rparr>, \<lparr>ms_ts = 2, ms_rss_bytes = 5 * MIB\<rparr>] = 2"
  by (rule leak_slope_of_line [where a = 1 and b = 2 and s = "\<lparr>ms_ts = 0, ms_rss_bytes = MIB\<rparr>" and
        t = "\<lparr>ms_ts = 2, ms_rss_bytes = 5 * MIB\<rparr>"]) (auto simp: rss_mib_def MIB_def)

text \<open>No operation of the monitor lets a window grow beyond its size.\<close>

definition monitor_ok :: "MemoryMonitor \<Rightarrow> bool" where
  "monitor_ok m \<longleftrightarrow> (\<forall>(pid, samples) \<in> set (mm_windows m). int (length samples) \<le> max 1 (mm_window m))"

lemma monitor_ok_new: "monitor_ok (new_monitor cfg enabled a b c d e)"
  by (simp add: monitor_ok_def new_monitor_def)

lemma monitor_ok_record: "monitor_ok m \<Longrightarrow> monitor_ok (record_pid env now pid m)"
proof -
  assume ok: "monitor_ok m"
  let ?old = "dict_getd (mm_windows m) pid []"
  have "int (length ?old) \<le> max 1 (mm_window m)"
    using ok by (cases "dict_get (mm_windows m) pid") (auto simp: dict_getd_def monitor_ok_def dest: map_of_SomeD)
  then have "int (length (push_sample s (mm_window m) ?old)) \<le> max 1 (mm_window m)" for s
    by (rule push_sample_length)
  then show ?thesis
    using ok set_update_subset [of pid "push_sample s (mm_window m) ?old" "mm_windows m" for s]
    by (fastforce simp: record_pid_def monitor_ok_def Let_def)
qed

lemma record_pid_window [simp]: "mm_window (record_pid env now pid m) = mm_window m"
  by (simp add: record_pid_def Let_def)

lemma monitor_ok_ops:
  assumes "monitor_ok m"
  shows "monitor_ok (snd (should_sample now m))" "monitor_ok (clear_windows p m)"
    "monitor_ok (record_ns env now ns pids m)" "monitor_ok (snd (worker_over_limit env now self m))"
proof -
  show "monitor_ok (record_ns env now ns pids m)"
  proof -
    have "monitor_ok (fold (record_pid env now) ps m)" for ps
      using assms by (induction ps arbitrary: m) (auto intro: monitor_ok_record)
    then show ?thesis using assms by (simp add: record_ns_def)
  qed
qed (use assms in \<open>auto simp: monitor_ok_def should_sample_def clear_windows_def worker_over_limit_def sample_worker_def Let_def
       AList.delete_eq split: option.splits\<close>)

end
