(* ===== verification/NsFirewall.thy ===== *)
theory NsFirewall
  imports PyText "HOL-Library.Multiset"
begin

text \<open>
  \<^verbatim>\<open>service/ns_firewall.py\<close>: the packet-queue rules of a namespace or of the host. Running a command is the
  argument \<open>cmd\<close>: it takes the words of the command line and the state of the host and tells how the command
  ended. An operation returns an error or nothing, the tracker and the new host.
\<close>

section \<open>Commands\<close>

datatype cmd_outcome =
    Completed int string string
  | TimedOut
  | NotRun string

type_synonym 'h cmd = "string list \<Rightarrow> 'h \<Rightarrow> cmd_outcome \<times> 'h"

datatype fw_error =
    FwTimeout string
  | IptablesError string
  | FwOsError string

record RuleSpec =
  rs_proto :: string
  rs_dport :: string
  rs_queue :: int
  rs_multiport :: bool
  rs_bypass :: bool
  rs_dst_ip :: "string option"

record IptablesTracker =
  tk_prefix :: "string list"
  tk_rules :: "(RuleSpec, string list) dict"
  tk_dirty :: bool

definition ns_prefix :: "string \<Rightarrow> string list" where
  "ns_prefix ns_name = [''sudo'', ''-n'', ''ip'', ''netns'', ''exec'', ns_name, ''iptables'']"

definition host_prefix :: "string list" where
  "host_prefix = [''sudo'', ''-n'', ''iptables'']"

definition new_tracker :: "string list \<Rightarrow> IptablesTracker" where
  "new_tracker pre = \<lparr>tk_prefix = pre, tk_rules = [], tk_dirty = False\<rparr>"

text \<open>The error text of a command: its standard error, else its standard output.\<close>

definition cmd_detail :: "string \<Rightarrow> string \<Rightarrow> string" where
  "cmd_detail out err = (let detail = strip (if err \<noteq> [] then err else out) in if detail = [] then [] else '' ('' @ take 200 detail @ '')'')"

definition fw_run :: "'h cmd \<Rightarrow> string list \<Rightarrow> string list \<Rightarrow> bool \<Rightarrow> 'h \<Rightarrow> (fw_error + int) \<times> 'h" where
  "fw_run cmd pre args check h =
     (case cmd (pre @ args) h of
        (TimedOut, h') \<Rightarrow> (Inl (FwTimeout (''iptables timeout: '' @ join_with '' '' args)), h')
      | (NotRun e, h') \<Rightarrow> (Inl (FwOsError e), h')
      | (Completed rc out err, h') \<Rightarrow>
          if check \<and> rc \<noteq> 0
          then (Inl (IptablesError (''iptables '' @ join_with '' '' args @ '' failed rc='' @ str_int rc @ cmd_detail out err)), h')
          else (Inr rc, h'))"

definition rule_body :: "RuleSpec \<Rightarrow> string list" where
  "rule_body spec =
     [''OUTPUT'', ''-p'', rs_proto spec] @
     (case rs_dst_ip spec of None \<Rightarrow> [] | Some ip \<Rightarrow> if ip = [] then [] else [''-d'', ip]) @
     (if rs_multiport spec then [''-m'', ''multiport'', ''--dports'', rs_dport spec] else [''--dport'', rs_dport spec]) @
     [''-j'', ''NFQUEUE'', ''--queue-num'', str_int (rs_queue spec)] @
     (if rs_bypass spec then [''--queue-bypass''] else [])"

section \<open>The tracker\<close>

type_synonym 'h fw_result = "(fw_error + unit) \<times> IptablesTracker \<times> 'h"

definition mark_dirty :: "IptablesTracker \<Rightarrow> IptablesTracker" where
  "mark_dirty tk = tk\<lparr>tk_dirty := True\<rparr>"

definition is_attached :: "RuleSpec \<Rightarrow> IptablesTracker \<Rightarrow> bool" where
  "is_attached spec tk = (spec \<in> set (dict_keys (tk_rules tk)))"

text \<open>
  The handler of \<open>detach\<close> catches \<^verbatim>\<open>OSError\<close> and \<^verbatim>\<open>SubprocessError\<close>; a timeout reaches it as the
  \<^verbatim>\<open>RuntimeError\<close> of \<open>_run\<close> and passes through.
\<close>

fun delete_rules :: "'h cmd \<Rightarrow> string list \<Rightarrow> string list list \<Rightarrow> 'h \<Rightarrow> (fw_error + unit) \<times> 'h" where
  "delete_rules cmd pre [] h = (Inr (), h)"
| "delete_rules cmd pre (args # rest) h =
     (case fw_run cmd pre args False h of
        (Inl (FwOsError e), h') \<Rightarrow> delete_rules cmd pre rest h'
      | (Inl e, h') \<Rightarrow> (Inl e, h')
      | (Inr rc, h') \<Rightarrow> delete_rules cmd pre rest h')"

definition detach :: "'h cmd \<Rightarrow> IptablesTracker \<Rightarrow> 'h \<Rightarrow> 'h fw_result" where
  "detach cmd tk h =
     (case delete_rules cmd (tk_prefix tk) (rev (map snd (tk_rules tk))) h of
        (Inl e, h') \<Rightarrow> (Inl e, tk, h')
      | (Inr _, h') \<Rightarrow> (Inr (), tk\<lparr>tk_rules := []\<rparr>, h'))"

definition detach_one :: "'h cmd \<Rightarrow> RuleSpec \<Rightarrow> IptablesTracker \<Rightarrow> 'h \<Rightarrow> 'h fw_result" where
  "detach_one cmd spec tk h =
     (case dict_get (tk_rules tk) spec of
        None \<Rightarrow> (Inr (), tk, h)
      | Some args \<Rightarrow>
          (let tk' = tk\<lparr>tk_rules := dict_del spec (tk_rules tk)\<rparr>
           in case fw_run cmd (tk_prefix tk) args False h of
                (Inl (FwOsError e), h') \<Rightarrow> (Inr (), tk', h')
              | (Inl e, h') \<Rightarrow> (Inl e, tk', h')
              | (Inr rc, h') \<Rightarrow> (Inr (), tk', h')))"

definition attach_clean :: "'h cmd \<Rightarrow> RuleSpec \<Rightarrow> IptablesTracker \<Rightarrow> 'h \<Rightarrow> 'h fw_result" where
  "attach_clean cmd spec tk h =
     (if is_attached spec tk then (Inr (), tk, h)
      else (let body = rule_body spec
            in case fw_run cmd (tk_prefix tk) (''-A'' # body) True h of
                 (Inl e, h1) \<Rightarrow> (Inl e, tk, h1)
               | (Inr _, h1) \<Rightarrow>
                   (let tk1 = tk\<lparr>tk_rules := dict_set spec (''-D'' # body) (tk_rules tk)\<rparr>
                    in case fw_run cmd (tk_prefix tk) (''-C'' # body) False h1 of
                         (Inl e, h2) \<Rightarrow> (Inl e, tk1, h2)
                       | (Inr rc, h2) \<Rightarrow>
                           if rc = 0 then (Inr (), tk1, h2)
                           else (Inl (IptablesError (''iptables -C NFQUEUE/'' @ str_int (rs_queue spec) @ '' failed after -A'')),
                                 tk1\<lparr>tk_rules := dict_del spec (tk_rules tk1)\<rparr>, h2))))"

definition attach :: "'h cmd \<Rightarrow> RuleSpec \<Rightarrow> IptablesTracker \<Rightarrow> 'h \<Rightarrow> 'h fw_result" where
  "attach cmd spec tk h =
     (if tk_dirty tk
      then (case detach cmd tk h of
              (Inl e, tk', h') \<Rightarrow> (Inl e, tk', h')
            | (Inr _, tk', h') \<Rightarrow> attach_clean cmd spec (tk'\<lparr>tk_dirty := False\<rparr>) h')
      else attach_clean cmd spec tk h)"

definition tcp_rule :: "int \<Rightarrow> int \<Rightarrow> string option \<Rightarrow> RuleSpec" where
  "tcp_rule port qnum dst =
     \<lparr>rs_proto = ''tcp'', rs_dport = str_int port, rs_queue = qnum, rs_multiport = False, rs_bypass = True, rs_dst_ip = dst\<rparr>"

definition prepare_tcp :: "'h cmd \<Rightarrow> int \<Rightarrow> int \<Rightarrow> string option \<Rightarrow> IptablesTracker \<Rightarrow> 'h \<Rightarrow> 'h fw_result" where
  "prepare_tcp cmd port qnum dst tk h = attach cmd (tcp_rule port qnum dst) tk h"

definition udp_rule :: "string \<Rightarrow> int \<Rightarrow> int option \<Rightarrow> RuleSpec" where
  "udp_rule ports qnum voice_port =
     \<lparr>rs_proto = ''udp'', rs_dport = (case voice_port of Some p \<Rightarrow> str_int p | None \<Rightarrow> ports), rs_queue = qnum,
      rs_multiport = False, rs_bypass = True, rs_dst_ip = None\<rparr>"

definition prepare_udp :: "'h cmd \<Rightarrow> string \<Rightarrow> int \<Rightarrow> int option \<Rightarrow> IptablesTracker \<Rightarrow> 'h \<Rightarrow> 'h fw_result" where
  "prepare_udp cmd ports qnum voice_port tk h = attach cmd (udp_rule ports qnum voice_port) tk h"

section \<open>The registry of namespaces\<close>

type_synonym fw_registry = "(string, IptablesTracker) dict"

definition get_ns_firewall :: "string \<Rightarrow> fw_registry \<Rightarrow> IptablesTracker \<times> fw_registry" where
  "get_ns_firewall ns_name reg =
     (case dict_get reg ns_name of
        Some fw \<Rightarrow> (fw, reg)
      | None \<Rightarrow> (let fw = new_tracker (ns_prefix ns_name) in (fw, dict_set ns_name fw reg)))"

definition mark_ns_dirty :: "string \<Rightarrow> fw_registry \<Rightarrow> fw_registry" where
  "mark_ns_dirty ns_name reg =
     (case dict_get reg ns_name of None \<Rightarrow> reg | Some fw \<Rightarrow> dict_set ns_name (mark_dirty fw) reg)"

definition drop_ns_firewall :: "'h cmd \<Rightarrow> string \<Rightarrow> fw_registry \<Rightarrow> 'h \<Rightarrow> (fw_error + unit) \<times> fw_registry \<times> 'h" where
  "drop_ns_firewall cmd ns_name reg h =
     (case dict_get reg ns_name of
        None \<Rightarrow> (Inr (), reg, h)
      | Some fw \<Rightarrow> (case detach cmd fw h of (r, _, h') \<Rightarrow> (r, dict_del ns_name reg, h')))"

section \<open>What iptables promises\<close>

text \<open>
  The documented behaviour of iptables on the chain of one namespace: appending, deleting (the first rule
  that matches) and checking do what their exit status says; after a timeout the command was or was not
  carried out; a command that was not run changes nothing.
\<close>

definition ends_as :: "cmd_outcome \<Rightarrow> 'c \<Rightarrow> 'c \<Rightarrow> 'c \<Rightarrow> bool" where
  "ends_as r old new c =
     (case r of
        Completed rc out err \<Rightarrow> if rc = 0 then c = new else c = old
      | TimedOut \<Rightarrow> c = old \<or> c = new
      | NotRun e \<Rightarrow> c = old)"

definition honest :: "'h cmd \<Rightarrow> string list \<Rightarrow> ('h \<Rightarrow> string list list) \<Rightarrow> bool" where
  "honest cmd pre chain \<longleftrightarrow>
     (\<forall>body h r h'. cmd (pre @ ''-A'' # body) h = (r, h') \<longrightarrow> ends_as r (chain h) (chain h @ [body]) (chain h')) \<and>
     (\<forall>body h r h'. cmd (pre @ ''-D'' # body) h = (r, h') \<longrightarrow> ends_as r (chain h) (remove1 body (chain h)) (chain h')) \<and>
     (\<forall>body h r h'. cmd (pre @ ''-C'' # body) h = (r, h') \<longrightarrow> chain h' = chain h)"

text \<open>No command times out.\<close>

definition prompt :: "'h cmd \<Rightarrow> bool" where
  "prompt cmd \<longleftrightarrow> (\<forall>args h. fst (cmd args h) \<noteq> TimedOut)"

text \<open>Every command is run, a rule that is there can be deleted, and one that was added is found.\<close>

definition reliable :: "'h cmd \<Rightarrow> string list \<Rightarrow> ('h \<Rightarrow> string list list) \<Rightarrow> bool" where
  "reliable cmd pre chain \<longleftrightarrow>
     (\<forall>args h. \<exists>rc out err h'. cmd args h = (Completed rc out err, h')) \<and>
     (\<forall>body h. body \<in> set (chain h) \<longrightarrow> (\<exists>out err h'. cmd (pre @ ''-D'' # body) h = (Completed 0 out err, h'))) \<and>
     (\<forall>body h. body \<in> set (chain h) \<longrightarrow> (\<exists>out err h'. cmd (pre @ ''-C'' # body) h = (Completed 0 out err, h')))"

section \<open>Rules are accounted for\<close>

definition tracked :: "IptablesTracker \<Rightarrow> string list multiset" where
  "tracked tk = mset (map (rule_body \<circ> fst) (tk_rules tk))"

definition tracker_ok :: "string list \<Rightarrow> IptablesTracker \<Rightarrow> bool" where
  "tracker_ok pre tk \<longleftrightarrow> tk_prefix tk = pre \<and> distinct (dict_keys (tk_rules tk)) \<and>
     (\<forall>(spec, args) \<in> set (tk_rules tk). args = ''-D'' # rule_body spec)"

text \<open>The chain holds the rules of others and the tracked ones; \<open>exact\<close> also says that it holds nothing else.\<close>

definition chain_ok :: "bool \<Rightarrow> string list multiset \<Rightarrow> IptablesTracker \<Rightarrow> string list list \<Rightarrow> bool" where
  "chain_ok exact foreign tk c \<longleftrightarrow> foreign + tracked tk \<subseteq># mset c \<and> (exact \<longrightarrow> mset c = foreign + tracked tk)"

lemma tracked_add: "\<not> is_attached spec tk \<Longrightarrow> tracked (tk\<lparr>tk_rules := dict_set spec args (tk_rules tk)\<rparr>) = add_mset (rule_body spec) (tracked tk)"
  by (simp add: tracked_def is_attached_def update_new)

lemma mset_delete:
  "distinct (map fst d) \<Longrightarrow> map_of d k = Some v \<Longrightarrow> mset d = add_mset (k, v) (mset (AList.delete k d))"
proof (induction d)
  case (Cons kv d)
  obtain k' v' where kv: "kv = (k', v')" by (cases kv)
  show ?case
  proof (cases "k' = k")
    case True
    then have "k \<notin> fst ` set d" "v' = v" using Cons.prems kv by auto
    then show ?thesis using True kv by (simp add: AList.delete_idem)
  next
    case False
    then show ?thesis using Cons kv by simp
  qed
qed simp

lemma tracked_delete:
  assumes "tracker_ok pre tk" and "dict_get (tk_rules tk) spec = Some args"
  shows "tracked tk = add_mset (rule_body spec) (tracked (tk\<lparr>tk_rules := dict_del spec (tk_rules tk)\<rparr>))"
    "tracker_ok pre (tk\<lparr>tk_rules := dict_del spec (tk_rules tk)\<rparr>)" "args = ''-D'' # rule_body spec"
proof -
  have "mset (tk_rules tk) = add_mset (spec, args) (mset (dict_del spec (tk_rules tk)))"
    using assms by (intro mset_delete) (auto simp: tracker_ok_def)
  then show "tracked tk = add_mset (rule_body spec) (tracked (tk\<lparr>tk_rules := dict_del spec (tk_rules tk)\<rparr>))"
    by (simp add: tracked_def)
  show "tracker_ok pre (tk\<lparr>tk_rules := dict_del spec (tk_rules tk)\<rparr>)"
    using assms(1) by (auto simp: tracker_ok_def AList.delete_eq distinct_map_filter)
  show "args = ''-D'' # rule_body spec"
    using assms by (auto simp: tracker_ok_def dest: map_of_SomeD)
qed

lemma tracker_ok_add:
  "tracker_ok pre tk \<Longrightarrow> \<not> is_attached spec tk \<Longrightarrow>
   tracker_ok pre (tk\<lparr>tk_rules := dict_set spec (''-D'' # rule_body spec) (tk_rules tk)\<rparr>)"
  by (auto simp: tracker_ok_def is_attached_def update_new)

text \<open>One command and the chain.\<close>

lemma run_append:
  assumes "honest cmd pre chain" and "prompt cmd" and "fw_run cmd pre (''-A'' # body) True h = (r, h')"
  shows "chain h' = (case r of Inl e \<Rightarrow> chain h | Inr rc \<Rightarrow> chain h @ [body])"
proof -
  obtain o' where o: "cmd (pre @ ''-A'' # body) h = (o', h')"
    using assms(3) by (auto simp: fw_run_def split: prod.splits cmd_outcome.splits if_splits)
  then have "ends_as o' (chain h) (chain h @ [body]) (chain h')" "o' \<noteq> TimedOut"
    using assms(1,2) unfolding honest_def prompt_def by (blast, metis fst_conv)
  then show ?thesis
    using assms(3) o by (cases o') (auto simp: fw_run_def ends_as_def split: if_splits)
qed

lemma run_delete:
  assumes "honest cmd pre chain" and "prompt cmd" and "fw_run cmd pre (''-D'' # body) False h = (r, h')"
  shows "chain h' = chain h \<or> chain h' = remove1 body (chain h)" "\<forall>m. r \<noteq> Inl (FwTimeout m) \<and> r \<noteq> Inl (IptablesError m)"
    "reliable cmd pre chain \<Longrightarrow> body \<in> set (chain h) \<Longrightarrow> chain h' = remove1 body (chain h)"
proof -
  obtain o' where o: "cmd (pre @ ''-D'' # body) h = (o', h')"
    using assms(3) by (auto simp: fw_run_def split: prod.splits cmd_outcome.splits if_splits)
  then have e: "ends_as o' (chain h) (remove1 body (chain h)) (chain h')" and t: "o' \<noteq> TimedOut"
    using assms(1,2) unfolding honest_def prompt_def by (blast, metis fst_conv)
  show "chain h' = chain h \<or> chain h' = remove1 body (chain h)"
    using e by (cases o') (auto simp: ends_as_def split: if_splits)
  show "\<forall>m. r \<noteq> Inl (FwTimeout m) \<and> r \<noteq> Inl (IptablesError m)"
    using assms(3) o t by (cases o') (auto simp: fw_run_def)
  show "chain h' = remove1 body (chain h)" if "reliable cmd pre chain" "body \<in> set (chain h)"
  proof -
    have "\<exists>out err h''. cmd (pre @ ''-D'' # body) h = (Completed 0 out err, h'')"
      using that unfolding reliable_def by blast
    then obtain out err where "o' = Completed 0 out err" using o by auto
    then show ?thesis using e by (simp add: ends_as_def)
  qed
qed

lemma run_check:
  assumes "honest cmd pre chain" and "fw_run cmd pre (''-C'' # body) False h = (r, h')"
  shows "chain h' = chain h" "reliable cmd pre chain \<Longrightarrow> body \<in> set (chain h) \<Longrightarrow> r = Inr 0"
proof -
  obtain o' where o: "cmd (pre @ ''-C'' # body) h = (o', h')"
    using assms(2) by (auto simp: fw_run_def split: prod.splits cmd_outcome.splits if_splits)
  then show "chain h' = chain h" using assms(1) unfolding honest_def by blast
  show "r = Inr 0" if "reliable cmd pre chain" "body \<in> set (chain h)"
  proof -
    have "\<exists>out err h''. cmd (pre @ ''-C'' # body) h = (Completed 0 out err, h'')"
      using that unfolding reliable_def by blast
    then obtain out err where "o' = Completed 0 out err" using o by auto
    then show ?thesis using assms(2) o by (simp add: fw_run_def)
  qed
qed

text \<open>Deleting a tracked rule.\<close>

lemma chain_delete:
  assumes "foreign + add_mset body rest \<subseteq># mset c" and "c' = c \<or> c' = remove1 body c"
    and "exact \<Longrightarrow> mset c = foreign + add_mset body rest" and "exact \<Longrightarrow> c' = remove1 body c"
  shows "foreign + rest \<subseteq># mset c' \<and> (exact \<longrightarrow> mset c' = foreign + rest)"
proof -
  have "foreign + rest \<subseteq># mset c - {#body#}"
    using assms(1) by (simp add: insert_subset_eq_iff)
  then show ?thesis
    using assms(2-4) by (auto intro: subset_mset.order_trans diff_subset_eq_self)
qed

lemma delete_rules_ok:
  assumes "honest cmd pre chain" and "prompt cmd" and "exact \<Longrightarrow> reliable cmd pre chain"
    and "foreign + mset bodies \<subseteq># mset (chain h)" and "exact \<longrightarrow> mset (chain h) = foreign + mset bodies"
    and "delete_rules cmd pre (map ((#) ''-D'') bodies) h = (r, h')"
  shows "r = Inr () \<and> foreign \<subseteq># mset (chain h') \<and> (exact \<longrightarrow> mset (chain h') = foreign)"
  using assms(4-6)
proof (induction bodies arbitrary: h)
  case (Cons body bodies)
  obtain q h1 where run: "fw_run cmd pre (''-D'' # body) False h = (q, h1)" by fastforce
  note del = run_delete [OF assms(1,2) run]
  have body: "body \<in> set (chain h)"
    using Cons.prems(1) by (metis insert_subset_eq_iff mset.simps(2) set_mset_mset union_mset_add_mset_right)
  have step: "foreign + mset bodies \<subseteq># mset (chain h1) \<and> (exact \<longrightarrow> mset (chain h1) = foreign + mset bodies)"
    by (rule chain_delete [where body = body and c = "chain h"]) (use Cons.prems del body assms(3) in auto)
  have "delete_rules cmd pre (map ((#) ''-D'') bodies) h1 = (r, h')"
    using Cons.prems(3) run del(2) by (cases q) (auto split: fw_error.splits)
  then show ?case using Cons.IH step by blast
qed auto

lemma tracked_bodies:
  "tracker_ok pre tk \<Longrightarrow> rev (map snd (tk_rules tk)) = map ((#) ''-D'') (rev (map (rule_body \<circ> fst) (tk_rules tk)))"
  by (auto simp: tracker_ok_def rev_map intro: map_cong)

lemma detach_ok:
  assumes "honest cmd pre chain" and "prompt cmd" and "exact \<Longrightarrow> reliable cmd pre chain"
    and ok: "tracker_ok pre tk" and "chain_ok exact foreign tk (chain h)" and "detach cmd tk h = (r, tk', h')"
  shows "r = Inr () \<and> tk' = tk\<lparr>tk_rules := []\<rparr> \<and> tracker_ok pre tk' \<and> chain_ok exact foreign tk' (chain h')"
proof -
  let ?bodies = "rev (map (rule_body \<circ> fst) (tk_rules tk))"
  obtain q h1 where run: "delete_rules cmd pre (map ((#) ''-D'') ?bodies) h = (q, h1)" by fastforce
  have "mset ?bodies = tracked tk" by (simp add: tracked_def)
  then have "q = Inr () \<and> foreign \<subseteq># mset (chain h1) \<and> (exact \<longrightarrow> mset (chain h1) = foreign)"
    using delete_rules_ok [of cmd pre chain exact foreign ?bodies h q h1, OF assms(1-3) _ _ run] assms(5)
    by (auto simp: chain_ok_def)
  then show ?thesis
    using assms(6) run ok tracked_bodies [OF ok]
    by (auto simp: detach_def tracker_ok_def chain_ok_def tracked_def)
qed

lemma detach_one_ok:
  assumes "honest cmd pre chain" and "prompt cmd" and "exact \<Longrightarrow> reliable cmd pre chain"
    and ok: "tracker_ok pre tk" and c: "chain_ok exact foreign tk (chain h)" and "detach_one cmd spec tk h = (r, tk', h')"
  shows "r = Inr () \<and> tracker_ok pre tk' \<and> chain_ok exact foreign tk' (chain h')"
proof (cases "dict_get (tk_rules tk) spec")
  case (Some args)
  note del = tracked_delete [OF ok Some]
  obtain q h1 where run: "fw_run cmd pre (''-D'' # rule_body spec) False h = (q, h1)" by fastforce
  note rd = run_delete [OF assms(1,2) run]
  let ?tk = "tk\<lparr>tk_rules := dict_del spec (tk_rules tk)\<rparr>"
  have body: "rule_body spec \<in> set (chain h)"
    using c del(1) by (metis chain_ok_def insert_subset_eq_iff set_mset_mset union_mset_add_mset_right)
  have "foreign + tracked ?tk \<subseteq># mset (chain h1) \<and> (exact \<longrightarrow> mset (chain h1) = foreign + tracked ?tk)"
    by (rule chain_delete [where body = "rule_body spec" and c = "chain h"]) (use c rd body assms(3) del(1) in \<open>auto simp: chain_ok_def\<close>)
  moreover have "(r, tk', h') = (Inr (), ?tk, h1)"
    using assms(6) run rd(2) Some ok del(3)
    by (cases q) (auto simp: detach_one_def Let_def tracker_ok_def split: fw_error.splits)
  ultimately show ?thesis using del(2) by (auto simp: chain_ok_def)
qed (use assms in \<open>auto simp: detach_one_def\<close>)

lemma attach_clean_ok:
  assumes "honest cmd pre chain" and "prompt cmd" and "exact \<Longrightarrow> reliable cmd pre chain"
    and ok: "tracker_ok pre tk" and c: "chain_ok exact foreign tk (chain h)" and op: "attach_clean cmd spec tk h = (r, tk', h')"
  shows "tracker_ok pre tk' \<and> chain_ok exact foreign tk' (chain h') \<and> (r = Inr () \<longrightarrow> is_attached spec tk')"
proof (cases "is_attached spec tk")
  case True
  then show ?thesis using assms by (auto simp: attach_clean_def)
next
  case False
  let ?body = "rule_body spec" let ?tk = "tk\<lparr>tk_rules := dict_set spec (''-D'' # ?body) (tk_rules tk)\<rparr>"
  obtain q h1 where run: "fw_run cmd pre (''-A'' # ?body) True h = (q, h1)" by fastforce
  note ra = run_append [OF assms(1,2) run]
  have pre: "tk_prefix tk = pre" using ok by (simp add: tracker_ok_def)
  show ?thesis
  proof (cases q)
    case (Inl e)
    then show ?thesis using op run ra ok c False pre by (auto simp: attach_clean_def Let_def)
  next
    case (Inr rc)
    obtain w h2 where check: "fw_run cmd pre (''-C'' # ?body) False h1 = (w, h2)" by fastforce
    note rc = run_check [OF assms(1) check]
    have add: "chain h2 = chain h @ [?body]" using ra Inr rc(1) by simp
    have ok1: "tracker_ok pre ?tk" and tr: "tracked ?tk = add_mset ?body (tracked tk)"
      using tracker_ok_add [OF ok False] tracked_add [OF False] by simp_all
    have c1: "chain_ok exact foreign ?tk (chain h2)" using c add tr by (simp add: chain_ok_def)
    have att: "is_attached spec ?tk"
      using keys_update [of spec "''-D'' # ?body" "tk_rules tk"] by (simp add: is_attached_def)
    show ?thesis
    proof (cases "w = Inr 0 \<or> isl w")
      case True
      then have "(tk', h') = (?tk, h2)"
        using op run check Inr False pre by (auto simp: attach_clean_def Let_def isl_def)
      then show ?thesis using ok1 c1 att by simp
    next
      case bad: False
      then obtain n where w: "w = Inr n" "n \<noteq> 0" by (cases w) auto
      then have "\<not> exact" using rc(2) assms(3) add rc(1) by auto
      moreover have "dict_get (tk_rules ?tk) spec = Some (''-D'' # ?body)" by (simp add: map_of_update')
      note del = tracked_delete [OF ok1 this]
      have "isl r \<and> (tk', h') = (?tk\<lparr>tk_rules := dict_del spec (tk_rules ?tk)\<rparr>, h2)"
        using op run check Inr False w pre by (auto simp: attach_clean_def Let_def)
      ultimately show ?thesis
        using del(1,2) tr c add by (auto simp: chain_ok_def intro: subset_mset.order_trans)
    qed
  qed
qed

section \<open>Sequences of operations\<close>

datatype fw_op = FwAttach RuleSpec | FwDetachOne RuleSpec | FwDetach | FwMarkDirty

fun fw_step :: "'h cmd \<Rightarrow> fw_op \<Rightarrow> IptablesTracker \<Rightarrow> 'h \<Rightarrow> 'h fw_result" where
  "fw_step cmd (FwAttach spec) tk h = attach cmd spec tk h"
| "fw_step cmd (FwDetachOne spec) tk h = detach_one cmd spec tk h"
| "fw_step cmd FwDetach tk h = detach cmd tk h"
| "fw_step cmd FwMarkDirty tk h = (Inr (), mark_dirty tk, h)"

text \<open>The operations in their order; an operation that fails leaves the tracker and the host as they are then.\<close>

fun fw_steps :: "'h cmd \<Rightarrow> fw_op list \<Rightarrow> IptablesTracker \<Rightarrow> 'h \<Rightarrow> IptablesTracker \<times> 'h" where
  "fw_steps cmd [] tk h = (tk, h)"
| "fw_steps cmd (x # xs) tk h = (case fw_step cmd x tk h of (r, tk', h') \<Rightarrow> fw_steps cmd xs tk' h')"

lemma dirty_irrelevant [simp]:
  "tracker_ok pre (tk\<lparr>tk_dirty := b\<rparr>) = tracker_ok pre tk" "chain_ok exact foreign (tk\<lparr>tk_dirty := b\<rparr>) c = chain_ok exact foreign tk c"
  by (simp_all add: tracker_ok_def chain_ok_def tracked_def)

lemma attach_ok:
  assumes "honest cmd pre chain" and "prompt cmd" and "exact \<Longrightarrow> reliable cmd pre chain"
    and "tracker_ok pre tk" and "chain_ok exact foreign tk (chain h)" and op: "attach cmd spec tk h = (r, tk', h')"
  shows "tracker_ok pre tk' \<and> chain_ok exact foreign tk' (chain h')"
proof (cases "tk_dirty tk")
  case True
  obtain q tk1 h1 where d: "detach cmd tk h = (q, tk1, h1)" by (cases "detach cmd tk h") auto
  have ok: "q = Inr ()" "tracker_ok pre tk1" "chain_ok exact foreign tk1 (chain h1)"
    using detach_ok [of cmd pre chain exact tk foreign h q tk1 h1, OF assms(1-5) d] by blast+
  then have "attach_clean cmd spec (tk1\<lparr>tk_dirty := False\<rparr>) h1 = (r, tk', h')"
    using op d True by (auto simp: attach_def)
  then show ?thesis
    using attach_clean_ok [of cmd pre chain exact "tk1\<lparr>tk_dirty := False\<rparr>" foreign h1 spec r tk' h', OF assms(1-3)] ok by simp
next
  case False
  then show ?thesis
    using attach_clean_ok [of cmd pre chain exact tk foreign h spec r tk' h', OF assms(1-5)] op by (simp add: attach_def)
qed

lemma fw_step_ok:
  assumes "honest cmd pre chain" and "prompt cmd" and "exact \<Longrightarrow> reliable cmd pre chain"
    and "tracker_ok pre tk" and "chain_ok exact foreign tk (chain h)" and "fw_step cmd x tk h = (r, tk', h')"
  shows "tracker_ok pre tk' \<and> chain_ok exact foreign tk' (chain h')"
  using assms attach_ok [OF assms(1-5)] detach_one_ok [OF assms(1-5)] detach_ok [OF assms(1-5)]
  by (cases x) (auto simp: mark_dirty_def)

lemma fw_steps_ok:
  assumes "honest cmd pre chain" and "prompt cmd" and "exact \<Longrightarrow> reliable cmd pre chain"
    and "tracker_ok pre tk" and "chain_ok exact foreign tk (chain h)" and "fw_steps cmd xs tk h = (tk', h')"
  shows "tracker_ok pre tk' \<and> chain_ok exact foreign tk' (chain h')"
  using assms(4-6)
proof (induction xs arbitrary: tk h)
  case (Cons x xs)
  obtain r tk1 h1 where step: "fw_step cmd x tk h = (r, tk1, h1)" by (cases "fw_step cmd x tk h") auto
  then show ?case
    using fw_step_ok [OF assms(1-3) Cons.prems(1,2) step] Cons.IH [of tk1 h1] Cons.prems(3) by simp
qed simp


text \<open>An iptables whose host is the chain of one namespace; deleting a rule of the second argument times out.\<close>

definition chain_cmd :: "string list \<Rightarrow> string list list \<Rightarrow> string list list cmd" where
  "chain_cmd pre stuck args c =
     (case drop (length pre) args of
        [] \<Rightarrow> (Completed 2 [] ''no command'', c)
      | opt # body \<Rightarrow>
          if opt = ''-A'' then (Completed 0 [] [], c @ [body])
          else if opt = ''-D'' then
            (if body \<in> set stuck then (TimedOut, c)
             else if body \<in> set c then (Completed 0 [] [], remove1 body c) else (Completed 1 [] ''no such rule'', c))
          else if opt = ''-C'' then (Completed (if body \<in> set c then 0 else 1) [] [], c)
          else (Completed 2 [] ''unknown option'', c))"

lemma chain_cmd_honest: "honest (chain_cmd pre stuck) pre id"
  by (auto simp: honest_def chain_cmd_def ends_as_def remove1_idem split: if_splits)

lemma chain_cmd_reliable: "prompt (chain_cmd pre [])" "reliable (chain_cmd pre []) pre id"
  by (auto simp: prompt_def reliable_def chain_cmd_def split: list.splits)


text \<open>
  The timeout of one deletion escapes from \<open>detach\<close> although the handler means to go on: the rules deleted
  before it stay tracked. A later attach of such a rule returns without adding it, and traffic bypasses
  the queue.
\<close>

lemma detach_timeout_escapes:
  "let tcp = tcp_rule 443 200 None; udp = udp_rule ''443'' 201 None; cmd = chain_cmd host_prefix [rule_body tcp];
       (tk, c) = fw_steps cmd [FwAttach tcp, FwAttach udp] (new_tracker host_prefix) [];
       (r, tk1, c1) = detach cmd tk c; (q, tk2, c2) = attach cmd udp tk1 c1
   in isl r \<and> \<not> isl q \<and> is_attached udp tk2 \<and> rule_body udp \<notin> set c2"
  by code_simp

text \<open>A rule that was added but is not found by the check is no longer tracked and stays in the chain.\<close>

definition blind_cmd :: "string list \<Rightarrow> string list list cmd" where
  "blind_cmd pre args c =
     (if take 1 (drop (length pre) args) = [''-C''] then (Completed 1 [] [], c) else chain_cmd pre [] args c)"

lemma unverified_rule_leaks:
  "let tcp = tcp_rule 443 200 None; (r, tk, c) = attach (blind_cmd host_prefix) tcp (new_tracker host_prefix) [];
       (q, tk1, c1) = detach (blind_cmd host_prefix) tk c
   in isl r \<and> \<not> isl q \<and> rule_body tcp \<in> set c1"
  by code_simp

end
