(* ===== verification/NetnsPool.thy ===== *)
theory NetnsPool
  imports Metrics NsFirewall LuaBridge
begin

text \<open>
  \<^verbatim>\<open>service/netns_pool.py\<close>: the pool of network namespaces, with the bookkeeping that it shares with other
  pools of the process: the saved forwarding switch, the number of live namespaces, the epochs of the
  namespaces and the firewalls. Running a command, reading the switch and signalling processes act on the
  state of the host, which is a parameter; so is the digest of \<^verbatim>\<open>hashlib\<close>. Of a worker process only its
  entry in the table of workers is kept.
\<close>

section \<open>State\<close>

datatype pool_error =
    SudoAuthFailed "string list"
  | CommandFailed "string list" string
  | ResolvConfFailed string
  | PoolOsError string
  | FirewallError fw_error
  | PoolValueError string

record 'h net_env =
  ne_cmd :: "'h cmd"
  ne_tee :: "string list \<Rightarrow> string \<Rightarrow> 'h \<Rightarrow> cmd_outcome \<times> 'h"
  ne_proc :: "'h \<Rightarrow> proc_env"
  ne_signal :: "int list \<Rightarrow> 'h \<Rightarrow> 'h"
  ne_ip_forward :: "'h \<Rightarrow> string option"
  ne_write_marker :: "string \<Rightarrow> 'h \<Rightarrow> 'h"
  ne_clear_marker :: "'h \<Rightarrow> 'h"
  ne_digest :: "string \<Rightarrow> string"
  ne_nameserver :: string

record 'h net_world =
  nw_host :: 'h
  nw_restore :: "string option"
  nw_active :: int
  nw_epochs :: "(string, int) dict"
  nw_workers :: "(string \<times> string \<times> int) list"
  nw_firewalls :: fw_registry
  nw_bridges :: "string \<Rightarrow> bridge_fs"

text \<open>The queue is absent until it is first needed.\<close>

record NetNsPool =
  np_size :: int
  np_base :: string
  np_queue :: "string list option"
  np_created :: bool
  np_names :: "string list"
  np_iface :: string

type_synonym 'h state = "NetNsPool \<times> 'h net_world"
type_synonym ('h, 'a) act = "'h state \<Rightarrow> (pool_error + 'a) \<times> 'h state"

definition act_bind :: "('h, 'a) act \<Rightarrow> ('a \<Rightarrow> ('h, 'b) act) \<Rightarrow> ('h, 'b) act" where
  "act_bind m k st = (case m st of (Inl e, st') \<Rightarrow> (Inl e, st') | (Inr x, st') \<Rightarrow> k x st')"

definition act_return :: "'a \<Rightarrow> ('h, 'a) act" where
  "act_return x st = (Inr x, st)"

text \<open>\<open>try: m except Exception: log\<close>\<close>

definition act_logged :: "('h, 'a) act \<Rightarrow> ('h, 'a option) act" where
  "act_logged m st = (case m st of (Inl e, st') \<Rightarrow> (Inr None, st') | (Inr x, st') \<Rightarrow> (Inr (Some x), st'))"

text \<open>\<open>try: m finally: k\<close>; an exception of \<open>k\<close> replaces what \<open>m\<close> gave.\<close>

definition act_finally :: "('h, 'a) act \<Rightarrow> ('h, unit) act \<Rightarrow> ('h, 'a) act" where
  "act_finally m k st = (case m st of (r, st') \<Rightarrow> (case k st' of (Inl e, st'') \<Rightarrow> (Inl e, st'') | (Inr _, st'') \<Rightarrow> (r, st'')))"

definition on_host :: "('h \<Rightarrow> 'h) \<Rightarrow> ('h, unit) act" where
  "on_host f st = (Inr (), fst st, (snd st)\<lparr>nw_host := f (nw_host (snd st))\<rparr>)"

definition on_world :: "('h net_world \<Rightarrow> 'h net_world) \<Rightarrow> ('h, unit) act" where
  "on_world f st = (Inr (), fst st, f (snd st))"

definition on_pool :: "(NetNsPool \<Rightarrow> NetNsPool) \<Rightarrow> ('h, unit) act" where
  "on_pool f st = (Inr (), f (fst st), snd st)"

definition NETNS_BASE_RE :: re where
  "NETNS_BASE_RE = rseqs [RStart, rplus (\<lambda>c. is_ident c \<or> c = CHR ''-''), REnd]"

definition new_pool :: "int \<Rightarrow> string \<Rightarrow> pool_error + NetNsPool" where
  "new_pool n base =
     (if re_run NETNS_BASE_RE ([], base) = [] then Inl (PoolValueError (''invalid netns base '' @ base))
      else Inr \<lparr>np_size = n, np_base = base, np_queue = None, np_created = False, np_names = [], np_iface = []\<rparr>)"

section \<open>Commands\<close>

definition SUDO_AUTH_MARKERS :: "string list" where
  "SUDO_AUTH_MARKERS = [''password is required'', ''a terminal is required'']"

definition auth_failed :: "int \<times> string \<times> string \<Rightarrow> bool" where
  "auth_failed r = (case r of (rc, out, err) \<Rightarrow> rc \<noteq> 0 \<and> list_ex (\<lambda>m. contains m (lower err)) SUDO_AUTH_MARKERS)"

text \<open>A command that hangs is a failed one.\<close>

definition completed :: "string list \<Rightarrow> cmd_outcome \<Rightarrow> (int \<times> string \<times> string) + string" where
  "completed args r =
     (case r of
        Completed rc out err \<Rightarrow> Inl (rc, out, err)
      | TimedOut \<Rightarrow> Inl (- 1, [], ''timeout after 15s: '' @ join_with '' '' args)
      | NotRun e \<Rightarrow> Inr e)"

definition pool_run :: "'h net_env \<Rightarrow> bool \<Rightarrow> string list \<Rightarrow> ('h, int \<times> string \<times> string) act" where
  "pool_run env check args st =
     (case ne_cmd env ([''sudo'', ''-n''] @ args) (nw_host (snd st)) of
        (o1, h') \<Rightarrow>
          (let st' = (fst st, (snd st)\<lparr>nw_host := h'\<rparr>)
           in case completed args o1 of
                Inr e \<Rightarrow> (Inl (PoolOsError e), st')
              | Inl r \<Rightarrow>
                  if auth_failed r then (Inl (SudoAuthFailed args), st')
                  else if check \<and> fst r \<noteq> 0 then (Inl (CommandFailed args (snd (snd r))), st')
                  else (Inr r, st')))"

text \<open>Commands one after the other; the flag tells whether a failure is an error.\<close>

fun run_all :: "'h net_env \<Rightarrow> (bool \<times> string list) list \<Rightarrow> ('h, unit) act" where
  "run_all env [] = act_return ()"
| "run_all env (c # cs) = act_bind (pool_run env (fst c) (snd c)) (\<lambda>_. run_all env cs)"

section \<open>The forwarding switch\<close>

definition SYSCTL_ON :: "string list" where
  "SYSCTL_ON = [''sysctl'', ''-w'', ''net.ipv4.ip_forward=1'']"

definition enable_ip_forward :: "'h net_env \<Rightarrow> ('h, unit) act" where
  "enable_ip_forward env st =
     (case ne_ip_forward env (nw_host (snd st)) of
        None \<Rightarrow> (Inr (), st)
      | Some cur \<Rightarrow>
          if cur = ''1'' then (Inr (), st)
          else act_bind
                 (if nw_restore (snd st) = None
                  then on_world (\<lambda>w. w\<lparr>nw_restore := Some cur, nw_host := ne_write_marker env cur (nw_host w)\<rparr>)
                  else act_return ())
                 (\<lambda>_. run_all env [(False, SYSCTL_ON)]) st)"

definition restore_if_idle :: "'h net_env \<Rightarrow> ('h, unit) act" where
  "restore_if_idle env st =
     (if 0 < nw_active (snd st) then (Inr (), st)
      else (case nw_restore (snd st) of
              None \<Rightarrow> on_host (ne_clear_marker env) st
            | Some v \<Rightarrow>
                act_bind (on_world (\<lambda>w. w\<lparr>nw_restore := None\<rparr>)) (\<lambda>_.
                act_bind (run_all env [(False, [''sysctl'', ''-w'', ''net.ipv4.ip_forward='' @ v])]) (\<lambda>_.
                on_host (ne_clear_marker env))) st))"

definition track_ns_created :: "'h net_env \<Rightarrow> ('h, unit) act" where
  "track_ns_created env st =
     act_bind (if nw_active (snd st) = 0 then enable_ip_forward env else act_return ())
       (\<lambda>_. on_world (\<lambda>w. w\<lparr>nw_active := nw_active w + 1\<rparr>)) st"

definition track_ns_destroyed :: "'h net_env \<Rightarrow> ('h, unit) act" where
  "track_ns_destroyed env =
     act_bind (on_world (\<lambda>w. w\<lparr>nw_active := max 0 (nw_active w - 1)\<rparr>)) (\<lambda>_. restore_if_idle env)"

section \<open>Names and addresses\<close>

definition BASE_CIDR :: int where "BASE_CIDR = 20"

definition veth_host :: "'h net_env \<Rightarrow> string \<Rightarrow> string" where "veth_host env name = ''vh-'' @ ne_digest env name"
definition veth_peer :: "'h net_env \<Rightarrow> string \<Rightarrow> string" where "veth_peer env name = ''vn-'' @ ne_digest env name"

definition check_veth :: "'h net_env \<Rightarrow> string \<Rightarrow> ('h, unit) act" where
  "check_veth env name st =
     (if 15 < length (veth_host env name) \<or> 15 < length (veth_peer env name)
      then (Inl (PoolValueError (''veth name too long for '' @ name)), st) else (Inr (), st))"

definition host_ip :: "int \<Rightarrow> string" where "host_ip idx = ''10.200.'' @ str_int (BASE_CIDR + idx) @ ''.1''"
definition ns_ip :: "int \<Rightarrow> string" where "ns_ip idx = ''10.200.'' @ str_int (BASE_CIDR + idx) @ ''.2''"
definition nat_subnet :: "int \<Rightarrow> string" where "nat_subnet idx = ''10.200.'' @ str_int (BASE_CIDR + idx) @ ''.0/30''"

definition ns_name_of :: "NetNsPool \<Rightarrow> int \<Rightarrow> string" where
  "ns_name_of pool idx = np_base pool @ ''-'' @ str_int idx"

text \<open>\<open>int(name.rsplit("-", 1)[-1]) if "-" in name else 0\<close>\<close>

definition ns_index :: "string \<Rightarrow> int option" where
  "ns_index name = (if CHR ''-'' \<in> set name then int_of_str (last (split_char CHR ''-'' name)) else Some 0)"

definition usable_link :: "string \<Rightarrow> string option" where
  "usable_link line =
     (case split_ws line of
        name # status # rest \<Rightarrow>
          if status \<noteq> ''UP'' \<or> name = ''lo'' \<or> CHR ''@'' \<in> set name \<or>
             list_ex (startswith name) [''veth'', ''vh-'', ''vn-''] then None
          else Some name
      | _ \<Rightarrow> None)"

text \<open>This command runs without \<^verbatim>\<open>sudo\<close> and without a time limit.\<close>

definition get_iface :: "'h net_env \<Rightarrow> ('h, string) act" where
  "get_iface env st =
     (if np_iface (fst st) \<noteq> [] then (Inr (np_iface (fst st)), st)
      else (case ne_cmd env [''ip'', ''-br'', ''link'', ''show''] (nw_host (snd st)) of
              (Completed rc out err, h') \<Rightarrow>
                (let iface = (case List.map_filter usable_link (splitlines out) of n # ns \<Rightarrow> n | [] \<Rightarrow> ''eth0'')
                 in (Inr iface, (fst st)\<lparr>np_iface := iface\<rparr>, (snd st)\<lparr>nw_host := h'\<rparr>))
            | (TimedOut, h') \<Rightarrow> (Inl (PoolOsError ''ip''), fst st, (snd st)\<lparr>nw_host := h'\<rparr>)
            | (NotRun e, h') \<Rightarrow> (Inl (PoolOsError e), fst st, (snd st)\<lparr>nw_host := h'\<rparr>)))"

section \<open>Creating one namespace\<close>

definition stale_links :: "string \<Rightarrow> string list" where
  "stale_links out =
     filter (\<lambda>n. list_ex (startswith n) [''vh-'', ''vn-'', ''veth''])
       (List.map_filter (\<lambda>line. case split_ws line of a # b # rest \<Rightarrow> Some b | _ \<Rightarrow> None) (splitlines out))"

definition clean_stale_links :: "'h net_env \<Rightarrow> string \<Rightarrow> ('h, unit) act" where
  "clean_stale_links env ip st =
     (case ne_cmd env [''ip'', ''-o'', ''-4'', ''addr'', ''show'', ''to'', ip] (nw_host (snd st)) of
        (o1, h') \<Rightarrow>
          (let st' = (fst st, (snd st)\<lparr>nw_host := h'\<rparr>)
           in case o1 of
                Completed rc out err \<Rightarrow> run_all env (map (\<lambda>n. (False, [''ip'', ''link'', ''delete'', n])) (stale_links out)) st'
              | _ \<Rightarrow> (Inl (PoolOsError ip), st')))"

definition link_commands :: "'h net_env \<Rightarrow> string \<Rightarrow> int \<Rightarrow> (bool \<times> string list) list" where
  "link_commands env name idx =
     (let vh = veth_host env name; vn = veth_peer env name; exec_in = [''ip'', ''netns'', ''exec'', name]
      in [(True, [''ip'', ''netns'', ''add'', name]),
          (True, [''ip'', ''link'', ''add'', vh, ''type'', ''veth'', ''peer'', ''name'', vn]),
          (True, [''ip'', ''link'', ''set'', vn, ''netns'', name]),
          (True, [''ip'', ''addr'', ''add'', host_ip idx @ ''/30'', ''dev'', vh]),
          (True, [''ip'', ''link'', ''set'', vh, ''up'']),
          (True, exec_in @ [''ip'', ''addr'', ''add'', ns_ip idx @ ''/30'', ''dev'', vn]),
          (True, exec_in @ [''ip'', ''link'', ''set'', vn, ''up'']),
          (True, exec_in @ [''ip'', ''link'', ''set'', ''lo'', ''up''])] @
         map (\<lambda>i. (False, exec_in @ [''sysctl'', ''-w'', ''net.ipv6.conf.'' @ i @ ''.disable_ipv6=1''])) [''all'', ''default'', vn] @
         [(True, exec_in @ [''ip'', ''route'', ''add'', ''default'', ''via'', host_ip idx]),
          (False, [''iptables'', ''-A'', ''FORWARD'', ''-i'', vh, ''-j'', ''ACCEPT'']),
          (False, [''iptables'', ''-A'', ''FORWARD'', ''-o'', vh, ''-j'', ''ACCEPT''])])"

definition nat_args :: "int \<Rightarrow> string \<Rightarrow> string list" where
  "nat_args idx out_iface = [''-s'', nat_subnet idx, ''-o'', out_iface, ''-j'', ''MASQUERADE'']"

definition add_nat :: "'h net_env \<Rightarrow> int \<Rightarrow> string \<Rightarrow> ('h, unit) act" where
  "add_nat env idx out_iface =
     act_bind (pool_run env False ([''iptables'', ''-t'', ''nat'', ''-C'', ''POSTROUTING''] @ nat_args idx out_iface)) (\<lambda>(rc, out, err).
       if rc \<noteq> 0 then run_all env [(True, [''iptables'', ''-t'', ''nat'', ''-I'', ''POSTROUTING'', ''1''] @ nat_args idx out_iface)]
       else act_return ())"

definition write_resolv :: "'h net_env \<Rightarrow> string \<Rightarrow> ('h, unit) act" where
  "write_resolv env name st =
     (case ne_tee env [''sudo'', ''-n'', ''tee'', ''/etc/netns/'' @ name @ ''/resolv.conf''] (''nameserver '' @ ne_nameserver env @ [CHR 0x0A])
             (nw_host (snd st)) of
        (o1, h') \<Rightarrow>
          (let st' = (fst st, (snd st)\<lparr>nw_host := h'\<rparr>)
           in case o1 of
                Completed rc out err \<Rightarrow>
                  if auth_failed (rc, out, err) then (Inl (SudoAuthFailed [''tee'', ''/etc/netns/'' @ name @ ''/resolv.conf'']), st')
                  else if rc \<noteq> 0 then (Inl (ResolvConfFailed (take 200 err)), st') else (Inr (), st')
              | _ \<Rightarrow> (Inl (PoolOsError ''tee''), st')))"

definition bump_ns_epoch :: "string \<Rightarrow> 'h net_world \<Rightarrow> 'h net_world" where
  "bump_ns_epoch name w = w\<lparr>nw_epochs := dict_set name (dict_getd (nw_epochs w) name 0 + 1) (nw_epochs w)\<rparr>"

definition create_one :: "'h net_env \<Rightarrow> int \<Rightarrow> ('h, string) act" where
  "create_one env idx st =
     (let name = ns_name_of (fst st) idx
      in act_bind (check_veth env name) (\<lambda>_.
         act_bind (get_iface env) (\<lambda>out_iface.
         act_bind (run_all env [(False, [''ip'', ''netns'', ''delete'', name]), (False, [''ip'', ''link'', ''delete'', veth_host env name])]) (\<lambda>_.
         act_bind (act_logged (clean_stale_links env (host_ip idx))) (\<lambda>_.
         act_bind (run_all env (link_commands env name idx)) (\<lambda>_.
         act_bind (add_nat env idx out_iface) (\<lambda>_.
         act_bind (run_all env [(True, [''mkdir'', ''-p'', ''/etc/netns/'' @ name])]) (\<lambda>_.
         act_bind (write_resolv env name) (\<lambda>_.
         act_bind (on_world (bump_ns_epoch name)) (\<lambda>_.
         act_bind (on_pool (\<lambda>p. p\<lparr>np_names := np_names p @ [name]\<rparr>)) (\<lambda>_.
         act_bind (track_ns_created env) (\<lambda>_.
         act_return name))))))))))) st)"

section \<open>Destroying one namespace\<close>

definition release_curl_probe_worker :: "string \<Rightarrow> 'h net_world \<Rightarrow> 'h net_world" where
  "release_curl_probe_worker name w = w\<lparr>nw_workers := filter (\<lambda>(ns, py, epoch). ns \<noteq> name) (nw_workers w)\<rparr>"

definition kill_in_ns :: "'h net_env \<Rightarrow> string \<Rightarrow> ('h, unit) act" where
  "kill_in_ns env name = on_host (\<lambda>h. ne_signal env (fst (pkill_in_ns (ne_proc env h) name)) h)"

definition drop_firewall :: "'h net_env \<Rightarrow> string \<Rightarrow> ('h, unit) act" where
  "drop_firewall env name st =
     (case drop_ns_firewall (ne_cmd env) name (nw_firewalls (snd st)) (nw_host (snd st)) of
        (r, reg, h') \<Rightarrow>
          (case r of Inl e \<Rightarrow> Inl (FirewallError e) | Inr _ \<Rightarrow> Inr (), fst st, (snd st)\<lparr>nw_firewalls := reg, nw_host := h'\<rparr>))"

definition teardown_commands :: "'h net_env \<Rightarrow> string \<Rightarrow> int \<Rightarrow> string \<Rightarrow> string list list" where
  "teardown_commands env name idx out_iface =
     [[''ip'', ''link'', ''delete'', veth_host env name],
      [''iptables'', ''-D'', ''FORWARD'', ''-i'', veth_host env name, ''-j'', ''ACCEPT''],
      [''iptables'', ''-D'', ''FORWARD'', ''-o'', veth_host env name, ''-j'', ''ACCEPT''],
      [''iptables'', ''-t'', ''nat'', ''-D'', ''POSTROUTING''] @ nat_args idx out_iface,
      [''rm'', ''-rf'', ''/etc/netns/'' @ name]]"

definition teardown :: "'h net_env \<Rightarrow> string \<Rightarrow> int \<Rightarrow> string \<Rightarrow> ('h, bool) act" where
  "teardown env name idx out_iface =
     act_bind (on_world (release_curl_probe_worker name)) (\<lambda>_.
     act_bind (kill_in_ns env name) (\<lambda>_.
     act_bind (drop_firewall env name) (\<lambda>_.
     act_bind (pool_run env False [''ip'', ''netns'', ''delete'', name]) (\<lambda>(rc, out, err).
     act_bind (run_all env (map (Pair False) (teardown_commands env name idx out_iface))) (\<lambda>_.
     act_return (rc = 0))))))"

definition destroy_one :: "'h net_env \<Rightarrow> bool \<Rightarrow> string \<Rightarrow> ('h, bool) act" where
  "destroy_one env track name st =
     (case ns_index name of
        None \<Rightarrow> (Inl (PoolValueError name), st)
      | Some idx \<Rightarrow>
          act_bind (check_veth env name) (\<lambda>_.
          act_bind (get_iface env) (\<lambda>out_iface.
          act_finally (teardown env name idx out_iface)
            (if track then track_ns_destroyed env else act_return ()))) st)"

section \<open>The pool\<close>

fun create_from :: "'h net_env \<Rightarrow> int list \<Rightarrow> string list \<Rightarrow> 'h state \<Rightarrow> (pool_error + unit) \<times> string list \<times> 'h state" where
  "create_from env [] created st = (Inr (), created, st)"
| "create_from env (i # is) created st =
     (let created' = created @ [ns_name_of (fst st) i]
      in case create_one env i st of
           (Inl e, st') \<Rightarrow> (Inl e, created', st')
         | (Inr _, st') \<Rightarrow> create_from env is created' st')"

fun rollback :: "'h net_env \<Rightarrow> string list \<Rightarrow> ('h, unit) act" where
  "rollback env [] = act_return ()"
| "rollback env (name # names) = (\<lambda>st.
     act_bind (act_logged (destroy_one env (name \<in> set (np_names (fst st))) name)) (\<lambda>_. rollback env names) st)"

definition create_all :: "'h net_env \<Rightarrow> ('h, unit) act" where
  "create_all env st =
     (if np_created (fst st) then (Inr (), st)
      else (case create_from env [0..np_size (fst st) - 1] [] st of
              (Inr _, created, st') \<Rightarrow> on_pool (\<lambda>p. p\<lparr>np_created := True\<rparr>) st'
            | (Inl e, created, st') \<Rightarrow>
                (Inl e, snd (act_bind (rollback env created) (\<lambda>_. on_pool (\<lambda>p. p\<lparr>np_names := []\<rparr>)) st'))))"

definition the_queue :: "NetNsPool \<Rightarrow> string list" where
  "the_queue p = (case np_queue p of None \<Rightarrow> [] | Some q \<Rightarrow> q)"

definition seed :: "NetNsPool \<Rightarrow> NetNsPool" where
  "seed p = p\<lparr>np_queue := Some (the_queue p @ np_names p)\<rparr>"

definition drain :: "NetNsPool \<Rightarrow> NetNsPool" where
  "drain p = p\<lparr>np_queue := map_option (\<lambda>_. []) (np_queue p)\<rparr>"

fun destroy_names :: "'h net_env \<Rightarrow> string list \<Rightarrow> ('h, nat) act" where
  "destroy_names env [] = act_return 0"
| "destroy_names env (name # names) =
     act_bind (act_logged (destroy_one env True name)) (\<lambda>ok.
     act_bind (destroy_names env names) (\<lambda>n. act_return (if ok = Some True then Suc n else n)))"

text \<open>The result is the number of namespaces that may remain.\<close>

definition destroy_all :: "'h net_env \<Rightarrow> ('h, nat) act" where
  "destroy_all env st =
     (if \<not> np_created (fst st) \<and> np_names (fst st) = [] then (Inr 0, st)
      else (let names = np_names (fst st)
            in act_bind (on_pool (\<lambda>p. p\<lparr>np_created := False\<rparr>)) (\<lambda>_.
               act_bind (destroy_names env names) (\<lambda>n.
               act_bind (on_pool (\<lambda>p. p\<lparr>np_names := []\<rparr>)) (\<lambda>_.
               act_return (length names - n)))) st))"

text \<open>\<open>acquire\<close> waits while the queue is empty; \<open>put\<close> waits while it is full.\<close>

definition acquire :: "NetNsPool \<Rightarrow> (string \<times> NetNsPool) option" where
  "acquire p = (case the_queue p of [] \<Rightarrow> None | ns # q \<Rightarrow> Some (ns, p\<lparr>np_queue := Some q\<rparr>))"

definition cleanup_ns :: "'h net_env \<Rightarrow> string \<Rightarrow> ('h, unit) act" where
  "cleanup_ns env name =
     act_bind (kill_in_ns env name) (\<lambda>_. on_world (\<lambda>w. w\<lparr>nw_bridges := (nw_bridges w)(name := fs_effect RmBase (nw_bridges w name))\<rparr>))"

definition queue_full :: "NetNsPool \<Rightarrow> bool" where
  "queue_full p = (0 < np_size p \<and> np_size p \<le> int (length (the_queue p)))"

definition release :: "'h net_env \<Rightarrow> string \<Rightarrow> ('h, unit) act" where
  "release env name = act_finally (cleanup_ns env name) (on_pool (\<lambda>p. p\<lparr>np_queue := Some (the_queue p @ [name])\<rparr>))"

end
