(* ===== verification/NetnsPoolProps.thy ===== *)
theory NetnsPoolProps
  imports NetnsPool DomainLoader
begin

text \<open>
  What the namespace pool promises: creating is all or nothing, every created namespace is accounted for
  once, the forwarding switch is put back, and no namespace is in the hands of two workers.
\<close>

section \<open>Actions that leave the bookkeeping alone\<close>

definition same_books :: "'h state \<Rightarrow> 'h state \<Rightarrow> bool" where
  "same_books st st' \<longleftrightarrow>
     np_names (fst st') = np_names (fst st) \<and> np_created (fst st') = np_created (fst st) \<and> np_size (fst st') = np_size (fst st) \<and>
     np_base (fst st') = np_base (fst st) \<and> np_queue (fst st') = np_queue (fst st) \<and>
     nw_active (snd st') = nw_active (snd st) \<and> nw_restore (snd st') = nw_restore (snd st)"

definition quiet_act :: "('h, 'a) act \<Rightarrow> bool" where
  "quiet_act m \<longleftrightarrow> (\<forall>st. same_books st (snd (m st)))"

definition total_act :: "('h, 'a) act \<Rightarrow> bool" where
  "total_act m \<longleftrightarrow> (\<forall>st. \<exists>x. fst (m st) = Inr x)"

lemma same_books_refl [simp]: "same_books st st"
  by (simp add: same_books_def)

lemma same_books_trans: "same_books st st1 \<Longrightarrow> same_books st1 st2 \<Longrightarrow> same_books st st2"
  by (simp add: same_books_def)

lemma quiet_actI: "(\<And>st r st'. m st = (r, st') \<Longrightarrow> same_books st st') \<Longrightarrow> quiet_act m"
  unfolding quiet_act_def by (metis prod.collapse)

lemma quiet_actD: "quiet_act m \<Longrightarrow> m st = (r, st') \<Longrightarrow> same_books st st'"
  unfolding quiet_act_def by (metis snd_conv)

lemma quiet_bind: "quiet_act m \<Longrightarrow> (\<And>x. quiet_act (k x)) \<Longrightarrow> quiet_act (act_bind m k)"
proof (rule quiet_actI)
  fix st r st'
  assume m: "quiet_act m" and k: "\<And>x. quiet_act (k x)" and op: "act_bind m k st = (r, st')"
  obtain q st1 where q: "m st = (q, st1)" by (cases "m st")
  show "same_books st st'"
  proof (cases q)
    case (Inr x)
    then have "k x st1 = (r, st')" using op q by (simp add: act_bind_def)
    then show ?thesis using same_books_trans [OF quiet_actD [OF m q] quiet_actD [OF k]] by blast
  qed (use op q quiet_actD [OF m q] in \<open>simp add: act_bind_def\<close>)
qed

lemma quiet_return [simp]: "quiet_act (act_return x)"
  by (simp add: quiet_act_def act_return_def)

lemma quiet_logged: "quiet_act m \<Longrightarrow> quiet_act (act_logged m)"
proof (rule quiet_actI)
  fix st r st'
  assume m: "quiet_act m" and op: "act_logged m st = (r, st')"
  obtain q st1 where q: "m st = (q, st1)" by (cases "m st")
  show "same_books st st'" using op q quiet_actD [OF m q] by (cases q) (auto simp: act_logged_def)
qed

lemma quiet_finally: "quiet_act m \<Longrightarrow> quiet_act k \<Longrightarrow> quiet_act (act_finally m k)"
proof (rule quiet_actI)
  fix st r st'
  assume m: "quiet_act m" and k: "quiet_act k" and op: "act_finally m k st = (r, st')"
  obtain q st1 where q: "m st = (q, st1)" by (cases "m st")
  obtain u st2 where u: "k st1 = (u, st2)" by (cases "k st1")
  show "same_books st st'"
    using op q u same_books_trans [OF quiet_actD [OF m q] quiet_actD [OF k u]] by (cases u) (auto simp: act_finally_def)
qed

lemma quiet_simple [simp]:
  "quiet_act (on_host f)" "quiet_act (check_veth env name)" "quiet_act (kill_in_ns env name)" "quiet_act (drop_firewall env name)"
  "quiet_act (on_world (release_curl_probe_worker name))" "quiet_act (on_world (bump_ns_epoch name))"
  "quiet_act (pool_run env c args)" "quiet_act (get_iface env)" "quiet_act (write_resolv env name)"
  by (auto simp: quiet_act_def same_books_def on_host_def check_veth_def kill_in_ns_def drop_firewall_def on_world_def
        release_curl_probe_worker_def bump_ns_epoch_def pool_run_def get_iface_def write_resolv_def Let_def
      split: prod.splits sum.splits cmd_outcome.splits)

lemma quiet_run_all [simp]: "quiet_act (run_all env cs)"
  by (induction cs) (simp_all add: quiet_bind)

lemma quiet_clean [simp]: "quiet_act (clean_stale_links env ip)"
  unfolding quiet_act_def
proof
  fix st
  have run: "same_books st' (snd (run_all env cs st'))" for cs st'
    using quiet_run_all unfolding quiet_act_def by blast
  show "same_books st (snd (clean_stale_links env ip st))"
    using run [of "(fst st, (snd st)\<lparr>nw_host := h\<rparr>)" for h]
    by (auto simp: clean_stale_links_def Let_def same_books_def split: prod.splits cmd_outcome.splits)
qed

lemma quiet_nat [simp]: "quiet_act (add_nat env idx iface)"
  unfolding add_nat_def by (rule quiet_bind) (auto split: prod.splits intro!: quiet_bind simp del: run_all.simps)

lemma quiet_teardown [simp]: "quiet_act (teardown env name idx iface)"
  unfolding teardown_def by (intro quiet_bind) (auto split: prod.splits intro!: quiet_bind)

section \<open>A host where sudo works\<close>

text \<open>Every command under \<^verbatim>\<open>sudo\<close> is run and is not refused for want of a password; the plain one is run too.\<close>

definition sudo_works :: "'h net_env \<Rightarrow> bool" where
  "sudo_works env \<longleftrightarrow>
     (\<forall>args st. \<exists>r. fst (pool_run env False args st) = Inr r) \<and>
     (\<forall>h. \<exists>rc out err. fst (ne_cmd env [''ip'', ''-br'', ''link'', ''show''] h) = Completed rc out err) \<and>
     (\<forall>name. length (ne_digest env name) = 8)"

lemma total_actI: "(\<And>st. \<exists>x st'. m st = (Inr x, st')) \<Longrightarrow> total_act m"
  unfolding total_act_def by (metis fst_conv)

lemma total_actD:
  assumes "total_act m"
  obtains x st' where "m st = (Inr x, st')"
  using assms unfolding total_act_def by (metis prod.collapse)

lemma total_bind: "total_act m \<Longrightarrow> (\<And>x. total_act (k x)) \<Longrightarrow> total_act (act_bind m k)"
proof (rule total_actI)
  fix st
  assume m: "total_act m" and k: "\<And>x. total_act (k x)"
  obtain x st1 where "m st = (Inr x, st1)" by (rule total_actD [OF m])
  moreover obtain y st2 where "k x st1 = (Inr y, st2)" by (rule total_actD [OF k])
  ultimately show "\<exists>x st'. act_bind m k st = (Inr x, st')" by (simp add: act_bind_def)
qed

lemma total_simple [simp]:
  "total_act (act_return x)" "total_act (on_host f)" "total_act (on_world g)" "total_act (on_pool p)" "total_act (act_logged m)"
  by (auto simp: total_act_def act_return_def on_host_def on_world_def on_pool_def act_logged_def split: prod.splits sum.splits)

lemma total_unchecked: "sudo_works env \<Longrightarrow> \<forall>c \<in> set cs. \<not> fst c \<Longrightarrow> total_act (run_all env cs)"
proof (induction cs)
  case (Cons c cs)
  have "total_act (pool_run env (fst c) (snd c))"
    using Cons.prems by (auto simp: total_act_def sudo_works_def)
  then show ?case using Cons by (auto intro: total_bind)
qed simp

lemma total_veth: "sudo_works env \<Longrightarrow> total_act (check_veth env name)"
  by (simp add: total_act_def sudo_works_def check_veth_def veth_host_def veth_peer_def)

lemma total_iface: "sudo_works env \<Longrightarrow> total_act (get_iface env)"
proof (rule total_actI)
  fix st :: "'a state"
  assume "sudo_works env"
  then obtain rc out err where "fst (ne_cmd env [''ip'', ''-br'', ''link'', ''show''] (nw_host (snd st))) = Completed rc out err"
    unfolding sudo_works_def by blast
  then obtain h' where "ne_cmd env [''ip'', ''-br'', ''link'', ''show''] (nw_host (snd st)) = (Completed rc out err, h')"
    by (metis prod.collapse)
  then show "\<exists>x st'. get_iface env st = (Inr x, st')" by (simp add: get_iface_def Let_def)
qed

text \<open>An action that always succeeds and leaves the bookkeeping alone.\<close>

lemma quiet_total:
  assumes "quiet_act m" and "total_act m"
  obtains x st' where "m st = (Inr x, st')" "same_books st st'"
proof -
  obtain x st' where "m st = (Inr x, st')" by (rule total_actD [OF assms(2)])
  then show thesis using that quiet_actD [OF assms(1)] by blast
qed

section \<open>The count of namespaces\<close>

text \<open>The two operations on the count.\<close>

lemma bind_Inr: "m st = (Inr x, st') \<Longrightarrow> act_bind m k st = k x st'"
  by (simp add: act_bind_def)

lemma enable_books:
  assumes "sudo_works env"
  shows "\<exists>st'. enable_ip_forward env st = (Inr (), st') \<and> same_books (fst st, (snd st)\<lparr>nw_restore := nw_restore (snd st')\<rparr>) st'"
proof -
  have total: "total_act (run_all env [(False, SYSCTL_ON)])" by (rule total_unchecked [OF assms]) simp
  have run: "\<exists>s'. run_all env [(False, SYSCTL_ON)] s = (Inr (), s') \<and> same_books s s'" for s
    by (rule quiet_total [OF quiet_run_all total, of s]) auto
  show ?thesis
  proof (cases "ne_ip_forward env (nw_host (snd st))")
    case None
    then show ?thesis by (simp add: enable_ip_forward_def same_books_def)
  next
    case (Some cur)
    let ?st1 = "if nw_restore (snd st) = None
                then (fst st, (snd st)\<lparr>nw_restore := Some cur, nw_host := ne_write_marker env cur (nw_host (snd st))\<rparr>) else st"
    obtain s' where s': "run_all env [(False, SYSCTL_ON)] ?st1 = (Inr (), s')" "same_books ?st1 s'" using run by blast
    show ?thesis
    proof (cases "cur = ''1''")
      case True
      then show ?thesis using Some by (simp add: enable_ip_forward_def same_books_def)
    next
      case False
      then have "enable_ip_forward env st = (Inr (), s')"
        using Some s'(1) by (auto simp: enable_ip_forward_def act_bind_def on_world_def act_return_def)
      then show ?thesis using s'(2) by (auto simp: same_books_def split: if_splits)
    qed
  qed
qed

text \<open>\<open>counted n st st'\<close>: the bookkeeping is the same but for the count, which is \<open>n\<close>, and the saved switch.\<close>

definition counted :: "int \<Rightarrow> 'h state \<Rightarrow> 'h state \<Rightarrow> bool" where
  "counted n st st' \<longleftrightarrow> same_books (fst st, (snd st)\<lparr>nw_active := n, nw_restore := nw_restore (snd st')\<rparr>) st'"

lemma counted_simps:
  "counted n st st' \<Longrightarrow> np_names (fst st') = np_names (fst st)" "counted n st st' \<Longrightarrow> nw_active (snd st') = n"
  "counted n st st' \<Longrightarrow> np_created (fst st') = np_created (fst st)" "counted n st st' \<Longrightarrow> np_queue (fst st') = np_queue (fst st)"
  "counted n st st' \<Longrightarrow> np_base (fst st') = np_base (fst st)" "counted n st st' \<Longrightarrow> np_size (fst st') = np_size (fst st)"
  by (auto simp: counted_def same_books_def)

lemma counted_trans: "counted n st st1 \<Longrightarrow> counted m st1 st2 \<Longrightarrow> counted m st st2"
  by (simp add: counted_def same_books_def)

lemma counted_quiet: "same_books st st1 \<Longrightarrow> counted n st1 st2 \<Longrightarrow> counted n st st2"
  by (simp add: counted_def same_books_def)

lemma counted_self: "same_books st st' \<Longrightarrow> counted (nw_active (snd st)) st st'"
  by (simp add: counted_def same_books_def)

lemma track_created:
  assumes "sudo_works env"
  shows "\<exists>st'. track_ns_created env st = (Inr (), st') \<and> counted (nw_active (snd st) + 1) st st'"
proof -
  obtain s' where s': "enable_ip_forward env st = (Inr (), s')" "same_books (fst st, (snd st)\<lparr>nw_restore := nw_restore (snd s')\<rparr>) s'"
    using enable_books [OF assms] by blast
  then show ?thesis
    by (auto simp: track_ns_created_def act_bind_def act_return_def on_world_def counted_def same_books_def)
qed

lemma track_destroyed:
  assumes "sudo_works env"
  shows "\<exists>st'. track_ns_destroyed env st = (Inr (), st') \<and> counted (max 0 (nw_active (snd st) - 1)) st st' \<and>
           (nw_active (snd st) \<le> 1 \<longrightarrow> nw_restore (snd st') = None)"
proof -
  let ?n = "max 0 (nw_active (snd st) - 1)" let ?st1 = "(fst st, (snd st)\<lparr>nw_active := ?n\<rparr>)"
  have head: "track_ns_destroyed env st = restore_if_idle env ?st1"
    by (simp add: track_ns_destroyed_def act_bind_def on_world_def)
  show ?thesis
  proof (cases "0 < ?n")
    case True
    then show ?thesis unfolding head by (auto simp: restore_if_idle_def counted_def same_books_def)
  next
    case False
    show ?thesis
    proof (cases "nw_restore (snd st)")
      case None
      then show ?thesis unfolding head using False
        by (auto simp: restore_if_idle_def on_host_def counted_def same_books_def)
    next
      case (Some v)
      let ?c = "[(False, [''sysctl'', ''-w'', ''net.ipv4.ip_forward='' @ v])]" let ?st2 = "(fst st, (snd ?st1)\<lparr>nw_restore := None\<rparr>)"
      have "total_act (run_all env ?c)" by (rule total_unchecked [OF assms]) simp
      then obtain u s' where s': "run_all env ?c ?st2 = (Inr u, s')" "same_books ?st2 s'"
        by (rule quiet_total [OF quiet_run_all])
      then have "restore_if_idle env ?st1 = (Inr (), fst s', (snd s')\<lparr>nw_host := ne_clear_marker env (nw_host (snd s'))\<rparr>)"
        using False Some by (simp add: restore_if_idle_def act_bind_def on_world_def on_host_def del: run_all.simps)
      then show ?thesis unfolding head using s'(2) False by (auto simp: counted_def same_books_def)
    qed
  qed
qed

section \<open>Creating and destroying one namespace\<close>

lemma bind_assoc: "act_bind (act_bind m f) g = act_bind m (\<lambda>x. act_bind (f x) g)"
  by (rule ext) (auto simp: act_bind_def split: prod.splits sum.splits)

definition create_prefix :: "'h net_env \<Rightarrow> string \<Rightarrow> int \<Rightarrow> ('h, unit) act" where
  "create_prefix env name idx =
     act_bind (check_veth env name) (\<lambda>_. act_bind (get_iface env) (\<lambda>iface.
     act_bind (run_all env [(False, [''ip'', ''netns'', ''delete'', name]), (False, [''ip'', ''link'', ''delete'', veth_host env name])]) (\<lambda>_.
     act_bind (act_logged (clean_stale_links env (host_ip idx))) (\<lambda>_.
     act_bind (run_all env (link_commands env name idx)) (\<lambda>_. act_bind (add_nat env idx iface) (\<lambda>_.
     act_bind (run_all env [(True, [''mkdir'', ''-p'', ''/etc/netns/'' @ name])]) (\<lambda>_.
     act_bind (write_resolv env name) (\<lambda>_. on_world (bump_ns_epoch name)))))))))"

lemma quiet_create_prefix: "quiet_act (create_prefix env name idx)"
  unfolding create_prefix_def by (intro quiet_bind quiet_logged quiet_simple quiet_run_all quiet_nat quiet_clean)

lemma create_one_split:
  "create_one env idx st =
     (let name = ns_name_of (fst st) idx
      in act_bind (create_prefix env name idx) (\<lambda>_.
         act_bind (on_pool (\<lambda>p. p\<lparr>np_names := np_names p @ [name]\<rparr>)) (\<lambda>_.
         act_bind (track_ns_created env) (\<lambda>_. act_return name))) st)"
  unfolding create_one_def create_prefix_def Let_def by (simp only: bind_assoc)

definition counted_with :: "string list \<Rightarrow> int \<Rightarrow> 'h state \<Rightarrow> 'h state \<Rightarrow> bool" where
  "counted_with names n st st' \<longleftrightarrow> counted n ((fst st)\<lparr>np_names := names\<rparr>, snd st) st'"

lemma create_one_cases:
  assumes "sudo_works env" and "create_one env idx st = (r, st')"
  shows "(\<exists>e. r = Inl e \<and> same_books st st') \<or>
         counted_with (np_names (fst st) @ [ns_name_of (fst st) idx]) (nw_active (snd st) + 1) st st' \<and> \<not> isl r"
proof -
  let ?name = "ns_name_of (fst st) idx"
  obtain q st1 where q: "create_prefix env ?name idx st = (q, st1)" by (cases "create_prefix env ?name idx st")
  have books: "same_books st st1"
    by (rule quiet_actD [OF quiet_create_prefix q])
  show ?thesis
  proof (cases q)
    case (Inl e)
    then show ?thesis using assms(2) q books by (auto simp: create_one_split Let_def act_bind_def)
  next
    case (Inr u)
    let ?st2 = "((fst st1)\<lparr>np_names := np_names (fst st1) @ [?name]\<rparr>, snd st1)"
    obtain st3 where st3: "track_ns_created env ?st2 = (Inr (), st3)" "counted (nw_active (snd ?st2) + 1) ?st2 st3"
      using track_created [OF assms(1)] by blast
    then have "(r, st') = (Inr ?name, st3)"
      using assms(2) q Inr by (simp add: create_one_split Let_def act_bind_def on_pool_def act_return_def)
    moreover have "counted_with (np_names (fst st) @ [?name]) (nw_active (snd st) + 1) st st3"
      using st3(2) books by (simp add: counted_with_def counted_def same_books_def)
    ultimately show ?thesis by simp
  qed
qed

lemma create_prefix_base: "same_books st st' \<Longrightarrow> ns_name_of (fst st') i = ns_name_of (fst st) i"
  by (simp add: same_books_def ns_name_of_def)

lemma destroy_untracked:
  assumes "destroy_one env False name st = (r, st')"
  shows "same_books st st'"
proof (cases "ns_index name")
  case (Some idx)
  have q: "quiet_act (act_bind (check_veth env name) (\<lambda>_. act_bind (get_iface env) (\<lambda>iface.
      act_finally (teardown env name idx iface) (act_return ()))))"
    by (intro quiet_bind quiet_finally quiet_simple quiet_teardown quiet_return)
  show ?thesis
    by (rule quiet_actD [OF q]) (use assms Some in \<open>simp add: destroy_one_def\<close>)
qed (use assms in \<open>simp add: destroy_one_def\<close>)

lemma destroy_tracked:
  assumes "sudo_works env" and "ns_index name \<noteq> None" and op: "destroy_one env True name st = (r, st')"
  shows "counted (max 0 (nw_active (snd st) - 1)) st st' \<and> (nw_active (snd st) \<le> 1 \<longrightarrow> nw_restore (snd st') = None)"
proof -
  obtain idx where idx: "ns_index name = Some idx" using assms(2) by blast
  obtain u st1 where c: "check_veth env name st = (Inr u, st1)" "same_books st st1"
    by (rule quiet_total [OF quiet_simple(2) total_veth [OF assms(1)]])
  obtain iface st2 where g: "get_iface env st1 = (Inr iface, st2)" "same_books st1 st2"
    by (rule quiet_total [OF quiet_simple(8) total_iface [OF assms(1)]])
  obtain q st3 where t: "teardown env name idx iface st2 = (q, st3)" by (cases "teardown env name idx iface st2")
  have books: "same_books st st3"
    using same_books_trans [OF c(2) same_books_trans [OF g(2) quiet_actD [OF quiet_teardown t]]] .
  obtain st4 where d: "track_ns_destroyed env st3 = (Inr (), st4)" "counted (max 0 (nw_active (snd st3) - 1)) st3 st4"
      "nw_active (snd st3) \<le> 1 \<longrightarrow> nw_restore (snd st4) = None"
    using track_destroyed [OF assms(1)] by blast
  have "st' = st4"
    using op idx c(1) g(1) t d(1) by (simp add: destroy_one_def act_bind_def act_finally_def)
  moreover have "nw_active (snd st3) = nw_active (snd st)" using books by (simp add: same_books_def)
  ultimately show ?thesis using d(2,3) counted_quiet [OF books] by simp
qed

section \<open>All or nothing\<close>

text \<open>The number at the end of a name is read back.\<close>

lemma split_char_last: "c \<notin> set t \<Longrightarrow> \<exists>ws. ws \<noteq> [] \<and> split_char c (s @ c # t) = ws @ [t]"
proof (induction s)
  case Nil
  have "split_char c t = [t]" if "c \<notin> set t" for t
    using that by (induction t) auto
  then show ?case using Nil by (intro exI [of _ "[[]]"]) simp
next
  case (Cons x s)
  then obtain ws where ws: "ws \<noteq> []" "split_char c (s @ c # t) = ws @ [t]" by blast
  show ?case
  proof (cases "x = c")
    case True
    then show ?thesis using ws by (intro exI [of _ "[] # ws"]) simp
  next
    case False
    then show ?thesis using ws by (intro exI [of _ "(x # hd ws) # tl ws"]) (cases ws; simp)
  qed
qed

lemma groups_of_decimals: "s \<noteq> [] \<Longrightarrow> list_all is_decimal s \<Longrightarrow> digit_groups_ok s"
  by (induction s rule: digit_groups_ok.induct) (auto simp: is_decimal_def)

lemma int_of_digits: "int_of_str (digits_of_nat n) = Some (int n)"
proof -
  let ?s = "digits_of_nat n"
  have all: "c \<in> set ?s \<Longrightarrow> 48 \<le> code c \<and> code c \<le> 57" for c
    using digits_of_nat_decimal [of c n] by (simp add: is_decimal_def)
  have strip: "strip ?s = ?s" by (rule strip_id) (auto simp: is_space_def dest!: all)
  obtain c cs where d: "?s = c # cs" by (cases ?s) auto
  have sign: "c \<noteq> CHR ''-''" "c \<noteq> CHR ''+''" using all [of c] by (auto simp: d)
  have keep: "filter (\<lambda>x. code x \<noteq> 95) ?s = ?s" by (rule filter_True) (auto dest: all)
  have "digit_groups_ok ?s"
    by (rule groups_of_decimals) (auto simp: list_all_iff dest: digits_of_nat_decimal)
  then show ?thesis using strip sign keep d nat_of_digits_of_nat [of n]
    by (simp add: int_of_str_def Let_def)
qed

lemma ns_index_name: "0 \<le> i \<Longrightarrow> ns_index (ns_name_of pool i) = Some i"
proof -
  assume "0 \<le> i"
  then have digits: "str_int i = digits_of_nat (nat i)" by (simp add: str_int_def)
  have "CHR ''-'' \<notin> set (digits_of_nat (nat i))" by (auto simp: is_decimal_def dest: digits_of_nat_decimal)
  then obtain ws where "split_char CHR ''-'' (np_base pool @ CHR ''-'' # digits_of_nat (nat i)) = ws @ [digits_of_nat (nat i)]"
    using split_char_last by blast
  moreover have "int_of_str (digits_of_nat (nat i)) = Some i" using \<open>0 \<le> i\<close> by (simp add: int_of_digits)
  ultimately show ?thesis by (simp add: ns_index_def ns_name_of_def digits)
qed

lemma ns_name_inject: "ns_name_of pool i = ns_name_of pool j \<longleftrightarrow> i = j"
  by (simp add: ns_name_of_def str_int_inject)

lemma same_names: "same_books st st' \<Longrightarrow> np_names (fst st') = np_names (fst st)"
  by (simp add: same_books_def)

text \<open>A run of creations: the names that were made are in the list, in order, and the count has grown with them.\<close>

lemma create_from_cases:
  assumes "sudo_works env" and "create_from env is created st = (r, created', st')"
  shows "\<exists>made. counted_with (np_names (fst st) @ map (ns_name_of (fst st)) made) (nw_active (snd st) + int (length made)) st st' \<and>
           (case r of Inr _ \<Rightarrow> made = is \<and> created' = created @ map (ns_name_of (fst st)) is
            | Inl e \<Rightarrow> \<exists>i rest. is = made @ i # rest \<and> created' = created @ map (ns_name_of (fst st)) (made @ [i]))"
  using assms(2)
proof (induction "is" arbitrary: created st)
  case Nil
  then show ?case by (auto simp: counted_with_def counted_def same_books_def)
next
  case (Cons i "is")
  let ?n = "ns_name_of (fst st)"
  obtain q st1 where q: "create_one env i st = (q, st1)" by (cases "create_one env i st")
  show ?case
  proof (cases q)
    case (Inl e)
    then have "same_books st st1" using create_one_cases [OF assms(1) q] by auto
    moreover have "r = Inl e" "created' = created @ [?n i]" "st' = st1" using Cons.prems q Inl by (auto simp: Let_def)
    ultimately show ?thesis
      by (intro exI [of _ "[]"]) (auto simp: counted_with_def counted_def same_books_def)
  next
    case (Inr name)
    then have one: "counted_with (np_names (fst st) @ [?n i]) (nw_active (snd st) + 1) st st1"
      using create_one_cases [OF assms(1) q] by auto
    then have base: "ns_name_of (fst st1) = ?n" and names: "np_names (fst st1) = np_names (fst st) @ [?n i]"
      and active: "nw_active (snd st1) = nw_active (snd st) + 1"
      by (auto simp: counted_with_def counted_def same_books_def ns_name_of_def fun_eq_iff)
    have "create_from env is (created @ [?n i]) st1 = (r, created', st')" using Cons.prems q Inr by (simp add: Let_def)
    from Cons.IH [OF this] obtain made where made:
        "counted_with (np_names (fst st1) @ map ?n made) (nw_active (snd st1) + int (length made)) st1 st'"
        "case r of Inr _ \<Rightarrow> made = is \<and> created' = (created @ [?n i]) @ map ?n is
         | Inl e \<Rightarrow> \<exists>j rest. is = made @ j # rest \<and> created' = (created @ [?n i]) @ map ?n (made @ [j])"
      unfolding base by blast
    show ?thesis
    proof (intro exI [of _ "i # made"] conjI)
      show "counted_with (np_names (fst st) @ map ?n (i # made)) (nw_active (snd st) + int (length (i # made))) st st'"
        using one made(1) names active by (simp add: counted_with_def counted_def same_books_def algebra_simps)
    qed (use made(2) in \<open>auto split: sum.splits\<close>)
  qed
qed

lemma logged_books: "act_logged m st = (r, st') \<Longrightarrow> \<exists>q. m st = (q, st') \<and> \<not> isl r"
  by (auto simp: act_logged_def split: prod.splits sum.splits)

text \<open>Taking back: every name of the list that is counted is counted off, the others change nothing.\<close>

lemma rollback_counts:
  assumes "sudo_works env"
  shows "\<forall>n \<in> set ns. ns_index n \<noteq> None \<Longrightarrow> rollback env ns st = (r, st') \<Longrightarrow>
     int (length (filter (\<lambda>n. n \<in> set (np_names (fst st))) ns)) \<le> nw_active (snd st) \<Longrightarrow>
     r = Inr () \<and> counted (nw_active (snd st) - int (length (filter (\<lambda>n. n \<in> set (np_names (fst st))) ns))) st st'"
proof (induction ns arbitrary: st)
  case Nil
  then show ?case by (auto simp: act_return_def counted_def same_books_def)
next
  case (Cons name ns)
  let ?in = "name \<in> set (np_names (fst st))" let ?k = "\<lambda>s. int (length (filter (\<lambda>n. n \<in> set (np_names (fst s))) ns))"
  obtain q st1 where q: "act_logged (destroy_one env ?in name) st = (q, st1)"
    by (cases "act_logged (destroy_one env ?in name) st")
  obtain d where d: "destroy_one env ?in name st = (d, st1)" and ok: "\<not> isl q" using logged_books [OF q] by blast
  have rest: "rollback env ns st1 = (r, st')"
    using Cons.prems(2) q ok by (cases q) (auto simp: act_bind_def)
  have step: "counted (nw_active (snd st) - (if ?in then 1 else 0)) st st1"
  proof (cases ?in)
    case True
    then show ?thesis using destroy_tracked [OF assms(1), of name st d st1] d Cons.prems(1,3) by simp
  next
    case False
    then show ?thesis using destroy_untracked [of env name st d st1] d counted_self by simp
  qed
  have k: "?k st1 = ?k st" using counted_simps(1) [OF step] by simp
  have active: "nw_active (snd st1) = nw_active (snd st) - (if ?in then 1 else 0)" using counted_simps(2) [OF step] .
  have "r = Inr () \<and> counted (nw_active (snd st1) - ?k st1) st1 st'"
    by (rule Cons.IH [OF _ rest]) (use Cons.prems(1,3) k active in auto)
  moreover have "nw_active (snd st1) - ?k st1 =
      nw_active (snd st) - int (length (filter (\<lambda>n. n \<in> set (np_names (fst st))) (name # ns)))"
    using k active by simp
  ultimately show ?case using counted_trans [OF step] by metis
qed

lemma create_all_outcome:
  assumes "sudo_works env" and "\<not> np_created p" and "np_names p = []" and "0 \<le> np_size p" and "0 \<le> nw_active w"
    and "create_all env (p, w) = (r, p', w')"
  shows "(r = Inr () \<and> np_created p' \<and> np_names p' = map (ns_name_of p) [0..np_size p - 1] \<and> nw_active w' = nw_active w + np_size p) \<or>
         (isl r \<and> \<not> np_created p' \<and> np_names p' = [] \<and> nw_active w' = nw_active w)"
proof -
  let ?is = "[0..np_size p - 1]" let ?n = "ns_name_of p"
  obtain q created p1 w1 where q: "create_from env ?is [] (p, w) = (q, created, p1, w1)" by (metis prod_cases4)
  from create_from_cases [OF assms(1) q, unfolded append_Nil fst_conv snd_conv assms(3)] obtain made where made:
      "counted_with (map ?n made) (nw_active w + int (length made)) (p, w) (p1, w1)"
      "case q of Inr _ \<Rightarrow> made = ?is \<and> created = map ?n ?is
       | Inl e \<Rightarrow> \<exists>i rest. ?is = made @ i # rest \<and> created = map ?n (made @ [i])" by blast
  then have p1: "np_names p1 = map ?n made" "nw_active w1 = nw_active w + int (length made)" "np_created p1 = np_created p"
    by (auto simp: counted_with_def counted_def same_books_def)
  show ?thesis
  proof (cases q)
    case (Inr u)
    then show ?thesis using assms(2,4,6) q made(2) p1 by (auto simp: create_all_def on_pool_def)
  next
    case (Inl e)
    then obtain i rest where split: "?is = made @ i # rest" and created: "created = map ?n (made @ [i])" using made(2) by auto
    have dist: "distinct (made @ i # rest)" using distinct_upto [of 0 "np_size p - 1"] unfolding split .
    have pos: "\<forall>j \<in> set (made @ [i]). 0 \<le> j"
      using arg_cong [OF split, of set] by (auto simp: set_eq_iff)
    have known: "\<forall>n \<in> set created. ns_index n \<noteq> None" using pos by (auto simp: created ns_index_name)
    have tracked: "filter (\<lambda>n. n \<in> set (np_names p1)) created = map ?n made"
      using dist by (auto simp: created p1 ns_name_inject)
    obtain u p2 w2 where u: "rollback env created (p1, w1) = (u, p2, w2)" by (metis prod_cases3)
    have "u = Inr () \<and> counted (nw_active w1 - int (length made)) (p1, w1) (p2, w2)"
      using rollback_counts [OF assms(1) known u] tracked p1(2) assms(5) by simp
    then show ?thesis using assms(2,6) q Inl u p1
      by (auto simp: create_all_def act_bind_def on_pool_def counted_def same_books_def)
  qed
qed

text \<open>
  C33. On a host where \<^verbatim>\<open>sudo\<close> works, \<open>create_all\<close> is all or nothing. When it returns, the pool has exactly
  the namespaces base-0 up to base-(size-1) in order, and the count of live namespaces of the process has
  grown by their number. When a command fails on the way, the error is passed on, the namespaces made so far
  are taken back, the pool is as empty as before and may be created again, and the count is what it was.
\<close>

theorem create_all_or_nothing:
  assumes "sudo_works env" and "\<not> np_created p" and "np_names p = []" and "0 \<le> np_size p" and "0 \<le> nw_active w"
    and "create_all env (p, w) = (r, p', w')"
  shows "(r = Inr () \<and> np_created p' \<and> np_names p' = map (ns_name_of p) [0..np_size p - 1] \<and> nw_active w' = nw_active w + np_size p) \<or>
         (isl r \<and> \<not> np_created p' \<and> np_names p' = [] \<and> nw_active w' = nw_active w)"
  by (rule create_all_outcome [OF assms])

section \<open>Taking the pool down\<close>

lemma destroy_names_counts:
  assumes "sudo_works env"
  shows "\<forall>n \<in> set ns. ns_index n \<noteq> None \<Longrightarrow> destroy_names env ns st = (r, st') \<Longrightarrow> 0 \<le> nw_active (snd st) \<Longrightarrow>
     (\<exists>k \<le> length ns. r = Inr k) \<and> counted (max 0 (nw_active (snd st) - int (length ns))) st st' \<and>
     (ns \<noteq> [] \<longrightarrow> nw_active (snd st) \<le> int (length ns) \<longrightarrow> nw_restore (snd st') = None)"
proof (induction ns arbitrary: st r st')
  case Nil
  then show ?case by (auto simp: act_return_def counted_def same_books_def)
next
  case (Cons name ns)
  obtain q st1 where q: "act_logged (destroy_one env True name) st = (q, st1)"
    by (cases "act_logged (destroy_one env True name) st")
  obtain d where d: "destroy_one env True name st = (d, st1)" and ok: "\<not> isl q" using logged_books [OF q] by blast
  obtain r1 st2 where rest: "destroy_names env ns st1 = (r1, st2)" by (cases "destroy_names env ns st1")
  have one: "counted (max 0 (nw_active (snd st) - 1)) st st1" "nw_active (snd st) \<le> 1 \<Longrightarrow> nw_restore (snd st1) = None"
    using destroy_tracked [OF assms, of name st d st1] d Cons.prems(1) by auto
  have active: "nw_active (snd st1) = max 0 (nw_active (snd st) - 1)" by (rule counted_simps(2) [OF one(1)])
  have ih: "(\<exists>k \<le> length ns. r1 = Inr k) \<and> counted (max 0 (nw_active (snd st1) - int (length ns))) st1 st2 \<and>
     (ns \<noteq> [] \<longrightarrow> nw_active (snd st1) \<le> int (length ns) \<longrightarrow> nw_restore (snd st2) = None)"
    by (rule Cons.IH [OF _ rest]) (use Cons.prems(1) active in auto)
  then obtain k where k: "k \<le> length ns" "r1 = Inr k" by blast
  obtain b where b: "q = Inr b" using ok by (cases q) auto
  have fin: "st' = st2" "r = Inr (if b = Some True then Suc k else k)"
    using Cons.prems(2) q rest k(2) b by (auto simp: act_bind_def act_return_def)
  have "max 0 (nw_active (snd st1) - int (length ns)) = max 0 (nw_active (snd st) - int (length (name # ns)))"
    using active Cons.prems(3) by simp
  then have "counted (max 0 (nw_active (snd st) - int (length (name # ns)))) st st'"
    using ih counted_trans [OF one(1)] fin(1) by metis
  moreover have "nw_active (snd st) \<le> int (length (name # ns)) \<longrightarrow> nw_restore (snd st') = None"
  proof (cases ns)
    case Nil
    then show ?thesis using one(2) rest fin(1) by (auto simp: act_return_def)
  qed (use ih active fin(1) in auto)
  ultimately show ?case using fin(2) k(1) by auto
qed

lemma destroy_all_accounts:
  assumes "sudo_works env" and "\<forall>n \<in> set (np_names p). ns_index n \<noteq> None" and "np_names p \<noteq> []" and "0 \<le> nw_active w"
    and "destroy_all env (p, w) = (r, p', w')"
  shows "(\<exists>left \<le> length (np_names p). r = Inr left) \<and> \<not> np_created p' \<and> np_names p' = [] \<and>
         nw_active w' = max 0 (nw_active w - int (length (np_names p))) \<and>
         (nw_active w \<le> int (length (np_names p)) \<longrightarrow> nw_restore w' = None)"
proof -
  let ?p = "p\<lparr>np_created := False\<rparr>"
  obtain q p1 w1 where q: "destroy_names env (np_names p) (?p, w) = (q, p1, w1)" by (metis prod_cases3)
  have c: "(\<exists>k \<le> length (np_names p). q = Inr k) \<and> counted (max 0 (nw_active w - int (length (np_names p)))) (?p, w) (p1, w1) \<and>
      (nw_active w \<le> int (length (np_names p)) \<longrightarrow> nw_restore w1 = None)"
    using destroy_names_counts [OF assms(1,2) q] assms(3,4) by simp
  then obtain k where "k \<le> length (np_names p)" "q = Inr k" by blast
  then have "r = Inr (length (np_names p) - k)" "p' = p1\<lparr>np_names := []\<rparr>" "w' = w1"
    using assms(3,5) q by (auto simp: destroy_all_def act_bind_def act_return_def on_pool_def Let_def)
  then show ?thesis using c by (auto simp: counted_def same_books_def)
qed

text \<open>
  The life of a pool leaves no trace in the bookkeeping that it shares with the other pools of the
  process. On a host where \<^verbatim>\<open>sudo\<close> works, creating a pool and destroying it again, whether the creation
  succeeded or was rolled back and whatever the commands that take the namespaces down answered, brings the
  count of live namespaces back to what it was; and when no other pool is alive, a successful life ends with
  the saved forwarding switch given back.
\<close>

theorem pool_life_balanced:
  assumes "sudo_works env" and "\<not> np_created p" and "np_names p = []" and "0 < np_size p" and "0 \<le> nw_active w"
    and "create_all env (p, w) = (r1, p1, w1)" and "destroy_all env (p1, w1) = (r2, p2, w2)"
  shows "nw_active w2 = nw_active w \<and> np_names p2 = [] \<and> \<not> np_created p2 \<and> \<not> isl r2 \<and>
         (\<not> isl r1 \<longrightarrow> nw_active w = 0 \<longrightarrow> nw_restore w2 = None)"
proof -
  have made: "(r1 = Inr () \<and> np_created p1 \<and> np_names p1 = map (ns_name_of p) [0..np_size p - 1] \<and> nw_active w1 = nw_active w + np_size p) \<or>
      (isl r1 \<and> \<not> np_created p1 \<and> np_names p1 = [] \<and> nw_active w1 = nw_active w)"
    by (rule create_all_outcome [OF assms(1-3) _ assms(5,6)]) (use assms(4) in simp)
  then show ?thesis
  proof
    assume ok: "r1 = Inr () \<and> np_created p1 \<and> np_names p1 = map (ns_name_of p) [0..np_size p - 1] \<and> nw_active w1 = nw_active w + np_size p"
    then have len: "int (length (np_names p1)) = np_size p" and ne: "np_names p1 \<noteq> []" using assms(4) by auto
    have known: "\<forall>n \<in> set (np_names p1). ns_index n \<noteq> None" using ok by (auto simp: ns_index_name)
    show ?thesis using destroy_all_accounts [OF assms(1) known ne _ assms(7)] ok len assms(4,5) by auto
  next
    assume "isl r1 \<and> \<not> np_created p1 \<and> np_names p1 = [] \<and> nw_active w1 = nw_active w"
    then show ?thesis using assms(7) by (auto simp: destroy_all_def)
  qed
qed

section \<open>Who holds a namespace\<close>

text \<open>
  The workers take namespaces from the queue and put them back. The state is the pool, the world and the
  namespaces that are in the hands of workers.
\<close>

inductive pool_step :: "'h net_env \<Rightarrow> 'h state \<times> string list \<Rightarrow> 'h state \<times> string list \<Rightarrow> bool" for env where
  take: "acquire p = Some (ns, p') \<Longrightarrow> pool_step env ((p, w), held) ((p', w), ns # held)"
| give: "ns \<in> set held \<Longrightarrow> release env ns (p, w) = (r, st') \<Longrightarrow> pool_step env ((p, w), held) (st', remove1 ns held)"

definition pool_shared :: "'h state \<times> string list \<Rightarrow> bool" where
  "pool_shared s \<longleftrightarrow>
     (case s of ((p, w), held) \<Rightarrow>
        mset (the_queue p) + mset held = mset (np_names p) \<and> distinct (np_names p) \<and> int (length (np_names p)) = np_size p)"

lemma release_books:
  "release env ns (p, w) = (r, p', w') \<Longrightarrow>
     the_queue p' = the_queue p @ [ns] \<and> np_names p' = np_names p \<and> np_size p' = np_size p"
  by (auto simp: release_def act_finally_def cleanup_ns_def act_bind_def kill_in_ns_def on_host_def on_world_def
        on_pool_def the_queue_def)

lemma pool_step_shared:
  assumes "pool_step env a b" and "pool_shared a"
  shows "pool_shared b"
  using assms(1)
proof (cases rule: pool_step.cases)
  case (take p ns p' w held)
  then show ?thesis using assms(2)
    by (auto simp: pool_shared_def acquire_def the_queue_def split: list.splits option.splits)
next
  case (give ns held p w r st')
  obtain p' w' where st': "st' = (p', w')" by (cases st')
  then have books: "the_queue p' = the_queue p @ [ns]" "np_names p' = np_names p" "np_size p' = np_size p"
    using release_books [of env ns p w r p' w'] give by auto
  have shared: "mset (the_queue p) + mset held = mset (np_names p)" "distinct (np_names p)" "int (length (np_names p)) = np_size p"
    using assms(2) give by (auto simp: pool_shared_def)
  have "mset (the_queue p') + mset (remove1 ns held) = mset (the_queue p) + mset held"
    using give by (simp add: books)
  then show ?thesis using give st' books shared by (simp add: pool_shared_def)
qed

lemma pool_steps_shared: "(pool_step env)\<^sup>*\<^sup>* a b \<Longrightarrow> pool_shared a \<Longrightarrow> pool_shared b"
  by (induction rule: rtranclp_induct) (auto intro: pool_step_shared)

lemma seed_shared:
  "np_queue p = None \<Longrightarrow> distinct (np_names p) \<Longrightarrow> int (length (np_names p)) = np_size p \<Longrightarrow> pool_shared ((seed p, w), [])"
  by (simp add: pool_shared_def seed_def the_queue_def)

text \<open>
  C32. No namespace is ever in two places. From a pool that was created and seeded, after any interleaving of
  workers that take a namespace and give one back, the namespaces that are free and those that are held are
  together exactly the created ones, each once; a worker waits only while all of them are held, and a worker
  that gives one back always finds room in the queue.
\<close>

theorem namespaces_exclusive:
  assumes "np_queue p = None" and "np_names p = map (ns_name_of p) [0..np_size p - 1]" and "0 \<le> np_size p"
    and "(pool_step env)\<^sup>*\<^sup>* ((seed p, w), []) ((p', w'), held)"
  shows "distinct (the_queue p' @ held) \<and> set (the_queue p' @ held) = set (np_names p') \<and>
         (acquire p' = None \<longrightarrow> int (length held) = np_size p') \<and> (held \<noteq> [] \<longrightarrow> \<not> queue_full p')"
proof -
  have "distinct (np_names p)" unfolding assms(2) by (simp add: distinct_map inj_on_def ns_name_inject)
  moreover have "int (length (np_names p)) = np_size p" using assms(2,3) by simp
  ultimately have "pool_shared ((p', w'), held)"
    using pool_steps_shared [OF assms(4)] seed_shared assms(1) by blast
  then have inv: "mset (the_queue p' @ held) = mset (np_names p')" "distinct (np_names p')" "int (length (np_names p')) = np_size p'"
    by (auto simp: pool_shared_def)
  have "distinct (the_queue p' @ held)" using inv(1,2) mset_eq_imp_distinct_iff by blast
  moreover have "set (the_queue p' @ held) = set (np_names p')" using inv(1) by (rule mset_eq_setD)
  moreover have len: "int (length (the_queue p')) + int (length held) = np_size p'"
    using mset_eq_length [OF inv(1)] inv(3) by simp
  moreover have "acquire p' = None \<longrightarrow> int (length held) = np_size p'" using len by (auto simp: acquire_def split: list.splits)
  moreover have "held \<noteq> [] \<longrightarrow> \<not> queue_full p'" using len by (cases held) (auto simp: queue_full_def)
  ultimately show ?thesis by blast
qed

section \<open>A concrete host\<close>

text \<open>A host that keeps the commands it ran. The commands of \<open>bad\<close> fail, and \<open>addrs\<close> is what an address is found on.\<close>

definition demo_proc :: proc_env where
  "demo_proc = \<lparr>pe_status = (\<lambda>_. None), pe_kill = (\<lambda>_. KillOk), pe_sudo_kill = (\<lambda>_. True), pe_children = [],
     pe_ns_inode = (\<lambda>_. None), pe_listdir = Some [], pe_comm = (\<lambda>_. ReadGone), pe_ns_link = (\<lambda>_. ReadGone),
     pe_sudo_readlink = (\<lambda>_. None)\<rparr>"

definition demo_env :: "string list list \<Rightarrow> (string \<times> string) list \<Rightarrow> string list list net_env" where
  "demo_env bad addrs = \<lparr>
     ne_cmd = (\<lambda>args h. (Completed (if args \<in> set bad then 1 else 0)
       (case map_of addrs (last args) of None \<Rightarrow> [] | Some dev \<Rightarrow> ''7: '' @ dev @ '' inet '' @ last args) [], h @ [args])),
     ne_tee = (\<lambda>args body h. (Completed 0 [] [], h @ [args])), ne_proc = (\<lambda>_. demo_proc), ne_signal = (\<lambda>pids h. h),
     ne_ip_forward = (\<lambda>_. Some ''0''), ne_write_marker = (\<lambda>v h. h @ [[''marker'', v]]), ne_clear_marker = (\<lambda>h. h @ [[''unmark'']]),
     ne_digest = (\<lambda>n. take 8 (rev n @ ''00000000'')), ne_nameserver = ''1.1.1.1''\<rparr>"

definition demo_world :: "string list list net_world" where
  "demo_world = \<lparr>nw_host = [], nw_restore = None, nw_active = 0, nw_epochs = [], nw_workers = [], nw_firewalls = [], nw_bridges = (\<lambda>_. \<lparr>fs_files = Map.empty, fs_staging = (\<lambda>_. None)\<rparr>)\<rparr>"

definition demo_pool :: "string \<Rightarrow> int \<Rightarrow> NetNsPool" where
  "demo_pool base n = \<lparr>np_size = n, np_base = base, np_queue = None, np_created = False, np_names = [], np_iface = []\<rparr>"

lemma demo_sudo_works: "sudo_works (demo_env bad addrs)"
  unfolding sudo_works_def
proof (intro conjI allI)
  have quiet: "\<not> auth_failed (rc, out, [])" for rc out
    by (simp add: auth_failed_def SUDO_AUTH_MARKERS_def lower_def)
  show "\<exists>r. fst (pool_run (demo_env bad addrs) False args st) = Inr r" for args st
    using quiet by (auto simp: pool_run_def demo_env_def completed_def Let_def)
  show "\<exists>rc out err. fst (ne_cmd (demo_env bad addrs) [''ip'', ''-br'', ''link'', ''show''] h) = Completed rc out err" for h
    by (simp add: demo_env_def)
  show "length (ne_digest (demo_env bad addrs) name) = 8" for name
    by (simp add: demo_env_def)
qed

lemma create_all_or_nothing_witness:
  "np_names (fst (snd (create_all (demo_env [[''sudo'', ''-n'', ''ip'', ''netns'', ''add'', ''bs-1'']] []) (demo_pool ''bs'' 2, demo_world))))
     \<in> {[], [''bs-0'', ''bs-1'']}"
proof -
  let ?e = "demo_env [[''sudo'', ''-n'', ''ip'', ''netns'', ''add'', ''bs-1'']] []" let ?p = "demo_pool ''bs'' 2"
  obtain r p' w' where c: "create_all ?e (?p, demo_world) = (r, p', w')" by (metis prod_cases3)
  have start: "\<not> np_created ?p" "np_names ?p = []" "0 \<le> np_size ?p" "0 \<le> nw_active demo_world"
    by (simp_all add: demo_pool_def demo_world_def)
  have "map (ns_name_of ?p) [0..np_size ?p - 1] = [''bs-0'', ''bs-1'']" by code_simp
  then show ?thesis using create_all_or_nothing [OF demo_sudo_works start c] c by auto
qed

lemma pool_life_balanced_witness:
  "nw_active (snd (snd (destroy_all (demo_env [] []) (snd (create_all (demo_env [] []) (demo_pool ''bs'' 1, demo_world)))))) = 0"
proof -
  let ?e = "demo_env [] []" let ?p = "demo_pool ''bs'' 1"
  obtain r p1 w1 where c: "create_all ?e (?p, demo_world) = (r, p1, w1)" by (metis prod_cases3)
  obtain r2 p2 w2 where d: "destroy_all ?e (p1, w1) = (r2, p2, w2)" by (metis prod_cases3)
  have start: "\<not> np_created ?p" "np_names ?p = []" "0 < np_size ?p" "0 \<le> nw_active demo_world" "nw_active demo_world = 0"
    by (simp_all add: demo_pool_def demo_world_def)
  show ?thesis using pool_life_balanced [OF demo_sudo_works start(1-4) c d] c d start(5) by auto
qed

lemma namespaces_exclusive_witness:
  "\<not> queue_full ((demo_pool ''bs'' 2)\<lparr>np_names := [''bs-0'', ''bs-1''], np_queue := Some [''bs-1'']\<rparr>) \<and>
   distinct ([''bs-1''] @ [''bs-0''])"
proof -
  let ?p = "(demo_pool ''bs'' 2)\<lparr>np_names := [''bs-0'', ''bs-1'']\<rparr>" let ?q = "?p\<lparr>np_queue := Some [''bs-1'']\<rparr>"
  have "acquire (seed ?p) = Some (''bs-0'', ?q)" by code_simp
  then have "pool_step (demo_env [] []) ((seed ?p, demo_world), []) ((?q, demo_world), [''bs-0''])" by (rule take)
  then have run: "(pool_step (demo_env [] []))\<^sup>*\<^sup>* ((seed ?p, demo_world), []) ((?q, demo_world), [''bs-0''])" by blast
  have "np_names ?p = map (ns_name_of ?p) [0..np_size ?p - 1]" by code_simp
  moreover have "np_queue ?p = None" "0 \<le> np_size ?p" by (simp_all add: demo_pool_def)
  ultimately show ?thesis using namespaces_exclusive [OF _ _ _ run] by (simp add: the_queue_def)
qed

text \<open>
  The addresses of a namespace do not depend on the base of its pool, and what is found on the address is
  taken for stale: creating a namespace for the pool bs-22 deletes the live link of the pool bs-11.
\<close>

lemma second_pool_cuts_the_first:
  "let e = demo_env [] [(host_ip 0, veth_host (demo_env [] []) ''bs-11-0'')];
       st' = snd (clean_stale_links e (host_ip 0) (demo_pool ''bs-22'' 1, demo_world))
   in [''sudo'', ''-n'', ''ip'', ''link'', ''delete'', veth_host e ''bs-11-0''] \<in> set (nw_host (snd st')) \<and>
      veth_host e ''bs-11-0'' \<noteq> veth_host e ''bs-22-0''"
  by code_simp

end
