(* ===== verification/DnsWire.thy ===== *)
theory DnsWire
  imports QuicRaw DomainLoader
begin

text \<open>
  The DNS wire format of \<^verbatim>\<open>checkers/dns_secure.py\<close>: building a query, stepping over a name and reading the
  addresses out of an answer. The \<^verbatim>\<open>idna\<close> codec is computed for ASCII text; for other text it is a parameter.
\<close>

section \<open>Building a query\<close>

definition is_ascii :: "string \<Rightarrow> bool" where
  "is_ascii s = list_all (\<lambda>c. code c < 128) s"

text \<open>\<open>text.encode("idna")\<close>: no text when the codec raises \<open>UnicodeError\<close>.\<close>

definition encode_idna :: "(string \<Rightarrow> string option) \<Rightarrow> string \<Rightarrow> string option" where
  "encode_idna idna s =
     (if is_ascii s
      then (let labels = split_char CHR ''.'' s
            in if list_all (\<lambda>l. l \<noteq> [] \<and> length l < 64) (butlast labels) \<and> length (last labels) < 64 then Some s else None)
      else idna s)"

definition domain_to_dns_ascii :: "(string \<Rightarrow> string option) \<Rightarrow> string \<Rightarrow> string result" where
  "domain_to_dns_ascii idna domain =
     (let s = rstrip_char CHR ''.'' (strip domain)
      in if s = [] then Inr s
         else (case encode_idna idna s of
                 Some a \<Rightarrow> Inr a
               | None \<Rightarrow> if is_ascii s then Inr s else Inl (ValueError ''ascii codec'')))"

definition text_bytes :: "string \<Rightarrow> bytes" where
  "text_bytes s = map (\<lambda>c. of_nat (code c)) s"

text \<open>\<open>bytes([n])\<close> and \<open>part.encode("ascii")\<close>\<close>

definition name_label :: "string \<Rightarrow> bytes result" where
  "name_label l =
     (if \<not> is_ascii l then Inl (ValueError ''ascii codec'')
      else if 256 \<le> length l then Inl (ValueError ''bytes must be in range(0, 256)'')
      else Inr (of_nat (length l) # text_bytes l))"

fun name_labels :: "string list \<Rightarrow> bytes result" where
  "name_labels [] = Inr []"
| "name_labels (l # ls) =
     (if l = [] then name_labels ls
      else bind_result (name_label l) (\<lambda>b. bind_result (name_labels ls) (\<lambda>bs. Inr (b @ bs))))"

definition dns_header :: "nat \<Rightarrow> nat \<Rightarrow> nat \<Rightarrow> bytes" where
  "dns_header flags qd an = be_bytes 2 0x4242 @ be_bytes 2 flags @ be_bytes 2 qd @ be_bytes 2 an @ be_bytes 2 0 @ be_bytes 2 0"

definition build_dns_query :: "(string \<Rightarrow> string option) \<Rightarrow> string \<Rightarrow> bytes result" where
  "build_dns_query idna domain =
     bind_result (domain_to_dns_ascii idna domain) (\<lambda>a.
     bind_result (name_labels (split_char CHR ''.'' a)) (\<lambda>q.
     Inr (dns_header 0x0100 1 0 @ (q @ [0]) @ be_bytes 2 1 @ be_bytes 2 1)))"

section \<open>Reading an answer\<close>

fun skip_name_steps :: "nat \<Rightarrow> bytes \<Rightarrow> nat \<Rightarrow> nat" where
  "skip_name_steps 0 dat off = off"
| "skip_name_steps (Suc n) dat off =
     (if length dat \<le> off then off
      else (let l = dat ! off
            in if l = 0 then off + 1
               else if l AND 0xC0 = 0xC0 then off + 2
               else skip_name_steps n dat (off + 1 + unat (l AND 0x3F))))"

definition skip_dns_name :: "bytes \<Rightarrow> nat \<Rightarrow> nat" where
  "skip_dns_name dat off = skip_name_steps 128 dat off"

definition slice :: "nat \<Rightarrow> nat \<Rightarrow> 'a list \<Rightarrow> 'a list" where
  "slice i j xs = take (j - i) (drop i xs)"

text \<open>\<open>struct.unpack\<close> raises when the length is not the one of the format.\<close>

definition unpack_HH :: "bytes \<Rightarrow> (nat \<times> nat) result" where
  "unpack_HH b = (if length b = 4 then Inr (from_bytes (slice 0 2 b), from_bytes (slice 2 4 b)) else Inl (ValueError ''struct.error''))"

definition unpack_HHIH :: "bytes \<Rightarrow> (nat \<times> nat \<times> nat \<times> nat) result" where
  "unpack_HHIH b =
     (if length b = 10
      then Inr (from_bytes (slice 0 2 b), from_bytes (slice 2 4 b), from_bytes (slice 4 8 b), from_bytes (slice 8 10 b))
      else Inl (ValueError ''struct.error''))"

fun skip_questions :: "nat \<Rightarrow> bytes \<Rightarrow> nat \<Rightarrow> nat" where
  "skip_questions 0 dat off = off"
| "skip_questions (Suc n) dat off = skip_questions n dat (skip_dns_name dat off + 4)"

definition dotted :: "bytes \<Rightarrow> string" where
  "dotted b = join_with ''.'' (map (\<lambda>x. str_int (uint x)) b)"

fun read_records :: "nat \<Rightarrow> bytes \<Rightarrow> nat \<Rightarrow> string list \<Rightarrow> string list result" where
  "read_records 0 dat off ips = Inr ips"
| "read_records (Suc n) dat off ips =
     (let off1 = skip_dns_name dat off
      in if length dat < off1 + 10 then Inr ips
         else bind_result (unpack_HHIH (slice off1 (off1 + 10) dat)) (\<lambda>(rtype, _, _, rdlength).
           let off2 = off1 + 10;
               ips' = (if rtype = 1 \<and> rdlength = 4 \<and> off2 + 4 \<le> length dat then ips @ [dotted (slice off2 (off2 + 4) dat)] else ips)
           in read_records n dat (off2 + rdlength) ips'))"

definition parse_dns_response :: "bytes \<Rightarrow> string list result" where
  "parse_dns_response dat =
     (if length dat < 12 then Inr []
      else bind_result (unpack_HH (slice 4 8 dat)) (\<lambda>(qdcount, ancount).
        if ancount = 0 then Inr []
        else read_records (min ancount 20) dat (skip_questions qdcount dat 12) []))"

section \<open>Reading never fails\<close>

lemma length_slice: "j \<le> length xs \<Longrightarrow> length (slice i j xs) = j - i"
  by (simp add: slice_def)

lemma digits_no_zero: "0 < n \<Longrightarrow> hd (digits_of_nat n) \<noteq> CHR ''0''"
proof (induction n rule: digits_of_nat.induct)
  case (1 n)
  show ?case
  proof (cases "n < 10")
    case True
    have "char_of (48 + n) \<noteq> CHR ''0''"
    proof
      assume "char_of (48 + n) = CHR ''0''"
      then have "code (char_of (48 + n) :: char) = code CHR ''0''" by simp
      then show False using True 1(2) by simp
    qed
    then show ?thesis using True by (subst digits_of_nat.simps) simp
  next
    case False
    then show ?thesis using 1(1) by (subst digits_of_nat.simps) (simp add: hd_append)
  qed
qed

lemma digits_short: "n < 256 \<Longrightarrow> length (digits_of_nat n) \<le> 3"
proof -
  assume n: "n < 256"
  have l: "length (digits_of_nat m) = (if m < 10 then 1 else Suc (length (digits_of_nat (m div 10))))" for m
    by (subst digits_of_nat.simps) simp
  have "n div 10 div 10 < 10" using n by simp
  then show ?thesis using l [of n] l [of "n div 10"] l [of "n div 10 div 10"] by (auto split: if_splits)
qed

lemma byte_octet: "ipv4_octet (str_int (uint (b :: byte)))"
proof -
  have "unat b < 2 ^ 8" using unsigned_less [of b] by simp
  then have n: "unat b < 256" by simp
  have "digits_of_nat (unat b) = ''0'' \<or> hd (digits_of_nat (unat b)) \<noteq> CHR ''0''"
    using digits_no_zero [of "unat b"] by (cases "unat b = 0") (auto simp: digits_of_nat.simps [of 0])
  moreover have "str_int (uint b) = digits_of_nat (unat b)" by (simp add: str_int_def)
  ultimately show ?thesis using n digits_short [OF n]
    by (simp add: ipv4_octet_def list_all_iff digits_of_nat_decimal)
qed

lemma split_no_char: "c \<notin> set s \<Longrightarrow> split_char c s = [s]"
  by (induction s) auto

lemma octet_no_dot: "ipv4_octet s \<Longrightarrow> CHR ''.'' \<notin> set s"
  by (auto simp: ipv4_octet_def list_all_iff is_decimal_def)

lemma dotted_ipv4: "length b = 4 \<Longrightarrow> is_ipv4 (dotted b)"
proof -
  assume "length b = 4"
  then obtain w x y z where b: "b = [w, x, y, z]" by (auto simp: length_Suc_conv eval_nat_numeral)
  let ?t = "\<lambda>v :: byte. str_int (uint v)"
  have one: "split_char CHR ''.'' (?t v) = [?t v]" for v
    by (rule split_no_char [OF octet_no_dot [OF byte_octet]])
  have more: "split_char CHR ''.'' (?t v @ CHR ''.'' # u) = ?t v # split_char CHR ''.'' u" for v u
    using split_char_Cons_sep [of "CHR ''.''" "?t v" u] one by simp
  have "split_char CHR ''.'' (dotted b) = [?t w, ?t x, ?t y, ?t z]"
    by (simp add: b dotted_def one more)
  then show ?thesis using byte_octet by (simp add: is_ipv4_def)
qed

lemma read_records_total: "\<exists>more. read_records n dat off ips = Inr (ips @ more) \<and> length more \<le> n \<and> list_all is_ipv4 more"
proof (induction n arbitrary: off ips)
  case (Suc n)
  let ?o = "skip_dns_name dat off"
  show ?case
  proof (cases "length dat < ?o + 10")
    case False
    then have "length (slice ?o (?o + 10) dat) = 10" by (simp add: length_slice)
    then obtain a b c d where u: "unpack_HHIH (slice ?o (?o + 10) dat) = Inr (a, b, c, d)"
      by (simp add: unpack_HHIH_def)
    let ?new = "if a = 1 \<and> d = 4 \<and> ?o + 10 + 4 \<le> length dat then [dotted (slice (?o + 10) (?o + 10 + 4) dat)] else []"
    have new: "list_all is_ipv4 ?new" using dotted_ipv4 length_slice [of "?o + 10 + 4" dat "?o + 10"] by simp
    obtain more where more: "read_records n dat (?o + 10 + d) (ips @ ?new) = Inr ((ips @ ?new) @ more)" "length more \<le> n" "list_all is_ipv4 more"
      using Suc.IH by blast
    have "(if a = 1 \<and> d = 4 \<and> ?o + 10 + 4 \<le> length dat then ips @ [dotted (slice (?o + 10) (?o + 10 + 4) dat)] else ips) = ips @ ?new"
      by simp
    then have "read_records (Suc n) dat off ips = Inr (ips @ ?new @ more)"
      using False u more(1) by (simp only: read_records.simps Let_def bind_result_simps if_False prod.case append_assoc)
    moreover have "length (?new @ more) \<le> Suc n" using more(2) by simp
    ultimately show ?thesis using new more(3) by (intro exI [of _ "?new @ more"]) simp
  qed (simp add: Let_def)
qed simp


section \<open>A reference encoding\<close>

text \<open>
  A name is a sequence of labels that ends in a zero octet or in a pointer of two octets. A resource record
  is a name, three numbers and its data.
\<close>

definition wire_name :: "bytes list \<Rightarrow> bytes \<Rightarrow> bytes" where
  "wire_name ls tl1 = concat (map (\<lambda>l. of_nat (length l) # l) ls) @ tl1"

definition name_ok :: "bytes list \<Rightarrow> bytes \<Rightarrow> bool" where
  "name_ok ls tl1 \<longleftrightarrow>
     length ls < 128 \<and> (\<forall>l \<in> set ls. l \<noteq> [] \<and> length l < 64) \<and>
     (tl1 = [0] \<or> (\<exists>p q. tl1 = [p, q] \<and> p AND 0xC0 = 0xC0))"

record dns_rr =
  rr_labels :: "bytes list"
  rr_end :: bytes
  rr_type :: nat
  rr_class :: nat
  rr_ttl :: nat
  rr_data :: bytes

definition rr_ok :: "dns_rr \<Rightarrow> bool" where
  "rr_ok r \<longleftrightarrow> name_ok (rr_labels r) (rr_end r) \<and> rr_type r < 65536 \<and> length (rr_data r) < 65536"

definition rr_bytes :: "dns_rr \<Rightarrow> bytes" where
  "rr_bytes r = wire_name (rr_labels r) (rr_end r) @ be_bytes 2 (rr_type r) @ be_bytes 2 (rr_class r) @
     be_bytes 4 (rr_ttl r) @ be_bytes 2 (length (rr_data r)) @ rr_data r"

definition question_bytes :: "bytes list \<times> bytes \<times> nat \<Rightarrow> bytes" where
  "question_bytes q = (case q of (ls, tl1, t) \<Rightarrow> wire_name ls tl1 @ be_bytes 2 t @ be_bytes 2 1)"

definition dns_message :: "nat \<Rightarrow> (bytes list \<times> bytes \<times> nat) list \<Rightarrow> dns_rr list \<Rightarrow> bytes \<Rightarrow> bytes" where
  "dns_message flags qs rrs rest =
     dns_header flags (length qs) (length rrs) @ concat (map question_bytes qs) @ concat (map rr_bytes rrs) @ rest"

definition is_address :: "dns_rr \<Rightarrow> bool" where
  "is_address r \<longleftrightarrow> rr_type r = 1 \<and> length (rr_data r) = 4"

section \<open>Stepping over a name\<close>

lemma byte_top_bits: "unat (b :: byte) < 64 \<Longrightarrow> unat (b AND 0x3F) = unat b \<and> b AND 0xC0 \<noteq> 0xC0"
proof -
  assume b: "unat b < 64"
  have "b AND 0x3F = take_bit 6 b" by (simp add: take_bit_eq_mask mask_eq_exp_minus_1)
  then have "unat (b AND 0x3F) = take_bit 6 (unat b)" by (simp add: unsigned_take_bit_eq)
  also have "\<dots> = unat b" using b by (simp add: take_bit_nat_eq_self)
  finally have keep: "unat (b AND 0x3F) = unat b" .
  have "\<not> bit (unat b) 6" using b by (simp add: bit_iff_odd)
  then have "\<not> bit b 6" by (simp add: bit_unsigned_iff)
  moreover have "bit (0xC0 :: byte) 6" by code_simp
  ultimately have "b AND 0xC0 \<noteq> 0xC0" by (metis bit_and_iff)
  then show ?thesis using keep by simp
qed

lemma nth_pre: "i = length pre \<Longrightarrow> (pre @ x # xs) ! i = x"
  by simp

lemma skip_wire_name:
  assumes "name_ok ls e" and "length ls < n"
  shows "skip_name_steps n (pre @ wire_name ls e @ post) (length pre) = length pre + length (wire_name ls e)"
  using assms
proof (induction ls arbitrary: n pre)
  case Nil
  then obtain m where n: "n = Suc m" by (cases n) auto
  show ?case
  proof (cases "e = [0]")
    case False
    then obtain p q where e: "e = [p, q]" "p AND 0xC0 = 0xC0" using Nil(1) by (auto simp: name_ok_def)
    then have "p \<noteq> 0" by auto
    then show ?thesis using e n by (simp add: wire_name_def)
  qed (use n in \<open>simp add: wire_name_def\<close>)
next
  case (Cons l ls)
  obtain m where n: "n = Suc m" using Cons.prems(2) by (cases n) auto
  let ?b = "of_nat (length l) :: byte"
  have len: "0 < length l" "length l < 64" using Cons.prems(1) by (auto simp: name_ok_def)
  then have b: "unat ?b = length l" by simp
  then have top: "?b AND 0xC0 \<noteq> 0xC0" "unat (?b AND 0x3F) = length l" using byte_top_bits [of ?b] len by auto
  have nz: "?b \<noteq> 0" using b len by (metis less_numeral_extra(3) unsigned_0)
  have split: "wire_name (l # ls) e = ?b # l @ wire_name ls e" by (simp add: wire_name_def)
  have rest: "name_ok ls e" "length ls < m" using Cons.prems n by (auto simp: name_ok_def)
  have "skip_name_steps m ((pre @ ?b # l) @ wire_name ls e @ post) (length (pre @ ?b # l)) =
      length (pre @ ?b # l) + length (wire_name ls e)"
    by (rule Cons.IH [OF rest])
  then show ?case using n nz top by (simp add: split Let_def add.commute add.left_commute)
qed

lemma skip_dns_wire_name:
  "name_ok ls e \<Longrightarrow> skip_dns_name (pre @ wire_name ls e @ post) (length pre) = length pre + length (wire_name ls e)"
  unfolding skip_dns_name_def by (rule skip_wire_name) (simp_all add: name_ok_def)

section \<open>Reading back\<close>

lemma skip_questions_bytes:
  assumes "\<forall>(ls, e, t) \<in> set qs. name_ok ls e"
  shows "skip_questions (length qs) (pre @ concat (map question_bytes qs) @ post) (length pre) =
         length pre + length (concat (map question_bytes qs))"
  using assms
proof (induction qs arbitrary: pre)
  case (Cons q qs)
  obtain ls e t where q: "q = (ls, e, t)" by (cases q)
  have ok: "name_ok ls e" using Cons.prems by (simp add: q)
  let ?tail = "be_bytes 2 t @ be_bytes 2 1" let ?more = "concat (map question_bytes qs) @ post"
  have skip: "skip_dns_name (pre @ wire_name ls e @ (?tail @ ?more)) (length pre) = length pre + length (wire_name ls e)"
    by (rule skip_dns_wire_name [OF ok])
  have ih: "skip_questions (length qs) ((pre @ question_bytes q) @ ?more) (length (pre @ question_bytes q)) =
      length (pre @ question_bytes q) + length (concat (map question_bytes qs))"
    by (rule Cons.IH) (use Cons.prems in simp)
  have "question_bytes q = wire_name ls e @ ?tail" by (simp add: question_bytes_def q)
  then show ?case using skip ih by (simp add: add.commute add.left_commute)
qed simp

lemma slice_mid: "slice (length pre) (length pre + length b) (pre @ b @ post) = b"
  by (simp add: slice_def)

lemma unpack_header:
  assumes "t < 65536" and "d < 65536"
  shows "\<exists>c u. unpack_HHIH (be_bytes 2 t @ be_bytes 2 c0 @ be_bytes 4 u0 @ be_bytes 2 d) = Inr (t, c, u, d)"
  using assms from_be_bytes [of t 2] from_be_bytes [of d 2] by (simp add: unpack_HHIH_def slice_def)

lemma read_record_bytes:
  assumes "\<forall>r \<in> set rrs. rr_ok r" and "n \<le> length rrs"
  shows "read_records n (pre @ concat (map rr_bytes rrs) @ post) (length pre) ips =
         Inr (ips @ map (dotted \<circ> rr_data) (filter is_address (take n rrs)))"
  using assms
proof (induction n arbitrary: rrs pre ips)
  case (Suc n)
  obtain r rs where rrs: "rrs = r # rs" using Suc.prems(2) by (cases rrs) auto
  let ?name = "wire_name (rr_labels r) (rr_end r)"
  let ?head = "be_bytes 2 (rr_type r) @ be_bytes 2 (rr_class r) @ be_bytes 4 (rr_ttl r) @ be_bytes 2 (length (rr_data r))"
  let ?more = "concat (map rr_bytes rs) @ post" let ?dat = "pre @ concat (map rr_bytes rrs) @ post"
  have ok: "rr_ok r" "\<forall>r \<in> set rs. rr_ok r" using Suc.prems(1) by (auto simp: rrs)
  have dat: "?dat = pre @ ?name @ (?head @ rr_data r @ ?more)" by (simp add: rrs rr_bytes_def)
  have skip: "skip_dns_name ?dat (length pre) = length pre + length ?name"
    unfolding dat by (rule skip_dns_wire_name) (use ok in \<open>simp add: rr_ok_def\<close>)
  let ?o = "length pre + length ?name"
  have head: "slice ?o (?o + 10) ?dat = ?head"
    unfolding dat using slice_mid [of "pre @ ?name" ?head "rr_data r @ ?more"] by simp
  have dta: "slice (?o + 10) (?o + 10 + length (rr_data r)) ?dat = rr_data r"
    unfolding dat using slice_mid [of "pre @ ?name @ ?head" "rr_data r" ?more] by (simp add: add.assoc)
  obtain c u where unpack: "unpack_HHIH ?head = Inr (rr_type r, c, u, length (rr_data r))"
    using unpack_header ok(1) unfolding rr_ok_def by blast
  have long: "?o + 10 + length (rr_data r) \<le> length ?dat" unfolding dat by simp
  let ?ips = "ips @ (if is_address r then [dotted (rr_data r)] else [])"
  have pick: "(if rr_type r = 1 \<and> length (rr_data r) = 4 \<and> ?o + 10 + 4 \<le> length ?dat
      then ips @ [dotted (slice (?o + 10) (?o + 10 + 4) ?dat)] else ips) = ?ips"
    using dta long by (auto simp: is_address_def)
  have ih: "read_records n ((pre @ rr_bytes r) @ ?more) (length (pre @ rr_bytes r)) ?ips =
      Inr (?ips @ map (dotted \<circ> rr_data) (filter is_address (take n rs)))"
    by (rule Suc.IH [OF ok(2)]) (use Suc.prems(2) in \<open>simp add: rrs\<close>)
  have after: "(pre @ rr_bytes r) @ ?more = ?dat" "length (pre @ rr_bytes r) = ?o + 10 + length (rr_data r)"
    by (simp_all add: rrs rr_bytes_def)
  have "\<not> length ?dat < ?o + 10" using long by simp
  then have "read_records (Suc n) ?dat (length pre) ips = read_records n ?dat (?o + 10 + length (rr_data r)) ?ips"
    using skip head unpack pick by (simp only: read_records.simps Let_def bind_result_simps if_False prod.case)
  also have "\<dots> = Inr (?ips @ map (dotted \<circ> rr_data) (filter is_address (take n rs)))"
    using ih unfolding after .
  finally show ?case by (simp add: rrs)
qed simp

text \<open>
  C29. Reading inverts writing: of an answer message in the wire format, with any questions, compressed or
  plain names, and any records, as well as any bytes after them, the reader returns exactly the addresses
  of the address records among the first twenty records, in their order.
\<close>

theorem parse_inverts_message:
  assumes "\<forall>(ls, e, t) \<in> set qs. name_ok ls e" and "length qs < 65536"
    and "\<forall>r \<in> set rrs. rr_ok r" and "length rrs < 65536"
  shows "parse_dns_response (dns_message flags qs rrs rest) = Inr (map (dotted \<circ> rr_data) (filter is_address (take 20 rrs)))"
proof -
  let ?h = "dns_header flags (length qs) (length rrs)" let ?q = "concat (map question_bytes qs)"
  let ?m = "dns_message flags qs rrs rest" let ?pre = "be_bytes 2 0x4242 @ be_bytes 2 flags"
  have h: "length ?h = 12" by (simp add: dns_header_def)
  have "?m = ?pre @ (be_bytes 2 (length qs) @ be_bytes 2 (length rrs)) @ (be_bytes 2 0 @ be_bytes 2 0 @ ?q @ concat (map rr_bytes rrs) @ rest)"
    by (simp add: dns_message_def dns_header_def)
  then have counts: "slice 4 8 ?m = be_bytes 2 (length qs) @ be_bytes 2 (length rrs)"
    using slice_mid [of ?pre "be_bytes 2 (length qs) @ be_bytes 2 (length rrs)"] by simp
  have unpack: "unpack_HH (slice 4 8 ?m) = Inr (length qs, length rrs)"
    unfolding counts using assms(2,4) from_be_bytes [of "length qs" 2] from_be_bytes [of "length rrs" 2]
    by (simp add: unpack_HH_def slice_def)
  have skip: "skip_questions (length qs) ?m 12 = 12 + length ?q"
    using skip_questions_bytes [OF assms(1), of ?h] h by (simp add: dns_message_def)
  have "read_records (min (length rrs) 20) ((?h @ ?q) @ concat (map rr_bytes rrs) @ rest) (length (?h @ ?q)) [] =
      Inr ([] @ map (dotted \<circ> rr_data) (filter is_address (take (min (length rrs) 20) rrs)))"
    by (rule read_record_bytes [OF assms(3)]) simp
  then have read: "read_records (min (length rrs) 20) ?m (12 + length ?q) [] = Inr (map (dotted \<circ> rr_data) (filter is_address (take 20 rrs)))"
    using h by (simp add: dns_message_def min.commute) (metis take_all_iff min_def nle_le take_take)
  have "\<not> length ?m < 12" using h by (simp add: dns_message_def)
  then show ?thesis using unpack skip read by (cases "rrs = []") (simp_all add: parse_dns_response_def)
qed

text \<open>An answer with a compressed name, an alias record first.\<close>

lemma parse_inverts_message_witness:
  "parse_dns_response (dns_message 0x8180 [([text_bytes ''a'', text_bytes ''io''], [0], 1)]
     [\<lparr>rr_labels = [], rr_end = [0xC0, 12], rr_type = 5, rr_class = 1, rr_ttl = 60, rr_data = [1, 98, 0xC0, 14]\<rparr>,
      \<lparr>rr_labels = [text_bytes ''b''], rr_end = [0xC0, 14], rr_type = 1, rr_class = 1, rr_ttl = 60, rr_data = [10, 0, 0, 255]\<rparr>] []) =
   Inr [''10.0.0.255'']"
proof -
  let ?qs = "[([text_bytes ''a'', text_bytes ''io''], [0 :: byte], 1 :: nat)]"
  let ?rrs = "[\<lparr>rr_labels = [], rr_end = [0xC0, 12], rr_type = 5, rr_class = 1, rr_ttl = 60, rr_data = [1, 98, 0xC0, 14]\<rparr>,
      \<lparr>rr_labels = [text_bytes ''b''], rr_end = [0xC0, 14], rr_type = 1, rr_class = 1, rr_ttl = 60, rr_data = [10, 0, 0, 255]\<rparr>]"
  have "\<forall>(ls, e, t) \<in> set ?qs. name_ok ls e" by (simp add: name_ok_def text_bytes_def)
  moreover have "\<forall>r \<in> set ?rrs. rr_ok r" by (simp add: name_ok_def rr_ok_def text_bytes_def)
  moreover have "map (dotted \<circ> rr_data) (filter is_address (take 20 ?rrs)) = [''10.0.0.255'']"
  proof -
    have "dotted [10, 0, 0, 255] = ''10.0.0.255''" by code_simp
    then show ?thesis by (simp add: is_address_def)
  qed
  ultimately show ?thesis using parse_inverts_message [where qs = ?qs and rrs = ?rrs] by simp
qed

section \<open>The query\<close>

lemma text_bytes_length [simp]: "length (text_bytes l) = length l"
  by (simp add: text_bytes_def)

lemma name_labels_wire:
  "name_labels ls = Inr q \<Longrightarrow> q @ [0] = wire_name (map text_bytes (filter (\<lambda>l. l \<noteq> []) ls)) [0]"
  by (induction ls arbitrary: q) (auto simp: wire_name_def name_label_def bind_result_Inr_iff split: if_splits)

text \<open>
  A query that is built is well formed whenever no label of the name is longer than the 63 octets that the
  format allows and there are fewer than 128: after the header stands exactly the sequence of the labels that
  are not empty, the reader steps over it to the last four octets, and these ask for an IPv4 address.
\<close>

theorem query_well_formed:
  assumes "build_dns_query idna domain = Inr query" and "domain_to_dns_ascii idna domain = Inr a"
    and "\<forall>l \<in> set (split_char CHR ''.'' a). length l < 64" and "length (split_char CHR ''.'' a) < 128"
  shows "\<exists>name. query = dns_header 0x0100 1 0 @ name @ [0, 1, 0, 1] \<and>
           name = wire_name (map text_bytes (filter (\<lambda>l. l \<noteq> []) (split_char CHR ''.'' a))) [0] \<and>
           skip_dns_name query 12 = length query - 4"
proof -
  let ?ls = "filter (\<lambda>l. l \<noteq> []) (split_char CHR ''.'' a)"
  obtain q where q: "name_labels (split_char CHR ''.'' a) = Inr q"
      "query = dns_header 0x0100 1 0 @ (q @ [0]) @ be_bytes 2 1 @ be_bytes 2 1"
    using assms(1,2) by (auto simp: build_dns_query_def bind_result_Inr_iff)
  let ?name = "wire_name (map text_bytes ?ls) [0]"
  have tl1: "be_bytes 2 1 @ be_bytes 2 1 = [0, 1, 0, 1]" by (simp add: be_bytes_numeral)
  have query: "query = dns_header 0x0100 1 0 @ ?name @ [0, 1, 0, 1]"
    using q name_labels_wire [OF q(1)] tl1 by simp
  have "length ?ls < 128" using assms(4) length_filter_le [of "\<lambda>l. l \<noteq> []" "split_char CHR ''.'' a"] by linarith
  then have "name_ok (map text_bytes ?ls) [0]" using assms(3) by (auto simp: name_ok_def text_bytes_def)
  then have "skip_dns_name query (length (dns_header 0x0100 1 0)) = length (dns_header 0x0100 1 0) + length ?name"
    unfolding query by (rule skip_dns_wire_name)
  then have "skip_dns_name query 12 = length query - 4" by (simp add: query dns_header_def)
  then show ?thesis using query by blast
qed

lemma query_well_formed_witness:
  "\<exists>name. build_dns_query (\<lambda>_. None) '' a.io. '' = Inr (dns_header 0x0100 1 0 @ name @ [0, 1, 0, 1]) \<and> length name = 6"
proof -
  have a: "domain_to_dns_ascii (\<lambda>_. None) '' a.io. '' = Inr ''a.io''" by code_simp
  have "name_labels (split_char CHR ''.'' ''a.io'') = Inr [1, 97, 2, 105, 111]"
    by (simp add: name_label_def text_bytes_def is_ascii_def)
  then have q: "build_dns_query (\<lambda>_. None) '' a.io. '' = Inr (dns_header 0x0100 1 0 @ [1, 97, 2, 105, 111, 0] @ [0, 1, 0, 1])"
    by (simp add: build_dns_query_def a be_bytes_numeral)
  have "\<forall>l \<in> set (split_char CHR ''.'' ''a.io''). length l < 64" "length (split_char CHR ''.'' ''a.io'') < 128" by simp_all
  then obtain name where "dns_header 0x0100 1 0 @ [1, 97, 2, 105, 111, 0] @ [0, 1, 0, 1] = dns_header 0x0100 1 0 @ name @ [0, 1, 0, 1]"
    using query_well_formed [OF q a] by blast
  then have "name = [1, 97, 2, 105, 111, 0]" by simp
  then show ?thesis using q by (intro exI [of _ name]) simp
qed

text \<open>A label of more than 63 characters, which the codec refuses, is sent all the same: its length octet is not one.\<close>

lemma long_label_sent:
  "build_dns_query (\<lambda>_. None) (replicate 192 CHR ''a'') = Inr q \<Longrightarrow> skip_dns_name q 12 = 14"
proof -
  let ?a = "replicate 192 CHR ''a''"
  have sp: "strip ?a = ?a" by (rule strip_id) (auto simp: is_space_def)
  have "split_char CHR ''.'' ?a = [?a]" by (rule split_no_char) auto
  moreover have "rstrip_char CHR ''.'' ?a = ?a" by (rule rstrip_char_id) simp
  moreover have "is_ascii ?a" by (simp add: is_ascii_def list_all_iff)
  ultimately have "domain_to_dns_ascii (\<lambda>_. None) ?a = Inr ?a" "name_labels (split_char CHR ''.'' ?a) = Inr (192 # text_bytes ?a)"
    using sp by (simp_all add: domain_to_dns_ascii_def encode_idna_def name_label_def Let_def)
  moreover assume "build_dns_query (\<lambda>_. None) ?a = Inr q"
  ultimately have q: "q = dns_header 0x0100 1 0 @ 192 # text_bytes ?a @ [0] @ be_bytes 2 1 @ be_bytes 2 1"
    by (simp add: build_dns_query_def)
  have "q ! 12 = 192" unfolding q by (rule nth_pre) (simp add: dns_header_def)
  moreover have "12 < length q" by (simp add: q dns_header_def)
  moreover have "(192 :: byte) \<noteq> 0" "(192 :: byte) AND 0xC0 = 0xC0" by code_simp+
  moreover have "(128 :: nat) = Suc 127" by simp
  ultimately show ?thesis by (simp only: skip_dns_name_def skip_name_steps.simps) simp
qed

end
