(* ===== verification/IpsetCatalog.thy ===== *)
theory IpsetCatalog
  imports DomainLoader PyText PyJson "HOL-Library.Word"
begin

text \<open>
  \<^verbatim>\<open>engine/ipset_catalog.py\<close>, with the names of preset files of \<^verbatim>\<open>engine/preset_paths.py\<close>: the catalogs of
  address networks and fallback endpoints, and membership of an address. The parsers of \<^verbatim>\<open>ipaddress\<close> are
  modelled on the grammar of \<^verbatim>\<open>DomainLoader\<close>, addresses are words of 32 or 128 bits. The files and the
  settings are an argument: a catalog has a text, or cannot be read, or cannot be found. The caches of the
  readers hold what the files say until they are cleared, and are left out.
\<close>

unbundle bit_operations_syntax

section \<open>Addresses and networks\<close>

datatype ip_addr = V4 "32 word" | V6 "128 word"

datatype ip_net = Net4 "32 word" nat | Net6 "128 word" nat

definition ipv4_value :: "string \<Rightarrow> nat" where
  "ipv4_value s = foldl (\<lambda>n o1. 256 * n + nat_of_digits o1) 0 (split_char CHR ''.'' s)"

definition hex_val :: "char \<Rightarrow> nat" where
  "hex_val c = (if is_decimal c then code c - 48 else code (lower_char c) - 87)"

definition hextet_value :: "string \<Rightarrow> nat" where
  "hextet_value s = foldl (\<lambda>n c. 16 * n + hex_val c) 0 s"

text \<open>The eight parts of an address, the empty part in the middle stands for as many zeros as are missing.\<close>

definition ipv6_words :: "string list \<Rightarrow> nat list" where
  "ipv6_words parts =
     (let n = length parts
      in case filter (\<lambda>i. parts ! i = []) [1..<n - 1] of
           [] \<Rightarrow> map hextet_value parts
         | k # _ \<Rightarrow>
             (let hi = (if hd parts = [] then k - 1 else k);
                  lo = (if last parts = [] then n - k - 2 else n - k - 1)
              in map hextet_value (take hi parts) @ replicate (8 - hi - lo) 0 @ map hextet_value (drop (n - lo) parts)))"

definition ipv6_value :: "string \<Rightarrow> nat" where
  "ipv6_value s =
     (let parts = split_char CHR '':'' (before_char CHR ''%'' s);
          ws = (if CHR ''.'' \<in> set (last parts)
                then (let v = ipv4_value (last parts) in butlast (butlast (ipv6_words (butlast parts @ [''0'', ''0'']))) @ [v div 65536, v mod 65536])
                else ipv6_words parts)
      in foldl (\<lambda>n w. 65536 * n + w) 0 ws)"

text \<open>\<open>ipaddress.ip_address(s)\<close>\<close>

definition parse_ip :: "string \<Rightarrow> ip_addr option" where
  "parse_ip s =
     (if is_ipv4 s then Some (V4 (of_nat (ipv4_value s)))
      else if is_ipv6 s then Some (V6 (of_nat (ipv6_value s))) else None)"

definition prefix_digits :: "string \<Rightarrow> nat option" where
  "prefix_digits s = (if s \<noteq> [] \<and> list_all is_decimal s then Some (nat_of_digits s) else None)"

definition net_mask :: "nat \<Rightarrow> 'a::len word" where
  "net_mask n = NOT (mask (LENGTH('a) - n))"

text \<open>The length of a mask of ones and zeros, of the mask itself or of its complement.\<close>

fun trailing_zeros :: "nat \<Rightarrow> nat \<Rightarrow> nat" where
  "trailing_zeros 0 v = 0"
| "trailing_zeros (Suc k) v = (if odd v then 0 else Suc (trailing_zeros k (v div 2)))"

definition ones_of_mask :: "nat \<Rightarrow> nat option" where
  "ones_of_mask v = (let z = trailing_zeros 32 v; n = 32 - z in if v div 2 ^ z = 2 ^ n - 1 then Some n else None)"

definition mask_length :: "string \<Rightarrow> nat option" where
  "mask_length s =
     (if \<not> is_ipv4 s then None
      else (let v = ipv4_value s
            in case ones_of_mask v of Some n \<Rightarrow> Some n | None \<Rightarrow> ones_of_mask (2 ^ 32 - 1 - v)))"

definition prefix4 :: "string \<Rightarrow> nat option" where
  "prefix4 s = (case prefix_digits s of Some n \<Rightarrow> if n \<le> 32 then Some n else mask_length s | None \<Rightarrow> mask_length s)"

definition prefix6 :: "string \<Rightarrow> nat option" where
  "prefix6 s = (case prefix_digits s of Some n \<Rightarrow> if n \<le> 128 then Some n else None | None \<Rightarrow> None)"

text \<open>\<open>ip_network(token, strict=False)\<close>\<close>

definition parse_network :: "string \<Rightarrow> ip_net option" where
  "parse_network token =
     (case split_char CHR ''/'' token of
        [a] \<Rightarrow> (case parse_ip a of Some (V4 x) \<Rightarrow> Some (Net4 x 32) | Some (V6 x) \<Rightarrow> Some (Net6 x 128) | None \<Rightarrow> None)
      | [a, p] \<Rightarrow>
          (case parse_ip a of
             Some (V4 x) \<Rightarrow> map_option (\<lambda>n. Net4 (x AND net_mask n) n) (prefix4 p)
           | Some (V6 x) \<Rightarrow> map_option (\<lambda>n. Net6 (x AND net_mask n) n) (prefix6 p)
           | None \<Rightarrow> None)
      | _ \<Rightarrow> None)"

fun in_net :: "ip_addr \<Rightarrow> ip_net \<Rightarrow> bool" where
  "in_net (V4 x) (Net4 b n) = (x AND net_mask n = b)"
| "in_net (V6 x) (Net6 b n) = (x AND net_mask n = b)"
| "in_net _ _ = False"

definition ip_in_nets :: "string \<Rightarrow> ip_net list \<Rightarrow> bool" where
  "ip_in_nets ip nets = (case parse_ip (strip ip) of None \<Rightarrow> False | Some a \<Rightarrow> list_ex (in_net a) nets)"

section \<open>Names of preset files\<close>

text \<open>\<open>_PRESET_NAME_RE.match\<close>: the end of the expression also matches before a final line end.\<close>

definition preset_name_match :: "string \<Rightarrow> bool" where
  "preset_name_match s =
     (let body = (if s \<noteq> [] \<and> last s = newline then butlast s else s);
          ok = (\<lambda>c. is_ascii_letter c \<or> is_decimal c)
      in body \<noteq> [] \<and> ok (hd body) \<and> list_all (\<lambda>c. ok c \<or> c \<in> set ''._-'') (tl body) \<and> length body \<le> 128)"

definition strip_first_suffix :: "string list \<Rightarrow> string \<Rightarrow> string" where
  "strip_first_suffix sufs s = (case List.find (endswith s) sufs of None \<Rightarrow> s | Some suf \<Rightarrow> take (length s - length suf) s)"

text \<open>No text is the error \<open>PresetPathError\<close>. A name with no slash is its own last component.\<close>

definition normalize_preset_name :: "string list \<Rightarrow> string \<Rightarrow> string option" where
  "normalize_preset_name sufs name =
     (let raw = strip name
      in if raw = [] \<or> hd raw \<in> set ''/~'' \<or> contains ''://'' raw \<or> CHR ''/'' \<in> set raw \<or> raw = ''..'' then None
         else if (if raw = ''.'' then [] else raw) \<noteq> last (split_char CHR ''/'' (replace_char (CHR 0x5C) ''/'' raw)) then None
         else (let base = strip_first_suffix sufs raw
               in if base = [] \<or> base \<in> {''.'', ''..''} \<or> \<not> preset_name_match base then None else Some base))"

section \<open>Catalogs\<close>

text \<open>
  The settings of the section \<^verbatim>\<open>[ipset]\<close> as text, the files by the normalized name, and the catalogs of
  content networks that exist.
\<close>

record ipset_env =
  ie_override :: "string \<Rightarrow> string option"
  ie_cdn :: "string list"
  ie_file :: "string \<Rightarrow> string option option"
  ie_listing :: "string list"

record FallbackEndpoint =
  fe_ip :: string
  fe_port :: "int option"

definition BAKED_SINKHOLE :: "string list" where
  "BAKED_SINKHOLE =
     [''0.0.0.0/8'', ''127.0.0.0/8'', ''169.254.0.0/16'', ''192.0.2.0/24'', ''198.18.0.0/15'', ''198.51.100.0/24'',
      ''203.0.113.0/24'', ''240.0.0.0/4'', ''10.0.0.0/8'', ''172.16.0.0/12'', ''192.168.0.0/16'', ''::1/128'', ''::/128'',
      ''2001:db8::/32'', ''fc00::/7'']"

definition BAKED_CGNAT :: "string list" where "BAKED_CGNAT = [''100.64.0.0/10'']"

definition BAKED_FALLBACKS :: "(string, FallbackEndpoint) dict" where
  "BAKED_FALLBACKS =
     [(''voice'', \<lparr>fe_ip = ''35.217.5.42'', fe_port = Some 50006\<rparr>),
      (''voice_preflight'', \<lparr>fe_ip = ''35.217.42.214'', fe_port = Some 50004\<rparr>),
      (''ggc'', \<lparr>fe_ip = ''64.233.161.198'', fe_port = None\<rparr>)]"

definition CDN_DEFAULTS :: "string list" where
  "CDN_DEFAULTS =
     [''cdn-cloudflare.txt'', ''cdn-google.txt'', ''cdn-fastly.txt'', ''cdn-akamai.txt'', ''cdn-amazon.txt'', ''cdn-discord.txt'']"

definition catalog_lines :: "string option \<Rightarrow> string list" where
  "catalog_lines file =
     (case file of None \<Rightarrow> []
      | Some raw \<Rightarrow> filter (\<lambda>l. l \<noteq> []) (map (\<lambda>l. strip (before_char CHR ''#'' l)) (splitlines raw)))"

definition line_tokens :: "string \<Rightarrow> string list" where
  "line_tokens line = split_ws (replace_char CHR '','' '' '' line)"

definition nets_from_path :: "string option \<Rightarrow> ip_net list" where
  "nets_from_path file = fromkeys (List.map_filter parse_network (concat (map line_tokens (catalog_lines file))))"

definition nets_from_tokens :: "string list \<Rightarrow> ip_net list" where
  "nets_from_tokens tokens = map (\<lambda>t. the (parse_network t)) tokens"

text \<open>\<open>Path(s).name\<close> and \<open>Path(s).stem\<close>\<close>

definition path_name :: "string \<Rightarrow> string" where
  "path_name s = (case filter (\<lambda>p. p \<noteq> [] \<and> p \<noteq> ''.'') (split_char CHR ''/'' s) of [] \<Rightarrow> [] | p # ps \<Rightarrow> last (p # ps))"

definition path_stem :: "string \<Rightarrow> string" where
  "path_stem s =
     (let name = path_name s; ext = length (takeWhile (\<lambda>c. c \<noteq> CHR ''.'') (rev name)); i = length name - 1 - ext
      in if CHR ''.'' \<in> set name \<and> 0 < i \<and> 0 < ext then take i name else name)"

definition resolve_catalog :: "ipset_env \<Rightarrow> string \<Rightarrow> string option option" where
  "resolve_catalog env name =
     (let name' = (case ie_override env name of
                     Some o1 \<Rightarrow> if strip o1 \<noteq> [] then path_stem (strip o1) else name
                   | None \<Rightarrow> name)
      in case normalize_preset_name [''.txt''] name' of None \<Rightarrow> None | Some base \<Rightarrow> ie_file env base)"

definition nets_or_baked :: "ipset_env \<Rightarrow> string \<Rightarrow> string list \<Rightarrow> ip_net list" where
  "nets_or_baked env name baked =
     (case resolve_catalog env name of
        None \<Rightarrow> nets_from_tokens baked
      | Some file \<Rightarrow> (let nets = nets_from_path file in if nets = [] then nets_from_tokens baked else nets))"

definition sinkhole_nets :: "ipset_env \<Rightarrow> ip_net list" where
  "sinkhole_nets env = nets_or_baked env ''sinkhole'' BAKED_SINKHOLE"

definition cgnat_nets :: "ipset_env \<Rightarrow> ip_net list" where
  "cgnat_nets env = nets_or_baked env ''cgnat'' BAKED_CGNAT"

definition settings_cdn_files :: "ipset_env \<Rightarrow> string list" where
  "settings_cdn_files env =
     map (\<lambda>t. if endswith t ''.txt'' then t else t @ ''.txt'') (filter (\<lambda>t. t \<noteq> []) (map strip (ie_cdn env)))"

definition cdn_filenames :: "ipset_env \<Rightarrow> string list" where
  "cdn_filenames env =
     (if settings_cdn_files env \<noteq> [] then settings_cdn_files env
      else if ie_listing env \<noteq> [] then ie_listing env else CDN_DEFAULTS)"

definition cdn_family_of_file :: "ipset_env \<Rightarrow> string \<Rightarrow> (string \<times> ip_net list) option" where
  "cdn_family_of_file env filename =
     (let stem = (if endswith filename ''.txt'' then take (length filename - 4) filename else filename);
          family = (if startswith stem ''cdn-'' then drop 4 stem else stem)
      in case resolve_catalog env stem of
           None \<Rightarrow> None
         | Some file \<Rightarrow> (let nets = nets_from_path file in if nets = [] then None else Some (family, nets)))"

definition cdn_families :: "ipset_env \<Rightarrow> (string \<times> ip_net list) list" where
  "cdn_families env = List.map_filter (cdn_family_of_file env) (cdn_filenames env)"

definition cdn_family :: "ipset_env \<Rightarrow> string \<Rightarrow> string option" where
  "cdn_family env ip =
     (case parse_ip (strip ip) of
        None \<Rightarrow> None
      | Some a \<Rightarrow> map_option fst (List.find (\<lambda>(name, nets). list_ex (in_net a) nets) (cdn_families env)))"

definition expect_line :: "string \<Rightarrow> (string, ip_net list) dict \<Rightarrow> (string, ip_net list) dict" where
  "expect_line line grouped =
     (case line_tokens line of
        d # t # ts \<Rightarrow>
          if CHR ''.'' \<notin> set d then grouped
          else dict_set (lower d) (foldl add_new (dict_getd grouped (lower d) []) (List.map_filter parse_network (t # ts))) grouped
      | _ \<Rightarrow> grouped)"

definition expect_families :: "ipset_env \<Rightarrow> (string, ip_net list) dict" where
  "expect_families env =
     (case resolve_catalog env ''expect'' of
        None \<Rightarrow> []
      | Some file \<Rightarrow> filter (\<lambda>(d, nets). nets \<noteq> []) (fold expect_line (catalog_lines file) []))"

section \<open>Fallback endpoints\<close>

text \<open>\<open>value.rpartition(":")\<close>, without the separator.\<close>

definition rpartition_colon :: "string \<Rightarrow> string \<times> string" where
  "rpartition_colon v =
     (if CHR '':'' \<in> set v
      then (let t = rev (takeWhile (\<lambda>c. c \<noteq> CHR '':'') (rev v)) in (take (length v - length t - 1) v, t))
      else ([], v))"

definition network_address :: "ip_net \<Rightarrow> (ip_addr \<Rightarrow> string) \<Rightarrow> string" where
  "network_address net to_text = (case net of Net4 b n \<Rightarrow> to_text (V4 b) | Net6 b n \<Rightarrow> to_text (V6 b))"

definition parse_endpoint :: "(ip_addr \<Rightarrow> string) \<Rightarrow> string \<Rightarrow> FallbackEndpoint option result" where
  "parse_endpoint to_text value =
     (case rpartition_colon value of
        (host, port_s) \<Rightarrow>
          if host \<noteq> [] \<and> isdigit port_s
          then (if \<not> is_literal_ip host then Inr None
                else (case int_of_str port_s of
                        Some p \<Rightarrow> Inr (Some \<lparr>fe_ip = host, fe_port = Some p\<rparr>)
                      | None \<Rightarrow> Inl (ValueError port_s)))
          else if is_literal_ip value then Inr (Some \<lparr>fe_ip = value, fe_port = None\<rparr>)
          else Inr (map_option (\<lambda>net. \<lparr>fe_ip = network_address net to_text, fe_port = None\<rparr>) (parse_network value)))"

definition fallback_key :: "string \<Rightarrow> bool" where
  "fallback_key s = (s \<noteq> [] \<and> is_ascii_letter (hd s) \<and> list_all is_ident (tl s))"

fun fallback_lines :: "(ip_addr \<Rightarrow> string) \<Rightarrow> string list \<Rightarrow> (string, FallbackEndpoint) dict \<Rightarrow> (string, FallbackEndpoint) dict result" where
  "fallback_lines to_text [] parsed = Inr parsed"
| "fallback_lines to_text (line # lines) parsed =
     (case split_ws line of
        key # value # rest \<Rightarrow>
          if \<not> fallback_key key then fallback_lines to_text lines parsed
          else bind_result (parse_endpoint to_text value) (\<lambda>ep.
            fallback_lines to_text lines (case ep of None \<Rightarrow> parsed | Some e \<Rightarrow> dict_set key e parsed))
      | _ \<Rightarrow> fallback_lines to_text lines parsed)"

definition fallbacks :: "ipset_env \<Rightarrow> (ip_addr \<Rightarrow> string) \<Rightarrow> (string, FallbackEndpoint) dict result" where
  "fallbacks env to_text =
     (case resolve_catalog env ''fallbacks'' of
        None \<Rightarrow> Inr BAKED_FALLBACKS
      | Some file \<Rightarrow>
          bind_result (fallback_lines to_text (catalog_lines file) []) (\<lambda>parsed.
            Inr (fold (\<lambda>(k, e). dict_set k e) parsed BAKED_FALLBACKS)))"

definition fallback_endpoint :: "ipset_env \<Rightarrow> (ip_addr \<Rightarrow> string) \<Rightarrow> string \<Rightarrow> FallbackEndpoint result" where
  "fallback_endpoint env to_text name =
     bind_result (fallbacks env to_text) (\<lambda>table.
       case dict_get table name of Some e \<Rightarrow> Inr e
       | None \<Rightarrow> (case dict_get BAKED_FALLBACKS name of Some e \<Rightarrow> Inr e | None \<Rightarrow> Inl (KeyError name)))"

section \<open>Membership\<close>

lemma net_mask_high:
  fixes x b :: "'a::len word"
  assumes "n \<le> LENGTH('a)"
  shows "x AND net_mask n = b AND net_mask n \<longleftrightarrow> drop_bit (LENGTH('a) - n) x = drop_bit (LENGTH('a) - n) b"
proof -
  have bits: "bit (net_mask n :: 'a word) i \<longleftrightarrow> LENGTH('a) - n \<le> i \<and> i < LENGTH('a)" for i
    by (auto simp: net_mask_def bit_not_iff bit_mask_iff)
  show ?thesis
  proof
    assume eq: "x AND net_mask n = b AND net_mask n"
    show "drop_bit (LENGTH('a) - n) x = drop_bit (LENGTH('a) - n) b"
    proof (rule bit_word_eqI)
      fix i
      assume "i < LENGTH('a)"
      have "bit (x AND net_mask n) (LENGTH('a) - n + i) = bit (b AND net_mask n) (LENGTH('a) - n + i)" using eq by simp
      then show "bit (drop_bit (LENGTH('a) - n) x) i = bit (drop_bit (LENGTH('a) - n) b) i"
        using bit_imp_le_length [of x "LENGTH('a) - n + i"] bit_imp_le_length [of b "LENGTH('a) - n + i"]
        by (auto simp: bit_and_iff bits bit_drop_bit_eq)
    qed
  next
    assume eq: "drop_bit (LENGTH('a) - n) x = drop_bit (LENGTH('a) - n) b"
    have "bit x i = bit b i" if "LENGTH('a) - n \<le> i" for i
    proof -
      have "bit (drop_bit (LENGTH('a) - n) x) (i - (LENGTH('a) - n)) = bit (drop_bit (LENGTH('a) - n) b) (i - (LENGTH('a) - n))"
        using eq by simp
      then show ?thesis using that by (simp add: bit_drop_bit_eq)
    qed
    then show "x AND net_mask n = b AND net_mask n" by (intro bit_word_eqI) (auto simp: bit_and_iff bits)
  qed
qed

lemma ipv4_value_less:
  assumes "is_ipv4 s"
  shows "ipv4_value s < 2 ^ 32"
proof -
  have le: "foldl (\<lambda>n o1. 256 * n + nat_of_digits o1) v os < (v + 1) * 256 ^ length os"
    if "list_all ipv4_octet os" for os v
    using that
  proof (induction os arbitrary: v)
    case (Cons x os)
    have "nat_of_digits x \<le> 255" using Cons.prems by (simp add: ipv4_octet_def)
    then have "256 * v + nat_of_digits x + 1 \<le> 256 * (v + 1)" by simp
    then have "(256 * v + nat_of_digits x + 1) * 256 ^ length os \<le> 256 * (v + 1) * 256 ^ length os" by (rule mult_le_mono1)
    also have "256 * (v + 1) * 256 ^ length os = (v + 1) * 256 ^ length (x # os)" by (simp add: algebra_simps)
    finally show ?case using Cons.IH [of "256 * v + nat_of_digits x"] Cons.prems by simp
  qed simp
  show ?thesis using le [of "split_char CHR ''.'' s" 0] assms by (simp add: ipv4_value_def is_ipv4_def Let_def)
qed

lemma drop_bit_value: "v < 2 ^ 32 \<Longrightarrow> unat (drop_bit k (of_nat v :: 32 word)) = v div 2 ^ k"
proof -
  assume "v < 2 ^ 32"
  then have "take_bit 32 v = v" by (simp add: take_bit_nat_eq_self)
  moreover from this have "unat (of_nat v :: 32 word) = v" by (simp add: unsigned_of_nat)
  moreover have "LENGTH(32) = 32" by simp
  ultimately show ?thesis by (simp only: unsigned_drop_bit_eq) (simp add: drop_bit_eq_div)
qed

lemma split_at: "c \<notin> set s \<Longrightarrow> c \<notin> set t \<Longrightarrow> split_char c (s @ c # t) = [s, t]"
proof -
  assume a: "c \<notin> set s" "c \<notin> set t"
  have one: "split_char c u = [u]" if "c \<notin> set u" for u using that by (induction u) auto
  then show ?thesis using a split_char_Cons_sep [of c s t] by simp
qed

lemma ipv4_no_slash: "is_ipv4 s \<Longrightarrow> CHR ''/'' \<notin> set s"
proof
  assume ip: "is_ipv4 s" and "CHR ''/'' \<in> set s"
  moreover have "set s \<subseteq> set (join_with [CHR ''.''] (split_char CHR ''.'' s))" by (simp add: join_split_char)
  moreover have "set (join_with [CHR ''.''] ws) \<subseteq> insert (CHR ''.'') (\<Union> (set ` set ws))" for ws
    by (induction "[CHR ''.'']" ws rule: join_with.induct) auto
  ultimately obtain w where "w \<in> set (split_char CHR ''.'' s)" "CHR ''/'' \<in> set w" by fastforce
  then have "is_decimal CHR ''/''" using ip by (auto simp: is_ipv4_def Let_def list_all_iff ipv4_octet_def)
  then show False by (simp add: is_decimal_def)
qed

text \<open>
  Membership is a comparison of prefixes: for every network written as an IPv4 address, whether or not
  its last bits are zero, and a prefix length, an IPv4 address is a member exactly when the two addresses
  agree in that many leading bits.
\<close>

theorem member_iff_same_prefix:
  assumes "is_ipv4 a" and "is_ipv4 ip" and "prefix_digits p = Some n" and "n \<le> 32"
  shows "\<exists>net. parse_network (a @ CHR ''/'' # p) = Some net \<and>
           (in_net (V4 (of_nat (ipv4_value ip))) net \<longleftrightarrow> ipv4_value ip div 2 ^ (32 - n) = ipv4_value a div 2 ^ (32 - n))"
proof -
  let ?a = "of_nat (ipv4_value a) :: 32 word" let ?x = "of_nat (ipv4_value ip) :: 32 word"
  have "CHR ''/'' \<notin> set p" using assms(3) by (auto simp: prefix_digits_def list_all_iff is_decimal_def split: if_splits)
  then have "split_char CHR ''/'' (a @ CHR ''/'' # p) = [a, p]" by (intro split_at ipv4_no_slash [OF assms(1)])
  then have net: "parse_network (a @ CHR ''/'' # p) = Some (Net4 (?a AND net_mask n) n)"
    using assms by (simp add: parse_network_def parse_ip_def prefix4_def)
  have "in_net (V4 ?x) (Net4 (?a AND net_mask n) n) \<longleftrightarrow> drop_bit (32 - n) ?x = drop_bit (32 - n) ?a"
    using net_mask_high [of n ?x ?a] assms(4) by simp
  also have "\<dots> \<longleftrightarrow> unat (drop_bit (32 - n) ?x) = unat (drop_bit (32 - n) ?a)" by (metis word_unat_eq_iff)
  also have "\<dots> \<longleftrightarrow> ipv4_value ip div 2 ^ (32 - n) = ipv4_value a div 2 ^ (32 - n)"
    by (simp only: drop_bit_value ipv4_value_less assms(1,2))
  finally show ?thesis using net by blast
qed

lemma member_iff_same_prefix_witness:
  "\<exists>net. parse_network ''10.1.2.3/8'' = Some net \<and> in_net (V4 (of_nat (ipv4_value ''10.200.20.1''))) net"
proof -
  have ip: "is_ipv4 ''10.1.2.3''" "is_ipv4 ''10.200.20.1''" "prefix_digits ''8'' = Some 8" by code_simp+
  have "ipv4_value ''10.1.2.3'' = 167838211" "ipv4_value ''10.200.20.1'' = 180884481"
    by (simp_all add: ipv4_value_def nat_of_digits_def digit_val_def)
  then show ?thesis using member_iff_same_prefix [OF ip] by auto
qed

lemma sinkhole_nets_nonempty: "sinkhole_nets env \<noteq> []" "cgnat_nets env \<noteq> []"
  by (auto simp: sinkhole_nets_def cgnat_nets_def nets_or_baked_def nets_from_tokens_def BAKED_SINKHOLE_def BAKED_CGNAT_def Let_def
      split: option.splits)

text \<open>
  The part after the last colon of an IPv6 address is taken for a port, so such an endpoint is accepted only
  when that part is no decimal number.
\<close>

lemma ipv6_endpoint_skipped:
  "parse_endpoint to_text ''2001:db8::5'' = Inr None"
  "parse_endpoint to_text ''2001:db8::f'' = Inr (Some \<lparr>fe_ip = ''2001:db8::f'', fe_port = None\<rparr>)"
  by code_simp+

end
