(* ===== verification/PinFile.thy ===== *)
theory PinFile
  imports DomainLoader PyText PyOrder
begin

text \<open>
  \<^verbatim>\<open>checkers/ip_pin.py\<close>: the file of pinned addresses, in the format of a hosts file. A file is its decoded
  text; a file that cannot be read has none. The long dash of the first header line, which is not a Latin-1
  character, is a hyphen here. \<open>ipaddress.ip_address\<close> is the grammar of \<^verbatim>\<open>DomainLoader\<close>.
\<close>

section \<open>Reading and writing\<close>

definition PIN_HEADERS :: "string list" where
  "PIN_HEADERS =
     [''# Generated by blockcheckS - verified DoH records (anti-hijack).'',
      ''# Copy to C:'' @ [CHR 0x5C] @ ''Windows'' @ [CHR 0x5C] @ ''System32'' @ [CHR 0x5C] @ ''drivers'' @ [CHR 0x5C] @ ''etc'' @ [CHR 0x5C] @ ''hosts on Windows.'',
      ''# Auto-refreshed by blockcheckS IP pinning; hand-editable.'']"

definition pin_of_line :: "string \<Rightarrow> (string \<times> string) option" where
  "pin_of_line raw =
     (let line = strip raw
      in if line = [] \<or> startswith line ''#'' then None
         else (case split_ws line of
                 a # b # rest \<Rightarrow>
                   if is_literal_ip a then Some (b, a) else if is_literal_ip b then Some (a, b) else None
               | _ \<Rightarrow> None))"

definition set_all :: "('k \<times> 'v) list \<Rightarrow> ('k, 'v) dict \<Rightarrow> ('k, 'v) dict" where
  "set_all kvs d = fold (\<lambda>(k, v). dict_set k v) kvs d"

definition parse_pins :: "string \<Rightarrow> (string, string) dict" where
  "parse_pins s = set_all (List.map_filter pin_of_line (splitlines s)) []"

definition load_pins :: "string option \<Rightarrow> (string, string) dict" where
  "load_pins file = (case file of None \<Rightarrow> [] | Some s \<Rightarrow> parse_pins s)"

definition pin_line :: "string \<times> string \<Rightarrow> string" where
  "pin_line p = snd p @ [CHR 0x09] @ fst p"

definition dump_pins :: "(string, string) dict \<Rightarrow> string" where
  "dump_pins pins =
     join_with [CHR 0x0A] (PIN_HEADERS @ map (\<lambda>d. pin_line (d, dict_getd pins d [])) (order_by_str id (map fst pins))) @ [CHR 0x0A]"

definition merge_pins :: "(string, string) dict \<Rightarrow> (string, string) dict \<Rightarrow> (string, string) dict" where
  "merge_pins current updates = set_all (filter (\<lambda>(d, ip). ip \<noteq> []) updates) current"

definition pin_domains :: "(string, string) dict \<Rightarrow> string list \<Rightarrow> string list" where
  "pin_domains pins domains = filter (\<lambda>d. d \<in> set domains) (map fst pins)"

section \<open>Lines and words\<close>

lemma lines_from_line:
  "(\<And>c. c \<in> set l \<Longrightarrow> \<not> line_break c) \<Longrightarrow> lines_from cur (l @ CHR 0x0A # rest) = (rev cur @ l) # lines_from [] rest"
proof (induction l arbitrary: cur)
  case Nil
  then show ?case by (cases rest) (simp_all add: line_break_def)
next
  case (Cons c l)
  have keep: "\<not> line_break c" using Cons.prems by simp
  then have "code c \<noteq> 13" by (auto simp: line_break_def Let_def)
  moreover obtain d r where d: "l @ CHR 0x0A # rest = d # r" by (cases "l @ CHR 0x0A # rest") auto
  moreover have "lines_from (c # cur) (l @ CHR 0x0A # rest) = (rev (c # cur) @ l) # lines_from [] rest"
    using Cons by simp
  ultimately show ?case using keep by simp
qed

lemma splitlines_lines:
  "(\<And>l c. l \<in> set ls \<Longrightarrow> c \<in> set l \<Longrightarrow> \<not> line_break c) \<Longrightarrow> splitlines (concat (map (\<lambda>l. l @ [CHR 0x0A]) ls)) = ls"
proof (induction ls)
  case (Cons l ls)
  have "splitlines (concat (map (\<lambda>l. l @ [CHR 0x0A]) ls)) = ls" by (rule Cons.IH) (use Cons.prems in auto)
  moreover have "lines_from [] (l @ CHR 0x0A # concat (map (\<lambda>l. l @ [CHR 0x0A]) ls)) = (rev [] @ l) # lines_from [] (concat (map (\<lambda>l. l @ [CHR 0x0A]) ls))"
    by (rule lines_from_line) (use Cons.prems in auto)
  ultimately show ?case by (simp add: splitlines_def)
qed (simp add: splitlines_def)

lemma join_lines: "ls \<noteq> [] \<Longrightarrow> join_with sep ls @ sep = concat (map (\<lambda>l. l @ sep) ls)"
  by (induction sep ls rule: join_with.induct) simp_all

definition word_ok :: "string \<Rightarrow> bool" where
  "word_ok w \<longleftrightarrow> w \<noteq> [] \<and> (\<forall>c \<in> set w. \<not> is_space c)"

lemma words_from_word:
  "(\<And>c. c \<in> set w \<Longrightarrow> \<not> is_space c) \<Longrightarrow> is_space c \<Longrightarrow> rev cur @ w \<noteq> [] \<Longrightarrow>
   words_from cur (w @ c # r) = (rev cur @ w) # words_from [] r"
  by (induction w arbitrary: cur) auto

lemma words_from_last:
  "(\<And>c. c \<in> set w \<Longrightarrow> \<not> is_space c) \<Longrightarrow> rev cur @ w \<noteq> [] \<Longrightarrow> words_from cur w = [rev cur @ w]"
  by (induction w arbitrary: cur) auto

lemma split_ws_two: "word_ok a \<Longrightarrow> word_ok b \<Longrightarrow> is_space c \<Longrightarrow> split_ws (a @ c # b) = [a, b]"
proof -
  assume ok: "word_ok a" "word_ok b" "is_space c"
  have "words_from [] b = [rev [] @ b]" by (rule words_from_last) (use ok in \<open>simp_all add: word_ok_def\<close>)
  moreover have "words_from [] (a @ c # b) = (rev [] @ a) # words_from [] b"
    by (rule words_from_word) (use ok in \<open>simp_all add: word_ok_def\<close>)
  ultimately show ?thesis by (simp add: split_ws_def)
qed

lemma words_from_ok: "\<forall>c \<in> set cur. \<not> is_space c \<Longrightarrow> w \<in> set (words_from cur s) \<Longrightarrow> word_ok w"
proof (induction s arbitrary: cur)
  case Nil
  then show ?case by (simp add: word_ok_def split: if_splits)
next
  case (Cons c s)
  show ?case
  proof (cases "is_space c")
    case True
    then have "w \<in> set (words_from [] s) \<or> cur \<noteq> [] \<and> w = rev cur" using Cons.prems(2) by (auto split: if_splits)
    then show ?thesis
    proof
      assume "w \<in> set (words_from [] s)"
      then show ?thesis by (intro Cons.IH [of "[]"]) simp_all
    qed (use Cons.prems(1) in \<open>simp add: word_ok_def\<close>)
  next
    case False
    then show ?thesis using Cons.prems by (intro Cons.IH [of "c # cur"]) simp_all
  qed
qed

lemma split_ws_ok: "w \<in> set (split_ws s) \<Longrightarrow> word_ok w"
  unfolding split_ws_def by (rule words_from_ok) auto

lemma strip_ends: "s \<noteq> [] \<Longrightarrow> \<not> is_space (hd s) \<Longrightarrow> \<not> is_space (last s) \<Longrightarrow> strip s = s"
proof -
  assume a: "s \<noteq> []" "\<not> is_space (hd s)" "\<not> is_space (last s)"
  then have "dropWhile is_space s = s" by (cases s) auto
  moreover have "dropWhile is_space (rev s) = rev s" using a by (cases s rule: rev_cases) auto
  ultimately show ?thesis by (simp add: strip_def strip_by_def)
qed

section \<open>Pins\<close>

definition pin_ok :: "string \<times> string \<Rightarrow> bool" where
  "pin_ok p \<longleftrightarrow> word_ok (fst p) \<and> word_ok (snd p) \<and> is_literal_ip (snd p)"

lemma pin_of_line_ok: "pin_of_line raw = Some p \<Longrightarrow> pin_ok p"
proof -
  assume p: "pin_of_line raw = Some p"
  then obtain a b rest where w: "split_ws (strip raw) = a # b # rest"
    by (auto simp: pin_of_line_def Let_def split: if_splits list.splits)
  then have "word_ok a" "word_ok b" using split_ws_ok [of _ "strip raw"] by auto
  then show ?thesis using p w by (auto simp: pin_of_line_def Let_def pin_ok_def split: if_splits)
qed

lemma literal_ip_head: "is_literal_ip (c # s) \<Longrightarrow> c \<noteq> CHR ''#''"
proof
  assume ip: "is_literal_ip (c # s)" and c: "c = CHR ''#''"
  have "\<not> is_ipv4 (CHR ''#'' # s)"
  proof -
    obtain w ws where "split_char CHR ''.'' s = w # ws" by (cases "split_char CHR ''.'' s") auto
    then show ?thesis by (simp add: is_ipv4_def ipv4_octet_def is_decimal_def)
  qed
  moreover have "\<not> is_ipv6 (CHR ''#'' # s)"
  proof -
    let ?t = "before_char CHR ''%'' s"
    have t: "before_char CHR ''%'' (CHR ''#'' # s) = CHR ''#'' # ?t" by (simp add: before_char_def)
    obtain w ws where w: "split_char CHR '':'' ?t = w # ws" by (cases "split_char CHR '':'' ?t") auto
    have parts: "split_char CHR '':'' (before_char CHR ''%'' (CHR ''#'' # s)) = (CHR ''#'' # w) # ws" by (simp add: t w)
    have bad: "\<not> hextet (CHR ''#'' # w)" by (simp add: hextet_def hex_digit_def is_decimal_def Let_def)
    have "\<not> ipv6_parts_ok ((CHR ''#'' # w) # vs)" for vs
    proof
      assume ok: "ipv6_parts_ok ((CHR ''#'' # w) # vs)"
      let ?ps = "(CHR ''#'' # w) # vs" let ?es = "filter (\<lambda>i. ?ps ! i = []) [1..<length ?ps - 1]"
      show False
      proof (cases ?es)
        case Nil
        then show False using ok bad by (simp add: ipv6_parts_ok_def Let_def)
      next
        case (Cons k es)
        then have "k \<in> set ?es" by simp
        then have k: "1 \<le> k" by auto
        have "es = []" using ok Cons by (auto simp: ipv6_parts_ok_def Let_def split: list.splits)
        then have "list_all hextet (take k ?ps)" using ok Cons by (simp add: ipv6_parts_ok_def Let_def)
        then show False using k bad by (cases k) auto
      qed
    qed
    then show ?thesis unfolding is_ipv6_def parts Let_def by (cases ws rule: rev_cases) (auto simp: butlast_append)
  qed
  ultimately show False using ip by (simp add: is_literal_ip_def c)
qed

lemma pin_line_read: "pin_ok p \<Longrightarrow> pin_of_line (pin_line p) = Some p"
proof -
  assume ok: "pin_ok p"
  obtain d ip where p: "p = (d, ip)" by (cases p)
  have w: "word_ok ip" "word_ok d" "is_literal_ip ip" using ok by (simp_all add: pin_ok_def p)
  have "strip (ip @ CHR 0x09 # d) = ip @ CHR 0x09 # d"
    by (rule strip_ends) (use w in \<open>auto simp: word_ok_def hd_append\<close>)
  moreover have "split_ws (ip @ CHR 0x09 # d) = [ip, d]" by (rule split_ws_two) (use w in \<open>simp_all add: is_space_def\<close>)
  moreover have "\<not> startswith (ip @ CHR 0x09 # d) ''#''"
    using w literal_ip_head by (cases ip) (auto simp: word_ok_def startswith_def)
  ultimately show ?thesis using w by (simp add: pin_of_line_def pin_line_def p Let_def word_ok_def)
qed

lemma space_of_break: "line_break c \<Longrightarrow> is_space c"
  by (auto simp: line_break_def is_space_def Let_def)

lemma pin_line_unbroken: "pin_ok p \<Longrightarrow> c \<in> set (pin_line p) \<Longrightarrow> \<not> line_break c"
  using space_of_break [of c] by (auto simp: pin_ok_def word_ok_def pin_line_def line_break_def)

lemma set_all_distinct: "distinct (map fst d) \<Longrightarrow> distinct (map fst (set_all kvs d))"
  by (induction kvs arbitrary: d) (auto simp: set_all_def distinct_update)

lemma set_all_get: "map_of (set_all kvs d) k = (case map_of (rev kvs) k of None \<Rightarrow> map_of d k | Some v \<Rightarrow> Some v)"
  by (induction kvs arbitrary: d) (auto simp: set_all_def map_of_update' map_add_def split: option.splits prod.splits)

lemma set_all_members: "p \<in> set (set_all kvs d) \<Longrightarrow> p \<in> set kvs \<or> p \<in> set d"
  using set_update_subset by (induction kvs arbitrary: d) (fastforce simp: set_all_def)+

lemma map_of_rev_distinct: "distinct (map fst kvs) \<Longrightarrow> map_of (rev kvs) = map_of kvs"
  by (subst map_of_inject_set) (simp_all add: rev_map [symmetric])

lemma set_all_fresh: "distinct (map fst kvs) \<Longrightarrow> map_of (set_all kvs []) = map_of kvs"
  by (rule ext) (simp add: set_all_get map_of_rev_distinct split: option.splits)

lemma parse_pins_ok: "p \<in> set (parse_pins s) \<Longrightarrow> pin_ok p"
proof -
  assume "p \<in> set (parse_pins s)"
  then have "p \<in> set (List.map_filter pin_of_line (splitlines s))" using set_all_members [of p _ "[]"] by (auto simp: parse_pins_def)
  then show ?thesis using pin_of_line_ok by (auto simp: List.map_filter_def)
qed

lemma headers_skipped: "List.map_filter pin_of_line PIN_HEADERS = []"
  by code_simp

lemma parse_dump:
  assumes "distinct (map fst pins)" and "\<forall>p \<in> set pins. pin_ok p"
  shows "map_of (parse_pins (dump_pins pins)) = map_of pins"
proof -
  let ?ks = "order_by_str id (map fst pins)" let ?pin = "\<lambda>d. (d, dict_getd pins d [])"
  have ok: "pin_ok (?pin d)" if "d \<in> set ?ks" for d
  proof -
    have "d \<in> fst ` set pins" using that by simp
    then obtain ip where "(d, ip) \<in> set pins" by force
    moreover from this have "?pin d = (d, ip)" using assms(1) by (simp add: dict_getd_def)
    ultimately show ?thesis using assms(2) by metis
  qed
  let ?ls = "PIN_HEADERS @ map (\<lambda>d. pin_line (?pin d)) ?ks"
  have unbroken: "\<not> line_break c" if "l \<in> set ?ls" "c \<in> set l" for l c
  proof (cases "l \<in> set PIN_HEADERS")
    case True
    have "list_all (list_all (\<lambda>c. \<not> line_break c)) PIN_HEADERS" by code_simp
    then show ?thesis using True that(2) by (auto simp: list_all_iff)
  next
    case False
    then show ?thesis using that ok pin_line_unbroken by auto
  qed
  have "dump_pins pins = concat (map (\<lambda>l. l @ [CHR 0x0A]) ?ls)"
    unfolding dump_pins_def by (rule join_lines) (simp add: PIN_HEADERS_def)
  then have "splitlines (dump_pins pins) = ?ls" using splitlines_lines [of ?ls] unbroken by metis
  moreover have "List.map_filter pin_of_line (map (\<lambda>d. pin_line (?pin d)) ks) = map ?pin ks" if "set ks \<subseteq> set ?ks" for ks
    using that by (induction ks) (auto simp: List.map_filter_simps pin_line_read ok)
  then have "List.map_filter pin_of_line ?ls = map ?pin ?ks"
    using headers_skipped by (simp add: List.map_filter_def)
  ultimately have "parse_pins (dump_pins pins) = set_all (map ?pin ?ks) []" by (simp add: parse_pins_def)
  moreover have "distinct (map fst (map ?pin ?ks))"
    using assms(1) mset_eq_imp_distinct_iff [OF mset_order_by_str, of id "map fst pins"] by (simp add: comp_def)
  ultimately have read: "map_of (parse_pins (dump_pins pins)) = map_of (map ?pin ?ks)" by (simp add: set_all_fresh)
  show ?thesis unfolding read
  proof
    fix d
    have "map_of (map ?pin ks) d = (if d \<in> set ks then Some (dict_getd pins d []) else None)" for ks
      by (induction ks) auto
    moreover have "d \<notin> set ?ks \<Longrightarrow> map_of pins d = None" by (simp add: map_of_None_keys)
    moreover have "d \<in> set ?ks \<Longrightarrow> map_of pins d = Some (dict_getd pins d [])"
      by (cases "map_of pins d") (auto simp: dict_getd_def map_of_None_keys)
    ultimately show "map_of (map ?pin ?ks) d = map_of pins d" by simp
  qed
qed

text \<open>
  Rewriting a pin file keeps its pins: whatever text the file has, with comments, blank lines, either
  order of the two columns or lines that make no sense, writing what was read and reading it again gives
  the same address for every domain, and every address is a literal one.
\<close>

theorem pins_survive_rewriting:
  "map_of (parse_pins (dump_pins (parse_pins s))) = map_of (parse_pins s) \<and>
   list_all (\<lambda>p. is_literal_ip (snd p)) (parse_pins s)"
proof
  have "distinct (map fst (parse_pins s))" unfolding parse_pins_def by (rule set_all_distinct) simp
  then show "map_of (parse_pins (dump_pins (parse_pins s))) = map_of (parse_pins s)"
    using parse_pins_ok by (intro parse_dump) auto
  show "list_all (\<lambda>p. is_literal_ip (snd p)) (parse_pins s)" using parse_pins_ok by (auto simp: list_all_iff pin_ok_def)
qed

lemma merge_pins_get:
  "distinct (map fst updates) \<Longrightarrow>
   map_of (merge_pins current updates) d = (case map_of updates d of Some ip \<Rightarrow> if ip = [] then map_of current d else Some ip | None \<Rightarrow> map_of current d)"
proof -
  assume a: "distinct (map fst updates)"
  let ?us = "filter (\<lambda>(d, ip). ip \<noteq> []) updates"
  have "map_of ?us d = (case map_of updates d of Some ip \<Rightarrow> if ip = [] then None else Some ip | None \<Rightarrow> None)"
    using a by (induction updates) (auto simp: map_of_None_keys split: option.splits)
  moreover have "distinct (map fst ?us)" using a by (simp add: distinct_map_filter)
  ultimately show ?thesis by (simp add: merge_pins_def set_all_get map_of_rev_distinct split: option.splits)
qed

end
