(* ===== verification/DnsAudit.thy ===== *)
theory DnsAudit
  imports DnsWire IpsetCatalog PinFile
begin

text \<open>
  The resolvers, the audit and the cache of \<^verbatim>\<open>checkers/dns_secure.py\<close>, the cross-test of \<^verbatim>\<open>checkers/ip_block.py\<close>
  and the pins of \<^verbatim>\<open>engine/dns_pin_service.py\<close>. What the network, the clock and the provider store answer is
  an argument that acts on a state; latencies and log lines are left out. Seconds are rational numbers.
  The long dash of two descriptions, which is not a Latin-1 character, is a hyphen here.
\<close>

section \<open>Servers\<close>

record dns_conf =
  dc_doh :: "(string \<times> string) list"
  dc_untrusted :: "string list"
  dc_udp :: "(string \<times> string) list"
  dc_default :: string

definition YANDEX_DOH :: string where "YANDEX_DOH = ''https://dns.yandex.ru/dns-query''"

definition baked_conf :: dns_conf where
  "baked_conf =
     \<lparr>dc_doh = [(''https://cloudflare-dns.com/dns-query'', ''Cloudflare''), (''https://dns.google/dns-query'', ''Google''),
        (''https://dns.quad9.net/dns-query'', ''Quad9''), (''https://dns.adguard-dns.com/dns-query'', ''AdGuard''), (YANDEX_DOH, ''Yandex'')],
      dc_untrusted = [YANDEX_DOH],
      dc_udp = [(''8.8.8.8'', ''Google''), (''1.1.1.1'', ''Cloudflare''), (''9.9.9.9'', ''Quad9'')], dc_default = []\<rparr>"

text \<open>\<open>urlsplit(url).hostname\<close>; the checks of a bracketed address are left out.\<close>

definition url_netloc :: "string \<Rightarrow> string" where
  "url_netloc s =
     (let u = filter (\<lambda>c. code c \<notin> {9, 10, 13}) (dropWhile (\<lambda>c. code c \<le> 32) s);
          scheme = before_char CHR '':'' u;
          scheme_ok = (CHR '':'' \<in> set u \<and> scheme \<noteq> [] \<and> is_ascii_letter (hd scheme) \<and>
            list_all (\<lambda>c. is_ascii_letter c \<or> is_decimal c \<or> c \<in> set ''+-.'') scheme);
          rest = (if scheme_ok then drop (length scheme + 1) u else u)
      in if startswith rest ''//'' then takeWhile (\<lambda>c. c \<notin> set ''/?#'') (drop 2 rest) else [])"

definition url_hostname :: "string \<Rightarrow> string option" where
  "url_hostname s =
     (let info = last (split_char CHR ''@'' (url_netloc s));
          host = (if CHR ''['' \<in> set info then before_char CHR '']'' (drop 1 (dropWhile (\<lambda>c. c \<noteq> CHR ''['') info))
                  else before_char CHR '':'' info);
          name = before_char CHR ''%'' host
      in if host = [] then None else Some (lower name @ drop (length name) host))"

definition host_of :: "string \<Rightarrow> string" where
  "host_of url = lower (case url_hostname url of None \<Rightarrow> [] | Some h \<Rightarrow> h)"

definition doh_is_trusted :: "dns_conf \<Rightarrow> string \<Rightarrow> bool" where
  "doh_is_trusted cf url =
     (let u = rstrip_char CHR ''/'' url
      in u \<notin> set (dc_untrusted cf) \<and> host_of u \<notin> set (map host_of (dc_untrusted cf)))"

definition catalog :: "dns_conf \<Rightarrow> (string \<times> string) list \<Rightarrow> (string \<times> string) list" where
  "catalog cf servers = (if servers \<noteq> [] then servers else dc_doh cf)"

definition trusted_doh_servers :: "dns_conf \<Rightarrow> (string \<times> string) list \<Rightarrow> (string \<times> string) list" where
  "trusted_doh_servers cf servers = filter (\<lambda>(u, n). doh_is_trusted cf u) (catalog cf servers)"

definition untrusted_doh_servers :: "dns_conf \<Rightarrow> (string \<times> string) list \<Rightarrow> (string \<times> string) list" where
  "untrusted_doh_servers cf servers = filter (\<lambda>(u, n). \<not> doh_is_trusted cf u) (catalog cf servers)"

section \<open>Queries\<close>

datatype datagram = Datagram bytes | DatagramTimeout | DatagramError string

datatype 'a http_reply = HttpExc string | HttpReply int 'a

record 'w dns_net =
  dn_idna :: "string \<Rightarrow> string option"
  dn_udp :: "string \<Rightarrow> bytes \<Rightarrow> 'w \<Rightarrow> datagram \<times> 'w"
  dn_json :: "string \<Rightarrow> string \<Rightarrow> 'w \<Rightarrow> jdict result http_reply \<times> 'w"
  dn_wire :: "string \<Rightarrow> bytes \<Rightarrow> 'w \<Rightarrow> bytes http_reply \<times> 'w"
  dn_text :: "json \<Rightarrow> string"
  dn_exc :: "py_error \<Rightarrow> string"
  dn_now :: "'w \<Rightarrow> rat"
  dn_stored :: "string \<Rightarrow> 'w \<Rightarrow> string list"

text \<open>Addresses and the text of an error; both may be empty.\<close>

type_synonym answer = "string list \<times> string"

definition exc_answer :: "'w dns_net \<Rightarrow> py_error \<Rightarrow> answer" where
  "exc_answer net e = ([], take 80 (dn_exc net e))"

text \<open>Only timeouts and errors of the operating system are caught.\<close>

definition udp_resolve :: "'w dns_net \<Rightarrow> string \<Rightarrow> string \<Rightarrow> 'w \<Rightarrow> answer result \<times> 'w" where
  "udp_resolve net domain server w =
     (case build_dns_query (dn_idna net) domain of
        Inl e \<Rightarrow> (Inl e, w)
      | Inr q \<Rightarrow>
          (case dn_udp net server q w of
             (Datagram d, w') \<Rightarrow> (bind_result (parse_dns_response d) (\<lambda>ips. Inr (ips, [])), w')
           | (DatagramTimeout, w') \<Rightarrow> (Inr ([], ''timeout''), w')
           | (DatagramError e, w') \<Rightarrow> (Inr ([], e), w')))"

fun json_addresses :: "json list \<Rightarrow> string list result" where
  "json_addresses [] = Inr []"
| "json_addresses (JDict a # xs) =
     (if norm_scalar (jget a ''type'') = JInt 1
      then (case dict_get a ''data'' of
              None \<Rightarrow> Inl (KeyError ''data'')
            | Some (JStr s) \<Rightarrow> bind_result (json_addresses xs) (\<lambda>ips. Inr (s # ips))
            | Some _ \<Rightarrow> bad_type)
      else json_addresses xs)"
| "json_addresses (x # xs) = bad_type"

definition json_answer :: "'w dns_net \<Rightarrow> jdict \<Rightarrow> answer" where
  "json_answer net d =
     (if norm_scalar (jget d ''Status'') \<noteq> JInt 0 then ([], ''dns-json status '' @ dn_text net (jget d ''Status''))
      else (case (case dict_get d ''Answer'' of None \<Rightarrow> Inr [] | Some (JList xs) \<Rightarrow> json_addresses xs | Some _ \<Rightarrow> bad_type) of
              Inl e \<Rightarrow> exc_answer net e
            | Inr ips \<Rightarrow> if ips = [] then ([], ''no A records in dns-json'') else (ips, [])))"

definition doh_json_query :: "'w dns_net \<Rightarrow> string \<Rightarrow> string \<Rightarrow> 'w \<Rightarrow> answer \<times> 'w" where
  "doh_json_query net domain url w =
     (case domain_to_dns_ascii (dn_idna net) domain of
        Inl e \<Rightarrow> (exc_answer net e, w)
      | Inr name \<Rightarrow>
          (case dn_json net url name w of
             (HttpExc e, w') \<Rightarrow> (([], take 80 e), w')
           | (HttpReply status body, w') \<Rightarrow>
               (if status \<noteq> 200 then ([], ''http '' @ str_int status)
                else (case body of Inl e \<Rightarrow> exc_answer net e | Inr d \<Rightarrow> json_answer net d), w')))"

definition wire_answer :: "'w dns_net \<Rightarrow> bytes \<Rightarrow> answer" where
  "wire_answer net body =
     (let rcode = from_bytes (slice 2 4 body) mod 16
      in if 4 \<le> length body \<and> rcode \<noteq> 0 then ([], ''dns-wire rcode '' @ str_int (int rcode))
         else (case parse_dns_response body of
                 Inl e \<Rightarrow> exc_answer net e
               | Inr ips \<Rightarrow> if ips = [] then ([], ''no A records in dns-wire'') else (ips, [])))"

definition doh_wire_query :: "'w dns_net \<Rightarrow> string \<Rightarrow> string \<Rightarrow> 'w \<Rightarrow> answer \<times> 'w" where
  "doh_wire_query net domain url w =
     (case build_dns_query (dn_idna net) domain of
        Inl e \<Rightarrow> (exc_answer net e, w)
      | Inr q \<Rightarrow>
          (case dn_wire net url q w of
             (HttpExc e, w') \<Rightarrow> (([], take 80 e), w')
           | (HttpReply status body, w') \<Rightarrow> (if status \<noteq> 200 then ([], ''http '' @ str_int status) else wire_answer net body, w')))"

definition doh_query :: "'w dns_net \<Rightarrow> string \<Rightarrow> string \<Rightarrow> 'w \<Rightarrow> answer \<times> 'w" where
  "doh_query net domain url w =
     (case doh_json_query net domain url w of
        ((ips, err), w1) \<Rightarrow>
          if ips \<noteq> [] then ((ips, []), w1)
          else (case doh_wire_query net domain url w1 of
                  ((ips2, err2), w2) \<Rightarrow>
                    if ips2 \<noteq> [] then ((ips2, []), w2) else (([], if err \<noteq> [] then err else err2), w2)))"

definition doh_candidates :: "dns_conf \<Rightarrow> (string \<times> string) list \<Rightarrow> string list" where
  "doh_candidates cf servers =
     (let trusted = trusted_doh_servers cf servers;
          pool = (if trusted \<noteq> [] then trusted else trusted_doh_servers cf []);
          start = (if dc_default cf \<noteq> [] \<and> doh_is_trusted cf (dc_default cf) then [dc_default cf] else [])
      in foldl add_new start (map fst pool))"

fun first_working :: "'w dns_net \<Rightarrow> string \<Rightarrow> string list \<Rightarrow> 'w \<Rightarrow> string option \<times> 'w" where
  "first_working net probe [] w = (None, w)"
| "first_working net probe (url # urls) w =
     (case doh_query net probe url w of
        ((ips, err), w') \<Rightarrow> if ips \<noteq> [] \<and> err = [] then (Some url, w') else first_working net probe urls w')"

definition pick_working_doh :: "dns_conf \<Rightarrow> 'w dns_net \<Rightarrow> (string \<times> string) list \<Rightarrow> string \<Rightarrow> 'w \<Rightarrow> string option \<times> 'w" where
  "pick_working_doh cf net servers probe w = first_working net probe (doh_candidates cf servers) w"

section \<open>The audit\<close>

record DnsAuditResult =
  da_domain :: string
  da_udp_ips :: "string list"
  da_doh_ips :: "string list"
  da_tampering :: bool
  da_verdict :: string
  da_description :: string
  da_doh_server :: string
  da_udp_server :: string
  da_udp_name :: string
  da_udp_error :: "string option"
  da_doh_error :: "string option"
  da_untrusted_doh :: "(string, string list) dict"

definition new_audit :: "string \<Rightarrow> DnsAuditResult" where
  "new_audit domain =
     \<lparr>da_domain = domain, da_udp_ips = [], da_doh_ips = [], da_tampering = False, da_verdict = ''ok'', da_description = [],
      da_doh_server = [], da_udp_server = [], da_udp_name = [], da_udp_error = None, da_doh_error = None, da_untrusted_doh = []\<rparr>"

definition sinkhole_ip :: "ipset_env \<Rightarrow> string list \<Rightarrow> string list" where
  "sinkhole_ip env ips = map strip (filter (\<lambda>ip. ip_in_nets ip (sinkhole_nets env)) ips)"

definition same_slash16 :: "string \<Rightarrow> string \<Rightarrow> bool" where
  "same_slash16 a b =
     (case (parse_ip (strip a), parse_ip (strip b)) of
        (Some (V4 x), Some (V4 y)) \<Rightarrow> drop_bit 16 x = drop_bit 16 y
      | _ \<Rightarrow> False)"

definition anycast_equivalent :: "ipset_env \<Rightarrow> string list \<Rightarrow> string list \<Rightarrow> bool" where
  "anycast_equivalent env udp_ips doh_ips =
     (let fam = List.map_filter (cdn_family env)
      in udp_ips \<noteq> [] \<and> doh_ips \<noteq> [] \<and>
         (list_ex (\<lambda>f. f \<noteq> [] \<and> f \<in> set (fam doh_ips)) (fam udp_ips) \<or>
          list_ex (\<lambda>u. list_ex (same_slash16 u) doh_ips) udp_ips))"

fun audit_udp :: "'w dns_net \<Rightarrow> string \<Rightarrow> (string \<times> string) list \<Rightarrow> DnsAuditResult \<Rightarrow> 'w \<Rightarrow> DnsAuditResult result \<times> 'w" where
  "audit_udp net domain [] res w = (Inr res, w)"
| "audit_udp net domain ((server, name) # rest) res w =
     (case udp_resolve net domain server w of
        (Inl e, w') \<Rightarrow> (Inl e, w')
      | (Inr (ips, err), w') \<Rightarrow>
          (let res1 = res\<lparr>da_udp_server := server, da_udp_name := name\<rparr>
           in if ips \<noteq> [] \<and> err = [] then (Inr (res1\<lparr>da_udp_ips := ips\<rparr>), w')
              else audit_udp net domain rest (if err \<noteq> [] then res1\<lparr>da_udp_error := Some err\<rparr> else res1) w'))"

fun ask_all :: "'w dns_net \<Rightarrow> string \<Rightarrow> (string \<times> string) list \<Rightarrow> (string, string list) dict \<Rightarrow> 'w \<Rightarrow> (string, string list) dict \<times> 'w" where
  "ask_all net domain [] acc w = (acc, w)"
| "ask_all net domain ((url, name) # rest) acc w =
     (case doh_query net domain url w of ((ips, err), w') \<Rightarrow> ask_all net domain rest (dict_set name ips acc) w')"

definition audit_verdict :: "ipset_env \<Rightarrow> DnsAuditResult \<Rightarrow> DnsAuditResult" where
  "audit_verdict env r =
     (let bad_udp = sinkhole_ip env (da_udp_ips r); bad_doh = sinkhole_ip env (da_doh_ips r)
      in if bad_udp \<noteq> [] \<or> bad_doh \<noteq> []
         then r\<lparr>da_tampering := True, da_verdict := ''sinkhole'',
                da_description := ''Sinkhole/bogon DNS answer: '' @ join_with '', '' (if bad_udp \<noteq> [] then bad_udp else bad_doh)\<rparr>
         else if da_udp_ips r = [] \<and> da_doh_ips r = [] then r\<lparr>da_verdict := ''no_resolution'', da_description := ''No DNS resolution via UDP or DoH''\<rparr>
         else if da_doh_ips r = [] then r\<lparr>da_verdict := ''doh_blocked'', da_description := ''DoH blocked - cannot verify DNS integrity''\<rparr>
         else if da_udp_ips r = [] then r\<lparr>da_verdict := ''udp_blocked'', da_description := ''UDP DNS blocked''\<rparr>
         else if set (da_udp_ips r) \<inter> set (da_doh_ips r) \<noteq> {} then r\<lparr>da_verdict := ''ok'', da_description := ''UDP and DoH overlap - no hijack''\<rparr>
         else if anycast_equivalent env (da_udp_ips r) (da_doh_ips r)
         then r\<lparr>da_verdict := ''ok'', da_description := ''UDP and DoH differ (CDN/anycast)''\<rparr>
         else r\<lparr>da_tampering := True, da_verdict := ''tampered'',
                da_description := ''UDP '' @ join_with '', '' (take 3 (da_udp_ips r)) @ '' vs DoH '' @ join_with '', '' (take 3 (da_doh_ips r))\<rparr>)"

definition PROBE_DOMAIN :: string where "PROBE_DOMAIN = ''cloudflare.com''"

text \<open>An absent server is the empty text.\<close>

definition given_or_picked :: "dns_conf \<Rightarrow> 'w dns_net \<Rightarrow> string \<Rightarrow> 'w \<Rightarrow> string \<times> 'w" where
  "given_or_picked cf net url w =
     (if url \<noteq> [] then (url, w)
      else (case pick_working_doh cf net [] PROBE_DOMAIN w of (r, w') \<Rightarrow> (case r of None \<Rightarrow> [] | Some u \<Rightarrow> u, w')))"

definition audit_domain :: "dns_conf \<Rightarrow> 'w dns_net \<Rightarrow> ipset_env \<Rightarrow> string \<Rightarrow> string \<Rightarrow> 'w \<Rightarrow> DnsAuditResult result \<times> 'w" where
  "audit_domain cf net env domain doh_url w =
     (case audit_udp net domain (dc_udp cf) (new_audit domain) w of
        (Inl e, w1) \<Rightarrow> (Inl e, w1)
      | (Inr r1, w1) \<Rightarrow>
          (case given_or_picked cf net doh_url w1 of
             (doh0, w2) \<Rightarrow>
          (case (if doh0 = [] \<or> \<not> doh_is_trusted cf doh0 then given_or_picked cf net [] w2 else (doh0, w2)) of
             (doh, w3) \<Rightarrow>
          (case (if doh \<noteq> [] then doh_query net domain doh w3 else (([], ''no working DoH''), w3)) of
             ((ips, err), w4) \<Rightarrow>
          (case ask_all net domain (untrusted_doh_servers cf []) [] w4 of
             (others, w5) \<Rightarrow>
               (let r2 = r1\<lparr>da_doh_server := doh, da_doh_ips := ips,
                            da_doh_error := (if err \<noteq> [] then Some err else None), da_untrusted_doh := others\<rparr>
                in (Inr (audit_verdict env r2), w5)))))))"

fun audit_all :: "dns_conf \<Rightarrow> 'w dns_net \<Rightarrow> ipset_env \<Rightarrow> string list \<Rightarrow> string \<Rightarrow> 'w \<Rightarrow> DnsAuditResult list result \<times> 'w" where
  "audit_all cf net env [] doh w = (Inr [], w)"
| "audit_all cf net env (d # ds) doh w =
     (case audit_domain cf net env d doh w of
        (Inl e, w') \<Rightarrow> (Inl e, w')
      | (Inr r, w') \<Rightarrow> (case audit_all cf net env ds doh w' of (rs, w'') \<Rightarrow> (bind_result rs (\<lambda>rs. Inr (r # rs)), w'')))"

definition audit_domains :: "dns_conf \<Rightarrow> 'w dns_net \<Rightarrow> ipset_env \<Rightarrow> string list \<Rightarrow> string \<Rightarrow> 'w \<Rightarrow> DnsAuditResult list result \<times> 'w" where
  "audit_domains cf net env domains doh_url w =
     (case given_or_picked cf net doh_url w of (doh, w') \<Rightarrow> audit_all cf net env domains doh w')"

definition has_dns_hijack :: "DnsAuditResult list \<Rightarrow> bool" where
  "has_dns_hijack rs = list_ex da_tampering rs"

definition has_dns_sinkhole :: "DnsAuditResult list \<Rightarrow> bool" where
  "has_dns_sinkhole rs = list_ex (\<lambda>r. da_verdict r = ''sinkhole'') rs"

section \<open>The cache\<close>

record DnsRunCache =
  dr_ttl :: rat
  dr_doh_server :: string
  dr_entries :: "(string, string list \<times> rat) dict"
  dr_pins :: "(string, string) dict"

definition cache_get :: "string \<Rightarrow> rat \<Rightarrow> DnsRunCache \<Rightarrow> string list option \<times> DnsRunCache" where
  "cache_get domain now c =
     (case dict_get (dr_entries c) domain of
        None \<Rightarrow> (None, c)
      | Some (ips, ts) \<Rightarrow>
          if now - ts > dr_ttl c then (None, c\<lparr>dr_entries := dict_del domain (dr_entries c)\<rparr>) else (Some ips, c))"

definition cache_set :: "string \<Rightarrow> string list \<Rightarrow> rat \<Rightarrow> DnsRunCache \<Rightarrow> DnsRunCache" where
  "cache_set domain ips now c = c\<lparr>dr_entries := dict_set domain (ips, now) (dr_entries c)\<rparr>"

definition set_pins :: "(string, string) dict \<Rightarrow> DnsRunCache \<Rightarrow> DnsRunCache" where
  "set_pins pins c = c\<lparr>dr_pins := filter (\<lambda>(d, ip). ip \<noteq> []) pins\<rparr>"

definition add_pin :: "string \<Rightarrow> string \<Rightarrow> DnsRunCache \<Rightarrow> DnsRunCache" where
  "add_pin domain ip c = (if ip \<noteq> [] then c\<lparr>dr_pins := dict_set domain ip (dr_pins c)\<rparr> else c)"

definition pinned_first :: "DnsRunCache \<Rightarrow> string \<Rightarrow> string list \<Rightarrow> string list" where
  "pinned_first c domain ips =
     (case dict_get (dr_pins c) domain of
        None \<Rightarrow> ips
      | Some pin \<Rightarrow>
          if pin = [] then ips
          else if pin \<notin> set ips then pin # ips
          else if ips \<noteq> [] \<and> hd ips \<noteq> pin then pin # filter (\<lambda>i. i \<noteq> pin) ips
          else ips)"

text \<open>The other servers are asked in the order of the catalog; the one that answers becomes the server of the cache.\<close>

fun ask_others :: "'w dns_net \<Rightarrow> string \<Rightarrow> string \<Rightarrow> (string \<times> string) list \<Rightarrow> 'w \<Rightarrow> (string \<times> string list) option \<times> 'w" where
  "ask_others net domain url [] w = (None, w)"
| "ask_others net domain url ((alt, name) # rest) w =
     (if alt = url then ask_others net domain url rest w
      else (case doh_query net domain alt w of
              ((ips, err), w') \<Rightarrow> if ips \<noteq> [] \<and> err = [] then (Some (alt, ips), w') else ask_others net domain url rest w'))"

definition resolve_live :: "dns_conf \<Rightarrow> 'w dns_net \<Rightarrow> string \<Rightarrow> string \<Rightarrow> DnsRunCache \<Rightarrow> 'w \<Rightarrow> string list \<times> DnsRunCache \<times> 'w" where
  "resolve_live cf net domain url c w =
     (case doh_query net domain url w of
        ((ips, err), w1) \<Rightarrow>
          if ips \<noteq> [] \<and> err = [] then (pinned_first c domain ips, cache_set domain ips (dn_now net w1) c, w1)
          else (case ask_others net domain url (trusted_doh_servers cf []) w1 of
                  (Some (alt, ips2), w2) \<Rightarrow>
                    (pinned_first c domain ips2, cache_set domain ips2 (dn_now net w2) (c\<lparr>dr_doh_server := alt\<rparr>), w2)
                | (None, w2) \<Rightarrow>
                    (let stored = dn_stored net domain w2
                     in if stored \<noteq> [] then (pinned_first c domain stored, cache_set domain stored (dn_now net w2) c, w2)
                        else (pinned_first c domain ips, c, w2))))"

definition resolve :: "dns_conf \<Rightarrow> 'w dns_net \<Rightarrow> string \<Rightarrow> string \<Rightarrow> DnsRunCache \<Rightarrow> 'w \<Rightarrow> string list \<times> DnsRunCache \<times> 'w" where
  "resolve cf net domain doh_url c w =
     (case cache_get domain (dn_now net w) c of
        (found, c1) \<Rightarrow>
          if found \<noteq> None \<and> found \<noteq> Some [] then (pinned_first c1 domain (the found), c1, w)
          else (case given_or_picked cf net (if doh_url \<noteq> [] then doh_url else dr_doh_server c1) w of
                  (url, w1) \<Rightarrow>
                    (let c2 = (if url \<noteq> [] \<and> dr_doh_server c1 = [] then c1\<lparr>dr_doh_server := url\<rparr> else c1)
                     in if url = [] then (pinned_first c2 domain [], c2, w1) else resolve_live cf net domain url c2 w1)))"

definition primary_ip :: "dns_conf \<Rightarrow> 'w dns_net \<Rightarrow> string \<Rightarrow> string \<Rightarrow> DnsRunCache \<Rightarrow> 'w \<Rightarrow> string option \<times> DnsRunCache \<times> 'w" where
  "primary_ip cf net domain doh_url c w =
     (case resolve cf net domain doh_url c w of (ips, c', w') \<Rightarrow> (case ips of [] \<Rightarrow> None | ip # _ \<Rightarrow> Some ip, c', w'))"

definition dns_candidates :: "dns_conf \<Rightarrow> 'w dns_net \<Rightarrow> string \<Rightarrow> DnsRunCache \<Rightarrow> 'w \<Rightarrow> string list \<times> DnsRunCache \<times> 'w" where
  "dns_candidates cf net domain c w =
     (case cache_get domain (dn_now net w) c of
        (found, c1) \<Rightarrow>
          if found \<noteq> None \<and> found \<noteq> Some [] then (the found, c1, w) else resolve cf net domain [] c1 w)"

fun prime_all :: "dns_conf \<Rightarrow> 'w dns_net \<Rightarrow> string list \<Rightarrow> string \<Rightarrow> DnsRunCache \<Rightarrow> 'w \<Rightarrow> DnsRunCache \<times> 'w" where
  "prime_all cf net [] url c w = (c, w)"
| "prime_all cf net (d # ds) url c w = (case resolve cf net d url c w of (ips, c', w') \<Rightarrow> prime_all cf net ds url c' w')"

definition prime :: "dns_conf \<Rightarrow> 'w dns_net \<Rightarrow> string list \<Rightarrow> string \<Rightarrow> DnsRunCache \<Rightarrow> 'w \<Rightarrow> DnsRunCache \<times> 'w" where
  "prime cf net domains doh_url c w =
     (case given_or_picked cf net doh_url w of
        (url, w1) \<Rightarrow> prime_all cf net domains url (if url \<noteq> [] then c\<lparr>dr_doh_server := url\<rparr> else c) w1)"

definition new_cache :: "rat \<Rightarrow> string \<Rightarrow> DnsRunCache" where
  "new_cache ttl server = \<lparr>dr_ttl = ttl, dr_doh_server = server, dr_entries = [], dr_pins = []\<rparr>"

text \<open>The result is the cache, if there is one, the audits and the exit code.\<close>

definition prepare_dns_for_run ::
    "dns_conf \<Rightarrow> 'w dns_net \<Rightarrow> ipset_env \<Rightarrow> rat \<Rightarrow> string list \<Rightarrow> bool \<Rightarrow> bool \<Rightarrow> bool \<Rightarrow> string \<Rightarrow> 'w \<Rightarrow>
     (DnsRunCache option \<times> DnsAuditResult list \<times> int) result \<times> 'w" where
  "prepare_dns_for_run cf net env ttl domains secure_dns skip_audit allow_hijack doh_server w =
     (if \<not> secure_dns then (Inr (None, [], 0), w)
      else (case given_or_picked cf net doh_server w of
              (url, w1) \<Rightarrow>
                (let c = new_cache ttl url
                 in case (if skip_audit then (Inr [], w1) else audit_domains cf net env domains url w1) of
                      (Inl e, w2) \<Rightarrow> (Inl e, w2)
                    | (Inr results, w2) \<Rightarrow>
                        if has_dns_sinkhole results \<and> \<not> allow_hijack then (Inr (Some c, results, 1), w2)
                        else (case prime cf net domains url c w2 of (c', w3) \<Rightarrow> (Inr (Some c', results, 0), w3)))))"

fun split_resolvable ::
    "dns_conf \<Rightarrow> 'w dns_net \<Rightarrow> string list \<Rightarrow> DnsRunCache \<Rightarrow> 'w \<Rightarrow> (string list \<times> string list) \<times> DnsRunCache \<times> 'w" where
  "split_resolvable cf net [] c w = (([], []), c, w)"
| "split_resolvable cf net (d # ds) c w =
     (if dict_get (dr_pins c) d \<noteq> None \<and> dict_get (dr_pins c) d \<noteq> Some []
      then (case split_resolvable cf net ds c w of ((kept, dropped), r) \<Rightarrow> ((d # kept, dropped), r))
      else (case primary_ip cf net d [] c w of
              (ip, c1, w1) \<Rightarrow>
                (case split_resolvable cf net ds c1 w1 of
                   ((kept, dropped), r) \<Rightarrow>
                     (if ip \<noteq> None \<and> ip \<noteq> Some [] then (d # kept, dropped) else (kept, d # dropped), r))))"

definition filter_resolvable_domains ::
    "dns_conf \<Rightarrow> 'w dns_net \<Rightarrow> string list \<Rightarrow> DnsRunCache option \<Rightarrow> 'w \<Rightarrow> (string list \<times> string list) \<times> DnsRunCache option \<times> 'w" where
  "filter_resolvable_domains cf net domains cache w =
     (case cache of
        None \<Rightarrow> ((domains, []), None, w)
      | Some c \<Rightarrow> (case split_resolvable cf net domains c w of (r, c', w') \<Rightarrow> (r, Some c', w')))"

section \<open>Pins that work\<close>

text \<open>
  \<open>l3\<close> and \<open>l7\<close> are the cheap and the full probe of an address, the second for a domain. The file of pins is
  its text, or none when it cannot be read; writing it may fail.
\<close>

record 'w pin_net =
  pn_l3 :: "string \<Rightarrow> 'w \<Rightarrow> bool \<times> 'w"
  pn_l7 :: "string \<Rightarrow> string \<Rightarrow> 'w \<Rightarrow> bool \<times> 'w"
  pn_save :: "string \<Rightarrow> 'w \<Rightarrow> 'w"

fun first_passing :: "'w pin_net \<Rightarrow> string \<Rightarrow> string list \<Rightarrow> 'w \<Rightarrow> string option \<times> 'w" where
  "first_passing pn domain [] w = (None, w)"
| "first_passing pn domain (ip # ips) w =
     (case pn_l3 pn ip w of
        (ok, w1) \<Rightarrow>
          if \<not> ok then first_passing pn domain ips w1
          else (case pn_l7 pn domain ip w1 of
                  (pass, w2) \<Rightarrow> if pass then (Some ip, w2) else first_passing pn domain ips w2))"

fun pin_each ::
    "dns_conf \<Rightarrow> 'w dns_net \<Rightarrow> 'w pin_net \<Rightarrow> (string, string) dict \<Rightarrow> string list \<Rightarrow> (string, string) dict \<Rightarrow> DnsRunCache \<Rightarrow> 'w \<Rightarrow>
     (string, string) dict \<times> DnsRunCache \<times> 'w" where
  "pin_each cf net pn pins [] updates c w = (updates, c, w)"
| "pin_each cf net pn pins (d # ds) updates c w =
     (case dns_candidates cf net d c w of
        (ips, c1, w1) \<Rightarrow>
          if ips = [] then pin_each cf net pn pins ds updates c1 w1
          else (let existing = dict_getd pins d [];
                    tries = foldl add_new (if existing \<noteq> [] then [existing] else []) ips
                in case first_passing pn d tries w1 of
                     (picked, w2) \<Rightarrow>
                       (if picked \<noteq> None \<and> picked \<noteq> Some []
                        then pin_each cf net pn pins ds (dict_set d (the picked) updates)
                               (if dict_get (dr_pins c1) d \<noteq> picked then add_pin d (the picked) c1 else c1) w2
                        else pin_each cf net pn pins ds updates (if existing \<noteq> [] then add_pin d existing c1 else c1) w2)))"

text \<open>The result is the cache and what is written to the file, if anything is.\<close>

definition auto_pin_ips ::
    "dns_conf \<Rightarrow> 'w dns_net \<Rightarrow> 'w pin_net \<Rightarrow> string \<Rightarrow> string option \<Rightarrow> DnsRunCache \<Rightarrow> 'w \<Rightarrow>
     (string, string) dict option \<times> DnsRunCache \<times> 'w" where
  "auto_pin_ips cf net pn path file c w =
     (let file_pins = (if path \<noteq> [] then load_pins file else []);
          pins = merge_pins file_pins (dr_pins c);
          c1 = set_pins pins c;
          domains = filter (\<lambda>d. d \<noteq> []) (map fst (dr_entries c1))
      in if domains = [] then (None, c1, w)
         else (case pin_each cf net pn pins domains [] c1 w of
                 (updates, c2, w2) \<Rightarrow>
                   (let merged = merge_pins file_pins updates
                    in if path = [] \<or> set merged = set file_pins then (None, c2, w2)
                       else (Some merged, c2, pn_save pn (dump_pins merged) w2))))"

section \<open>Untrusted resolvers\<close>

definition same_trusted :: "dns_conf \<Rightarrow> 'w dns_net \<Rightarrow> 'w dns_net \<Rightarrow> bool" where
  "same_trusted cf n1 n2 \<longleftrightarrow>
     n2 = n1\<lparr>dn_json := dn_json n2, dn_wire := dn_wire n2\<rparr> \<and>
     (\<forall>url. doh_is_trusted cf url \<longrightarrow> dn_json n1 url = dn_json n2 url \<and> dn_wire n1 url = dn_wire n2 url)"

lemma same_fields:
  assumes "same_trusted cf n1 n2"
  shows "dn_idna n2 = dn_idna n1" "dn_udp n2 = dn_udp n1" "dn_text n2 = dn_text n1" "dn_exc n2 = dn_exc n1"
    "dn_now n2 = dn_now n1" "dn_stored n2 = dn_stored n1"
proof -
  have n2: "n2 = n1\<lparr>dn_json := dn_json n2, dn_wire := dn_wire n2\<rparr>" using assms by (simp add: same_trusted_def)
  show "dn_idna n2 = dn_idna n1" "dn_udp n2 = dn_udp n1" "dn_text n2 = dn_text n1" "dn_exc n2 = dn_exc n1"
    "dn_now n2 = dn_now n1" "dn_stored n2 = dn_stored n1"
    by (subst n2, simp)+
qed

lemma same_query:
  assumes "same_trusted cf n1 n2" and "doh_is_trusted cf url"
  shows "doh_query n2 d url = doh_query n1 d url"
proof (rule ext)
  fix w
  note fields = same_fields [OF assms(1)]
  have url: "dn_json n2 url = dn_json n1 url" "dn_wire n2 url = dn_wire n1 url"
    using assms unfolding same_trusted_def by metis+
  have exc: "exc_answer n2 = exc_answer n1" by (intro ext) (simp add: exc_answer_def fields)
  have ans: "json_answer n2 = json_answer n1" "wire_answer n2 = wire_answer n1"
    by (intro ext; unfold json_answer_def wire_answer_def exc fields; rule refl)+
  have both: "doh_json_query n2 d url = doh_json_query n1 d url" "doh_wire_query n2 d url = doh_wire_query n1 d url"
    by (intro ext; unfold doh_json_query_def doh_wire_query_def exc ans fields url; rule refl)+
  show "doh_query n2 d url w = doh_query n1 d url w" unfolding doh_query_def both by (rule refl)
qed

lemma candidates_trusted: "url \<in> set (doh_candidates cf servers) \<Longrightarrow> doh_is_trusted cf url"
  by (auto simp: doh_candidates_def Let_def trusted_doh_servers_def split: if_splits)

lemma same_working:
  "same_trusted cf n1 n2 \<Longrightarrow> \<forall>u \<in> set urls. doh_is_trusted cf u \<Longrightarrow> first_working n2 d urls w = first_working n1 d urls w"
  by (induction urls arbitrary: w) (auto simp: same_query split: prod.splits)

lemma same_picked: "same_trusted cf n1 n2 \<Longrightarrow> given_or_picked cf n2 url w = given_or_picked cf n1 url w"
  using candidates_trusted by (simp add: given_or_picked_def pick_working_doh_def same_working)

lemma picked_trusted: "given_or_picked cf net [] w = (u, w') \<Longrightarrow> u = [] \<or> doh_is_trusted cf u"
proof -
  have "first_working net d urls w = (Some u, w') \<Longrightarrow> u \<in> set urls" for d urls w u w'
    by (induction urls arbitrary: w) (auto split: prod.splits if_splits)
  then show "given_or_picked cf net [] w = (u, w') \<Longrightarrow> u = [] \<or> doh_is_trusted cf u"
    using candidates_trusted by (fastforce simp: given_or_picked_def pick_working_doh_def split: prod.splits option.splits)
qed

lemma same_udp: "same_trusted cf n1 n2 \<Longrightarrow> audit_udp n2 d servers res w = audit_udp n1 d servers res w"
proof (induction servers arbitrary: res w)
  case (Cons s servers)
  have one: "udp_resolve n2 = udp_resolve n1" by (intro ext; unfold udp_resolve_def same_fields [OF Cons.prems]; rule refl)
  have rest: "audit_udp n2 d servers = audit_udp n1 d servers" by (intro ext) (rule Cons.IH [OF Cons.prems])
  obtain a b where s: "s = (a, b)" by (cases s)
  show ?case unfolding s audit_udp.simps one rest by (rule refl)
qed simp

lemma audit_verdict_others:
  "audit_verdict env (r\<lparr>da_untrusted_doh := x\<rparr>) = (audit_verdict env r)\<lparr>da_untrusted_doh := x\<rparr>"
  by (simp add: audit_verdict_def Let_def)

definition shown :: "DnsAuditResult result \<Rightarrow> DnsAuditResult result" where
  "shown r = map_sum id (\<lambda>a. a\<lparr>da_untrusted_doh := []\<rparr>) r"

text \<open>
  The answers of an untrusted resolver never matter to an audit: whatever they are, also when the caller
  names such a resolver itself, the addresses, the server, the verdict and the description of the audit are
  the same; only the list that is displayed beside them may differ.
\<close>

theorem audit_ignores_untrusted:
  assumes "same_trusted cf n1 n2"
  shows "shown (fst (audit_domain cf n1 env domain url w)) = shown (fst (audit_domain cf n2 env domain url w))"
proof -
  obtain a w1 where a: "audit_udp n1 domain (dc_udp cf) (new_audit domain) w = (a, w1)"
    by (cases "audit_udp n1 domain (dc_udp cf) (new_audit domain) w")
  have a2: "audit_udp n2 domain (dc_udp cf) (new_audit domain) w = (a, w1)" using same_udp [OF assms] a by metis
  show ?thesis
  proof (cases a)
    case (Inl e)
    then show ?thesis using a a2 by (simp add: audit_domain_def)
  next
    case (Inr r)
    obtain doh0 w2 where b: "given_or_picked cf n1 url w1 = (doh0, w2)" by (cases "given_or_picked cf n1 url w1")
    let ?second = "\<lambda>net. if doh0 = [] \<or> \<not> doh_is_trusted cf doh0 then given_or_picked cf net [] w2 else (doh0, w2)"
    obtain doh w3 where c: "?second n1 = (doh, w3)" by (cases "?second n1")
    have c2: "?second n2 = (doh, w3)" using c by (simp only: same_picked [OF assms])
    have "doh = [] \<or> doh_is_trusted cf doh" using c picked_trusted [of cf n1 w2 doh w3] by (auto split: if_splits)
    then have q2: "(if doh \<noteq> [] then doh_query n2 domain doh w3 else (([], ''no working DoH''), w3)) =
        (if doh \<noteq> [] then doh_query n1 domain doh w3 else (([], ''no working DoH''), w3))"
      using same_query [OF assms] by auto
    obtain ips err w4 where q: "(if doh \<noteq> [] then doh_query n1 domain doh w3 else (([], ''no working DoH''), w3)) = ((ips, err), w4)"
      by (metis surj_pair)
    obtain o1 v1 where o1: "ask_all n1 domain (untrusted_doh_servers cf []) [] w4 = (o1, v1)"
      by (cases "ask_all n1 domain (untrusted_doh_servers cf []) [] w4")
    obtain o2 v2 where o2: "ask_all n2 domain (untrusted_doh_servers cf []) [] w4 = (o2, v2)"
      by (cases "ask_all n2 domain (untrusted_doh_servers cf []) [] w4")
    let ?r = "r\<lparr>da_doh_server := doh, da_doh_ips := ips, da_doh_error := (if err \<noteq> [] then Some err else None)\<rparr>"
    have "fst (audit_domain cf n1 env domain url w) = Inr (audit_verdict env (?r\<lparr>da_untrusted_doh := o1\<rparr>))"
      using a Inr b c q o1 by (simp add: audit_domain_def Let_def)
    moreover have "fst (audit_domain cf n2 env domain url w) = Inr (audit_verdict env (?r\<lparr>da_untrusted_doh := o2\<rparr>))"
      using a2 Inr b same_picked [OF assms, of url w1] c2 q2 q o2 by (simp add: audit_domain_def Let_def)
    ultimately show ?thesis by (simp only: audit_verdict_others) (simp add: shown_def)
  qed
qed

section \<open>A cached answer\<close>

lemma pinned_first_pins: "dr_pins c' = dr_pins c \<Longrightarrow> pinned_first c' = pinned_first c"
  by (simp add: fun_eq_iff pinned_first_def)

lemma resolve_live_cached:
  assumes "resolve_live cf net d url c w = (ips, c', w')"
  shows "dr_pins c' = dr_pins c \<and> dr_ttl c' = dr_ttl c \<and>
         (c' = c \<and> ips = pinned_first c d [] \<or>
          (\<exists>raw. raw \<noteq> [] \<and> dict_get (dr_entries c') d = Some (raw, dn_now net w') \<and> ips = pinned_first c d raw))"
proof -
  obtain ips1 err w1 where q: "doh_query net d url w = ((ips1, err), w1)" by (metis surj_pair)
  have none: "ips1 = []" if "err \<noteq> []"
    using q that by (auto simp: doh_query_def split: prod.splits if_splits)
  show ?thesis
  proof (cases "ips1 \<noteq> [] \<and> err = []")
    case True
    then show ?thesis using assms q by (auto simp: resolve_live_def cache_set_def map_of_update')
  next
    case False
    then have no: "ips1 = []" using none by blast
    obtain alt w2 where o1: "ask_others net d url (trusted_doh_servers cf []) w1 = (alt, w2)"
      by (cases "ask_others net d url (trusted_doh_servers cf []) w1")
    show ?thesis
    proof (cases alt)
      case None
      then show ?thesis using assms q no o1
        by (cases "dn_stored net d w2 = []") (auto simp: resolve_live_def cache_set_def map_of_update' Let_def)
    next
      case (Some p)
      obtain u ips2 where p: "p = (u, ips2)" by (cases p)
      have "ask_others net d url servers v = (Some (u, ips2), v') \<Longrightarrow> ips2 \<noteq> []" for servers v v'
        by (induction servers arbitrary: v) (auto split: prod.splits if_splits)
      then have "ips2 \<noteq> []" using o1 Some p by blast
      then show ?thesis using assms q no o1 Some p by (auto simp: resolve_live_def cache_set_def map_of_update')
    qed
  qed
qed

lemma cache_get_fields:
  "cache_get d now c = (found, c') \<Longrightarrow> dr_pins c' = dr_pins c \<and> dr_ttl c' = dr_ttl c \<and> dr_doh_server c' = dr_doh_server c"
  by (auto simp: cache_get_def split: option.splits prod.splits if_splits)

lemma resolve_pins: "resolve cf net d u c w = (ips, c', w') \<Longrightarrow> dr_pins c' = dr_pins c \<and> dr_ttl c' = dr_ttl c"
proof -
  assume r: "resolve cf net d u c w = (ips, c', w')"
  obtain found c1 where g: "cache_get d (dn_now net w) c = (found, c1)" by (cases "cache_get d (dn_now net w) c")
  note keep = cache_get_fields [OF g]
  show ?thesis
  proof (cases "found \<noteq> None \<and> found \<noteq> Some []")
    case True
    then show ?thesis using r g keep by (simp add: resolve_def)
  next
    case False
    obtain url w1 where p: "given_or_picked cf net (if u \<noteq> [] then u else dr_doh_server c1) w = (url, w1)"
      by (cases "given_or_picked cf net (if u \<noteq> [] then u else dr_doh_server c1) w")
    let ?c2 = "if url \<noteq> [] \<and> dr_doh_server c1 = [] then c1\<lparr>dr_doh_server := url\<rparr> else c1"
    have c2: "dr_pins ?c2 = dr_pins c" "dr_ttl ?c2 = dr_ttl c" using keep by auto
    show ?thesis
    proof (cases "url = []")
      case True
      then show ?thesis using r g p False keep by (auto simp: resolve_def Let_def)
    next
      case url: False
      then have "resolve_live cf net d url ?c2 w1 = (ips, c', w')"
        using r g p False by (auto simp: resolve_def Let_def)
      from resolve_live_cached [OF this] show ?thesis using c2 by auto
    qed
  qed
qed

end
