(* ===== verification/DnsProps.thy ===== *)
theory DnsProps
  imports DnsAudit
begin

text \<open>
  What the DNS layer of a run promises: a resolved name is answered from the cache, and only addresses that
  passed the probes become pins.
\<close>

section \<open>The cache answers\<close>

text \<open>
  A name that was resolved is answered from the cache: right after a resolution that found addresses, other
  than a mere pin, resolving the name again gives the same addresses, leaves the cache as it is and asks
  nobody.
\<close>

theorem resolved_name_cached:
  assumes "resolve cf net d u c w = (ips, c', w')" and "0 \<le> dr_ttl c" and "dict_get (dr_entries c') d = Some (raw0, t0)" and "raw0 \<noteq> []"
  shows "resolve cf net d u' c' w' = (ips, c', w')"
proof -
  obtain found c1 where g: "cache_get d (dn_now net w) c = (found, c1)" by (cases "cache_get d (dn_now net w) c")
  note keep = cache_get_fields [OF g]
  have hit: ?thesis if "dict_get (dr_entries c') d = Some (raw, ts)" "dn_now net w' - ts \<le> dr_ttl c'" "raw \<noteq> []"
      "ips = pinned_first c' d raw" for raw ts
    using that by (simp add: resolve_def cache_get_def)
  show ?thesis
  proof (cases "found \<noteq> None \<and> found \<noteq> Some []")
    case True
    then obtain raw where raw: "found = Some raw" "raw \<noteq> []" by auto
    then obtain ts where ts: "c1 = c" "dict_get (dr_entries c) d = Some (raw, ts)" "dn_now net w - ts \<le> dr_ttl c"
      using g by (auto simp: cache_get_def split: option.splits prod.splits if_splits)
    have fin: "ips = pinned_first c1 d raw" "c' = c1" "w' = w" using assms(1) g raw by (auto simp: resolve_def)
    show ?thesis by (rule hit [of raw ts]) (use ts fin raw(2) in simp_all)
  next
    case False
    obtain url w1 where p: "given_or_picked cf net (if u \<noteq> [] then u else dr_doh_server c1) w = (url, w1)"
      by (cases "given_or_picked cf net (if u \<noteq> [] then u else dr_doh_server c1) w")
    let ?c2 = "if url \<noteq> [] \<and> dr_doh_server c1 = [] then c1\<lparr>dr_doh_server := url\<rparr> else c1"
    have empty: "dict_get (dr_entries c1) d = None \<or> (\<exists>ts. dict_get (dr_entries c1) d = Some ([], ts))"
      using g False by (auto simp: cache_get_def map_of_delete' split: option.splits prod.splits if_splits)
    show ?thesis
    proof (cases "url = []")
      case True
      then have "c' = c1" using assms(1) p False g by (auto simp: resolve_def Let_def)
      then show ?thesis using empty assms(3,4) by auto
    next
      case url: False
      then have "resolve_live cf net d url ?c2 w1 = (ips, c', w')"
        using assms(1) g p False by (auto simp: resolve_def Let_def)
      from resolve_live_cached [OF this] have live: "dr_pins c' = dr_pins ?c2" "dr_ttl c' = dr_ttl ?c2"
          "c' = ?c2 \<and> ips = pinned_first ?c2 d [] \<or>
           (\<exists>raw. raw \<noteq> [] \<and> dict_get (dr_entries c') d = Some (raw, dn_now net w') \<and> ips = pinned_first ?c2 d raw)"
        by blast+
      have "c' \<noteq> ?c2" using empty assms(3,4) by auto
      then obtain raw where raw: "raw \<noteq> []" "dict_get (dr_entries c') d = Some (raw, dn_now net w')" "ips = pinned_first ?c2 d raw"
        using live(3) by blast
      have "dr_ttl ?c2 = dr_ttl c" using keep by simp
      then have "dn_now net w' - dn_now net w' \<le> dr_ttl c'" using live(2) assms(2) by simp
      then show ?thesis using hit [OF raw(2) _ raw(1)] raw(3) pinned_first_pins [OF live(1)] by simp
    qed
  qed
qed

section \<open>Pins are addresses that passed\<close>

definition passed :: "'w pin_net \<Rightarrow> string \<Rightarrow> string \<Rightarrow> bool" where
  "passed pn d ip \<longleftrightarrow> (\<exists>w w1 w2. pn_l3 pn ip w = (True, w1) \<and> pn_l7 pn d ip w1 = (True, w2))"

lemma first_passing_passed: "first_passing pn d ips w = (Some ip, w') \<Longrightarrow> ip \<in> set ips \<and> passed pn d ip"
proof (induction ips arbitrary: w)
  case (Cons x ips)
  obtain ok w1 where l3: "pn_l3 pn x w = (ok, w1)" by (cases "pn_l3 pn x w")
  obtain pass w2 where l7: "pn_l7 pn d x w1 = (pass, w2)" by (cases "pn_l7 pn d x w1")
  show ?case
  proof (cases "ok \<and> pass")
    case True
    then show ?thesis using Cons.prems l3 l7 by (auto simp: passed_def)
  next
    case False
    then have "\<exists>v. first_passing pn d ips v = (Some ip, w')" using Cons.prems l3 l7 by (auto split: if_splits)
    then show ?thesis using Cons.IH by auto
  qed
qed simp

lemma candidates_pins: "dns_candidates cf net d c w = (ips, c', w') \<Longrightarrow> dr_pins c' = dr_pins c"
proof -
  assume r: "dns_candidates cf net d c w = (ips, c', w')"
  obtain found c1 where g: "cache_get d (dn_now net w) c = (found, c1)" by (cases "cache_get d (dn_now net w) c")
  show ?thesis
  proof (cases "found \<noteq> None \<and> found \<noteq> Some []")
    case False
    then have "resolve cf net d [] c1 w = (ips, c', w')" using r g by (auto simp: dns_candidates_def)
    then show ?thesis using resolve_pins cache_get_fields [OF g] by metis
  qed (use r g cache_get_fields [OF g] in \<open>simp add: dns_candidates_def\<close>)
qed

definition pins_from :: "'w pin_net \<Rightarrow> (string, string) dict \<Rightarrow> (string, string) dict \<Rightarrow> bool" where
  "pins_from pn old new \<longleftrightarrow> (\<forall>(d, ip) \<in> set new. (d, ip) \<in> set old \<or> passed pn d ip)"

lemma pins_from_refl: "pins_from pn old old"
  by (auto simp: pins_from_def)

lemma pins_from_set:
  "pins_from pn old new \<Longrightarrow> (d, ip) \<in> set old \<or> passed pn d ip \<Longrightarrow> pins_from pn old (dict_set d ip new)"
  using set_update_subset [of d ip new] unfolding pins_from_def by blast

lemma pin_each_sound:
  "pin_each cf net pn pins ds updates c w = (updates', c', w') \<Longrightarrow> pins_from pn [] updates \<Longrightarrow> pins_from pn pins (dr_pins c) \<Longrightarrow>
   pins_from pn [] updates' \<and> pins_from pn pins (dr_pins c')"
proof (induction ds arbitrary: updates c w)
  case (Cons d ds)
  obtain ips c1 w1 where k: "dns_candidates cf net d c w = (ips, c1, w1)" by (metis prod_cases3)
  have c1: "pins_from pn pins (dr_pins c1)" using Cons.prems(3) candidates_pins [OF k] by simp
  show ?case
  proof (cases "ips = []")
    case True
    then show ?thesis using Cons.IH [OF _ Cons.prems(2) c1] Cons.prems(1) k by simp
  next
    case False
    let ?old = "dict_getd pins d []" let ?tries = "foldl add_new (if ?old \<noteq> [] then [?old] else []) ips"
    obtain picked w2 where f: "first_passing pn d ?tries w1 = (picked, w2)" by (cases "first_passing pn d ?tries w1")
    show ?thesis
    proof (cases "picked \<noteq> None \<and> picked \<noteq> Some []")
      case True
      then obtain ip where ip: "picked = Some ip" "ip \<noteq> []" by auto
      have pass: "passed pn d ip" using first_passing_passed f ip by metis
      let ?c2 = "if dict_get (dr_pins c1) d \<noteq> picked then add_pin d ip c1 else c1"
      have "pins_from pn pins (dr_pins ?c2)" using c1 pass ip by (auto simp: add_pin_def intro: pins_from_set)
      moreover have "pins_from pn [] (dict_set d ip updates)" using Cons.prems(2) pass by (auto intro: pins_from_set)
      moreover have "pin_each cf net pn pins ds (dict_set d ip updates) ?c2 w2 = (updates', c', w')"
        using Cons.prems(1) k False f ip by (simp add: Let_def split: if_splits)
      ultimately show ?thesis using Cons.IH by metis
    next
      case none: False
      let ?c2 = "if ?old \<noteq> [] then add_pin d ?old c1 else c1"
      have "(d, ?old) \<in> set pins" if "?old \<noteq> []"
        using that by (auto simp: dict_getd_def split: option.splits dest: map_of_SomeD)
      then have "pins_from pn pins (dr_pins ?c2)" using c1 by (auto simp: add_pin_def intro: pins_from_set)
      moreover have "pin_each cf net pn pins ds updates ?c2 w2 = (updates', c', w')"
        using Cons.prems(1) k False f none by (auto simp: Let_def)
      ultimately show ?thesis using Cons.IH Cons.prems(2) by metis
    qed
  qed
qed simp

text \<open>
  C31. No address becomes a pin without passing: after pinning, every pin of the cache was in the pin file or
  among the pins before, or passed both probes for its domain, and every line that is written to the file was
  in the file or passed them.
\<close>

theorem pins_passed_or_old:
  assumes "auto_pin_ips cf net pn path file c w = (written, c', w')"
  shows "(\<forall>(d, ip) \<in> set (dr_pins c'). (d, ip) \<in> set (load_pins file) \<or> (d, ip) \<in> set (dr_pins c) \<or> passed pn d ip) \<and>
         (\<forall>pins. written = Some pins \<longrightarrow> (\<forall>(d, ip) \<in> set pins. (d, ip) \<in> set (load_pins file) \<or> passed pn d ip))"
proof -
  let ?fp = "if path \<noteq> [] then load_pins file else []" let ?pins = "merge_pins ?fp (dr_pins c)" let ?c1 = "set_pins ?pins c"
  have merged: "p \<in> set (merge_pins a b) \<Longrightarrow> p \<in> set a \<or> p \<in> set b" for p a b
    using set_all_members [of p "filter (\<lambda>(d, ip). ip \<noteq> []) b" a] by (auto simp: merge_pins_def)
  have old: "p \<in> set ?pins \<Longrightarrow> p \<in> set (load_pins file) \<or> p \<in> set (dr_pins c)" for p
    using merged [of p ?fp "dr_pins c"] by (auto split: if_splits)
  have c1: "pins_from pn ?pins (dr_pins ?c1)" by (auto simp: pins_from_def set_pins_def)
  show ?thesis
  proof (cases "filter (\<lambda>d. d \<noteq> []) (map fst (dr_entries ?c1)) = []")
    case True
    then have "written = None" "c' = ?c1" using assms by (auto simp: auto_pin_ips_def Let_def)
    moreover have "p \<in> set (dr_pins ?c1) \<Longrightarrow> p \<in> set ?pins" for p by (simp add: set_pins_def)
    ultimately show ?thesis using old by blast
  next
    case False
    obtain up c2 w2 where e: "pin_each cf net pn ?pins (filter (\<lambda>d. d \<noteq> []) (map fst (dr_entries ?c1))) [] ?c1 w = (up, c2, w2)"
      by (metis prod_cases3)
    have up: "pins_from pn [] up" "pins_from pn ?pins (dr_pins c2)"
      using pin_each_sound [OF e _ c1] by (simp_all add: pins_from_def)
    have res: "c' = c2" "\<And>pins. written = Some pins \<Longrightarrow> pins = merge_pins ?fp up"
      using assms e False unfolding auto_pin_ips_def Let_def by (auto split: if_splits)
    have "(d, ip) \<in> set (load_pins file) \<or> (d, ip) \<in> set (dr_pins c) \<or> passed pn d ip" if "(d, ip) \<in> set (dr_pins c')" for d ip
      using that up(2) old res(1) unfolding pins_from_def by blast
    moreover have "(d, ip) \<in> set (load_pins file) \<or> passed pn d ip" if "written = Some pins" "(d, ip) \<in> set pins" for pins d ip
      using merged [of "(d, ip)" ?fp up] res(2) [OF that(1)] that(2) up(1) unfolding pins_from_def by (auto split: if_splits)
    ultimately show ?thesis by blast
  qed
qed

section \<open>A concrete network\<close>

text \<open>Every resolver answers 1.2.3.4, but the untrusted one answers \<open>bad\<close>; plaintext DNS is silent.\<close>

definition demo_net :: "string \<Rightarrow> unit dns_net" where
  "demo_net bad =
     \<lparr>dn_idna = (\<lambda>_. None), dn_udp = (\<lambda>server q w. (DatagramTimeout, w)),
      dn_json = (\<lambda>url name w. (HttpReply 200 (Inr [(''Status'', JInt 0),
        (''Answer'', JList [JDict [(''type'', JInt 1), (''data'', JStr (if url = YANDEX_DOH then bad else ''1.2.3.4''))]])]), w)),
      dn_wire = (\<lambda>url q w. (HttpExc ''no route'', w)), dn_text = (\<lambda>_. []), dn_exc = (\<lambda>_. ''error''), dn_now = (\<lambda>_. 0),
      dn_stored = (\<lambda>_ _. [])\<rparr>"

lemma yandex_untrusted: "\<not> doh_is_trusted baked_conf YANDEX_DOH"
  by code_simp

definition no_catalog :: ipset_env where
  "no_catalog = \<lparr>ie_override = (\<lambda>_. None), ie_cdn = [], ie_file = (\<lambda>_. None), ie_listing = []\<rparr>"

lemma demo_same_trusted: "same_trusted baked_conf (demo_net a) (demo_net b)"
  using yandex_untrusted by (auto simp: same_trusted_def demo_net_def)

lemma audit_ignores_untrusted_witness:
  "shown (fst (audit_domain baked_conf (demo_net ''10.0.0.1'') no_catalog ''a.io'' YANDEX_DOH ())) =
   shown (fst (audit_domain baked_conf (demo_net ''1.2.3.4'') no_catalog ''a.io'' YANDEX_DOH ()))"
  by (rule audit_ignores_untrusted [OF demo_same_trusted])

lemma resolved_name_cached_witness:
  "\<exists>c. resolve baked_conf (demo_net ''10.0.0.1'') ''a.io'' [] c () = ([''1.2.3.4''], c, ()) \<and> dr_pins c = []"
proof -
  let ?server = "''https://dns.google/dns-query''"
  let ?c = "\<lparr>dr_ttl = 3600, dr_doh_server = ?server, dr_entries = [(''a.io'', [''1.2.3.4''], 0)], dr_pins = []\<rparr>"
  have "resolve baked_conf (demo_net ''10.0.0.1'') ''a.io'' [] (new_cache 3600 ?server) () = ([''1.2.3.4''], ?c, ())"
    by code_simp
  from resolved_name_cached [OF this, of "[''1.2.3.4'']" 0] show ?thesis by (intro exI [of _ ?c]) (simp add: new_cache_def)
qed

lemma pins_passed_or_old_witness:
  "\<exists>c. auto_pin_ips baked_conf (demo_net ''10.0.0.1'')
         \<lparr>pn_l3 = (\<lambda>ip w. (True, w)), pn_l7 = (\<lambda>d ip w. (ip = ''1.2.3.4'', w)), pn_save = (\<lambda>_ w. w)\<rparr> [] None
         (cache_set ''a.io'' [''9.9.9.9'', ''1.2.3.4''] 0 (new_cache 3600 [])) () = (None, c, ()) \<and>
       dr_pins c = [(''a.io'', ''1.2.3.4'')]"
proof -
  let ?pn = "\<lparr>pn_l3 = (\<lambda>ip w. (True, w)), pn_l7 = (\<lambda>d ip w. (ip = ''1.2.3.4'', w)), pn_save = (\<lambda>_ w. w)\<rparr> :: unit pin_net"
  let ?c = "cache_set ''a.io'' [''9.9.9.9'', ''1.2.3.4''] 0 (new_cache 3600 [])"
  have run: "auto_pin_ips baked_conf (demo_net ''10.0.0.1'') ?pn [] None ?c () =
      (None, ?c\<lparr>dr_pins := [(''a.io'', ''1.2.3.4'')]\<rparr>, ())" by code_simp
  have "\<forall>(d, ip) \<in> set (dr_pins (?c\<lparr>dr_pins := [(''a.io'', ''1.2.3.4'')]\<rparr>)).
      (d, ip) \<in> set (load_pins None) \<or> (d, ip) \<in> set (dr_pins ?c) \<or> passed ?pn d ip"
    by (rule conjunct1 [OF pins_passed_or_old [OF run]])
  then show ?thesis using run by auto
qed

text \<open>A resolver that the audit ignores is used for the cache when the caller names it.\<close>

lemma named_untrusted_fills_cache:
  "fst (resolve baked_conf (demo_net ''10.0.0.1'') ''a.io'' YANDEX_DOH (new_cache 3600 YANDEX_DOH) ()) = [''10.0.0.1'']"
  by code_simp

text \<open>A name that cannot be encoded ends the audit with an error of the encoder, which nothing on the way catches.\<close>

lemma audit_escapes:
  assumes "domain_to_dns_ascii (dn_idna net) domain = Inl e" and "dc_udp cf \<noteq> []"
  shows "audit_domain cf net env domain url w = (Inl e, w)"
proof -
  obtain server name rest where s: "dc_udp cf = (server, name) # rest" using assms(2) by (cases "dc_udp cf") auto
  have "build_dns_query (dn_idna net) domain = Inl e" using assms(1) by (simp add: build_dns_query_def)
  then show ?thesis by (simp add: audit_domain_def s udp_resolve_def)
qed

end
