(* ===== verification/IpBlock.thy ===== *)
theory IpBlock
  imports DnsAudit
begin

text \<open>
  \<^verbatim>\<open>checkers/ip_block.py\<close>: the cross-test that tells a block by server name from a block by address. The TLS
  check of \<^verbatim>\<open>checkers/tcp_tls.py\<close> is an argument; the printed report is left out but for the hint about content networks.
\<close>

record tls_result =
  tl_success :: bool
  tl_status :: string
  tl_error :: string

type_synonym 'w tls_check = "string \<Rightarrow> string \<Rightarrow> 'w \<Rightarrow> tls_result \<times> 'w"

record IpBlockProbe =
  ib_label :: string
  ib_sni :: string
  ib_connect_ip :: string
  ib_result :: tls_result

record IpBlockReport =
  ir_blocked :: string
  ir_unblocked :: string
  ir_baseline_ok :: bool
  ir_unblocked_ip :: string
  ir_blocked_ips :: "string list"
  ir_probes :: "IpBlockProbe list"
  ir_sni_likely :: bool
  ir_ip_block_on :: "string list"
  ir_skipped :: bool
  ir_skip_reason :: string

definition new_report :: "string \<Rightarrow> string \<Rightarrow> IpBlockReport" where
  "new_report blocked unblocked =
     \<lparr>ir_blocked = blocked, ir_unblocked = unblocked, ir_baseline_ok = False, ir_unblocked_ip = [], ir_blocked_ips = [], ir_probes = [],
      ir_sni_likely = False, ir_ip_block_on = [], ir_skipped = False, ir_skip_reason = []\<rparr>"

definition ip_probe :: "'w tls_check \<Rightarrow> string \<Rightarrow> string \<Rightarrow> string \<Rightarrow> 'w \<Rightarrow> IpBlockProbe \<times> 'w" where
  "ip_probe tls label sni ip w =
     (case tls sni ip w of (r, w') \<Rightarrow> (\<lparr>ib_label = label, ib_sni = sni, ib_connect_ip = ip, ib_result = r\<rparr>, w'))"

fun probe_ips :: "'w tls_check \<Rightarrow> string list \<Rightarrow> IpBlockReport \<Rightarrow> 'w \<Rightarrow> IpBlockReport \<times> 'w" where
  "probe_ips tls [] rep w = (rep, w)"
| "probe_ips tls (ip # ips) rep w =
     (case ip_probe tls (ir_unblocked rep @ '' SNI @ '' @ ir_blocked rep @ '' IP '' @ ip) (ir_unblocked rep) ip w of
        (p, w') \<Rightarrow>
          probe_ips tls ips
            (rep\<lparr>ir_probes := ir_probes rep @ [p],
                 ir_ip_block_on := (if tl_success (ib_result p) then ir_ip_block_on rep else ir_ip_block_on rep @ [ip])\<rparr>) w')"

text \<open>The cache is the one that is given, or a new one with a server that works.\<close>

definition run_ip_block_cross_test ::
    "dns_conf \<Rightarrow> 'w dns_net \<Rightarrow> 'w tls_check \<Rightarrow> rat \<Rightarrow> string \<Rightarrow> string \<Rightarrow> DnsRunCache option \<Rightarrow> 'w \<Rightarrow> IpBlockReport \<times> DnsRunCache \<times> 'w" where
  "run_ip_block_cross_test cf net tls ttl blocked unblocked cache w =
     (case (case cache of Some c \<Rightarrow> (c, w)
            | None \<Rightarrow> (case pick_working_doh cf net [] PROBE_DOMAIN w of
                        (u, w') \<Rightarrow> (new_cache ttl (case u of None \<Rightarrow> [] | Some s \<Rightarrow> s), w'))) of
        (c0, w0) \<Rightarrow>
      (case primary_ip cf net unblocked [] c0 w0 of
         (ip, c1, w1) \<Rightarrow>
           (let rep = (new_report blocked unblocked)\<lparr>ir_unblocked_ip := (case ip of None \<Rightarrow> [] | Some s \<Rightarrow> s)\<rparr>
            in if ir_unblocked_ip rep = []
               then (rep\<lparr>ir_skipped := True, ir_skip_reason := unblocked @ '' does not resolve via DoH''\<rparr>, c1, w1)
               else (case tls unblocked (ir_unblocked_ip rep) w1 of
                       (base, w2) \<Rightarrow>
                         if \<not> tl_success base
                         then (rep\<lparr>ir_baseline_ok := False, ir_skipped := True,
                                   ir_skip_reason := unblocked @ '' baseline failed: '' @ (if tl_error base \<noteq> [] then tl_error base else tl_status base)\<rparr>, c1, w2)
                         else (case resolve cf net blocked [] c1 w2 of
                                 (ips, c3, w3) \<Rightarrow>
                               (case ip_probe tls (blocked @ '' SNI @ '' @ unblocked @ '' IP'') blocked (ir_unblocked_ip rep) w3 of
                                  (p, w4) \<Rightarrow>
                                    (case probe_ips tls (take 5 ips)
                                            (rep\<lparr>ir_baseline_ok := True, ir_blocked_ips := ips, ir_probes := [p],
                                                 ir_sni_likely := tl_success (ib_result p)\<rparr>) w4 of
                                       (rep', w5) \<Rightarrow> (rep', c3, w5))))))))"

fun run_ip_block_preflight ::
    "dns_conf \<Rightarrow> 'w dns_net \<Rightarrow> 'w tls_check \<Rightarrow> rat \<Rightarrow> string list \<Rightarrow> string \<Rightarrow> DnsRunCache option \<Rightarrow> 'w \<Rightarrow>
     IpBlockReport list \<times> DnsRunCache option \<times> 'w" where
  "run_ip_block_preflight cf net tls ttl [] ref cache w = ([], cache, w)"
| "run_ip_block_preflight cf net tls ttl (d # ds) ref cache w =
     (if rstrip_char CHR ''.'' d = rstrip_char CHR ''.'' ref then run_ip_block_preflight cf net tls ttl ds ref cache w
      else (case run_ip_block_cross_test cf net tls ttl d ref cache w of
              (rep, c, w') \<Rightarrow>
                (case run_ip_block_preflight cf net tls ttl ds ref (if cache = None then None else Some c) w' of
                   (reps, r) \<Rightarrow> (rep # reps, r))))"

definition cdn_hint :: "ipset_env \<Rightarrow> string list \<Rightarrow> (nat \<times> nat \<times> string list) option" where
  "cdn_hint env ips =
     (let fams = filter (\<lambda>f. f \<noteq> []) (List.map_filter (cdn_family env) ips)
      in if fams = [] then None else Some (length fams, length ips, order_by_str id (remdups fams)))"

section \<open>What a report says\<close>

lemma probe_ips_report:
  "probe_ips tls ips rep w = (rep', w') \<Longrightarrow>
     \<exists>ps. ir_probes rep' = ir_probes rep @ ps \<and> map ib_connect_ip ps = ips \<and> (\<forall>p \<in> set ps. ib_sni p = ir_unblocked rep) \<and>
          ir_ip_block_on rep' = ir_ip_block_on rep @ map ib_connect_ip (filter (\<lambda>p. \<not> tl_success (ib_result p)) ps) \<and>
          ir_sni_likely rep' = ir_sni_likely rep \<and> ir_skipped rep' = ir_skipped rep \<and> ir_baseline_ok rep' = ir_baseline_ok rep"
proof (induction ips arbitrary: rep w)
  case (Cons ip ips)
  obtain r w1 where t: "tls (ir_unblocked rep) ip w = (r, w1)" by (cases "tls (ir_unblocked rep) ip w")
  let ?p = "\<lparr>ib_label = ir_unblocked rep @ '' SNI @ '' @ ir_blocked rep @ '' IP '' @ ip, ib_sni = ir_unblocked rep, ib_connect_ip = ip, ib_result = r\<rparr>"
  let ?rep = "rep\<lparr>ir_probes := ir_probes rep @ [?p], ir_ip_block_on := (if tl_success r then ir_ip_block_on rep else ir_ip_block_on rep @ [ip])\<rparr>"
  have "probe_ips tls ips ?rep w1 = (rep', w')" using Cons.prems t by (simp add: ip_probe_def)
  from Cons.IH [OF this] obtain ps where "ir_probes rep' = ir_probes ?rep @ ps" "map ib_connect_ip ps = ips"
      "\<forall>p \<in> set ps. ib_sni p = ir_unblocked ?rep"
      "ir_ip_block_on rep' = ir_ip_block_on ?rep @ map ib_connect_ip (filter (\<lambda>p. \<not> tl_success (ib_result p)) ps)"
      "ir_sni_likely rep' = ir_sni_likely ?rep" "ir_skipped rep' = ir_skipped ?rep" "ir_baseline_ok rep' = ir_baseline_ok ?rep" by blast
  then show ?case by (intro exI [of _ "?p # ps"]) auto
qed simp

end
