(* ===== verification/Export.thy ===== *)
theory Export
  imports RunStoreProps ConfBuilder
begin

text \<open>
  \<^verbatim>\<open>nfconf.py\<close>: the strategies of a campaign that are exported, the addresses that go with them, and the
  configurations that are written. The run store is that of \<^verbatim>\<open>RunStore\<close>, with its faults; the host of the configuration
  builder, the DNS records of the providers, the program \<^verbatim>\<open>ip2net\<close> and the writing of files are arguments.
\<close>

section \<open>Choosing strategies\<close>

text \<open>A name without a colon is no strategy text.\<close>

definition resolve_export_strategy :: "conf_env \<Rightarrow> string option \<Rightarrow> string \<Rightarrow> string option" where
  "resolve_export_strategy host config name =
     (let txt = (case config of Some c \<Rightarrow> if c \<noteq> [] then c else (if CHR '':'' \<in> set name then name else [])
                              | None \<Rightarrow> if CHR '':'' \<in> set name then name else [])
      in if txt = [] then None
         else case filter_export_strategies host [txt] of [] \<Rightarrow> None | k # ks \<Rightarrow> if k = [] then None else Some k)"

definition resolve_name :: "store_env \<Rightarrow> conf_env \<Rightarrow> string \<Rightarrow> string \<Rightarrow> (string option) db_op" where
  "resolve_name env host proto name =
     then_op (get_strategy_config env name proto) (\<lambda>cfg. return_op (resolve_export_strategy host cfg name))"

text \<open>The loops that ask for the configuration of each row and keep what resolves.\<close>

fun resolve_names :: "store_env \<Rightarrow> conf_env \<Rightarrow> string \<Rightarrow> string list \<Rightarrow> (string list) db_op" where
  "resolve_names env host proto [] = return_op []"
| "resolve_names env host proto (n # ns) =
     then_op (resolve_name env host proto n) (\<lambda>resolved.
     then_op (resolve_names env host proto ns) (\<lambda>rest.
       return_op (case resolved of None \<Rightarrow> rest | Some x \<Rightarrow> x # rest)))"

definition common_tcp_names :: "store_env \<Rightarrow> string list \<Rightarrow> int \<Rightarrow> (string list) db_op" where
  "common_tcp_names env ds limit = then_op (get_common_tcp env ds limit) (\<lambda>rows. return_op (map fst rows))"

text \<open>\<^verbatim>\<open>working[:limit]\<close>, also for a negative limit.\<close>

definition py_take :: "int \<Rightarrow> 'a list \<Rightarrow> 'a list" where
  "py_take n xs = (if 0 \<le> n then take (nat n) xs else take (length xs - nat (- n)) xs)"

definition collect_tcp :: "store_env \<Rightarrow> conf_env \<Rightarrow> string \<Rightarrow> int \<Rightarrow> string list \<Rightarrow> bool \<Rightarrow> (string list) db_op" where
  "collect_tcp env host d limit ds common_only =
     (if common_only \<and> 1 < length ds then
        then_op (common_tcp_names env ds limit) (resolve_names env host ''tcp'')
      else
        then_op (get_best_by_coverage env limit) (\<lambda>covered.
          if covered \<noteq> [] then resolve_names env host ''tcp'' (map fst covered)
          else then_op (get_best_tcp env d limit) (\<lambda>best.
               then_op (resolve_names env host ''tcp'' (map fst best)) (\<lambda>found.
                 if found \<noteq> [] then return_op found
                 else then_op (get_working_tcp env d) (\<lambda>working. resolve_names env host ''tcp'' (py_take limit working))))))"

text \<open>The loop over the best pairs: each UDP strategy once, until there are enough.\<close>

fun collect_udp_pairs :: "store_env \<Rightarrow> conf_env \<Rightarrow> int \<Rightarrow> string list \<Rightarrow> string list \<Rightarrow> string list \<Rightarrow> (string list) db_op" where
  "collect_udp_pairs env host limit seen found [] = return_op found"
| "collect_udp_pairs env host limit seen found (u # us) =
     (if u \<in> set seen then collect_udp_pairs env host limit seen found us
      else then_op (resolve_name env host ''udp'' u) (\<lambda>resolved.
             let found' = (case resolved of None \<Rightarrow> found | Some x \<Rightarrow> found @ [x])
             in if limit \<le> int (length found') then return_op found'
                else collect_udp_pairs env host limit (u # seen) found' us))"

definition pair_udp :: "string \<times> string \<times> rat \<times> rat \<times> string \<Rightarrow> string" where
  "pair_udp p = (case p of (tcp, udp, rest) \<Rightarrow> udp)"

definition STOCK_UDP :: string where "STOCK_UDP = ''fake:blob=discord_udp:repeats=6''"
definition STOCK_QUIC :: string where "STOCK_QUIC = ''fake:blob=quic_initial:repeats=11''"

definition or_stock :: "bool \<Rightarrow> string \<Rightarrow> string list \<Rightarrow> string list" where
  "or_stock allowed stock found = (if found \<noteq> [] then found else if allowed then [stock] else [])"

definition collect_udp :: "store_env \<Rightarrow> conf_env \<Rightarrow> string \<Rightarrow> int \<Rightarrow> bool \<Rightarrow> (string list) db_op" where
  "collect_udp env host d limit stock =
     then_op (get_best_pairs env d (limit * 2)) (\<lambda>pairs.
     then_op (collect_udp_pairs env host limit [] [] (map pair_udp pairs)) (\<lambda>found.
       if found \<noteq> [] then return_op found
       else then_op (get_best_udp env limit) (\<lambda>rows.
            then_op (resolve_names env host ''udp'' (map fst rows)) (\<lambda>found.
              return_op (or_stock stock STOCK_UDP found)))))"

definition collect_quic :: "store_env \<Rightarrow> conf_env \<Rightarrow> string \<Rightarrow> int \<Rightarrow> bool \<Rightarrow> (string list) db_op" where
  "collect_quic env host d limit stock =
     then_op (get_best_quic env d limit) (\<lambda>rows.
     then_op (resolve_names env host ''quic'' (map fst rows)) (\<lambda>found. return_op (or_stock stock STOCK_QUIC found)))"

definition collect_export_strategies ::
    "store_env \<Rightarrow> conf_env \<Rightarrow> string \<Rightarrow> int \<Rightarrow> string list \<Rightarrow> bool \<Rightarrow> bool \<Rightarrow> (string list \<times> string list \<times> string list) db_op" where
  "collect_export_strategies env host d limit ds common_only stock =
     then_op (collect_tcp env host d limit ds common_only) (\<lambda>tcp.
     then_op (collect_udp env host d limit stock) (\<lambda>udp.
     then_op (collect_quic env host d limit stock) (\<lambda>quic. return_op (tcp, udp, quic))))"

section \<open>Addresses\<close>

text \<open>\<open>ip2net\<close> is what the program prints for its input when it is there and succeeds.\<close>

definition maybe_aggregate_ips :: "(string \<Rightarrow> string option) \<Rightarrow> string list \<Rightarrow> string list" where
  "maybe_aggregate_ips ip2net ips =
     (let unique = fromkeys ips
      in if unique = [] then unique
         else case ip2net (join_with nl unique @ nl) of
                None \<Rightarrow> unique
              | Some printed \<Rightarrow>
                  (let out = filter (\<lambda>l. l \<noteq> []) (map strip (splitlines printed)) in if out \<noteq> [] then out else unique))"

definition domain_key :: "string \<Rightarrow> string" where
  "domain_key d = rev (dropWhile (\<lambda>c. c = CHR ''.'') (rev (strip d)))"

type_synonym dns_records = "(string \<times> string list) list"

fun record_ips :: "string list \<Rightarrow> string list \<Rightarrow> dns_records \<Rightarrow> string list \<times> string list" where
  "record_ips wanted seen [] = ([], seen)"
| "record_ips wanted seen ((d, ips) # recs) =
     (if domain_key d \<notin> set wanted \<or> domain_key d \<in> set seen then record_ips wanted seen recs
      else (let (out, seen') = record_ips wanted (domain_key d # seen) recs
            in (filter (\<lambda>ip. ip \<noteq> []) (map strip ips) @ out, seen')))"

fun provider_ips :: "string list \<Rightarrow> string list \<Rightarrow> dns_records list \<Rightarrow> string list" where
  "provider_ips wanted seen [] = []"
| "provider_ips wanted seen (p # ps) =
     (let (out, seen') = record_ips wanted seen p in out @ provider_ips wanted seen' ps)"

text \<open>\<open>providers\<close> are the directories with their records, \<open>current\<close> is the one of this host.\<close>

definition collect_domain_ips :: "(string \<Rightarrow> string option) \<Rightarrow> (string \<times> dns_records) list \<Rightarrow> string \<Rightarrow> string list \<Rightarrow> bool \<Rightarrow> string list" where
  "collect_domain_ips ip2net providers current ds use_all =
     (let wanted = map domain_key (filter (\<lambda>d. strip d \<noteq> []) ds);
          dirs = (if use_all then providers else filter (\<lambda>(dir, recs). dir = current) providers)
      in if wanted = [] then [] else maybe_aggregate_ips ip2net (provider_ips wanted [] (map snd dirs)))"

definition IPSET_INLINE_LIMIT :: nat where "IPSET_INLINE_LIMIT = 64"

text \<open>The addresses to put in line, or the file to name and its text; \<open>writable\<close> says whether it can be written.\<close>

definition resolve_ipset_for_export :: "string list \<Rightarrow> string \<Rightarrow> bool \<Rightarrow> string list option \<times> (string \<times> string) option" where
  "resolve_ipset_for_export ips out_dir writable =
     (if ips = [] then (None, None)
      else if length ips \<le> IPSET_INLINE_LIMIT then (Some ips, None)
      else if writable then (None, Some (path_join out_dir ''user.ipset'', join_with nl ips @ nl))
      else (Some ips, None))"

section \<open>The exported configurations\<close>

record export_args =
  xa_domain :: string
  xa_limit :: int
  xa_domains :: "string list"
  xa_isp :: string
  xa_prefix :: string
  xa_mode :: string
  xa_common_only :: bool
  xa_stock :: bool
  xa_use_ipset :: bool
  xa_out_dir :: string
  xa_timestamp :: string
  xa_blobs_dir :: string

definition export_comment :: "export_args \<Rightarrow> string list \<Rightarrow> string list \<Rightarrow> string list \<Rightarrow> string" where
  "export_comment a tcp udp quic =
     ''domain='' @ xa_domain a @ '' limit='' @ str_int (xa_limit a) @ '' tcp='' @ digits_of_nat (length tcp) @
     '' udp='' @ digits_of_nat (length udp) @ '' quic='' @ digits_of_nat (length quic)"

definition export_conf_args :: "export_args \<Rightarrow> string list \<times> string list \<times> string list \<Rightarrow> string list option \<times> (string \<times> string) option \<Rightarrow> conf_args" where
  "export_conf_args a chosen ipset =
     (case chosen of (tcp, udp, quic) \<Rightarrow>
        \<lparr>ca_tcp = tcp, ca_udp = udp, ca_quic = quic, ca_comment = export_comment a tcp udp quic, ca_domains = xa_domains a,
         ca_ipset_ips = (case fst ipset of None \<Rightarrow> [] | Some ips \<Rightarrow> ips),
         ca_ipset_file = (case snd ipset of None \<Rightarrow> [] | Some (path, txt) \<Rightarrow> path)\<rparr>)"

record exported =
  xp_keenetic :: "string \<times> string"
  xp_raw :: "string \<times> string"
  xp_user_list :: "string \<times> string"
  xp_ipset :: "(string \<times> string) option"
  xp_bundle :: "(string \<times> string) list"
  xp_tcp :: "string list"
  xp_udp :: "string list"
  xp_quic :: "string list"

text \<open>The files an export writes, as path and text; the raw configuration may fail on a blob that cannot be found.\<close>

definition exported_files :: "conf_env \<Rightarrow> export_args \<Rightarrow> string list \<times> string list \<times> string list \<Rightarrow> string list option \<times> (string \<times> string) option \<Rightarrow> exported result" where
  "exported_files host a chosen ipset =
     (let args = export_conf_args a chosen ipset;
          out = path_join (xa_out_dir a);
          keenetic = build_keenetic_conf host (xa_isp a) (xa_prefix a) (xa_mode a) args
      in bind_result (build_raw_conf host (xa_blobs_dir a) (cv_qnum_tcp host) args) (\<lambda>raw.
           Inr \<lparr>xp_keenetic = (out (''nfqws2_'' @ xa_timestamp a @ ''.conf''), keenetic),
                xp_raw = (out (''nfqws2_raw_'' @ xa_timestamp a @ ''.conf''), raw),
                xp_user_list = (out ''user.list'', write_user_list (xa_domains a)), xp_ipset = snd ipset,
                xp_bundle = write_export_bundle host (xa_out_dir a) (ca_tcp args) (ca_udp args) (ca_quic args) (ca_ipset_file args),
                xp_tcp = ca_tcp args, xp_udp = ca_udp args, xp_quic = ca_quic args\<rparr>))"

definition export_configs :: "store_env \<Rightarrow> conf_env \<Rightarrow> export_args \<Rightarrow> string list option \<times> (string \<times> string) option \<Rightarrow> (exported result) db_op" where
  "export_configs env host a ipset =
     then_op (flush env True) (\<lambda>_.
     then_op (collect_export_strategies env host (xa_domain a) (xa_limit a) (xa_domains a) (xa_common_only a) (xa_stock a)) (\<lambda>chosen.
       return_op (exported_files host a chosen (if xa_use_ipset a then ipset else (None, None)))))"

section \<open>What the queries of an export see\<close>

text \<open>A store with empty buffers and the tables \<open>D\<close>; queries of an export, when no other task logs, leave it so.\<close>

definition rests :: "database \<Rightarrow> RunStore \<Rightarrow> bool" where
  "rests D s = (ss_db s = D \<and> ss_tcp_pending s = [] \<and> ss_udp_pending s = [])"

definition reads :: "database \<Rightarrow> 'a db_op \<Rightarrow> ('a \<Rightarrow> bool) \<Rightarrow> bool" where
  "reads D m Q = (\<forall>s. rests D s \<longrightarrow> rests D (snd (m s)) \<and> (\<forall>x. fst (m s) = Inr x \<longrightarrow> Q x))"

definition alone :: "store_env \<Rightarrow> bool" where
  "alone env = (\<forall>n. sv_arrivals env n = ([], []))"

lemma reads_return: "Q x \<Longrightarrow> reads D (return_op x) Q"
  by (simp add: reads_def return_op_def)

lemma reads_then:
  assumes "reads D m Q" "\<And>x. Q x \<Longrightarrow> reads D (f x) R"
  shows "reads D (then_op m f) R"
  unfolding reads_def
proof (intro allI impI)
  fix s
  assume "rests D s"
  with assms(1) have 1: "rests D (snd (m s))" "\<And>x. fst (m s) = Inr x \<Longrightarrow> Q x"
    unfolding reads_def by blast+
  show "rests D (snd (then_op m f s)) \<and> (\<forall>x. fst (then_op m f s) = Inr x \<longrightarrow> R x)"
  proof (cases "m s")
    case (Pair v s1)
    show ?thesis
    proof (cases v)
      case (Inl e)
      then show ?thesis using 1 Pair by (simp add: then_op_def)
    next
      case (Inr x)
      then have "reads D (f x) R" using 1(2) Pair assms(2) by simp
      then show ?thesis using 1(1) Pair Inr unfolding reads_def by (simp add: then_op_def)
    qed
  qed
qed

lemma reads_weaken: "reads D m Q \<Longrightarrow> (\<And>x. Q x \<Longrightarrow> R x) \<Longrightarrow> reads D m R"
  by (simp add: reads_def)

lemma reads_committed: "alone env \<Longrightarrow> Q (g D) \<Longrightarrow> reads D (read_committed env g) Q"
  by (auto simp: reads_def read_committed_def db_call_def rests_def await_def alone_def split: option.split fault.split)

lemma reads_flush: "reads D (flush env wal) (\<lambda>_. True)"
  by (simp add: reads_def rests_def flush_def)

definition from_names :: "conf_env \<Rightarrow> string set \<Rightarrow> string list \<Rightarrow> bool" where
  "from_names host ns out = (\<forall>x \<in> set out. \<exists>n \<in> ns. \<exists>cfg. resolve_export_strategy host cfg n = Some x)"

lemma reads_name: "alone env \<Longrightarrow> reads D (resolve_name env host proto n) (\<lambda>r. r = None \<or> (\<exists>cfg. resolve_export_strategy host cfg n = r))"
  unfolding resolve_name_def get_strategy_config_def
  by (rule reads_then [where Q = "\<lambda>_. True"]) (auto intro: reads_committed reads_return)

lemma reads_names: "alone env \<Longrightarrow> set ns \<subseteq> N \<Longrightarrow> reads D (resolve_names env host proto ns) (from_names host N)"
proof (induction ns)
  case Nil
  then show ?case by (simp add: reads_return from_names_def)
next
  case (Cons n ns)
  show ?case
    unfolding resolve_names.simps
  proof (rule reads_then [OF reads_name [OF Cons.prems(1)]], rule reads_then [OF Cons.IH])
    fix r rest
    assume "r = None \<or> (\<exists>cfg. resolve_export_strategy host cfg n = r)" "from_names host N rest"
    then show "reads D (return_op (case r of None \<Rightarrow> rest | Some x \<Rightarrow> x # rest)) (from_names host N)"
      using Cons.prems(2) by (intro reads_return) (auto simp: from_names_def split: option.split)
  qed (use Cons.prems in auto)
qed

lemma reads_names_map:
  "alone env \<Longrightarrow> fst ` set rows \<subseteq> N \<Longrightarrow> reads D (resolve_names env host proto (map fst rows)) (from_names host N)"
  by (rule reads_names) simp_all

lemma set_py_take: "set (py_take n xs) \<subseteq> set xs"
  by (auto simp: py_take_def dest: in_set_takeD)

lemma stock_or_found: "from_names host N found \<Longrightarrow> from_names host N (or_stock st x found) \<or> st \<and> or_stock st x found = [x]"
  by (cases found; cases st) (simp_all add: or_stock_def from_names_def)

lemma reads_udp_pairs:
  "alone env \<Longrightarrow> set us \<subseteq> N \<Longrightarrow> from_names host N found \<Longrightarrow> reads D (collect_udp_pairs env host limit seen found us) (from_names host N)"
proof (induction us arbitrary: seen found)
  case Nil
  then show ?case by (simp add: reads_return)
next
  case (Cons u us)
  have "reads D (then_op (resolve_name env host ''udp'' u) (\<lambda>resolved.
             let found' = (case resolved of None \<Rightarrow> found | Some x \<Rightarrow> found @ [x])
             in if limit \<le> int (length found') then return_op found'
                else collect_udp_pairs env host limit (u # seen) found' us)) (from_names host N)"
  proof (rule reads_then [OF reads_name [OF Cons.prems(1)]])
    fix r
    assume "r = None \<or> (\<exists>cfg. resolve_export_strategy host cfg u = r)"
    then have "from_names host N (case r of None \<Rightarrow> found | Some x \<Rightarrow> found @ [x])"
      using Cons.prems by (auto simp: from_names_def split: option.split)
    then show "reads D (let found' = (case r of None \<Rightarrow> found | Some x \<Rightarrow> found @ [x])
             in if limit \<le> int (length found') then return_op found'
                else collect_udp_pairs env host limit (u # seen) found' us) (from_names host N)"
      using Cons by (simp add: Let_def reads_return)
  qed
  then show ?case using Cons by simp
qed

section \<open>Names that work\<close>

text \<open>The strategies of a protocol whose last result for some domain works.\<close>

definition working_in :: "database \<Rightarrow> string \<Rightarrow> string set" where
  "working_in D proto = {n. \<exists>x e. last_result (committed_tcp D) n proto x = Some e \<and> entry_works e}"

lemma latest_works:
  assumes "db_ok D" "(r, t) \<in> set (latest_rows p D)" "row_works t"
  shows "sg_name r \<in> working_in D (sg_proto r)"
proof -
  have "(r, t) \<in> set (latest_rows (\<lambda>r' t'. sg_proto r' = sg_proto r \<and> tw_domain t' = tw_domain t \<and> row_works t') D)"
    using assms(2,3) by (auto simp: latest_rows_def)
  then have "sg_name r \<in> set (map fst (working_details (tw_domain t) (sg_proto r) D))"
    by (force simp: working_details_def)
  then show ?thesis
    using working_names [OF assms(1)] by (auto simp: working_in_def)
qed

lemma sql_limit_subset: "set (sql_limit n xs) \<subseteq> set xs"
  by (auto simp: sql_limit_def dest: in_set_takeD)

lemma best_rows_work:
  assumes "db_ok D"
  shows "fst ` best_columns ` set (best_rows proto d limit D) \<subseteq> working_in D proto"
proof
  fix n
  assume "n \<in> fst ` best_columns ` set (best_rows proto d limit D)"
  then obtain r t where "(r, t) \<in> set (latest_rows (\<lambda>r t. sg_proto r = proto \<and> tw_domain t = d \<and> row_works t) D)" "n = sg_name r"
    using sql_limit_subset by (fastforce simp: best_rows_def best_columns_def)
  then show "n \<in> working_in D proto"
    using latest_works [OF assms, of r t] by (auto simp: latest_rows_def)
qed

lemma groups_names: "fst ` set (coverage_groups rows) = sg_name ` fst ` set rows"
  by (force simp: coverage_groups_def coverage_group_def Let_def)

lemma coverage_work:
  assumes "db_ok D" "\<And>r t. p r t \<Longrightarrow> sg_proto r = proto \<and> row_works t"
    and "set ns \<subseteq> set (coverage_groups (latest_rows p D))"
  shows "fst ` set ns \<subseteq> working_in D proto"
proof -
  have "fst ` set ns \<subseteq> sg_name ` fst ` set (latest_rows p D)"
    using assms(3) unfolding groups_names [symmetric] by (rule image_mono)
  moreover have "sg_name r \<in> working_in D proto" if "(r, t) \<in> set (latest_rows p D)" for r t
    using latest_works [OF assms(1) that] assms(2) [of r t] that by (auto simp: latest_rows_def)
  then have "sg_name ` fst ` set (latest_rows p D) \<subseteq> working_in D proto"
    by auto
  ultimately show ?thesis by (rule subset_trans)
qed

lemma reads_tcp:
  assumes "alone env" "db_ok D"
  shows "reads D (collect_tcp env host d limit ds common) (from_names host (working_in D ''tcp''))"
proof -
  let ?N = "working_in D ''tcp''"
  have taken: "reads D (resolve_names env host ''tcp'' (py_take n xs)) (from_names host ?N)" if "set xs \<subseteq> ?N" for n xs
    by (rule reads_names [OF assms(1) subset_trans [OF set_py_take that]])
  have common: "reads D (common_tcp_names env ds limit) (\<lambda>ns. set ns \<subseteq> ?N)"
  proof -
    have "fst ` set (common_tcp ds limit D) \<subseteq> ?N"
      by (rule coverage_work [OF assms(2), of "\<lambda>r t. sg_proto r = ''tcp'' \<and> tw_domain t \<in> set ds \<and> row_works t"])
        (use sql_limit_subset in \<open>fastforce simp: common_tcp_def\<close>)+
    then show ?thesis
      by (auto simp: common_tcp_names_def get_common_tcp_def intro!: reads_then [where Q = "\<lambda>rows. fst ` set rows \<subseteq> ?N"] reads_return
          reads_committed [OF assms(1)])
  qed
  have coverage: "reads D (get_best_by_coverage env limit) (\<lambda>rows. fst ` set rows \<subseteq> ?N)"
  proof -
    have "fst ` set (best_by_coverage limit D) \<subseteq> ?N"
      by (rule coverage_work [OF assms(2), of "\<lambda>r t. sg_proto r = ''tcp'' \<and> row_works t"])
        (use sql_limit_subset in \<open>fastforce simp: best_by_coverage_def\<close>)+
    then show ?thesis
      by (auto simp: get_best_by_coverage_def intro!: reads_then [OF reads_flush] reads_committed [OF assms(1)])
  qed
  have best: "reads D (get_best_tcp env d limit) (\<lambda>rows. fst ` set rows \<subseteq> ?N)"
    unfolding get_best_tcp_def by (rule reads_committed [OF assms(1)]) (simp add: best_rows_work [OF assms(2)])
  have working: "reads D (get_working_tcp env d) (\<lambda>ns. set ns \<subseteq> ?N)"
  proof -
    have "set (map fst (working_details d ''tcp'' D)) \<subseteq> ?N"
      using working_names [OF assms(2)] unfolding working_in_def by blast
    then show ?thesis
      by (auto simp: get_working_tcp_def get_working_proto_def get_working_proto_details_def
          intro!: reads_then [OF reads_then [OF reads_flush]] reads_committed [OF assms(1)] reads_return)
  qed
  show ?thesis
    unfolding collect_tcp_def
  proof (cases "common \<and> 1 < length ds")
    case True
    then show "reads D (if common \<and> 1 < length ds then then_op (common_tcp_names env ds limit) (resolve_names env host ''tcp'')
      else then_op (get_best_by_coverage env limit) (\<lambda>covered. if covered \<noteq> [] then resolve_names env host ''tcp'' (map fst covered)
        else then_op (get_best_tcp env d limit) (\<lambda>best. then_op (resolve_names env host ''tcp'' (map fst best)) (\<lambda>found.
          if found \<noteq> [] then return_op found
          else then_op (get_working_tcp env d) (\<lambda>working. resolve_names env host ''tcp'' (py_take limit working)))))) (from_names host ?N)"
      by simp (rule reads_then [OF common], rule reads_names [OF assms(1)])
  next
    case False
    have last: "reads D (if found \<noteq> [] then return_op found
          else then_op (get_working_tcp env d) (\<lambda>working. resolve_names env host ''tcp'' (py_take limit working))) (from_names host ?N)"
      if "from_names host ?N found" for found
      using that by (auto intro: reads_return reads_then [OF working taken])
    have inner: "reads D (then_op (get_best_tcp env d limit) (\<lambda>best. then_op (resolve_names env host ''tcp'' (map fst best)) (\<lambda>found.
          if found \<noteq> [] then return_op found
          else then_op (get_working_tcp env d) (\<lambda>working. resolve_names env host ''tcp'' (py_take limit working))))) (from_names host ?N)"
      by (rule reads_then [OF best], rule reads_then [OF reads_names_map [OF assms(1)] last])
    have "reads D (if covered \<noteq> [] then resolve_names env host ''tcp'' (map fst covered)
        else then_op (get_best_tcp env d limit) (\<lambda>best. then_op (resolve_names env host ''tcp'' (map fst best)) (\<lambda>found.
          if found \<noteq> [] then return_op found
          else then_op (get_working_tcp env d) (\<lambda>working. resolve_names env host ''tcp'' (py_take limit working))))) (from_names host ?N)"
      if "fst ` set covered \<subseteq> ?N" for covered :: "(string \<times> int \<times> rat) list"
      using inner reads_names_map [OF assms(1) that] by simp
    then show "reads D (if common \<and> 1 < length ds then then_op (common_tcp_names env ds limit) (resolve_names env host ''tcp'')
      else then_op (get_best_by_coverage env limit) (\<lambda>covered. if covered \<noteq> [] then resolve_names env host ''tcp'' (map fst covered)
        else then_op (get_best_tcp env d limit) (\<lambda>best. then_op (resolve_names env host ''tcp'' (map fst best)) (\<lambda>found.
          if found \<noteq> [] then return_op found
          else then_op (get_working_tcp env d) (\<lambda>working. resolve_names env host ''tcp'' (py_take limit working)))))) (from_names host ?N)"
      unfolding if_not_P [OF False] by (rule reads_then [OF coverage])
  qed
qed

lemma reads_quic:
  assumes "alone env" "db_ok D"
  shows "reads D (collect_quic env host d limit stock)
    (\<lambda>out. from_names host (working_in D ''quic'') out \<or> stock \<and> out = [STOCK_QUIC])"
proof -
  let ?N = "working_in D ''quic''"
  have best: "reads D (get_best_quic env d limit) (\<lambda>rows. fst ` set rows \<subseteq> ?N)"
    unfolding get_best_quic_def by (rule reads_committed [OF assms(1)]) (simp add: best_rows_work [OF assms(2)])
  show ?thesis
    unfolding collect_quic_def
    by (rule reads_then [OF best], rule reads_then [OF reads_names_map [OF assms(1)]], assumption)
      (rule reads_return, rule stock_or_found)
qed

text \<open>The UDP strategies of a pair that worked for the domain, and those with a working result of their own.\<close>

definition paired_udp :: "database \<Rightarrow> string \<Rightarrow> string set" where
  "paired_udp D d = pw_udp ` {p \<in> set (db_pairs D). pw_domain p = d \<and> working_status (pw_overall p)}"

definition working_udp :: "database \<Rightarrow> string set" where
  "working_udp D = ue_strategy ` {e \<in> set (committed_udp D). working_status (ue_status e)}"

lemma best_udp_work:
  assumes "alone env" "db_ok D"
  shows "reads D (get_best_udp env limit) (\<lambda>rows. fst ` set rows \<subseteq> working_udp D)"
proof -
  have row: "sg_name r \<in> working_udp D"
    if "r \<in> set (db_strategies D)" "t \<in> set (db_udp D)" "sg_id r = uw_strategy_id t" "working_status (uw_status t)" for r t
  proof -
    have "udp_view D t \<in> set (committed_udp D)"
      by (simp add: committed_udp_def that(2))
    moreover have "ue_strategy (udp_view D t) = sg_name r" "ue_status (udp_view D t) = uw_status t"
      using strat_of_row [OF assms(2) that(1)] that(3) by (simp_all add: udp_view_def)
    ultimately show ?thesis
      using that(4) unfolding working_udp_def by force
  qed
  show ?thesis
    unfolding get_best_udp_def
  proof (rule reads_committed [OF assms(1)], rule subsetI)
    fix n
    assume "n \<in> fst ` set (map (\<lambda>(r, t). (sg_name r, uw_target t, uw_latency_ms t, uw_timestamp t))
         (sql_limit limit (sort_key (\<lambda>(r, t). uw_latency_ms t)
           (filter (\<lambda>(r, t). sg_proto r = ''udp'' \<and> working_status (uw_status t) \<and>
                     uw_id t = max_id (map uw_id (filter (\<lambda>t2. uw_strategy_id t2 = sg_id r) (db_udp D))))
             (concat (map (\<lambda>t. map (\<lambda>r. (r, t)) (filter (\<lambda>r. sg_id r = uw_strategy_id t) (db_strategies D))) (db_udp D)))))))"
    then obtain r t where "n = sg_name r" "r \<in> set (db_strategies D)" "t \<in> set (db_udp D)" "sg_id r = uw_strategy_id t" "working_status (uw_status t)"
      by (auto dest!: subsetD [OF sql_limit_subset])
    then show "n \<in> working_udp D" using row by simp
  qed
qed

lemma reads_udp:
  assumes "alone env" "db_ok D"
  shows "reads D (collect_udp env host d limit stock)
    (\<lambda>out. from_names host (paired_udp D d \<union> working_udp D) out \<or> stock \<and> out = [STOCK_UDP])"
proof -
  let ?N = "paired_udp D d \<union> working_udp D"
  have pairs: "reads D (get_best_pairs env d (limit * 2)) (\<lambda>ps. set (map pair_udp ps) \<subseteq> ?N)"
    unfolding get_best_pairs_def
    by (rule reads_committed [OF assms(1)]) (auto simp: paired_udp_def pair_udp_def dest!: subsetD [OF sql_limit_subset])
  show ?thesis
    unfolding collect_udp_def
  proof (rule reads_then [OF pairs], rule reads_then [OF reads_udp_pairs [OF assms(1)]])
    fix ps found
    assume "from_names host ?N found"
    then show "reads D (if found \<noteq> [] then return_op found
       else then_op (get_best_udp env limit) (\<lambda>rows. then_op (resolve_names env host ''udp'' (map fst rows)) (\<lambda>found. return_op (or_stock stock STOCK_UDP found))))
       (\<lambda>out. from_names host ?N out \<or> stock \<and> out = [STOCK_UDP])"
      by (auto intro!: reads_return stock_or_found reads_then [OF best_udp_work [OF assms]] reads_then [OF reads_names_map [OF assms(1), where N = ?N]])
  qed (auto simp: from_names_def)
qed

lemma reads_collect:
  assumes "alone env" "db_ok D"
  shows "reads D (collect_export_strategies env host d limit ds common stock)
    (\<lambda>(tcp, udp, quic). from_names host (working_in D ''tcp'') tcp \<and>
       (from_names host (paired_udp D d \<union> working_udp D) udp \<or> stock \<and> udp = [STOCK_UDP]) \<and>
       (from_names host (working_in D ''quic'') quic \<or> stock \<and> quic = [STOCK_QUIC]))"
  unfolding collect_export_strategies_def
  by (rule reads_then [OF reads_tcp [OF assms]], rule reads_then [OF reads_udp [OF assms]], rule reads_then [OF reads_quic [OF assms]])
    (auto intro!: reads_return)

section \<open>Properties\<close>


definition quiet_sample_env :: store_env where
  "quiet_sample_env = sample_store_env\<lparr>sv_arrivals := \<lambda>n. ([], []), sv_fault := \<lambda>n k. None\<rparr>"

definition sample_winner :: tcp_entry where
  "sample_winner = (sample_entry ''std_split_1'' ''a.com'' ''PASS'')\<lparr>te_config_path := ''multisplit:pos=2''\<rparr>"

definition sample_campaign :: RunStore where
  "sample_campaign = sstep quiet_sample_env (LogTcp sample_winner) (new_store empty_db 2 15 False)"

definition sample_export_args :: export_args where
  "sample_export_args =
     \<lparr>xa_domain = ''a.com'', xa_limit = 3, xa_domains = [''a.com''], xa_isp = ''eth0'', xa_prefix = ''/opt'', xa_mode = ''auto'',
      xa_common_only = True, xa_stock = False, xa_use_ipset = False, xa_out_dir = ''out'', xa_timestamp = ''t'', xa_blobs_dir = ''blobs''\<rparr>"

lemma sample_chosen:
  "fst (collect_export_strategies quiet_sample_env sample_conf_env ''a.com'' 3 [''a.com''] True False (snd (flush quiet_sample_env True sample_campaign))) =
     Inr ([''multisplit:pos=2''], [], [])"
  by code_simp

lemma sample_no_blobs:
  "extract_blob_names (flatten_export_strategies sample_conf_env (filter_export_strategies sample_conf_env [''multisplit:pos=2''])) = []"
  by code_simp

lemma raw_without_blobs:
  assumes "extract_blob_names (flatten_export_strategies host (filter_export_strategies host (ca_tcp a @ ca_udp a @ ca_quic a))) = []"
  shows "\<exists>raw. build_raw_conf host blobs_dir qnum a = Inr raw"
proof -
  have "filter_export_strategies host xs @ filter_export_strategies host ys @ filter_export_strategies host zs = filter_export_strategies host (xs @ ys @ zs)" for xs ys zs
    by (simp add: filter_export_strategies_def List.map_filter_def)
  then show ?thesis
    using assms by (simp add: build_raw_conf_def build_raw_conf_lines_def Let_def export_filtered_def blob_cli_lines_def)
qed

lemma sample_campaign_inv: "store_inv sample_campaign"
proof -
  have "steady_env quiet_sample_env"
    using sample_env_steady by (simp add: steady_env_def quiet_sample_env_def)
  then show ?thesis
    unfolding sample_campaign_def by (rule step_logs(1)) (rule new_store_inv, simp)
qed


text \<open>
  Without QUIC strategies and without the stock ones being allowed the export says that its list of QUIC strategies will
  be empty; the keenetic configuration is the one with the built-in strategy all the same.
\<close>

lemma empty_quic_becomes_stock:
  "build_keenetic_conf host isp pre mode (a\<lparr>ca_quic := []\<rparr>) = build_keenetic_conf host isp pre mode (a\<lparr>ca_quic := [STOCK_QUIC]\<rparr>)"
  by (simp add: build_keenetic_conf_def STOCK_QUIC_def)

end
