(* ===== verification/Shortlist.thy ===== *)
theory Shortlist
  imports Export
begin

text \<open>
  \<^verbatim>\<open>shortlist_export.py\<close>, \<^verbatim>\<open>shortlist_import.py\<close> and \<^verbatim>\<open>provider_import.py\<close>: what worked in a campaign as a list of
  rows, and the way back, into presets, a matrix of the user and a run store that counts the rows as passed. A list
  is the value of its JSON text; a row is an object or a line, anything else is skipped by the readers, and an
  absent entry is an empty text or list or \<open>None\<close>.
\<close>

section \<open>Shortlists\<close>

record short_row =
  sh_label :: string
  sh_strategy :: string
  sh_domains_pass :: "string list"
  sh_target :: string
  sh_avg_latency_ms :: "rat option"
  sh_latency_ms :: "rat option"

datatype short_entry = RowEntry short_row | LineEntry string | OtherEntry

record shortlist =
  sl_schema :: string
  sl_generated_at :: string
  sl_source_db :: string
  sl_domains :: "string list"
  sl_tcp :: "short_entry list"
  sl_udp :: "short_entry list"
  sl_quic :: "short_entry list"
  sl_common_tcp :: "short_entry list"

definition SHORTLIST_SCHEMA :: string where
  "SHORTLIST_SCHEMA = ''blockchecks.shortlist/v1''"

section \<open>Writing one\<close>

definition tcp_short_row :: "string \<Rightarrow> string \<Rightarrow> string list \<Rightarrow> rat \<Rightarrow> short_row" where
  "tcp_short_row name strategy ds avg =
     \<lparr>sh_label = name, sh_strategy = strategy, sh_domains_pass = ds, sh_target = [], sh_avg_latency_ms = Some avg, sh_latency_ms = None\<rparr>"

definition config_or_name :: "string option \<Rightarrow> string \<Rightarrow> string" where
  "config_or_name cfg name = (case cfg of Some c \<Rightarrow> or_else c name | None \<Rightarrow> name)"

text \<open>The loops over the rows of a query; \<open>f\<close> makes a row of a name, its configuration and the columns of the query.\<close>

fun short_rows :: "store_env \<Rightarrow> string \<Rightarrow> (string \<Rightarrow> 'c \<Rightarrow> short_row) \<Rightarrow> (string \<times> 'c) list \<Rightarrow> (short_row list) db_op" where
  "short_rows env proto f [] = return_op []"
| "short_rows env proto f ((name, cols) # rows) =
     then_op (get_strategy_config env name proto) (\<lambda>cfg.
     then_op (short_rows env proto f rows) (\<lambda>rest. return_op ((f name cols)\<lparr>sh_strategy := config_or_name cfg name\<rparr> # rest)))"

definition common_short_rows :: "store_env \<Rightarrow> string list \<Rightarrow> int \<Rightarrow> bool \<Rightarrow> (short_row list) db_op" where
  "common_short_rows env ds limit include =
     (if include \<and> 1 < length ds
      then then_op (get_common_tcp env ds limit) (short_rows env ''tcp'' (\<lambda>name (n, avg). tcp_short_row name [] ds avg))
      else return_op [])"

text \<open>A row that comes from the ranking by coverage names no domains.\<close>

definition tcp_short_rows :: "store_env \<Rightarrow> string \<Rightarrow> int \<Rightarrow> (short_row list) db_op" where
  "tcp_short_rows env primary limit =
     then_op (get_best_tcp env primary limit) (\<lambda>best.
     then_op (short_rows env ''tcp'' (\<lambda>name (ms, rest). tcp_short_row name [] [primary] ms) best) (\<lambda>rows.
       if rows \<noteq> [] then return_op rows
       else then_op (get_best_by_coverage env limit) (short_rows env ''tcp'' (\<lambda>name (n, avg). tcp_short_row name [] [] avg))))"

definition udp_short_rows :: "store_env \<Rightarrow> int \<Rightarrow> (short_row list) db_op" where
  "udp_short_rows env limit =
     then_op (get_best_udp env limit) (short_rows env ''udp'' (\<lambda>name (target, ms, rest).
       \<lparr>sh_label = name, sh_strategy = [], sh_domains_pass = [], sh_target = target, sh_avg_latency_ms = None, sh_latency_ms = Some ms\<rparr>))"

definition quic_short_rows :: "store_env \<Rightarrow> string \<Rightarrow> int \<Rightarrow> (short_row list) db_op" where
  "quic_short_rows env primary limit =
     then_op (get_best_quic env primary limit) (short_rows env ''quic'' (\<lambda>name (ms, rest).
       \<lparr>sh_label = name, sh_strategy = [], sh_domains_pass = [primary], sh_target = [], sh_avg_latency_ms = None, sh_latency_ms = Some ms\<rparr>))"

definition export_rows :: "string list \<Rightarrow> short_row list" where
  "export_rows ss = map (\<lambda>(i, s). \<lparr>sh_label = ''export_'' @ digits_of_nat i, sh_strategy = s, sh_domains_pass = [], sh_target = [],
                              sh_avg_latency_ms = None, sh_latency_ms = None\<rparr>) (enumerate 0 ss)"

definition build_shortlist_entries ::
    "store_env \<Rightarrow> conf_env \<Rightarrow> string \<Rightarrow> string \<Rightarrow> string list \<Rightarrow> int \<Rightarrow> bool \<Rightarrow> shortlist db_op" where
  "build_shortlist_entries env host now source ds limit include_common =
     (let primary = (case ds of [] \<Rightarrow> ''discord.com'' | d # rest \<Rightarrow> d)
      in then_op (common_short_rows env ds limit include_common) (\<lambda>common.
         then_op (tcp_short_rows env primary limit) (\<lambda>tcp.
         then_op (udp_short_rows env limit) (\<lambda>udp.
         then_op (quic_short_rows env primary limit) (\<lambda>quic.
         then_op (if tcp = [] \<and> udp = [] \<and> quic = []
                  then then_op (collect_export_strategies env host primary limit ds (1 < length ds) False)
                         (\<lambda>(t, u, q). return_op (export_rows t, export_rows u, export_rows q))
                  else return_op (tcp, udp, quic)) (\<lambda>(tcp, udp, quic).
         return_op \<lparr>sl_schema = SHORTLIST_SCHEMA, sl_generated_at = now, sl_source_db = source, sl_domains = ds,
                    sl_tcp = map RowEntry tcp, sl_udp = map RowEntry udp, sl_quic = map RowEntry quic,
                    sl_common_tcp = map RowEntry common\<rparr>))))))"

section \<open>Reading one\<close>

text \<open>\<^verbatim>\<open>load_shortlist\<close>: an object without a schema passes.\<close>

definition load_shortlist :: "shortlist option \<Rightarrow> shortlist result" where
  "load_shortlist data =
     (case data of
        None \<Rightarrow> Inl (ValueError ''shortlist must be a JSON object'')
      | Some sl \<Rightarrow>
          if sl_schema sl \<noteq> [] \<and> sl_schema sl \<noteq> SHORTLIST_SCHEMA
          then Inl (ValueError (''unsupported schema: '' @ sl_schema sl)) else Inr sl)"

definition entry_line :: "short_entry \<Rightarrow> string" where
  "entry_line e = (case e of RowEntry r \<Rightarrow> strip (sh_strategy r) | LineEntry s \<Rightarrow> strip s | OtherEntry \<Rightarrow> [])"

record provider_summary =
  ps_provider_id :: string
  ps_generated_at :: string
  ps_custom :: "(string, string list) dict"
  ps_shortlist :: "(string, (string, string) dict) dict"

definition custom_lines :: "shortlist \<Rightarrow> (string, string list) dict" where
  "custom_lines sl =
     List.map_filter (\<lambda>(key, rows). let lines = filter (\<lambda>l. l \<noteq> []) (map entry_line rows) in if lines \<noteq> [] then Some (key, lines) else None)
       [(''tls12'', sl_tcp sl), (''udp'', sl_udp sl), (''quic'', sl_quic sl)]"

definition common_domains :: "shortlist \<Rightarrow> short_row \<Rightarrow> string list" where
  "common_domains sl r = (if sh_domains_pass r \<noteq> [] then sh_domains_pass r else if sl_domains sl \<noteq> [] then sl_domains sl else [''*''])"

definition add_common :: "shortlist \<Rightarrow> short_entry \<Rightarrow> (string, (string, string) dict) dict \<Rightarrow> (string, (string, string) dict) dict" where
  "add_common sl e m =
     (case e of
        RowEntry r \<Rightarrow>
          if strip (sh_strategy r) = [] then m
          else foldl (\<lambda>m d. dict_set d (dict_set ''tls12'' (strip (sh_strategy r)) (dict_getd m d [])) m) m (common_domains sl r)
      | _ \<Rightarrow> m)"

definition shortlist_to_provider_summary :: "shortlist \<Rightarrow> provider_summary" where
  "shortlist_to_provider_summary sl =
     \<lparr>ps_provider_id = ''shortlist:'' @ sl_source_db sl, ps_generated_at = sl_generated_at sl, ps_custom = custom_lines sl,
      ps_shortlist = fold (add_common sl) (sl_common_tcp sl) []\<rparr>"

section \<open>Presets\<close>

definition after_first :: "string \<Rightarrow> string \<Rightarrow> string" where
  "after_first sep s = join_with sep (tl (split_str sep s))"

definition normalize_strategy :: "string \<Rightarrow> string" where
  "normalize_strategy line0 =
     (let line = strip line0
      in if line = [] \<or> startswith line ''#'' then []
         else if contains ''--lua-desync='' line then strip (after_first ''--lua-desync='' line)
         else if startswith line ''--'' then []
         else line)"

definition custom_bucket :: "string list \<Rightarrow> string list" where
  "custom_bucket lines = fromkeys (filter (\<lambda>s. s \<noteq> []) (map normalize_strategy lines))"

definition add_profile :: "string \<times> string \<Rightarrow> (string, string list) dict \<Rightarrow> (string, string list) dict" where
  "add_profile p m =
     (case p of (proto, strat) \<Rightarrow>
        let s = normalize_strategy strat
        in if s = [] then m else dict_set proto (add_new (dict_getd m proto []) s) m)"

definition extract_strategies :: "provider_summary \<Rightarrow> (string, string list) dict" where
  "extract_strategies sm =
     fold (\<lambda>(d, profiles). fold add_profile profiles) (ps_shortlist sm)
       (fold (\<lambda>(proto, lines) out. let b = custom_bucket lines in if b \<noteq> [] then dict_set proto b out else out) (ps_custom sm) [])"

definition preset_ext :: "string \<Rightarrow> string" where
  "preset_ext proto = dict_getd [(''quic'', ''quic''), (''udp_voice'', ''udp''), (''http'', ''http'')] proto ''tls''"

text \<open>The preset files: for each protocol the path and the text.\<close>

definition write_shortlist_presets :: "provider_summary \<Rightarrow> string \<Rightarrow> string \<Rightarrow> (string \<times> string \<times> string) list" where
  "write_shortlist_presets sm out_dir pre =
     map (\<lambda>(proto, lines).
            (proto, path_join out_dir (pre @ ''-'' @ proto @ ''.'' @ preset_ext proto),
             join_with nl ([''# Imported from provider_summary ('' @ ps_provider_id sm @ '')'',
                            ''# generated_at: '' @ ps_generated_at sm, []] @ lines) @ nl))
       (extract_strategies sm)"

definition MERGE_PROTOS :: "string list" where
  "MERGE_PROTOS = [''tls12'', ''tls13'', ''http'', ''quic'', ''udp_voice'']"

definition merge_line :: "string \<Rightarrow> string list \<times> string list \<Rightarrow> string list \<times> string list" where
  "merge_line s acc = (case acc of (lines, existing) \<Rightarrow> if s \<in> set existing then (lines, existing) else (lines @ [s], s # existing))"

text \<open>The new text of a matrix file from its old one; \<open>None\<close> when there is none or it is not kept.\<close>

definition merge_into_user_matrix :: "provider_summary \<Rightarrow> string option \<Rightarrow> string" where
  "merge_into_user_matrix sm old =
     (let lines = (case old of None \<Rightarrow> [] | Some t \<Rightarrow> splitlines t);
          existing = map strip (filter (\<lambda>l. strip l \<noteq> [] \<and> \<not> startswith l ''#'') lines);
          strategies = extract_strategies sm
      in join_with nl (fst (fold merge_line (concat (map (\<lambda>p. dict_getd strategies p []) MERGE_PROTOS)) (lines, existing))) @ nl)"

definition provider_rows :: "string \<Rightarrow> string list \<Rightarrow> string \<Rightarrow> string list \<Rightarrow> short_row list" where
  "provider_rows proto ds target strats =
     map (\<lambda>(i, s). \<lparr>sh_label = ''provider_'' @ proto @ ''_'' @ digits_of_nat i, sh_strategy = s, sh_domains_pass = ds, sh_target = target,
                    sh_avg_latency_ms = None, sh_latency_ms = Some 0\<rparr>) (enumerate 0 strats)"

definition provider_summary_to_shortlist :: "provider_summary \<Rightarrow> shortlist" where
  "provider_summary_to_shortlist sm =
     (let strategies = extract_strategies sm;
          named = filter (\<lambda>d. d \<noteq> [] \<and> d \<noteq> ''*'') (dict_keys (ps_shortlist sm));
          ds = (if named = [] then [''discord.com''] else named)
      in \<lparr>sl_schema = SHORTLIST_SCHEMA, sl_generated_at = ps_generated_at sm, sl_source_db = ''provider:'' @ ps_provider_id sm, sl_domains = ds,
          sl_tcp = map RowEntry (concat (map (\<lambda>p. provider_rows p ds [] (dict_getd strategies p [])) [''tls12'', ''tls13'', ''tcp''])),
          sl_udp = map RowEntry (provider_rows ''udp'' [] ''voice'' (dict_getd strategies ''udp_voice'' [] @ dict_getd strategies ''udp'' [])),
          sl_quic = map RowEntry (provider_rows ''quic'' ds [] (dict_getd strategies ''quic'' [])), sl_common_tcp = []\<rparr>)"

section \<open>Seeding a run store\<close>

definition seeded_tcp :: "string \<Rightarrow> string \<Rightarrow> string \<Rightarrow> rat \<Rightarrow> string \<Rightarrow> tcp_entry" where
  "seeded_tcp proto l d ms strat =
     \<lparr>te_strategy = l, te_proto = proto, te_config_path = strat, te_domain = d, te_status = ''PASS'', te_http_code = 200,
      te_latency_ms = ms, te_gateway_ms = 0, te_content_valid = True, te_error = [], te_timestamp = [], te_read_rate_bps = 0,
      te_resolved_ip = [], te_dns_verdict = [], te_doh_server = [], te_fail_phase = [], te_bridge_applied = None,
      te_probe_host = [], te_bridge_batch_id = 0, te_bridge_gen = 0, te_epoch_ms = 0, te_settle_ms = None, te_content_len = None\<rparr>"

definition seeded_udp :: "string \<Rightarrow> string \<Rightarrow> rat \<Rightarrow> string \<Rightarrow> udp_entry" where
  "seeded_udp l target ms strat =
     \<lparr>ue_strategy = l, ue_config_path = strat, ue_target = target, ue_status = ''PASS'', ue_latency_ms = ms, ue_error = [],
      ue_timestamp = [], ue_epoch_ms = 0\<rparr>"

text \<open>\<^verbatim>\<open>float(row.get("avg_latency_ms") or row.get("latency_ms") or 0.0)\<close>\<close>

definition nonzero :: "rat option \<Rightarrow> rat \<Rightarrow> rat" where
  "nonzero x dflt = (case x of Some v \<Rightarrow> if v \<noteq> 0 then v else dflt | None \<Rightarrow> dflt)"

definition row_label :: "string \<Rightarrow> nat \<Rightarrow> short_row \<Rightarrow> string" where
  "row_label proto k r = or_else (sh_label r) (''import_'' @ proto @ ''_'' @ digits_of_nat k)"

definition seed_domains :: "string \<Rightarrow> short_row \<Rightarrow> string list" where
  "seed_domains primary r = (if sh_domains_pass r \<noteq> [] then sh_domains_pass r else [primary])"

text \<open>The log calls a row makes, and with them those of a list of rows; a default label counts the rows logged so far.\<close>

definition row_logs :: "string \<Rightarrow> string \<Rightarrow> nat \<Rightarrow> short_entry \<Rightarrow> store_op list" where
  "row_logs proto primary k e =
     (case e of
        RowEntry r \<Rightarrow>
          (let strat = strip (sh_strategy r); l = row_label proto k r
           in if strat = [] then []
              else if proto = ''udp'' then [LogUdp (seeded_udp l (or_else (sh_target r) ''voice'') (nonzero (sh_latency_ms r) 0) strat)]
              else map (\<lambda>d. LogTcp (seeded_tcp proto l d
                          (if proto = ''tcp'' then nonzero (sh_avg_latency_ms r) (nonzero (sh_latency_ms r) 0) else nonzero (sh_latency_ms r) 0) strat))
                     (seed_domains primary r))
      | _ \<Rightarrow> [])"

fun rows_logs :: "string \<Rightarrow> string \<Rightarrow> nat \<Rightarrow> short_entry list \<Rightarrow> store_op list" where
  "rows_logs proto primary k [] = []"
| "rows_logs proto primary k (e # es) =
     (let ls = row_logs proto primary k e in ls @ rows_logs proto primary (k + length ls) es)"

definition seed_primary :: "shortlist \<Rightarrow> string" where
  "seed_primary sl = (case sl_domains sl of [] \<Rightarrow> ''discord.com'' | d # ds \<Rightarrow> d)"

definition seed_logs :: "shortlist \<Rightarrow> store_op list" where
  "seed_logs sl =
     (let p = seed_primary sl;
          tcp = rows_logs ''tcp'' p 0 (sl_tcp sl);
          udp = rows_logs ''udp'' p (length tcp) (sl_udp sl)
      in tcp @ udp @ rows_logs ''quic'' p (length tcp + length udp) (sl_quic sl))"

fun run_logs :: "store_env \<Rightarrow> store_op list \<Rightarrow> unit db_op" where
  "run_logs env [] = return_op ()"
| "run_logs env (a # as) = then_op (run_op env a) (\<lambda>_. run_logs env as)"

text \<open>The store is flushed and closed in any case; an error of that flush replaces the outcome and leaves the store open.\<close>

definition seed_state_db :: "store_env \<Rightarrow> shortlist \<Rightarrow> bool \<Rightarrow> nat db_op" where
  "seed_state_db env sl mark_pass s =
     (if \<not> mark_pass then (Inr 0, s)
      else let logs = seed_logs sl; (r, s1) = run_logs env logs s
           in case flush env True s1 of
                (Inl e, s2) \<Rightarrow> (Inl e, s2)
              | (Inr u, s2) \<Rightarrow> (case r of Inl e \<Rightarrow> Inl e | Inr v \<Rightarrow> Inr (length logs), close_store env s2))"

section \<open>Properties\<close>

text \<open>What a steady store without other tasks has logged after a list of log calls.\<close>

lemma run_logs_fold: "run_logs env as s = (Inr u, s') \<Longrightarrow> s' = fold (sstep env) as s"
  by (induction as arbitrary: s) (auto simp: return_op_def then_op_def sstep_def split: prod.splits sum.splits)

lemma alone_emits: "alone env \<Longrightarrow> emits_tcp env a s = map plain (own_tcp env (ss_tick s) a)"
  by (simp add: emits_tcp_def arr_tcp_def alone_def)

lemma last_result_append:
  "last_result (xs @ ys) name proto d = (if filter (entry_for name proto d) ys = [] then last_result xs name proto d else last_result ys name proto d)"
  by (cases "filter (entry_for name proto d) ys"; cases "filter (entry_for name proto d) xs") (simp_all add: last_result_def)

definition passing_logs :: "store_op list \<Rightarrow> bool" where
  "passing_logs as = list_all (\<lambda>a. \<forall>e. a = LogTcp e \<longrightarrow> entry_works e) as"

lemma own_works: "(\<And>e. a = LogTcp e \<Longrightarrow> entry_works e) \<Longrightarrow> list_all entry_works (map plain (own_tcp env n a))"
  by (cases a) (simp_all add: entry_works_def plain_def stamp_tcp_def)

lemma emitted_works:
  assumes "alone env"
  shows "passing_logs as \<Longrightarrow> list_all entry_works (emitted (sstep env) (emits_tcp env) as s)"
proof (induction as arbitrary: s)
  case (Cons a as)
  then show ?case
    using own_works [of a env "ss_tick s"] by (simp add: passing_logs_def alone_emits [OF assms])
qed simp

lemma emitted_entry:
  assumes "alone env"
  shows "LogTcp e \<in> set as \<Longrightarrow> \<exists>e' \<in> set (emitted (sstep env) (emits_tcp env) as s). entry_for (te_strategy e) (te_proto e) (te_domain e) e'"
proof (induction as arbitrary: s)
  case (Cons a as)
  show ?case
  proof (cases "a = LogTcp e")
    case True
    then show ?thesis by (simp add: alone_emits [OF assms] entry_for_def plain_def stamp_tcp_def)
  next
    case False
    then show ?thesis using Cons.IH [of "sstep env a s"] Cons.prems by auto
  qed
qed simp

lemma last_result_works:
  assumes "list_all entry_works es" and "e \<in> set es" and "entry_for name proto d e"
  shows "\<exists>e'. last_result (xs @ es) name proto d = Some e' \<and> entry_works e'"
proof -
  have ne: "filter (entry_for name proto d) es \<noteq> []"
    using assms by (auto simp: filter_empty_conv)
  then have "last (filter (entry_for name proto d) es) \<in> set es"
    using last_in_set [OF ne] by simp
  then show ?thesis
    using ne assms(1) by (simp add: last_result_append last_result_Some list_all_iff)
qed

lemma passing_append: "passing_logs (as @ bs) = (passing_logs as \<and> passing_logs bs)"
  by (simp add: passing_logs_def)

lemma seeded_works: "entry_works (seeded_tcp proto l d ms strat)"
  by (simp add: entry_works_def seeded_tcp_def working_status_def)

lemma row_logs_passing: "passing_logs (row_logs proto p k e)"
  by (auto simp: row_logs_def passing_logs_def list_all_iff seeded_works Let_def split: short_entry.splits if_splits)

lemma rows_logs_passing: "passing_logs (rows_logs proto p k es)"
  by (induction es arbitrary: k) (simp_all add: Let_def passing_append row_logs_passing, simp add: passing_logs_def)

lemma rows_logs_entry:
  assumes "RowEntry r \<in> set es" and "proto \<noteq> ''udp''" and "strip (sh_strategy r) \<noteq> []" and "sh_label r \<noteq> []"
    and "d \<in> set (seed_domains p r)"
  shows "\<exists>e. LogTcp e \<in> set (rows_logs proto p k es) \<and> te_strategy e = sh_label r \<and> te_proto e = proto \<and> te_domain e = d"
  using assms(1)
proof (induction es arbitrary: k)
  case Nil
  then show ?case by simp
next
  case (Cons x es)
  show ?case
  proof (cases "x = RowEntry r")
    case True
    let ?ms = "if proto = ''tcp'' then nonzero (sh_avg_latency_ms r) (nonzero (sh_latency_ms r) 0) else nonzero (sh_latency_ms r) 0"
    have "LogTcp (seeded_tcp proto (sh_label r) d ?ms (strip (sh_strategy r))) \<in> set (row_logs proto p k x)"
      using assms(2-5) by (simp add: True row_logs_def row_label_def or_else_def Let_def del: if_split)
    then show ?thesis
      by (intro exI [of _ "seeded_tcp proto (sh_label r) d ?ms (strip (sh_strategy r))"]) (simp add: Let_def seeded_tcp_def)
  next
    case False
    then obtain e where "LogTcp e \<in> set (rows_logs proto p (k + length (row_logs proto p k x)) es)"
        "te_strategy e = sh_label r \<and> te_proto e = proto \<and> te_domain e = d"
      using Cons.IH [of "k + length (row_logs proto p k x)"] Cons.prems by auto
    then show ?thesis
      by (intro exI [of _ e]) (simp add: Let_def)
  qed
qed

definition listed_pass :: "shortlist \<Rightarrow> string \<Rightarrow> string \<Rightarrow> string \<Rightarrow> bool" where
  "listed_pass sl name proto d =
     (\<exists>r \<in> {r. RowEntry r \<in> set (if proto = ''tcp'' then sl_tcp sl else if proto = ''quic'' then sl_quic sl else [])}.
        sh_label r = name \<and> name \<noteq> [] \<and> strip (sh_strategy r) \<noteq> [] \<and> d \<in> set (seed_domains (seed_primary sl) r))"

lemma listed_logged:
  assumes "listed_pass sl name proto d"
  shows "\<exists>e. LogTcp e \<in> set (seed_logs sl) \<and> te_strategy e = name \<and> te_proto e = proto \<and> te_domain e = d"
proof -
  obtain r where r: "RowEntry r \<in> set (if proto = ''tcp'' then sl_tcp sl else if proto = ''quic'' then sl_quic sl else [])"
      "sh_label r = name" "sh_label r \<noteq> []" "strip (sh_strategy r) \<noteq> []" "d \<in> set (seed_domains (seed_primary sl) r)"
    using assms unfolding listed_pass_def by auto
  consider "proto = ''tcp''" "RowEntry r \<in> set (sl_tcp sl)" | "proto = ''quic''" "RowEntry r \<in> set (sl_quic sl)"
    using r(1) by (auto split: if_splits)
  then show ?thesis
  proof cases
    case 1
    from rows_logs_entry [OF 1(2) _ r(4,3,5), of "''tcp''" 0] show ?thesis
      using 1 r(2) by (auto simp: seed_logs_def Let_def)
  next
    case 2
    from rows_logs_entry [OF 2(2) _ r(4,3,5), of "''quic''"] show ?thesis
      using 2 r(2) by (fastforce simp: seed_logs_def Let_def)
  qed
qed


definition sample_row :: short_row where
  "sample_row = tcp_short_row ''split'' ''multisplit:pos=1'' [''a.com'', ''b.com''] 12"

definition sample_shortlist :: shortlist where
  "sample_shortlist =
     \<lparr>sl_schema = SHORTLIST_SCHEMA, sl_generated_at = [], sl_source_db = ''state.db'', sl_domains = [''a.com''],
      sl_tcp = [RowEntry sample_row, OtherEntry], sl_udp = [], sl_quic = [RowEntry (sample_row\<lparr>sh_domains_pass := []\<rparr>)], sl_common_tcp = []\<rparr>"


section \<open>A row without domains\<close>

text \<open>
  When nothing worked on the first domain the rows of the list come from the ranking by coverage and name no domains, so
  that the import counts them as passed on the first domain, where none of them worked.
\<close>

definition other_domain_campaign :: RunStore where
  "other_domain_campaign =
     fold (sstep quiet_sample_env) [LogTcp (sample_winner\<lparr>te_status := ''FAIL''\<rparr>), LogTcp (sample_winner\<lparr>te_domain := ''b.com''\<rparr>)]
       (new_store empty_db 2 15 False)"

lemma coverage_rows_seed_wrong_domain:
  "map_option entry_works (last_result (tcp_log other_domain_campaign) ''std_split_1'' ''tcp'' ''a.com'') = Some False"
  "(case fst (build_shortlist_entries quiet_sample_env sample_conf_env [] [] [''a.com'', ''b.com''] 10 False other_domain_campaign) of
      Inr sl \<Rightarrow> map (\<lambda>a. case a of LogTcp e \<Rightarrow> (te_strategy e, te_domain e, te_status e) | _ \<Rightarrow> ([], [], [])) (seed_logs sl)
    | _ \<Rightarrow> []) = [(''std_split_1'', ''a.com'', ''PASS'')]"
  by code_simp+

section \<open>The strategies of a summary\<close>

text \<open>Every bucket of the strategies is filled, without repetition, and normalised.\<close>

definition good_bucket :: "string list \<Rightarrow> bool" where
  "good_bucket b = (b \<noteq> [] \<and> distinct b \<and> set b \<subseteq> range normalize_strategy - {[]})"

definition good_buckets :: "(string, string list) dict \<Rightarrow> bool" where
  "good_buckets m = (\<forall>p b. dict_get m p = Some b \<longrightarrow> good_bucket b)"

lemma good_custom: "custom_bucket lines \<noteq> [] \<Longrightarrow> good_bucket (custom_bucket lines)"
  by (auto simp: good_bucket_def custom_bucket_def)

lemma good_set: "good_buckets m \<Longrightarrow> good_bucket b \<Longrightarrow> good_buckets (dict_set p b m)"
  by (auto simp: good_buckets_def map_of_update' split: if_splits)

lemma good_add_new: "b = [] \<or> good_bucket b \<Longrightarrow> normalize_strategy s \<noteq> [] \<Longrightarrow> good_bucket (add_new b (normalize_strategy s))"
  by (auto simp: good_bucket_def add_new_def)

lemma good_getd: "good_buckets m \<Longrightarrow> dict_getd m p [] = [] \<or> good_bucket (dict_getd m p [])"
  by (cases "dict_get m p") (simp_all add: good_buckets_def dict_getd_def)

lemma good_add: "good_buckets m \<Longrightarrow> good_buckets (add_profile (proto, strat) m)"
  by (simp add: add_profile_def Let_def good_set good_add_new good_getd)

lemma good_fold: "(\<And>x m. good_buckets m \<Longrightarrow> good_buckets (f x m)) \<Longrightarrow> good_buckets m \<Longrightarrow> good_buckets (fold f xs m)"
  by (induction xs arbitrary: m) simp_all

lemma extracted_buckets: "good_buckets (extract_strategies sm)"
proof -
  have profiles: "good_buckets (fold add_profile profiles m)" if "good_buckets m" for profiles m
    using that by (rule good_fold [rotated]) (simp add: good_add split_paired_all)
  have custom: "good_buckets ((\<lambda>(proto, lines) out. let b = custom_bucket lines in if b \<noteq> [] then dict_set proto b out else out) x m)" if "good_buckets m" for x m
    using that by (cases x) (simp add: Let_def good_set good_custom)
  have "good_buckets (fold (\<lambda>(proto, lines) out. let b = custom_bucket lines in if b \<noteq> [] then dict_set proto b out else out) (ps_custom sm) [])"
    by (rule good_fold, erule custom) (simp add: good_buckets_def)
  then show ?thesis
    unfolding extract_strategies_def by (rule good_fold [rotated]) (auto intro: profiles)
qed

text \<open>A merge keeps the lines of the matrix and adds each strategy once that none of them is.\<close>

lemma merge_appends:
  "merge_line_all = fold merge_line ss (lines, existing) \<Longrightarrow>
     prefix lines (fst merge_line_all) \<and> set (fst merge_line_all) = set lines \<union> (set ss - set existing)"
proof (induction ss arbitrary: lines existing merge_line_all)
  case (Cons s ss)
  then show ?case
    using Cons.IH [of _ "lines @ [s]" "s # existing"] Cons.IH [of _ lines existing]
    by (auto simp: merge_line_def prefix_def)
qed simp

end
