(* ===== verification/GgcPool.thy ===== *)
theory GgcPool
  imports PyText DomainLoader
begin

text \<open>
  \<^verbatim>\<open>engine/ggc_pool.py\<close>: the host and the address a probe of the Google cache uses. The random generator is a stream of
  numbers, reduced to the range that is asked for; the clock, the environment, the configuration and the database of the
  provider are a record. The two JSON files are their values: unreadable, no object, or the entries the code reads, with
  a time stamp that is missing as 0. Warnings are left out. The lock only guards the state against other threads.
\<close>

section \<open>State\<close>

datatype ggc_cache = NoCacheFile | NoCacheObject | CacheIps "(string, string option \<times> rat) dict"

datatype ggc_hosts = NoHostsFile | NoHostsObject | HostsAt rat "string list"

record ggc_env =
  gv_mode_env :: string
  gv_mode_toml :: "string option"
  gv_ips_env :: string
  gv_ips_toml :: "string list"
  gv_draws :: "nat \<Rightarrow> nat"
  gv_now :: rat
  gv_real_pool :: ggc_hosts
  gv_dns_db :: "(string, string list \<times> string) dict option"
  gv_host :: string
  gv_fallback_ip :: string

record ggc_state =
  gg_pos :: nat
  gg_last_codes :: "(nat \<times> string) list"
  gg_rotation :: nat
  gg_cache :: ggc_cache

record ggc_target =
  gt_host :: string
  gt_mode :: string
  gt_ip_hint :: "string option"
  gt_pool_size :: nat

definition MODES :: "string list" where
  "MODES = [''synthetic'', ''real'', ''fixed'']"

definition REGION_PREFIXES :: "string list" where
  "REGION_PREFIXES = [''5goeenes'', ''uxaxjvh'', ''1-ien4'', ''a5mek'', ''h5qfk'', ''un57'', ''xjvho'']"

definition REGION_SUFFIXES :: "string list" where
  "REGION_SUFFIXES = [[], ''-30ze'', ''-5uae'', ''-okge'', ''-4g26'', ''-ne6'']"

definition CODE_ALPHABET :: string where
  "CODE_ALPHABET = ''abcdefghijklmnopqrstuvwxyz0123456789''"

definition LAST_RESORT_IPS :: "string list" where
  "LAST_RESORT_IPS = [''64.233.161.198'', ''108.177.14.147'', ''74.125.131.103'', ''64.233.161.99'']"

definition IPS_TTL_SEC :: rat where "IPS_TTL_SEC = 604800"
definition REAL_POOL_TTL_SEC :: rat where "REAL_POOL_TTL_SEC = 21600"
definition NO_REPEAT :: nat where "NO_REPEAT = 8"

section \<open>Names\<close>

text \<open>
  The expression \<^verbatim>\<open>_RR_RE\<close>, without regard to case: the code runs to the first dot, so that the look-ahead counts its
  characters; a line end may follow the name.
\<close>

definition sn_code :: "string \<Rightarrow> bool" where
  "sn_code s = (4 \<le> length s \<and> length s \<le> 16 \<and> list_all (\<lambda>p. p \<noteq> [] \<and> list_all lower_alnum p) (split_char CHR ''-'' s))"

definition is_ggc_host :: "string \<Rightarrow> bool" where
  "is_ggc_host host =
     (let s = lower host; num = takeWhile is_decimal (drop 2 s); rest = drop (2 + length num) s;
          sn = takeWhile (\<lambda>c. c \<noteq> CHR ''.'') (drop 6 rest); rear = drop (6 + length sn) rest
      in startswith s ''rr'' \<and> 1 \<le> length num \<and> length num \<le> 3 \<and> startswith rest ''---sn-'' \<and> sn_code sn \<and>
         (rear = ''.googlevideo.com'' \<or> rear = ''.googlevideo.com'' @ [CHR 0x0A]))"

section \<open>Drawing names\<close>

text \<open>\<open>draw_below k\<close> gives one of \<open>0 \<dots> k - 1\<close>.\<close>

definition draw_below :: "ggc_env \<Rightarrow> nat \<Rightarrow> ggc_state \<Rightarrow> nat \<times> ggc_state" where
  "draw_below env k s = (gv_draws env (gg_pos s) mod k, s\<lparr>gg_pos := Suc (gg_pos s)\<rparr>)"

definition choice :: "ggc_env \<Rightarrow> 'a list \<Rightarrow> ggc_state \<Rightarrow> 'a \<times> ggc_state" where
  "choice env xs s = (let (i, s1) = draw_below env (length xs) s in (xs ! i, s1))"

fun choices :: "ggc_env \<Rightarrow> nat \<Rightarrow> 'a list \<Rightarrow> ggc_state \<Rightarrow> 'a list \<times> ggc_state" where
  "choices env 0 xs s = ([], s)"
| "choices env (Suc n) xs s = (let (x, s1) = choice env xs s; (ys, s2) = choices env n xs s1 in (x # ys, s2))"

definition generate_sn_code :: "ggc_env \<Rightarrow> ggc_state \<Rightarrow> string \<times> ggc_state" where
  "generate_sn_code env s =
     (let (pre, s1) = choice env REGION_PREFIXES s;
          room = 8 - int (length pre);
          (n, s2) = draw_below env (nat (max 0 (min 3 room)) + 1) s1;
          (chars, s3) = choices env (if 0 < room then n else 0) CODE_ALPHABET s2;
          (suf, s4) = choice env REGION_SUFFIXES s3
      in (take 8 (pre @ chars) @ suf, s4))"

definition ggc_host_name :: "nat \<Rightarrow> string \<Rightarrow> string" where
  "ggc_host_name n sn = ''rr'' @ digits_of_nat n @ ''---sn-'' @ sn @ ''.googlevideo.com''"

definition last_items :: "nat \<Rightarrow> 'a list \<Rightarrow> 'a list" where
  "last_items n xs = drop (length xs - n) xs"

fun synthetic_tries :: "nat \<Rightarrow> ggc_env \<Rightarrow> ggc_state \<Rightarrow> string \<times> ggc_state" where
  "synthetic_tries 0 env s = (let (sn, s1) = generate_sn_code env s in (ggc_host_name 1 sn, s1))"
| "synthetic_tries (Suc k) env s =
     (let (i, s1) = draw_below env 60 s; n = i + 1; (sn, s2) = generate_sn_code env s1
      in if (n, sn) \<notin> set (gg_last_codes s2)
         then (ggc_host_name n sn, s2\<lparr>gg_last_codes := last_items NO_REPEAT (gg_last_codes s2 @ [(n, sn)])\<rparr>)
         else synthetic_tries k env s2)"

definition generate_synthetic_host :: "ggc_env \<Rightarrow> ggc_state \<Rightarrow> string \<times> ggc_state" where
  "generate_synthetic_host env = synthetic_tries 32 env"

section \<open>The files\<close>

text \<open>Reading the attribute of a value that is no object raises an \<^verbatim>\<open>AttributeError\<close>, which no caller catches.\<close>

definition attribute_error :: py_error where
  "attribute_error = TypeError ''AttributeError''"

definition load_real_pool :: "ggc_env \<Rightarrow> (string list) result" where
  "load_real_pool env =
     (case gv_real_pool env of
        NoHostsFile \<Rightarrow> Inr []
      | NoHostsObject \<Rightarrow> Inl attribute_error
      | HostsAt ts hosts \<Rightarrow> Inr (if REAL_POOL_TTL_SEC < gv_now env - ts then [] else filter is_ggc_host hosts))"

definition read_ips_cache_entries :: "ggc_state \<Rightarrow> ((string, string option \<times> rat) dict) result" where
  "read_ips_cache_entries s =
     (case gg_cache s of NoCacheFile \<Rightarrow> Inr [] | NoCacheObject \<Rightarrow> Inl attribute_error | CacheIps m \<Rightarrow> Inr m)"

text \<open>\<open>failed\<close> says that writing the file fails, which is only logged.\<close>

definition remember_ggc_ip :: "ggc_env \<Rightarrow> bool \<Rightarrow> string \<Rightarrow> string \<Rightarrow> ggc_state \<Rightarrow> (unit result) \<times> ggc_state" where
  "remember_ggc_ip env failed host ip s =
     (if ip = [] \<or> \<not> is_ggc_host host then (Inr (), s)
      else case read_ips_cache_entries s of
             Inl e \<Rightarrow> (Inl e, s)
           | Inr m \<Rightarrow>
               (let fresh = filter (\<lambda>(k, v). gv_now env - snd v < IPS_TTL_SEC) m;
                    entries = dict_set host (Some ip, gv_now env) fresh;
                    trimmed = take 256 (sort_key (\<lambda>(k, v). - snd v) entries)
                in (Inr (), if failed then s else s\<lparr>gg_cache := CacheIps trimmed\<rparr>)))"

fun cached_from :: "rat \<Rightarrow> string list \<Rightarrow> (string \<times> string option \<times> rat) list \<Rightarrow> string list" where
  "cached_from now out [] = out"
| "cached_from now out ((k, ip, ts) # r) =
     (let x = (case ip of Some a \<Rightarrow> a | None \<Rightarrow> [])
      in cached_from now (if x \<noteq> [] \<and> now - IPS_TTL_SEC \<le> ts \<and> x \<notin> set out then out @ [x] else out) r)"

definition cached_ips :: "ggc_env \<Rightarrow> ggc_state \<Rightarrow> (string list) result" where
  "cached_ips env s =
     bind_result (read_ips_cache_entries s) (\<lambda>m. Inr (cached_from (gv_now env) [] (sort_key (\<lambda>(k, v). - snd v) m)))"

section \<open>Addresses\<close>

definition configured_fallback_ips :: "ggc_env \<Rightarrow> string list" where
  "configured_fallback_ips env =
     (if strip (gv_ips_env env) \<noteq> []
      then map strip (filter (\<lambda>p. strip p \<noteq> []) (split_char CHR '','' (strip (gv_ips_env env))))
      else gv_ips_toml env)"

definition rotate_last_resort :: "ggc_state \<Rightarrow> string \<times> ggc_state" where
  "rotate_last_resort s =
     (LAST_RESORT_IPS ! (gg_rotation s mod length LAST_RESORT_IPS), s\<lparr>gg_rotation := Suc (gg_rotation s)\<rparr>)"

definition resolve_ip_chain :: "ggc_env \<Rightarrow> string \<Rightarrow> ggc_state \<Rightarrow> (string option) result \<times> ggc_state" where
  "resolve_ip_chain env host s =
     (let recs = (case gv_dns_db env of Some m \<Rightarrow> m | None \<Rightarrow> []); ips = fst (dict_getd recs host ([], []))
      in if ips \<noteq> [] then (Inr (Some (hd ips)), s)
         else if configured_fallback_ips env \<noteq> [] then (Inr (Some (hd (configured_fallback_ips env))), s)
         else case cached_ips env s of
                Inl e \<Rightarrow> (Inl e, s)
              | Inr cached \<Rightarrow>
                  if cached \<noteq> [] then (Inr (Some (hd cached)), s)
                  else if LAST_RESORT_IPS \<noteq> [] then (let (ip, s1) = rotate_last_resort s in (Inr (Some ip), s1))
                  else (Inr (if host = gv_host env then Some (gv_fallback_ip env) else None), s))"

section \<open>Choosing a target\<close>

definition current_mode :: "ggc_env \<Rightarrow> string" where
  "current_mode env =
     (let m = lower (strip (gv_mode_env env))
      in if m \<in> set MODES then m
         else case gv_mode_toml env of
                Some t \<Rightarrow> if lower (strip t) \<in> set MODES then lower (strip t) else ''synthetic''
              | None \<Rightarrow> ''synthetic'')"

text \<open>An entry without an address gives the text of Python's \<^verbatim>\<open>None\<close>.\<close>

definition synthetic_target :: "ggc_env \<Rightarrow> ggc_state \<Rightarrow> ggc_target result \<times> ggc_state" where
  "synthetic_target env s =
     (let (host, s1) = generate_synthetic_host env s
      in case read_ips_cache_entries s1 of
           Inl e \<Rightarrow> (Inl e, s1)
         | Inr m \<Rightarrow>
             (let hint = (case dict_get m host of
                            Some (ip, ts) \<Rightarrow> if gv_now env - ts < IPS_TTL_SEC then Some (case ip of Some a \<Rightarrow> a | None \<Rightarrow> ''None'') else None
                          | None \<Rightarrow> None)
              in (Inr \<lparr>gt_host = host, gt_mode = current_mode env, gt_ip_hint = hint, gt_pool_size = 0\<rparr>, s1)))"

definition pick_target :: "ggc_env \<Rightarrow> ggc_state \<Rightarrow> ggc_target result \<times> ggc_state" where
  "pick_target env s =
     (if current_mode env = ''fixed''
      then (Inr \<lparr>gt_host = gv_host env, gt_mode = ''fixed'', gt_ip_hint = None, gt_pool_size = 1\<rparr>, s)
      else if current_mode env = ''real''
      then (case load_real_pool env of
              Inl e \<Rightarrow> (Inl e, s)
            | Inr [] \<Rightarrow> synthetic_target env s
            | Inr pool \<Rightarrow>
                (let (host, s1) = choice env pool s
                 in (Inr \<lparr>gt_host = host, gt_mode = ''real'', gt_ip_hint = None, gt_pool_size = length pool\<rparr>, s1)))
      else synthetic_target env s)"

section \<open>Every drawn name is one of a cache node\<close>

definition sn_ok :: "string \<Rightarrow> bool" where
  "sn_ok s = list_all (\<lambda>p. p \<noteq> [] \<and> list_all lower_alnum p) (split_char CHR ''-'' s)"

lemma sn_ok_append: "sn_ok s \<Longrightarrow> list_all lower_alnum w \<Longrightarrow> sn_ok (s @ w)"
proof (induction w arbitrary: s)
  case Nil
  then show ?case by simp
next
  case (Cons x w)
  have x: "x \<noteq> CHR ''-''" using Cons.prems(2) by (auto simp: lower_alnum_def is_decimal_def)
  have "split_char CHR ''-'' s \<noteq> []" by (cases s) (auto split: list.split)
  then have "list_all (\<lambda>p. p \<noteq> [] \<and> list_all lower_alnum p) (butlast (split_char CHR ''-'' s)) \<and>
      list_all lower_alnum (last (split_char CHR ''-'' s))"
    using Cons.prems(1) by (auto simp: sn_ok_def list_all_iff dest: in_set_butlastD)
  then have "sn_ok (s @ [x])"
    using Cons.prems(2) by (simp add: sn_ok_def split_char_snoc [OF x])
  then show ?case
    using Cons.IH [of "s @ [x]"] Cons.prems(2) by simp
qed

lemma choice_in: "xs \<noteq> [] \<Longrightarrow> fst (choice env xs s) \<in> set xs"
  by (simp add: choice_def draw_below_def)

lemma choices_in: "xs \<noteq> [] \<Longrightarrow> set (fst (choices env n xs s)) \<subseteq> set xs"
proof (induction n arbitrary: s)
  case (Suc n)
  then show ?case
    using choice_in [OF Suc.prems, of env s] by (simp add: Let_def split_def)
qed simp

lemma alphabet_code: "list_all lower_alnum CODE_ALPHABET"
  by code_simp

lemma regions_ok:
  "list_all (\<lambda>p. sn_ok p \<and> 4 \<le> length p \<and> length p \<le> 8) REGION_PREFIXES"
  "list_all (\<lambda>u. length u \<le> 5 \<and> (u = [] \<or> hd u = CHR ''-'' \<and> sn_ok (tl u))) REGION_SUFFIXES"
  by code_simp+

lemma sn_ok_join: "sn_ok s \<Longrightarrow> u = [] \<or> hd u = CHR ''-'' \<and> sn_ok (tl u) \<Longrightarrow> sn_ok (s @ u)"
  by (cases u) (auto simp: sn_ok_def split_char_Cons_sep)

lemma generated_code: "sn_code (fst (generate_sn_code env s))"
proof -
  obtain p s1 where 1: "choice env REGION_PREFIXES s = (p, s1)" by (cases "choice env REGION_PREFIXES s")
  obtain n s2 where 2: "draw_below env (nat (max 0 (min 3 (8 - int (length p)))) + 1) s1 = (n, s2)"
    by (cases "draw_below env (nat (max 0 (min 3 (8 - int (length p)))) + 1) s1")
  obtain w s3 where 3: "choices env (if 0 < 8 - int (length p) then n else 0) CODE_ALPHABET s2 = (w, s3)"
    by (cases "choices env (if 0 < 8 - int (length p) then n else 0) CODE_ALPHABET s2")
  obtain u s4 where 4: "choice env REGION_SUFFIXES s3 = (u, s4)" by (cases "choice env REGION_SUFFIXES s3")
  have eq: "fst (generate_sn_code env s) = take 8 (p @ w) @ u"
    by (simp only: generate_sn_code_def Let_def 1 2 3 4 prod.case fst_conv)
  have "p \<in> set REGION_PREFIXES" using choice_in [of REGION_PREFIXES env s] 1 by (simp add: REGION_PREFIXES_def)
  then have p: "sn_ok p" "4 \<le> length p" "length p \<le> 8" using regions_ok(1) by (auto simp: list_all_iff)
  have "u \<in> set REGION_SUFFIXES" using choice_in [of REGION_SUFFIXES env s3] 4 by (simp add: REGION_SUFFIXES_def)
  then have u: "length u \<le> 5" "u = [] \<or> hd u = CHR ''-'' \<and> sn_ok (tl u)" using regions_ok(2) by (auto simp: list_all_iff)
  have "set w \<subseteq> set CODE_ALPHABET"
    using choices_in [of CODE_ALPHABET env "if 0 < 8 - int (length p) then n else 0" s2] 3 by (simp add: CODE_ALPHABET_def)
  then have w: "list_all lower_alnum (take (8 - length p) w)"
    using alphabet_code by (auto simp: list_all_iff dest!: in_set_takeD)
  have "sn_ok (take 8 (p @ w) @ u)"
    using sn_ok_join [OF sn_ok_append [OF p(1) w] u(2)] p(3) by simp
  moreover have "4 \<le> length (take 8 (p @ w) @ u) \<and> length (take 8 (p @ w) @ u) \<le> 16"
    using p u by simp
  ultimately show ?thesis
    unfolding eq sn_code_def sn_ok_def by blast
qed

lemma sn_chars: "sn_code s \<Longrightarrow> c \<in> set s \<Longrightarrow> lower_alnum c \<or> c = CHR ''-''"
proof -
  assume s: "sn_code s" and c: "c \<in> set s"
  have "c \<in> set (join_with ''-'' (split_char CHR ''-'' s))" using c by (simp add: join_split_char)
  moreover have "set (join_with ''-'' ws) \<subseteq> insert CHR ''-'' (\<Union> (set ` set ws))" for ws
    by (induction "''-'' :: string" ws rule: join_with.induct) auto
  ultimately show ?thesis using s by (fastforce simp: sn_code_def list_all_iff)
qed

lemma small_numbers: "list_all (\<lambda>n. list_all is_decimal (digits_of_nat n) \<and> 1 \<le> length (digits_of_nat n) \<and> length (digits_of_nat n) \<le> 3) [1..<61]"
  by code_simp

lemma host_name_accepted:
  assumes "1 \<le> n" and "n \<le> 60" and sn: "sn_code sn"
  shows "is_ggc_host (ggc_host_name n sn)"
proof -
  have d: "list_all is_decimal (digits_of_nat n)" "1 \<le> length (digits_of_nat n)" "length (digits_of_nat n) \<le> 3"
    using small_numbers assms(1,2) by (auto simp: list_all_iff)
  have keep: "lower_char c = c" if "c \<in> set sn \<or> c \<in> set (digits_of_nat n)" for c
    using that d(1) sn_chars [OF sn, of c] by (intro lower_char_id) (auto simp: list_all_iff lower_alnum_def)
  have low: "lower (ggc_host_name n sn) = ggc_host_name n sn"
  proof -
    have "map lower_char sn = sn" "map lower_char (digits_of_nat n) = digits_of_nat n"
      using keep by (auto intro: map_idI)
    moreover have "map lower_char ''rr'' = ''rr''" "map lower_char ''---sn-'' = ''---sn-''" "map lower_char ''.googlevideo.com'' = ''.googlevideo.com''"
      by code_simp+
    ultimately show ?thesis by (simp only: lower_def ggc_host_name_def map_append)
  qed
  have num: "takeWhile is_decimal (digits_of_nat n @ ''---sn-'' @ sn @ ''.googlevideo.com'') = digits_of_nat n"
    using d(1) by (simp add: takeWhile_append2 list_all_iff is_decimal_def)
  have "CHR ''.'' \<notin> set sn"
    using sn_chars [OF sn, of "CHR ''.''"] by (auto simp: lower_alnum_def is_decimal_def)
  then have code: "takeWhile (\<lambda>c. c \<noteq> CHR ''.'') (sn @ ''.googlevideo.com'') = sn"
    by (subst takeWhile_append2) auto
  have rear: "drop (6 + length sn) (''---sn-'' @ sn @ ''.googlevideo.com'') = ''.googlevideo.com''"
    by (simp add: numeral_eq_Suc)
  show ?thesis
    unfolding is_ggc_host_def Let_def low
    using d num code sn rear by (simp add: ggc_host_name_def startswith_def)
qed

lemma synthetic_accepted: "is_ggc_host (fst (synthetic_tries k env s))"
proof (induction k arbitrary: s)
  case 0
  then show ?case
    using host_name_accepted [of 1 "fst (generate_sn_code env s)"] generated_code [of env s] by (cases "generate_sn_code env s") simp
next
  case (Suc k)
  obtain i s1 where 1: "draw_below env 60 s = (i, s1)" by (cases "draw_below env 60 s")
  have i: "i < 60" using 1 by (auto simp: draw_below_def)
  obtain sn s2 where 2: "generate_sn_code env s1 = (sn, s2)" by (cases "generate_sn_code env s1")
  have "sn_code sn" using generated_code [of env s1] 2 by simp
  then show ?case
    using Suc.IH [of s2] host_name_accepted [of "i + 1" sn] i by (simp add: 1 2 Let_def)
qed

text \<open>
  Outside the fixed mode, whatever the random numbers are, the chosen host has the form of a cache node.
\<close>

lemma picked_hosts_plausible:
  assumes "pick_target env s = (Inr t, s')"
  shows "is_ggc_host (gt_host t) \<or> gt_mode t = ''fixed'' \<and> gt_host t = gv_host env"
proof -
  have synthetic: "is_ggc_host (gt_host t)" if "synthetic_target env s = (Inr t, s')"
    using that synthetic_accepted [of 32 env s]
    by (auto simp: synthetic_target_def generate_synthetic_host_def Let_def split: prod.splits sum.splits)
  have pool: "is_ggc_host (fst (choice env hosts s))" if "load_real_pool env = Inr hosts" "hosts \<noteq> []" for hosts
    using that choice_in [of hosts env s] by (auto simp: load_real_pool_def split: ggc_hosts.splits if_splits)
  show ?thesis
    using assms synthetic pool
    by (auto simp: pick_target_def Let_def split: if_splits sum.splits list.splits prod.splits)
qed

text \<open>A name is not drawn again before eight others were, unless all tries give recent ones; at most eight are remembered.\<close>

lemma last_items_props: "length (last_items n xs) \<le> n" "set (last_items n xs) \<subseteq> set xs" "distinct xs \<Longrightarrow> distinct (last_items n xs)"
  by (auto simp: last_items_def dest: in_set_dropD)

definition recent_ok :: "ggc_state \<Rightarrow> bool" where
  "recent_ok s = (distinct (gg_last_codes s) \<and> length (gg_last_codes s) \<le> NO_REPEAT)"

lemma draws_keep_recent:
  "gg_last_codes (snd (draw_below env k s)) = gg_last_codes s"
  "gg_last_codes (snd (choice env xs s)) = gg_last_codes s"
  by (simp_all add: draw_below_def choice_def)

lemma choices_keep_recent: "gg_last_codes (snd (choices env n xs s)) = gg_last_codes s"
  by (induction n arbitrary: s) (simp_all add: Let_def split_def draws_keep_recent)

lemma code_keeps_recent: "gg_last_codes (snd (generate_sn_code env s)) = gg_last_codes s"
  by (simp add: generate_sn_code_def Let_def split_def draws_keep_recent choices_keep_recent)

lemma synthetic_recent:
  assumes "recent_ok s"
  shows "recent_ok (snd (synthetic_tries k env s)) \<and>
     (gg_last_codes (snd (synthetic_tries k env s)) = gg_last_codes s \<or>
      (\<exists>n sn. fst (synthetic_tries k env s) = ggc_host_name n sn \<and> (n, sn) \<notin> set (gg_last_codes s) \<and>
         gg_last_codes (snd (synthetic_tries k env s)) = last_items NO_REPEAT (gg_last_codes s @ [(n, sn)])))"
  using assms
proof (induction k arbitrary: s)
  case 0
  then show ?case
    using code_keeps_recent [of env s] by (cases "generate_sn_code env s") (simp add: recent_ok_def)
next
  case (Suc k)
  obtain i s1 where 1: "draw_below env 60 s = (i, s1)" by (cases "draw_below env 60 s")
  obtain sn s2 where 2: "generate_sn_code env s1 = (sn, s2)" by (cases "generate_sn_code env s1")
  have same: "gg_last_codes s2 = gg_last_codes s"
    using draws_keep_recent(1) [of env 60 s] code_keeps_recent [of env s1] 1 2 by simp
  show ?case
  proof (cases "(i + 1, sn) \<in> set (gg_last_codes s2)")
    case True
    then show ?thesis
      using Suc.IH [of s2] Suc.prems same by (simp add: 1 2 Let_def recent_ok_def)
  next
    case False
    then have "distinct (gg_last_codes s @ [(i + 1, sn)])"
      using Suc.prems same by (simp add: recent_ok_def)
    then have "distinct (last_items NO_REPEAT (gg_last_codes s @ [(i + 1, sn)]))"
      by (rule last_items_props(3))
    then show ?thesis
      using False same last_items_props(1) [of NO_REPEAT "gg_last_codes s @ [(i + 1, sn)]"] by (auto simp: 1 2 Let_def recent_ok_def)
  qed
qed

section \<open>The cache and the chain\<close>

lemma cached_from_keeps: "prefix out (cached_from now out es)"
proof (induction now out es rule: cached_from.induct)
  case (2 now out k ip ts r)
  then show ?case
    by (auto simp: Let_def intro: append_prefixD split: if_splits)
qed simp

lemma cached_from_props:
  "distinct out \<Longrightarrow> distinct (cached_from now out es)"
  "x \<in> set (cached_from now out es) \<Longrightarrow> x \<in> set out \<or> (x \<noteq> [] \<and> (\<exists>k ts. (k, Some x, ts) \<in> set es \<and> now - IPS_TTL_SEC \<le> ts))"
  by (induction now out es rule: cached_from.induct) (auto simp: Let_def split: if_splits option.splits)

text \<open>
  A remembered address is the first that the cache gives, if the clock is past all stamps in the file; the file never holds
  more than 256 entries.
\<close>

lemma sort_key_min_first:
  assumes "x \<in> set xs" and "\<And>y. y \<in> set xs \<Longrightarrow> y = x \<or> f x < f y"
  shows "\<exists>r. sort_key f xs = x # r"
proof -
  have "sort_key f xs \<noteq> []" using assms(1) by (metis length_pos_if_in_set length_sort list.size(3) less_numeral_extra(3))
  then obtain y r where y: "sort_key f xs = y # r" by (cases "sort_key f xs") auto
  have "sorted (map f (y # r))" using sorted_sort_key [of f xs] y by simp
  moreover have s: "x \<in> set (y # r)" "y \<in> set xs" using assms(1) y by (metis set_sort, metis list.set_intros(1) set_sort)
  ultimately have "f y \<le> f x" by auto
  then show ?thesis using assms(2) [OF s(2)] y by auto
qed

lemma sort_key_take: "sort_key f (take n (sort_key f xs)) = take n (sort_key f xs)"
proof -
  have "sorted (map f (take n (sort_key f xs)))"
    unfolding take_map [symmetric] by (rule sorted_wrt_take) simp
  then show ?thesis
    by (rule sort_key_id_if_sorted)
qed

lemma remembered_ip_first:
  assumes ip: "ip \<noteq> []" "is_ggc_host host" and m: "gg_cache s = CacheIps m" "distinct (map fst m)"
    and old: "\<And>k v. (k, v) \<in> set m \<Longrightarrow> snd v < gv_now env"
    and s': "remember_ggc_ip env False host ip s = (Inr (), s')"
  shows "\<exists>r. cached_ips env s' = Inr (ip # r)" and "\<exists>m'. gg_cache s' = CacheIps m' \<and> length m' \<le> 256"
proof -
  let ?f = "\<lambda>(k :: string, v). - snd v :: rat"
  let ?fresh = "filter (\<lambda>(k, v). gv_now env - snd v < IPS_TTL_SEC) m"
  let ?es = "dict_set host (Some ip, gv_now env) ?fresh"
  let ?x = "(host, Some ip, gv_now env)"
  have c: "gg_cache s' = CacheIps (take 256 (sort_key ?f ?es))"
    using s' ip m(1) by (auto simp: remember_ggc_ip_def read_ips_cache_entries_def Let_def)
  have d: "distinct (map fst ?es)"
    using m(2) by (intro distinct_update) (simp add: distinct_map_filter)
  have "?x \<in> set ?es"
    by (rule map_of_SomeD) (simp add: map_of_update')
  moreover have "y = ?x \<or> ?f ?x < ?f y" if "y \<in> set ?es" for y
  proof (cases "fst y = host")
    case True
    then show ?thesis
      using eq_key_imp_eq_value [OF d, of host "(Some ip, gv_now env)" "snd y"] that \<open>?x \<in> set ?es\<close> by (cases y) auto
  next
    case False
    then have "map_of ?es (fst y) = map_of ?fresh (fst y)" by (simp add: map_of_update')
    moreover have "map_of ?es (fst y) = Some (snd y)" by (rule map_of_is_SomeI [OF d]) (simp add: that)
    ultimately have "(fst y, snd y) \<in> set ?fresh" by (intro map_of_SomeD) simp
    then have "y \<in> set ?fresh" by simp
    then show ?thesis using old [of "fst y" "snd y"] by (auto simp: split_def)
  qed
  ultimately obtain r where r: "sort_key ?f ?es = ?x # r"
    using sort_key_min_first [of ?x ?es ?f] by blast
  have "cached_ips env s' = Inr (cached_from (gv_now env) [] (sort_key ?f (take 256 (sort_key ?f ?es))))"
    by (simp add: cached_ips_def read_ips_cache_entries_def c)
  also have "sort_key ?f (take 256 (sort_key ?f ?es)) = take 256 (?x # r)"
    using sort_key_take [of ?f 256 ?es] by (simp only: r)
  finally have "cached_ips env s' = Inr (cached_from (gv_now env) [ip] (take 255 r))"
    using ip(1) by (simp add: IPS_TTL_SEC_def)
  then show "\<exists>r. cached_ips env s' = Inr (ip # r)"
    using cached_from_keeps [of "[ip]" "gv_now env" "take 255 r"] by (auto simp: prefix_def)
  show "\<exists>m'. gg_cache s' = CacheIps m' \<and> length m' \<le> 256"
    by (simp add: c)
qed

text \<open>There is an address for every host, unless the cache file holds JSON that is no object.\<close>

lemma chain_gives_address:
  "gg_cache s \<noteq> NoCacheObject \<Longrightarrow> \<exists>ip. fst (resolve_ip_chain env host s) = Inr (Some ip)"
  by (cases "gg_cache s")
    (auto simp: resolve_ip_chain_def Let_def cached_ips_def read_ips_cache_entries_def rotate_last_resort_def LAST_RESORT_IPS_def)

text \<open>\<^verbatim>\<open>pick_target\<close> promises that it never raises; with such a file it does for every synthetic host.\<close>

lemma draws_keep_cache:
  "gg_cache (snd (draw_below env k s)) = gg_cache s" "gg_cache (snd (choice env xs s)) = gg_cache s"
  by (simp_all add: draw_below_def choice_def)

lemma choices_keep_cache: "gg_cache (snd (choices env n xs s)) = gg_cache s"
  by (induction n arbitrary: s) (simp_all add: Let_def split_def draws_keep_cache)

lemma synthetic_keeps_cache: "gg_cache (snd (synthetic_tries k env s)) = gg_cache s"
  by (induction k arbitrary: s) (simp_all add: generate_sn_code_def Let_def split_def draws_keep_cache choices_keep_cache)

lemma pick_target_raises:
  "gg_cache s = NoCacheObject \<Longrightarrow> current_mode env = ''synthetic'' \<Longrightarrow> fst (pick_target env s) = Inl attribute_error"
  using synthetic_keeps_cache [of 32 env s]
  by (simp add: pick_target_def synthetic_target_def generate_synthetic_host_def split_def read_ips_cache_entries_def)

end
