(* ===== verification/Spec2Isabelle.thy ===== *)
theory Spec2Isabelle
  imports PairMatrixProps DomainLoader AdaptiveRunner QuicRaw RunDeadline LuaBridge RunControl ByedpiTranslator ConfBuilder GenProps
    RunStoreProps MatrixProps NetnsPoolProps DnsProps IpBlock Shortlist GgcPool
begin

text \<open>
  A verification of blockcheckS, which searches for the packet manipulations (strategies of the daemon nfqws2) that
  get connections past deep packet inspection. All paths below are relative to \<^verbatim>\<open>src/src/blockchecks/\<close>.

  \<^bold>\<open>The program.\<close> A campaign takes a list of domains, finds out how each is blocked (triage), generates a matrix of
  strategies, and probes strategy after strategy on domain after domain in network namespaces, where a running daemon
  is told through shared files which strategy to apply. A queue that learns from the results decides what is probed
  next. Every result goes through a logger into a buffered SQLite store, from which a later campaign resumes and from
  which the working strategies are exported as configurations or as a shortlist.

  \<^bold>\<open>Theories and sources.\<close> Each theory opens with the source it models; a definition has the name of the
  function, method or class it translates, and the fields of a record are its attributes, with a prefix.

  \<^item> Shared vocabulary. \<^verbatim>\<open>Prelude\<close>: Python strings, dictionaries with insertion order, exceptions as values (\<open>Inl\<close>), the
    interfaces of the development. \<^verbatim>\<open>PyText\<close>, \<^verbatim>\<open>PyRegex\<close>, \<^verbatim>\<open>PyOrder\<close>, \<^verbatim>\<open>PyJson\<close>, \<^verbatim>\<open>PyHeapq\<close>: the parts of Python's library the
    program uses.
  \<^item> Results and domains. \<^verbatim>\<open>FailPhase\<close> (\<^verbatim>\<open>engine/fail_phase.py\<close>), \<^verbatim>\<open>Results\<close> (\<^verbatim>\<open>engine/results.py\<close>), \<^verbatim>\<open>Quarantine\<close>
    (\<^verbatim>\<open>engine/domain_quarantine.py\<close>), \<^verbatim>\<open>DomainLoader\<close> (\<^verbatim>\<open>engine/domain_loader.py\<close>), \<^verbatim>\<open>Families\<close> (\<^verbatim>\<open>engine/family_spec.py\<close>,
    \<^verbatim>\<open>engine/family_needs.py\<close>), \<^verbatim>\<open>Triage\<close> and \<^verbatim>\<open>TriagePrune\<close> (\<^verbatim>\<open>engine/triage.py\<close>, \<^verbatim>\<open>engine/family_registry.py\<close>,
    \<^verbatim>\<open>engine/blob_filter.py\<close>).
  \<^item> Generating strategies. \<^verbatim>\<open>FamilyAxes\<close> and \<^verbatim>\<open>Expanders\<close> (\<^verbatim>\<open>engine/family_axes.py\<close>, \<^verbatim>\<open>engine/generators/families/\<close>),
    \<^verbatim>\<open>StandardGen\<close>, \<^verbatim>\<open>CustomGen\<close>, \<^verbatim>\<open>Flowseal\<close> (\<^verbatim>\<open>engine/generators/\<close>), \<^verbatim>\<open>MatrixGen\<close> (\<^verbatim>\<open>engine/matrix_generator.py\<close> and its ByeDPI
    variant), with \<^verbatim>\<open>GenProps\<close> and \<^verbatim>\<open>MatrixProps\<close>; \<^verbatim>\<open>StaticValidator\<close>, \<^verbatim>\<open>BlobAliases\<close>, \<^verbatim>\<open>ByedpiTranslator\<close>, \<^verbatim>\<open>ConfBuilder\<close>
    (the files of these names in \<^verbatim>\<open>engine/\<close>).
  \<^item> Running them. \<^verbatim>\<open>AdaptiveWeights\<close>, \<^verbatim>\<open>AdaptiveQueue\<close>, \<^verbatim>\<open>AdaptiveQueueInv\<close>, \<^verbatim>\<open>AdaptiveQueueProps\<close>
    (\<^verbatim>\<open>engine/adaptive_queue.py\<close>), \<^verbatim>\<open>TcpFanout\<close>, \<^verbatim>\<open>BatchScheduler\<close> (\<^verbatim>\<open>service/batch_scheduler.py\<close>), \<^verbatim>\<open>BridgePool\<close>
    (\<^verbatim>\<open>engine/bridge_worker_pool.py\<close>), \<^verbatim>\<open>AdaptiveRunner\<close>, \<^verbatim>\<open>SettleProfile\<close>, \<^verbatim>\<open>ProbeLog\<close> (both result loggers and the
    probe executors), \<^verbatim>\<open>PairMatrix\<close> and \<^verbatim>\<open>PairMatrixProps\<close> (\<^verbatim>\<open>engine/pair_matrix_runner.py\<close>), \<^verbatim>\<open>RunControl\<close>
    (\<^verbatim>\<open>service/run_control.py\<close>), \<^verbatim>\<open>RunDeadline\<close>.
  \<^item> The daemon and its host. \<^verbatim>\<open>LuaBridge\<close> (\<^verbatim>\<open>service/lua_bridge_ipc.py\<close> and the reader in Lua), \<^verbatim>\<open>NetnsPool\<close> and
    \<^verbatim>\<open>NetnsPoolProps\<close>, \<^verbatim>\<open>NsFirewall\<close>, \<^verbatim>\<open>Metrics\<close> (the files of these names in \<^verbatim>\<open>service/\<close>).
  \<^item> Networks and names. \<^verbatim>\<open>QuicRaw\<close>, \<^verbatim>\<open>DnsWire\<close>, \<^verbatim>\<open>DnsAudit\<close>, \<^verbatim>\<open>DnsProps\<close> (\<^verbatim>\<open>checkers/dns_secure.py\<close>, \<^verbatim>\<open>engine/dns_pin_service.py\<close>),
    \<^verbatim>\<open>PinFile\<close> (\<^verbatim>\<open>checkers/ip_pin.py\<close>), \<^verbatim>\<open>IpsetCatalog\<close>, \<^verbatim>\<open>IpBlock\<close>,
    \<^verbatim>\<open>GgcPool\<close> (\<^verbatim>\<open>engine/ggc_pool.py\<close>).
  \<^item> Storing and exporting. \<^verbatim>\<open>RunStore\<close>, \<^verbatim>\<open>RunStoreLogic\<close>, \<^verbatim>\<open>RunStoreProps\<close> (\<^verbatim>\<open>engine/store/\<close>), \<^verbatim>\<open>Export\<close>
    (\<^verbatim>\<open>nfconf.py\<close>), \<^verbatim>\<open>Shortlist\<close> (\<^verbatim>\<open>shortlist_export.py\<close>, \<^verbatim>\<open>shortlist_import.py\<close>, \<^verbatim>\<open>provider_import.py\<close>).

  \<^bold>\<open>State and effects.\<close> An object is a record that its operations take and return. Whatever the program asks of the
  outside (clocks, random numbers, commands, sockets, files, SQLite, the digests of \<^verbatim>\<open>hashlib\<close>) is an argument: a function,
  a stream of answers, or a record of such functions; what the proofs need of it is a named hypothesis such as
  \<open>steady_env\<close>, and each theorem with hypotheses has a witness on a concrete instance. Tasks of asyncio interleave at
  their awaits: as step relations (\<^verbatim>\<open>RunDeadline\<close>, \<^verbatim>\<open>RunControl\<close>), as schedules (\<^verbatim>\<open>PairMatrix\<close>, \<^verbatim>\<open>NetnsPool\<close>), or as what
  arrives in a buffer during a call (\<^verbatim>\<open>RunStore\<close>). Floating-point numbers are exact rationals; addresses and octets of
  packets are words of their width; characters are the first 256 code points.

  \<^bold>\<open>Interfaces.\<close> \<open>step_system\<close> (an invariant that every operation keeps: the queue, the weights, the open batch, the quarantine),
  \<open>batching\<close> (a partition into bounded batches: strategies, jobs, domains), \<open>codec\<close> (writing and reading back: triage
  profiles, weight rows, the run lock), \<open>priority_queue\<close> (a heap: Python's \<^verbatim>\<open>heapq\<close>, on which the queue rests), \<open>key_order\<close>
  (a strict order for stable sorting: strings, pair keys), \<open>append_log\<close> (operations that append to a log: the TCP and
  the UDP results of the store), \<open>strategy_lane\<close> (what an operation of the matrix generator promises: TCP, HTTP, UDP and
  QUIC). Each is interpreted on the model's own definitions.

  \<^bold>\<open>What is shown.\<close>

  \<^item> The queue never repeats a completed pair, always finds a pending job that is allowed, loses none, and holds exactly the
    matrix minus what is settled; workers account for every job once, also over whole runs of several rounds.
  \<^item> The store refines an append-only log under all faults of the database but cancellation; the queries answer
    from that log; a resumed campaign tests exactly the open pairs; loggers leave one row for each probe and count only
    passes that the daemon confirmed.
  \<^item> The generator stays in its cap, repeats nothing, starves no family, and what it makes is classified back to its
    family; pairs are complete and sorted; the early stop of the Flowseal matrix changes nothing.
  \<^item> Publishing a strategy is atomic for a reader; one run at most holds the lock; the deadline never comes early; a
    namespace is never in two hands, and pool, firewall and process tree leave nothing unaccounted.
  \<^item> The DNS reader inverts the wire format and stays in its bounds on any input; only addresses that passed both
    probes become pins; what is exported worked, and what is imported counts as working.

  \<^bold>\<open>Bounds and fuel.\<close> The loop of \<open>pop\<close> runs on \<open>2 * length heap + 1\<close> steps, the worker of a fixed queue on
  \<open>2 * length queue + 1\<close>; both are shown to be enough, so that running out never decides a result. The rounds of the worker of an adaptive run
  are any number given to it, because other workers decide when the queue is empty. A flush tries five times and a query three times,
  as in the source. Names in DNS messages are followed for 128 labels and answers for 20 records, the limits of the source.
  Up to 64 addresses are exported in line. Everything else recurses on its data.

  \<^bold>\<open>Not modelled.\<close> The command line and its option objects, the orchestration of the scan phases (\<^verbatim>\<open>main_phases.py\<close>,
  \<^verbatim>\<open>cli/\<close>), the servers (\<^verbatim>\<open>mcp/\<close>, \<^verbatim>\<open>service/server.py\<close>), the probes over sockets and curl (\<^verbatim>\<open>checkers/\<close> other than above), the data
  store of the providers (\<^verbatim>\<open>data_block/\<close>), the start of the packet daemon and the processes around it, the inspection of the
  host (\<^verbatim>\<open>engine/preflight.py\<close>, \<^verbatim>\<open>engine/system_deps.py\<close>), housekeeping of files and logs, and settings, paths, console
  output and log lines: they are input and output over external programs, or pass values on to what is modelled. Their results are
  arguments where modelled code uses them. Within the modelled sources, text that is only printed is left out.
\<close>

end
